(* ===== verification/Prelude.thy ===== *)
theory Prelude
  imports Main "HOL-Library.Char_ord" "HOL-Library.List_Lexorder"
begin

text \<open>
  The vocabulary every component theory shares.

  \<^item> Exceptions: \<open>exc\<close> has one constructor for each kind of exception the sources raise or
    let through, and a fallible piece of code has type \<open>exc + 'a\<close> (\<open>Inl\<close> the exception).
    \<open>ebind\<close> is sequential execution: the first exception ends the block.
  \<^item> Values: identifiers are the canonical text of a UUID, instants are microseconds since the
    epoch, and \<open>json\<close> is what goes through \<open>json.dumps\<close>/\<open>json.loads\<close> and \<open>jsonb\<close> columns.  An
    ISO-8601 string is kept as the instant it denotes (\<open>JTime\<close>), since the sources only ever
    print an instant and read it back.
  \<^item> Tables: a table is the list of its rows.  \<open>upd_where\<close> is \<open>UPDATE ... SET ... WHERE\<close>,
    \<open>filter\<close> is \<open>SELECT ... WHERE\<close>, and \<open>sort_key\<close> is \<open>ORDER BY\<close>.
\<close>

named_theorems table_simps \<open>rewriting of row sets after an update or an insert\<close>
named_theorems inv_intros \<open>an operation keeps a component invariant\<close>
named_theorems inv_dests \<open>what a component invariant gives\<close>

section \<open>Exceptions and sequential execution\<close>

type_synonym uuid = string
type_synonym time = int
type_synonym seat_id = string

text \<open>
  \<open>Failure code status\<close> is the business exception of \<open>domain.py\<close>.  The others are the library
  exceptions that the code lets escape: row locks that are taken, violated table constraints
  (by the constraint's name), an unusable database, a Redis error, and Python's own exceptions
  (by class name).
\<close>

datatype exc =
    Failure string int
  | LockNotAvailable
  | IntegrityError string
  | DatabaseUnavailable
  | RedisError
  | PyError string

type_synonym 'a result = "exc + 'a"

definition ebind :: "'a result \<Rightarrow> ('a \<Rightarrow> 'b result) \<Rightarrow> 'b result" where
  "ebind m f = (case m of Inl e \<Rightarrow> Inl e | Inr x \<Rightarrow> f x)"

lemma ebind_simps [simp]:
  "ebind (Inl e) f = Inl e"
  "ebind (Inr x) f = f x"
  by (simp_all add: ebind_def)

lemma ebind_Inr_iff: "ebind m f = Inr y \<longleftrightarrow> (\<exists>x. m = Inr x \<and> f x = Inr y)"
  by (cases m) simp_all

lemma ebind_Inl_iff: "ebind m f = Inl e \<longleftrightarrow> m = Inl e \<or> (\<exists>x. m = Inr x \<and> f x = Inl e)"
  by (cases m) simp_all

lemma ebind_InrE [elim]:
  assumes "ebind m f = Inr y"
  obtains x where "m = Inr x" and "f x = Inr y"
  using assms by (auto simp: ebind_Inr_iff)

lemma ebind_cong [fundef_cong]:
  "m = m' \<Longrightarrow> (\<And>x. m' = Inr x \<Longrightarrow> f x = f' x) \<Longrightarrow> ebind m f = ebind m' f'"
  by (cases m') simp_all

text \<open>A guard that raises: \<open>if not ok: raise e\<close>.\<close>

definition require :: "bool \<Rightarrow> exc \<Rightarrow> unit result" where
  "require ok e = (if ok then Inr () else Inl e)"

lemma require_Inr [simp]: "require ok e = Inr u \<longleftrightarrow> ok"
  by (simp add: require_def)

lemma require_Inl [simp]: "require ok e = Inl e' \<longleftrightarrow> \<not> ok \<and> e' = e"
  by (auto simp: require_def)

lemma require_True [simp]: "ok \<Longrightarrow> require ok e = Inr ()"
  by (simp add: require_def)

lemma require_False [simp]: "\<not> ok \<Longrightarrow> require ok e = Inl e"
  by (simp add: require_def)

text \<open>Subscripting what \<open>fetchone()\<close> returned: \<open>None["x"]\<close> raises \<open>TypeError\<close>.\<close>

definition not_none :: "'a option \<Rightarrow> 'a result" where
  "not_none r = (case r of None \<Rightarrow> Inl (PyError ''TypeError'') | Some x \<Rightarrow> Inr x)"

lemma not_none_simps [simp]:
  "not_none (Some x) = Inr x"
  "not_none None = Inl (PyError ''TypeError'')"
  by (simp_all add: not_none_def)

lemma not_none_Inr [simp]: "not_none r = Inr x \<longleftrightarrow> r = Some x"
  by (simp add: not_none_def split: option.splits)

section \<open>JSON values\<close>

datatype json =
    JNull
  | JBool bool
  | JInt int
  | JStr string
  | JTime time
  | JArr "json list"
  | JObj "(string \<times> json) list"

text \<open>\<open>d.get(k)\<close>, \<open>d[k]\<close> (which raises \<open>KeyError\<close>, or \<open>TypeError\<close> off a dictionary) and \<open>{**d, k: v}\<close> on a dictionary.\<close>

fun jget :: "string \<Rightarrow> json \<Rightarrow> json option" where
  "jget k (JObj kvs) = map_of kvs k"
| "jget k _ = None"

definition jindex :: "string \<Rightarrow> json \<Rightarrow> json result" where
  "jindex k j = (case j of
       JObj kvs \<Rightarrow> (case map_of kvs k of None \<Rightarrow> Inl (PyError ''KeyError'') | Some v \<Rightarrow> Inr v)
     | _ \<Rightarrow> Inl (PyError ''TypeError''))"

fun jset_list :: "string \<Rightarrow> json \<Rightarrow> (string \<times> json) list \<Rightarrow> (string \<times> json) list" where
  "jset_list k v [] = [(k, v)]"
| "jset_list k v ((k', v') # kvs) = (if k = k' then (k, v) # kvs else (k', v') # jset_list k v kvs)"

fun jset :: "string \<Rightarrow> json \<Rightarrow> json \<Rightarrow> json" where
  "jset k v (JObj kvs) = JObj (jset_list k v kvs)"
| "jset k v j = j"

lemma map_of_jset_list [simp]: "map_of (jset_list k v kvs) = (map_of kvs)(k \<mapsto> v)"
  by (induction k v kvs rule: jset_list.induct) auto

lemma jget_jset: "jget k' (jset k v (JObj kvs)) = (if k' = k then Some v else map_of kvs k')"
  by simp

lemma jindex_Inr [simp]: "jindex k j = Inr v \<longleftrightarrow> jget k j = Some v"
  by (cases j) (simp_all add: jindex_def split: option.splits)

text \<open>\<open>sort_keys=True\<close>: every object's members in key order, at every depth.\<close>

fun sort_keys :: "json \<Rightarrow> json" where
  "sort_keys (JArr js) = JArr (map sort_keys js)"
| "sort_keys (JObj kvs) = JObj (sort_key fst (map (\<lambda>(k, v). (k, sort_keys v)) kvs))"
| "sort_keys j = j"

section \<open>Tables as lists of rows\<close>

definition upd_where :: "('r \<Rightarrow> bool) \<Rightarrow> ('r \<Rightarrow> 'r) \<Rightarrow> 'r list \<Rightarrow> 'r list" where
  "upd_where P f rs = map (\<lambda>r. if P r then f r else r) rs"

lemma upd_where_Nil [simp]: "upd_where P f [] = []"
  by (simp add: upd_where_def)

lemma upd_where_Cons [simp]:
  "upd_where P f (r # rs) = (if P r then f r else r) # upd_where P f rs"
  by (simp add: upd_where_def)

lemma length_upd_where [simp]: "length (upd_where P f rs) = length rs"
  by (simp add: upd_where_def)

lemma upd_where_append [simp]: "upd_where P f (rs @ rs') = upd_where P f rs @ upd_where P f rs'"
  by (simp add: upd_where_def)

lemma set_upd_where [table_simps]:
  "set (upd_where P f rs) = (\<lambda>r. if P r then f r else r) ` set rs"
  by (simp add: upd_where_def)

lemma bex_upd_where [table_simps]:
  "(\<exists>r\<in>set (upd_where P f rs). Q r) \<longleftrightarrow> (\<exists>r\<in>set rs. Q (if P r then f r else r))"
  unfolding set_upd_where by blast

lemma ball_upd_where [table_simps]:
  "(\<forall>r\<in>set (upd_where P f rs). Q r) \<longleftrightarrow> (\<forall>r\<in>set rs. Q (if P r then f r else r))"
  unfolding set_upd_where by blast

lemma bex_upd_where_same:
  assumes "\<And>r. Q (f r) = Q r"
  shows "(\<exists>r\<in>set (upd_where P f rs). Q r) \<longleftrightarrow> (\<exists>r\<in>set rs. Q r)"
  by (simp add: bex_upd_where if_distrib [where f = Q] assms)

lemma in_upd_whereE:
  assumes "r \<in> set (upd_where P f rs)"
  obtains (old) "r \<in> set rs" and "\<not> P r"
    | (new) r0 where "r0 \<in> set rs" and "P r0" and "r = f r0"
  using assms by (auto simp: set_upd_where split: if_splits)

lemma upd_where_mem: "r \<in> set rs \<Longrightarrow> (if P r then f r else r) \<in> set (upd_where P f rs)"
  by (auto simp: set_upd_where)

lemma upd_where_cong_key:
  assumes "\<And>r. key (f r) = key r"
  shows "map key (upd_where P f rs) = map key rs"
  using assms by (auto simp: upd_where_def)

lemma image_upd_where [table_simps]:
  assumes "\<And>r. key (f r) = key r"
  shows "key ` set (upd_where P f rs) = key ` set rs"
  using upd_where_cong_key [of key f P rs, OF assms] by (metis list.set_map)

lemma upd_where_id: "(\<And>r. r \<in> set rs \<Longrightarrow> \<not> P r) \<Longrightarrow> upd_where P f rs = rs"
  by (induction rs) auto

lemma filter_upd_where:
  assumes "\<And>r. Q (f r) = Q r"
  shows "filter Q (upd_where P f rs) = upd_where P f (filter Q rs)"
  by (induction rs) (auto simp: assms)

lemma find_upd_where:
  assumes "\<And>r. Q (f r) = Q r"
  shows "find Q (upd_where P f rs) = map_option (\<lambda>r. if P r then f r else r) (find Q rs)"
  by (induction rs) (auto simp: assms)

subsection \<open>Look-ups on a unique column\<close>

lemma find_Some_mem: "find P xs = Some x \<Longrightarrow> x \<in> set xs \<and> P x"
  by (induction xs) (auto split: if_splits)

lemma find_key_iff:
  assumes "distinct (map key rs)"
  shows "find (\<lambda>r. key r = k) rs = Some r \<longleftrightarrow> r \<in> set rs \<and> key r = k"
  using assms by (induction rs) auto

lemma find_key_None: "find (\<lambda>r. key r = k) rs = None \<longleftrightarrow> k \<notin> key ` set rs"
  by (induction rs) auto

lemma key_unique:
  assumes "distinct (map key rs)" and "r \<in> set rs" and "r' \<in> set rs" and "key r = key r'"
  shows "r = r'"
  using assms by (auto simp: distinct_map dest: inj_onD)

lemma distinct_key_append:
  "distinct (map key (rs @ [r])) \<longleftrightarrow> distinct (map key rs) \<and> key r \<notin> key ` set rs"
  by auto

text \<open>\<open>any(...)\<close> and \<open>all(...)\<close> over rows are \<open>list_ex\<close> and \<open>list_all\<close>; both are about the set.\<close>

lemmas row_quantifiers = list_ex_iff list_all_iff

end
