(* ===== verification/Domain.thy ===== *)
theory Domain
  imports Prelude
begin

text \<open>
  \<open>src/ticketing/domain.py\<close>: the payment decision, and the vocabularies of states that the
  \<open>CHECK\<close> constraints of \<open>migrations/001_initial.sql\<close> fix.
\<close>

datatype hold_status = H_ACTIVE | H_RELEASED | H_EXPIRED | H_CONSUMED

datatype order_status =
  O_PENDING | O_FAILED | O_EXPIRED | O_REFUND_PENDING | O_REFUNDED | O_PAID | O_FULFILLED

datatype payment_status = P_PENDING | P_FAILED | P_SUCCEEDED

datatype outcome = SUCCEEDED | FAILED

datatype decision = D_UNCHANGED | D_FAILED | D_BOOK | D_REFUND

definition payment_decision :: "order_status \<Rightarrow> bool \<Rightarrow> outcome \<Rightarrow> decision" where
  "payment_decision order_status valid_hold outcome =
     (if order_status \<in> {O_PAID, O_FULFILLED} then D_UNCHANGED
      else if outcome = FAILED
      then (if order_status = O_PENDING then D_FAILED else D_UNCHANGED)
      else if order_status = O_PENDING \<and> valid_hold then D_BOOK else D_REFUND)"

definition sold :: "order_status \<Rightarrow> bool" where
  "sold s \<longleftrightarrow> s \<in> {O_PAID, O_FULFILLED}"

lemma sold_simps [simp]:
  "sold O_PAID" "sold O_FULFILLED" "\<not> sold O_PENDING" "\<not> sold O_FAILED" "\<not> sold O_EXPIRED"
  "\<not> sold O_REFUND_PENDING" "\<not> sold O_REFUNDED"
  by (simp_all add: sold_def)

lemma decision_BOOK_iff:
  "payment_decision s v oc = D_BOOK \<longleftrightarrow> s = O_PENDING \<and> v \<and> oc = SUCCEEDED"
  by (cases oc) (auto simp: payment_decision_def)

lemma decision_REFUND_iff:
  "payment_decision s v oc = D_REFUND \<longleftrightarrow> oc = SUCCEEDED \<and> \<not> sold s \<and> \<not> (s = O_PENDING \<and> v)"
  by (cases oc) (auto simp: payment_decision_def sold_def)

lemma decision_FAILED_iff:
  "payment_decision s v oc = D_FAILED \<longleftrightarrow> s = O_PENDING \<and> oc = FAILED"
  by (cases oc) (auto simp: payment_decision_def)

text \<open>The strings the code stores for the states (\<open>status\<close> fields of JSON answers).\<close>

fun order_status_str :: "order_status \<Rightarrow> string" where
  "order_status_str O_PENDING = ''PENDING''"
| "order_status_str O_FAILED = ''FAILED''"
| "order_status_str O_EXPIRED = ''EXPIRED''"
| "order_status_str O_REFUND_PENDING = ''REFUND_PENDING''"
| "order_status_str O_REFUNDED = ''REFUNDED''"
| "order_status_str O_PAID = ''PAID''"
| "order_status_str O_FULFILLED = ''FULFILLED''"

fun outcome_str :: "outcome \<Rightarrow> string" where
  "outcome_str SUCCEEDED = ''SUCCEEDED''"
| "outcome_str FAILED = ''FAILED''"

text \<open>\<open>decision.lower()\<close>, the status a callback answers with.\<close>

fun decision_lower :: "decision \<Rightarrow> string" where
  "decision_lower D_UNCHANGED = ''unchanged''"
| "decision_lower D_FAILED = ''failed''"
| "decision_lower D_BOOK = ''book''"
| "decision_lower D_REFUND = ''refund''"

fun payment_status_of :: "outcome \<Rightarrow> payment_status" where
  "payment_status_of SUCCEEDED = P_SUCCEEDED"
| "payment_status_of FAILED = P_FAILED"

text \<open>
  A financial success is never discarded: unless the order is already sold, a success books or
  refunds, and it books exactly when the checkout is still pending on a valid hold.
\<close>

lemma decision_keeps_success:
  "payment_decision s v SUCCEEDED = (if sold s then D_UNCHANGED
     else if s = O_PENDING \<and> v then D_BOOK else D_REFUND)"
  by (auto simp: payment_decision_def sold_def)

end
