(* ===== verification/Schema.thy ===== *)
theory Schema
  imports Domain
begin

text \<open>
  The PostgreSQL schema of \<open>src/migrations/*.sql\<close>: one record type per table, the database as
  the record of its tables, and for every \<open>INSERT\<close> and for the \<open>UPDATE\<close> of \<open>event_seats\<close> the
  constraints the schema attaches to it (primary keys, \<open>UNIQUE\<close>, foreign keys, \<open>CHECK\<close>).  A
  violated constraint raises \<open>IntegrityError\<close> with the constraint's name, as the server does.
  Columns of type \<open>bigint\<close> are unbounded integers here; no operation of the program multiplies.
\<close>

section \<open>Rows\<close>

record event_row =
  ev_id :: uuid
  ev_title :: string
  ev_currency :: string
  ev_sale_starts :: time
  ev_sale_ends :: time

record hold_row =
  h_id :: uuid
  h_actor :: string
  h_event :: uuid
  h_expires :: time
  h_status :: hold_status

record order_row =
  o_id :: uuid
  o_actor :: string
  o_hold :: uuid
  o_event :: uuid
  o_total :: int
  o_currency :: string
  o_status :: order_status
  o_created :: time

record seat_row =
  s_event :: uuid
  s_id :: seat_id
  s_price :: int
  s_hold :: "uuid option"
  s_until :: "time option"
  s_booked :: "uuid option"
  s_version :: int

record item_row =
  i_order :: uuid
  i_event :: uuid
  i_seat :: seat_id
  i_price :: int

record booking_row =
  b_id :: uuid
  b_event :: uuid
  b_seat :: seat_id
  b_order :: uuid

record idem_row =
  k_actor :: string
  k_operation :: string
  k_key :: string
  k_request_hash :: string
  k_response :: "json option"

record payment_row =
  p_id :: uuid
  p_order :: uuid
  p_status :: payment_status
  p_outcome :: outcome
  p_due :: time
  p_deliveries :: int
  p_target :: int
  p_lease_until :: "time option"
  p_lease_token :: "uuid option"

record callback_row =
  c_id :: uuid
  c_payment :: uuid
  c_hash :: string

datatype refund_status = R_PENDING | R_REFUNDED

record refund_row =
  r_payment :: uuid
  r_order :: uuid
  r_status :: refund_status

record outbox_row =
  x_id :: uuid
  x_aggregate :: uuid
  x_type :: string
  x_schema_version :: int
  x_payload :: json
  x_occurred :: time
  x_published :: "time option"
  x_lease_until :: "time option"
  x_lease_token :: "uuid option"

record ticket_row =
  t_id :: uuid
  t_booking :: uuid

record dead_letter_row =
  d_id :: uuid
  d_payload :: json
  d_error :: string

record refresh_row =
  f_event :: uuid
  f_generation :: int
  f_completed :: int
  f_requested :: time
  f_next_attempt :: time
  f_lease_until :: "time option"
  f_lease_token :: "uuid option"
  f_seats :: "seat_id list option"

record reconcile_row =
  q_event :: uuid
  q_next_due :: time
  q_last :: "time option"
  q_failures :: nat
  q_lease_until :: "time option"
  q_lease_token :: "uuid option"
  q_claimed :: "time option"

record command_row =
  m_id :: uuid
  m_actor :: string
  m_key :: string
  m_request_hash :: string
  m_event :: uuid
  m_hold :: uuid
  m_order :: uuid
  m_response :: json

record db =
  events :: "event_row list"
  holds :: "hold_row list"
  orders :: "order_row list"
  event_seats :: "seat_row list"
  order_items :: "item_row list"
  bookings :: "booking_row list"
  idempotency_records :: "idem_row list"
  payment_attempts :: "payment_row list"
  payment_callbacks :: "callback_row list"
  refund_requests :: "refund_row list"
  outbox_events :: "outbox_row list"
  consumer_inbox :: "(string \<times> uuid) list"
  tickets :: "ticket_row list"
  dead_letters :: "dead_letter_row list"
  seat_refresh_requests :: "refresh_row list"
  event_reconciliation :: "reconcile_row list"
  reservation_commands :: "command_row list"

section \<open>Keys\<close>

definition seat_key :: "seat_row \<Rightarrow> uuid \<times> seat_id" where
  "seat_key s = (s_event s, s_id s)"

definition item_key :: "item_row \<Rightarrow> uuid \<times> seat_id" where
  "item_key i = (i_order i, i_seat i)"

definition item_seat :: "item_row \<Rightarrow> uuid \<times> seat_id" where
  "item_seat i = (i_event i, i_seat i)"

definition booking_key :: "booking_row \<Rightarrow> uuid \<times> seat_id" where
  "booking_key b = (b_event b, b_seat b)"

definition idem_key :: "idem_row \<Rightarrow> string \<times> string \<times> string" where
  "idem_key k = (k_actor k, k_operation k, k_key k)"

lemmas key_defs = seat_key_def item_key_def item_seat_def booking_key_def idem_key_def

definition find_event :: "uuid \<Rightarrow> db \<Rightarrow> event_row option" where
  "find_event e d = find (\<lambda>r. ev_id r = e) (events d)"

definition find_hold :: "uuid \<Rightarrow> db \<Rightarrow> hold_row option" where
  "find_hold h d = find (\<lambda>r. h_id r = h) (holds d)"

definition find_order :: "uuid \<Rightarrow> db \<Rightarrow> order_row option" where
  "find_order oid d = find (\<lambda>r. o_id r = oid) (orders d)"

definition find_payment :: "uuid \<Rightarrow> db \<Rightarrow> payment_row option" where
  "find_payment p d = find (\<lambda>r. p_id r = p) (payment_attempts d)"

lemmas find_row_defs = find_event_def find_hold_def find_order_def find_payment_def

lemma find_row_Some:
  "find_event e d = Some ev \<Longrightarrow> ev \<in> set (events d) \<and> ev_id ev = e"
  "find_hold h d = Some hr \<Longrightarrow> hr \<in> set (holds d) \<and> h_id hr = h"
  "find_order oid d = Some r \<Longrightarrow> r \<in> set (orders d) \<and> o_id r = oid"
  "find_payment pid d = Some p \<Longrightarrow> p \<in> set (payment_attempts d) \<and> p_id p = pid"
  unfolding find_row_defs by (drule find_Some_mem, simp)+

section \<open>Inserts with their constraints\<close>

definition insert_hold :: "hold_row \<Rightarrow> db \<Rightarrow> db result" where
  "insert_hold r d =
     (if h_id r \<in> h_id ` set (holds d) then Inl (IntegrityError ''holds_pkey'')
      else if h_event r \<notin> ev_id ` set (events d) then Inl (IntegrityError ''holds_event_id_fkey'')
      else Inr (d\<lparr>holds := holds d @ [r]\<rparr>))"

definition insert_order :: "order_row \<Rightarrow> db \<Rightarrow> db result" where
  "insert_order r d =
     (if o_id r \<in> o_id ` set (orders d) then Inl (IntegrityError ''orders_pkey'')
      else if o_hold r \<in> o_hold ` set (orders d) then Inl (IntegrityError ''orders_hold_id_key'')
      else if o_hold r \<notin> h_id ` set (holds d) then Inl (IntegrityError ''orders_hold_id_fkey'')
      else if o_event r \<notin> ev_id ` set (events d) then Inl (IntegrityError ''orders_event_id_fkey'')
      else if o_total r < 0 then Inl (IntegrityError ''orders_total_check'')
      else Inr (d\<lparr>orders := orders d @ [r]\<rparr>))"

definition insert_item :: "item_row \<Rightarrow> db \<Rightarrow> db result" where
  "insert_item r d =
     (if item_key r \<in> item_key ` set (order_items d) then Inl (IntegrityError ''order_items_pkey'')
      else if i_order r \<notin> o_id ` set (orders d) then Inl (IntegrityError ''order_items_order_id_fkey'')
      else if item_seat r \<notin> seat_key ` set (event_seats d)
      then Inl (IntegrityError ''order_items_event_id_seat_id_fkey'')
      else Inr (d\<lparr>order_items := order_items d @ [r]\<rparr>))"

definition insert_booking :: "booking_row \<Rightarrow> db \<Rightarrow> db result" where
  "insert_booking r d =
     (if b_id r \<in> b_id ` set (bookings d) then Inl (IntegrityError ''bookings_pkey'')
      else if booking_key r \<in> booking_key ` set (bookings d)
      then Inl (IntegrityError ''bookings_event_id_seat_id_key'')
      else if b_order r \<notin> o_id ` set (orders d) then Inl (IntegrityError ''bookings_order_id_fkey'')
      else if booking_key r \<notin> seat_key ` set (event_seats d)
      then Inl (IntegrityError ''bookings_event_id_seat_id_fkey'')
      else Inr (d\<lparr>bookings := bookings d @ [r]\<rparr>))"

definition insert_payment :: "payment_row \<Rightarrow> db \<Rightarrow> db result" where
  "insert_payment r d =
     (if p_id r \<in> p_id ` set (payment_attempts d) then Inl (IntegrityError ''payment_attempts_pkey'')
      else if p_order r \<in> p_order ` set (payment_attempts d)
      then Inl (IntegrityError ''payment_attempts_order_id_key'')
      else if p_order r \<notin> o_id ` set (orders d)
      then Inl (IntegrityError ''payment_attempts_order_id_fkey'')
      else if p_target r < 1 \<or> 10 < p_target r
      then Inl (IntegrityError ''payment_attempts_target_deliveries_check'')
      else Inr (d\<lparr>payment_attempts := payment_attempts d @ [r]\<rparr>))"

definition insert_callback :: "callback_row \<Rightarrow> db \<Rightarrow> db result" where
  "insert_callback r d =
     (if c_id r \<in> c_id ` set (payment_callbacks d) then Inl (IntegrityError ''payment_callbacks_pkey'')
      else if c_payment r \<notin> p_id ` set (payment_attempts d)
      then Inl (IntegrityError ''payment_callbacks_payment_id_fkey'')
      else Inr (d\<lparr>payment_callbacks := payment_callbacks d @ [r]\<rparr>))"

text \<open>\<open>INSERT INTO refund_requests ... ON CONFLICT DO NOTHING\<close>.\<close>

definition insert_refund :: "refund_row \<Rightarrow> db \<Rightarrow> db result" where
  "insert_refund r d =
     (if r_payment r \<in> r_payment ` set (refund_requests d) then Inr d
      else if r_payment r \<notin> p_id ` set (payment_attempts d)
      then Inl (IntegrityError ''refund_requests_payment_id_fkey'')
      else if r_order r \<notin> o_id ` set (orders d)
      then Inl (IntegrityError ''refund_requests_order_id_fkey'')
      else Inr (d\<lparr>refund_requests := refund_requests d @ [r]\<rparr>))"

definition insert_outbox :: "outbox_row \<Rightarrow> db \<Rightarrow> db result" where
  "insert_outbox r d =
     (if x_id r \<in> x_id ` set (outbox_events d) then Inl (IntegrityError ''outbox_events_pkey'')
      else Inr (d\<lparr>outbox_events := outbox_events d @ [r]\<rparr>))"

text \<open>
  \<open>INSERT INTO tickets ... ON CONFLICT DO NOTHING\<close>: a clash on the primary key or on
  \<open>UNIQUE(booking_id)\<close> skips the row.
\<close>

definition insert_ticket :: "ticket_row \<Rightarrow> db \<Rightarrow> db result" where
  "insert_ticket r d =
     (if t_id r \<in> t_id ` set (tickets d) \<or> t_booking r \<in> t_booking ` set (tickets d) then Inr d
      else if t_booking r \<notin> b_id ` set (bookings d)
      then Inl (IntegrityError ''tickets_booking_id_fkey'')
      else Inr (d\<lparr>tickets := tickets d @ [r]\<rparr>))"

definition insert_command :: "command_row \<Rightarrow> db \<Rightarrow> db result" where
  "insert_command r d =
     (if m_id r \<in> m_id ` set (reservation_commands d) then Inl (IntegrityError ''reservation_commands_pkey'')
      else if m_hold r \<in> m_hold ` set (reservation_commands d)
      then Inl (IntegrityError ''reservation_commands_hold_id_key'')
      else if m_order r \<in> m_order ` set (reservation_commands d)
      then Inl (IntegrityError ''reservation_commands_order_id_key'')
      else if m_event r \<notin> ev_id ` set (events d)
      then Inl (IntegrityError ''reservation_commands_event_id_fkey'')
      else Inr (d\<lparr>reservation_commands := reservation_commands d @ [r]\<rparr>))"

lemmas insert_defs = insert_hold_def insert_order_def insert_item_def insert_booking_def
  insert_payment_def insert_callback_def insert_refund_def insert_outbox_def insert_ticket_def
  insert_command_def

subsection \<open>Updating \<open>event_seats\<close>\<close>

text \<open>
  The two \<open>CHECK\<close>s of \<open>event_seats\<close> and its two nullable foreign keys, and an \<open>UPDATE\<close> that
  refuses to leave a changed row in violation.
\<close>

definition seat_check :: "seat_row \<Rightarrow> bool" where
  "seat_check s \<longleftrightarrow> (s_hold s = None \<longleftrightarrow> s_until s = None) \<and> (s_booked s = None \<or> s_hold s = None)"

definition seat_refs :: "db \<Rightarrow> seat_row \<Rightarrow> bool" where
  "seat_refs d s \<longleftrightarrow>
     (case s_hold s of None \<Rightarrow> True | Some h \<Rightarrow> h \<in> h_id ` set (holds d)) \<and>
     (case s_booked s of None \<Rightarrow> True | Some oid \<Rightarrow> oid \<in> o_id ` set (orders d))"

definition update_seats :: "(seat_row \<Rightarrow> bool) \<Rightarrow> (seat_row \<Rightarrow> seat_row) \<Rightarrow> db \<Rightarrow> db result" where
  "update_seats P f d =
     (if \<not> list_all (\<lambda>s. P s \<longrightarrow> seat_check (f s)) (event_seats d)
      then Inl (IntegrityError ''event_seats_check'')
      else if \<not> list_all (\<lambda>s. P s \<longrightarrow> seat_refs d (f s)) (event_seats d)
      then Inl (IntegrityError ''event_seats_fkey'')
      else Inr (d\<lparr>event_seats := upd_where P f (event_seats d)\<rparr>))"

lemma update_seats_Inr:
  "update_seats P f d = Inr d' \<longleftrightarrow>
     (\<forall>s\<in>set (event_seats d). P s \<longrightarrow> seat_check (f s) \<and> seat_refs d (f s)) \<and>
     d' = d\<lparr>event_seats := upd_where P f (event_seats d)\<rparr>"
  by (auto simp: update_seats_def list_all_iff)

end
