(* ===== verification/Shield.thy ===== *)
theory Shield
  imports Schema
begin

text \<open>
  The per-seat admission shield of \<open>RedisSeats.shield\<close> (\<open>infrastructure/cache.py\<close>) with its two
  Lua scripts, and the per-actor rate limiter.  A Redis string key is a value with an expiry
  instant; a key past its expiry does not exist.  A Lua script runs atomically.
\<close>

type_synonym shields = "string \<Rightarrow> (string \<times> time) option"

section \<open>Definitions\<close>

definition redis_get :: "time \<Rightarrow> shields \<Rightarrow> string \<Rightarrow> string option" where
  "redis_get now sh k = (case sh k of None \<Rightarrow> None | Some (v, until) \<Rightarrow> if now < until then Some v else None)"

text \<open>\<open>ACQUIRE\<close>: refuse if any key exists, otherwise set all of them with a \<open>PX\<close> lifetime.\<close>

definition acquire_script :: "time \<Rightarrow> string list \<Rightarrow> string \<Rightarrow> int \<Rightarrow> shields \<Rightarrow> bool \<times> shields" where
  "acquire_script now keys token px sh =
     (if list_ex (\<lambda>k. redis_get now sh k \<noteq> None) keys then (False, sh)
      else (True, fold (\<lambda>k m. m(k \<mapsto> (token, now + px * 1000))) keys sh))"

text \<open>\<open>RELEASE\<close>: delete each key that still holds this token.\<close>

definition release_script :: "time \<Rightarrow> string list \<Rightarrow> string \<Rightarrow> shields \<Rightarrow> shields" where
  "release_script now keys token sh =
     fold (\<lambda>k m. if redis_get now m k = Some token then m(k := None) else m) keys sh"

definition shield_key :: "uuid \<Rightarrow> seat_id \<Rightarrow> string" where
  "shield_key event seat = ''shield:{'' @ event @ ''}:'' @ seat"

text \<open>
  The two ends of the \<open>with self.cache.shield(...)\<close> block.  \<open>up\<close> says whether the Redis call
  succeeds; an error on the way in is an admission failure, an error on the way out is ignored
  and leaves the keys to their lifetime.
\<close>

definition shield_enter :: "bool \<Rightarrow> time \<Rightarrow> string \<Rightarrow> uuid \<Rightarrow> seat_id list \<Rightarrow> shields \<Rightarrow> shields result" where
  "shield_enter up now token event seats sh =
     (if \<not> up then Inl (Failure ''ADMISSION_UNAVAILABLE'' 503)
      else case acquire_script now (map (shield_key event) seats) token 2000 sh of
        (False, _) \<Rightarrow> Inl (Failure ''SEAT_BUSY'' 409)
      | (True, sh') \<Rightarrow> Inr sh')"

definition shield_exit :: "bool \<Rightarrow> time \<Rightarrow> string \<Rightarrow> uuid \<Rightarrow> seat_id list \<Rightarrow> shields \<Rightarrow> shields" where
  "shield_exit up now token event seats sh =
     (if up then release_script now (map (shield_key event) seats) token sh else sh)"

text \<open>
  \<open>RATE\<close> and \<open>rate_limit\<close>: a counter per actor that lives for one second from its first
  increment; the 21st call within that second is refused.
\<close>

type_synonym rates = "string \<Rightarrow> (nat \<times> time) option"

definition rate_script :: "time \<Rightarrow> string \<Rightarrow> rates \<Rightarrow> nat \<times> rates" where
  "rate_script now k rs =
     (case rs k of
        Some (n, until) \<Rightarrow>
          if now < until then (n + 1, rs(k \<mapsto> (n + 1, until))) else (1, rs(k \<mapsto> (1, now + 1000000)))
      | None \<Rightarrow> (1, rs(k \<mapsto> (1, now + 1000000))))"

definition rate_limit :: "bool \<Rightarrow> time \<Rightarrow> string \<Rightarrow> rates \<Rightarrow> unit result \<times> rates" where
  "rate_limit up now actor rs =
     (if \<not> up then (Inl (Failure ''ADMISSION_UNAVAILABLE'' 503), rs)
      else case rate_script now (''rate:'' @ actor) rs of
        (n, rs') \<Rightarrow> (if n > 20 then Inl (Failure ''RATE_LIMITED'' 429) else Inr (), rs'))"

section \<open>What the scripts do\<close>

lemma fold_set_keys:
  "fold (\<lambda>k m. m(k \<mapsto> v)) ks (m :: 'k \<rightharpoonup> 'v) = (\<lambda>k. if k \<in> set ks then Some v else m k)"
  by (induction ks arbitrary: m) (auto simp: fun_eq_iff)

lemma acquire_script_True:
  "acquire_script now keys token px sh = (True, sh') \<longleftrightarrow>
     (\<forall>k\<in>set keys. redis_get now sh k = None) \<and>
     sh' = (\<lambda>k. if k \<in> set keys then Some (token, now + px * 1000) else sh k)"
  by (auto simp: acquire_script_def list_ex_iff fold_set_keys)

lemma acquire_script_False:
  "acquire_script now keys token px sh = (False, sh') \<longleftrightarrow>
     (\<exists>k\<in>set keys. redis_get now sh k \<noteq> None) \<and> sh' = sh"
  by (auto simp: acquire_script_def list_ex_iff)

lemma release_script_eq:
  "release_script now keys token sh =
     (\<lambda>k. if k \<in> set keys \<and> redis_get now sh k = Some token then None else sh k)"
proof (induction keys arbitrary: sh)
  case Nil
  then show ?case by (simp add: release_script_def)
next
  case (Cons a keys)
  have "release_script now (a # keys) token sh =
      release_script now keys token (if redis_get now sh a = Some token then sh(a := None) else sh)"
    by (simp add: release_script_def)
  then show ?case
    by (auto simp: Cons.IH redis_get_def fun_eq_iff split: option.splits if_splits)
qed

lemma shield_enter_Inr:
  "shield_enter up now token e ss sh = Inr sh' \<longleftrightarrow>
     up \<and> (\<forall>s\<in>set ss. redis_get now sh (shield_key e s) = None) \<and>
     sh' = (\<lambda>k. if k \<in> shield_key e ` set ss then Some (token, now + 2000000) else sh k)"
proof (cases "acquire_script now (map (shield_key e) ss) token 2000 sh")
  case (Pair ok sh1)
  then show ?thesis
    using acquire_script_True [of now "map (shield_key e) ss" token 2000 sh sh1]
      acquire_script_False [of now "map (shield_key e) ss" token 2000 sh sh1]
    by (cases ok) (auto simp: shield_enter_def)
qed

lemma shield_key_inj: "shield_key e s = shield_key e s' \<longleftrightarrow> s = s'"
  by (simp add: shield_key_def)

text \<open>While a lease lasts, no other attempt for an overlapping set of seats gets in.\<close>

lemma shield_excludes:
  assumes "shield_enter up now token e ss sh = Inr sh1"
    and "s \<in> set ss" and "s \<in> set ss'" and "now' < now + 2000000"
  shows "shield_enter True now' token' e ss' sh1 = Inl (Failure ''SEAT_BUSY'' 409)"
proof -
  have "redis_get now' sh1 (shield_key e s) \<noteq> None"
    using assms by (auto simp: shield_enter_Inr redis_get_def)
  then have "\<not> (\<exists>sh2. shield_enter True now' token' e ss' sh1 = Inr sh2)"
    using assms(3) by (auto simp: shield_enter_Inr)
  then show ?thesis
    by (auto simp: shield_enter_def split: prod.splits bool.splits)
qed

text \<open>A release never removes a key that another token holds.\<close>

lemma shield_exit_other:
  assumes "redis_get now sh k = Some other" and "other \<noteq> token"
  shows "redis_get now (shield_exit up now token e ss sh) k = Some other"
  using assms by (auto simp: shield_exit_def release_script_eq redis_get_def)

text \<open>Entering and leaving within the lease restores every key the block did not find dead.\<close>

lemma shield_round_trip:
  assumes "shield_enter up now token e ss sh = Inr sh1" and "now \<le> now'" and "now' < now + 2000000"
  shows "redis_get now' (shield_exit True now' token e ss sh1) k = redis_get now' sh k"
  using assms
  by (auto simp: shield_enter_Inr shield_exit_def release_script_eq redis_get_def
      split: option.splits if_splits)

end
