(* ===== verification/Seat_Cache.thy ===== *)
theory Seat_Cache
  imports Shield
begin

text \<open>
  The seat map of \<open>RedisSeats\<close> (\<open>infrastructure/cache.py\<close>): one Redis hash per event, written by
  the Lua script \<open>PUT\<close> and read by \<open>BROWSE\<close>, \<open>TOUCH\<close> and \<open>HGETALL\<close>, and the in-process cache
  of encoded bodies behind \<open>browse_encoded\<close>.

  A hash is the record of its fields.  Fields that the scripts always write together are one
  component (\<open>layout\<close> with \<open>layout_etag\<close>; the sale window with the currency), the fields
  \<open>seat:<id>\<close> are the list \<open>sm_seats\<close>, keyed by \<open>cs_id\<close>.  Deadlines stored as epoch seconds are
  kept in microseconds.
\<close>

datatype seat_status = AVAILABLE | HELD | SOLD

record cseat =
  cs_id :: seat_id
  cs_price :: int
  cs_status :: seat_status
  cs_hold :: "uuid option"
  cs_until :: "time option"
  cs_until_epoch :: "time option"
  cs_version :: "int option"
  cs_source :: int

record seatmap =
  sm_version :: "int option"
  sm_updating :: bool
  sm_seats :: "cseat list"
  sm_layout :: "(json \<times> string) option"
  sm_incarnation :: "string option"
  sm_sale :: "(time \<times> time \<times> string) option"
  sm_expires :: "time option"

type_synonym seatmaps = "uuid \<Rightarrow> seatmap"

definition empty_map :: seatmap where
  "empty_map = \<lparr>sm_version = None, sm_updating = False, sm_seats = [], sm_layout = None,
     sm_incarnation = None, sm_sale = None, sm_expires = None\<rparr>"

text \<open>A key past its expiry is gone: commands then see the empty hash.\<close>

definition live :: "time \<Rightarrow> seatmap \<Rightarrow> seatmap" where
  "live now h = (case sm_expires h of None \<Rightarrow> h | Some t \<Rightarrow> if now < t then h else empty_map)"

definition find_cseat :: "seat_id \<Rightarrow> cseat list \<Rightarrow> cseat option" where
  "find_cseat i ss = find (\<lambda>s. cs_id s = i) ss"

text \<open>\<open>HSET key seat:<id> ...\<close>\<close>

fun set_cseat :: "cseat \<Rightarrow> cseat list \<Rightarrow> cseat list" where
  "set_cseat s [] = [s]"
| "set_cseat s (x # xs) = (if cs_id x = cs_id s then s # xs else x # set_cseat s xs)"

section \<open>\<open>PUT\<close>\<close>

text \<open>The first loop: pick the newer of the stored and the offered row, and add up the version.\<close>

definition put_row :: "bool \<Rightarrow> bool \<Rightarrow> cseat list \<Rightarrow> cseat \<Rightarrow> int \<times> cseat list \<Rightarrow> int \<times> cseat list" where
  "put_row full dirty stored seat = (\<lambda>(version, changed).
     let old = find_cseat (cs_id seat) stored;
         newer = (case old of None \<Rightarrow> True | Some o' \<Rightarrow> cs_source seat > cs_source o');
         selected = (case old of None \<Rightarrow> seat | Some o' \<Rightarrow> if newer then seat else o');
         version = (if full then version + cs_source selected
                    else if newer
                    then version + cs_source seat - (case old of None \<Rightarrow> 0 | Some o' \<Rightarrow> cs_source o')
                    else version) in
     (version, if newer \<or> dirty then changed @ [selected] else changed))"

definition put_rows :: "bool \<Rightarrow> seatmap \<Rightarrow> cseat list \<Rightarrow> int \<times> cseat list" where
  "put_rows full h rows =
     fold (put_row full (sm_updating h) (sm_seats h)) rows
       (if full then 0 else case sm_version h of None \<Rightarrow> 0 | Some v \<Rightarrow> v, [])"

text \<open>The second loop writes the chosen rows, each stamped with the map's new version.\<close>

definition write_rows :: "int \<Rightarrow> cseat list \<Rightarrow> cseat list \<Rightarrow> cseat list" where
  "write_rows version changed stored =
     fold (\<lambda>seat ss. set_cseat (seat\<lparr>cs_version := Some version\<rparr>) ss) changed stored"

record put_args =
  pa_layout :: json
  pa_etag :: string
  pa_incarnation :: string
  pa_ttl :: int
  pa_sale :: "(time \<times> time \<times> string) option"

text \<open>The script; \<open>None\<close> for the last argument is \<open>patch\<close>, \<open>Some\<close> is \<open>full\<close>.\<close>

definition put_script :: "time \<Rightarrow> put_args option \<Rightarrow> cseat list \<Rightarrow> seatmap \<Rightarrow> int \<times> seatmap" where
  "put_script now args rows h0 =
     (let h = live now h0; full = (args \<noteq> None) in
      if \<not> full \<and> (sm_version h = None \<or> sm_updating h) then (-1, h0)
      else
        let (version, changed) = put_rows full h rows;
            h = h\<lparr>sm_seats := write_rows version changed (sm_seats h), sm_version := Some version\<rparr>;
            h = (case args of
                   None \<Rightarrow> h
                 | Some a \<Rightarrow> h\<lparr>sm_layout := Some (pa_layout a, pa_etag a),
                     sm_incarnation := (case sm_incarnation h of None \<Rightarrow> Some (pa_incarnation a) | Some i \<Rightarrow> Some i),
                     sm_sale := (case pa_sale a of None \<Rightarrow> sm_sale h | Some s \<Rightarrow> Some s),
                     sm_expires := Some (now + pa_ttl a * 1000000)\<rparr>) in
        (version, h\<lparr>sm_updating := False\<rparr>))"

definition layout_of :: "uuid \<Rightarrow> cseat list \<Rightarrow> json" where
  "layout_of event seats =
     JObj [(''event_id'', JStr event),
       (''seats'', JArr (map (\<lambda>s. JObj [(''price'', JInt (cs_price s)), (''seat_id'', JStr (cs_id s))])
         (sort_key cs_id seats)))]"

definition layout_tag :: "(json \<Rightarrow> string) \<Rightarrow> json \<Rightarrow> string" where
  "layout_tag sha layout = [CHR 0x22] @ ''layout:'' @ sha layout @ [CHR 0x22]"

definition put_map ::
  "(json \<Rightarrow> string) \<Rightarrow> int \<Rightarrow> time \<Rightarrow> string \<Rightarrow> uuid \<Rightarrow> (time \<times> time \<times> string) option \<Rightarrow> cseat list \<Rightarrow>
   seatmaps \<Rightarrow> int \<times> seatmaps"
where
  "put_map sha ttl now uuid event sale seats maps =
     (let layout = layout_of event seats;
          args = \<lparr>pa_layout = layout, pa_etag = layout_tag sha layout, pa_incarnation = uuid,
            pa_ttl = ttl, pa_sale = sale\<rparr> in
      case put_script now (Some args) seats (maps event) of (v, h) \<Rightarrow> (v, maps(event := h)))"

definition patch_map :: "time \<Rightarrow> uuid \<Rightarrow> cseat list \<Rightarrow> seatmaps \<Rightarrow> bool \<times> seatmaps" where
  "patch_map now event seats maps =
     (case put_script now None seats (maps event) of (v, h) \<Rightarrow> (v \<ge> 0, maps(event := h)))"

section \<open>\<open>TOUCH\<close> and \<open>read\<close>\<close>

definition touch_script :: "time \<Rightarrow> int \<Rightarrow> seatmap \<Rightarrow> int \<times> seatmap" where
  "touch_script now px h0 =
     (let h = live now h0 in
      if sm_version h = None \<or> sm_updating h then (0, h0)
      else (1, h\<lparr>sm_expires := Some (now + px * 1000)\<rparr>))"

text \<open>\<open>up\<close> and \<open>up_touch\<close>: whether the two Redis calls succeed.\<close>

definition read_map ::
  "bool \<Rightarrow> bool \<Rightarrow> int \<Rightarrow> time \<Rightarrow> uuid \<Rightarrow> seatmaps \<Rightarrow> (int \<times> cseat list) result \<times> seatmaps"
where
  "read_map up up_touch ttl now event maps =
     (if \<not> up then (Inl (Failure ''SEATMAP_UNAVAILABLE'' 503), maps)
      else let raw = live now (maps event) in
        case sm_version raw of
          None \<Rightarrow> (Inl (Failure ''SEATMAP_WARMING'' 503), maps)
        | Some version \<Rightarrow>
            if sm_updating raw then (Inl (Failure ''SEATMAP_WARMING'' 503), maps)
            else (Inr (version, sort_key cs_id (sm_seats raw)),
              if up_touch then maps(event := snd (touch_script now (ttl * 1000) (maps event))) else maps))"

section \<open>\<open>BROWSE\<close> and \<open>browse\<close>\<close>

text \<open>Decimal text of a version, as Redis stores it.\<close>

fun nat_str :: "nat \<Rightarrow> string" where
  "nat_str n = (if n < 10 then [char_of (48 + n)] else nat_str (n div 10) @ [char_of (48 + n mod 10)])"

declare nat_str.simps [simp del]

definition int_str :: "int \<Rightarrow> string" where
  "int_str i = (if i < 0 then ''-'' @ nat_str (nat (- i)) else nat_str (nat i))"

datatype browse_kind = K_layout | K_availability

datatype browse_reply =
    B_warming
  | B_not_modified string
  | B_layout string json
  | B_availability string int "cseat list"

definition availability_tag :: "uuid \<Rightarrow> string \<Rightarrow> int \<Rightarrow> string" where
  "availability_tag event incarnation version =
     [CHR 0x22] @ ''availability:'' @ event @ '':'' @ incarnation @ '':'' @ int_str version @ [CHR 0x22]"

definition browse_script ::
  "time \<Rightarrow> browse_kind \<Rightarrow> uuid \<Rightarrow> string list \<Rightarrow> int \<Rightarrow> seatmap \<Rightarrow> browse_reply \<times> seatmap"
where
  "browse_script now kind event tags ttl h0 =
     (let h = live now h0; touched = h\<lparr>sm_expires := Some (now + ttl * 1000000)\<rparr> in
      case (sm_version h, sm_incarnation h, sm_updating h, sm_layout h) of
        (Some version, Some incarnation, False, Some (layout, etag)) \<Rightarrow>
          let tag = (case kind of K_layout \<Rightarrow> etag | K_availability \<Rightarrow> availability_tag event incarnation version) in
          if list_ex (\<lambda>c. c = ''*'' \<or> c = tag) tags then (B_not_modified tag, touched)
          else (case kind of
                  K_layout \<Rightarrow> (B_layout tag layout, touched)
                | K_availability \<Rightarrow> (B_availability tag version (sm_seats h), touched))
      | _ \<Rightarrow> (B_warming, h0))"

text \<open>\<open>[part.strip().removeprefix("W/") for part in (if_none_match or "").split(",")]\<close>\<close>

fun split_comma :: "string \<Rightarrow> string list" where
  "split_comma [] = [[]]"
| "split_comma (c # cs) =
     (if c = CHR 0x2C then [] # split_comma cs
      else case split_comma cs of p # ps \<Rightarrow> (c # p) # ps | [] \<Rightarrow> [[c]])"

definition is_space :: "char \<Rightarrow> bool" where
  "is_space c \<longleftrightarrow> (let n = (of_char c :: nat) in (9 \<le> n \<and> n \<le> 13) \<or> (28 \<le> n \<and> n \<le> 32) \<or> n = 133 \<or> n = 160)"

definition strip :: "string \<Rightarrow> string" where
  "strip cs = rev (dropWhile is_space (rev (dropWhile is_space cs)))"

fun remove_weak :: "string \<Rightarrow> string" where
  "remove_weak (a # b # cs) = (if a = CHR ''W'' \<and> b = CHR 0x2F then cs else a # b # cs)"
| "remove_weak cs = cs"

definition etag_list :: "string \<Rightarrow> string list" where
  "etag_list header = map (remove_weak \<circ> strip) (split_comma header)"

fun status_str :: "seat_status \<Rightarrow> string" where
  "status_str AVAILABLE = ''AVAILABLE''"
| "status_str HELD = ''HELD''"
| "status_str SOLD = ''SOLD''"

definition opt_time :: "time option \<Rightarrow> json" where
  "opt_time t = (case t of None \<Rightarrow> JNull | Some t \<Rightarrow> JTime t)"

definition availability_body :: "uuid \<Rightarrow> int \<Rightarrow> cseat list \<Rightarrow> json" where
  "availability_body event version seats =
     JObj [(''event_id'', JStr event), (''version'', JInt version),
       (''seats'', JArr (map (\<lambda>s. JObj [(''seat_id'', JStr (cs_id s)),
           (''status'', JStr (status_str (cs_status s))), (''reserved_until'', opt_time (cs_until s))])
         (sort_key cs_id seats)))]"

text \<open>The answer is a status, a tag and, for 200, a body; an absent header is the empty text.\<close>

definition browse ::
  "bool \<Rightarrow> int \<Rightarrow> time \<Rightarrow> uuid \<Rightarrow> browse_kind \<Rightarrow> string \<Rightarrow> seatmaps \<Rightarrow>
   (nat \<times> string \<times> json option) result \<times> seatmaps"
where
  "browse up ttl now event kind if_none_match maps =
     (if \<not> up then (Inl (Failure ''SEATMAP_UNAVAILABLE'' 503), maps)
      else case browse_script now kind event (etag_list if_none_match) ttl (maps event) of
        (reply, h) \<Rightarrow>
          (case reply of
             B_warming \<Rightarrow> Inl (Failure ''SEATMAP_WARMING'' 503)
           | B_not_modified tag \<Rightarrow> Inr (304, tag, None)
           | B_layout tag layout \<Rightarrow> Inr (200, tag, Some layout)
           | B_availability tag version seats \<Rightarrow> Inr (200, tag, Some (availability_body event version seats)),
           maps(event := h)))"

section \<open>\<open>browse_encoded\<close>\<close>

text \<open>
  \<open>_bodies\<close> is an \<open>OrderedDict\<close>, here the list of its entries, oldest first.  \<open>enc\<close> is the JSON
  encoder; \<open>bd_bytes\<close> is the running total the class keeps.
\<close>

type_synonym body_key = "uuid \<times> browse_kind"

record bodies =
  bd_entries :: "(body_key \<times> string \<times> string) list"
  bd_bytes :: int

definition move_to_end :: "body_key \<Rightarrow> bodies \<Rightarrow> bodies" where
  "move_to_end key b =
     (case map_of (bd_entries b) key of
        None \<Rightarrow> b
      | Some v \<Rightarrow> b\<lparr>bd_entries := filter (\<lambda>e. fst e \<noteq> key) (bd_entries b) @ [(key, v)]\<rparr>)"

text \<open>\<open>while len(...) > entries or bytes > limit: popitem(last=False)\<close>; \<open>None\<close> is \<open>KeyError\<close>.\<close>

function evict :: "nat \<Rightarrow> int \<Rightarrow> bodies \<Rightarrow> bodies option" where
  "evict entries limit b =
     (if length (bd_entries b) > entries \<or> bd_bytes b > limit
      then (case bd_entries b of
              [] \<Rightarrow> None
            | (k, t, body) # rest \<Rightarrow>
                evict entries limit \<lparr>bd_entries = rest, bd_bytes = bd_bytes b - int (length body)\<rparr>)
      else Some b)"
  by pat_completeness auto
termination by (relation "measure (\<lambda>(_, _, b). length (bd_entries b))") auto

declare evict.simps [simp del]

definition store_body :: "nat \<Rightarrow> int \<Rightarrow> body_key \<Rightarrow> string \<Rightarrow> string \<Rightarrow> bodies \<Rightarrow> bodies result" where
  "store_body entries limit key tag encoded b =
     (let b = (case map_of (bd_entries b) key of
            None \<Rightarrow> b
          | Some (_, previous) \<Rightarrow>
              \<lparr>bd_entries = filter (\<lambda>e. fst e \<noteq> key) (bd_entries b),
               bd_bytes = bd_bytes b - int (length previous)\<rparr>) in
      if entries \<noteq> 0 \<and> int (length encoded) \<le> limit
      then (case evict entries limit \<lparr>bd_entries = bd_entries b @ [(key, tag, encoded)],
                 bd_bytes = bd_bytes b + int (length encoded)\<rparr> of
              None \<Rightarrow> Inl (PyError ''KeyError'') | Some b \<Rightarrow> Inr b)
      else Inr b)"

text \<open>
  \<open>other\<close> is what other threads do to the cache between the two critical sections.
\<close>

definition browse_encoded ::
  "(json \<Rightarrow> string) \<Rightarrow> nat \<Rightarrow> int \<Rightarrow> (bodies \<Rightarrow> bodies) \<Rightarrow> bool \<Rightarrow> int \<Rightarrow> time \<Rightarrow> uuid \<Rightarrow> browse_kind \<Rightarrow> string \<Rightarrow>
   bodies \<Rightarrow> seatmaps \<Rightarrow> (nat \<times> string \<times> string option) result \<times> bodies \<times> seatmaps"
where
  "browse_encoded enc entries limit other up ttl now event kind if_none_match b maps =
     (let key = (event, kind); cached = map_of (bd_entries b) key;
          b1 = other (move_to_end key b);
          validators = (case cached of None \<Rightarrow> if_none_match | Some (t, _) \<Rightarrow> if_none_match @ '','' @ t) in
      case browse up ttl now event kind validators maps of
        (Inl e, maps') \<Rightarrow> (Inl e, b1, maps')
      | (Inr (_, tag, None), maps') \<Rightarrow>
          (if ''*'' \<in> set (etag_list if_none_match) \<or> tag \<in> set (etag_list if_none_match)
           then (Inr (304, tag, None), b1, maps')
           else case cached of
             None \<Rightarrow> (Inl (PyError ''AssertionError''), b1, maps')
           | Some (t, body) \<Rightarrow>
               if t = tag then (Inr (200, tag, Some body), b1, maps')
               else (Inl (PyError ''AssertionError''), b1, maps'))
      | (Inr (_, tag, Some body), maps') \<Rightarrow>
          (case store_body entries limit key tag (enc body) b1 of
             Inl e \<Rightarrow> (Inl e, b1, maps')
           | Inr b2 \<Rightarrow> (Inr (200, tag, Some (enc body)), b2, maps')))"

end
