(* ===== verification/Seat_Cache_Facts.thy ===== *)
theory Seat_Cache_Facts
  imports Seat_Cache
begin

text \<open>
  Facts about the seat map: \<open>PUT\<close> never replaces a row by an older one, the map's version is the
  sum of the row versions, and therefore two states of one map with the same version show the
  same seats.  The body cache stays within its limits, and its assertion cannot fail.
\<close>

section \<open>\<open>PUT\<close> row by row\<close>

definition chosen :: "cseat list \<Rightarrow> cseat \<Rightarrow> cseat" where
  "chosen stored seat = (case find_cseat (cs_id seat) stored of
     None \<Rightarrow> seat | Some old \<Rightarrow> if cs_source seat > cs_source old then seat else old)"

definition newer :: "cseat list \<Rightarrow> cseat \<Rightarrow> bool" where
  "newer stored seat \<longleftrightarrow> (case find_cseat (cs_id seat) stored of
     None \<Rightarrow> True | Some old \<Rightarrow> cs_source seat > cs_source old)"

definition source_of :: "cseat list \<Rightarrow> seat_id \<Rightarrow> int" where
  "source_of ss i = (case find_cseat i ss of None \<Rightarrow> 0 | Some s \<Rightarrow> cs_source s)"

definition visible :: "cseat \<Rightarrow> seat_id \<times> int \<times> seat_status \<times> time option" where
  "visible s = (cs_id s, cs_price s, cs_status s, cs_until s)"

lemma find_cseat_Some: "find_cseat i ss = Some s \<Longrightarrow> s \<in> set ss \<and> cs_id s = i"
  unfolding find_cseat_def by (drule find_Some_mem) simp

lemma find_cseat_None: "find_cseat i ss = None \<longleftrightarrow> i \<notin> cs_id ` set ss"
  by (simp add: find_cseat_def find_key_None)

lemma source_of_absent: "i \<notin> cs_id ` set ss \<Longrightarrow> source_of ss i = 0"
  by (simp add: source_of_def flip: find_cseat_None)

lemma find_cseat_mem: "distinct (map cs_id ss) \<Longrightarrow> s \<in> set ss \<Longrightarrow> find_cseat (cs_id s) ss = Some s"
  by (simp add: find_cseat_def find_key_iff)

lemma chosen_id [simp]: "cs_id (chosen stored seat) = cs_id seat"
  by (auto simp: chosen_def dest: find_cseat_Some split: option.splits)

lemma put_row_full:
  "put_row True dirty stored seat (v, ch) =
     (v + cs_source (chosen stored seat), if newer stored seat \<or> dirty then ch @ [chosen stored seat] else ch)"
  by (auto simp: put_row_def chosen_def newer_def Let_def split: option.splits)

lemma put_row_patch:
  "put_row False dirty stored seat (v, ch) =
     (v + (cs_source (chosen stored seat) - source_of stored (cs_id seat)),
      if newer stored seat \<or> dirty then ch @ [chosen stored seat] else ch)"
  by (auto simp: put_row_def chosen_def newer_def source_of_def Let_def split: option.splits)

lemma put_rows_full:
  "put_rows True h rows =
     (sum_list (map (\<lambda>s. cs_source (chosen (sm_seats h) s)) rows),
      map (chosen (sm_seats h)) (filter (\<lambda>s. newer (sm_seats h) s \<or> sm_updating h) rows))"
proof -
  have "fold (put_row True (sm_updating h) (sm_seats h)) rows (v, ch) =
      (v + sum_list (map (\<lambda>s. cs_source (chosen (sm_seats h) s)) rows),
       ch @ map (chosen (sm_seats h)) (filter (\<lambda>s. newer (sm_seats h) s \<or> sm_updating h) rows))" for v ch
    by (induction rows arbitrary: v ch) (simp_all add: put_row_full)
  then show ?thesis by (simp add: put_rows_def)
qed

lemma put_rows_patch:
  "put_rows False h rows =
     ((case sm_version h of None \<Rightarrow> 0 | Some v \<Rightarrow> v) +
        sum_list (map (\<lambda>s. cs_source (chosen (sm_seats h) s) - source_of (sm_seats h) (cs_id s)) rows),
      map (chosen (sm_seats h)) (filter (\<lambda>s. newer (sm_seats h) s \<or> sm_updating h) rows))"
proof -
  have "fold (put_row False (sm_updating h) (sm_seats h)) rows (v, ch) =
      (v + sum_list (map (\<lambda>s. cs_source (chosen (sm_seats h) s) - source_of (sm_seats h) (cs_id s)) rows),
       ch @ map (chosen (sm_seats h)) (filter (\<lambda>s. newer (sm_seats h) s \<or> sm_updating h) rows))" for v ch
    by (induction rows arbitrary: v ch) (simp_all add: put_row_patch)
  then show ?thesis by (simp add: put_rows_def)
qed

section \<open>Writing rows\<close>

lemma set_cseat_ids: "cs_id ` set (set_cseat s ss) = insert (cs_id s) (cs_id ` set ss)"
  by (induction s ss rule: set_cseat.induct) auto

lemma set_cseat_distinct: "distinct (map cs_id ss) \<Longrightarrow> distinct (map cs_id (set_cseat s ss))"
proof (induction s ss rule: set_cseat.induct)
  case (2 s x xs)
  then show ?case using set_cseat_ids [of s xs] by (auto simp: image_iff)
qed simp

lemma find_set_cseat: "find_cseat i (set_cseat s ss) = (if i = cs_id s then Some s else find_cseat i ss)"
  by (induction s ss rule: set_cseat.induct) (auto simp: find_cseat_def)

lemma write_rows_Cons:
  "write_rows v (c # cs) ss = write_rows v cs (set_cseat (c\<lparr>cs_version := Some v\<rparr>) ss)"
  by (simp add: write_rows_def)

lemma write_rows_distinct: "distinct (map cs_id ss) \<Longrightarrow> distinct (map cs_id (write_rows v cs ss))"
  by (induction cs arbitrary: ss) (simp_all add: write_rows_Cons set_cseat_distinct, simp add: write_rows_def)

lemma write_rows_ids: "cs_id ` set (write_rows v cs ss) = cs_id ` set cs \<union> cs_id ` set ss"
  by (induction cs arbitrary: ss) (simp_all add: write_rows_Cons set_cseat_ids, simp add: write_rows_def)

lemma find_write_rows:
  "distinct (map cs_id cs) \<Longrightarrow>
   find_cseat i (write_rows v cs ss) = (case find_cseat i cs of
      Some c \<Rightarrow> Some (c\<lparr>cs_version := Some v\<rparr>) | None \<Rightarrow> find_cseat i ss)"
proof (induction cs arbitrary: ss)
  case Nil
  then show ?case by (simp add: write_rows_def find_cseat_def)
next
  case (Cons c cs)
  have c: "find_cseat i (c # cs) = (if cs_id c = i then Some c else find_cseat i cs)"
    by (simp add: find_cseat_def)
  have "find_cseat (cs_id c) cs = None" using Cons.prems by (simp add: find_cseat_None)
  then show ?case
    using Cons by (auto simp: write_rows_Cons find_set_cseat c split: option.splits)
qed

lemma set_cseat_visible:
  assumes "find_cseat (cs_id s) ss = Some old" and "visible s = visible old"
  shows "map visible (set_cseat s ss) = map visible ss"
  using assms by (induction s ss rule: set_cseat.induct) (auto simp: find_cseat_def split: if_splits)

lemma write_rows_visible:
  assumes "\<forall>c\<in>set cs. find_cseat (cs_id c) ss = Some c" and "distinct (map cs_id cs)"
  shows "map visible (write_rows v cs ss) = map visible ss"
  using assms
proof (induction cs arbitrary: ss)
  case Nil
  then show ?case by (simp add: write_rows_def)
next
  case (Cons c cs)
  let ?ss = "set_cseat (c\<lparr>cs_version := Some v\<rparr>) ss"
  have "map visible ?ss = map visible ss"
    by (rule set_cseat_visible [of _ _ c]) (use Cons.prems in \<open>simp_all add: visible_def\<close>)
  moreover have "\<forall>x\<in>set cs. find_cseat (cs_id x) ?ss = Some x"
  proof
    fix x assume x: "x \<in> set cs"
    then have "cs_id x \<noteq> cs_id c" using Cons.prems(2) by (metis distinct.simps(2) image_eqI list.set_map list.simps(9))
    with x Cons.prems(1) show "find_cseat (cs_id x) ?ss = Some x" by (simp add: find_set_cseat)
  qed
  ultimately show ?case using Cons.IH [of ?ss] Cons.prems(2) by (simp add: write_rows_Cons)
qed

section \<open>The version is the sum of the row versions\<close>

lemma sum_source:
  "distinct (map cs_id ss) \<Longrightarrow> sum_list (map cs_source ss) = (\<Sum>i\<in>cs_id ` set ss. source_of ss i)"
proof -
  assume d: "distinct (map cs_id ss)"
  then have "sum_list (map cs_source ss) = (\<Sum>s\<in>set ss. cs_source s)"
    by (simp add: sum_list_distinct_conv_sum_set distinct_map)
  also have "\<dots> = (\<Sum>s\<in>set ss. source_of ss (cs_id s))"
    using d by (intro sum.cong) (simp_all add: source_of_def find_cseat_mem)
  also have "\<dots> = (\<Sum>i\<in>cs_id ` set ss. source_of ss i)"
    using d by (simp add: sum.reindex distinct_map)
  finally show ?thesis .
qed

definition map_ok :: "seatmap \<Rightarrow> bool" where
  "map_ok h \<longleftrightarrow> distinct (map cs_id (sm_seats h)) \<and>
     (case sm_version h of None \<Rightarrow> sm_seats h = [] | Some v \<Rightarrow> v = sum_list (map cs_source (sm_seats h)))"

lemma map_ok_live: "map_ok h \<Longrightarrow> map_ok (live now h)"
  by (auto simp: live_def map_ok_def empty_map_def split: option.splits)

text \<open>What \<open>PUT\<close> leaves of one seat.\<close>

definition merged :: "int \<Rightarrow> bool \<Rightarrow> cseat list \<Rightarrow> cseat list \<Rightarrow> cseat list" where
  "merged v dirty rows stored =
     write_rows v (map (chosen stored) (filter (\<lambda>s. newer stored s \<or> dirty) rows)) stored"

lemma merged_distinct: "distinct (map cs_id stored) \<Longrightarrow> distinct (map cs_id (merged v dirty rows stored))"
  by (simp add: merged_def write_rows_distinct)

lemma chosen_ids: "map cs_id (map (chosen stored) rows) = map cs_id rows"
  by simp

lemma merged_find:
  assumes "distinct (map cs_id rows)"
  shows "find_cseat i (merged v dirty rows stored) = (case find_cseat i rows of
      None \<Rightarrow> find_cseat i stored
    | Some s \<Rightarrow> if newer stored s \<or> dirty then Some ((chosen stored s)\<lparr>cs_version := Some v\<rparr>) else find_cseat i stored)"
proof -
  let ?P = "\<lambda>s. newer stored s \<or> dirty"
  have "find_cseat i (map (chosen stored) (filter ?P rows)) = map_option (chosen stored) (find_cseat i (filter ?P rows))"
    by (induction rows) (auto simp: find_cseat_def)
  moreover have "find_cseat i (filter ?P rows) = (case find_cseat i rows of None \<Rightarrow> None
      | Some s \<Rightarrow> if ?P s then Some s else None)"
    using assms
  proof (induction rows)
    case Nil
    then show ?case by (simp add: find_cseat_def)
  next
    case (Cons r rows)
    have cons: "find_cseat i (x # xs) = (if cs_id x = i then Some x else find_cseat i xs)" for x xs
      by (simp add: find_cseat_def)
    have "find_cseat (cs_id r) rows = None" using Cons.prems by (simp add: find_cseat_None)
    with Cons show ?case by (auto simp: cons)
  qed
  moreover have "distinct (map cs_id (map (chosen stored) (filter ?P rows)))"
    using assms by (simp add: distinct_map_filter o_def)
  ultimately show ?thesis
    by (simp add: merged_def find_write_rows split: option.splits)
qed

lemma merged_source:
  assumes "distinct (map cs_id rows)"
  shows "source_of (merged v dirty rows stored) i = (case find_cseat i rows of
      None \<Rightarrow> source_of stored i | Some s \<Rightarrow> cs_source (chosen stored s))"
proof (cases "find_cseat i rows")
  case None
  then show ?thesis by (simp add: source_of_def merged_find [OF assms])
next
  case (Some s)
  then have "cs_id s = i" using find_cseat_Some by blast
  with Some show ?thesis
    by (auto simp: source_of_def merged_find [OF assms] chosen_def newer_def split: option.splits)
qed

lemma merged_ids:
  assumes "distinct (map cs_id rows)"
  shows "cs_id ` set (merged v dirty rows stored) = cs_id ` set rows \<union> cs_id ` set stored"
proof (intro set_eqI iffI)
  fix i
  have "i \<in> cs_id ` set ss \<longleftrightarrow> find_cseat i ss \<noteq> None" for ss by (simp add: find_cseat_None)
  note mem = this
  have "newer stored s \<or> find_cseat (cs_id s) stored \<noteq> None" for s
    by (auto simp: newer_def split: option.splits)
  then have eq: "find_cseat i (merged v dirty rows stored) \<noteq> None \<longleftrightarrow> find_cseat i rows \<noteq> None \<or> find_cseat i stored \<noteq> None"
    using find_cseat_Some [of i rows]
    by (auto simp: merged_find [OF assms] split: option.splits)
  show "i \<in> cs_id ` set (merged v dirty rows stored) \<Longrightarrow> i \<in> cs_id ` set rows \<union> cs_id ` set stored"
    using eq by (simp only: mem Un_iff)
  show "i \<in> cs_id ` set rows \<union> cs_id ` set stored \<Longrightarrow> i \<in> cs_id ` set (merged v dirty rows stored)"
    using eq by (simp only: mem Un_iff)
qed

lemma source_of_chosen: "source_of stored (cs_id s) \<le> cs_source (chosen stored s) \<or> find_cseat (cs_id s) stored = None"
  by (auto simp: source_of_def chosen_def split: option.splits)

section \<open>The whole script\<close>

definition covers :: "put_args option \<Rightarrow> cseat list \<Rightarrow> seatmap \<Rightarrow> bool" where
  "covers args rows h \<longleftrightarrow> distinct (map cs_id rows) \<and> (args \<noteq> None \<longrightarrow> cs_id ` set (sm_seats h) \<subseteq> cs_id ` set rows)"

lemma put_script_effect:
  assumes "put_script now args rows h0 = (v, h')"
    and "\<not> (args = None \<and> (sm_version (live now h0) = None \<or> sm_updating (live now h0)))"
  shows "sm_version h' = Some v" and "\<not> sm_updating h'"
    and "sm_seats h' = merged v (sm_updating (live now h0)) rows (sm_seats (live now h0))"
    and "v = fst (put_rows (args \<noteq> None) (live now h0) rows)"
    and "sm_incarnation (live now h0) = Some i \<Longrightarrow> sm_incarnation h' = Some i"
proof -
  let ?h = "live now h0"
  have snd: "snd (put_rows (args \<noteq> None) ?h rows) =
      map (chosen (sm_seats ?h)) (filter (\<lambda>s. newer (sm_seats ?h) s \<or> sm_updating ?h) rows)"
    by (cases args) (simp_all add: put_rows_full put_rows_patch)
  obtain v1 ch where vc: "put_rows (args \<noteq> None) ?h rows = (v1, ch)" by (cases "put_rows (args \<noteq> None) ?h rows")
  note eq = assms(1) [unfolded put_script_def Let_def vc]
  have "sm_version h' = Some v" "\<not> sm_updating h'" "v = v1" "sm_seats h' = write_rows v1 ch (sm_seats ?h)"
    using eq assms(2) by (auto split: option.splits)
  with snd vc show "sm_version h' = Some v" and "\<not> sm_updating h'"
    and "sm_seats h' = merged v (sm_updating ?h) rows (sm_seats ?h)"
    and "v = fst (put_rows (args \<noteq> None) ?h rows)"
    by (simp_all add: merged_def)
  show "sm_incarnation ?h = Some i \<Longrightarrow> sm_incarnation h' = Some i"
    using eq assms(2) by (auto split: option.splits)
qed

lemma put_rows_version:
  assumes ok: "map_ok h" and cov: "covers args rows h" and pre: "args = None \<Longrightarrow> sm_version h \<noteq> None"
  shows "fst (put_rows (args \<noteq> None) h rows) =
     (\<Sum>i\<in>cs_id ` set rows \<union> cs_id ` set (sm_seats h). source_of (merged v dirty rows (sm_seats h)) i)"
proof -
  let ?st = "sm_seats h" and ?m = "merged v dirty rows (sm_seats h)" and ?R = "cs_id ` set rows"
  have dr: "distinct (map cs_id rows)" and ds: "distinct (map cs_id ?st)"
    using cov ok by (simp_all add: covers_def map_ok_def)
  have row: "source_of ?m (cs_id s) = cs_source (chosen ?st s)" if "s \<in> set rows" for s
    using that by (simp add: merged_source [OF dr] find_cseat_mem [OF dr])
  have sum_rows: "sum_list (map f rows) = (\<Sum>s\<in>set rows. f s)" for f :: "cseat \<Rightarrow> int"
    using dr by (simp add: sum_list_distinct_conv_sum_set distinct_map)
  have reindex: "(\<Sum>i\<in>?R. g i) = (\<Sum>s\<in>set rows. g (cs_id s))" for g :: "seat_id \<Rightarrow> int"
    using dr by (simp add: sum.reindex distinct_map)
  show ?thesis
  proof (cases args)
    case None
    with pre obtain v0 where v0: "sm_version h = Some v0" by auto
    then have "v0 = (\<Sum>i\<in>cs_id ` set ?st. source_of ?st i)"
      using ok sum_source [OF ds] by (simp add: map_ok_def)
    also have "\<dots> = (\<Sum>i\<in>?R \<union> cs_id ` set ?st. source_of ?st i)"
      by (rule sum.mono_neutral_left) (auto simp: source_of_absent)
    finally have v0_sum: "v0 = (\<Sum>i\<in>?R \<union> cs_id ` set ?st. source_of ?st i)" .
    have "(\<Sum>i\<in>?R \<union> cs_id ` set ?st. source_of ?m i - source_of ?st i) = (\<Sum>i\<in>?R. source_of ?m i - source_of ?st i)"
    proof (rule sum.mono_neutral_right)
      show "\<forall>i\<in>?R \<union> cs_id ` set ?st - ?R. source_of ?m i - source_of ?st i = 0"
        by (simp add: merged_source [OF dr] flip: find_cseat_None)
    qed auto
    also have "\<dots> = sum_list (map (\<lambda>s. cs_source (chosen ?st s) - source_of ?st (cs_id s)) rows)"
      unfolding sum_rows reindex by (rule sum.cong) (simp_all add: row)
    finally show ?thesis
      using v0_sum v0 by (simp add: None put_rows_patch sum_subtractf)
  next
    case (Some a)
    then have "?R \<union> cs_id ` set ?st = ?R" using cov by (auto simp: covers_def)
    moreover have "sum_list (map (\<lambda>s. cs_source (chosen ?st s)) rows) = (\<Sum>i\<in>?R. source_of ?m i)"
      unfolding sum_rows reindex by (rule sum.cong) (simp_all add: row)
    ultimately show ?thesis by (simp add: Some put_rows_full)
  qed
qed

lemma put_script_refused:
  "put_script now None rows h0 = (-1, h0)" if "sm_version (live now h0) = None \<or> sm_updating (live now h0)"
  using that by (simp add: put_script_def)

lemma put_script_ok:
  assumes ok: "map_ok h0" and cov: "covers args rows (live now h0)" and p: "put_script now args rows h0 = (v, h')"
  shows "map_ok h'"
proof (cases "args = None \<and> (sm_version (live now h0) = None \<or> sm_updating (live now h0))")
  case True
  then show ?thesis using p ok put_script_refused [of now h0 rows] by auto
next
  case False
  note eff = put_script_effect [OF p False]
  have okl: "map_ok (live now h0)" using ok by (rule map_ok_live)
  then have d: "distinct (map cs_id (sm_seats h'))"
    unfolding eff(3) by (intro merged_distinct) (simp add: map_ok_def)
  have "v = (\<Sum>i\<in>cs_id ` set (sm_seats h'). source_of (sm_seats h') i)"
    using put_rows_version [OF okl cov, of v "sm_updating (live now h0)"] False cov
    by (auto simp: eff(3,4) merged_ids covers_def)
  with d show ?thesis by (simp add: map_ok_def eff(1) sum_source)
qed

text \<open>Fencing: a stored row is only ever replaced by one with a higher source version.\<close>

lemma put_script_fences:
  assumes cov: "covers args rows (live now h0)" and p: "put_script now args rows h0 = (v, h')"
    and old: "find_cseat i (sm_seats (live now h0)) = Some old"
  shows "\<exists>s. find_cseat i (sm_seats (live now h')) = Some s \<and> cs_source old \<le> cs_source s \<and>
           (cs_source s = cs_source old \<longrightarrow> visible s = visible old)
         \<or> sm_seats (live now h') = []"
proof (cases "args = None \<and> (sm_version (live now h0) = None \<or> sm_updating (live now h0))")
  case True
  then show ?thesis using p old put_script_refused [of now h0 rows] by auto
next
  case False
  note eff = put_script_effect [OF p False]
  have dr: "distinct (map cs_id rows)" using cov by (simp add: covers_def)
  have "\<exists>s. find_cseat i (sm_seats h') = Some s \<and> cs_source old \<le> cs_source s \<and>
           (cs_source s = cs_source old \<longrightarrow> visible s = visible old)"
  proof (cases "find_cseat i rows")
    case None
    then show ?thesis using old by (simp add: eff(3) merged_find [OF dr])
  next
    case (Some r)
    then have "cs_id r = i" using find_cseat_Some by blast
    with Some old show ?thesis
      by (auto simp: eff(3) merged_find [OF dr] chosen_def visible_def newer_def)
  qed
  moreover have "sm_seats (live now h') = sm_seats h' \<or> sm_seats (live now h') = []"
    by (simp add: live_def empty_map_def split: option.splits)
  ultimately show ?thesis by auto
qed

text \<open>
  Equal versions show equal seats: the version never falls, and while it stays the same nothing a
  reader can see has changed.
\<close>

lemma put_script_version:
  assumes ok: "map_ok h0" and cov: "covers args rows (live now h0)"
    and rows: "cs_id ` set rows \<subseteq> cs_id ` set (sm_seats (live now h0))"
    and v0: "sm_version (live now h0) = Some v0"
    and p: "put_script now args rows h0 = (v, h')"
    and run: "\<not> (args = None \<and> (sm_version (live now h0) = None \<or> sm_updating (live now h0)))"
  shows "v0 \<le> v" and "v = v0 \<Longrightarrow> map visible (sm_seats h') = map visible (sm_seats (live now h0))"
    and "v = v0 \<Longrightarrow> s \<in> set rows \<Longrightarrow> \<not> newer (sm_seats (live now h0)) s"
proof -
  let ?st = "sm_seats (live now h0)" and ?R = "cs_id ` set rows" and ?I = "cs_id ` set (sm_seats (live now h0))"
  define m where "m = merged v (sm_updating (live now h0)) rows ?st"
  note eff = put_script_effect [OF p run]
  have okl: "map_ok (live now h0)" using ok by (rule map_ok_live)
  have dr: "distinct (map cs_id rows)" using cov by (simp add: covers_def)
  have union: "?R \<union> ?I = ?I" using rows by blast
  have v: "v = (\<Sum>i\<in>?I. source_of m i)"
    using put_rows_version [OF okl cov, of v "sm_updating (live now h0)", folded eff(4)] v0
    by (simp add: m_def union)
  have v0_sum: "v0 = (\<Sum>i\<in>?I. source_of ?st i)"
    using okl v0 by (simp add: map_ok_def sum_source)
  have mono: "source_of ?st i \<le> source_of m i" if "i \<in> ?I" for i
  proof (cases "find_cseat i rows")
    case None
    then show ?thesis by (simp add: m_def merged_source [OF dr])
  next
    case (Some s)
    then have "cs_id s = i" using find_cseat_Some by blast
    with Some that show ?thesis
      using source_of_chosen [of ?st s] by (simp add: m_def merged_source [OF dr] find_cseat_None)
  qed
  have "(\<Sum>i\<in>?I. source_of ?st i) \<le> (\<Sum>i\<in>?I. source_of m i)" by (intro sum_mono mono)
  then show "v0 \<le> v" by (simp only: v v0_sum)
  have eq: "source_of m i = source_of ?st i" if "i \<in> ?I" and "v = v0" for i
    using sum_mono_inv [of "source_of ?st" ?I "source_of m" i] mono that(1) \<open>v = v0\<close> [unfolded v v0_sum] by simp
  have old: "\<not> newer ?st s \<and> find_cseat (cs_id s) ?st = Some (chosen ?st s)" if s: "s \<in> set rows" and "v = v0" for s
  proof -
    obtain x where x: "find_cseat (cs_id s) ?st = Some x"
      using s rows find_cseat_None [of "cs_id s" ?st] by (cases "find_cseat (cs_id s) ?st") auto
    have "source_of m (cs_id s) = cs_source (chosen ?st s)"
      using s by (simp add: m_def merged_source [OF dr] find_cseat_mem [OF dr])
    moreover have "source_of ?st (cs_id s) = cs_source x" using x by (simp add: source_of_def)
    ultimately have "cs_source (chosen ?st s) = cs_source x"
      using eq [OF _ \<open>v = v0\<close>, of "cs_id s"] s rows by (metis image_subset_iff)
    with x show ?thesis by (auto simp: chosen_def newer_def)
  qed
  show "v = v0 \<Longrightarrow> s \<in> set rows \<Longrightarrow> \<not> newer ?st s" using old by blast
  assume "v = v0"
  then show "map visible (sm_seats h') = map visible ?st"
    unfolding eff(3) merged_def
    by (intro write_rows_visible) (use old dr in \<open>auto simp: distinct_map_filter o_def\<close>)
qed

section \<open>Version texts\<close>

text \<open>Reading decimal text back.\<close>

definition digits_val :: "string \<Rightarrow> nat" where
  "digits_val cs = foldl (\<lambda>n c. 10 * n + (of_char c - 48)) 0 cs"

lemma digits_val_nat_str: "digits_val (nat_str n) = n"
proof (induction n rule: less_induct)
  case (less n)
  show ?case
  proof (cases "n < 10")
    case True
    then show ?thesis by (subst nat_str.simps) (simp add: digits_val_def)
  next
    case False
    then have "digits_val (nat_str (n div 10)) = n div 10" by (intro less) simp
    with False show ?thesis by (subst nat_str.simps) (simp add: digits_val_def)
  qed
qed

lemma hd_nat_str: "nat_str n \<noteq> [] \<and> hd (nat_str n) \<noteq> CHR ''-''"
proof (induction n rule: less_induct)
  case (less n)
  show ?case
  proof (cases "n < 10")
    case True
    have "(of_char (char_of (48 + n)) :: nat) \<noteq> of_char (CHR ''-'')" using True by simp
    then have "char_of (48 + n) \<noteq> CHR ''-''" by metis
    with True show ?thesis by (subst (1 2) nat_str.simps) simp
  next
    case False
    then have "nat_str (n div 10) \<noteq> [] \<and> hd (nat_str (n div 10)) \<noteq> CHR ''-''" by (intro less) simp
    with False show ?thesis by (subst (1 2) nat_str.simps) simp
  qed
qed

lemma int_str_inject: "int_str i = int_str j \<longleftrightarrow> i = j"
proof
  assume eq: "int_str i = int_str j"
  have sign: "hd (int_str k) = CHR ''-'' \<longleftrightarrow> k < 0" for k
    using hd_nat_str [of "nat k"] by (simp add: int_str_def)
  then have same: "i < 0 \<longleftrightarrow> j < 0" using eq by metis
  show "i = j"
  proof (cases "i < 0")
    case True
    with same eq have "nat_str (nat (- i)) = nat_str (nat (- j))" by (simp add: int_str_def)
    then have "nat (- i) = nat (- j)" by (metis digits_val_nat_str)
    with True same show ?thesis by simp
  next
    case False
    with same eq have "nat_str (nat i) = nat_str (nat j)" by (simp add: int_str_def)
    then have "nat i = nat j" by (metis digits_val_nat_str)
    with False same show ?thesis by simp
  qed
qed simp

lemma availability_tag_inject: "availability_tag e i v = availability_tag e i v' \<longleftrightarrow> v = v'"
  by (simp add: availability_tag_def int_str_inject)

section \<open>Equal tags, equal bodies\<close>

lemma map_insort_visible:
  "map visible (insort_key cs_id x xs) = insort_key fst (visible x) (map visible xs)"
  by (induction xs) (simp_all add: visible_def)

lemma map_sort_visible: "map visible (sort_key cs_id xs) = sort_key fst (map visible xs)"
  by (induction xs) (simp_all add: map_insort_visible)

lemma availability_body_visible:
  assumes "map visible ss = map visible ss'"
  shows "availability_body e v ss = availability_body e v ss'"
proof -
  let ?f = "\<lambda>(i, p, st, u). JObj [(''seat_id'', JStr i), (''status'', JStr (status_str st)), (''reserved_until'', opt_time u)]"
  have "availability_body e v xs = JObj [(''event_id'', JStr e), (''version'', JInt v),
      (''seats'', JArr (map ?f (sort_key fst (map visible xs))))]" for xs
    unfolding availability_body_def map_sort_visible [symmetric] by (simp add: visible_def o_def)
  with assms show ?thesis by simp
qed

text \<open>
  How one incarnation of a map evolves under its writers and readers: any sequence of full and
  partial puts over the event's seats, and of expiry extensions, while the key stays alive.
\<close>

inductive evolves :: "seatmap \<Rightarrow> seatmap \<Rightarrow> bool" where
  start: "evolves h h"
| put: "evolves h h1 \<Longrightarrow> live now h1 = h1 \<Longrightarrow> covers args rows h1 \<Longrightarrow>
    cs_id ` set rows \<subseteq> cs_id ` set (sm_seats h1) \<Longrightarrow> put_script now args rows h1 = (v, h2) \<Longrightarrow> evolves h h2"
| extend: "evolves h h1 \<Longrightarrow> evolves h (h1\<lparr>sm_expires := Some t\<rparr>)"

lemma evolves_version:
  assumes "evolves h h'" and "map_ok h" and "sm_version h = Some v" and "sm_incarnation h = Some i"
  shows "map_ok h' \<and> sm_incarnation h' = Some i \<and> (\<exists>v'. sm_version h' = Some v' \<and> v \<le> v' \<and>
           (v' = v \<longrightarrow> map visible (sm_seats h') = map visible (sm_seats h)))"
  using assms
proof (induction rule: evolves.induct)
  case (put h h1 now args rows v2 h2)
  obtain v1 where v1: "sm_version h1 = Some v1" "v \<le> v1" "map_ok h1" "sm_incarnation h1 = Some i"
    "v1 = v \<longrightarrow> map visible (sm_seats h1) = map visible (sm_seats h)"
    using put.IH put.prems by blast
  show ?case
  proof (cases "args = None \<and> sm_updating h1")
    case True
    then have "h2 = h1" using put.hyps put_script_refused [of now h1 rows] by simp
    with v1 show ?thesis by blast
  next
    case False
    have ok2: "map_ok h2" by (rule put_script_ok [OF v1(3) _ put.hyps(5)]) (simp add: put.hyps)
    have run: "\<not> (args = None \<and> (sm_version (live now h1) = None \<or> sm_updating (live now h1)))"
      using False v1(1) put.hyps(2) by simp
    note eff = put_script_effect [OF put.hyps(5) run, unfolded put.hyps(2)]
    have "v1 \<le> v2 \<and> (v2 = v1 \<longrightarrow> map visible (sm_seats h2) = map visible (sm_seats h1))"
      using put_script_version [OF v1(3) _ _ _ put.hyps(5) run] put.hyps v1(1) by simp
    then show ?thesis using v1 ok2 eff(1,5) by auto
  qed
qed (auto simp: map_ok_def)

text \<open>Every seat that a reader sees differently was stamped with a higher version.\<close>

lemma put_script_stamps:
  assumes ok: "map_ok h1" and alive: "live now h1 = h1" and cov: "covers args rows h1"
    and rows: "cs_id ` set rows \<subseteq> cs_id ` set (sm_seats h1)" and v1: "sm_version h1 = Some v1"
    and p: "put_script now args rows h1 = (v, h2)" and s: "find_cseat i (sm_seats h2) = Some s"
  shows "find_cseat i (sm_seats h1) = Some s \<or> cs_version s = Some v \<and>
    (v1 < v \<or> (\<exists>s1. find_cseat i (sm_seats h1) = Some s1 \<and> visible s = visible s1))"
proof (cases "args = None \<and> sm_updating h1")
  case True
  then have "h2 = h1" using p alive put_script_refused [of now h1 rows] by simp
  with s show ?thesis by simp
next
  case False
  then have run: "\<not> (args = None \<and> (sm_version (live now h1) = None \<or> sm_updating (live now h1)))"
    using v1 alive by simp
  note eff = put_script_effect [OF p run, unfolded alive]
  note ver = put_script_version [OF ok _ _ _ p run, unfolded alive, OF cov rows v1]
  have dr: "distinct (map cs_id rows)" using cov by (simp add: covers_def)
  show ?thesis
  proof (cases "find_cseat i rows")
    case None
    then show ?thesis using s by (simp add: eff(3) merged_find [OF dr])
  next
    case (Some r)
    then have r: "r \<in> set rows" "cs_id r = i" using find_cseat_Some by blast+
    show ?thesis
    proof (cases "newer (sm_seats h1) r")
      case True
      then have "v1 < v" using ver(1) ver(3) [OF _ r(1)] by fastforce
      with True show ?thesis using s Some by (auto simp: eff(3) merged_find [OF dr])
    next
      case False
      then have "find_cseat i (sm_seats h1) = Some (chosen (sm_seats h1) r)"
        using r by (auto simp: newer_def chosen_def split: option.splits)
      with False show ?thesis
        using s Some by (auto simp: eff(3) merged_find [OF dr] visible_def split: if_splits)
    qed
  qed
qed

lemma evolves_stamps:
  assumes "evolves h h'" and "map_ok h" and "sm_version h = Some v" and "sm_incarnation h = Some inc"
    and "find_cseat i (sm_seats h') = Some s"
  shows "(\<exists>s0. find_cseat i (sm_seats h) = Some s0 \<and> visible s = visible s0) \<or>
    (\<exists>n v'. cs_version s = Some n \<and> v < n \<and> sm_version h' = Some v' \<and> n \<le> v')"
  using assms
proof (induction arbitrary: s rule: evolves.induct)
  case (put h h1 now args rows v2 h2)
  obtain v1 where v1: "sm_version h1 = Some v1" "v \<le> v1" "map_ok h1"
    using evolves_version [OF put.hyps(1) put.prems(1-3)] by blast
  note IH = put.IH [OF put.prems(1-3)]
  show ?case
  proof (cases "args = None \<and> sm_updating h1")
    case True
    then have "h2 = h1" using put.hyps put_script_refused [of now h1 rows] by simp
    then show ?thesis using IH put.prems(4) by simp
  next
    case False
    then have run: "\<not> (args = None \<and> (sm_version (live now h1) = None \<or> sm_updating (live now h1)))"
      using v1(1) put.hyps(2) by simp
    have v2: "sm_version h2 = Some v2" by (rule put_script_effect(1) [OF put.hyps(5) run])
    have "v1 \<le> v2" using put_script_version(1) [OF v1(3) _ _ _ put.hyps(5) run] put.hyps v1(1) by simp
    with put_script_stamps [OF v1(3) put.hyps(2-4) v1(1) put.hyps(5) put.prems(4)] IH v1(1,2) v2
    show ?thesis by fastforce
  qed
qed auto

lemma browse_availability:
  "browse_script now K_availability e tags ttl h0 = (B_availability tag v ss, h1) \<longleftrightarrow>
     (\<exists>i l. sm_version (live now h0) = Some v \<and> sm_incarnation (live now h0) = Some i \<and>
        \<not> sm_updating (live now h0) \<and> sm_layout (live now h0) = Some l \<and>
        tag = availability_tag e i v \<and> ss = sm_seats (live now h0) \<and>
        \<not> list_ex (\<lambda>c. c = ''*'' \<or> c = tag) tags \<and>
        h1 = (live now h0)\<lparr>sm_expires := Some (now + ttl * 1000000)\<rparr>)"
  by (auto simp: browse_script_def Let_def split: option.splits bool.splits prod.splits if_splits)

text \<open>
  Property C29.  An entity tag identifies its availability body: when a reader got a body with a tag,
  and the same incarnation of the map has since gone through any sequence of full and partial
  puts, a body with that tag is the same body.
\<close>

theorem availability_tag_identifies_body:
  assumes "map_ok h"
    and "browse_script now K_availability e tags ttl h = (B_availability tag v ss, h1)"
    and "evolves h1 h2" and "live now' h2 = h2"
    and "browse_script now' K_availability e tags' ttl' h2 = (B_availability tag v' ss', h3)"
  shows "availability_body e v ss = availability_body e v' ss'"
proof -
  obtain i where i: "sm_version (live now h) = Some v" "sm_incarnation (live now h) = Some i"
    "tag = availability_tag e i v" "ss = sm_seats (live now h)"
    and h1: "h1 = (live now h)\<lparr>sm_expires := Some (now + ttl * 1000000)\<rparr>"
    using assms(2) by (auto simp: browse_availability)
  have ok: "map_ok h1" using map_ok_live [OF assms(1), of now] by (auto simp: h1 map_ok_def split: option.splits)
  obtain i' where i': "sm_version h2 = Some v'" "sm_incarnation h2 = Some i'"
    "tag = availability_tag e i' v'" "ss' = sm_seats h2"
    using assms(4,5) by (auto simp: browse_availability)
  have ev: "sm_incarnation h2 = Some i \<and> (\<exists>v2. sm_version h2 = Some v2 \<and> v \<le> v2 \<and>
      (v2 = v \<longrightarrow> map visible (sm_seats h2) = map visible (sm_seats h1)))"
    using evolves_version [OF assms(3) ok] i by (simp add: h1)
  then have "i' = i" using i'(2) by simp
  then have "availability_tag e i v = availability_tag e i v'" using i(3) i'(3) by (simp only:)
  then have "v' = v" by (simp add: availability_tag_inject)
  moreover from this have "map visible ss = map visible ss'" using ev i i' by (simp add: h1)
  ultimately show ?thesis using availability_body_visible [of ss ss' e v] by simp
qed

section \<open>The body cache\<close>

definition body_bytes :: "(body_key \<times> string \<times> string) list \<Rightarrow> int" where
  "body_bytes es = sum_list (map (\<lambda>(_, _, body). int (length body)) es)"

definition body_ok :: "nat \<Rightarrow> int \<Rightarrow> bodies \<Rightarrow> bool" where
  "body_ok entries limit b \<longleftrightarrow> distinct (map fst (bd_entries b)) \<and> bd_bytes b = body_bytes (bd_entries b) \<and>
     length (bd_entries b) \<le> entries \<and> bd_bytes b \<le> limit"

lemma body_bytes_simps [simp]:
  "body_bytes [] = 0" "body_bytes (e # es) = int (length (snd (snd e))) + body_bytes es"
  "body_bytes (es @ es') = body_bytes es + body_bytes es'"
  by (simp_all add: body_bytes_def split: prod.split)

lemma evict_keeps_last:
  assumes "bd_bytes b = body_bytes (bd_entries b)" and "bd_entries b = es @ [e]"
    and "0 < entries" and "int (length (snd (snd e))) \<le> limit"
  shows "\<exists>n b'. evict entries limit b = Some b' \<and> bd_entries b' = drop n es @ [e] \<and>
     bd_bytes b' = body_bytes (bd_entries b') \<and> length (bd_entries b') \<le> entries \<and> bd_bytes b' \<le> limit"
  using assms
proof (induction es arbitrary: b)
  case Nil
  then have "evict entries limit b = Some b" by (subst evict.simps) simp
  with Nil show ?case by (intro exI [of _ 0] exI [of _ b]) simp
next
  case (Cons x es)
  show ?case
  proof (cases "length (bd_entries b) > entries \<or> bd_bytes b > limit")
    case True
    obtain k t body where x: "x = (k, t, body)" by (cases x)
    let ?b = "\<lparr>bd_entries = es @ [e], bd_bytes = bd_bytes b - int (length body)\<rparr>"
    have "evict entries limit b = evict entries limit ?b"
      using True Cons.prems(2) by (subst evict.simps) (simp add: x)
    moreover obtain n b' where "evict entries limit ?b = Some b'" "bd_entries b' = drop n es @ [e]"
      "bd_bytes b' = body_bytes (bd_entries b')" "length (bd_entries b') \<le> entries" "bd_bytes b' \<le> limit"
      using Cons.IH [of ?b] Cons.prems by (auto simp: x)
    ultimately show ?thesis by (intro exI [of _ "Suc n"] exI [of _ b']) simp
  next
    case False
    then have "evict entries limit b = Some b" by (subst evict.simps) simp
    with False Cons.prems show ?thesis by (intro exI [of _ 0] exI [of _ b]) simp
  qed
qed

lemma filter_other: "key \<notin> fst ` set es \<Longrightarrow> filter (\<lambda>e. fst e \<noteq> key) es = es"
  by (induction es) auto

lemma body_bytes_remove:
  assumes "distinct (map fst es)" and "map_of es key = Some v"
  shows "body_bytes (filter (\<lambda>e. fst e \<noteq> key) es) = body_bytes es - int (length (snd v))"
  using assms
proof (induction es)
  case (Cons e es)
  show ?case
  proof (cases "fst e = key")
    case True
    then have "filter (\<lambda>e. fst e \<noteq> key) es = es"
      using Cons.prems(1) by (intro filter_other) simp
    with True Cons.prems(2) show ?thesis by (cases e) auto
  next
    case False
    with Cons show ?thesis by (cases e) auto
  qed
qed simp

lemma move_to_end_ok: "body_ok n l b \<Longrightarrow> body_ok n l (move_to_end key b)"
proof -
  assume ok: "body_ok n l b"
  show ?thesis
  proof (cases "map_of (bd_entries b) key")
    case (Some v)
    have d: "distinct (map fst (bd_entries b))" using ok by (simp add: body_ok_def)
    have "body_bytes (filter (\<lambda>e. fst e \<noteq> key) (bd_entries b)) + int (length (snd v)) = bd_bytes b"
      using body_bytes_remove [OF d Some] ok by (simp add: body_ok_def)
    moreover have "length (filter (\<lambda>e. fst e \<noteq> key) (bd_entries b)) < length (bd_entries b)"
      by (rule length_filter_less [of "(key, v)"]) (use Some in \<open>auto dest: map_of_SomeD\<close>)
    ultimately show ?thesis using ok Some d
      by (auto simp: move_to_end_def body_ok_def distinct_map_filter)
  qed (use ok in \<open>simp add: move_to_end_def\<close>)
qed

text \<open>Storing a body succeeds, keeps the limits, and the new body survives the eviction.\<close>

lemma store_body_ok:
  assumes ok: "body_ok n l b" and l: "0 \<le> l"
  shows "\<exists>b'. store_body n l key tag body b = Inr b' \<and> body_ok n l b' \<and>
     set (bd_entries b') \<subseteq> insert (key, tag, body) (set (bd_entries b)) \<and>
     (n \<noteq> 0 \<and> int (length body) \<le> l \<longrightarrow> map_of (bd_entries b') key = Some (tag, body))"
proof -
  define b1 where "b1 = (case map_of (bd_entries b) key of None \<Rightarrow> b | Some (_, previous) \<Rightarrow>
      \<lparr>bd_entries = filter (\<lambda>e. fst e \<noteq> key) (bd_entries b), bd_bytes = bd_bytes b - int (length previous)\<rparr>)"
  have d: "distinct (map fst (bd_entries b))" using ok by (simp add: body_ok_def)
  have b1: "bd_entries b1 = filter (\<lambda>e. fst e \<noteq> key) (bd_entries b)"
    using map_of_eq_None_iff [of "bd_entries b" key]
    by (auto simp: b1_def filter_other split: option.splits)
  have nonneg: "0 \<le> body_bytes es" for es by (induction es) auto
  have bytes: "bd_bytes b1 = body_bytes (bd_entries b1)" "bd_bytes b1 \<le> l"
    using ok body_bytes_remove [OF d, of key]
    by (auto simp: b1_def body_ok_def split: option.splits)
  have ok1: "body_ok n l b1"
    using ok bytes d le_trans [OF length_filter_le] by (auto simp: body_ok_def b1 distinct_map_filter)
  show ?thesis
  proof (cases "n \<noteq> 0 \<and> int (length body) \<le> l")
    case True
    let ?b = "\<lparr>bd_entries = bd_entries b1 @ [(key, tag, body)], bd_bytes = bd_bytes b1 + int (length body)\<rparr>"
    obtain m b' where b': "evict n l ?b = Some b'" "bd_entries b' = drop m (bd_entries b1) @ [(key, tag, body)]"
      "bd_bytes b' = body_bytes (bd_entries b')" "length (bd_entries b') \<le> n" "bd_bytes b' \<le> l"
      using evict_keeps_last [of ?b "bd_entries b1" "(key, tag, body)" n l] bytes(1) True by auto
    have key: "key \<notin> fst ` set (drop m (bd_entries b1))" using set_drop_subset [of m] by (force simp: b1)
    have "store_body n l key tag body b = Inr b'" using b'(1) True by (simp add: store_body_def b1_def [symmetric])
    moreover have "distinct (map fst (bd_entries b'))"
      using key ok1 distinct_drop [of "map fst (bd_entries b1)" m]
      by (simp add: b'(2) body_ok_def drop_map)
    moreover have "map_of (bd_entries b') key = Some (tag, body)"
      using key by (simp add: b'(2) map_add_def map_of_eq_None_iff [THEN iffD2])
    moreover have "set (bd_entries b') \<subseteq> insert (key, tag, body) (set (bd_entries b))"
      using set_drop_subset [of m "bd_entries b1"] by (auto simp: b'(2) b1)
    ultimately show ?thesis using b' by (auto simp: body_ok_def)
  next
    case False
    then have "store_body n l key tag body b = Inr b1" by (auto simp: store_body_def b1_def [symmetric])
    with ok1 False show ?thesis by (auto simp: b1)
  qed
qed

section \<open>Validators\<close>

lemma split_comma_nonempty: "split_comma cs \<noteq> []"
  by (induction cs) (auto split: list.splits)

lemma split_comma_append:
  "split_comma (a @ '','' @ b) = split_comma a @ split_comma b"
proof (induction a)
  case (Cons c a)
  then show ?case using split_comma_nonempty [of a] by (cases "split_comma a") auto
qed simp

lemma split_comma_plain: "CHR 0x2C \<notin> set cs \<Longrightarrow> split_comma cs = [cs]"
  by (induction cs) auto

definition clean_tag :: "string \<Rightarrow> bool" where
  "clean_tag t \<longleftrightarrow> t \<noteq> ''*'' \<and> etag_list t = [t]"

lemma clean_quoted:
  assumes "CHR 0x2C \<notin> set x"
  shows "clean_tag (CHR 0x22 # x @ [CHR 0x22])"
proof -
  let ?t = "CHR 0x22 # x @ [CHR 0x22]"
  have "strip ?t = ?t" by (simp add: strip_def is_space_def)
  moreover have "remove_weak ?t = ?t" by (cases x) simp_all
  moreover have "split_comma ?t = [?t]" using assms by (intro split_comma_plain) auto
  ultimately show ?thesis by (simp add: clean_tag_def etag_list_def)
qed

lemma etag_list_append: "etag_list (a @ '','' @ b) = etag_list a @ etag_list b"
  unfolding etag_list_def split_comma_append by simp

lemma browse_not_modified:
  assumes "browse up ttl now e kind header maps = (Inr (st, tag, None), maps')"
  shows "''*'' \<in> set (etag_list header) \<or> tag \<in> set (etag_list header)"
  using assms
  by (auto simp: browse_def browse_script_def Let_def list_ex_iff
      split: if_splits option.splits bool.splits prod.splits browse_kind.splits)

text \<open>Tags of cached bodies are single, strong validators.\<close>

definition bodies_inv :: "nat \<Rightarrow> int \<Rightarrow> bodies \<Rightarrow> bool" where
  "bodies_inv n l b \<longleftrightarrow> body_ok n l b \<and> (\<forall>(k, t, body)\<in>set (bd_entries b). clean_tag t)"

lemma move_to_end_inv: "bodies_inv n l b \<Longrightarrow> bodies_inv n l (move_to_end key b)"
  using move_to_end_ok [of n l b key]
  by (auto simp: bodies_inv_def move_to_end_def dest!: map_of_SomeD split: option.splits)

definition map_tags_clean :: "time \<Rightarrow> uuid \<Rightarrow> seatmaps \<Rightarrow> bool" where
  "map_tags_clean now e maps \<longleftrightarrow>
     (case sm_layout (live now (maps e)) of None \<Rightarrow> True | Some (_, etag) \<Rightarrow> clean_tag etag) \<and>
     (case sm_incarnation (live now (maps e)) of None \<Rightarrow> True
      | Some i \<Rightarrow> CHR 0x2C \<notin> set e \<and> CHR 0x2C \<notin> set i)"

lemma nat_str_digits: "c \<in> set (nat_str n) \<Longrightarrow> 48 \<le> (of_char c :: nat) \<and> (of_char c :: nat) \<le> 57"
proof (induction n rule: less_induct)
  case (less n)
  show ?case
  proof (cases "n < 10")
    case True
    then show ?thesis using less.prems by (subst (asm) nat_str.simps) auto
  next
    case False
    then have "c \<in> set (nat_str (n div 10)) \<or> c = char_of (48 + n mod 10)"
      using less.prems by (subst (asm) nat_str.simps) auto
    then show ?thesis using less.IH [of "n div 10"] False by auto
  qed
qed

lemma int_str_no_comma: "CHR 0x2C \<notin> set (int_str i)"
proof -
  have "CHR 0x2C \<notin> set (nat_str n)" for n
    using nat_str_digits [of "CHR 0x2C" n] by auto
  then show ?thesis by (simp add: int_str_def)
qed

lemma availability_tag_clean:
  assumes "CHR 0x2C \<notin> set e" and "CHR 0x2C \<notin> set i"
  shows "clean_tag (availability_tag e i v)"
  using clean_quoted [of "''availability:'' @ e @ '':'' @ i @ '':'' @ int_str v"] assms int_str_no_comma [of v]
  by (simp add: availability_tag_def)

lemma browse_tag_clean:
  assumes "map_tags_clean now e maps" and "browse up ttl now e kind header maps = (Inr (st, tag, Some body), maps')"
  shows "clean_tag tag"
  using assms availability_tag_clean
  by (auto simp: browse_def browse_script_def map_tags_clean_def Let_def
      split: if_splits option.splits bool.splits prod.splits browse_kind.splits)

lemma browse_errors:
  assumes "browse up ttl now e kind header maps = (Inl err, maps')"
  shows "err = Failure ''SEATMAP_UNAVAILABLE'' 503 \<or> err = Failure ''SEATMAP_WARMING'' 503"
  using assms
  by (auto simp: browse_def split: if_splits prod.splits browse_reply.splits)


section \<open>Instances\<close>

definition demo_seat :: "int \<Rightarrow> seat_status \<Rightarrow> cseat" where
  "demo_seat n st = \<lparr>cs_id = ''A1'', cs_price = 5, cs_status = st, cs_hold = None, cs_until = None,
     cs_until_epoch = None, cs_version = Some n, cs_source = n\<rparr>"

definition demo_map :: seatmap where
  "demo_map = \<lparr>sm_version = Some 3, sm_updating = False, sm_seats = [demo_seat 3 AVAILABLE],
     sm_layout = Some (JNull, [CHR 0x22] @ ''layout:x'' @ [CHR 0x22]), sm_incarnation = Some ''i'',
     sm_sale = None, sm_expires = None\<rparr>"


text \<open>The tag of version 3 comes back after a patch that brings nothing newer, with the same body.\<close>

theorem availability_tag_identifies_body_witness:
  "availability_body ''e'' 3 [demo_seat 3 AVAILABLE] =
   availability_body ''e'' 3 (sm_seats (snd (put_script 1 None [demo_seat 2 HELD] demo_map)))"
proof -
  let ?h1 = "demo_map\<lparr>sm_expires := Some 30000000\<rparr>"
  let ?h2 = "snd (put_script 1 None [demo_seat 2 HELD] ?h1)"
  let ?tag = "availability_tag ''e'' ''i'' 3"
  have h2: "?h2 = ?h1" by (simp add: put_script_def live_def demo_map_def put_rows_def put_row_def
      find_cseat_def demo_seat_def write_rows_def)
  have s: "sm_seats (snd (put_script 1 None [demo_seat 2 HELD] demo_map)) = [demo_seat 3 AVAILABLE]"
    by (simp add: put_script_def live_def demo_map_def put_rows_def put_row_def
      find_cseat_def demo_seat_def write_rows_def)
  have "evolves ?h1 ?h2"
    by (rule evolves.put [OF evolves.start, where now = 1 and args = None and rows = "[demo_seat 2 HELD]"
          and v = "fst (put_script 1 None [demo_seat 2 HELD] ?h1)"])
      (simp_all add: live_def demo_map_def covers_def demo_seat_def)
  then have e: "evolves ?h1 ?h1" by (simp only: h2)
  have ok: "map_ok demo_map" by (simp add: map_ok_def demo_map_def demo_seat_def)
  have b1: "browse_script 0 K_availability ''e'' [] 30 demo_map = (B_availability ?tag 3 [demo_seat 3 AVAILABLE], ?h1)"
    by (simp add: browse_availability live_def demo_map_def)
  have lv: "live 2 ?h1 = ?h1" by (simp add: live_def)
  have b2: "browse_script 2 K_availability ''e'' [] 30 ?h1 =
      (B_availability ?tag 3 [demo_seat 3 AVAILABLE], ?h1\<lparr>sm_expires := Some 30000002\<rparr>)"
    by (simp add: browse_availability live_def demo_map_def)
  show ?thesis using availability_tag_identifies_body [OF ok b1 e lv b2] by (simp only: s)
qed

end
