(* ===== verification/Store.thy ===== *)
theory Store
  imports Shield
begin

text \<open>
  The operations of \<open>PostgresReservations\<close> (\<open>infrastructure/reservations.py\<close>).

  Each operation's body is a function from the database to an exception or an answer with the
  new database; \<open>transaction\<close> runs a body and restores the database when it raises.  A body sees
  the outside world through an \<open>env\<close>: the database clock, the values \<open>uuid4()\<close> returns (the
  argument numbers the calls of the operation), the digest of a canonical JSON text, which rows
  other transactions have locked, and the request's correlation id.  \<open>FOR UPDATE NOWAIT\<close> on a
  row that another transaction holds raises \<open>LockNotAvailable\<close>; \<open>SKIP LOCKED\<close> leaves it out.
\<close>

datatype lock =
    L_seat uuid seat_id
  | L_order uuid
  | L_hold uuid
  | L_payment uuid
  | L_idem string string string
  | L_outbox uuid
  | L_refresh uuid
  | L_reconcile uuid

record env =
  e_now :: time
  e_uuid :: "nat \<Rightarrow> uuid"
  e_sha :: "json \<Rightarrow> string"
  e_locked :: "lock \<Rightarrow> bool"
  e_request_id :: json

definition transaction :: "(db \<Rightarrow> ('a \<times> db) result) \<Rightarrow> db \<Rightarrow> 'a result \<times> db" where
  "transaction body d = (case body d of Inl e \<Rightarrow> (Inl e, d) | Inr (x, d') \<Rightarrow> (Inr x, d'))"

section \<open>Module-level helpers\<close>

definition digest :: "env \<Rightarrow> json \<Rightarrow> string" where
  "digest E value = e_sha E (sort_keys value)"

definition event :: "env \<Rightarrow> nat \<Rightarrow> uuid \<Rightarrow> string \<Rightarrow> json \<Rightarrow> db \<Rightarrow> db result" where
  "event E n aggregate kind payload d =
     insert_outbox \<lparr>x_id = e_uuid E n, x_aggregate = aggregate, x_type = kind,
       x_schema_version = 1, x_payload = jset ''correlation_id'' (e_request_id E) payload,
       x_occurred = e_now E, x_published = None, x_lease_until = None, x_lease_token = None\<rparr> d"

text \<open>
  \<open>idem\<close> answers \<open>None\<close> when it inserted the record, and otherwise the stored response (which is
  itself \<open>None\<close> for a record without one).
\<close>

definition idem :: "env \<Rightarrow> string \<Rightarrow> string \<Rightarrow> string \<Rightarrow> json \<Rightarrow> db \<Rightarrow> (json option \<times> db) result" where
  "idem E actor operation key request d =
     (if e_locked E (L_idem actor operation key) then Inl LockNotAvailable
      else case find (\<lambda>k. idem_key k = (actor, operation, key)) (idempotency_records d) of
        None \<Rightarrow> Inr (None, d\<lparr>idempotency_records := idempotency_records d @
          [\<lparr>k_actor = actor, k_operation = operation, k_key = key,
            k_request_hash = digest E request, k_response = None\<rparr>]\<rparr>)
      | Some previous \<Rightarrow>
          if k_request_hash previous \<noteq> digest E request
          then Inl (Failure ''IDEMPOTENCY_MISMATCH'' 409)
          else Inr (k_response previous, d))"

definition remember :: "string \<Rightarrow> string \<Rightarrow> string \<Rightarrow> json \<Rightarrow> db \<Rightarrow> db" where
  "remember actor operation key response d =
     d\<lparr>idempotency_records := upd_where (\<lambda>k. idem_key k = (actor, operation, key))
        (\<lambda>k. k\<lparr>k_response := Some response\<rparr>) (idempotency_records d)\<rparr>"

section \<open>Reserving\<close>

definition reserve_request :: "uuid \<Rightarrow> seat_id list \<Rightarrow> json" where
  "reserve_request event_id seat_ids =
     JObj [(''event_id'', JStr event_id), (''seats'', JArr (map JStr seat_ids))]"

definition seats_payload :: "uuid \<Rightarrow> seat_id list \<Rightarrow> json" where
  "seats_payload event_id seat_ids =
     JObj [(''event_id'', JStr event_id), (''seats'', JArr (map JStr seat_ids))]"

definition select_seats :: "uuid \<Rightarrow> seat_id list \<Rightarrow> db \<Rightarrow> seat_row list" where
  "select_seats event_id seat_ids d =
     sort_key s_id (filter (\<lambda>s. s_event s = event_id \<and> s_id s \<in> set seat_ids) (event_seats d))"

definition lock_seats :: "env \<Rightarrow> seat_row list \<Rightarrow> unit result" where
  "lock_seats E rows =
     require (\<not> list_ex (\<lambda>s. e_locked E (L_seat (s_event s) (s_id s))) rows) LockNotAvailable"

definition find_sale :: "uuid \<Rightarrow> db \<Rightarrow> event_row result" where
  "find_sale event_id d =
     (case find_event event_id d of
        None \<Rightarrow> Inl (Failure ''EVENT_NOT_FOUND'' 404) | Some sale \<Rightarrow> Inr sale)"

text \<open>\<open>r["booked_order_id"] or (r["reserved_until"] and r["reserved_until"] > now)\<close>\<close>

definition unavailable :: "time \<Rightarrow> seat_row \<Rightarrow> bool" where
  "unavailable now r \<longleftrightarrow> s_booked r \<noteq> None \<or> (case s_until r of None \<Rightarrow> False | Some t \<Rightarrow> t > now)"

fun insert_items :: "uuid \<Rightarrow> uuid \<Rightarrow> seat_row list \<Rightarrow> db \<Rightarrow> db result" where
  "insert_items order event_id [] d = Inr d"
| "insert_items order event_id (row # rows) d =
     ebind (insert_item \<lparr>i_order = order, i_event = event_id, i_seat = s_id row, i_price = s_price row\<rparr> d)
       (insert_items order event_id rows)"

text \<open>
  The writes that both ways of reserving share: the hold, its pending order, the seats' new
  owner, the captured prices and the outbox event, in this order.
\<close>

definition create_hold ::
  "env \<Rightarrow> nat \<Rightarrow> string \<Rightarrow> uuid \<Rightarrow> string \<Rightarrow> uuid \<Rightarrow> uuid \<Rightarrow> time \<Rightarrow> seat_row list \<Rightarrow> seat_id list \<Rightarrow> db \<Rightarrow> db result"
where
  "create_hold E n actor event_id currency hold order expires rows seat_ids d =
     ebind (insert_hold \<lparr>h_id = hold, h_actor = actor, h_event = event_id, h_expires = expires,
       h_status = H_ACTIVE\<rparr> d) (\<lambda>d.
     ebind (insert_order \<lparr>o_id = order, o_actor = actor, o_hold = hold, o_event = event_id,
       o_total = sum_list (map s_price rows), o_currency = currency, o_status = O_PENDING,
       o_created = e_now E\<rparr> d) (\<lambda>d.
     ebind (update_seats (\<lambda>s. s_event s = event_id \<and> s_id s \<in> set seat_ids)
       (\<lambda>s. s\<lparr>s_hold := Some hold, s_until := Some expires, s_version := s_version s + 1\<rparr>) d) (\<lambda>d.
     ebind (insert_items order event_id rows d) (\<lambda>d.
     event E n order ''SeatsChanged'' (seats_payload event_id seat_ids) d))))"

definition hold_response :: "uuid \<Rightarrow> uuid \<Rightarrow> time \<Rightarrow> int \<Rightarrow> string \<Rightarrow> seat_id list \<Rightarrow> json" where
  "hold_response hold order expires tot currency seat_ids =
     JObj [(''hold_id'', JStr hold), (''order_id'', JStr order), (''expires_at'', JTime expires),
       (''total'', JInt tot), (''currency'', JStr currency), (''seats'', JArr (map JStr seat_ids))]"

definition reserve_tx ::
  "env \<Rightarrow> int \<Rightarrow> string \<Rightarrow> uuid \<Rightarrow> seat_id list \<Rightarrow> string \<Rightarrow> db \<Rightarrow> (json \<times> db) result"
where
  "reserve_tx E hold_seconds actor event_id seat_ids key d =
     ebind (idem E actor ''hold'' key (reserve_request event_id seat_ids) d) (\<lambda>(replay, d).
     case replay of Some r \<Rightarrow> Inr (r, d) | None \<Rightarrow>
     ebind (find_sale event_id d) (\<lambda>sale.
     let rows = select_seats event_id seat_ids d; now = e_now E in
     ebind (lock_seats E rows) (\<lambda>_.
     ebind (require (ev_sale_starts sale \<le> now \<and> now < ev_sale_ends sale)
       (Failure ''SALE_CLOSED'' 409)) (\<lambda>_.
     ebind (require (length rows = length seat_ids) (Failure ''SEAT_NOT_FOUND'' 404)) (\<lambda>_.
     ebind (require (\<not> list_ex (unavailable now) rows) (Failure ''SEAT_UNAVAILABLE'' 409)) (\<lambda>_.
     let hold = e_uuid E 0; order = e_uuid E 1; expires = now + hold_seconds * 1000000;
         response = hold_response hold order expires (sum_list (map s_price rows))
           (ev_currency sale) seat_ids in
     ebind (create_hold E 2 actor event_id (ev_currency sale) hold order expires rows seat_ids d)
       (\<lambda>d. Inr (response, remember actor ''hold'' key response d))))))))"

text \<open>
  \<open>reserve\<close> runs that transaction inside the Redis shield.  \<open>up_in\<close> and \<open>up_out\<close> say whether the
  two Redis calls succeed, \<open>t_in\<close> and \<open>t_out\<close> when they run.
\<close>

definition reserve ::
  "env \<Rightarrow> bool \<Rightarrow> bool \<Rightarrow> time \<Rightarrow> time \<Rightarrow> string \<Rightarrow> int \<Rightarrow> string \<Rightarrow> uuid \<Rightarrow> seat_id list \<Rightarrow> string \<Rightarrow>
   shields \<times> db \<Rightarrow> json result \<times> shields \<times> db"
where
  "reserve E up_in up_out t_in t_out token hold_seconds actor event_id seat_ids key = (\<lambda>(sh, d).
     let ss = sort (remdups seat_ids) in
     if length ss \<noteq> length seat_ids \<or> \<not> (1 \<le> length ss \<and> length ss \<le> 8)
     then (Inl (Failure ''INVALID_SEATS'' 422), sh, d)
     else case shield_enter up_in t_in token event_id ss sh of
       Inl e \<Rightarrow> (Inl e, sh, d)
     | Inr sh1 \<Rightarrow>
         (case transaction (reserve_tx E hold_seconds actor event_id ss key) d of
            (r, d') \<Rightarrow> (r, shield_exit up_out t_out token event_id ss sh1, d')))"

section \<open>Persisting a Redis-first command\<close>

record command_payload =
  cp_command_id :: uuid
  cp_actor :: string
  cp_key :: string
  cp_request_hash :: string
  cp_event :: uuid
  cp_seats :: "seat_id list"
  cp_hold :: uuid
  cp_order :: uuid
  cp_expires :: time

definition unavailable_to :: "uuid \<Rightarrow> time \<Rightarrow> seat_row \<Rightarrow> bool" where
  "unavailable_to hold now r \<longleftrightarrow>
     s_booked r \<noteq> None \<or>
     (case s_until r of None \<Rightarrow> False | Some t \<Rightarrow> t > now \<and> s_hold r \<noteq> Some hold)"

definition durable_response :: "json \<Rightarrow> int \<Rightarrow> string \<Rightarrow> time \<Rightarrow> json" where
  "durable_response response tot currency expires =
     jset ''persistence_status'' (JStr ''DURABLE'') (jset ''expires_at'' (JTime expires)
       (jset ''currency'' (JStr currency) (jset ''total'' (JInt tot) response)))"

definition persist_tx :: "env \<Rightarrow> command_payload \<Rightarrow> json \<Rightarrow> db \<Rightarrow> (json \<times> db) result" where
  "persist_tx E p response d =
     (case find (\<lambda>c. m_id c = cp_command_id p) (reservation_commands d) of
        Some previous \<Rightarrow>
          if m_request_hash previous \<noteq> cp_request_hash p
          then Inl (Failure ''RESERVATION_COMMAND_MISMATCH'' 409)
          else Inr (m_response previous, d)
      | None \<Rightarrow>
     ebind (idem E (cp_actor p) ''hold'' (cp_key p) (reserve_request (cp_event p) (sort (cp_seats p))) d)
       (\<lambda>(replay, d).
     case replay of
       Some r \<Rightarrow>
         ebind (jindex ''hold_id'' r) (\<lambda>h.
         if h \<noteq> JStr (cp_hold p) then Inl (Failure ''RESERVATION_COMMAND_MISMATCH'' 409) else
         ebind (jindex ''order_id'' r) (\<lambda>oid.
         if oid \<noteq> JStr (cp_order p) then Inl (Failure ''RESERVATION_COMMAND_MISMATCH'' 409)
         else Inr (r, d)))
     | None \<Rightarrow>
     ebind (find_sale (cp_event p) d) (\<lambda>sale.
     let rows = select_seats (cp_event p) (sort (cp_seats p)) d; now = e_now E in
     ebind (lock_seats E rows) (\<lambda>_.
     ebind (require (ev_sale_starts sale \<le> now \<and> now < ev_sale_ends sale)
       (Failure ''SALE_CLOSED'' 409)) (\<lambda>_.
     ebind (require (length rows = length (cp_seats p)) (Failure ''SEAT_NOT_FOUND'' 404)) (\<lambda>_.
     ebind (require (now < cp_expires p) (Failure ''HOLD_EXPIRED'' 409)) (\<lambda>_.
     ebind (require (\<not> list_ex (unavailable_to (cp_hold p) now) rows)
       (Failure ''SEAT_UNAVAILABLE'' 409)) (\<lambda>_.
     let durable = durable_response response (sum_list (map s_price rows)) (ev_currency sale)
           (cp_expires p) in
     ebind (create_hold E 0 (cp_actor p) (cp_event p) (ev_currency sale) (cp_hold p) (cp_order p)
       (cp_expires p) rows (sort (cp_seats p)) d) (\<lambda>d.
     ebind (insert_command \<lparr>m_id = cp_command_id p, m_actor = cp_actor p, m_key = cp_key p,
       m_request_hash = cp_request_hash p, m_event = cp_event p, m_hold = cp_hold p,
       m_order = cp_order p, m_response = durable\<rparr>
       (remember (cp_actor p) ''hold'' (cp_key p) durable d))
     (\<lambda>d. Inr (durable, d)))))))))))"

definition persist_reservation_command ::
  "env \<Rightarrow> command_payload \<Rightarrow> json \<Rightarrow> db \<Rightarrow> json result \<times> db"
where
  "persist_reservation_command E p response d =
     (if digest E (reserve_request (cp_event p) (sort (cp_seats p))) \<noteq> cp_request_hash p
      then (Inl (Failure ''RESERVATION_COMMAND_MISMATCH'' 422), d)
      else transaction (persist_tx E p response) d)"

section \<open>Checkout and reads\<close>

definition lock_order :: "env \<Rightarrow> order_row option \<Rightarrow> unit result" where
  "lock_order E r = require (case r of None \<Rightarrow> True | Some x \<Rightarrow> \<not> e_locked E (L_order (o_id x))) LockNotAvailable"

definition order_of_hold :: "string \<Rightarrow> uuid \<Rightarrow> db \<Rightarrow> order_row option" where
  "order_of_hold actor hold_id d = find (\<lambda>r. o_hold r = hold_id \<and> o_actor r = actor) (orders d)"

definition order_response :: "order_row \<Rightarrow> json" where
  "order_response row =
     JObj [(''order_id'', JStr (o_id row)), (''status'', JStr (order_status_str (o_status row))),
       (''total'', JInt (o_total row)), (''currency'', JStr (o_currency row))]"

definition checkout_tx :: "env \<Rightarrow> string \<Rightarrow> uuid \<Rightarrow> string \<Rightarrow> db \<Rightarrow> (json \<times> db) result" where
  "checkout_tx E actor hold_id key d =
     ebind (idem E actor ''order'' key (JObj [(''hold_id'', JStr hold_id)]) d) (\<lambda>(replay, d).
     case replay of Some r \<Rightarrow> Inr (r, d) | None \<Rightarrow>
     ebind (lock_order E (order_of_hold actor hold_id d)) (\<lambda>_.
     case order_of_hold actor hold_id d of
       None \<Rightarrow> Inl (Failure ''HOLD_NOT_FOUND'' 404)
     | Some row \<Rightarrow>
         ebind (if o_status row = O_PENDING
                then ebind (not_none (find_hold hold_id d))
                  (\<lambda>hold. require (e_now E < h_expires hold) (Failure ''HOLD_EXPIRED'' 409))
                else Inr ())
         (\<lambda>_. Inr (order_response row, remember actor ''order'' key (order_response row) d))))"

definition checkout :: "env \<Rightarrow> string \<Rightarrow> uuid \<Rightarrow> string \<Rightarrow> db \<Rightarrow> json result \<times> db" where
  "checkout E actor hold_id key = transaction (checkout_tx E actor hold_id key)"

definition order_tickets :: "uuid \<Rightarrow> db \<Rightarrow> (uuid \<times> seat_id) list" where
  "order_tickets order_id d =
     sort_key snd (concat (map (\<lambda>t. map (\<lambda>b. (t_id t, b_seat b))
       (filter (\<lambda>b. b_id b = t_booking t \<and> b_order b = order_id) (bookings d))) (tickets d)))"

definition get_order :: "string \<Rightarrow> uuid \<Rightarrow> db \<Rightarrow> (order_row \<times> (uuid \<times> seat_id) list) result \<times> db" where
  "get_order actor order_id = transaction (\<lambda>d.
     case find (\<lambda>r. o_id r = order_id \<and> o_actor r = actor) (orders d) of
       None \<Rightarrow> Inl (Failure ''ORDER_NOT_FOUND'' 404)
     | Some row \<Rightarrow> Inr ((row, order_tickets order_id d), d))"

definition get_hold :: "env \<Rightarrow> string \<Rightarrow> uuid \<Rightarrow> db \<Rightarrow> hold_row result \<times> db" where
  "get_hold E actor hold_id = transaction (\<lambda>d.
     case find (\<lambda>r. h_id r = hold_id \<and> h_actor r = actor) (holds d) of
       None \<Rightarrow> Inl (Failure ''HOLD_NOT_FOUND'' 404)
     | Some row \<Rightarrow>
         Inr (if h_status row = H_ACTIVE \<and> h_expires row \<le> e_now E
              then row\<lparr>h_status := H_EXPIRED\<rparr> else row, d))"

section \<open>Releasing and expiring\<close>

text \<open>\<open>_release\<close>: lock the hold and its seats, free the seats, close the hold and the order.\<close>

definition release_order :: "env \<Rightarrow> nat \<Rightarrow> order_row \<Rightarrow> hold_status \<Rightarrow> db \<Rightarrow> db result" where
  "release_order E n order state d =
     ebind (require (\<not> (o_hold order \<in> h_id ` set (holds d) \<and> e_locked E (L_hold (o_hold order))))
       LockNotAvailable) (\<lambda>_.
     ebind (lock_seats E (sort_key s_id (filter (\<lambda>s. s_hold s = Some (o_hold order)) (event_seats d)))) (\<lambda>_.
     let released = map s_id (filter (\<lambda>s. s_hold s = Some (o_hold order) \<and> s_booked s = None)
           (event_seats d)) in
     ebind (update_seats (\<lambda>s. s_hold s = Some (o_hold order) \<and> s_booked s = None)
       (\<lambda>s. s\<lparr>s_hold := None, s_until := None, s_version := s_version s + 1\<rparr>) d) (\<lambda>d.
     let d = d\<lparr>holds := upd_where (\<lambda>h. h_id h = o_hold order \<and> h_status h = H_ACTIVE)
                 (\<lambda>h. h\<lparr>h_status := state\<rparr>) (holds d)\<rparr>;
         d = d\<lparr>orders := upd_where (\<lambda>r. o_id r = o_id order \<and> o_status r = O_PENDING)
                 (\<lambda>r. r\<lparr>o_status := O_EXPIRED\<rparr>) (orders d)\<rparr> in
     event E n (o_id order) ''SeatsChanged'' (seats_payload (o_event order) released) d)))"

definition release_tx :: "env \<Rightarrow> string \<Rightarrow> uuid \<Rightarrow> db \<Rightarrow> (json \<times> db) result" where
  "release_tx E actor hold_id d =
     ebind (lock_order E (order_of_hold actor hold_id d)) (\<lambda>_.
     case order_of_hold actor hold_id d of
       None \<Rightarrow> Inl (Failure ''HOLD_NOT_FOUND'' 404)
     | Some order \<Rightarrow>
         if o_status order \<in> {O_PAID, O_FULFILLED} then Inl (Failure ''ALREADY_BOOKED'' 409)
         else ebind (release_order E 0 order H_RELEASED d)
           (\<lambda>d. Inr (JObj [(''status'', JStr ''RELEASED'')], d)))"

definition release :: "env \<Rightarrow> string \<Rightarrow> uuid \<Rightarrow> db \<Rightarrow> json result \<times> db" where
  "release E actor hold_id = transaction (release_tx E actor hold_id)"

text \<open>
  The orders an expiry batch takes: joined with their active, elapsed holds, oldest deadline
  first, rows that others have locked left out before the limit counts.
\<close>

definition expired_orders :: "env \<Rightarrow> db \<Rightarrow> (order_row \<times> hold_row) list" where
  "expired_orders E d =
     sort_key (\<lambda>(r, h). h_expires h)
       (concat (map (\<lambda>r. map (Pair r)
         (filter (\<lambda>h. h_id h = o_hold r \<and> h_status h = H_ACTIVE \<and> h_expires h \<le> e_now E) (holds d)))
         (orders d)))"

fun release_all :: "env \<Rightarrow> nat \<Rightarrow> order_row list \<Rightarrow> db \<Rightarrow> db result" where
  "release_all E n [] d = Inr d"
| "release_all E n (r # rs) d = ebind (release_order E n r H_EXPIRED d) (release_all E (Suc n) rs)"

definition expire_tx :: "env \<Rightarrow> nat \<Rightarrow> db \<Rightarrow> (nat \<times> db) result" where
  "expire_tx E limit d =
     (let rs = take limit (filter (\<lambda>r. \<not> e_locked E (L_order (o_id r))) (map fst (expired_orders E d))) in
      ebind (release_all E 0 rs d) (\<lambda>d. Inr (length rs, d)))"

definition expire_batch :: "env \<Rightarrow> int \<Rightarrow> db \<Rightarrow> nat result \<times> db" where
  "expire_batch E limit d =
     (if \<not> (1 \<le> limit \<and> limit \<le> 100) then (Inl (PyError ''ValueError''), d)
      else transaction (expire_tx E (nat limit)) d)"

definition expire_one :: "env \<Rightarrow> db \<Rightarrow> bool result \<times> db" where
  "expire_one E d = (case expire_batch E 1 d of (r, d') \<Rightarrow> (map_sum id (\<lambda>n. n \<noteq> 0) r, d'))"

section \<open>Payments\<close>

definition payment_response :: "uuid \<Rightarrow> uuid \<Rightarrow> json" where
  "payment_response payment_id order_id =
     JObj [(''payment_id'', JStr payment_id), (''order_id'', JStr order_id)]"

definition payment_request :: "uuid \<Rightarrow> outcome \<Rightarrow> int \<Rightarrow> int \<Rightarrow> json" where
  "payment_request order_id outcome delay_seconds duplicates =
     JObj [(''order_id'', JStr order_id), (''outcome'', JStr (outcome_str outcome)),
       (''delay_seconds'', JInt delay_seconds), (''duplicates'', JInt duplicates)]"

definition initiate_payment_tx ::
  "env \<Rightarrow> string \<Rightarrow> uuid \<Rightarrow> string \<Rightarrow> outcome \<Rightarrow> int \<Rightarrow> int \<Rightarrow> db \<Rightarrow> (json \<times> db) result"
where
  "initiate_payment_tx E actor order_id key outcome delay_seconds duplicates d =
     ebind (idem E actor ''payment'' key (payment_request order_id outcome delay_seconds duplicates) d)
       (\<lambda>(replay, d).
     case replay of Some r \<Rightarrow> Inr (r, d) | None \<Rightarrow>
     let found = find (\<lambda>r. o_id r = order_id \<and> o_actor r = actor) (orders d) in
     ebind (lock_order E found) (\<lambda>_.
     case found of
       None \<Rightarrow> Inl (Failure ''ORDER_NOT_FOUND'' 404)
     | Some order \<Rightarrow>
         ebind (case find (\<lambda>p. p_order p = order_id) (payment_attempts d) of
             Some existing \<Rightarrow> Inr (payment_response (p_id existing) order_id, d)
           | None \<Rightarrow>
               ebind (if o_status order \<noteq> O_PENDING then Inl (Failure ''ORDER_NOT_PAYABLE'' 409)
                      else ebind (not_none (find_hold (o_hold order) d)) (\<lambda>hold.
                        require (e_now E < h_expires hold) (Failure ''ORDER_NOT_PAYABLE'' 409))) (\<lambda>_.
               ebind (insert_payment \<lparr>p_id = e_uuid E 0, p_order = order_id, p_status = P_PENDING,
                 p_outcome = outcome, p_due = e_now E + delay_seconds * 1000000, p_deliveries = 0,
                 p_target = duplicates, p_lease_until = None, p_lease_token = None\<rparr> d)
               (\<lambda>d. Inr (payment_response (e_uuid E 0) order_id, d))))
         (\<lambda>(result, d). Inr (result, remember actor ''payment'' key result d))))"

definition initiate_payment ::
  "env \<Rightarrow> string \<Rightarrow> uuid \<Rightarrow> string \<Rightarrow> outcome \<Rightarrow> int \<Rightarrow> int \<Rightarrow> db \<Rightarrow> json result \<times> db"
where
  "initiate_payment E actor order_id key outcome delay_seconds duplicates =
     transaction (initiate_payment_tx E actor order_id key outcome delay_seconds duplicates)"

record callback_payload =
  cb_callback_id :: uuid
  cb_payment_id :: uuid
  cb_order_id :: uuid
  cb_amount :: int
  cb_currency :: string
  cb_outcome :: outcome

definition callback_json :: "callback_payload \<Rightarrow> json" where
  "callback_json p =
     JObj [(''callback_id'', JStr (cb_callback_id p)), (''payment_id'', JStr (cb_payment_id p)),
       (''order_id'', JStr (cb_order_id p)), (''amount'', JInt (cb_amount p)),
       (''currency'', JStr (cb_currency p)), (''outcome'', JStr (outcome_str (cb_outcome p)))]"

definition order_seats :: "uuid \<Rightarrow> db \<Rightarrow> seat_row list" where
  "order_seats order_id d =
     sort_key s_id (concat (map (\<lambda>s. map (\<lambda>_. s)
       (filter (\<lambda>i. i_event i = s_event s \<and> i_seat i = s_id s \<and> i_order i = order_id) (order_items d)))
       (event_seats d)))"

text \<open>
  \<open>all(r["hold_id"] == hold["id"] and ... and r["reserved_until"] > now)\<close>: stops at the first
  row that fails; comparing a missing deadline would raise \<open>TypeError\<close>.
\<close>

fun all_held :: "uuid \<Rightarrow> time \<Rightarrow> seat_row list \<Rightarrow> bool result" where
  "all_held h now [] = Inr True"
| "all_held h now (r # rs) =
     (if s_hold r = Some h \<and> s_booked r = None
      then (case s_until r of
              None \<Rightarrow> Inl (PyError ''TypeError'')
            | Some t \<Rightarrow> if t > now then all_held h now rs else Inr False)
      else Inr False)"

definition valid_hold :: "time \<Rightarrow> hold_row option \<Rightarrow> seat_row list \<Rightarrow> bool result" where
  "valid_hold now hold rows =
     (if rows = [] then Inr False
      else ebind (not_none hold) (\<lambda>h.
        if h_status h = H_ACTIVE \<and> h_expires h > now then all_held (h_id h) now rows else Inr False))"

fun insert_bookings :: "env \<Rightarrow> nat \<Rightarrow> order_row \<Rightarrow> seat_row list \<Rightarrow> db \<Rightarrow> db result" where
  "insert_bookings E n order [] d = Inr d"
| "insert_bookings E n order (s # ss) d =
     ebind (insert_booking \<lparr>b_id = e_uuid E n, b_event = o_event order, b_seat = s_id s,
       b_order = o_id order\<rparr> d) (insert_bookings E (Suc n) order ss)"

text \<open>The \<open>BOOK\<close> branch.\<close>

definition book_order :: "env \<Rightarrow> order_row \<Rightarrow> uuid \<Rightarrow> seat_row list \<Rightarrow> db \<Rightarrow> db result" where
  "book_order E order hold_id rows d =
     ebind (insert_bookings E 3 order rows d) (\<lambda>d.
     ebind (update_seats (\<lambda>s. s_hold s = Some hold_id)
       (\<lambda>s. s\<lparr>s_booked := Some (o_id order), s_hold := None, s_until := None,
              s_version := s_version s + 1\<rparr>) d) (\<lambda>d.
     let d = d\<lparr>holds := upd_where (\<lambda>h. h_id h = hold_id) (\<lambda>h. h\<lparr>h_status := H_CONSUMED\<rparr>) (holds d)\<rparr>;
         d = d\<lparr>orders := upd_where (\<lambda>r. o_id r = o_id order) (\<lambda>r. r\<lparr>o_status := O_PAID\<rparr>) (orders d)\<rparr> in
     event E 0 (o_id order) ''OrderPaid'' (JObj [(''order_id'', JStr (o_id order))]) d))"

text \<open>The \<open>REFUND\<close> and \<open>FAILED\<close> branch.\<close>

definition close_order :: "env \<Rightarrow> order_row \<Rightarrow> uuid \<Rightarrow> bool \<Rightarrow> db \<Rightarrow> db result" where
  "close_order E order payment_id refund d =
     ebind (release_order E 0 order (if refund then H_EXPIRED else H_RELEASED) d) (\<lambda>d.
     let d = d\<lparr>orders := upd_where (\<lambda>r. o_id r = o_id order)
                 (\<lambda>r. r\<lparr>o_status := if refund then O_REFUND_PENDING else O_FAILED\<rparr>) (orders d)\<rparr> in
     if refund
     then ebind (insert_refund \<lparr>r_payment = payment_id, r_order = o_id order, r_status = R_PENDING\<rparr> d)
       (event E 1 (o_id order) ''RefundRequested''
         (JObj [(''payment_id'', JStr payment_id), (''order_id'', JStr (o_id order))]))
     else Inr d)"

definition set_payment_status :: "uuid \<Rightarrow> outcome \<Rightarrow> db \<Rightarrow> db" where
  "set_payment_status payment_id outcome d =
     d\<lparr>payment_attempts := upd_where (\<lambda>p. p_id p = payment_id)
        (\<lambda>p. p\<lparr>p_status := payment_status_of outcome\<rparr>) (payment_attempts d)\<rparr>"

text \<open>What follows once the callback is new and the payment has not succeeded yet.\<close>

definition settle :: "env \<Rightarrow> callback_payload \<Rightarrow> order_row \<Rightarrow> payment_row \<Rightarrow> db \<Rightarrow> (string \<times> db) result" where
  "settle E p order payment d =
     ebind (require (\<not> (o_hold order \<in> h_id ` set (holds d) \<and> e_locked E (L_hold (o_hold order))))
       LockNotAvailable) (\<lambda>_.
     let hold = find_hold (o_hold order) d; rows = order_seats (o_id order) d in
     ebind (lock_seats E rows) (\<lambda>_.
     ebind (valid_hold (e_now E) hold rows) (\<lambda>valid.
     let decision = payment_decision (o_status order) valid (cb_outcome p);
         d = set_payment_status (p_id payment) (cb_outcome p) d in
     ebind (case decision of
         D_BOOK \<Rightarrow> ebind (not_none hold) (\<lambda>h. book_order E order (h_id h) rows d)
       | D_REFUND \<Rightarrow> close_order E order (p_id payment) True d
       | D_FAILED \<Rightarrow> close_order E order (p_id payment) False d
       | D_UNCHANGED \<Rightarrow> Inr d) (\<lambda>d.
     ebind (event E 2 (o_id order) ''SeatsChanged'' (seats_payload (o_event order) (map s_id rows)) d)
     (\<lambda>d. Inr (decision_lower decision, d))))))"

definition callback_tx :: "env \<Rightarrow> callback_payload \<Rightarrow> db \<Rightarrow> (string \<times> db) result" where
  "callback_tx E p d =
     (case find_payment (cb_payment_id p) d of
        None \<Rightarrow> Inl (Failure ''PAYMENT_NOT_FOUND'' 404)
      | Some payment \<Rightarrow>
     ebind (lock_order E (find_order (p_order payment) d)) (\<lambda>_.
     ebind (require (\<not> e_locked E (L_payment (p_id payment))) LockNotAvailable) (\<lambda>_.
     ebind (not_none (find_order (p_order payment) d)) (\<lambda>order.
     if o_id order \<noteq> cb_order_id p \<or> o_total order \<noteq> cb_amount p \<or> o_currency order \<noteq> cb_currency p
     then Inl (Failure ''PAYMENT_MISMATCH'' 422) else
     case find (\<lambda>c. c_id c = cb_callback_id p) (payment_callbacks d) of
       Some previous \<Rightarrow>
         if c_hash previous \<noteq> digest E (callback_json p) then Inl (Failure ''CALLBACK_MISMATCH'' 409)
         else Inr (''duplicate'', d)
     | None \<Rightarrow>
         ebind (insert_callback \<lparr>c_id = cb_callback_id p, c_payment = cb_payment_id p,
           c_hash = digest E (callback_json p)\<rparr> d) (\<lambda>d.
         if p_status payment = P_SUCCEEDED then Inr (''duplicate'', d)
         else settle E p order payment d)))))"

definition callback :: "env \<Rightarrow> callback_payload \<Rightarrow> db \<Rightarrow> string result \<times> db" where
  "callback E p = transaction (callback_tx E p)"

end
