(* ===== verification/Refresh.thy ===== *)
theory Refresh
  imports Seat_Cache_Facts Store
begin

text \<open>
  The projection of the inventory into the seat map (\<open>workers.py\<close>): \<open>snapshot\<close>,
  \<open>changed_snapshot\<close>, \<open>seat_state\<close>, the queue of refresh requests with \<open>request_refresh\<close>, and
  the worker step \<open>refresh_batch\<close>.

  A worker step is a claiming transaction, work without locks, and a completing transaction.
  What other processes commit in between is an argument (\<open>between\<close>), and the databases that
  the unlocked reads see are arguments too.
\<close>

section \<open>Snapshots\<close>

text \<open>The cache side of one call: clock, fresh incarnation, digest, lifetime, and whether it succeeds.\<close>

record cache_env =
  ce_now :: time
  ce_uuid :: string
  ce_sha :: "json \<Rightarrow> string"
  ce_ttl :: int
  ce_up :: bool

definition row_status :: "seat_row \<Rightarrow> seat_status" where
  "row_status r = (if s_booked r \<noteq> None then SOLD else if s_hold r \<noteq> None then HELD else AVAILABLE)"

definition seat_state :: "seat_row \<Rightarrow> cseat" where
  "seat_state r = \<lparr>cs_id = s_id r, cs_price = s_price r, cs_status = row_status r, cs_hold = None,
     cs_until = s_until r, cs_until_epoch = s_until r, cs_version = None, cs_source = s_version r\<rparr>"

definition event_rows :: "uuid \<Rightarrow> db \<Rightarrow> seat_row list" where
  "event_rows e d = sort_key s_id (filter (\<lambda>s. s_event s = e) (event_seats d))"

definition snapshot_seats :: "seat_row list \<Rightarrow> cseat list" where
  "snapshot_seats rows =
     (let version = sum_list (map s_version rows) in
      map (\<lambda>r. (seat_state r)\<lparr>cs_version := Some version\<rparr>) rows)"

definition snapshot :: "cache_env \<Rightarrow> uuid \<Rightarrow> db \<Rightarrow> seatmaps \<Rightarrow> unit result \<times> seatmaps" where
  "snapshot C e d maps =
     (case find_event e d of
        None \<Rightarrow> (Inl (PyError ''TypeError''), maps)
      | Some sale \<Rightarrow>
          if \<not> ce_up C then (Inl RedisError, maps)
          else (Inr (), snd (put_map (ce_sha C) (ce_ttl C) (ce_now C) (ce_uuid C) e
            (Some (ev_sale_starts sale, ev_sale_ends sale, ev_currency sale))
            (snapshot_seats (event_rows e d)) maps)))"

text \<open>\<open>d\<close> is the database the changed rows are read from, \<open>d'\<close> the one a fallback snapshot reads.\<close>

definition changed_snapshot ::
  "cache_env \<Rightarrow> cache_env \<Rightarrow> uuid \<Rightarrow> seat_id list \<Rightarrow> db \<Rightarrow> db \<Rightarrow> seatmaps \<Rightarrow> unit result \<times> seatmaps"
where
  "changed_snapshot C C' e ids d d' maps =
     (let seats = map seat_state (filter (\<lambda>r. s_id r \<in> set ids) (event_rows e d)) in
      if \<not> ce_up C then (Inl RedisError, maps)
      else case patch_map (ce_now C) e seats maps of
        (True, maps') \<Rightarrow> (Inr (), maps')
      | (False, maps') \<Rightarrow> snapshot C' e d' maps')"

section \<open>Refresh requests\<close>

definition merge_request :: "time \<Rightarrow> seat_id list option \<Rightarrow> refresh_row \<Rightarrow> refresh_row" where
  "merge_request now seat_ids r = r\<lparr>f_generation := f_generation r + 1,
     f_seats := (if f_generation r = f_completed r then seat_ids
                 else case (f_seats r, seat_ids) of
                   (Some a, Some b) \<Rightarrow> Some (remdups (a @ b)) | _ \<Rightarrow> None),
     f_requested := (if f_generation r = f_completed r then now else f_requested r)\<rparr>"

definition request_refresh :: "env \<Rightarrow> uuid \<Rightarrow> seat_id list option \<Rightarrow> db \<Rightarrow> db result" where
  "request_refresh E e seat_ids d =
     (if e \<in> f_event ` set (seat_refresh_requests d)
      then if e_locked E (L_refresh e) then Inl LockNotAvailable
        else Inr (d\<lparr>seat_refresh_requests := upd_where (\<lambda>r. f_event r = e) (merge_request (e_now E) seat_ids)
          (seat_refresh_requests d)\<rparr>)
      else if e \<notin> ev_id ` set (events d) then Inl (IntegrityError ''seat_refresh_requests_event_id_fkey'')
      else Inr (d\<lparr>seat_refresh_requests := seat_refresh_requests d @
        [\<lparr>f_event = e, f_generation = 1, f_completed = 0, f_requested = e_now E, f_next_attempt = e_now E,
          f_lease_until = None, f_lease_token = None, f_seats = seat_ids\<rparr>]\<rparr>))"

definition lease_free :: "time \<Rightarrow> time option \<Rightarrow> bool" where
  "lease_free now lease = (case lease of None \<Rightarrow> True | Some t \<Rightarrow> t < now)"

definition refresh_due :: "env \<Rightarrow> nat \<Rightarrow> db \<Rightarrow> refresh_row list" where
  "refresh_due E limit d = take limit (sort_key f_requested (filter (\<lambda>r. f_generation r > f_completed r \<and>
     f_next_attempt r \<le> e_now E \<and> lease_free (e_now E) (f_lease_until r) \<and> \<not> e_locked E (L_refresh (f_event r)))
     (seat_refresh_requests d)))"

definition claim_refresh :: "env \<Rightarrow> uuid \<Rightarrow> nat \<Rightarrow> db \<Rightarrow> (refresh_row list \<times> db) result" where
  "claim_refresh E token limit d =
     (let rows = refresh_due E limit d in
      if rows = [] then Inr ([], d)
      else Inr (rows, d\<lparr>seat_refresh_requests := upd_where (\<lambda>r. f_event r \<in> f_event ` set rows)
        (\<lambda>r. r\<lparr>f_lease_token := Some token, f_lease_until := Some (e_now E + 30 * 1000000)\<rparr>)
        (seat_refresh_requests d)\<rparr>))"

text \<open>
  One completing \<open>UPDATE\<close>.  It refuses, as the table's \<open>CHECK\<close>s do, to complete a generation that
  was never requested.
\<close>

definition finish_row :: "env \<Rightarrow> int \<Rightarrow> time \<Rightarrow> refresh_row \<Rightarrow> refresh_row \<Rightarrow> refresh_row" where
  "finish_row E cooldown_ms claimed_at row r = r\<lparr>f_completed := f_generation row,
     f_seats := (if f_generation r = f_generation row then None else f_seats r),
     f_lease_until := None, f_lease_token := None,
     f_next_attempt := e_now E + cooldown_ms * 1000,
     f_requested := (if f_generation r > f_generation row then claimed_at else f_requested r)\<rparr>"

definition complete_row :: "env \<Rightarrow> uuid \<Rightarrow> int \<Rightarrow> time \<Rightarrow> refresh_row \<Rightarrow> db \<Rightarrow> db result" where
  "complete_row E token cooldown_ms claimed_at row d =
     (let P = (\<lambda>r. f_event r = f_event row \<and> f_lease_token r = Some token) in
      if list_ex (\<lambda>r. P r \<and> (f_generation row > f_generation r \<or> f_generation row < 0)) (seat_refresh_requests d)
      then Inl (IntegrityError ''seat_refresh_requests_check'')
      else Inr (d\<lparr>seat_refresh_requests := upd_where P (finish_row E cooldown_ms claimed_at row)
        (seat_refresh_requests d)\<rparr>))"

fun complete_rows :: "env \<Rightarrow> uuid \<Rightarrow> int \<Rightarrow> time \<Rightarrow> refresh_row list \<Rightarrow> db \<Rightarrow> (unit \<times> db) result" where
  "complete_rows E token cooldown_ms claimed_at [] d = Inr ((), d)"
| "complete_rows E token cooldown_ms claimed_at (r # rs) d =
     ebind (complete_row E token cooldown_ms claimed_at r d) (complete_rows E token cooldown_ms claimed_at rs)"

text \<open>
  The loop over the claimed rows: a failing row is left for later, the others are completed.
  \<open>C e\<close> and \<open>D e\<close> give the cache calls and the databases that row \<open>e\<close>'s two reads see.
\<close>

type_synonym cache_plan = "uuid \<Rightarrow> cache_env \<times> cache_env"
type_synonym read_plan = "uuid \<Rightarrow> db \<times> db"

definition refresh_row_cache :: "cache_plan \<Rightarrow> read_plan \<Rightarrow> refresh_row \<Rightarrow> seatmaps \<Rightarrow> unit result \<times> seatmaps" where
  "refresh_row_cache C D r maps =
     (let e = f_event r in
      case f_seats r of
        None \<Rightarrow> snapshot (fst (C e)) e (fst (D e)) maps
      | Some ids \<Rightarrow> changed_snapshot (fst (C e)) (snd (C e)) e ids (fst (D e)) (snd (D e)) maps)"

fun refresh_rows ::
  "cache_plan \<Rightarrow> read_plan \<Rightarrow> refresh_row list \<Rightarrow> seatmaps \<Rightarrow> refresh_row list \<times> exc list \<times> seatmaps"
where
  "refresh_rows C D [] maps = ([], [], maps)"
| "refresh_rows C D (r # rs) maps =
     (case refresh_row_cache C D r maps of
        (Inl x, maps1) \<Rightarrow> (case refresh_rows C D rs maps1 of (ok, errs, maps2) \<Rightarrow> (ok, x # errs, maps2))
      | (Inr _, maps1) \<Rightarrow> (case refresh_rows C D rs maps1 of (ok, errs, maps2) \<Rightarrow> (r # ok, errs, maps2)))"

definition refresh_batch ::
  "env \<Rightarrow> env \<Rightarrow> nat \<Rightarrow> int \<Rightarrow> cache_plan \<Rightarrow> read_plan \<Rightarrow> (db \<Rightarrow> db) \<Rightarrow> db \<Rightarrow> seatmaps \<Rightarrow> nat result \<times> db \<times> seatmaps"
where
  "refresh_batch E E' limit cooldown_ms C D between d maps =
     (case transaction (claim_refresh E (e_uuid E 0) limit) d of
        (Inl x, d1) \<Rightarrow> (Inl x, d1, maps)
      | (Inr rows, d1) \<Rightarrow>
          if rows = [] then (Inr 0, d1, maps)
          else (case refresh_rows C D rows maps of
            (completed, errors, maps') \<Rightarrow>
              (case (if completed = [] then (Inr (), between d1)
                     else transaction (complete_rows E' (e_uuid E 0) cooldown_ms (e_now E) completed) (between d1)) of
                 (Inl x, d2) \<Rightarrow> (Inl x, d2, maps')
               | (Inr _, d2) \<Rightarrow>
                   (case errors of x # _ \<Rightarrow> (Inl x, d2, maps') | [] \<Rightarrow> (Inr (length completed), d2, maps')))))"

definition refresh_one ::
  "env \<Rightarrow> env \<Rightarrow> int \<Rightarrow> cache_plan \<Rightarrow> read_plan \<Rightarrow> (db \<Rightarrow> db) \<Rightarrow> db \<Rightarrow> seatmaps \<Rightarrow> bool result \<times> db \<times> seatmaps"
where
  "refresh_one E E' cooldown_ms C D between d maps =
     (case refresh_batch E E' 1 cooldown_ms C D between d maps of
        (r, d', maps') \<Rightarrow> (map_sum id (\<lambda>n. n \<noteq> 0) r, d', maps'))"

end
