(* ===== verification/Intake.thy ===== *)
theory Intake
  imports Seat_Cache_Facts Store
begin

text \<open>
  \<open>RedisReservationIntake\<close> (\<open>infrastructure/redis_reservations.py\<close>): provisional ownership of seats
  in the seat map, with the Lua scripts \<open>ENQUEUE\<close>, \<open>MARK_DURABLE\<close> and \<open>MARK_FAILED\<close>, the command
  and idempotency hashes, and the command stream with its consumer group.

  The Redis keys are the components of the record \<open>redis\<close>, each a function of what the key's name
  is built from.  \<open>rt\<close> is the clock of the Redis server; \<open>ENQUEUE\<close> reads it in whole seconds.
  \<open>sha_text\<close> is the digest of the text \<open>actor NUL key\<close> in an idempotency key's name.
\<close>

datatype command_status = C_PENDING | C_DURABLE | C_FAILED

record idem_hash =
  ih_request :: string
  ih_response :: json
  ih_expires :: time

record command_hash =
  ch_status :: command_status
  ch_response :: json
  ch_payload :: command_payload
  ch_created :: time
  ch_error :: "string option"
  ch_expires :: time

text \<open>
  A stream entry; \<open>se_claim\<close> is its place in the group's pending list: the consumer it was last
  delivered to and when, or \<open>None\<close> for an entry no consumer has seen.
\<close>

record stream_entry =
  se_id :: nat
  se_payload :: command_payload
  se_response :: json
  se_created :: time
  se_claim :: "(string \<times> time) option"

record redis =
  rd_maps :: seatmaps
  rd_idem :: "uuid \<Rightarrow> string \<Rightarrow> idem_hash option"
  rd_commands :: "uuid \<Rightarrow> uuid \<Rightarrow> command_hash option"
  rd_streams :: "uuid \<Rightarrow> stream_entry list"
  rd_expiry :: "uuid \<Rightarrow> (uuid \<times> time) list"
  rd_registry :: "uuid list"
  rd_next :: nat

definition seconds :: "time \<Rightarrow> time" where
  "seconds t = (t div 1000000) * 1000000"

definition get_idem :: "time \<Rightarrow> uuid \<Rightarrow> string \<Rightarrow> redis \<Rightarrow> idem_hash option" where
  "get_idem rt e k rd = (case rd_idem rd e k of None \<Rightarrow> None | Some h \<Rightarrow> if rt < ih_expires h then Some h else None)"

definition get_command :: "time \<Rightarrow> uuid \<Rightarrow> uuid \<Rightarrow> redis \<Rightarrow> command_hash option" where
  "get_command rt e c rd =
     (case rd_commands rd e c of None \<Rightarrow> None | Some h \<Rightarrow> if rt < ch_expires h then Some h else None)"

section \<open>\<open>ENQUEUE\<close>\<close>

datatype enqueue_reply = Q_refused int | Q_accepted json | Q_replay json

text \<open>
  The loop over the requested seats.  A held row without a deadline makes the script compare a
  non-number, which aborts it: \<open>RedisError\<close>.
\<close>

fun select_cseats :: "time \<Rightarrow> cseat list \<Rightarrow> seat_id list \<Rightarrow> (enqueue_reply + cseat list) result" where
  "select_cseats now ss [] = Inr (Inr [])"
| "select_cseats now ss (i # is) =
     (case find_cseat i ss of
        None \<Rightarrow> Inr (Inl (Q_refused (-5)))
      | Some s \<Rightarrow>
          ebind (case cs_status s of
              AVAILABLE \<Rightarrow> Inr True
            | SOLD \<Rightarrow> Inr False
            | HELD \<Rightarrow> (case cs_until_epoch s of None \<Rightarrow> Inl RedisError | Some t \<Rightarrow> Inr (t \<le> now))) (\<lambda>free.
          if \<not> free then Inr (Inl (Q_refused (-6)))
          else ebind (select_cseats now ss is) (\<lambda>r.
            Inr (case r of Inl q \<Rightarrow> Inl q | Inr sel \<Rightarrow> Inr (s # sel)))))"

fun hold_cseats :: "uuid \<Rightarrow> time \<Rightarrow> time \<Rightarrow> int \<Rightarrow> cseat list \<Rightarrow> cseat list \<Rightarrow> int \<times> cseat list" where
  "hold_cseats hold until until_epoch version [] ss = (version, ss)"
| "hold_cseats hold until until_epoch version (s # sel) ss =
     hold_cseats hold until until_epoch (version + 1) sel
       (set_cseat (s\<lparr>cs_status := HELD, cs_hold := Some hold, cs_until := Some until,
          cs_until_epoch := Some until_epoch, cs_version := Some (version + 1)\<rparr>) ss)"

definition pending_response :: "json \<Rightarrow> int \<Rightarrow> string \<Rightarrow> time \<Rightarrow> time \<Rightarrow> json" where
  "pending_response response tot currency expires_epoch expires =
     jset ''persistence_status'' (JStr ''PENDING'') (jset ''expires_at'' (JTime expires)
       (jset ''expires_at_epoch'' (JInt (expires_epoch div 1000000))
         (jset ''currency'' (JStr currency) (jset ''total'' (JInt tot) response))))"

record enqueue_args =
  qa_request_hash :: string
  qa_max_backlog :: nat
  qa_seats :: "seat_id list"
  qa_response :: json
  qa_hold_seconds :: int
  qa_expires :: time
  qa_retention :: int
  qa_payload :: command_payload

definition enqueue_script ::
  "time \<Rightarrow> uuid \<Rightarrow> string \<Rightarrow> enqueue_args \<Rightarrow> redis \<Rightarrow> (enqueue_reply \<times> redis) result"
where
  "enqueue_script rt e ik a rd =
     (let h = live rt (rd_maps rd e); now = seconds rt in
      case (sm_version h, sm_sale h) of
        (Some version, Some (starts, ends, currency)) \<Rightarrow>
          if sm_updating h then Inr (Q_refused (-1), rd)
          else if now < starts \<or> now \<ge> ends then Inr (Q_refused (-2), rd)
          else (case get_idem rt e ik rd of
            Some previous \<Rightarrow>
              if ih_request previous \<noteq> qa_request_hash a then Inr (Q_refused (-3), rd)
              else Inr (Q_replay (ih_response previous), rd)
          | None \<Rightarrow>
              if length (rd_streams rd e) \<ge> qa_max_backlog a then Inr (Q_refused (-4), rd)
              else ebind (select_cseats now (sm_seats h) (qa_seats a)) (\<lambda>selected.
                case selected of
                  Inl q \<Rightarrow> Inr (q, rd)
                | Inr sel \<Rightarrow>
                    let until = now + qa_hold_seconds a * 1000000;
                        response = pending_response (qa_response a) (sum_list (map cs_price sel)) currency
                          until (qa_expires a);
                        (version', seats') = hold_cseats (cp_hold (qa_payload a)) (qa_expires a) until version
                          sel (sm_seats h);
                        expires = rt + qa_retention a * 1000000;
                        c = cp_command_id (qa_payload a) in
                    Inr (Q_accepted response,
                      rd\<lparr>rd_maps := (rd_maps rd)(e := h\<lparr>sm_seats := seats', sm_version := Some version'\<rparr>),
                        rd_idem := (rd_idem rd)(e := (rd_idem rd e)(ik \<mapsto> \<lparr>ih_request = qa_request_hash a,
                          ih_response = response, ih_expires = expires\<rparr>)),
                        rd_commands := (rd_commands rd)(e := (rd_commands rd e)(c \<mapsto>
                          \<lparr>ch_status = C_PENDING, ch_response = response, ch_payload = qa_payload a,
                           ch_created = now, ch_error = None, ch_expires = expires\<rparr>)),
                        rd_expiry := (rd_expiry rd)(e := filter (\<lambda>x. fst x \<noteq> c) (rd_expiry rd e) @ [(c, until)]),
                        rd_streams := (rd_streams rd)(e := rd_streams rd e @
                          [\<lparr>se_id = rd_next rd, se_payload = qa_payload a, se_response = response,
                            se_created = now, se_claim = None\<rparr>]),
                        rd_next := Suc (rd_next rd)\<rparr>)))
      | _ \<Rightarrow> Inr (Q_refused (-1), rd))"

section \<open>\<open>status\<close> and \<open>enqueue\<close>\<close>

fun command_status_str :: "command_status \<Rightarrow> string" where
  "command_status_str C_PENDING = ''PENDING''"
| "command_status_str C_DURABLE = ''DURABLE''"
| "command_status_str C_FAILED = ''FAILED''"

definition command_response :: "command_hash \<Rightarrow> json" where
  "command_response row =
     (let response = jset ''persistence_status'' (JStr (command_status_str (ch_status row))) (ch_response row) in
      case ch_error row of None \<Rightarrow> response | Some c \<Rightarrow> jset ''error_code'' (JStr c) response)"

definition intake_status :: "bool \<Rightarrow> time \<Rightarrow> uuid \<Rightarrow> uuid \<Rightarrow> string option \<Rightarrow> redis \<Rightarrow> json result" where
  "intake_status up rt e c actor rd =
     (if \<not> up then Inl (Failure ''ADMISSION_UNAVAILABLE'' 503)
      else case get_command rt e c rd of
        None \<Rightarrow> Inl (Failure ''RESERVATION_COMMAND_NOT_FOUND'' 404)
      | Some row \<Rightarrow>
          if actor \<noteq> None \<and> actor \<noteq> Some (cp_actor (ch_payload row))
          then Inl (Failure ''RESERVATION_COMMAND_NOT_FOUND'' 404)
          else Inr (command_response row))"

definition refusal :: "int \<Rightarrow> exc" where
  "refusal code =
     (if code = -1 then Failure ''SEATMAP_WARMING'' 503
      else if code = -2 then Failure ''SALE_CLOSED'' 409
      else if code = -3 then Failure ''IDEMPOTENCY_MISMATCH'' 409
      else if code = -4 then Failure ''RESERVATION_BACKLOG_FULL'' 503
      else if code = -5 then Failure ''SEAT_NOT_FOUND'' 404
      else if code = -6 then Failure ''SEAT_UNAVAILABLE'' 409
      else Failure ''ADMISSION_UNAVAILABLE'' 503)"

record intake_config =
  ic_hold_seconds :: int
  ic_replica_acks :: nat
  ic_max_backlog :: nat
  ic_retention :: int

text \<open>Which of an \<open>enqueue\<close>'s Redis calls succeed, and how many replicas acknowledged.\<close>

record redis_calls =
  rc_eval :: bool
  rc_acks :: nat
  rc_status :: bool
  rc_registry :: bool

definition enqueue_args_of :: "env \<Rightarrow> intake_config \<Rightarrow> string \<Rightarrow> uuid \<Rightarrow> seat_id list \<Rightarrow> string \<Rightarrow> enqueue_args" where
  "enqueue_args_of E cfg actor e seat_ids key =
     (let seats = sort (remdups seat_ids); hash = digest E (reserve_request e seats);
          command = e_uuid E 0; hold = e_uuid E 1; order = e_uuid E 2;
          expires = e_now E + ic_hold_seconds cfg * 1000000 in
      \<lparr>qa_request_hash = hash, qa_max_backlog = ic_max_backlog cfg, qa_seats = seats,
       qa_response = JObj [(''command_id'', JStr command), (''hold_id'', JStr hold),
         (''order_id'', JStr order), (''seats'', JArr (map JStr seats))],
       qa_hold_seconds = ic_hold_seconds cfg, qa_expires = expires, qa_retention = ic_retention cfg,
       qa_payload = \<lparr>cp_command_id = command, cp_actor = actor, cp_key = key, cp_request_hash = hash,
         cp_event = e, cp_seats = seats, cp_hold = hold, cp_order = order, cp_expires = expires\<rparr>\<rparr>)"

definition idem_name :: "(string \<Rightarrow> string) \<Rightarrow> string \<Rightarrow> string \<Rightarrow> string" where
  "idem_name sha_text actor key = sha_text (actor @ [CHR 0x00] @ key)"

definition register_stream :: "bool \<Rightarrow> uuid \<Rightarrow> redis \<Rightarrow> redis" where
  "register_stream up e rd = (if up then rd\<lparr>rd_registry := List.insert e (rd_registry rd)\<rparr> else rd)"

definition replica_check :: "intake_config \<Rightarrow> redis_calls \<Rightarrow> unit result" where
  "replica_check cfg rc = require (ic_replica_acks cfg = 0 \<or> \<not> rc_acks rc < ic_replica_acks cfg)
     (Failure ''RESERVATION_DURABILITY_UNKNOWN'' 503)"

definition replay_status :: "bool \<Rightarrow> time \<Rightarrow> uuid \<Rightarrow> json \<Rightarrow> redis \<Rightarrow> json result" where
  "replay_status up rt e stored rd =
     ebind (jindex ''command_id'' stored) (\<lambda>c. case c of
         JStr c \<Rightarrow> intake_status up rt e c None rd
       | _ \<Rightarrow> Inl (PyError ''TypeError''))"

definition enqueue ::
  "env \<Rightarrow> (string \<Rightarrow> string) \<Rightarrow> intake_config \<Rightarrow> redis_calls \<Rightarrow> time \<Rightarrow> string \<Rightarrow> uuid \<Rightarrow> seat_id list \<Rightarrow> string \<Rightarrow>
   redis \<Rightarrow> json result \<times> redis"
where
  "enqueue E sha_text cfg rc rt actor e seat_ids key rd =
     (let a = enqueue_args_of E cfg actor e seat_ids key in
      if \<not> rc_eval rc then (Inl (Failure ''ADMISSION_UNAVAILABLE'' 503), rd)
      else case enqueue_script rt e (idem_name sha_text actor key) a rd of
        Inl _ \<Rightarrow> (Inl (Failure ''ADMISSION_UNAVAILABLE'' 503), rd)
      | Inr (Q_refused code, rd') \<Rightarrow> (Inl (refusal code), rd')
      | Inr (Q_accepted stored, rd') \<Rightarrow>
          (case replica_check cfg rc of
             Inl x \<Rightarrow> (Inl x, rd')
           | Inr _ \<Rightarrow> (Inr stored, register_stream (rc_registry rc) e rd'))
      | Inr (Q_replay stored, rd') \<Rightarrow>
          (case replay_status (rc_status rc) rt e stored rd' of
             Inl x \<Rightarrow> (Inl x, rd')
           | Inr stored' \<Rightarrow>
               (case replica_check cfg rc of
                  Inl x \<Rightarrow> (Inl x, rd')
                | Inr _ \<Rightarrow> (Inr stored', register_stream (rc_registry rc) e rd'))))"

section \<open>\<open>MARK_DURABLE\<close> and \<open>MARK_FAILED\<close>\<close>

definition put_command :: "uuid \<Rightarrow> uuid \<Rightarrow> command_hash \<Rightarrow> redis \<Rightarrow> redis" where
  "put_command e c h rd = rd\<lparr>rd_commands := (rd_commands rd)(e := (rd_commands rd e)(c \<mapsto> h))\<rparr>"

definition mark_durable :: "time \<Rightarrow> uuid \<Rightarrow> uuid \<Rightarrow> redis \<Rightarrow> int \<times> redis" where
  "mark_durable rt e c rd =
     (case get_command rt e c rd of
        None \<Rightarrow> (0, rd)
      | Some h \<Rightarrow>
          (case ch_status h of
             C_FAILED \<Rightarrow> (-1, rd)
           | C_PENDING \<Rightarrow> (1, put_command e c (h\<lparr>ch_status := C_DURABLE\<rparr>) rd)
           | C_DURABLE \<Rightarrow> (1, rd)))"

text \<open>One turn of the loop: free the seat if the command's hold still owns it.\<close>

definition free_cseat :: "json option \<Rightarrow> seat_id \<Rightarrow> seatmap \<Rightarrow> seatmap" where
  "free_cseat hold_id i h =
     (case find_cseat i (sm_seats h) of
        None \<Rightarrow> h
      | Some s \<Rightarrow>
          if map_option JStr (cs_hold s) = hold_id
          then let version = (case sm_version h of None \<Rightarrow> 0 | Some v \<Rightarrow> v) + 1 in
            h\<lparr>sm_seats := set_cseat (s\<lparr>cs_status := AVAILABLE, cs_hold := None, cs_until := None,
                cs_until_epoch := None, cs_version := Some version\<rparr>) (sm_seats h),
              sm_version := Some version\<rparr>
          else h)"

definition mark_failed :: "time \<Rightarrow> uuid \<Rightarrow> uuid \<Rightarrow> seat_id list \<Rightarrow> string \<Rightarrow> redis \<Rightarrow> int \<times> redis" where
  "mark_failed rt e c seats error_code rd =
     (case get_command rt e c rd of
        None \<Rightarrow> (0, rd)
      | Some h \<Rightarrow>
          if ch_status h = C_DURABLE then (-1, rd)
          else
            let m = fold (free_cseat (jget ''hold_id'' (ch_response h))) seats (live rt (rd_maps rd e));
                rd = rd\<lparr>rd_maps := (rd_maps rd)(e := m),
                  rd_expiry := (rd_expiry rd)(e := filter (\<lambda>x. Some (JStr (fst x)) \<noteq> jget ''command_id'' (ch_response h))
                    (rd_expiry rd e))\<rparr> in
            (1, put_command e c (h\<lparr>ch_status := C_FAILED, ch_error := Some error_code\<rparr>) rd))"

section \<open>The stream and its consumer group\<close>

text \<open>\<open>streams\<close>: the registry, completed by a key scan while there is room, sorted and cut.\<close>

definition streams :: "nat \<Rightarrow> uuid list \<Rightarrow> redis \<Rightarrow> uuid list" where
  "streams limit scanned rd =
     take limit (sort (remdups (rd_registry rd @ (if length (remdups (rd_registry rd)) < limit then scanned else []))))"

definition claim_entries :: "(stream_entry \<Rightarrow> bool) \<Rightarrow> nat \<Rightarrow> string \<Rightarrow> time \<Rightarrow> stream_entry list \<Rightarrow> stream_entry list \<times> stream_entry list" where
  "claim_entries P count consumer rt es =
     (let got = map se_id (take count (filter P es));
          es' = upd_where (\<lambda>x. se_id x \<in> set got) (\<lambda>x. x\<lparr>se_claim := Some (consumer, rt)\<rparr>) es in
      (filter (\<lambda>x. se_id x \<in> set got) es', es'))"

definition idle :: "time \<Rightarrow> stream_entry \<Rightarrow> bool" where
  "idle rt x = (case se_claim x of None \<Rightarrow> False | Some (_, t) \<Rightarrow> rt - t \<ge> 30000 * 1000)"

fun autoclaim :: "uuid list \<Rightarrow> nat \<Rightarrow> string \<Rightarrow> time \<Rightarrow> redis \<Rightarrow> (uuid \<times> stream_entry) list \<times> redis" where
  "autoclaim [] count consumer rt rd = ([], rd)"
| "autoclaim (e # es) count consumer rt rd =
     (case claim_entries (idle rt) count consumer rt (rd_streams rd e) of
        (got, entries) \<Rightarrow>
          if got \<noteq> [] then (map (Pair e) got, rd\<lparr>rd_streams := (rd_streams rd)(e := entries)\<rparr>)
          else autoclaim es count consumer rt rd)"

fun read_new :: "uuid list \<Rightarrow> nat \<Rightarrow> string \<Rightarrow> time \<Rightarrow> redis \<Rightarrow> (uuid \<times> stream_entry) list \<times> redis" where
  "read_new [] count consumer rt rd = ([], rd)"
| "read_new (e # es) count consumer rt rd =
     (case claim_entries (\<lambda>x. se_claim x = None) count consumer rt (rd_streams rd e) of
        (got, entries) \<Rightarrow>
          (case read_new es count consumer rt (rd\<lparr>rd_streams := (rd_streams rd)(e := entries)\<rparr>) of
             (rest, rd') \<Rightarrow> (map (Pair e) got @ rest, rd')))"

text \<open>\<open>messages\<close>: abandoned deliveries of the first stream that has any, otherwise new entries of all.\<close>

definition messages :: "uuid list \<Rightarrow> string \<Rightarrow> nat \<Rightarrow> time \<Rightarrow> redis \<Rightarrow> (uuid \<times> stream_entry) list \<times> redis" where
  "messages scanned consumer count rt rd =
     (let ss = streams 5000 scanned rd in
      case autoclaim ss count consumer rt rd of
        (claimed, rd') \<Rightarrow> if claimed \<noteq> [] then (claimed, rd') else read_new ss count consumer rt rd')"

definition acknowledge :: "uuid \<Rightarrow> nat \<Rightarrow> redis \<Rightarrow> redis" where
  "acknowledge e i rd = rd\<lparr>rd_streams := (rd_streams rd)(e := filter (\<lambda>x. se_id x \<noteq> i) (rd_streams rd e))\<rparr>"

end
