(* ===== verification/Fulfilment.thy ===== *)
theory Fulfilment
  imports Refresh Intake
begin

text \<open>
  The workers that move money and tickets forward (\<open>workers.py\<close>): the outbox publisher, the
  Kafka consumer with its inbox and dead letters, the payment simulator, and the writer that
  persists Redis-first commands.  As in \<open>Refresh\<close>, what other processes commit between two
  transactions of one step is an argument.
\<close>

section \<open>The outbox publisher\<close>

text \<open>The message a row becomes: \<open>json.dumps(envelope)\<close>, read back by the consumer.\<close>

definition envelope_of :: "outbox_row \<Rightarrow> json" where
  "envelope_of row =
     JObj [(''event_id'', JStr (x_id row)), (''aggregate_id'', JStr (x_aggregate row)),
       (''event_type'', JStr (x_type row)), (''schema_version'', JInt (x_schema_version row)),
       (''occurred_at'', JTime (x_occurred row)), (''payload'', x_payload row)]"

definition outbox_due :: "env \<Rightarrow> nat \<Rightarrow> db \<Rightarrow> outbox_row list" where
  "outbox_due E limit d = take limit (sort_key x_occurred (filter (\<lambda>x. x_published x = None \<and>
     lease_free (e_now E) (x_lease_until x) \<and> \<not> e_locked E (L_outbox (x_id x))) (outbox_events d)))"

definition claim_outbox :: "env \<Rightarrow> uuid \<Rightarrow> nat \<Rightarrow> db \<Rightarrow> (outbox_row list \<times> db) result" where
  "claim_outbox E token limit d =
     (let rows = outbox_due E limit d in
      if rows = [] then Inr ([], d)
      else Inr (rows, d\<lparr>outbox_events := upd_where (\<lambda>x. x_id x \<in> x_id ` set rows)
        (\<lambda>x. x\<lparr>x_lease_until := Some (e_now E + 30 * 1000000), x_lease_token := Some token\<rparr>) (outbox_events d)\<rparr>))"

text \<open>
  What happens to one row at the producer: the ten-second budget is used up before it is sent,
  \<open>send\<close> raises, the broker acknowledges, or waiting for the acknowledgement raises.
\<close>

datatype delivery = Late | Send_error | Acked | Ack_error

text \<open>The first loop stops at the first row that is late or cannot be sent.\<close>

fun send_rows :: "(uuid \<Rightarrow> delivery) \<Rightarrow> outbox_row list \<Rightarrow> outbox_row list \<times> exc list" where
  "send_rows K [] = ([], [])"
| "send_rows K (r # rs) =
     (case K (x_id r) of
        Late \<Rightarrow> ([], [])
      | Send_error \<Rightarrow> ([], [PyError ''KafkaError''])
      | _ \<Rightarrow> (case send_rows K rs of (pending, errs) \<Rightarrow> (r # pending, errs)))"

definition confirmed_rows :: "(uuid \<Rightarrow> delivery) \<Rightarrow> outbox_row list \<Rightarrow> uuid list" where
  "confirmed_rows K pending = map x_id (filter (\<lambda>r. K (x_id r) = Acked) pending)"

definition confirm_outbox :: "env \<Rightarrow> uuid \<Rightarrow> uuid list \<Rightarrow> db \<Rightarrow> (unit \<times> db) result" where
  "confirm_outbox E token ids d = Inr ((), d\<lparr>outbox_events :=
     upd_where (\<lambda>x. x_id x \<in> set ids \<and> x_lease_token x = Some token)
       (\<lambda>x. x\<lparr>x_published := Some (e_now E), x_lease_until := None\<rparr>) (outbox_events d)\<rparr>)"

text \<open>The answer, the new database, and the envelopes handed to the producer.\<close>

definition publish_batch ::
  "env \<Rightarrow> env \<Rightarrow> nat \<Rightarrow> (uuid \<Rightarrow> delivery) \<Rightarrow> (db \<Rightarrow> db) \<Rightarrow> db \<Rightarrow> bool result \<times> db \<times> json list"
where
  "publish_batch E E' limit K between d =
     (case transaction (claim_outbox E (e_uuid E 0) limit) d of
        (Inl x, d1) \<Rightarrow> (Inl x, d1, [])
      | (Inr rows, d1) \<Rightarrow>
          if rows = [] then (Inr False, d1, [])
          else
            let (pending, errs) = send_rows K rows;
                confirmed = confirmed_rows K pending;
                errors = errs @ map (\<lambda>_. PyError ''KafkaError'') (filter (\<lambda>r. K (x_id r) = Ack_error) pending);
                d2 = between d1;
                d3 = (if confirmed = [] then d2 else snd (transaction (confirm_outbox E' (e_uuid E 0) confirmed) d2)) in
            (case errors of x # _ \<Rightarrow> Inl x | [] \<Rightarrow> Inr (confirmed \<noteq> []), d3, map envelope_of pending))"

definition publish_one ::
  "env \<Rightarrow> env \<Rightarrow> (uuid \<Rightarrow> delivery) \<Rightarrow> (db \<Rightarrow> db) \<Rightarrow> db \<Rightarrow> bool result \<times> db \<times> json list"
where
  "publish_one E E' = publish_batch E E' 1"

section \<open>The consumer\<close>

text \<open>A JSON value as a parameter of a text or \<open>uuid\<close> column, and as a text array.\<close>

fun as_text :: "json \<Rightarrow> string result" where
  "as_text (JStr s) = Inr s"
| "as_text _ = Inl (PyError ''DataError'')"

fun as_texts :: "json list \<Rightarrow> string list result" where
  "as_texts [] = Inr []"
| "as_texts (j # js) = ebind (as_text j) (\<lambda>s. ebind (as_texts js) (\<lambda>ss. Inr (s # ss)))"

fun as_text_array :: "json \<Rightarrow> string list option result" where
  "as_text_array (JArr js) = ebind (as_texts js) (\<lambda>ss. Inr (Some ss))"
| "as_text_array JNull = Inr None"
| "as_text_array _ = Inl (PyError ''DataError'')"

fun insert_tickets :: "env \<Rightarrow> nat \<Rightarrow> booking_row list \<Rightarrow> db \<Rightarrow> db result" where
  "insert_tickets E n [] d = Inr d"
| "insert_tickets E n (b # bs) d =
     ebind (insert_ticket \<lparr>t_id = e_uuid E n, t_booking = b_id b\<rparr> d) (insert_tickets E (Suc n) bs)"

text \<open>The branch for \<open>OrderPaid\<close>.\<close>

definition issue_tickets :: "env \<Rightarrow> json \<Rightarrow> db \<Rightarrow> db result" where
  "issue_tickets E data d =
     ebind (ebind (jindex ''order_id'' data) as_text) (\<lambda>order_id.
     ebind (lock_order E (find_order order_id d)) (\<lambda>_.
     ebind (not_none (find_order order_id d)) (\<lambda>order.
     if o_status order \<notin> {O_PAID, O_FULFILLED} then Inl (PyError ''ValueError'')
     else
       ebind (insert_tickets E 1 (filter (\<lambda>b. b_order b = o_id order) (bookings d)) d) (\<lambda>d.
       event E 0 (o_id order) ''TicketsIssued'' (JObj [(''order_id'', JStr (o_id order))])
         (d\<lparr>orders := upd_where (\<lambda>r. o_id r = o_id order) (\<lambda>r. r\<lparr>o_status := O_FULFILLED\<rparr>) (orders d)\<rparr>)))))"

text \<open>The branch for \<open>RefundRequested\<close>.\<close>

definition settle_refund :: "env \<Rightarrow> json \<Rightarrow> db \<Rightarrow> db result" where
  "settle_refund E data d =
     ebind (ebind (jindex ''order_id'' data) as_text) (\<lambda>order_id.
     ebind (lock_order E (find_order order_id d)) (\<lambda>_.
     ebind (ebind (jindex ''payment_id'' data) as_text) (\<lambda>payment_id.
     Inr (d\<lparr>refund_requests := upd_where (\<lambda>q. r_payment q = payment_id) (\<lambda>q. q\<lparr>r_status := R_REFUNDED\<rparr>) (refund_requests d),
       orders := upd_where (\<lambda>r. o_id r = order_id \<and> o_status r = O_REFUND_PENDING)
         (\<lambda>r. r\<lparr>o_status := O_REFUNDED\<rparr>) (orders d)\<rparr>))))"

text \<open>The branch for \<open>SeatsChanged\<close>.\<close>

definition note_seats :: "env \<Rightarrow> json \<Rightarrow> db \<Rightarrow> db result" where
  "note_seats E data d =
     (case data of
        JObj kvs \<Rightarrow>
          (case map_of kvs ''seats'' of
             Some seats \<Rightarrow>
               ebind (ebind (jindex ''event_id'' data) as_text) (\<lambda>e.
               ebind (as_text_array seats) (\<lambda>ids. request_refresh E e ids d))
           | None \<Rightarrow> ebind (ebind (jindex ''event_id'' data) as_text) (\<lambda>e. request_refresh E e None d))
      | _ \<Rightarrow> Inl (PyError ''TypeError''))"

definition handle_event :: "env \<Rightarrow> json \<Rightarrow> json \<Rightarrow> db \<Rightarrow> db result" where
  "handle_event E kind data d =
     (if kind = JStr ''SeatsChanged'' then note_seats E data d
      else if kind = JStr ''OrderPaid'' then issue_tickets E data d
      else if kind = JStr ''RefundRequested'' then settle_refund E data d
      else if kind = JStr ''TicketsIssued'' then Inr d
      else Inl (PyError ''ValueError''))"

definition consume_tx :: "env \<Rightarrow> json \<Rightarrow> json \<Rightarrow> json \<Rightarrow> db \<Rightarrow> (unit \<times> db) result" where
  "consume_tx E envelope kind data d =
     ebind (ebind (jindex ''event_id'' envelope) as_text) (\<lambda>event_id.
     if (''fulfillment'', event_id) \<in> set (consumer_inbox d) then Inr ((), d)
     else ebind (handle_event E kind data (d\<lparr>consumer_inbox := consumer_inbox d @ [(''fulfillment'', event_id)]\<rparr>))
       (\<lambda>d. Inr ((), d)))"

definition consume_event :: "env \<Rightarrow> json \<Rightarrow> db \<Rightarrow> unit result \<times> db" where
  "consume_event E envelope d =
     (case ebind (jindex ''schema_version'' envelope) (\<lambda>v.
            ebind (require (v = JInt 1) (PyError ''ValueError'')) (\<lambda>_.
            ebind (jindex ''event_type'' envelope) (\<lambda>kind.
            ebind (jindex ''payload'' envelope) (\<lambda>data. Inr (kind, data))))) of
        Inl x \<Rightarrow> (Inl x, d)
      | Inr (kind, data) \<Rightarrow> transaction (consume_tx E envelope kind data) d)"

text \<open>
  One polled message: up to five attempts, then a durable dead letter; an error while writing it
  rewinds the consumer.  \<open>message\<close> is the decoded value (\<open>None\<close>: not JSON), \<open>Es\<close> the environments
  of the attempts, \<open>E_dead\<close> and \<open>up\<close> the one of the dead letter and whether it can be written.
  The answer says whether the offset is committed.
\<close>

fun attempts :: "env list \<Rightarrow> json option \<Rightarrow> db \<Rightarrow> bool \<times> db" where
  "attempts [] message d = (False, d)"
| "attempts (E # Es) message d =
     (case message of
        None \<Rightarrow> attempts Es message d
      | Some envelope \<Rightarrow>
          (case consume_event E envelope d of
             (Inr _, d') \<Rightarrow> (True, d')
           | (Inl _, d') \<Rightarrow> attempts Es message d'))"

definition insert_dead_letter :: "dead_letter_row \<Rightarrow> db \<Rightarrow> (unit \<times> db) result" where
  "insert_dead_letter r d =
     (if d_id r \<in> d_id ` set (dead_letters d) then Inl (IntegrityError ''dead_letters_pkey'')
      else Inr ((), d\<lparr>dead_letters := dead_letters d @ [r]\<rparr>))"

definition consume_message ::
  "(nat \<Rightarrow> env) \<Rightarrow> env \<Rightarrow> bool \<Rightarrow> string \<Rightarrow> json option \<Rightarrow> db \<Rightarrow> bool \<times> db"
where
  "consume_message Es E_dead up raw message d =
     (case attempts (map Es [0..<5]) message d of
        (True, d') \<Rightarrow> (True, d')
      | (False, d') \<Rightarrow>
          if \<not> up then (False, d')
          else (case transaction (insert_dead_letter \<lparr>d_id = e_uuid E_dead 0,
                    d_payload = JObj [(''raw'', JStr raw)],
                    d_error = ''Processing failed after 5 attempts; inspect worker logs''\<rparr>) d' of
                  (Inl _, d'') \<Rightarrow> (False, d'')
                | (Inr _, d'') \<Rightarrow> (True, d'')))"

section \<open>The payment simulator\<close>

definition payments_due :: "env \<Rightarrow> db \<Rightarrow> (payment_row \<times> order_row) list" where
  "payments_due E d = sort_key (\<lambda>(p, r). p_due p) (concat (map (\<lambda>p. map (Pair p)
     (filter (\<lambda>r. o_id r = p_order p) (orders d)))
     (filter (\<lambda>p. p_deliveries p < p_target p \<and> p_due p \<le> e_now E \<and> lease_free (e_now E) (p_lease_until p) \<and>
        \<not> e_locked E (L_payment (p_id p))) (payment_attempts d))))"

definition claim_payment :: "env \<Rightarrow> uuid \<Rightarrow> db \<Rightarrow> ((payment_row \<times> order_row) option \<times> db) result" where
  "claim_payment E token d =
     (case payments_due E d of
        [] \<Rightarrow> Inr (None, d)
      | (p, r) # _ \<Rightarrow> Inr (Some (p, r), d\<lparr>payment_attempts := upd_where (\<lambda>q. p_id q = p_id p)
          (\<lambda>q. q\<lparr>p_lease_until := Some (e_now E + 15 * 1000000), p_lease_token := Some token\<rparr>) (payment_attempts d)\<rparr>))"

definition simulated_payload :: "payment_row \<Rightarrow> order_row \<Rightarrow> callback_payload" where
  "simulated_payload p r = \<lparr>cb_callback_id = p_id p, cb_payment_id = p_id p, cb_order_id = p_order p,
     cb_amount = o_total r, cb_currency = o_currency r, cb_outcome = p_outcome p\<rparr>"

definition delivered_payment :: "uuid \<Rightarrow> uuid \<Rightarrow> db \<Rightarrow> (unit \<times> db) result" where
  "delivered_payment payment_id token d = Inr ((), d\<lparr>payment_attempts :=
     upd_where (\<lambda>q. p_id q = payment_id \<and> p_lease_token q = Some token)
       (\<lambda>q. q\<lparr>p_deliveries := p_deliveries q + 1, p_lease_until := None\<rparr>) (payment_attempts d)\<rparr>)"

text \<open>
  \<open>post\<close> is the webhook call: what the API and everybody else do to the database until the answer
  arrives, and whether the answer is a success.
\<close>

definition simulate_one :: "env \<Rightarrow> (callback_payload \<Rightarrow> db \<Rightarrow> bool \<times> db) \<Rightarrow> db \<Rightarrow> bool result \<times> db" where
  "simulate_one E post d =
     (case transaction (claim_payment E (e_uuid E 0)) d of
        (Inl x, d1) \<Rightarrow> (Inl x, d1)
      | (Inr None, d1) \<Rightarrow> (Inr False, d1)
      | (Inr (Some (p, r)), d1) \<Rightarrow>
          (case post (simulated_payload p r) d1 of
             (False, d2) \<Rightarrow> (Inl (PyError ''HTTPError''), d2)
           | (True, d2) \<Rightarrow> (Inr True, snd (transaction (delivered_payment (p_id p) (e_uuid E 0)) d2))))"

section \<open>The reservation writer\<close>

text \<open>
  One message of \<open>persist_reservation_batch\<close>.  A \<open>Failure\<close> is final: it is recorded, the map is
  rebuilt from the database, and the message is acknowledged.  Any other exception leaves the
  message for the next reader.
\<close>

definition persist_message ::
  "env \<Rightarrow> cache_env \<Rightarrow> time \<Rightarrow> uuid \<times> stream_entry \<Rightarrow> db \<times> redis \<Rightarrow> unit result \<times> db \<times> redis"
where
  "persist_message E C rt = (\<lambda>(stream, m) (d, rd).
     let p = se_payload m in
     case persist_reservation_command E p (se_response m) d of
       (Inl (Failure code status), d') \<Rightarrow>
         let rd1 = snd (mark_failed rt (cp_event p) (cp_command_id p) (cp_seats p) code rd) in
         (case snapshot C (cp_event p) d' (rd_maps rd1) of
            (Inl x, maps) \<Rightarrow> (Inl x, d', rd1\<lparr>rd_maps := maps\<rparr>)
          | (Inr _, maps) \<Rightarrow> (Inr (), d', acknowledge stream (se_id m) (rd1\<lparr>rd_maps := maps\<rparr>)))
     | (Inl x, d') \<Rightarrow> (Inl x, d', rd)
     | (Inr _, d') \<Rightarrow>
         (case mark_durable rt (cp_event p) (cp_command_id p) rd of
            (n, rd1) \<Rightarrow>
              if n \<noteq> 1 then (Inl (PyError ''RuntimeError''), d', rd1)
              else (Inr (), d', acknowledge stream (se_id m) rd1)))"

fun persist_messages ::
  "env list \<Rightarrow> cache_env \<Rightarrow> time \<Rightarrow> (uuid \<times> stream_entry) list \<Rightarrow> db \<times> redis \<Rightarrow> unit result \<times> db \<times> redis"
where
  "persist_messages (E # Es) C rt (m # ms) s =
     (case persist_message E C rt m s of
        (Inl x, s') \<Rightarrow> (Inl x, s')
      | (Inr _, s') \<Rightarrow> persist_messages Es C rt ms s')"
| "persist_messages _ C rt _ s = (Inr (), s)"

text \<open>The whole batch; \<open>Es\<close> gives each message its environment.\<close>

definition persist_reservation_batch ::
  "(nat \<Rightarrow> env) \<Rightarrow> cache_env \<Rightarrow> time \<Rightarrow> uuid list \<Rightarrow> string \<Rightarrow> nat \<Rightarrow> db \<times> redis \<Rightarrow> bool result \<times> db \<times> redis"
where
  "persist_reservation_batch Es C rt scanned consumer limit = (\<lambda>(d, rd).
     case messages scanned consumer limit rt rd of
       (ms, rd1) \<Rightarrow>
         (case persist_messages (map Es [0..<length ms]) C rt ms (d, rd1) of
            (r, s) \<Rightarrow> (map_sum id (\<lambda>_. ms \<noteq> []) r, s)))"

end
