(* ===== verification/Reconcile.thy ===== *)
theory Reconcile
  imports Refresh Config
begin

text \<open>
  The proactive reconciliation schedule (\<open>workers.py\<close>): seeding and pruning it, claiming due
  events under a lease, rebuilding their seat maps, and acknowledging or deferring them.

  As in \<open>Refresh\<close>, one clock reading stands for the timestamps of a transaction, rows that other
  transactions have locked are skipped, and what others commit between two transactions of a
  step is an argument.
\<close>

section \<open>The schedule\<close>

text \<open>\<open>ACTIVE_WINDOW\<close>\<close>

definition active_window :: "settings \<Rightarrow> time \<Rightarrow> event_row \<Rightarrow> bool" where
  "active_window S now e \<longleftrightarrow> ev_sale_starts e \<le> now + reconcile_window_seconds S * 1000000 \<and>
     ev_sale_ends e > now - reconcile_window_seconds S * 1000000"

definition row_active :: "settings \<Rightarrow> time \<Rightarrow> db \<Rightarrow> reconcile_row \<Rightarrow> bool" where
  "row_active S now d q \<longleftrightarrow> list_ex (\<lambda>e. ev_id e = q_event q \<and> active_window S now e) (events d)"

definition row_outside :: "settings \<Rightarrow> time \<Rightarrow> db \<Rightarrow> reconcile_row \<Rightarrow> bool" where
  "row_outside S now d q \<longleftrightarrow> list_ex (\<lambda>e. ev_id e = q_event q \<and> \<not> active_window S now e) (events d)"

definition seed_row :: "time \<Rightarrow> event_row \<Rightarrow> reconcile_row" where
  "seed_row now e = \<lparr>q_event = ev_id e, q_next_due = now, q_last = None, q_failures = 0,
     q_lease_until = None, q_lease_token = None, q_claimed = None\<rparr>"

definition seeding :: "settings \<Rightarrow> time \<Rightarrow> db \<Rightarrow> event_row list" where
  "seeding S now d = take (nat (reconcile_seed_batch S)) (sort_key ev_sale_starts (filter (\<lambda>e.
     active_window S now e \<and> ev_id e \<notin> q_event ` set (event_reconciliation d)) (events d)))"

definition pruning :: "env \<Rightarrow> settings \<Rightarrow> db \<Rightarrow> uuid list" where
  "pruning E S d = take (nat (reconcile_seed_batch S)) (sort (map q_event (filter (\<lambda>q.
     row_outside S (e_now E) d q \<and> lease_free (e_now E) (q_lease_until q) \<and> \<not> e_locked E (L_reconcile (q_event q)))
     (event_reconciliation d))))"

definition seed_schedule :: "settings \<Rightarrow> time \<Rightarrow> db \<Rightarrow> db" where
  "seed_schedule S now d =
     d\<lparr>event_reconciliation := event_reconciliation d @ map (seed_row now) (seeding S now d)\<rparr>"

definition prune_schedule :: "env \<Rightarrow> settings \<Rightarrow> db \<Rightarrow> db" where
  "prune_schedule E S d =
     d\<lparr>event_reconciliation := filter (\<lambda>q. \<not> (q_event q \<in> set (pruning E S d) \<and>
        lease_free (e_now E) (q_lease_until q))) (event_reconciliation d)\<rparr>"

text \<open>The three gauges, two of them counted up to a cap.\<close>

record schedule_gauges =
  g_backlog :: nat
  g_tracked :: nat
  g_overdue :: time

definition sample_schedule :: "time \<Rightarrow> db \<Rightarrow> schedule_gauges" where
  "sample_schedule now d =
     \<lparr>g_backlog = min 10000 (length (filter (\<lambda>q. q_next_due q \<le> now) (event_reconciliation d))),
      g_tracked = min 50000 (length (event_reconciliation d)),
      g_overdue = (case map q_next_due (event_reconciliation d) of
          [] \<Rightarrow> 0 | t # ts \<Rightarrow> max 0 (now - fold min ts t))\<rparr>"

definition maintain_schedule :: "env \<Rightarrow> settings \<Rightarrow> db \<Rightarrow> (nat \<times> nat \<times> schedule_gauges) result \<times> db" where
  "maintain_schedule E S = transaction (\<lambda>d.
     let d1 = seed_schedule S (e_now E) d; d2 = prune_schedule E S d1 in
     Inr ((length (seeding S (e_now E) d),
           length (event_reconciliation d1) - length (event_reconciliation d2),
           sample_schedule (e_now E) d2), d2))"

section \<open>Claiming and settling an event\<close>

definition due_rows :: "env \<Rightarrow> settings \<Rightarrow> db \<Rightarrow> reconcile_row list" where
  "due_rows E S d = take (nat (reconcile_batch_size S)) (sort_key q_next_due (sort_key q_event (filter (\<lambda>q.
     q_next_due q \<le> e_now E \<and> lease_free (e_now E) (q_lease_until q) \<and> row_active S (e_now E) d q \<and>
     \<not> e_locked E (L_reconcile (q_event q))) (event_reconciliation d))))"

definition claim_due_tx :: "env \<Rightarrow> settings \<Rightarrow> uuid \<Rightarrow> db \<Rightarrow> (reconcile_row list \<times> db) result" where
  "claim_due_tx E S token d =
     (let rows = due_rows E S d in
      if rows = [] then Inr ([], d)
      else Inr (rows, d\<lparr>event_reconciliation := upd_where (\<lambda>q. q_event q \<in> q_event ` set rows)
        (\<lambda>q. q\<lparr>q_lease_token := Some token, q_lease_until := Some (e_now E + reconcile_lease_seconds S * 1000000),
               q_claimed := Some (e_now E)\<rparr>) (event_reconciliation d)\<rparr>))"

text \<open>The answer also carries how many expired leases were taken over.\<close>

definition claim_due_events :: "env \<Rightarrow> settings \<Rightarrow> db \<Rightarrow> (uuid \<times> uuid list \<times> nat) result \<times> db" where
  "claim_due_events E S d =
     (case transaction (claim_due_tx E S (e_uuid E 0)) d of
        (r, d') \<Rightarrow> (map_sum id (\<lambda>rows. (e_uuid E 0, map q_event rows,
           length (filter (\<lambda>q. q_lease_until q \<noteq> None) rows))) r, d'))"

definition complete_reconciliation :: "env \<Rightarrow> settings \<Rightarrow> uuid \<Rightarrow> uuid \<Rightarrow> db \<Rightarrow> bool result \<times> db" where
  "complete_reconciliation E S event_id token = transaction (\<lambda>d.
     let mine = (\<lambda>q. q_event q = event_id \<and> q_lease_token q = Some token) in
     Inr (length (filter mine (event_reconciliation d)) = 1,
       d\<lparr>event_reconciliation := upd_where mine
         (\<lambda>q. q\<lparr>q_last := Some (e_now E), q_next_due := e_now E + reconcile_interval_seconds S * 1000000,
                q_failures := 0, q_lease_until := None, q_lease_token := None\<rparr>) (event_reconciliation d)\<rparr>))"

text \<open>The delay in milliseconds after the given number of consecutive failures.\<close>

definition backoff :: "settings \<Rightarrow> nat \<Rightarrow> int" where
  "backoff S failures = min (reconcile_backoff_ms S * 2 ^ min failures 5) (reconcile_backoff_ms S * 2 ^ 5)"

definition defer_reconciliation :: "env \<Rightarrow> settings \<Rightarrow> uuid \<Rightarrow> uuid \<Rightarrow> db \<Rightarrow> unit result \<times> db" where
  "defer_reconciliation E S event_id token = transaction (\<lambda>d.
     Inr ((), d\<lparr>event_reconciliation := upd_where (\<lambda>q. q_event q = event_id \<and> q_lease_token q = Some token)
       (\<lambda>q. q\<lparr>q_failures := q_failures q + 1, q_next_due := e_now E + backoff S (q_failures q) * 1000,
              q_lease_until := None, q_lease_token := None\<rparr>) (event_reconciliation d)\<rparr>))"

definition return_claims :: "uuid list \<Rightarrow> uuid \<Rightarrow> db \<Rightarrow> unit result \<times> db" where
  "return_claims event_ids token = transaction (\<lambda>d.
     Inr ((), d\<lparr>event_reconciliation := upd_where (\<lambda>q. q_event q \<in> set event_ids \<and> q_lease_token q = Some token)
       (\<lambda>q. q\<lparr>q_lease_until := None, q_lease_token := None\<rparr>) (event_reconciliation d)\<rparr>))"

section \<open>One batch\<close>

text \<open>
  What a worker meets at one event: whether the deadline has passed, what others have committed
  since, the cache call of the snapshot, the clock of the bookkeeping transaction, and whether
  that transaction gets through.
\<close>

record turn =
  tn_late :: bool
  tn_before :: "db \<Rightarrow> db"
  tn_cache :: cache_env
  tn_env :: env
  tn_up :: bool

definition reconcile_event ::
  "settings \<Rightarrow> turn \<Rightarrow> uuid \<Rightarrow> uuid \<Rightarrow> db \<times> seatmaps \<Rightarrow> db \<times> seatmaps"
where
  "reconcile_event S T token e = (\<lambda>(d, maps).
     case snapshot (tn_cache T) e d maps of
       (Inl _, maps') \<Rightarrow> (if tn_up T then snd (defer_reconciliation (tn_env T) S e token d) else d, maps')
     | (Inr _, maps') \<Rightarrow> (if tn_up T then snd (complete_reconciliation (tn_env T) S e token d) else d, maps'))"

fun reconcile_events ::
  "settings \<Rightarrow> (uuid \<Rightarrow> turn) \<Rightarrow> uuid \<Rightarrow> uuid list \<Rightarrow> db \<times> seatmaps \<Rightarrow> nat result \<times> db \<times> seatmaps"
where
  "reconcile_events S T token [] s = (Inr 0, s)"
| "reconcile_events S T token (e # es) (d, maps) =
     (let d1 = tn_before (T e) d in
      if tn_late (T e)
      then if tn_up (T e) then (Inr 0, snd (return_claims (e # es) token d1), maps)
           else (Inl DatabaseUnavailable, d1, maps)
      else case reconcile_events S T token es (reconcile_event S (T e) token e (d1, maps)) of
             (r, s) \<Rightarrow> (map_sum id Suc r, s))"

definition reconcile_batch ::
  "env \<Rightarrow> settings \<Rightarrow> (uuid \<Rightarrow> turn) \<Rightarrow> db \<times> seatmaps \<Rightarrow> nat result \<times> db \<times> seatmaps"
where
  "reconcile_batch E S T = (\<lambda>(d, maps).
     case claim_due_events E S d of
       (Inl x, d1) \<Rightarrow> (Inl x, d1, maps)
     | (Inr (token, es, _), d1) \<Rightarrow> reconcile_events S T token es (d1, maps))"

text \<open>
  The pass: one round per element, until the deadline ends the list or a round handles nothing.
\<close>

fun reconcile_pass ::
  "settings \<Rightarrow> (env \<times> (uuid \<Rightarrow> turn)) list \<Rightarrow> db \<times> seatmaps \<Rightarrow> nat result \<times> db \<times> seatmaps"
where
  "reconcile_pass S [] s = (Inr 0, s)"
| "reconcile_pass S ((E, T) # rounds) s =
     (case reconcile_batch E S T s of
        (Inl x, s') \<Rightarrow> (Inl x, s')
      | (Inr n, s') \<Rightarrow>
          if n = 0 then (Inr 0, s')
          else (case reconcile_pass S rounds s' of (r, s'') \<Rightarrow> (map_sum id ((+) n) r, s'')))"

end
