(* ===== verification/Worker.thy ===== *)
theory Worker
  imports Fulfilment Reconcile
begin

text \<open>
  The worker process (\<open>main\<close> and \<open>simulate_batch\<close> in \<open>workers.py\<close>): one iteration of the loop for each
  role, and what the loop does with its result.  A \<open>tick\<close> has what one iteration meets outside:
  environments of its transactions, the broker, the cache, the webhook, what others commit meanwhile.
\<close>

datatype role =
    publisher | consumer | reservation_writer | maintenance | refresh_role | expiry | reconciler | simulator

record tick =
  tk_env :: env
  tk_env2 :: env
  tk_envs :: "nat \<Rightarrow> env"
  tk_dead :: env
  tk_up :: bool
  tk_between :: "db \<Rightarrow> db"
  tk_delivery :: "uuid \<Rightarrow> delivery"
  tk_plan :: cache_plan
  tk_reads :: read_plan
  tk_cache :: cache_env
  tk_redis_time :: time
  tk_scanned :: "uuid list"
  tk_consumer :: string
  tk_posts :: "(env \<times> (callback_payload \<Rightarrow> db \<Rightarrow> bool \<times> db)) list"
  tk_polled :: "(string \<times> json option) list"
  tk_rounds :: "(env \<times> (uuid \<Rightarrow> turn)) list"
  tk_now :: time
  tk_scheduled :: time

text \<open>The state of the loop: the next maintenance of the schedule, the database, Redis.\<close>

record loop =
  lp_next_warm :: time
  lp_db :: db
  lp_redis :: redis

section \<open>The simulator's batch\<close>

text \<open>The dispatches in the order in which they complete; a failed one is counted and logged only.\<close>

fun simulate_batch ::
  "(env \<times> (callback_payload \<Rightarrow> db \<Rightarrow> bool \<times> db)) list \<Rightarrow> db \<Rightarrow> bool \<times> nat \<times> db"
where
  "simulate_batch [] d = (False, 0, d)"
| "simulate_batch ((E, post) # runs) d =
     (case simulate_one E post d of
        (r, d1) \<Rightarrow>
          (case simulate_batch runs d1 of
             (work, errors, d2) \<Rightarrow>
               (case r of Inr ok \<Rightarrow> (ok \<or> work, errors, d2) | Inl _ \<Rightarrow> (work, errors + 1, d2))))"

section \<open>One iteration\<close>

fun consume_polled :: "tick \<Rightarrow> (string \<times> json option) list \<Rightarrow> db \<Rightarrow> bool result \<times> db" where
  "consume_polled T [] d = (Inr False, d)"
| "consume_polled T ((raw, message) # ms) d =
     (case consume_message (tk_envs T) (tk_dead T) (tk_up T) raw message d of
        (False, d1) \<Rightarrow> (Inl DatabaseUnavailable, d1)
      | (True, d1) \<Rightarrow> (case consume_polled T ms d1 of (r, d2) \<Rightarrow> (map_sum id (\<lambda>_. True) r, d2)))"

definition refresh_turn :: "settings \<Rightarrow> tick \<Rightarrow> loop \<Rightarrow> bool result \<times> loop" where
  "refresh_turn S T s =
     (case refresh_batch (tk_env T) (tk_env2 T) (nat (refresh_batch_size S)) (refresh_cooldown_ms S) (tk_plan T) (tk_reads T)
        (tk_between T) (lp_db s) (rd_maps (lp_redis s)) of
        (r, d, maps) \<Rightarrow> (map_sum id (\<lambda>n. n > 0) r, s\<lparr>lp_db := d, lp_redis := (lp_redis s)\<lparr>rd_maps := maps\<rparr>\<rparr>))"

definition expire_turn :: "settings \<Rightarrow> env \<Rightarrow> loop \<Rightarrow> bool result \<times> loop" where
  "expire_turn S E s =
     (case expire_batch E (expiry_batch_size S) (lp_db s) of (r, d) \<Rightarrow> (map_sum id (\<lambda>n. n > 0) r, s\<lparr>lp_db := d\<rparr>))"

text \<open>The schedule is maintained at most once per second, and its failure is only counted.\<close>

definition schedule_turn :: "settings \<Rightarrow> tick \<Rightarrow> loop \<Rightarrow> loop" where
  "schedule_turn S T s =
     (if tk_now T \<ge> lp_next_warm s
      then s\<lparr>lp_db := (if tk_up T then snd (maintain_schedule (tk_env T) S (lp_db s)) else lp_db s),
             lp_next_warm := tk_scheduled T + 1000000\<rparr>
      else s)"

definition iteration :: "settings \<Rightarrow> role \<Rightarrow> tick \<Rightarrow> loop \<Rightarrow> bool result \<times> loop" where
  "iteration S role T s =
     (case role of
        publisher \<Rightarrow>
          (case publish_batch (tk_env T) (tk_env2 T) (nat (publisher_batch_size S)) (tk_delivery T) (tk_between T) (lp_db s) of
             (r, d, _) \<Rightarrow> (r, s\<lparr>lp_db := d\<rparr>))
      | reservation_writer \<Rightarrow>
          (case persist_reservation_batch (tk_envs T) (tk_cache T) (tk_redis_time T) (tk_scanned T) (tk_consumer T)
             (nat (publisher_batch_size S)) (lp_db s, lp_redis s) of
             (r, d, rd) \<Rightarrow> (r, s\<lparr>lp_db := d, lp_redis := rd\<rparr>))
      | simulator \<Rightarrow>
          (case simulate_batch (take (nat (simulator_concurrency S)) (tk_posts T)) (lp_db s) of
             (work, _, d) \<Rightarrow> (Inr work, s\<lparr>lp_db := d\<rparr>))
      | maintenance \<Rightarrow>
          (case refresh_turn S T s of
             (Inl x, s1) \<Rightarrow> (Inl x, s1)
           | (Inr work, s1) \<Rightarrow>
               (case expire_turn S (tk_env2 T) s1 of (r, s2) \<Rightarrow> (map_sum id (\<lambda>more. more \<or> work) r, s2)))
      | refresh_role \<Rightarrow> refresh_turn S T s
      | expiry \<Rightarrow> expire_turn S (tk_env T) s
      | reconciler \<Rightarrow>
          (let s1 = schedule_turn S T s in
           case reconcile_pass S (tk_rounds T) (lp_db s1, rd_maps (lp_redis s1)) of
             (r, d, maps) \<Rightarrow> (map_sum id (\<lambda>n. n > 0) r, s1\<lparr>lp_db := d, lp_redis := (lp_redis s1)\<lparr>rd_maps := maps\<rparr>\<rparr>))
      | consumer \<Rightarrow>
          (case consume_polled T (take 1 (tk_polled T)) (lp_db s) of (r, d) \<Rightarrow> (r, s\<lparr>lp_db := d\<rparr>)))"

section \<open>The loop\<close>

text \<open>The pause after an iteration, in microseconds; an exception is counted, never fatal.\<close>

definition pause :: "bool result \<Rightarrow> time" where
  "pause r = (case r of Inl _ \<Rightarrow> 1000000 | Inr work \<Rightarrow> if work then 0 else 100000)"

fun run_worker :: "settings \<Rightarrow> role \<Rightarrow> tick list \<Rightarrow> loop \<Rightarrow> nat \<times> time \<times> loop" where
  "run_worker S role [] s = (0, 0, s)"
| "run_worker S role (T # Ts) s =
     (case iteration S role T s of
        (r, s1) \<Rightarrow>
          (case run_worker S role Ts s1 of
             (errors, slept, s2) \<Rightarrow> (errors + (if isl r then 1 else 0), slept + pause r, s2)))"

text \<open>Starting a worker: the settings are checked, and the simulator runs in development only.\<close>

definition start_worker :: "settings \<Rightarrow> role \<Rightarrow> unit result" where
  "start_worker S role =
     ebind (validate S) (\<lambda>_.
       require (\<not> (role = simulator \<and> environment S \<noteq> ''development'')) (PyError ''RuntimeError''))"

end
