(* ===== verification/Store_Effects.thy ===== *)
theory Store_Effects
  imports Store
begin

text \<open>
  What the composite writes of \<open>Store\<close> do to the tables when they succeed.  Every later proof
  about an operation goes through these equations instead of unfolding the operation.
\<close>

lemma transaction_Inl: "body d = Inl e \<Longrightarrow> transaction body d = (Inl e, d)"
  by (simp add: transaction_def)

lemma transaction_Inr: "body d = Inr (x, d') \<Longrightarrow> transaction body d = (Inr x, d')"
  by (simp add: transaction_def)

lemma transaction_cases:
  obtains (fail) e where "body d = Inl e" and "transaction body d = (Inl e, d)"
    | (ok) x d' where "body d = Inr (x, d')" and "transaction body d = (Inr x, d')"
  by (cases "body d") (auto simp: transaction_def)

lemma transaction_result_Inl: "transaction body d = (Inl e, d') \<longleftrightarrow> body d = Inl e \<and> d' = d"
  by (auto simp: transaction_def split: sum.splits)

lemma transaction_result_Inr: "transaction body d = (Inr x, d') \<longleftrightarrow> body d = Inr (x, d')"
  by (auto simp: transaction_def split: sum.splits)

section \<open>Idempotency records\<close>

definition new_idem :: "env \<Rightarrow> string \<Rightarrow> string \<Rightarrow> string \<Rightarrow> json \<Rightarrow> idem_row" where
  "new_idem E actor operation key request =
     \<lparr>k_actor = actor, k_operation = operation, k_key = key,
      k_request_hash = digest E request, k_response = None\<rparr>"

lemma idem_cases:
  assumes "idem E actor op key req d = Inr (r, d1)"
  obtains (fresh) "r = None" and "(actor, op, key) \<notin> idem_key ` set (idempotency_records d)"
      and "d1 = d\<lparr>idempotency_records := idempotency_records d @ [new_idem E actor op key req]\<rparr>"
    | (replay) k where "k \<in> set (idempotency_records d)" and "idem_key k = (actor, op, key)"
      and "find (\<lambda>k. idem_key k = (actor, op, key)) (idempotency_records d) = Some k"
      and "k_request_hash k = digest E req" and "r = k_response k" and "d1 = d"
proof (cases "find (\<lambda>k. idem_key k = (actor, op, key)) (idempotency_records d)")
  case None
  then have "(actor, op, key) \<notin> idem_key ` set (idempotency_records d)"
    by (simp add: find_key_None)
  with None assms show ?thesis
    by (intro fresh) (auto simp: idem_def new_idem_def split: if_splits)
next
  case (Some k)
  with assms show ?thesis
    using find_Some_mem [OF Some] by (intro replay [of k]) (auto simp: idem_def split: if_splits)
qed

lemma find_remember:
  assumes "(actor, op, key) \<in> idem_key ` set (idempotency_records d)"
  obtains k where "find (\<lambda>k. idem_key k = (actor, op, key)) (idempotency_records d) = Some k"
    and "find (\<lambda>k. idem_key k = (actor, op, key)) (idempotency_records (remember actor op key resp d))
           = Some (k\<lparr>k_response := Some resp\<rparr>)"
proof -
  obtain k where k: "find (\<lambda>k. idem_key k = (actor, op, key)) (idempotency_records d) = Some k"
    using assms find_key_None [where key = idem_key and rs = "idempotency_records d" and k = "(actor, op, key)"]
    by (cases "find (\<lambda>k. idem_key k = (actor, op, key)) (idempotency_records d)") auto
  have "find (\<lambda>k. idem_key k = (actor, op, key)) (idempotency_records (remember actor op key resp d))
      = Some (k\<lparr>k_response := Some resp\<rparr>)"
    using k find_Some_mem [OF k]
    by (simp add: remember_def find_upd_where idem_key_def)
  with k show ?thesis by (rule that)
qed

section \<open>Creating a hold\<close>

definition new_items :: "uuid \<Rightarrow> uuid \<Rightarrow> seat_row list \<Rightarrow> item_row list" where
  "new_items order event_id rows =
     map (\<lambda>r. \<lparr>i_order = order, i_event = event_id, i_seat = s_id r, i_price = s_price r\<rparr>) rows"

lemma insert_item_Inr:
  "insert_item r d = Inr d' \<longleftrightarrow> item_key r \<notin> item_key ` set (order_items d) \<and>
     i_order r \<in> o_id ` set (orders d) \<and> item_seat r \<in> seat_key ` set (event_seats d) \<and>
     d' = d\<lparr>order_items := order_items d @ [r]\<rparr>"
  by (auto simp: insert_item_def)

lemma insert_items_eq:
  "insert_items order ev rows d = Inr d' \<Longrightarrow>
     d' = d\<lparr>order_items := order_items d @ new_items order ev rows\<rparr>"
  by (induction order ev rows d arbitrary: d' rule: insert_items.induct)
    (auto simp: ebind_Inr_iff insert_item_Inr new_items_def)

lemma insert_items_distinct:
  assumes "insert_items order ev rows d = Inr d'" and "distinct (map item_key (order_items d))"
  shows "distinct (map item_key (order_items d'))"
  using assms
proof (induction order ev rows d arbitrary: d' rule: insert_items.induct)
  case (1 order ev d)
  then show ?case by simp
next
  case (2 order ev row rows d)
  from "2.prems"(1) show ?case
  proof (simp only: insert_items.simps, elim ebind_InrE)
    fix d1
    assume d1: "insert_item \<lparr>i_order = order, i_event = ev, i_seat = s_id row, i_price = s_price row\<rparr> d = Inr d1"
      and rest: "insert_items order ev rows d1 = Inr d'"
    have "distinct (map item_key (order_items d1))"
      using d1 "2.prems"(2) by (auto simp: insert_item_Inr)
    then show ?thesis by (rule "2.IH" [OF d1 rest])
  qed
qed

lemma insert_items_seats:
  "insert_items order ev rows d = Inr d' \<Longrightarrow> r \<in> set rows \<Longrightarrow>
     (ev, s_id r) \<in> seat_key ` set (event_seats d)"
  by (induction order ev rows d arbitrary: d' rule: insert_items.induct)
    (auto simp: ebind_Inr_iff insert_item_Inr item_seat_def)

definition new_hold :: "string \<Rightarrow> uuid \<Rightarrow> uuid \<Rightarrow> time \<Rightarrow> hold_row" where
  "new_hold actor event_id hold expires =
     \<lparr>h_id = hold, h_actor = actor, h_event = event_id, h_expires = expires, h_status = H_ACTIVE\<rparr>"

definition new_order :: "env \<Rightarrow> string \<Rightarrow> uuid \<Rightarrow> string \<Rightarrow> uuid \<Rightarrow> uuid \<Rightarrow> seat_row list \<Rightarrow> order_row" where
  "new_order E actor event_id currency hold order rows =
     \<lparr>o_id = order, o_actor = actor, o_hold = hold, o_event = event_id,
      o_total = sum_list (map s_price rows), o_currency = currency, o_status = O_PENDING,
      o_created = e_now E\<rparr>"

definition new_event :: "env \<Rightarrow> nat \<Rightarrow> uuid \<Rightarrow> string \<Rightarrow> json \<Rightarrow> outbox_row" where
  "new_event E n aggregate kind payload =
     \<lparr>x_id = e_uuid E n, x_aggregate = aggregate, x_type = kind, x_schema_version = 1,
      x_payload = jset ''correlation_id'' (e_request_id E) payload, x_occurred = e_now E,
      x_published = None, x_lease_until = None, x_lease_token = None\<rparr>"

definition take_seat :: "uuid \<Rightarrow> time \<Rightarrow> seat_row \<Rightarrow> seat_row" where
  "take_seat hold expires s = s\<lparr>s_hold := Some hold, s_until := Some expires, s_version := s_version s + 1\<rparr>"

definition free_seat :: "seat_row \<Rightarrow> seat_row" where
  "free_seat s = s\<lparr>s_hold := None, s_until := None, s_version := s_version s + 1\<rparr>"

definition sell_seat :: "uuid \<Rightarrow> seat_row \<Rightarrow> seat_row" where
  "sell_seat oid s = s\<lparr>s_booked := Some oid, s_hold := None, s_until := None, s_version := s_version s + 1\<rparr>"

lemma seat_key_change [simp]:
  "seat_key (take_seat h t s) = seat_key s" "seat_key (free_seat s) = seat_key s"
  "seat_key (sell_seat oid s) = seat_key s"
  by (simp_all add: seat_key_def take_seat_def free_seat_def sell_seat_def)

lemmas new_row_defs = new_hold_def new_order_def new_event_def new_items_def
lemmas seat_change_defs = take_seat_def free_seat_def sell_seat_def

lemma event_Inr:
  "event E n agg kind payload d = Inr d' \<longleftrightarrow>
     e_uuid E n \<notin> x_id ` set (outbox_events d) \<and>
     d' = d\<lparr>outbox_events := outbox_events d @ [new_event E n agg kind payload]\<rparr>"
  by (auto simp: event_def insert_outbox_def new_event_def)

lemma create_hold_effect:
  assumes "create_hold E n actor ev cur hold order expires rows ids d = Inr d'"
  shows "d' = d\<lparr>holds := holds d @ [new_hold actor ev hold expires],
      orders := orders d @ [new_order E actor ev cur hold order rows],
      event_seats := upd_where (\<lambda>s. s_event s = ev \<and> s_id s \<in> set ids) (take_seat hold expires) (event_seats d),
      order_items := order_items d @ new_items order ev rows,
      outbox_events := outbox_events d @ [new_event E n order ''SeatsChanged'' (seats_payload ev ids)]\<rparr>"
    and "hold \<notin> h_id ` set (holds d)" and "ev \<in> ev_id ` set (events d)"
    and "order \<notin> o_id ` set (orders d)" and "hold \<notin> o_hold ` set (orders d)"
    and "e_uuid E n \<notin> x_id ` set (outbox_events d)"
    and "0 \<le> sum_list (map s_price rows)"
    and "\<And>s. s \<in> set (event_seats d) \<Longrightarrow> s_event s = ev \<Longrightarrow> s_id s \<in> set ids \<Longrightarrow> s_booked s = None"
    and "distinct (map item_key (order_items d)) \<Longrightarrow> distinct (map item_key (order_items d'))"
    and "\<And>r. r \<in> set rows \<Longrightarrow> (ev, s_id r) \<in> seat_key ` set (event_seats d)"
proof -
  let ?P = "\<lambda>s. s_event s = ev \<and> s_id s \<in> set ids"
  obtain d1 d2 d3 d4 where
    1: "insert_hold (new_hold actor ev hold expires) d = Inr d1" and
    2: "insert_order (new_order E actor ev cur hold order rows) d1 = Inr d2" and
    3: "update_seats ?P (take_seat hold expires) d2 = Inr d3" and
    4: "insert_items order ev rows d3 = Inr d4" and
    5: "event E n order ''SeatsChanged'' (seats_payload ev ids) d4 = Inr d'"
    using assms
    by (auto simp: ebind_Inr_iff create_hold_def new_hold_def new_order_def take_seat_def [abs_def])
  from 1 have d1: "d1 = d\<lparr>holds := holds d @ [new_hold actor ev hold expires]\<rparr>"
    and h: "hold \<notin> h_id ` set (holds d)" and ev: "ev \<in> ev_id ` set (events d)"
    by (auto simp: insert_hold_def new_hold_def split: if_splits)
  from 2 have d2: "d2 = d1\<lparr>orders := orders d1 @ [new_order E actor ev cur hold order rows]\<rparr>"
    and o: "order \<notin> o_id ` set (orders d1)" "hold \<notin> o_hold ` set (orders d1)"
      "0 \<le> sum_list (map s_price rows)"
    by (auto simp: insert_order_def new_order_def split: if_splits)
  from 3 have d3: "d3 = d2\<lparr>event_seats := upd_where ?P (take_seat hold expires) (event_seats d2)\<rparr>"
    and chk: "\<And>s. s \<in> set (event_seats d2) \<Longrightarrow> ?P s \<Longrightarrow> seat_check (take_seat hold expires s)"
    by (auto simp: update_seats_Inr)
  note d4 = insert_items_eq [OF 4]
  have keys: "seat_key ` set (event_seats d3) = seat_key ` set (event_seats d)"
    by (simp add: d3 d2 d1 image_upd_where)
  show "d' = d\<lparr>holds := holds d @ [new_hold actor ev hold expires],
      orders := orders d @ [new_order E actor ev cur hold order rows],
      event_seats := upd_where ?P (take_seat hold expires) (event_seats d),
      order_items := order_items d @ new_items order ev rows,
      outbox_events := outbox_events d @ [new_event E n order ''SeatsChanged'' (seats_payload ev ids)]\<rparr>"
    using 5 by (simp add: event_Inr d1 d2 d3 d4)
  show "hold \<notin> h_id ` set (holds d)" and "ev \<in> ev_id ` set (events d)" by (fact h ev)+
  show "order \<notin> o_id ` set (orders d)" and "hold \<notin> o_hold ` set (orders d)"
    and "0 \<le> sum_list (map s_price rows)"
    using o by (simp_all add: d1)
  show "e_uuid E n \<notin> x_id ` set (outbox_events d)"
    using 5 by (simp add: event_Inr d1 d2 d3 d4)
  show "\<And>s. s \<in> set (event_seats d) \<Longrightarrow> s_event s = ev \<Longrightarrow> s_id s \<in> set ids \<Longrightarrow> s_booked s = None"
    using chk by (auto simp: d2 d1 seat_check_def take_seat_def)
  show "distinct (map item_key (order_items d)) \<Longrightarrow> distinct (map item_key (order_items d'))"
    using insert_items_distinct [OF 4] 5 by (simp add: event_Inr d1 d2 d3)
  show "\<And>r. r \<in> set rows \<Longrightarrow> (ev, s_id r) \<in> seat_key ` set (event_seats d)"
    using insert_items_seats [OF 4] by (simp add: keys)
qed

section \<open>Releasing an order\<close>

definition released_seats :: "uuid \<Rightarrow> db \<Rightarrow> seat_id list" where
  "released_seats hold d =
     map s_id (filter (\<lambda>s. s_hold s = Some hold \<and> s_booked s = None) (event_seats d))"

lemma release_order_effect:
  assumes "release_order E n order state d = Inr d'"
  shows "d' = d\<lparr>event_seats := upd_where (\<lambda>s. s_hold s = Some (o_hold order) \<and> s_booked s = None)
        free_seat (event_seats d),
      holds := upd_where (\<lambda>h. h_id h = o_hold order \<and> h_status h = H_ACTIVE)
        (\<lambda>h. h\<lparr>h_status := state\<rparr>) (holds d),
      orders := upd_where (\<lambda>r. o_id r = o_id order \<and> o_status r = O_PENDING)
        (\<lambda>r. r\<lparr>o_status := O_EXPIRED\<rparr>) (orders d),
      outbox_events := outbox_events d @ [new_event E n (o_id order) ''SeatsChanged''
        (seats_payload (o_event order) (released_seats (o_hold order) d))]\<rparr>"
    and "e_uuid E n \<notin> x_id ` set (outbox_events d)"
  using assms
  by (auto simp: ebind_Inr_iff release_order_def update_seats_Inr event_Inr free_seat_def [abs_def]
      released_seats_def Let_def)

section \<open>Booking an order\<close>

definition new_bookings :: "env \<Rightarrow> nat \<Rightarrow> order_row \<Rightarrow> seat_row list \<Rightarrow> booking_row list" where
  "new_bookings E n order rows =
     map (\<lambda>(m, s). \<lparr>b_id = e_uuid E m, b_event = o_event order, b_seat = s_id s, b_order = o_id order\<rparr>)
       (zip [n..<n + length rows] rows)"

lemma new_bookings_Cons:
  "new_bookings E n order (s # ss) =
     \<lparr>b_id = e_uuid E n, b_event = o_event order, b_seat = s_id s, b_order = o_id order\<rparr>
     # new_bookings E (Suc n) order ss"
  by (simp add: new_bookings_def upt_conv_Cons del: upt_Suc)

lemma new_bookings_Nil [simp]: "new_bookings E n order [] = []"
  by (simp add: new_bookings_def)

lemma insert_booking_Inr:
  "insert_booking r d = Inr d' \<longleftrightarrow> b_id r \<notin> b_id ` set (bookings d) \<and>
     booking_key r \<notin> booking_key ` set (bookings d) \<and> b_order r \<in> o_id ` set (orders d) \<and>
     booking_key r \<in> seat_key ` set (event_seats d) \<and> d' = d\<lparr>bookings := bookings d @ [r]\<rparr>"
  by (auto simp: insert_booking_def)

lemma insert_bookings_eq:
  "insert_bookings E n order rows d = Inr d' \<Longrightarrow>
     d' = d\<lparr>bookings := bookings d @ new_bookings E n order rows\<rparr>"
  by (induction E n order rows d arbitrary: d' rule: insert_bookings.induct)
    (auto simp: ebind_Inr_iff insert_booking_Inr new_bookings_Cons)

lemma insert_bookings_distinct:
  assumes "insert_bookings E n order rows d = Inr d'" and "distinct (map booking_key (bookings d))"
    and "distinct (map b_id (bookings d))"
  shows "distinct (map booking_key (bookings d')) \<and> distinct (map b_id (bookings d'))"
  using assms
proof (induction E n order rows d arbitrary: d' rule: insert_bookings.induct)
  case (1 E n order d)
  then show ?case by simp
next
  case (2 E n order s ss d)
  from "2.prems"(1) show ?case
  proof (simp only: insert_bookings.simps, elim ebind_InrE)
    fix d1
    assume d1: "insert_booking \<lparr>b_id = e_uuid E n, b_event = o_event order, b_seat = s_id s,
        b_order = o_id order\<rparr> d = Inr d1"
      and rest: "insert_bookings E (Suc n) order ss d1 = Inr d'"
    have "distinct (map booking_key (bookings d1))" and "distinct (map b_id (bookings d1))"
      using d1 "2.prems"(2,3) by (auto simp: insert_booking_Inr)
    then show ?thesis by (rule "2.IH" [OF d1 rest])
  qed
qed

lemma insert_bookings_seats:
  "insert_bookings E n order rows d = Inr d' \<Longrightarrow> r \<in> set rows \<Longrightarrow>
     (o_event order, s_id r) \<in> seat_key ` set (event_seats d)"
  by (induction E n order rows d arbitrary: d' rule: insert_bookings.induct)
    (auto simp: ebind_Inr_iff insert_booking_Inr booking_key_def)

lemma book_order_effect:
  assumes "book_order E order hold rows d = Inr d'"
  shows "d' = d\<lparr>bookings := bookings d @ new_bookings E 3 order rows,
      event_seats := upd_where (\<lambda>s. s_hold s = Some hold) (sell_seat (o_id order)) (event_seats d),
      holds := upd_where (\<lambda>h. h_id h = hold) (\<lambda>h. h\<lparr>h_status := H_CONSUMED\<rparr>) (holds d),
      orders := upd_where (\<lambda>r. o_id r = o_id order) (\<lambda>r. r\<lparr>o_status := O_PAID\<rparr>) (orders d),
      outbox_events := outbox_events d @ [new_event E 0 (o_id order) ''OrderPaid''
        (JObj [(''order_id'', JStr (o_id order))])]\<rparr>"
    and "distinct (map booking_key (bookings d)) \<Longrightarrow> distinct (map b_id (bookings d)) \<Longrightarrow>
      distinct (map booking_key (bookings d')) \<and> distinct (map b_id (bookings d'))"
    and "\<And>r. r \<in> set rows \<Longrightarrow> (o_event order, s_id r) \<in> seat_key ` set (event_seats d)"
    and "e_uuid E 0 \<notin> x_id ` set (outbox_events d)"
proof -
  obtain d1 where d1: "insert_bookings E 3 order rows d = Inr d1"
    and eq: "d' = d1\<lparr>event_seats := upd_where (\<lambda>s. s_hold s = Some hold) (sell_seat (o_id order)) (event_seats d1),
      holds := upd_where (\<lambda>h. h_id h = hold) (\<lambda>h. h\<lparr>h_status := H_CONSUMED\<rparr>) (holds d1),
      orders := upd_where (\<lambda>r. o_id r = o_id order) (\<lambda>r. r\<lparr>o_status := O_PAID\<rparr>) (orders d1),
      outbox_events := outbox_events d1 @ [new_event E 0 (o_id order) ''OrderPaid''
        (JObj [(''order_id'', JStr (o_id order))])]\<rparr>"
    and x: "e_uuid E 0 \<notin> x_id ` set (outbox_events d1)"
    using assms
    by (auto simp: ebind_Inr_iff book_order_def update_seats_Inr event_Inr sell_seat_def [abs_def] Let_def)
  note eff = insert_bookings_eq [OF d1]
  show "d' = d\<lparr>bookings := bookings d @ new_bookings E 3 order rows,
      event_seats := upd_where (\<lambda>s. s_hold s = Some hold) (sell_seat (o_id order)) (event_seats d),
      holds := upd_where (\<lambda>h. h_id h = hold) (\<lambda>h. h\<lparr>h_status := H_CONSUMED\<rparr>) (holds d),
      orders := upd_where (\<lambda>r. o_id r = o_id order) (\<lambda>r. r\<lparr>o_status := O_PAID\<rparr>) (orders d),
      outbox_events := outbox_events d @ [new_event E 0 (o_id order) ''OrderPaid''
        (JObj [(''order_id'', JStr (o_id order))])]\<rparr>"
    by (simp add: eq eff)
  show "distinct (map booking_key (bookings d)) \<Longrightarrow> distinct (map b_id (bookings d)) \<Longrightarrow>
      distinct (map booking_key (bookings d')) \<and> distinct (map b_id (bookings d'))"
    using insert_bookings_distinct [OF d1] by (simp add: eq)
  show "\<And>r. r \<in> set rows \<Longrightarrow> (o_event order, s_id r) \<in> seat_key ` set (event_seats d)"
    by (rule insert_bookings_seats [OF d1])
  show "e_uuid E 0 \<notin> x_id ` set (outbox_events d)"
    using x by (simp add: eff)
qed

end
