(* ===== verification/Store_Inv.thy ===== *)
theory Store_Inv
  imports Store_Effects
begin

text \<open>
  The ownership invariant of the reservation store, and that every write keeps it.

  \<open>core_inv\<close> relates holds, orders, seats, order items and bookings: keys are unique, an order
  and its hold move through their states together, a seat that names a hold is an item of the
  order of that hold and the hold is still active, and a seat names a sold order exactly when
  there is a booking row for it.
\<close>

section \<open>The invariant\<close>

definition item_triples :: "db \<Rightarrow> (uuid \<times> uuid \<times> seat_id) set" where
  "item_triples d = (\<lambda>i. (i_order i, i_event i, i_seat i)) ` set (order_items d)"

definition booking_triples :: "db \<Rightarrow> (uuid \<times> uuid \<times> seat_id) set" where
  "booking_triples d = (\<lambda>b. (b_order b, b_event b, b_seat b)) ` set (bookings d)"

definition compat :: "order_status \<Rightarrow> hold_status \<Rightarrow> bool" where
  "compat os hs \<longleftrightarrow> (os = O_PENDING \<longleftrightarrow> hs = H_ACTIVE) \<and> (sold os \<longleftrightarrow> hs = H_CONSUMED)"

definition keys_inv :: "db \<Rightarrow> bool" where
  "keys_inv d \<longleftrightarrow> distinct (map h_id (holds d)) \<and> distinct (map o_id (orders d)) \<and>
     distinct (map o_hold (orders d)) \<and> distinct (map seat_key (event_seats d)) \<and>
     distinct (map item_key (order_items d)) \<and> distinct (map b_id (bookings d)) \<and>
     distinct (map booking_key (bookings d))"

definition order_inv :: "db \<Rightarrow> bool" where
  "order_inv d \<longleftrightarrow>
     (\<forall>r\<in>set (orders d). \<exists>h\<in>set (holds d). h_id h = o_hold r \<and> h_actor h = o_actor r \<and>
        h_event h = o_event r \<and> compat (o_status r) (h_status h)) \<and>
     h_id ` set (holds d) \<subseteq> o_hold ` set (orders d)"

definition seat_ok :: "db \<Rightarrow> seat_row \<Rightarrow> bool" where
  "seat_ok d s \<longleftrightarrow> seat_check s \<and>
     (\<forall>h. s_hold s = Some h \<longrightarrow>
        (\<exists>hr\<in>set (holds d). h_id hr = h \<and> h_status hr = H_ACTIVE \<and> s_until s = Some (h_expires hr)) \<and>
        (\<exists>r\<in>set (orders d). o_hold r = h \<and> (o_id r, s_event s, s_id s) \<in> item_triples d))"

definition seat_inv :: "db \<Rightarrow> bool" where
  "seat_inv d \<longleftrightarrow> (\<forall>s\<in>set (event_seats d). seat_ok d s)"

definition booking_inv :: "db \<Rightarrow> bool" where
  "booking_inv d \<longleftrightarrow>
     (\<forall>s\<in>set (event_seats d). \<forall>oid. s_booked s = Some oid \<longleftrightarrow> (oid, s_event s, s_id s) \<in> booking_triples d) \<and>
     booking_triples d \<subseteq> item_triples d \<and>
     (\<forall>r\<in>set (orders d). \<forall>e s. (o_id r, e, s) \<in> item_triples d \<longrightarrow>
        (sold (o_status r) \<longleftrightarrow> (o_id r, e, s) \<in> booking_triples d))"

definition item_inv :: "db \<Rightarrow> bool" where
  "item_inv d \<longleftrightarrow>
     (\<forall>i\<in>set (order_items d). item_seat i \<in> seat_key ` set (event_seats d) \<and>
        (\<exists>r\<in>set (orders d). o_id r = i_order i \<and> o_event r = i_event i)) \<and>
     (\<forall>r\<in>set (orders d). o_total r = sum_list (map i_price (filter (\<lambda>i. i_order i = o_id r) (order_items d))))"

definition core_inv :: "db \<Rightarrow> bool" where
  "core_inv d \<longleftrightarrow> keys_inv d \<and> order_inv d \<and> seat_inv d \<and> booking_inv d \<and> item_inv d"

lemmas core_inv_defs = core_inv_def keys_inv_def order_inv_def seat_inv_def booking_inv_def item_inv_def

text \<open>The invariant only looks at these tables.\<close>

lemma core_inv_cong:
  assumes "holds d = holds d'" "orders d = orders d'" "event_seats d = event_seats d'"
    "order_items d = order_items d'" "bookings d = bookings d'"
  shows "core_inv d = core_inv d'"
  using assms
  by (simp add: core_inv_defs seat_ok_def item_triples_def booking_triples_def)

lemma order_hold:
  assumes "core_inv d" and "r \<in> set (orders d)"
  obtains h where "h \<in> set (holds d)" and "h_id h = o_hold r" and "compat (o_status r) (h_status h)"
    and "h_event h = o_event r" and "h_actor h = o_actor r"
  using assms by (auto simp: core_inv_def order_inv_def)

lemma hold_unique:
  assumes "core_inv d" and "h \<in> set (holds d)" and "h' \<in> set (holds d)" and "h_id h = h_id h'"
  shows "h = h'"
  using assms key_unique [of h_id "holds d" h h'] by (simp add: core_inv_def keys_inv_def)

lemma order_unique:
  assumes "core_inv d" and "r \<in> set (orders d)" and "r' \<in> set (orders d)" and "o_id r = o_id r'"
  shows "r = r'"
  using assms key_unique [of o_id "orders d" r r'] by (simp add: core_inv_def keys_inv_def)

lemma order_unique_hold:
  assumes "core_inv d" and "r \<in> set (orders d)" and "r' \<in> set (orders d)" and "o_hold r = o_hold r'"
  shows "r = r'"
  using assms key_unique [of o_hold "orders d" r r'] by (simp add: core_inv_def keys_inv_def)

lemma seat_unique:
  assumes "core_inv d" and "s \<in> set (event_seats d)" and "s' \<in> set (event_seats d)"
    and "s_event s = s_event s'" and "s_id s = s_id s'"
  shows "s = s'"
  using assms key_unique [of seat_key "event_seats d" s s'] by (simp add: core_inv_def keys_inv_def seat_key_def)

lemma item_order:
  assumes "core_inv d" and "i \<in> set (order_items d)"
  shows "i_order i \<in> o_id ` set (orders d)"
proof -
  obtain r where "r \<in> set (orders d)" and "o_id r = i_order i"
    using assms by (auto simp: core_inv_def item_inv_def)
  then show ?thesis by (metis imageI)
qed

lemma item_triple_order:
  "core_inv d \<Longrightarrow> (oid, e, s) \<in> item_triples d \<Longrightarrow> oid \<in> o_id ` set (orders d)"
  by (auto simp: item_triples_def dest: item_order)

text \<open>An order whose seats are held is pending; nobody holds the seats of a closed order.\<close>

lemma held_seat_pending:
  assumes "core_inv d" and "r \<in> set (orders d)" and "s \<in> set (event_seats d)" and "s_hold s = Some (o_hold r)"
  shows "o_status r = O_PENDING" and "s_booked s = None" and "(o_id r, s_event s, s_id s) \<in> item_triples d"
proof -
  have ok: "seat_ok d s" using assms by (simp add: core_inv_def seat_inv_def)
  then obtain hr where hr: "hr \<in> set (holds d)" "h_id hr = o_hold r" "h_status hr = H_ACTIVE"
    using assms(4) by (auto simp: seat_ok_def)
  obtain h where h: "h \<in> set (holds d)" "h_id h = o_hold r" "compat (o_status r) (h_status h)"
    using order_hold [OF assms(1,2)] by metis
  have "h = hr" using hold_unique [OF assms(1)] h hr by simp
  with h hr show "o_status r = O_PENDING" by (simp add: compat_def)
  show "s_booked s = None" using ok assms(4) by (auto simp: seat_ok_def seat_check_def)
  obtain r' where "r' \<in> set (orders d)" "o_hold r' = o_hold r" "(o_id r', s_event s, s_id s) \<in> item_triples d"
    using ok assms(4) by (auto simp: seat_ok_def)
  then show "(o_id r, s_event s, s_id s) \<in> item_triples d"
    using order_unique_hold [OF assms(1)] assms(2) by metis
qed

text \<open>A seat stays well-formed when its hold stays as it is and orders and items only grow.\<close>

abbreviation order_links :: "db \<Rightarrow> (uuid \<times> uuid) set" where
  "order_links d \<equiv> (\<lambda>r. (o_hold r, o_id r)) ` set (orders d)"

lemma seat_ok_mono:
  assumes "seat_ok d s" and "item_triples d \<subseteq> item_triples d'"
    and "\<And>hr. hr \<in> set (holds d) \<Longrightarrow> s_hold s = Some (h_id hr) \<Longrightarrow> hr \<in> set (holds d')"
    and "order_links d \<subseteq> order_links d'"
  shows "seat_ok d' s"
proof -
  have "\<exists>r\<in>set (orders d'). o_hold r = h \<and> (o_id r, s_event s, s_id s) \<in> item_triples d'"
    if "r \<in> set (orders d)" "o_hold r = h" "(o_id r, s_event s, s_id s) \<in> item_triples d" for r h
  proof -
    have "(h, o_id r) \<in> order_links d'" using that assms(4) by force
    then show ?thesis using that assms(2) by force
  qed
  with assms(1,3) show ?thesis unfolding seat_ok_def by blast
qed

lemma item_inv_cong:
  assumes ords: "(\<lambda>r. (o_id r, o_event r, o_total r)) ` set (orders d') = (\<lambda>r. (o_id r, o_event r, o_total r)) ` set (orders d)"
    and "seat_key ` set (event_seats d') = seat_key ` set (event_seats d)"
    and "order_items d' = order_items d"
  shows "item_inv d' = item_inv d"
proof -
  have ball: "(\<forall>r\<in>set (orders x). o_total r = F (o_id r)) \<longleftrightarrow>
      (\<forall>(i, e, t)\<in>(\<lambda>r. (o_id r, o_event r, o_total r)) ` set (orders x). t = F i)" for x F
    by auto
  have bex: "(\<exists>r\<in>set (orders x). o_id r = i \<and> o_event r = e) \<longleftrightarrow>
      (\<exists>t. (i, e, t) \<in> (\<lambda>r. (o_id r, o_event r, o_total r)) ` set (orders x))" for x i e
    by auto
  have same: "(\<forall>r\<in>set (orders d'). o_total r = F (o_id r)) \<longleftrightarrow> (\<forall>r\<in>set (orders d). o_total r = F (o_id r))" for F
    unfolding ball ords ..
  show ?thesis
    unfolding item_inv_def bex assms(2,3) ords
    using same [of "\<lambda>x. sum_list (map i_price (filter (\<lambda>i. i_order i = x) (order_items d)))"] by simp
qed

section \<open>Creating a hold\<close>

lemma select_seats_set:
  "s \<in> set (select_seats ev ids d) \<longleftrightarrow> s \<in> set (event_seats d) \<and> s_event s = ev \<and> s_id s \<in> set ids"
  by (auto simp: select_seats_def)

lemma new_items_triples:
  "(\<lambda>i. (i_order i, i_event i, i_seat i)) ` set (new_items order ev rows) = {(order, ev, s_id r) | r. r \<in> set rows}"
  by (auto simp: new_items_def image_image)

lemma create_hold_core:
  assumes inv: "core_inv d"
    and c: "create_hold E n actor ev cur hold order expires (select_seats ev ids d) ids d = Inr d'"
  shows "core_inv d'"
proof -
  let ?rows = "select_seats ev ids d"
  note eff = create_hold_effect [OF c]
  note d' = eff(1) [THEN arg_cong, of holds, simplified] eff(1) [THEN arg_cong, of orders, simplified]
    eff(1) [THEN arg_cong, of event_seats, simplified] eff(1) [THEN arg_cong, of order_items, simplified]
    eff(1) [THEN arg_cong, of bookings, simplified]
  have it: "item_triples d' = item_triples d \<union> {(order, ev, s_id r) | r. r \<in> set ?rows}"
    by (simp add: d' item_triples_def image_Un new_items_triples)
  have bk: "booking_triples d' = booking_triples d"
    by (simp add: d' booking_triples_def)
  have noitem: "(order, e, s) \<notin> item_triples d" for e s
    using item_triple_order [OF inv] eff(4) by blast
  have keys: "keys_inv d'"
    using inv eff(2,4,5,9)
    by (simp add: core_inv_def keys_inv_def d' new_row_defs upd_where_cong_key)
  have ord: "order_inv d'"
  proof -
    have "\<exists>h\<in>set (holds d'). h_id h = o_hold r \<and> h_actor h = o_actor r \<and> h_event h = o_event r \<and>
        compat (o_status r) (h_status h)" if "r \<in> set (orders d')" for r
    proof (cases "r \<in> set (orders d)")
      case True
      then show ?thesis using inv by (simp add: core_inv_def order_inv_def d')
    next
      case False
      then show ?thesis using that by (simp add: d' new_hold_def new_order_def compat_def)
    qed
    moreover have "h_id ` set (holds d') \<subseteq> o_hold ` set (orders d')"
    proof -
      have "h_id ` set (holds d) \<subseteq> o_hold ` set (orders d)"
        using inv by (simp add: core_inv_def order_inv_def)
      then show ?thesis by (auto simp: d' new_hold_def new_order_def)
    qed
    ultimately show ?thesis unfolding order_inv_def by blast
  qed
  have seat: "seat_ok d' s'" if s': "s' \<in> set (event_seats d')" for s'
  proof -
    from s' have "s' \<in> set (upd_where (\<lambda>s. s_event s = ev \<and> s_id s \<in> set ids)
        (take_seat hold expires) (event_seats d))"
      by (simp add: d')
    then show ?thesis
    proof (cases rule: in_upd_whereE)
      case old
      then have "seat_ok d s'" using inv by (simp add: core_inv_def seat_inv_def)
      then show ?thesis by (rule seat_ok_mono) (auto simp: d' it)
    next
      case (new s)
      then have "s \<in> set ?rows" by (simp add: select_seats_set)
      with new eff(8) [of s] show ?thesis
        by (auto simp: seat_ok_def seat_check_def it d' new_row_defs take_seat_def)
    qed
  qed
  have book: "booking_inv d'"
    using inv eff(4) noitem
    by (auto simp: core_inv_def booking_inv_def it bk d' new_row_defs set_upd_where take_seat_def)
  have item: "item_inv d'"
  proof -
    have f: "filter (\<lambda>i. i_order i = order) (order_items d) = []"
      using item_order [OF inv] eff(4) by (auto simp: filter_empty_conv)
    have g: "filter (\<lambda>i. i_order i = x) (new_items order ev ?rows) = (if x = order then new_items order ev ?rows else [])" for x
      by (auto simp: new_items_def filter_empty_conv)
    have t: "map i_price (new_items order ev ?rows) = map s_price ?rows"
      by (simp add: new_items_def)
    have k: "seat_key ` set (event_seats d') = seat_key ` set (event_seats d)"
      by (simp add: d' image_upd_where)
    have "item_seat i \<in> seat_key ` set (event_seats d') \<and> (\<exists>r\<in>set (orders d'). o_id r = i_order i \<and> o_event r = i_event i)"
      if "i \<in> set (order_items d')" for i
      using that inv eff(10) unfolding k
      by (auto simp: d' core_inv_def item_inv_def new_items_def new_order_def item_seat_def)
    moreover have "o_total r = sum_list (map i_price (filter (\<lambda>i. i_order i = o_id r) (order_items d')))"
      if "r \<in> set (orders d')" for r
      using that inv eff(4) by (auto simp: d' core_inv_def item_inv_def f g t new_order_def)
    ultimately show ?thesis by (simp add: item_inv_def)
  qed
  from keys ord seat book item show ?thesis by (simp add: core_inv_def seat_inv_def)
qed

section \<open>Releasing and changing the state of an order\<close>

lemma release_order_core:
  assumes inv: "core_inv d" and r0: "r0 \<in> set (orders d)" "o_id r0 = o_id order" "o_hold r0 = o_hold order"
    and ns: "\<not> sold (o_status r0)" and st: "state = H_RELEASED \<or> state = H_EXPIRED"
    and rel: "release_order E n order state d = Inr d'"
  shows "core_inv d'"
proof -
  note eff = release_order_effect(1) [OF rel]
  note d' = eff [THEN arg_cong, of holds, simplified] eff [THEN arg_cong, of orders, simplified]
    eff [THEN arg_cong, of event_seats, simplified] eff [THEN arg_cong, of order_items, simplified]
    eff [THEN arg_cong, of bookings, simplified]
  have it: "item_triples d' = item_triples d" and bk: "booking_triples d' = booking_triples d"
    by (simp_all add: item_triples_def booking_triples_def d')
  have only: "r = r0" if "r \<in> set (orders d)" "o_id r = o_id order \<or> o_hold r = o_hold order" for r
    using that r0 order_unique [OF inv that(1)] order_unique_hold [OF inv that(1)] by metis
  have keys: "keys_inv d'"
    using inv by (simp add: core_inv_def keys_inv_def d' upd_where_cong_key)
  have seat: "seat_ok d' s'" if "s' \<in> set (event_seats d')" for s'
  proof -
    from that have "s' \<in> set (upd_where (\<lambda>s. s_hold s = Some (o_hold order) \<and> s_booked s = None)
        free_seat (event_seats d))"
      by (simp add: d')
    then show ?thesis
    proof (cases rule: in_upd_whereE)
      case old
      then have ok: "seat_ok d s'" using inv by (simp add: core_inv_def seat_inv_def)
      then have "s_hold s' \<noteq> Some (o_hold order)"
        using old(2) by (auto simp: seat_ok_def seat_check_def)
      with ok show ?thesis
        by (intro seat_ok_mono [OF ok]) (simp_all add: d' it image_upd_where, auto simp: set_upd_where)
    next
      case (new s)
      then show ?thesis by (simp add: seat_ok_def seat_check_def free_seat_def)
    qed
  qed
  have ord: "order_inv d'"
  proof -
    have "\<exists>h\<in>set (holds d'). h_id h = o_hold r' \<and> h_actor h = o_actor r' \<and> h_event h = o_event r' \<and>
        compat (o_status r') (h_status h)" if r': "r' \<in> set (orders d')" for r'
    proof -
      obtain r where r: "r \<in> set (orders d)"
        and r'eq: "r' = (if o_id r = o_id order \<and> o_status r = O_PENDING then r\<lparr>o_status := O_EXPIRED\<rparr> else r)"
        using r' by (auto simp: d' set_upd_where)
      obtain h where h: "h \<in> set (holds d)" "h_id h = o_hold r" "compat (o_status r) (h_status h)"
        "h_event h = o_event r" "h_actor h = o_actor r"
        using order_hold [OF inv r] by metis
      have "h_id h = o_hold order \<longleftrightarrow> o_id r = o_id order"
        using only [OF r] r0 h by metis
      then show ?thesis
        using upd_where_mem [OF h(1), of "\<lambda>h. h_id h = o_hold order \<and> h_status h = H_ACTIVE" "\<lambda>h. h\<lparr>h_status := state\<rparr>"]
          h st
        by (intro bexI [of _ "if h_id h = o_hold order \<and> h_status h = H_ACTIVE then h\<lparr>h_status := state\<rparr> else h"])
          (auto simp: d' r'eq compat_def)
    qed
    moreover have "h_id ` set (holds d') = h_id ` set (holds d)" "o_hold ` set (orders d') = o_hold ` set (orders d)"
      by (simp_all add: d' image_upd_where)
    ultimately show ?thesis
      using inv by (auto simp: order_inv_def core_inv_def)
  qed
  have book: "booking_inv d'"
    using inv by (auto simp: core_inv_def booking_inv_def it bk d' set_upd_where free_seat_def)
  have item: "item_inv d'"
    using inv item_inv_cong [of d' d] by (simp add: core_inv_def d' image_upd_where)
  from keys ord seat book item show ?thesis by (simp add: core_inv_def seat_inv_def)
qed

text \<open>Any other change of an order's state that neither opens, closes nor sells it.\<close>

definition same_phase :: "order_status \<Rightarrow> order_status \<Rightarrow> bool" where
  "same_phase s s' \<longleftrightarrow> (s = O_PENDING \<longleftrightarrow> s' = O_PENDING) \<and> (sold s \<longleftrightarrow> sold s')"

lemma set_status_core:
  assumes inv: "core_inv d"
    and eff: "d' = d\<lparr>orders := upd_where P (\<lambda>r. r\<lparr>o_status := st\<rparr>) (orders d)\<rparr>"
    and ph: "\<And>r. r \<in> set (orders d) \<Longrightarrow> P r \<Longrightarrow> same_phase (o_status r) st"
  shows "core_inv d'"
proof -
  note d' = eff [THEN arg_cong, of holds, simplified] eff [THEN arg_cong, of orders, simplified]
    eff [THEN arg_cong, of event_seats, simplified] eff [THEN arg_cong, of order_items, simplified]
    eff [THEN arg_cong, of bookings, simplified]
  have it: "item_triples d' = item_triples d" and bk: "booking_triples d' = booking_triples d"
    by (simp_all add: item_triples_def booking_triples_def d')
  have "keys_inv d'"
    using inv by (simp add: core_inv_def keys_inv_def d' upd_where_cong_key)
  moreover have "order_inv d'"
  proof -
    have "\<exists>h\<in>set (holds d). h_id h = o_hold r' \<and> h_actor h = o_actor r' \<and> h_event h = o_event r' \<and>
        compat (o_status r') (h_status h)" if r'in: "r' \<in> set (orders d')" for r'
    proof -
      obtain r where r: "r \<in> set (orders d)" and r': "r' = (if P r then r\<lparr>o_status := st\<rparr> else r)"
        using r'in by (auto simp: d' set_upd_where)
      show ?thesis
        using order_hold [OF inv r] ph [OF r] r' by (auto simp: compat_def same_phase_def)
    qed
    moreover have "o_hold ` set (orders d') = o_hold ` set (orders d)"
      by (simp add: d' image_upd_where)
    ultimately show ?thesis using inv by (simp add: core_inv_def order_inv_def d')
  qed
  moreover have "seat_ok d' s" if "seat_ok d s" for s
    using that by (rule seat_ok_mono) (simp_all add: it d' image_upd_where)
  moreover have "booking_inv d'"
    using inv ph by (auto simp: core_inv_def booking_inv_def it bk d' set_upd_where same_phase_def)
  moreover have "item_inv d'"
    using inv item_inv_cong [of d' d] by (simp add: core_inv_def d' image_upd_where)
  ultimately show ?thesis
    using inv by (simp add: core_inv_def seat_inv_def d')
qed

end
