(* ===== verification/Store_Book.thy ===== *)
theory Store_Book
  imports Store_Inv
begin

text \<open>
  Booking an order keeps the ownership invariant: the seats that name the order's hold are
  exactly the seats of its items, so the booking rows and the seats' new owners agree.
\<close>

lemma order_seats_set:
  "s \<in> set (order_seats oid d) \<longleftrightarrow> s \<in> set (event_seats d) \<and> (oid, s_event s, s_id s) \<in> item_triples d"
proof -
  have "(oid, s_event s, s_id s) \<in> item_triples d \<longleftrightarrow>
      (\<exists>i\<in>set (order_items d). i_event i = s_event s \<and> i_seat i = s_id s \<and> i_order i = oid)"
    unfolding item_triples_def by (auto simp: image_iff)
  then show ?thesis by (auto simp: order_seats_def filter_empty_conv)
qed

lemma all_held_True:
  "all_held h now rows = Inr True \<longleftrightarrow>
     (\<forall>s\<in>set rows. s_hold s = Some h \<and> s_booked s = None \<and> (\<exists>t. s_until s = Some t \<and> now < t))"
  by (induction h now rows rule: all_held.induct) (auto split: option.splits)

lemma valid_hold_True:
  "valid_hold now hold rows = Inr True \<longleftrightarrow>
     rows \<noteq> [] \<and> (\<exists>h. hold = Some h \<and> h_status h = H_ACTIVE \<and> now < h_expires h \<and>
       all_held (h_id h) now rows = Inr True)"
  by (auto simp: valid_hold_def ebind_Inr_iff)

lemma item_event:
  assumes "core_inv d" and "r \<in> set (orders d)" and "(o_id r, e, s) \<in> item_triples d"
  shows "e = o_event r"
proof -
  from assms(3) obtain i where i: "i \<in> set (order_items d)" "i_order i = o_id r" "i_event i = e"
    by (auto simp: item_triples_def)
  then obtain r' where "r' \<in> set (orders d)" "o_id r' = o_id r" "o_event r' = e"
    using assms(1) by (auto simp: core_inv_def item_inv_def)
  then show ?thesis using order_unique [OF assms(1)] assms(2) by metis
qed

lemma item_has_seat:
  assumes "core_inv d" and "(oid, e, s) \<in> item_triples d"
  obtains st where "st \<in> set (event_seats d)" and "s_event st = e" and "s_id st = s"
proof -
  from assms(2) obtain i where i: "i \<in> set (order_items d)" "i_event i = e" "i_seat i = s"
    by (auto simp: item_triples_def)
  then have "(e, s) \<in> seat_key ` set (event_seats d)"
    using assms(1) by (auto simp: core_inv_def item_inv_def item_seat_def)
  then show ?thesis using that by (auto simp: seat_key_def)
qed

lemma new_bookings_triples:
  "(\<lambda>b. (b_order b, b_event b, b_seat b)) ` set (new_bookings E n order rows)
     = {(o_id order, o_event order, s_id r) | r. r \<in> set rows}"
  by (induction rows arbitrary: n) (auto simp: new_bookings_Cons)

lemma book_order_core:
  assumes inv: "core_inv d" and ord: "order \<in> set (orders d)" and pend: "o_status order = O_PENDING"
    and rows: "rows = order_seats (o_id order) d"
    and held: "\<And>s. s \<in> set rows \<Longrightarrow> s_hold s = Some (o_hold order) \<and> s_booked s = None"
    and book: "book_order E order (o_hold order) rows d = Inr d'"
  shows "core_inv d'"
proof -
  note eff = book_order_effect [OF book]
  note d' = eff(1) [THEN arg_cong, of holds, simplified] eff(1) [THEN arg_cong, of orders, simplified]
    eff(1) [THEN arg_cong, of event_seats, simplified] eff(1) [THEN arg_cong, of order_items, simplified]
    eff(1) [THEN arg_cong, of bookings, simplified]
  have it: "item_triples d' = item_triples d" by (simp add: item_triples_def d')
  have ev: "s_event s = o_event order" if "s \<in> set rows" for s
    using that item_event [OF inv ord] by (auto simp: rows order_seats_set)
  have bk: "booking_triples d' = booking_triples d \<union> {(o_id order, s_event s, s_id s) | s. s \<in> set rows}"
  proof -
    have "{(o_id order, o_event order, s_id s) | s. s \<in> set rows} = {(o_id order, s_event s, s_id s) | s. s \<in> set rows}"
      using ev by (metis (no_types, lifting))
    then show ?thesis by (simp add: booking_triples_def d' image_Un new_bookings_triples)
  qed
  have rows_iff: "s \<in> set rows \<longleftrightarrow> s_hold s = Some (o_hold order)" if "s \<in> set (event_seats d)" for s
    using that held held_seat_pending(3) [OF inv ord that] by (auto simp: rows order_seats_set)
  have only: "r = order" if "r \<in> set (orders d)" "o_id r = o_id order \<or> o_hold r = o_hold order" for r
    using that ord order_unique [OF inv that(1)] order_unique_hold [OF inv that(1)] by metis
  have keys: "keys_inv d'"
    using inv eff(2) by (simp add: core_inv_def keys_inv_def d' upd_where_cong_key)
  have seat: "seat_ok d' s'" if s': "s' \<in> set (event_seats d')" for s'
  proof -
    from s' have "s' \<in> set (upd_where (\<lambda>s. s_hold s = Some (o_hold order)) (sell_seat (o_id order)) (event_seats d))"
      by (simp add: d')
    then show ?thesis
    proof (cases rule: in_upd_whereE)
      case old
      then have ok: "seat_ok d s'" using inv by (simp add: core_inv_def seat_inv_def)
      with old show ?thesis
        by (intro seat_ok_mono [OF ok]) (simp_all add: d' it image_upd_where, auto simp: set_upd_where)
    next
      case (new s)
      then show ?thesis by (simp add: seat_ok_def seat_check_def sell_seat_def)
    qed
  qed
  have orders: "order_inv d'"
  proof -
    have "\<exists>h\<in>set (holds d'). h_id h = o_hold r' \<and> h_actor h = o_actor r' \<and> h_event h = o_event r' \<and>
        compat (o_status r') (h_status h)" if r': "r' \<in> set (orders d')" for r'
    proof -
      obtain r where r: "r \<in> set (orders d)" and r'eq: "r' = (if o_id r = o_id order then r\<lparr>o_status := O_PAID\<rparr> else r)"
        using r' by (auto simp: d' set_upd_where)
      obtain h where h: "h \<in> set (holds d)" "h_id h = o_hold r" "compat (o_status r) (h_status h)"
        "h_event h = o_event r" "h_actor h = o_actor r"
        using order_hold [OF inv r] by metis
      have "h_id h = o_hold order \<longleftrightarrow> o_id r = o_id order"
        using only [OF r] h by metis
      then show ?thesis
        using upd_where_mem [OF h(1), of "\<lambda>h. h_id h = o_hold order" "\<lambda>h. h\<lparr>h_status := H_CONSUMED\<rparr>"] h
        by (intro bexI [of _ "if h_id h = o_hold order then h\<lparr>h_status := H_CONSUMED\<rparr> else h"])
          (auto simp: d' r'eq compat_def)
    qed
    moreover have "h_id ` set (holds d') = h_id ` set (holds d)" "o_hold ` set (orders d') = o_hold ` set (orders d)"
      by (simp_all add: d' image_upd_where)
    ultimately show ?thesis using inv by (simp add: order_inv_def core_inv_def)
  qed
  have bookings: "booking_inv d'"
  proof -
    have old: "s_booked s = Some oid \<longleftrightarrow> (oid, s_event s, s_id s) \<in> booking_triples d"
      if "s \<in> set (event_seats d)" for s oid
      using that inv by (simp add: core_inv_def booking_inv_def)
    have new: "(oid, s_event s, s_id s) \<in> {(o_id order, s_event s, s_id s) | s. s \<in> set rows} \<longleftrightarrow>
        oid = o_id order \<and> s_hold s = Some (o_hold order)" if "s \<in> set (event_seats d)" for s oid
      using that seat_unique [OF inv that] rows_iff [OF that] by (auto simp: rows order_seats_set)
    have 1: "s_booked s' = Some oid \<longleftrightarrow> (oid, s_event s', s_id s') \<in> booking_triples d'"
      if s': "s' \<in> set (event_seats d')" for s' oid
    proof -
      obtain s where s: "s \<in> set (event_seats d)"
        and s'eq: "s' = (if s_hold s = Some (o_hold order) then sell_seat (o_id order) s else s)"
        using s' by (auto simp: d' set_upd_where)
      have "s_hold s = Some (o_hold order) \<Longrightarrow> s_booked s = None"
        using held rows_iff [OF s] by blast
      moreover have "s_event s' = s_event s" "s_id s' = s_id s"
        by (simp_all add: s'eq sell_seat_def)
      ultimately show ?thesis
        unfolding bk Un_iff using old [OF s, of oid] new [OF s, of oid] by (auto simp: s'eq sell_seat_def)
    qed
    have 2: "booking_triples d' \<subseteq> item_triples d'"
      using inv by (auto simp: it bk core_inv_def booking_inv_def rows order_seats_set)
    have 3: "sold (o_status r') \<longleftrightarrow> (o_id r', e, s) \<in> booking_triples d'"
      if r': "r' \<in> set (orders d')" and tr: "(o_id r', e, s) \<in> item_triples d'" for r' e s
    proof -
      obtain r where r: "r \<in> set (orders d)" and r'eq: "r' = (if o_id r = o_id order then r\<lparr>o_status := O_PAID\<rparr> else r)"
        using r' by (auto simp: d' set_upd_where)
      have tr': "(o_id r, e, s) \<in> item_triples d" using tr by (simp add: it r'eq split: if_splits)
      show ?thesis
      proof (cases "o_id r = o_id order")
        case True
        obtain st where "st \<in> set (event_seats d)" "s_event st = e" "s_id st = s"
          using item_has_seat [OF inv tr'] by metis
        then have "st \<in> set rows" using tr' True by (simp add: rows order_seats_set)
        with True \<open>s_event st = e\<close> \<open>s_id st = s\<close> show ?thesis by (auto simp: bk r'eq)
      next
        case False
        then show ?thesis using inv r tr' by (simp add: bk r'eq core_inv_def booking_inv_def)
      qed
    qed
    from 1 2 3 show ?thesis unfolding booking_inv_def by blast
  qed
  have item: "item_inv d'"
    using inv item_inv_cong [of d' d] by (simp add: core_inv_def d' image_upd_where)
  from keys orders seat bookings item show ?thesis by (simp add: core_inv_def seat_inv_def)
qed

end
