(* ===== verification/Store_Money.thy ===== *)
theory Store_Money
  imports Store_Book
begin

text \<open>
  The financial invariant: payments, refunds, outbox events and tickets against the fate of
  their order.  \<open>fate\<close> is the settled state of an order, if it has one: sold (\<open>PAID\<close>,
  \<open>FULFILLED\<close>) or being refunded (\<open>REFUND_PENDING\<close>, \<open>REFUNDED\<close>).  Reserving, releasing and
  expiring never change any order's fate; a callback gives one to an order that had none.
\<close>

fun fin :: "order_status \<Rightarrow> order_status option" where
  "fin O_PAID = Some O_PAID"
| "fin O_FULFILLED = Some O_FULFILLED"
| "fin O_REFUND_PENDING = Some O_REFUND_PENDING"
| "fin O_REFUNDED = Some O_REFUNDED"
| "fin _ = None"

definition fate :: "db \<Rightarrow> uuid \<Rightarrow> order_status option" where
  "fate d oid = (case find_order oid d of None \<Rightarrow> None | Some r \<Rightarrow> fin (o_status r))"

abbreviation sold_fate :: "order_status option \<Rightarrow> bool" where
  "sold_fate f \<equiv> f = Some O_PAID \<or> f = Some O_FULFILLED"

abbreviation refund_fate :: "order_status option \<Rightarrow> bool" where
  "refund_fate f \<equiv> f = Some O_REFUND_PENDING \<or> f = Some O_REFUNDED"

definition pay_inv :: "db \<Rightarrow> bool" where
  "pay_inv d \<longleftrightarrow>
     distinct (map p_id (payment_attempts d)) \<and> distinct (map p_order (payment_attempts d)) \<and>
     distinct (map c_id (payment_callbacks d)) \<and>
     p_order ` set (payment_attempts d) \<subseteq> o_id ` set (orders d) \<and>
     (\<forall>p\<in>set (payment_attempts d). p_status p = P_SUCCEEDED \<longleftrightarrow> fate d (p_order p) \<noteq> None) \<and>
     (\<forall>oid. fate d oid \<noteq> None \<longrightarrow> oid \<in> p_order ` set (payment_attempts d)) \<and>
     (\<forall>q\<in>set (refund_requests d). \<exists>p\<in>set (payment_attempts d). p_id p = r_payment q \<and> p_order p = r_order q) \<and>
     distinct (map r_payment (refund_requests d)) \<and>
     (\<forall>oid. oid \<in> r_order ` set (refund_requests d) \<longleftrightarrow> refund_fate (fate d oid))"

lemma pay_invD:
  assumes "pay_inv d"
  shows "distinct (map p_id (payment_attempts d))" "distinct (map p_order (payment_attempts d))"
    "distinct (map c_id (payment_callbacks d))"
    "p_order ` set (payment_attempts d) \<subseteq> o_id ` set (orders d)"
    "\<And>p. p \<in> set (payment_attempts d) \<Longrightarrow> p_status p = P_SUCCEEDED \<longleftrightarrow> fate d (p_order p) \<noteq> None"
    "\<And>oid. fate d oid \<noteq> None \<Longrightarrow> oid \<in> p_order ` set (payment_attempts d)"
    "\<And>q. q \<in> set (refund_requests d) \<Longrightarrow> \<exists>p\<in>set (payment_attempts d). p_id p = r_payment q \<and> p_order p = r_order q"
    "distinct (map r_payment (refund_requests d))"
    "\<And>oid. oid \<in> r_order ` set (refund_requests d) \<longleftrightarrow> refund_fate (fate d oid)"
  using assms by (simp_all add: pay_inv_def)

definition money_event :: "string \<Rightarrow> bool" where
  "money_event k \<longleftrightarrow> k = ''OrderPaid'' \<or> k = ''RefundRequested''"

definition event_ok :: "db \<Rightarrow> outbox_row \<Rightarrow> bool" where
  "event_ok d x \<longleftrightarrow>
     (x_type x = ''OrderPaid'' \<longrightarrow> sold_fate (fate d (x_aggregate x)) \<and>
        jget ''order_id'' (x_payload x) = Some (JStr (x_aggregate x))) \<and>
     (x_type x = ''RefundRequested'' \<longrightarrow> refund_fate (fate d (x_aggregate x)) \<and>
        jget ''order_id'' (x_payload x) = Some (JStr (x_aggregate x)) \<and>
        (\<exists>q\<in>set (refund_requests d). r_order q = x_aggregate x \<and>
           jget ''payment_id'' (x_payload x) = Some (JStr (r_payment q))))"

definition event_inv :: "db \<Rightarrow> bool" where
  "event_inv d \<longleftrightarrow> distinct (map x_id (outbox_events d)) \<and>
     (\<forall>x\<in>set (outbox_events d). event_ok d x) \<and>
     (\<forall>oid. sold_fate (fate d oid) \<longrightarrow>
        (\<exists>x\<in>set (outbox_events d). x_type x = ''OrderPaid'' \<and> x_aggregate x = oid)) \<and>
     (\<forall>oid. refund_fate (fate d oid) \<longrightarrow>
        (\<exists>x\<in>set (outbox_events d). x_type x = ''RefundRequested'' \<and> x_aggregate x = oid))"

definition ticket_inv :: "db \<Rightarrow> bool" where
  "ticket_inv d \<longleftrightarrow> distinct (map t_id (tickets d)) \<and> distinct (map t_booking (tickets d)) \<and>
     t_booking ` set (tickets d) \<subseteq> b_id ` set (bookings d) \<and>
     (\<forall>b\<in>set (bookings d). fate d (b_order b) = Some O_FULFILLED \<longrightarrow> b_id b \<in> t_booking ` set (tickets d))"

text \<open>Every committed idempotency record carries its response.\<close>

definition idem_inv :: "db \<Rightarrow> bool" where
  "idem_inv d \<longleftrightarrow> distinct (map idem_key (idempotency_records d)) \<and>
     (\<forall>k\<in>set (idempotency_records d). k_response k \<noteq> None)"

definition store_inv :: "db \<Rightarrow> bool" where
  "store_inv d \<longleftrightarrow> core_inv d \<and> pay_inv d \<and> event_inv d \<and> ticket_inv d \<and> idem_inv d"

section \<open>How the fate of an order changes\<close>

lemma fin_None_iff: "fin s = None \<longleftrightarrow> s \<in> {O_PENDING, O_FAILED, O_EXPIRED}"
  by (cases s) auto

lemma fate_order:
  assumes "core_inv d" and "r \<in> set (orders d)"
  shows "fate d (o_id r) = fin (o_status r)"
proof -
  have "find_order (o_id r) d = Some r"
    using assms by (simp add: find_order_def find_key_iff core_inv_def keys_inv_def)
  then show ?thesis by (simp add: fate_def)
qed

lemma fate_cong: "orders d' = orders d \<Longrightarrow> fate d' = fate d"
  by (simp add: fate_def find_order_def fun_eq_iff)

lemma fate_upd:
  assumes "orders d' = upd_where (\<lambda>r. o_id r = oid \<and> Q r) (\<lambda>r. r\<lparr>o_status := st\<rparr>) (orders d)"
  shows "fate d' x = (case find_order x d of None \<Rightarrow> None
     | Some r \<Rightarrow> if x = oid \<and> Q r then fin st else fin (o_status r))"
proof -
  have "find_order x d' = map_option (\<lambda>r. if o_id r = oid \<and> Q r then r\<lparr>o_status := st\<rparr> else r) (find_order x d)"
    by (simp add: find_order_def assms find_upd_where)
  moreover have "find_order x d = Some r \<Longrightarrow> o_id r = x" for r
    using find_Some_mem by (fastforce simp: find_order_def)
  ultimately show ?thesis by (auto simp: fate_def split: option.splits)
qed

lemma fate_set_status:
  assumes "orders d' = upd_where (\<lambda>r. o_id r = oid) (\<lambda>r. r\<lparr>o_status := st\<rparr>) (orders d)"
    and "oid \<in> o_id ` set (orders d)"
  shows "fate d' = (fate d)(oid := fin st)"
proof
  fix x
  have "find_order oid d \<noteq> None"
    using assms(2) by (simp add: find_order_def find_key_None [where key = o_id])
  then show "fate d' x = ((fate d)(oid := fin st)) x"
    using fate_upd [where Q = "\<lambda>_. True" and d = d and d' = d' and oid = oid and st = st] assms(1)
    by (auto simp: fate_def split: option.splits)
qed

lemma fate_expire:
  assumes "orders d' = upd_where (\<lambda>r. o_id r = oid \<and> o_status r = O_PENDING)
      (\<lambda>r. r\<lparr>o_status := O_EXPIRED\<rparr>) (orders d)"
  shows "fate d' = fate d"
  using fate_upd [OF assms] by (auto simp: fate_def fun_eq_iff split: option.splits)

lemma fate_insert:
  assumes "orders d' = orders d @ [r]" and "fin (o_status r) = None"
  shows "fate d' = fate d"
proof -
  have "find P (xs @ [y]) = (case find P xs of Some z \<Rightarrow> Some z | None \<Rightarrow> if P y then Some y else None)"
    for P and xs :: "order_row list" and y
    by (induction xs) auto
  then show ?thesis using assms by (auto simp: fate_def find_order_def fun_eq_iff split: option.splits)
qed

section \<open>Changes that leave every fate alone\<close>

lemma pay_inv_cong:
  assumes "fate d' = fate d" "payment_attempts d' = payment_attempts d"
    "payment_callbacks d' = payment_callbacks d" "refund_requests d' = refund_requests d"
    "o_id ` set (orders d) \<subseteq> o_id ` set (orders d')"
  shows "pay_inv d \<Longrightarrow> pay_inv d'"
  using assms order_trans [of "p_order ` set (payment_attempts d)" "o_id ` set (orders d)" "o_id ` set (orders d')"]
  by (simp add: pay_inv_def)

lemma event_inv_append:
  assumes "fate d' = fate d" "refund_requests d' = refund_requests d"
    "outbox_events d' = outbox_events d @ xs" "distinct (map x_id (outbox_events d'))"
    "\<And>x. x \<in> set xs \<Longrightarrow> \<not> money_event (x_type x)"
  shows "event_inv d \<Longrightarrow> event_inv d'"
  using assms unfolding event_inv_def event_ok_def money_event_def by auto

lemma event_inv_same:
  assumes "fate d' = fate d" "refund_requests d' = refund_requests d" "outbox_events d' = outbox_events d"
  shows "event_inv d' = event_inv d"
  using assms by (simp add: event_inv_def event_ok_def)

lemma ticket_inv_cong:
  assumes "fate d' = fate d" "tickets d' = tickets d" "bookings d' = bookings d"
  shows "ticket_inv d' = ticket_inv d"
  using assms by (simp add: ticket_inv_def)

lemma idem_inv_cong:
  "idempotency_records d' = idempotency_records d \<Longrightarrow> idem_inv d' = idem_inv d"
  by (simp add: idem_inv_def)

lemma new_event_sel [simp]:
  "x_id (new_event E n agg kind payload) = e_uuid E n"
  "x_type (new_event E n agg kind payload) = kind"
  "x_aggregate (new_event E n agg kind payload) = agg"
  "x_payload (new_event E n agg kind payload) = jset ''correlation_id'' (e_request_id E) payload"
  by (simp_all add: new_event_def)

text \<open>The invariant with the idempotency table left out: what the transactions keep in between.\<close>

definition money_inv :: "db \<Rightarrow> bool" where
  "money_inv d \<longleftrightarrow> core_inv d \<and> pay_inv d \<and> event_inv d \<and> ticket_inv d"

lemma store_inv_iff: "store_inv d \<longleftrightarrow> money_inv d \<and> idem_inv d"
  by (auto simp: store_inv_def money_inv_def)

lemma money_inv_cong:
  assumes "holds d' = holds d" "orders d' = orders d" "event_seats d' = event_seats d"
    "order_items d' = order_items d" "bookings d' = bookings d" "payment_attempts d' = payment_attempts d"
    "payment_callbacks d' = payment_callbacks d" "refund_requests d' = refund_requests d"
    "outbox_events d' = outbox_events d" "tickets d' = tickets d"
  shows "money_inv d' = money_inv d"
  using assms core_inv_cong [of d' d] fate_cong [of d' d]
  by (simp add: money_inv_def pay_inv_def event_inv_def event_ok_def ticket_inv_def)

lemma create_hold_money:
  assumes inv: "money_inv d"
    and c: "create_hold E n actor ev cur hold order expires (select_seats ev ids d) ids d = Inr d'"
  shows "money_inv d'"
proof -
  note eff = create_hold_effect [OF c]
  have "fate d' = fate d" 
    by (rule fate_insert [of d' d "new_order E actor ev cur hold order (select_seats ev ids d)"])
      (simp_all add: eff(1) new_order_def)
  moreover have "core_inv d'" using create_hold_core [OF _ c] inv by (simp add: money_inv_def)
  moreover have "pay_inv d'"
    using pay_inv_cong [of d' d] inv \<open>fate d' = fate d\<close> by (auto simp: money_inv_def eff(1))
  moreover have "event_inv d'"
    using event_inv_append [of d' d "[new_event E n order ''SeatsChanged'' (seats_payload ev ids)]"]
      inv eff(6) \<open>fate d' = fate d\<close>
    by (simp add: money_inv_def eff(1) event_inv_def money_event_def)
  moreover have "ticket_inv d'"
    using ticket_inv_cong [of d' d] inv \<open>fate d' = fate d\<close> by (simp add: money_inv_def eff(1))
  ultimately show ?thesis by (simp add: money_inv_def)
qed

lemma release_order_money:
  assumes inv: "money_inv d" and r0: "r0 \<in> set (orders d)" "o_id r0 = o_id order" "o_hold r0 = o_hold order"
    and ns: "\<not> sold (o_status r0)" and st: "state = H_RELEASED \<or> state = H_EXPIRED"
    and rel: "release_order E n order state d = Inr d'"
  shows "money_inv d'" and "fate d' = fate d"
proof -
  note eff = release_order_effect [OF rel]
  show fate: "fate d' = fate d" by (rule fate_expire) (simp add: eff(1))
  moreover have "core_inv d'"
    using release_order_core [OF _ r0 ns st rel] inv by (simp add: money_inv_def)
  moreover have "pay_inv d'"
    using pay_inv_cong [of d' d] inv fate by (simp add: money_inv_def eff(1) image_upd_where)
  moreover have "event_inv d'"
    using event_inv_append [of d' d "[new_event E n (o_id order) ''SeatsChanged''
        (seats_payload (o_event order) (released_seats (o_hold order) d))]"] inv eff(2) fate
    by (simp add: money_inv_def eff(1) event_inv_def money_event_def)
  moreover have "ticket_inv d'"
    using ticket_inv_cong [of d' d] inv fate by (simp add: money_inv_def eff(1))
  ultimately show "money_inv d'" by (simp add: money_inv_def)
qed

lemma event_money:
  assumes "money_inv d" and "event E n agg kind payload d = Inr d'" and "\<not> money_event kind"
  shows "money_inv d'"
proof -
  have d': "d' = d\<lparr>outbox_events := outbox_events d @ [new_event E n agg kind payload]\<rparr>"
    and x: "e_uuid E n \<notin> x_id ` set (outbox_events d)"
    using assms(2) by (simp_all add: event_Inr)
  have fate: "fate d' = fate d" by (rule fate_cong) (simp add: d')
  have "event_inv d'"
    using event_inv_append [of d' d "[new_event E n agg kind payload]"] assms x fate
    by (simp add: money_inv_def d' event_inv_def)
  then show ?thesis
    using assms(1) core_inv_cong [of d' d] fate by (simp add: money_inv_def d' pay_inv_def ticket_inv_def)
qed

end
