(* ===== verification/Store_Settle.thy ===== *)
theory Store_Settle
  imports Store_Money
begin

text \<open>
  Settling a callback keeps the financial invariant on every branch of the payment decision.
\<close>

lemma set_payment_status_sel [simp]:
  "holds (set_payment_status pid oc d) = holds d" "orders (set_payment_status pid oc d) = orders d"
  "event_seats (set_payment_status pid oc d) = event_seats d"
  "order_items (set_payment_status pid oc d) = order_items d"
  "bookings (set_payment_status pid oc d) = bookings d"
  "payment_callbacks (set_payment_status pid oc d) = payment_callbacks d"
  "refund_requests (set_payment_status pid oc d) = refund_requests d"
  "outbox_events (set_payment_status pid oc d) = outbox_events d"
  "tickets (set_payment_status pid oc d) = tickets d"
  "idempotency_records (set_payment_status pid oc d) = idempotency_records d"
  "events (set_payment_status pid oc d) = events d"
  "payment_attempts (set_payment_status pid oc d) =
     upd_where (\<lambda>p. p_id p = pid) (\<lambda>p. p\<lparr>p_status := payment_status_of oc\<rparr>) (payment_attempts d)"
  by (simp_all add: set_payment_status_def)

lemma order_seats_set_payment_status [simp]:
  "order_seats oid (set_payment_status pid oc d) = order_seats oid d"
  by (simp add: order_seats_def)

lemma set_payment_status_core: "core_inv (set_payment_status pid oc d) = core_inv d"
  by (rule core_inv_cong) simp_all

lemma payment_status_of_iff [simp]: "payment_status_of oc = P_SUCCEEDED \<longleftrightarrow> oc = SUCCEEDED"
  by (cases oc) simp_all

text \<open>
  The general step: one payment gets its outcome, and its order gets the fate \<open>f\<close> if and only if
  that outcome is a success.
\<close>

lemma pay_inv_settle:
  assumes inv: "pay_inv d" and p: "payment \<in> set (payment_attempts d)" "p_status payment \<noteq> P_SUCCEEDED"
    and pays: "payment_attempts d' = upd_where (\<lambda>p. p_id p = p_id payment)
        (\<lambda>p. p\<lparr>p_status := payment_status_of oc\<rparr>) (payment_attempts d)"
    and cbs: "payment_callbacks d' = payment_callbacks d"
    and ords: "o_id ` set (orders d') = o_id ` set (orders d)"
    and fate: "fate d' = (fate d)(p_order payment := f)" "f \<noteq> None \<longleftrightarrow> oc = SUCCEEDED"
    and refs: "refund_requests d' = refund_requests d @
        (if refund_fate f then [\<lparr>r_payment = p_id payment, r_order = p_order payment, r_status = R_PENDING\<rparr>] else [])"
  shows "pay_inv d'"
proof -
  have none: "fate d (p_order payment) = None"
    using inv p by (simp add: pay_inv_def)
  have same: "q = payment" if "q \<in> set (payment_attempts d)" "p_id q = p_id payment \<or> p_order q = p_order payment" for q
    using that p(1) key_unique [OF pay_invD(1) [OF inv], of q payment]
      key_unique [OF pay_invD(2) [OF inv], of q payment] by blast
  have noref: "p_id payment \<notin> r_payment ` set (refund_requests d)"
  proof
    assume "p_id payment \<in> r_payment ` set (refund_requests d)"
    then obtain q where q: "q \<in> set (refund_requests d)" "r_payment q = p_id payment" by auto
    obtain p' where "p' \<in> set (payment_attempts d)" "p_id p' = p_id payment" "p_order p' = r_order q"
      using pay_invD(7) [OF inv q(1)] q(2) by auto
    then have "p_order payment = r_order q" using same by blast
    then have "refund_fate (fate d (p_order payment))"
      using pay_invD(9) [OF inv, of "p_order payment"] q(1) by (metis imageI)
    with none show False by simp
  qed
  have keys: "distinct (map p_id (payment_attempts d'))" "distinct (map p_order (payment_attempts d'))"
    "distinct (map c_id (payment_callbacks d'))" "distinct (map r_payment (refund_requests d'))"
    using inv noref by (simp_all add: pay_inv_def pays cbs refs upd_where_cong_key)
  have porder: "p_order ` set (payment_attempts d') = p_order ` set (payment_attempts d)"
    by (simp add: pays image_upd_where)
  have status: "p_status q = P_SUCCEEDED \<longleftrightarrow> fate d' (p_order q) \<noteq> None" if "q \<in> set (payment_attempts d')" for q
  proof -
    from that obtain q0 where q0: "q0 \<in> set (payment_attempts d)"
      and qeq: "q = (if p_id q0 = p_id payment then q0\<lparr>p_status := payment_status_of oc\<rparr> else q0)"
      by (auto simp: pays set_upd_where)
    show ?thesis
    proof (cases "p_id q0 = p_id payment")
      case True
      then have "q0 = payment" using same q0 by blast
      with True qeq fate show ?thesis by simp
    next
      case False
      then have "p_order q0 \<noteq> p_order payment" using same [OF q0] by blast
      with False qeq fate(1) inv q0 show ?thesis by (simp add: pay_inv_def)
    qed
  qed
  have has_pay: "oid \<in> p_order ` set (payment_attempts d')" if "fate d' oid \<noteq> None" for oid
    using that inv p(1) unfolding porder by (cases "oid = p_order payment") (auto simp: fate pay_inv_def)
  have ref_pay: "\<exists>q'\<in>set (payment_attempts d'). p_id q' = r_payment q \<and> p_order q' = r_order q"
    if "q \<in> set (refund_requests d')" for q
  proof -
    have "\<exists>q'\<in>set (payment_attempts d). p_id q' = r_payment q \<and> p_order q' = r_order q"
    proof (cases "q \<in> set (refund_requests d)")
      case True
      then show ?thesis using inv by (simp add: pay_inv_def)
    next
      case False
      with that have "q = \<lparr>r_payment = p_id payment, r_order = p_order payment, r_status = R_PENDING\<rparr>"
        by (simp add: refs split: if_splits)
      with p(1) show ?thesis by auto
    qed
    then show ?thesis by (simp add: pays bex_upd_where_same)
  qed
  have refs_iff: "oid \<in> r_order ` set (refund_requests d') \<longleftrightarrow> refund_fate (fate d' oid)" for oid
  proof -
    have "oid \<in> r_order ` set (refund_requests d) \<longleftrightarrow> refund_fate (fate d oid)"
      using inv by (simp add: pay_inv_def)
    then show ?thesis using none by (cases "oid = p_order payment") (auto simp: refs fate(1))
  qed
  have "p_order ` set (payment_attempts d') \<subseteq> o_id ` set (orders d')"
    using inv by (simp add: porder ords pay_inv_def)
  with keys status has_pay ref_pay refs_iff show ?thesis unfolding pay_inv_def by blast
qed

lemma event_inv_settle:
  assumes inv: "event_inv d" and none: "fate d oid = None" and fate: "fate d' = (fate d)(oid := f)"
    and refs: "refund_requests d' = refund_requests d @ rs"
    and out: "outbox_events d' = outbox_events d @ xs" "distinct (map x_id (outbox_events d'))"
    and new: "\<forall>x\<in>set xs. event_ok d' x"
    and paid: "sold_fate f \<Longrightarrow> \<exists>x\<in>set xs. x_type x = ''OrderPaid'' \<and> x_aggregate x = oid"
    and refund: "refund_fate f \<Longrightarrow> \<exists>x\<in>set xs. x_type x = ''RefundRequested'' \<and> x_aggregate x = oid"
  shows "event_inv d'"
proof -
  have old: "event_ok d' x" if "x \<in> set (outbox_events d)" for x
  proof -
    have "event_ok d x" using that inv by (simp add: event_inv_def)
    then show ?thesis using none by (auto simp: event_ok_def fate refs)
  qed
  have "\<exists>x\<in>set (outbox_events d'). x_type x = ''OrderPaid'' \<and> x_aggregate x = a" if "sold_fate (fate d' a)" for a
  proof (cases "a = oid")
    case True
    with that paid show ?thesis by (auto simp: fate out(1))
  next
    case False
    with that inv show ?thesis by (auto simp: fate out(1) event_inv_def)
  qed
  moreover have "\<exists>x\<in>set (outbox_events d'). x_type x = ''RefundRequested'' \<and> x_aggregate x = a"
    if "refund_fate (fate d' a)" for a
  proof (cases "a = oid")
    case True
    with that refund show ?thesis by (auto simp: fate out(1))
  next
    case False
    with that inv show ?thesis by (auto simp: fate out(1) event_inv_def)
  qed
  moreover have "\<forall>x\<in>set (outbox_events d'). event_ok d' x"
    using old new by (auto simp: out(1))
  ultimately show ?thesis
    using out(2) by (simp add: event_inv_def)
qed

lemma ticket_inv_settle:
  assumes "ticket_inv d" and "tickets d' = tickets d" and "bookings d' = bookings d @ bs"
    and "fate d' = (fate d)(oid := f)" and "f \<noteq> Some O_FULFILLED" and "\<forall>b\<in>set bs. b_order b = oid"
  shows "ticket_inv d'"
proof -
  have "b_id b \<in> t_booking ` set (tickets d)" if "b \<in> set (bookings d')" "fate d' (b_order b) = Some O_FULFILLED" for b
  proof -
    have "b_order b \<noteq> oid" using that(2) assms(4,5) by auto
    then have "b \<in> set (bookings d)" and "fate d (b_order b) = Some O_FULFILLED"
      using that assms(3,4,6) by auto
    then show ?thesis using assms(1) by (simp add: ticket_inv_def)
  qed
  with assms(1-3) show ?thesis by (auto simp: ticket_inv_def)
qed

lemma settle_BOOK:
  assumes inv: "money_inv d" and p: "payment \<in> set (payment_attempts d)" "p_status payment \<noteq> P_SUCCEEDED"
    and o: "order \<in> set (orders d)" "o_id order = p_order payment" "o_status order = O_PENDING"
    and v: "valid_hold (e_now E) (find_hold (o_hold order) d) (order_seats (o_id order) d) = Inr True"
    and b: "book_order E order (o_hold order) (order_seats (o_id order) d) (set_payment_status (p_id payment) SUCCEEDED d) = Inr d'"
  shows "money_inv d'" and "fate d' = (fate d)(o_id order := Some O_PAID)"
proof -
  let ?d1 = "set_payment_status (p_id payment) SUCCEEDED d"
  note eff = book_order_effect [OF b]
  have core: "core_inv ?d1" using inv by (simp add: money_inv_def set_payment_status_core)
  obtain h where h: "find_hold (o_hold order) d = Some h" "all_held (h_id h) (e_now E) (order_seats (o_id order) d) = Inr True"
    using v by (auto simp: valid_hold_True)
  then have hid: "h_id h = o_hold order" by (simp add: find_row_Some)
  have "core_inv d'"
    using book_order_core [OF core, of order "order_seats (o_id order) d" E d'] o h(2) b
    by (simp add: hid all_held_True)
  moreover have none: "fate d (o_id order) = None"
    using inv p o(2) by (simp add: money_inv_def pay_inv_def)
  moreover have fate: "fate d' = (fate d)(o_id order := Some O_PAID)"
    using fate_set_status [of d' "o_id order" O_PAID d] o(1) by (simp add: eff(1))
  then show "fate d' = (fate d)(o_id order := Some O_PAID)" .
  moreover have "pay_inv d'"
    using pay_inv_settle [of d payment d' SUCCEEDED "Some O_PAID"] inv p o(2) fate
    by (simp add: money_inv_def eff(1) image_upd_where)
  moreover have "event_inv d'"
  proof -
    let ?x = "new_event E 0 (o_id order) ''OrderPaid'' (JObj [(''order_id'', JStr (o_id order))])"
    have "distinct (map x_id (outbox_events d'))"
      using inv eff(4) by (simp add: eff(1) money_inv_def event_inv_def)
    then show ?thesis
      using event_inv_settle [of d "o_id order" d' "Some O_PAID" "[]" "[?x]"] inv none fate
      by (simp add: money_inv_def eff(1) event_ok_def)
  qed
  moreover have "ticket_inv d'"
  proof -
    have "\<forall>b\<in>set (new_bookings E 3 order (order_seats (o_id order) d)). b_order b = o_id order"
      by (auto simp: new_bookings_def)
    then show ?thesis
      using ticket_inv_settle [of d d' _ "o_id order" "Some O_PAID"] inv fate by (simp add: money_inv_def eff(1))
  qed
  ultimately show "money_inv d'" by (simp add: money_inv_def)
qed

lemma close_order_failed:
  assumes "close_order E order pid False d = Inr d'"
  obtains d1 where "release_order E 0 order H_RELEASED d = Inr d1"
    and "d' = d1\<lparr>orders := upd_where (\<lambda>r. o_id r = o_id order) (\<lambda>r. r\<lparr>o_status := O_FAILED\<rparr>) (orders d1)\<rparr>"
  using assms by (auto simp: close_order_def ebind_Inr_iff Let_def)

lemma close_order_refund:
  assumes "close_order E order pid True d = Inr d'"
  obtains d1 d2 where "release_order E 0 order H_EXPIRED d = Inr d1"
    and "insert_refund \<lparr>r_payment = pid, r_order = o_id order, r_status = R_PENDING\<rparr>
        (d1\<lparr>orders := upd_where (\<lambda>r. o_id r = o_id order) (\<lambda>r. r\<lparr>o_status := O_REFUND_PENDING\<rparr>) (orders d1)\<rparr>) = Inr d2"
    and "event E 1 (o_id order) ''RefundRequested''
          (JObj [(''payment_id'', JStr pid), (''order_id'', JStr (o_id order))]) d2 = Inr d'"
  using assms by (auto simp: close_order_def ebind_Inr_iff Let_def)

lemma order_closed:
  assumes rel: "release_order E n order state d = Inr d1" and inv: "core_inv d"
    and o: "order \<in> set (orders d)" "\<not> sold (o_status order)"
    and r: "r \<in> set (orders d1)" "o_id r = o_id order"
  shows "\<not> sold (o_status r)" and "o_status r \<noteq> O_PENDING"
proof -
  obtain r0 where r0: "r0 \<in> set (orders d)"
    and eq: "r = (if o_id r0 = o_id order \<and> o_status r0 = O_PENDING then r0\<lparr>o_status := O_EXPIRED\<rparr> else r0)"
    using r(1) by (auto simp: release_order_effect(1) [OF rel] set_upd_where)
  then have "r0 = order"
    using r(2) order_unique [OF inv _ o(1)] by (auto split: if_splits)
  with eq o(2) show "\<not> sold (o_status r)" and "o_status r \<noteq> O_PENDING" by auto
qed

lemma settle_FAILED:
  assumes inv: "money_inv d" and p: "payment \<in> set (payment_attempts d)" "p_status payment \<noteq> P_SUCCEEDED"
    and o: "order \<in> set (orders d)" "o_id order = p_order payment"
    and c: "close_order E order (p_id payment) False (set_payment_status (p_id payment) FAILED d) = Inr d'"
  shows "money_inv d'" and "fate d' = fate d"
proof -
  let ?d0 = "set_payment_status (p_id payment) FAILED d"
  have fate0: "fate ?d0 = fate d" by (rule fate_cong) simp
  have none: "fate d (p_order payment) = None"
    using inv p pay_invD(5) [of d payment] by (simp add: money_inv_def)
  have core: "core_inv d" using inv by (simp add: money_inv_def)
  have ns: "\<not> sold (o_status order)"
    using fate_order [OF core o(1)] none o(2) by (cases "o_status order") auto
  have inv0: "money_inv ?d0"
    using inv pay_inv_settle [of d payment ?d0 FAILED None] p none fate0
    by (simp add: money_inv_def set_payment_status_core event_inv_def event_ok_def ticket_inv_def fun_upd_idem)
  obtain d1 where rel: "release_order E 0 order H_RELEASED ?d0 = Inr d1"
    and d': "d' = d1\<lparr>orders := upd_where (\<lambda>r. o_id r = o_id order) (\<lambda>r. r\<lparr>o_status := O_FAILED\<rparr>) (orders d1)\<rparr>"
    using close_order_failed [OF c] by blast
  have r: "money_inv d1" "fate d1 = fate d"
    using release_order_money [OF inv0 _ _ _ _ _ rel, of order] o ns fate0 by simp_all
  have id1: "o_id ` set (orders d1) = o_id ` set (orders d)"
    by (simp add: release_order_effect(1) [OF rel] image_upd_where)
  have "fate d' = (fate d1)(o_id order := None)"
    using fate_set_status [of d' "o_id order" O_FAILED d1] id1 o(1) by (simp add: d')
  then show fate: "fate d' = fate d"
    using r(2) none o(2) by (simp add: fun_upd_idem)
  have "core_inv d'"
    using set_status_core [OF _ d'] r(1) order_closed [OF rel _ _ ns] inv0 o(1)
    by (simp add: money_inv_def same_phase_def)
  moreover have "pay_inv d'"
    using pay_inv_cong [of d' d1] r fate by (simp add: money_inv_def d' image_upd_where)
  moreover have "event_inv d'" "ticket_inv d'"
    using r fate event_inv_same [of d' d1] ticket_inv_cong [of d' d1] by (simp_all add: money_inv_def d')
  ultimately show "money_inv d'" by (simp add: money_inv_def)
qed

lemma settle_REFUND:
  assumes inv: "money_inv d" and p: "payment \<in> set (payment_attempts d)" "p_status payment \<noteq> P_SUCCEEDED"
    and o: "order \<in> set (orders d)" "o_id order = p_order payment"
    and c: "close_order E order (p_id payment) True (set_payment_status (p_id payment) SUCCEEDED d) = Inr d'"
  shows "money_inv d'" and "fate d' = (fate d)(o_id order := Some O_REFUND_PENDING)"
    and "\<lparr>r_payment = p_id payment, r_order = o_id order, r_status = R_PENDING\<rparr> \<in> set (refund_requests d')"
proof -
  let ?d0 = "set_payment_status (p_id payment) SUCCEEDED d"
  let ?rf = "\<lparr>r_payment = p_id payment, r_order = o_id order, r_status = R_PENDING\<rparr>"
  let ?x = "new_event E 1 (o_id order) ''RefundRequested''
      (JObj [(''payment_id'', JStr (p_id payment)), (''order_id'', JStr (o_id order))])"
  have fate0: "fate ?d0 = fate d" by (rule fate_cong) simp
  have pay: "pay_inv d" and core: "core_inv d" using inv by (simp_all add: money_inv_def)
  have none: "fate d (p_order payment) = None"
    using pay_invD(5) [OF pay p(1)] p(2) by simp
  have ns: "\<not> sold (o_status order)"
    using fate_order [OF core o(1)] none o(2) by (cases "o_status order") auto
  obtain d1 d2 where rel: "release_order E 0 order H_EXPIRED ?d0 = Inr d1"
    and ins: "insert_refund ?rf (d1\<lparr>orders := upd_where (\<lambda>r. o_id r = o_id order)
        (\<lambda>r. r\<lparr>o_status := O_REFUND_PENDING\<rparr>) (orders d1)\<rparr>) = Inr d2"
    and ev: "event E 1 (o_id order) ''RefundRequested''
        (JObj [(''payment_id'', JStr (p_id payment)), (''order_id'', JStr (o_id order))]) d2 = Inr d'"
    using close_order_refund [OF c] by blast
  note eff = release_order_effect(1) [OF rel]
  have noref: "p_id payment \<notin> r_payment ` set (refund_requests d)"
  proof
    assume "p_id payment \<in> r_payment ` set (refund_requests d)"
    then obtain q where q: "q \<in> set (refund_requests d)" "r_payment q = p_id payment" by auto
    obtain p' where "p' \<in> set (payment_attempts d)" "p_id p' = p_id payment" "p_order p' = r_order q"
      using pay_invD(7) [OF pay q(1)] q(2) by auto
    then have "p_order payment = r_order q"
      using key_unique [OF pay_invD(1) [OF pay], of p' payment] p(1) by auto
    then show False using pay_invD(9) [OF pay, of "p_order payment"] none q(1) by (metis imageI option.distinct(1))
  qed
  have d2: "d2 = d1\<lparr>orders := upd_where (\<lambda>r. o_id r = o_id order)
      (\<lambda>r. r\<lparr>o_status := O_REFUND_PENDING\<rparr>) (orders d1), refund_requests := refund_requests d @ [?rf]\<rparr>"
  proof -
    have "refund_requests d1 = refund_requests d" by (simp add: eff)
    with ins noref show ?thesis by (simp add: insert_refund_def split: if_splits)
  qed
  have d': "d' = d2\<lparr>outbox_events := outbox_events d2 @ [?x]\<rparr>" and x: "e_uuid E 1 \<notin> x_id ` set (outbox_events d2)"
    using ev by (simp_all add: event_Inr)
  have f1: "fate d1 = fate d" using fate_expire [of d1 "o_id order" ?d0] fate0 by (simp add: eff)
  have id1: "o_id ` set (orders d1) = o_id ` set (orders d)" by (simp add: eff image_upd_where)
  show fate: "fate d' = (fate d)(o_id order := Some O_REFUND_PENDING)"
    using fate_set_status [of d' "o_id order" O_REFUND_PENDING d1] id1 o(1) f1 by (simp add: d' d2)
  show "?rf \<in> set (refund_requests d')" by (simp add: d' d2)
  have core0: "core_inv ?d0" using core by (simp add: set_payment_status_core)
  have core1: "core_inv d1"
    using release_order_core [OF core0 _ _ _ _ _ rel, of order] o ns by simp
  have "core_inv (d1\<lparr>orders := upd_where (\<lambda>r. o_id r = o_id order)
      (\<lambda>r. r\<lparr>o_status := O_REFUND_PENDING\<rparr>) (orders d1)\<rparr>)" (is "core_inv ?d3")
    using set_status_core [OF core1 refl, of "\<lambda>r. o_id r = o_id order" O_REFUND_PENDING]
      order_closed [OF rel core0 _ ns] o(1) by (simp add: same_phase_def)
  then have "core_inv d'" using core_inv_cong [of d' ?d3] by (simp add: d' d2)
  moreover have "pay_inv d'"
    using pay_inv_settle [OF pay p, of d' SUCCEEDED "Some O_REFUND_PENDING"] fate o(2)
    by (simp add: d' d2 eff image_upd_where)
  moreover have "event_inv d'"
  proof -
    let ?y = "new_event E 0 (o_id order) ''SeatsChanged''
        (seats_payload (o_event order) (released_seats (o_hold order) ?d0))"
    have out: "outbox_events d' = outbox_events d @ [?y, ?x]" by (simp add: d' d2 eff)
    have rr: "refund_requests d' = refund_requests d @ [?rf]" by (simp add: d' d2)
    have dist: "distinct (map x_id (outbox_events d'))"
      using inv release_order_effect(2) [OF rel] x by (auto simp: d' d2 eff money_inv_def event_inv_def)
    show ?thesis
      using event_inv_settle [OF _ _ _ rr out dist, of "o_id order" "Some O_REFUND_PENDING"] inv none o(2) fate
      by (simp add: money_inv_def event_ok_def rr)
  qed
  moreover have "ticket_inv d'"
    using ticket_inv_settle [of d d' "[]", OF _ _ _ fate] inv by (simp add: money_inv_def) (simp add: d' d2 eff)
  ultimately show "money_inv d'" by (simp add: money_inv_def)
qed

end
