(* ===== verification/Store_Ops.thy ===== *)
theory Store_Ops
  imports Store_Settle
begin

text \<open>
  Every operation of the store keeps \<open>store_inv\<close>, whether it succeeds or raises.
\<close>

section \<open>Callbacks\<close>

lemma settle_decision:
  assumes "settle E p order payment d = Inr (st, d')"
  obtains valid d1 where
    "valid_hold (e_now E) (find_hold (o_hold order) d) (order_seats (o_id order) d) = Inr valid"
    and "(case payment_decision (o_status order) valid (cb_outcome p) of
         D_BOOK \<Rightarrow> ebind (not_none (find_hold (o_hold order) d)) (\<lambda>h. book_order E order (h_id h)
           (order_seats (o_id order) d) (set_payment_status (p_id payment) (cb_outcome p) d))
       | D_REFUND \<Rightarrow> close_order E order (p_id payment) True (set_payment_status (p_id payment) (cb_outcome p) d)
       | D_FAILED \<Rightarrow> close_order E order (p_id payment) False (set_payment_status (p_id payment) (cb_outcome p) d)
       | D_UNCHANGED \<Rightarrow> Inr (set_payment_status (p_id payment) (cb_outcome p) d)) = Inr d1"
    and "event E 2 (o_id order) ''SeatsChanged''
        (seats_payload (o_event order) (map s_id (order_seats (o_id order) d))) d1 = Inr d'"
    and "st = decision_lower (payment_decision (o_status order) valid (cb_outcome p))"
  using assms by (auto simp: settle_def ebind_Inr_iff Let_def)

lemma unchanged_money:
  assumes inv: "money_inv d" and p: "payment \<in> set (payment_attempts d)" "p_status payment \<noteq> P_SUCCEEDED"
  shows "money_inv (set_payment_status (p_id payment) FAILED d)" (is "money_inv ?d0")
    and "fate (set_payment_status (p_id payment) FAILED d) = fate d"
proof -
  show fate0: "fate ?d0 = fate d" by (rule fate_cong) simp
  have none: "fate d (p_order payment) = None"
    using inv p pay_invD(5) [of d payment] by (simp add: money_inv_def)
  show "money_inv ?d0"
    using inv pay_inv_settle [of d payment ?d0 FAILED None] p none fate0
    by (simp add: money_inv_def set_payment_status_core event_inv_def event_ok_def ticket_inv_def fun_upd_idem)
qed

lemma unsettled_not_sold:
  assumes inv: "money_inv d" and p: "payment \<in> set (payment_attempts d)" "p_status payment \<noteq> P_SUCCEEDED"
    and o: "order \<in> set (orders d)" "o_id order = p_order payment"
  shows "\<not> sold (o_status order)" and "fate d (o_id order) = None"
proof -
  show none: "fate d (o_id order) = None"
    using inv p pay_invD(5) [of d payment] o(2) by (simp add: money_inv_def)
  show "\<not> sold (o_status order)"
    using fate_order [of d order] none inv o by (cases "o_status order") (auto simp: money_inv_def)
qed

lemma settle_money:
  assumes inv: "money_inv d" and p: "payment \<in> set (payment_attempts d)" "p_status payment \<noteq> P_SUCCEEDED"
    and o: "order \<in> set (orders d)" "o_id order = p_order payment"
    and s: "settle E cb order payment d = Inr (st, d')"
  shows "money_inv d'"
proof -
  obtain valid d1 where
    v: "valid_hold (e_now E) (find_hold (o_hold order) d) (order_seats (o_id order) d) = Inr valid"
    and c: "(case payment_decision (o_status order) valid (cb_outcome cb) of
         D_BOOK \<Rightarrow> ebind (not_none (find_hold (o_hold order) d)) (\<lambda>h. book_order E order (h_id h)
           (order_seats (o_id order) d) (set_payment_status (p_id payment) (cb_outcome cb) d))
       | D_REFUND \<Rightarrow> close_order E order (p_id payment) True (set_payment_status (p_id payment) (cb_outcome cb) d)
       | D_FAILED \<Rightarrow> close_order E order (p_id payment) False (set_payment_status (p_id payment) (cb_outcome cb) d)
       | D_UNCHANGED \<Rightarrow> Inr (set_payment_status (p_id payment) (cb_outcome cb) d)) = Inr d1"
    and e: "event E 2 (o_id order) ''SeatsChanged''
        (seats_payload (o_event order) (map s_id (order_seats (o_id order) d))) d1 = Inr d'"
    using settle_decision [OF s] by blast
  have "money_inv d1"
  proof (cases "payment_decision (o_status order) valid (cb_outcome cb)")
    case D_BOOK
    then have pend: "o_status order = O_PENDING" "valid" "cb_outcome cb = SUCCEEDED"
      by (simp_all add: decision_BOOK_iff)
    from c D_BOOK obtain h where h: "find_hold (o_hold order) d = Some h"
      and b: "book_order E order (h_id h) (order_seats (o_id order) d)
        (set_payment_status (p_id payment) (cb_outcome cb) d) = Inr d1"
      by (auto simp: ebind_Inr_iff)
    have "h_id h = o_hold order" using find_row_Some(2) [OF h] by simp
    with b v pend show ?thesis
      using settle_BOOK(1) [OF inv p o pend(1)] by simp
  next
    case D_REFUND
    then have "cb_outcome cb = SUCCEEDED" by (simp add: decision_REFUND_iff)
    with c D_REFUND show ?thesis using settle_REFUND(1) [OF inv p o] by simp
  next
    case D_FAILED
    then have "cb_outcome cb = FAILED" by (simp add: decision_FAILED_iff)
    with c D_FAILED show ?thesis using settle_FAILED(1) [OF inv p o] by simp
  next
    case D_UNCHANGED
    then have "cb_outcome cb = FAILED"
      using unsettled_not_sold(1) [OF inv p o] by (auto simp: payment_decision_def sold_def split: if_splits)
    with c D_UNCHANGED show ?thesis using unchanged_money(1) [OF inv p] by simp
  qed
  then show ?thesis by (rule event_money [OF _ e]) (simp add: money_event_def)
qed

lemma insert_callback_money:
  assumes inv: "money_inv d" and i: "insert_callback c d = Inr d'"
  shows "money_inv d'" and "d' = d\<lparr>payment_callbacks := payment_callbacks d @ [c]\<rparr>"
proof -
  show d': "d' = d\<lparr>payment_callbacks := payment_callbacks d @ [c]\<rparr>"
    using i by (auto simp: insert_callback_def split: if_splits)
  have fate: "fate d' = fate d" by (rule fate_cong) (simp add: d')
  have "c_id c \<notin> c_id ` set (payment_callbacks d)"
    using i by (auto simp: insert_callback_def split: if_splits)
  with inv show "money_inv d'"
    using core_inv_cong [of d' d] fate event_inv_same [of d' d] ticket_inv_cong [of d' d]
    by (simp add: money_inv_def d' pay_inv_def)
qed

text \<open>The three ways a callback's transaction can succeed.\<close>

lemma callback_tx_cases:
  assumes "callback_tx E p d = Inr (st, d')"
  obtains (duplicate_id) "st = ''duplicate''" and "d' = d"
      and "cb_callback_id p \<in> c_id ` set (payment_callbacks d)"
    | (duplicate_success) payment where "st = ''duplicate''"
      and "payment \<in> set (payment_attempts d)" and "p_id payment = cb_payment_id p"
      and "p_status payment = P_SUCCEEDED"
      and "insert_callback \<lparr>c_id = cb_callback_id p, c_payment = cb_payment_id p,
        c_hash = digest E (callback_json p)\<rparr> d = Inr d'"
    | (new) payment order d1 where "payment \<in> set (payment_attempts d)" and "p_id payment = cb_payment_id p"
      and "p_status payment \<noteq> P_SUCCEEDED" and "order \<in> set (orders d)" and "o_id order = p_order payment"
      and "o_id order = cb_order_id p" and "o_total order = cb_amount p" and "o_currency order = cb_currency p"
      and "insert_callback \<lparr>c_id = cb_callback_id p, c_payment = cb_payment_id p,
        c_hash = digest E (callback_json p)\<rparr> d = Inr d1"
      and "settle E p order payment d1 = Inr (st, d')"
proof -
  obtain payment where pay: "find_payment (cb_payment_id p) d = Some payment"
    using assms by (auto simp: callback_tx_def split: option.splits)
  obtain order where ord: "find_order (p_order payment) d = Some order"
    using assms by (auto simp: callback_tx_def pay ebind_Inr_iff)
  have ok: "o_id order = cb_order_id p" "o_total order = cb_amount p" "o_currency order = cb_currency p"
    using assms by (auto simp: callback_tx_def pay ord ebind_Inr_iff split: if_splits)
  note mem = find_row_Some(4) [OF pay] find_row_Some(3) [OF ord]
  show ?thesis
  proof (cases "find (\<lambda>c. c_id c = cb_callback_id p) (payment_callbacks d)")
    case (Some c)
    then have "c \<in> set (payment_callbacks d)" "c_id c = cb_callback_id p"
      using find_Some_mem by fastforce+
    then have "cb_callback_id p \<in> c_id ` set (payment_callbacks d)" by (metis imageI)
    with assms Some show ?thesis
      by (intro duplicate_id) (auto simp: callback_tx_def pay ord ebind_Inr_iff split: if_splits)
  next
    case None
    then obtain d1 where d1: "insert_callback \<lparr>c_id = cb_callback_id p, c_payment = cb_payment_id p,
        c_hash = digest E (callback_json p)\<rparr> d = Inr d1"
      and rest: "(if p_status payment = P_SUCCEEDED then Inr (''duplicate'', d1) else settle E p order payment d1) = Inr (st, d')"
      using assms by (auto simp: callback_tx_def pay ord ebind_Inr_iff split: if_splits)
    show ?thesis
    proof (cases "p_status payment = P_SUCCEEDED")
      case True
      with d1 rest mem show ?thesis by (intro duplicate_success [of payment]) auto
    next
      case False
      with d1 rest mem ok show ?thesis by (intro new [of payment order d1]) auto
    qed
  qed
qed

text \<open>A callback never touches the idempotency records of the other operations.\<close>

lemma close_order_idem:
  assumes "close_order E order pid refund d = Inr d'"
  shows "idempotency_records d' = idempotency_records d"
proof (cases refund)
  case True
  then have c: "close_order E order pid True d = Inr d'" using assms by simp
  obtain d1 d2 where rel: "release_order E 0 order H_EXPIRED d = Inr d1"
    and ins: "insert_refund \<lparr>r_payment = pid, r_order = o_id order, r_status = R_PENDING\<rparr>
        (d1\<lparr>orders := upd_where (\<lambda>r. o_id r = o_id order) (\<lambda>r. r\<lparr>o_status := O_REFUND_PENDING\<rparr>) (orders d1)\<rparr>) = Inr d2"
    and ev: "event E 1 (o_id order) ''RefundRequested''
        (JObj [(''payment_id'', JStr pid), (''order_id'', JStr (o_id order))]) d2 = Inr d'"
    using close_order_refund [OF c] by blast
  have "idempotency_records d2 = idempotency_records d1"
    using ins by (simp add: insert_refund_def split: if_splits) auto
  then show ?thesis using ev by (simp add: release_order_effect(1) [OF rel] event_Inr)
next
  case False
  then have c: "close_order E order pid False d = Inr d'" using assms by simp
  obtain d1 where rel: "release_order E 0 order H_RELEASED d = Inr d1"
    and "d' = d1\<lparr>orders := upd_where (\<lambda>r. o_id r = o_id order) (\<lambda>r. r\<lparr>o_status := O_FAILED\<rparr>) (orders d1)\<rparr>"
    using close_order_failed [OF c] by blast
  then show ?thesis by (simp add: release_order_effect(1) [OF rel])
qed

lemma settle_idem:
  assumes "settle E cb order payment d = Inr (st, d')"
  shows "idempotency_records d' = idempotency_records d"
proof -
  obtain valid d1 where
    c: "(case payment_decision (o_status order) valid (cb_outcome cb) of
         D_BOOK \<Rightarrow> ebind (not_none (find_hold (o_hold order) d)) (\<lambda>h. book_order E order (h_id h)
           (order_seats (o_id order) d) (set_payment_status (p_id payment) (cb_outcome cb) d))
       | D_REFUND \<Rightarrow> close_order E order (p_id payment) True (set_payment_status (p_id payment) (cb_outcome cb) d)
       | D_FAILED \<Rightarrow> close_order E order (p_id payment) False (set_payment_status (p_id payment) (cb_outcome cb) d)
       | D_UNCHANGED \<Rightarrow> Inr (set_payment_status (p_id payment) (cb_outcome cb) d)) = Inr d1"
    and e: "event E 2 (o_id order) ''SeatsChanged''
        (seats_payload (o_event order) (map s_id (order_seats (o_id order) d))) d1 = Inr d'"
    using settle_decision [OF assms] by blast
  have "idempotency_records d1 = idempotency_records d"
    using c by (cases "payment_decision (o_status order) valid (cb_outcome cb)")
      (auto simp: ebind_Inr_iff dest: close_order_idem book_order_effect(1))
  with e show ?thesis by (simp add: event_Inr)
qed

lemma callback_tx_inv:
  assumes inv: "store_inv d" and c: "callback_tx E p d = Inr (st, d')"
  shows "store_inv d'"
proof -
  have m: "money_inv d" and i: "idem_inv d" using inv by (simp_all add: store_inv_iff)
  from c have "money_inv d'"
  proof (cases rule: callback_tx_cases)
    case duplicate_id
    then show ?thesis using m by simp
  next
    case (duplicate_success payment)
    then show ?thesis using insert_callback_money(1) [OF m] by blast
  next
    case (new payment order d1)
    note d1 = insert_callback_money [OF m new(9)]
    show ?thesis
      by (rule settle_money [OF d1(1) _ new(3) _ new(5) new(10)]) (use new d1(2) in simp_all)
  qed
  moreover have "idempotency_records d' = idempotency_records d"
    using c
  proof (cases rule: callback_tx_cases)
    case (new payment order d1)
    show ?thesis using settle_idem [OF new(10)] insert_callback_money(2) [OF m new(9)] by simp
  next
    case (duplicate_success payment)
    show ?thesis using insert_callback_money(2) [OF m duplicate_success(5)] by simp
  qed simp
  ultimately show ?thesis using i idem_inv_cong [of d' d] by (simp add: store_inv_iff)
qed

section \<open>Operations under an idempotency key\<close>

text \<open>
  Under the invariant a record without a response can only be the one this very transaction
  inserted, and \<open>remember\<close> fills it in before the transaction ends.
\<close>

lemma idem_new:
  assumes inv: "idem_inv d" and i: "idem E actor op key req d = Inr (None, d1)"
  shows "(actor, op, key) \<notin> idem_key ` set (idempotency_records d)"
    and "d1 = d\<lparr>idempotency_records := idempotency_records d @ [new_idem E actor op key req]\<rparr>"
proof -
  have "(actor, op, key) \<notin> idem_key ` set (idempotency_records d) \<and>
    d1 = d\<lparr>idempotency_records := idempotency_records d @ [new_idem E actor op key req]\<rparr>"
    using i
  proof (cases rule: idem_cases)
    case (replay k)
    then show ?thesis using inv by (auto simp: idem_inv_def)
  qed simp
  then show "(actor, op, key) \<notin> idem_key ` set (idempotency_records d)"
    and "d1 = d\<lparr>idempotency_records := idempotency_records d @ [new_idem E actor op key req]\<rparr>"
    by simp_all
qed

lemma idem_replay:
  assumes "idem E actor op key req d = Inr (Some r, d1)"
  obtains k where "find (\<lambda>k. idem_key k = (actor, op, key)) (idempotency_records d) = Some k"
    and "k \<in> set (idempotency_records d)" and "idem_key k = (actor, op, key)"
    and "k_request_hash k = digest E req" and "k_response k = Some r" and "d1 = d"
  using assms by (cases rule: idem_cases) auto

lemma idem_money:
  assumes "idem E actor op key req d = Inr (r, d1)"
  shows "money_inv d1 = money_inv d"
  by (rule money_inv_cong) (use assms in \<open>cases rule: idem_cases, simp_all\<close>)+

lemma remember_sel [simp]:
  "holds (remember a op k r d) = holds d" "orders (remember a op k r d) = orders d"
  "event_seats (remember a op k r d) = event_seats d" "order_items (remember a op k r d) = order_items d"
  "bookings (remember a op k r d) = bookings d" "payment_callbacks (remember a op k r d) = payment_callbacks d"
  "refund_requests (remember a op k r d) = refund_requests d"
  "outbox_events (remember a op k r d) = outbox_events d" "tickets (remember a op k r d) = tickets d"
  "payment_attempts (remember a op k r d) = payment_attempts d" "events (remember a op k r d) = events d"
  "reservation_commands (remember a op k r d) = reservation_commands d"
  "idempotency_records (remember a op k r d) = upd_where (\<lambda>x. idem_key x = (a, op, k))
     (\<lambda>x. x\<lparr>k_response := Some r\<rparr>) (idempotency_records d)"
  by (simp_all add: remember_def)

lemma remember_idem_inv:
  assumes inv: "idem_inv d" and new: "(a, op, k) \<notin> idem_key ` set (idempotency_records d)"
    and d2: "idempotency_records d2 = idempotency_records d @ [new_idem E a op k req]"
  shows "idem_inv (remember a op k r d2)"
proof -
  have same: "upd_where (\<lambda>x. idem_key x = (a, op, k)) (\<lambda>x. x\<lparr>k_response := Some r\<rparr>) (idempotency_records d)
      = idempotency_records d"
    using new by (intro upd_where_id) force
  have "idem_key (new_idem E a op k req) = (a, op, k)" by (simp add: new_idem_def idem_key_def)
  then have "idempotency_records (remember a op k r d2) =
      idempotency_records d @ [(new_idem E a op k req)\<lparr>k_response := Some r\<rparr>]"
    by (simp add: d2 same)
  with inv new show ?thesis
    by (auto simp: idem_inv_def idem_key_def new_idem_def)
qed

lemma remember_inv:
  assumes inv: "store_inv d" and i: "idem E a op k req d = Inr (None, d1)"
    and d2: "money_inv d2" "idempotency_records d2 = idempotency_records d1"
  shows "store_inv (remember a op k r d2)"
proof -
  have iv: "idem_inv d" using inv by (simp add: store_inv_iff)
  note new = idem_new [OF iv i]
  have "idem_inv (remember a op k r d2)"
    using remember_idem_inv [OF iv new(1), of d2] d2(2) new(2) by simp
  moreover have "money_inv (remember a op k r d2)"
    using d2(1) money_inv_cong [of "remember a op k r d2" d2] by simp
  ultimately show ?thesis by (simp add: store_inv_iff)
qed

lemma create_hold_idem:
  "create_hold E n actor ev cur hold order expires rows ids d = Inr d' \<Longrightarrow>
     idempotency_records d' = idempotency_records d"
  by (drule create_hold_effect(1)) simp

lemma reserve_tx_cases:
  assumes "reserve_tx E hs actor ev ids key d = Inr (resp, d')"
  obtains (replay) "idem E actor ''hold'' key (reserve_request ev ids) d = Inr (Some resp, d')"
    | (created) sale d1 d2 where
      "idem E actor ''hold'' key (reserve_request ev ids) d = Inr (None, d1)"
      and "find_event ev d1 = Some sale"
      and "ev_sale_starts sale \<le> e_now E" and "e_now E < ev_sale_ends sale"
      and "length (select_seats ev ids d1) = length ids"
      and "\<not> list_ex (unavailable (e_now E)) (select_seats ev ids d1)"
      and "create_hold E 2 actor ev (ev_currency sale) (e_uuid E 0) (e_uuid E 1)
        (e_now E + hs * 1000000) (select_seats ev ids d1) ids d1 = Inr d2"
      and "resp = hold_response (e_uuid E 0) (e_uuid E 1) (e_now E + hs * 1000000)
        (sum_list (map s_price (select_seats ev ids d1))) (ev_currency sale) ids"
      and "d' = remember actor ''hold'' key resp d2"
proof -
  obtain rep d1 where i: "idem E actor ''hold'' key (reserve_request ev ids) d = Inr (rep, d1)"
    using assms by (auto simp: reserve_tx_def ebind_Inr_iff)
  show ?thesis
  proof (cases rep)
    case (Some r)
    with assms i show ?thesis by (intro replay) (simp add: reserve_tx_def)
  next
    case None
    obtain sale where sale: "find_event ev d1 = Some sale"
      using assms i None
      by (cases "find_event ev d1") (auto simp: reserve_tx_def find_sale_def)
    with assms i None obtain d2 where
      "create_hold E 2 actor ev (ev_currency sale) (e_uuid E 0) (e_uuid E 1)
        (e_now E + hs * 1000000) (select_seats ev ids d1) ids d1 = Inr d2"
      by (auto simp: reserve_tx_def ebind_Inr_iff find_sale_def Let_def)
    with assms i None sale show ?thesis
      by (intro created [of d1 sale d2])
        (auto simp: reserve_tx_def ebind_Inr_iff find_sale_def Let_def)
  qed
qed

lemma reserve_tx_inv:
  assumes inv: "store_inv d" and r: "reserve_tx E hs actor ev ids key d = Inr (resp, d')"
  shows "store_inv d'"
  using r
proof (cases rule: reserve_tx_cases)
  case replay
  then show ?thesis using inv by (auto elim: idem_replay)
next
  case (created sale d1 d2)
  have "money_inv d1" using inv idem_money [OF created(1)] by (simp add: store_inv_iff)
  then have "money_inv d2" by (rule create_hold_money [OF _ created(7)])
  then show ?thesis
    using remember_inv [OF inv created(1)] create_hold_idem [OF created(7)] created(9) by simp
qed

lemma insert_command_effect:
  "insert_command c d = Inr d' \<Longrightarrow>
     d' = d\<lparr>reservation_commands := reservation_commands d @ [c]\<rparr> \<and>
     m_id c \<notin> m_id ` set (reservation_commands d)"
  by (auto simp: insert_command_def split: if_splits)

lemma persist_tx_cases:
  assumes "persist_tx E p response d = Inr (resp, d')"
  obtains (known) c where "c \<in> set (reservation_commands d)" and "m_id c = cp_command_id p"
      and "m_request_hash c = cp_request_hash p" and "resp = m_response c" and "d' = d"
    | (replay) "cp_command_id p \<notin> m_id ` set (reservation_commands d)"
      and "idem E (cp_actor p) ''hold'' (cp_key p) (reserve_request (cp_event p) (sort (cp_seats p))) d
        = Inr (Some resp, d')"
      and "jget ''hold_id'' resp = Some (JStr (cp_hold p))" and "jget ''order_id'' resp = Some (JStr (cp_order p))"
    | (created) sale d1 d2 where "cp_command_id p \<notin> m_id ` set (reservation_commands d)"
      and "idem E (cp_actor p) ''hold'' (cp_key p) (reserve_request (cp_event p) (sort (cp_seats p))) d
        = Inr (None, d1)"
      and "find_event (cp_event p) d1 = Some sale"
      and "ev_sale_starts sale \<le> e_now E" and "e_now E < ev_sale_ends sale"
      and "length (select_seats (cp_event p) (sort (cp_seats p)) d1) = length (cp_seats p)"
      and "e_now E < cp_expires p"
      and "\<not> list_ex (unavailable_to (cp_hold p) (e_now E)) (select_seats (cp_event p) (sort (cp_seats p)) d1)"
      and "create_hold E 0 (cp_actor p) (cp_event p) (ev_currency sale) (cp_hold p) (cp_order p)
        (cp_expires p) (select_seats (cp_event p) (sort (cp_seats p)) d1) (sort (cp_seats p)) d1 = Inr d2"
      and "resp = durable_response response (sum_list (map s_price
        (select_seats (cp_event p) (sort (cp_seats p)) d1))) (ev_currency sale) (cp_expires p)"
      and "insert_command \<lparr>m_id = cp_command_id p, m_actor = cp_actor p, m_key = cp_key p,
        m_request_hash = cp_request_hash p, m_event = cp_event p, m_hold = cp_hold p,
        m_order = cp_order p, m_response = resp\<rparr> (remember (cp_actor p) ''hold'' (cp_key p) resp d2) = Inr d'"
proof (cases "find (\<lambda>c. m_id c = cp_command_id p) (reservation_commands d)")
  case (Some c)
  with assms show ?thesis
    using find_Some_mem [OF Some] by (intro known [of c]) (auto simp: persist_tx_def split: if_splits)
next
  case None
  then have new: "cp_command_id p \<notin> m_id ` set (reservation_commands d)" by (simp add: find_key_None [where key = m_id])
  let ?req = "reserve_request (cp_event p) (sort (cp_seats p))"
  obtain rep d1 where i: "idem E (cp_actor p) ''hold'' (cp_key p) ?req d = Inr (rep, d1)"
    using assms None by (auto simp: persist_tx_def ebind_Inr_iff)
  show ?thesis
  proof (cases rep)
    case (Some r)
    have "r = resp \<and> d1 = d' \<and> jget ''hold_id'' resp = Some (JStr (cp_hold p)) \<and> jget ''order_id'' resp = Some (JStr (cp_order p))"
      using assms i Some None by (auto simp: persist_tx_def ebind_Inr_iff split: if_splits)
    with new i Some show ?thesis by (intro replay) simp_all
  next
    case rep: None
    obtain sale where sale: "find_event (cp_event p) d1 = Some sale"
      using assms i rep None by (cases "find_event (cp_event p) d1") (auto simp: persist_tx_def find_sale_def)
    with assms i rep None obtain d2 where
      "create_hold E 0 (cp_actor p) (cp_event p) (ev_currency sale) (cp_hold p) (cp_order p)
        (cp_expires p) (select_seats (cp_event p) (sort (cp_seats p)) d1) (sort (cp_seats p)) d1 = Inr d2"
      by (auto simp: persist_tx_def ebind_Inr_iff find_sale_def Let_def)
    with assms i rep None sale new show ?thesis
      by (intro created [of d1 sale d2])
        (auto simp: persist_tx_def ebind_Inr_iff find_sale_def Let_def)
  qed
qed

lemma store_inv_cong:
  assumes "holds d' = holds d" "orders d' = orders d" "event_seats d' = event_seats d"
    "order_items d' = order_items d" "bookings d' = bookings d" "payment_attempts d' = payment_attempts d"
    "payment_callbacks d' = payment_callbacks d" "refund_requests d' = refund_requests d"
    "outbox_events d' = outbox_events d" "tickets d' = tickets d"
    "idempotency_records d' = idempotency_records d"
  shows "store_inv d' = store_inv d"
  using money_inv_cong [OF assms(1-10)] idem_inv_cong [OF assms(11)] by (simp add: store_inv_iff)

lemma persist_tx_inv:
  assumes inv: "store_inv d" and r: "persist_tx E p response d = Inr (resp, d')"
  shows "store_inv d'"
  using r
proof (cases rule: persist_tx_cases)
  case known
  then show ?thesis using inv by simp
next
  case replay
  then show ?thesis using inv by (auto elim: idem_replay)
next
  case (created sale d1 d2)
  have "money_inv d1" using inv idem_money [OF created(2)] by (simp add: store_inv_iff)
  then have "money_inv d2" by (rule create_hold_money [OF _ created(9)])
  then have "store_inv (remember (cp_actor p) ''hold'' (cp_key p) resp d2)"
    using remember_inv [OF inv created(2)] create_hold_idem [OF created(9)] by simp
  then show ?thesis
    using insert_command_effect [OF created(11)]
      store_inv_cong [of d' "remember (cp_actor p) ''hold'' (cp_key p) resp d2"] by simp
qed

lemma checkout_tx_cases:
  assumes "checkout_tx E actor hold_id key d = Inr (resp, d')"
  obtains (replay) "idem E actor ''order'' key (JObj [(''hold_id'', JStr hold_id)]) d = Inr (Some resp, d')"
    | (read) row d1 where "idem E actor ''order'' key (JObj [(''hold_id'', JStr hold_id)]) d = Inr (None, d1)"
      and "order_of_hold actor hold_id d1 = Some row"
      and "o_status row = O_PENDING \<longrightarrow> (\<exists>h. find_hold hold_id d1 = Some h \<and> e_now E < h_expires h)"
      and "resp = order_response row" and "d' = remember actor ''order'' key resp d1"
proof -
  obtain rep d1 where i: "idem E actor ''order'' key (JObj [(''hold_id'', JStr hold_id)]) d = Inr (rep, d1)"
    using assms by (auto simp: checkout_tx_def ebind_Inr_iff)
  show ?thesis
  proof (cases rep)
    case (Some r)
    with assms i show ?thesis by (intro replay) (simp add: checkout_tx_def)
  next
    case None
    obtain row where "order_of_hold actor hold_id d1 = Some row"
      using assms i None by (cases "order_of_hold actor hold_id d1") (auto simp: checkout_tx_def ebind_Inr_iff)
    with assms i None show ?thesis
      by (intro read [of d1 row]) (auto simp: checkout_tx_def ebind_Inr_iff split: if_splits)
  qed
qed

lemma checkout_tx_inv:
  assumes inv: "store_inv d" and r: "checkout_tx E actor hold_id key d = Inr (resp, d')"
  shows "store_inv d'"
  using r
proof (cases rule: checkout_tx_cases)
  case replay
  then show ?thesis using inv by (auto elim: idem_replay)
next
  case (read row d1)
  have "money_inv d1" using inv idem_money [OF read(1)] by (simp add: store_inv_iff)
  then show ?thesis using remember_inv [OF inv read(1)] read(5) by simp
qed

section \<open>Releasing and expiring\<close>

lemma release_order_inv:
  assumes inv: "store_inv d" and r0: "r0 \<in> set (orders d)" "o_id r0 = o_id order" "o_hold r0 = o_hold order"
    and ns: "\<not> sold (o_status r0)" and st: "state = H_RELEASED \<or> state = H_EXPIRED"
    and rel: "release_order E n order state d = Inr d'"
  shows "store_inv d'"
  using release_order_money(1) [OF _ r0 ns st rel] inv idem_inv_cong [of d' d]
  by (simp add: store_inv_iff release_order_effect(1) [OF rel])

lemma order_of_hold_Some:
  "order_of_hold actor hold_id d = Some r \<Longrightarrow> r \<in> set (orders d) \<and> o_hold r = hold_id \<and> o_actor r = actor"
  unfolding order_of_hold_def by (drule find_Some_mem) simp

lemma release_tx_success:
  assumes "release_tx E actor hold_id d = Inr (resp, d')"
  obtains order where "order_of_hold actor hold_id d = Some order" and "\<not> sold (o_status order)"
    and "release_order E 0 order H_RELEASED d = Inr d'" and "resp = JObj [(''status'', JStr ''RELEASED'')]"
  using assms
  by (cases "order_of_hold actor hold_id d") (auto simp: release_tx_def ebind_Inr_iff sold_def split: if_splits)

lemma release_tx_inv:
  assumes inv: "store_inv d" and r: "release_tx E actor hold_id d = Inr (resp, d')"
  shows "store_inv d'"
  using r
proof (rule release_tx_success)
  fix order
  assume "order_of_hold actor hold_id d = Some order" and ns: "\<not> sold (o_status order)"
    and rel: "release_order E 0 order H_RELEASED d = Inr d'"
  then have "order \<in> set (orders d)" using order_of_hold_Some by blast
  then show ?thesis by (rule release_order_inv [OF inv _ refl refl ns _ rel]) simp
qed

text \<open>A whole batch: each order of the list is one of the database, still unsold.\<close>

lemma release_all_inv:
  assumes "store_inv d" and "\<forall>r\<in>set rs. \<exists>r0\<in>set (orders d). o_id r0 = o_id r \<and> o_hold r0 = o_hold r \<and> \<not> sold (o_status r0)"
    and "release_all E n rs d = Inr d'"
  shows "store_inv d'"
  using assms
proof (induction rs arbitrary: n d)
  case Nil
  then show ?case by simp
next
  case (Cons r rs)
  from Cons.prems(3) obtain d1 where rel: "release_order E n r H_EXPIRED d = Inr d1"
    and rest: "release_all E (Suc n) rs d1 = Inr d'" by (auto simp: ebind_Inr_iff)
  obtain r0 where r0: "r0 \<in> set (orders d)" "o_id r0 = o_id r" "o_hold r0 = o_hold r" "\<not> sold (o_status r0)"
    using Cons.prems(2) by auto
  have inv1: "store_inv d1" by (rule release_order_inv [OF Cons.prems(1) r0 _ rel]) simp
  have "\<exists>r1\<in>set (orders d1). o_id r1 = o_id q \<and> o_hold r1 = o_hold q \<and> \<not> sold (o_status r1)" if q: "q \<in> set rs" for q
  proof -
    obtain q0 where q0: "q0 \<in> set (orders d)" "o_id q0 = o_id q" "o_hold q0 = o_hold q" "\<not> sold (o_status q0)"
      using Cons.prems(2) q by (meson list.set_intros(2))
    show ?thesis
      by (rule bexI [OF _ upd_where_mem [OF q0(1), of "\<lambda>r'. o_id r' = o_id r \<and> o_status r' = O_PENDING"
        "\<lambda>r'. r'\<lparr>o_status := O_EXPIRED\<rparr>", folded release_order_effect(1) [OF rel, THEN arg_cong, of orders, simplified]]])
        (use q0 in simp)
  qed
  then show ?case using Cons.IH [OF inv1 _ rest] by blast
qed

lemma expired_orders_set:
  "(r, h) \<in> set (expired_orders E d) \<longleftrightarrow> r \<in> set (orders d) \<and> h \<in> set (holds d) \<and> h_id h = o_hold r \<and>
     h_status h = H_ACTIVE \<and> h_expires h \<le> e_now E"
  by (auto simp: expired_orders_def)

lemma expired_order_pending:
  assumes inv: "core_inv d" and m: "(r, h) \<in> set (expired_orders E d)"
  shows "o_status r = O_PENDING"
proof -
  have r: "r \<in> set (orders d)" "h \<in> set (holds d)" "h_id h = o_hold r" "h_status h = H_ACTIVE"
    using m by (simp_all add: expired_orders_set)
  obtain h' where "h' \<in> set (holds d)" "h_id h' = o_hold r" "compat (o_status r) (h_status h')"
    by (rule order_hold [OF inv r(1)])
  moreover from this have "h' = h" using hold_unique [OF inv] r by simp
  ultimately show ?thesis using r(4) by (simp add: compat_def)
qed

definition expiring :: "env \<Rightarrow> nat \<Rightarrow> db \<Rightarrow> order_row list" where
  "expiring E limit d = take limit (filter (\<lambda>r. \<not> e_locked E (L_order (o_id r))) (map fst (expired_orders E d)))"

lemma expire_tx_Inr:
  "expire_tx E limit d = Inr (n, d') \<longleftrightarrow> n = length (expiring E limit d) \<and> release_all E 0 (expiring E limit d) d = Inr d'"
  by (auto simp: expire_tx_def expiring_def ebind_Inr_iff Let_def)

lemma expiring_mem:
  assumes "r \<in> set (expiring E limit d)"
  obtains h where "(r, h) \<in> set (expired_orders E d)" and "\<not> e_locked E (L_order (o_id r))"
  using assms by (fastforce simp: expiring_def dest: in_set_takeD)

lemma expire_tx_inv:
  assumes inv: "store_inv d" and r: "expire_tx E limit d = Inr (n, d')"
  shows "store_inv d'"
proof (rule release_all_inv [OF inv])
  show "release_all E 0 (expiring E limit d) d = Inr d'" using r by (simp add: expire_tx_Inr)
  have core: "core_inv d" using inv by (simp add: store_inv_def)
  show "\<forall>r\<in>set (expiring E limit d). \<exists>r0\<in>set (orders d). o_id r0 = o_id r \<and> o_hold r0 = o_hold r \<and> \<not> sold (o_status r0)"
  proof
    fix r assume "r \<in> set (expiring E limit d)"
    then obtain h where "(r, h) \<in> set (expired_orders E d)" by (rule expiring_mem)
    then have "r \<in> set (orders d)" and "o_status r = O_PENDING"
      using expired_order_pending [OF core] by (simp_all add: expired_orders_set)
    then show "\<exists>r0\<in>set (orders d). o_id r0 = o_id r \<and> o_hold r0 = o_hold r \<and> \<not> sold (o_status r0)" by force
  qed
qed

section \<open>Initiating a payment\<close>

lemma insert_payment_effect:
  "insert_payment p d = Inr d' \<Longrightarrow> d' = d\<lparr>payment_attempts := payment_attempts d @ [p]\<rparr> \<and>
     p_id p \<notin> p_id ` set (payment_attempts d) \<and> p_order p \<notin> p_order ` set (payment_attempts d) \<and>
     p_order p \<in> o_id ` set (orders d) \<and> 1 \<le> p_target p \<and> p_target p \<le> 10"
  by (auto simp: insert_payment_def split: if_splits)

lemma insert_payment_money:
  assumes inv: "money_inv d" and i: "insert_payment p d = Inr d'"
    and p: "p_status p = P_PENDING" "fate d (p_order p) = None"
  shows "money_inv d'"
proof -
  have e: "d' = d\<lparr>payment_attempts := payment_attempts d @ [p]\<rparr>" "p_id p \<notin> p_id ` set (payment_attempts d)"
    "p_order p \<notin> p_order ` set (payment_attempts d)" "p_order p \<in> o_id ` set (orders d)"
    using insert_payment_effect [OF i] by simp_all
  have fate: "fate d' = fate d" by (rule fate_cong) (simp add: e(1))
  have "pay_inv d" using inv by (simp add: money_inv_def)
  then have "pay_inv d'" using e(2-4) p fate by (simp add: pay_inv_def e(1))
  with inv fate show ?thesis
    using core_inv_cong [of d' d] event_inv_same [of d' d] ticket_inv_cong [of d' d]
    by (simp add: money_inv_def e(1))
qed

lemma initiate_payment_tx_cases:
  assumes "initiate_payment_tx E actor oid key oc delay dup d = Inr (resp, d')"
  obtains (replay) "idem E actor ''payment'' key (payment_request oid oc delay dup) d = Inr (Some resp, d')"
    | (existing) order p d1 where "idem E actor ''payment'' key (payment_request oid oc delay dup) d = Inr (None, d1)"
      and "order \<in> set (orders d1)" and "o_id order = oid" and "o_actor order = actor"
      and "p \<in> set (payment_attempts d1)" and "p_order p = oid"
      and "resp = payment_response (p_id p) oid" and "d' = remember actor ''payment'' key resp d1"
    | (created) order h d1 d2 where "idem E actor ''payment'' key (payment_request oid oc delay dup) d = Inr (None, d1)"
      and "order \<in> set (orders d1)" and "o_id order = oid" and "o_actor order = actor"
      and "o_status order = O_PENDING" and "find_hold (o_hold order) d1 = Some h" and "e_now E < h_expires h"
      and "insert_payment \<lparr>p_id = e_uuid E 0, p_order = oid, p_status = P_PENDING,
        p_outcome = oc, p_due = e_now E + delay * 1000000, p_deliveries = 0,
        p_target = dup, p_lease_until = None, p_lease_token = None\<rparr> d1 = Inr d2"
      and "resp = payment_response (e_uuid E 0) oid" and "d' = remember actor ''payment'' key resp d2"
proof -
  obtain rep d1 where i: "idem E actor ''payment'' key (payment_request oid oc delay dup) d = Inr (rep, d1)"
    using assms by (auto simp: initiate_payment_tx_def ebind_Inr_iff)
  show ?thesis
  proof (cases rep)
    case (Some r)
    with assms i show ?thesis by (intro replay) (simp add: initiate_payment_tx_def)
  next
    case None
    obtain order where f: "find (\<lambda>r. o_id r = oid \<and> o_actor r = actor) (orders d1) = Some order"
      using assms i None by (cases "find (\<lambda>r. o_id r = oid \<and> o_actor r = actor) (orders d1)")
        (auto simp: initiate_payment_tx_def ebind_Inr_iff Let_def)
    note mem = find_Some_mem [OF f]
    show ?thesis
    proof (cases "find (\<lambda>p. p_order p = oid) (payment_attempts d1)")
      case (Some p)
      with assms i None f mem show ?thesis
        using find_Some_mem [OF Some] by (intro existing [of d1 order p])
          (auto simp: initiate_payment_tx_def ebind_Inr_iff Let_def)
    next
      case nopay: None
      note simps = initiate_payment_tx_def ebind_Inr_iff Let_def i None f nopay
      obtain h where h: "find_hold (o_hold order) d1 = Some h" "o_status order = O_PENDING" "e_now E < h_expires h"
        using assms by (auto simp: simps split: if_splits)
      obtain d2 where "insert_payment \<lparr>p_id = e_uuid E 0, p_order = oid, p_status = P_PENDING,
          p_outcome = oc, p_due = e_now E + delay * 1000000, p_deliveries = 0,
          p_target = dup, p_lease_until = None, p_lease_token = None\<rparr> d1 = Inr d2"
        using assms h by (auto simp: simps)
      with assms h mem i None show ?thesis by (intro created [of d1 order h d2]) (auto simp: simps)
    qed
  qed
qed

lemma initiate_payment_tx_inv:
  assumes inv: "store_inv d" and r: "initiate_payment_tx E actor oid key oc delay dup d = Inr (resp, d')"
  shows "store_inv d'"
  using r
proof (cases rule: initiate_payment_tx_cases)
  case replay
  then show ?thesis using inv by (auto elim: idem_replay)
next
  case (existing order p d1)
  have "money_inv d1" using inv idem_money [OF existing(1)] by (simp add: store_inv_iff)
  then show ?thesis using remember_inv [OF inv existing(1)] existing(8) by simp
next
  case (created order h d1 d2)
  have m1: "money_inv d1" using inv idem_money [OF created(1)] by (simp add: store_inv_iff)
  then have "fate d1 oid = None"
    using fate_order [of d1 order] created(2,3,5) by (auto simp: money_inv_def)
  then have "money_inv d2" by (intro insert_payment_money [OF m1 created(8)]) simp_all
  then show ?thesis
    using remember_inv [OF inv created(1)] insert_payment_effect [OF created(8)] created(10) by simp
qed

end
