(* ===== verification/Store_Contracts.thy ===== *)
theory Store_Contracts
  imports Store_Ops
begin

text \<open>
  The two contracts the operations of the store share, as locales.  \<open>store_op\<close>: a transaction
  body that keeps the invariant; the transaction around it is then atomic and keeps it too.
  \<open>idempotent_op\<close>: an operation under an idempotency key, whose answer is stored with the
  request's digest; repeating it gives the stored answer, and reusing the key is refused.
\<close>

section \<open>Transactions that keep the invariant\<close>

locale store_op =
  fixes body :: "'a \<Rightarrow> db \<Rightarrow> ('b \<times> db) result"
  assumes body_inv: "store_inv d \<Longrightarrow> body a d = Inr (x, d') \<Longrightarrow> store_inv d'"
begin

lemma op_inv: "store_inv d \<Longrightarrow> transaction (body a) d = (r, d') \<Longrightarrow> store_inv d'"
  by (cases rule: transaction_cases [of "body a" d]) (auto dest: body_inv)

lemma op_atomic: "transaction (body a) d = (Inl e, d') \<Longrightarrow> d' = d"
  by (simp add: transaction_result_Inl)

end

interpretation reserve_op: store_op "\<lambda>(E, hs, actor, ev, ids, key). reserve_tx E hs actor ev ids key"
  by unfold_locales (auto intro: reserve_tx_inv)

interpretation persist_op: store_op "\<lambda>(E, p, response). persist_tx E p response"
  by unfold_locales (auto intro: persist_tx_inv)

interpretation checkout_op: store_op "\<lambda>(E, actor, hold_id, key). checkout_tx E actor hold_id key"
  by unfold_locales (auto intro: checkout_tx_inv)

interpretation release_op: store_op "\<lambda>(E, actor, hold_id). release_tx E actor hold_id"
  by unfold_locales (auto intro: release_tx_inv)

interpretation expire_op: store_op "\<lambda>(E, limit). expire_tx E limit"
  by unfold_locales (auto intro: expire_tx_inv)

interpretation payment_op: store_op
  "\<lambda>(E, actor, oid, key, oc, delay, dup). initiate_payment_tx E actor oid key oc delay dup"
  by unfold_locales (auto intro: initiate_payment_tx_inv)

interpretation callback_op: store_op "\<lambda>(E, p). callback_tx E p"
  by unfold_locales (auto intro: callback_tx_inv)

section \<open>Operations under an idempotency key\<close>

locale idempotent_op =
  fixes operation :: string
    and request :: "'q \<Rightarrow> json"
    and body :: "env \<Rightarrow> string \<Rightarrow> string \<Rightarrow> 'q \<Rightarrow> db \<Rightarrow> (json \<times> db) result"
  assumes replay_law: "idem E actor operation key (request q) d = Inr (Some r, d) \<Longrightarrow> body E actor key q d = Inr (r, d)"
    and refusal_law: "idem E actor operation key (request q) d = Inl e \<Longrightarrow> body E actor key q d = Inl e"
    and answer_law: "body E actor key q d = Inr (r, d') \<Longrightarrow>
      idem E actor operation key (request q) d = Inr (Some r, d') \<or>
      (\<exists>d1. idem E actor operation key (request q) d = Inr (None, d1) \<and>
         idempotency_records d' = idempotency_records (remember actor operation key r d1))"
begin

lemma stored_answer:
  assumes "body E actor key q d = Inr (r, d')"
  obtains k where "find (\<lambda>k. idem_key k = (actor, operation, key)) (idempotency_records d') = Some k"
    and "k_request_hash k = digest E (request q)" and "k_response k = Some r"
proof -
  have "\<exists>k. find (\<lambda>k. idem_key k = (actor, operation, key)) (idempotency_records d') = Some k \<and>
      k_request_hash k = digest E (request q) \<and> k_response k = Some r"
  proof (rule disjE [OF answer_law [OF assms]])
    assume "idem E actor operation key (request q) d = Inr (Some r, d')"
    then show ?thesis by (auto elim: idem_replay)
  next
    assume "\<exists>d1. idem E actor operation key (request q) d = Inr (None, d1) \<and>
         idempotency_records d' = idempotency_records (remember actor operation key r d1)"
    then obtain d1 where i: "idem E actor operation key (request q) d = Inr (None, d1)"
      and d': "idempotency_records d' = idempotency_records (remember actor operation key r d1)" by blast
    have "\<exists>k. find (\<lambda>k. idem_key k = (actor, operation, key)) (idempotency_records d1) = Some k \<and>
        k_request_hash k = digest E (request q)"
      using i
    proof (cases rule: idem_cases)
      case fresh
      have none: "find (\<lambda>k. idem_key k = (actor, operation, key)) (idempotency_records d) = None"
        using fresh(2) by (simp add: find_key_None)
      have "find (\<lambda>k. idem_key k = (actor, operation, key)) (xs @ [new_idem E actor operation key (request q)])
          = Some (new_idem E actor operation key (request q))"
        if "find (\<lambda>k. idem_key k = (actor, operation, key)) xs = None" for xs
        using that by (induction xs) (auto simp: new_idem_def idem_key_def split: if_splits)
      from this [OF none] show ?thesis by (simp add: fresh(3) new_idem_def)
    next
      case (replay k)
      then show ?thesis by simp
    qed
    then obtain k where k: "find (\<lambda>k. idem_key k = (actor, operation, key)) (idempotency_records d1) = Some k"
      "k_request_hash k = digest E (request q)" by blast
    have "(actor, operation, key) \<in> idem_key ` set (idempotency_records d1)"
      using find_Some_mem [OF k(1)] by (metis imageI)
    then obtain k' where k': "find (\<lambda>k. idem_key k = (actor, operation, key)) (idempotency_records d1) = Some k'"
      "find (\<lambda>k. idem_key k = (actor, operation, key)) (idempotency_records (remember actor operation key r d1))
           = Some (k'\<lparr>k_response := Some r\<rparr>)"
      by (rule find_remember)
    then show ?thesis using k d' by simp
  qed
  then show ?thesis using that by blast
qed

lemma repeat_same:
  assumes "body E actor key q d = Inr (r, d')" and "digest E' (request q') = digest E (request q)"
    and "\<not> e_locked E' (L_idem actor operation key)"
  shows "body E' actor key q' d' = Inr (r, d')"
  by (rule stored_answer [OF assms(1)]) (rule replay_law, simp add: idem_def assms)

lemma repeat_other:
  assumes "body E actor key q d = Inr (r, d')" and "digest E' (request q') \<noteq> digest E (request q)"
    and "\<not> e_locked E' (L_idem actor operation key)"
  shows "body E' actor key q' d' = Inl (Failure ''IDEMPOTENCY_MISMATCH'' 409)"
  by (rule stored_answer [OF assms(1)]) (rule refusal_law, use assms in \<open>simp add: idem_def\<close>)

end

lemma reserve_tx_answer:
  assumes "reserve_tx E hs actor ev ids key d = Inr (r, d')"
  shows "idem E actor ''hold'' key (reserve_request ev ids) d = Inr (Some r, d') \<or>
    (\<exists>d1. idem E actor ''hold'' key (reserve_request ev ids) d = Inr (None, d1) \<and>
       idempotency_records d' = idempotency_records (remember actor ''hold'' key r d1))"
  using assms
proof (cases rule: reserve_tx_cases)
  case (created sale d1 d2)
  then show ?thesis using create_hold_idem [OF created(7)] by simp
qed simp

lemma initiate_payment_tx_answer:
  assumes "initiate_payment_tx E actor oid key oc delay dup d = Inr (r, d')"
  shows "idem E actor ''payment'' key (payment_request oid oc delay dup) d = Inr (Some r, d') \<or>
    (\<exists>d1. idem E actor ''payment'' key (payment_request oid oc delay dup) d = Inr (None, d1) \<and>
       idempotency_records d' = idempotency_records (remember actor ''payment'' key r d1))"
  using assms
proof (cases rule: initiate_payment_tx_cases)
  case (created order h d1 d2)
  then show ?thesis using insert_payment_effect [OF created(8)] by simp
qed simp_all

lemma checkout_tx_answer:
  assumes "checkout_tx E actor hold_id key d = Inr (r, d')"
  shows "idem E actor ''order'' key (JObj [(''hold_id'', JStr hold_id)]) d = Inr (Some r, d') \<or>
    (\<exists>d1. idem E actor ''order'' key (JObj [(''hold_id'', JStr hold_id)]) d = Inr (None, d1) \<and>
       idempotency_records d' = idempotency_records (remember actor ''order'' key r d1))"
  using assms by (cases rule: checkout_tx_cases) simp_all

lemma reserve_tx_replayed:
  "idem E actor ''hold'' key (reserve_request ev ids) d = Inr (Some r, d) \<Longrightarrow> reserve_tx E hs actor ev ids key d = Inr (r, d)"
  "idem E actor ''hold'' key (reserve_request ev ids) d = Inl e \<Longrightarrow> reserve_tx E hs actor ev ids key d = Inl e"
  by (simp_all add: reserve_tx_def)

lemma checkout_tx_replayed:
  "idem E actor ''order'' key (JObj [(''hold_id'', JStr hold_id)]) d = Inr (Some r, d) \<Longrightarrow> checkout_tx E actor hold_id key d = Inr (r, d)"
  "idem E actor ''order'' key (JObj [(''hold_id'', JStr hold_id)]) d = Inl e \<Longrightarrow> checkout_tx E actor hold_id key d = Inl e"
  by (simp_all add: checkout_tx_def)

lemma initiate_payment_tx_replayed:
  "idem E actor ''payment'' key (payment_request oid oc delay dup) d = Inr (Some r, d) \<Longrightarrow>
     initiate_payment_tx E actor oid key oc delay dup d = Inr (r, d)"
  "idem E actor ''payment'' key (payment_request oid oc delay dup) d = Inl e \<Longrightarrow>
     initiate_payment_tx E actor oid key oc delay dup d = Inl e"
  by (simp_all add: initiate_payment_tx_def)

interpretation reserving: idempotent_op "''hold''" "\<lambda>(ev, ids). reserve_request ev ids"
  "\<lambda>E actor key (ev, ids). reserve_tx E hold_seconds actor ev ids key" for hold_seconds
proof (unfold_locales, goal_cases)
  case (1 E actor key q d r)
  then show ?case by (cases q) (simp add: reserve_tx_replayed)
next
  case (2 E actor key q d e)
  then show ?case by (cases q) (simp add: reserve_tx_replayed)
next
  case (3 E actor key q d r d')
  then show ?case by (cases q) (use reserve_tx_answer in simp)
qed

interpretation checking_out: idempotent_op "''order''" "\<lambda>hold_id. JObj [(''hold_id'', JStr hold_id)]"
  "\<lambda>E actor key hold_id. checkout_tx E actor hold_id key"
proof (unfold_locales, goal_cases)
  case (1 E actor key q d r)
  then show ?case by (rule checkout_tx_replayed(1))
next
  case (2 E actor key q d e)
  then show ?case by (rule checkout_tx_replayed(2))
next
  case (3 E actor key q d r d')
  then show ?case by (rule checkout_tx_answer)
qed

interpretation paying: idempotent_op "''payment''" "\<lambda>(oid, oc, delay, dup). payment_request oid oc delay dup"
  "\<lambda>E actor key (oid, oc, delay, dup). initiate_payment_tx E actor oid key oc delay dup"
proof (unfold_locales, goal_cases)
  case (1 E actor key q d r)
  then show ?case by (cases q) (simp add: initiate_payment_tx_replayed)
next
  case (2 E actor key q d e)
  then show ?case by (cases q) (simp add: initiate_payment_tx_replayed)
next
  case (3 E actor key q d r d')
  obtain oid oc delay dup where q: "q = (oid, oc, delay, dup)" by (cases q)
  from 3 show ?case unfolding q prod.case by (rule initiate_payment_tx_answer)
qed

end
