(* ===== verification/Store_Evolves.thy ===== *)
theory Store_Evolves
  imports Store_Contracts
begin

text \<open>
  How seats change over time: no operation of the store moves a seat to another key or price, every
  change of a row raises its version, and a booked seat stays booked for the same order.
\<close>

definition seat_evolves :: "seat_row \<Rightarrow> seat_row \<Rightarrow> bool" where
  "seat_evolves s s' \<longleftrightarrow> seat_key s' = seat_key s \<and> s_price s' = s_price s \<and>
     (s' = s \<or> s_version s < s_version s') \<and> (\<forall>oid. s_booked s = Some oid \<longrightarrow> s_booked s' = Some oid)"

definition seats_evolve :: "db \<Rightarrow> db \<Rightarrow> bool" where
  "seats_evolve d d' \<longleftrightarrow> list_all2 seat_evolves (event_seats d) (event_seats d')"

lemma seat_evolves_refl [simp]: "seat_evolves s s"
  by (simp add: seat_evolves_def)

lemma seat_evolves_trans: "seat_evolves s s' \<Longrightarrow> seat_evolves s' s'' \<Longrightarrow> seat_evolves s s''"
  by (auto simp: seat_evolves_def)

lemma seats_evolve_same: "event_seats d' = event_seats d \<Longrightarrow> seats_evolve d d'"
  by (simp add: seats_evolve_def list_all2_refl)

lemma seats_evolve_trans: "seats_evolve d d' \<Longrightarrow> seats_evolve d' d'' \<Longrightarrow> seats_evolve d d''"
  unfolding seats_evolve_def by (rule list_all2_trans [OF seat_evolves_trans])

lemma seats_evolve_upd:
  assumes "event_seats d' = upd_where P f (event_seats d)"
    and "\<forall>s\<in>set (event_seats d). P s \<longrightarrow> seat_evolves s (f s)"
  shows "seats_evolve d d'"
proof -
  have "list_all2 seat_evolves xs (upd_where P f xs)" if "\<forall>s\<in>set xs. P s \<longrightarrow> seat_evolves s (f s)" for xs
    using that by (induction xs) auto
  then show ?thesis using assms by (simp add: seats_evolve_def)
qed

lemma seats_evolve_find:
  assumes "seats_evolve d d'" and "s \<in> set (event_seats d)"
  obtains s' where "s' \<in> set (event_seats d')" and "seat_evolves s s'"
proof -
  from assms(2) obtain i where i: "i < length (event_seats d)" "event_seats d ! i = s" by (auto simp: in_set_conv_nth)
  then have "seat_evolves s (event_seats d' ! i)" and "i < length (event_seats d')"
    using assms(1) by (auto simp: seats_evolve_def list_all2_conv_all_nth)
  then show ?thesis using that nth_mem by blast
qed

section \<open>The operations\<close>

lemma change_evolves:
  "s_booked s = None \<Longrightarrow> seat_evolves s (take_seat h t s)"
  "s_booked s = None \<Longrightarrow> seat_evolves s (free_seat s)"
  "s_booked s = None \<Longrightarrow> seat_evolves s (sell_seat oid s)"
  by (simp_all add: seat_evolves_def) (simp_all add: seat_change_defs)

lemma create_hold_evolves:
  assumes "create_hold E n actor ev cur hold order expires rows ids d = Inr d'"
  shows "seats_evolve d d'"
  by (rule seats_evolve_upd [where P = "\<lambda>s. s_event s = ev \<and> s_id s \<in> set ids" and f = "take_seat hold expires"])
    (use create_hold_effect(1,8) [OF assms] in \<open>auto intro: change_evolves\<close>)

lemma release_order_evolves:
  assumes "release_order E n order state d = Inr d'"
  shows "seats_evolve d d'"
  by (rule seats_evolve_upd [where P = "\<lambda>s. s_hold s = Some (o_hold order) \<and> s_booked s = None" and f = free_seat])
    (use release_order_effect(1) [OF assms] in \<open>auto intro: change_evolves\<close>)

lemma book_order_evolves:
  assumes "book_order E order hold rows d = Inr d'" and "core_inv d"
  shows "seats_evolve d d'"
proof (rule seats_evolve_upd [where P = "\<lambda>s. s_hold s = Some hold" and f = "sell_seat (o_id order)"])
  show "event_seats d' = upd_where (\<lambda>s. s_hold s = Some hold) (sell_seat (o_id order)) (event_seats d)"
    using book_order_effect(1) [OF assms(1)] by simp
  show "\<forall>s\<in>set (event_seats d). s_hold s = Some hold \<longrightarrow> seat_evolves s (sell_seat (o_id order) s)"
    using assms(2) by (auto simp: core_inv_def seat_inv_def seat_ok_def seat_check_def intro: change_evolves)
qed

lemma release_all_evolves: "release_all E n rs d = Inr d' \<Longrightarrow> seats_evolve d d'"
proof (induction rs arbitrary: n d)
  case Nil
  then show ?case by (simp add: seats_evolve_same)
next
  case (Cons r rs)
  then obtain d1 where "release_order E n r H_EXPIRED d = Inr d1" "release_all E (Suc n) rs d1 = Inr d'"
    by (auto simp: ebind_Inr_iff)
  then show ?case using Cons.IH release_order_evolves seats_evolve_trans by blast
qed

lemma idem_seats: "idem E a op k req d = Inr (r, d1) \<Longrightarrow> event_seats d1 = event_seats d"
  by (cases rule: idem_cases) auto

lemma reserve_tx_evolves:
  assumes "reserve_tx E hs actor ev ids key d = Inr (r, d')"
  shows "seats_evolve d d'"
  using assms
proof (cases rule: reserve_tx_cases)
  case replay
  then show ?thesis by (simp add: seats_evolve_same idem_seats)
next
  case (created sale d1 d2)
  have "seats_evolve d d1" using idem_seats [OF created(1)] by (rule seats_evolve_same)
  moreover have "seats_evolve d1 d2" by (rule create_hold_evolves [OF created(7)])
  moreover have "seats_evolve d2 d'" using created(9) by (simp add: seats_evolve_same)
  ultimately show ?thesis using seats_evolve_trans by blast
qed

lemma persist_tx_evolves:
  assumes "persist_tx E p response d = Inr (r, d')"
  shows "seats_evolve d d'"
  using assms
proof (cases rule: persist_tx_cases)
  case known
  then show ?thesis by (simp add: seats_evolve_same)
next
  case replay
  then show ?thesis by (simp add: seats_evolve_same idem_seats)
next
  case (created sale d1 d2)
  have "seats_evolve d d1" using idem_seats [OF created(2)] by (rule seats_evolve_same)
  moreover have "seats_evolve d1 d2" by (rule create_hold_evolves [OF created(9)])
  moreover have "seats_evolve d2 d'" using insert_command_effect [OF created(11)] by (simp add: seats_evolve_same)
  ultimately show ?thesis using seats_evolve_trans by blast
qed

lemma checkout_tx_evolves: "checkout_tx E actor h key d = Inr (r, d') \<Longrightarrow> seats_evolve d d'"
  by (cases rule: checkout_tx_cases) (auto simp: seats_evolve_same idem_seats)

lemma initiate_payment_tx_evolves:
  assumes "initiate_payment_tx E actor oid key oc delay dup d = Inr (r, d')"
  shows "seats_evolve d d'"
  using assms
proof (cases rule: initiate_payment_tx_cases)
  case (created order h d1 d2)
  then show ?thesis using idem_seats [OF created(1)] insert_payment_effect [OF created(8)] by (simp add: seats_evolve_same)
qed (auto simp: seats_evolve_same idem_seats)

lemma close_order_evolves:
  assumes "close_order E order pid refund d = Inr d'"
  shows "seats_evolve d d'"
proof -
  obtain d1 st where rel: "release_order E 0 order st d = Inr d1" and s: "event_seats d' = event_seats d1"
  proof (cases refund)
    case True
    then have c: "close_order E order pid True d = Inr d'" using assms by simp
    obtain d1 d2 where "release_order E 0 order H_EXPIRED d = Inr d1"
      and i: "insert_refund \<lparr>r_payment = pid, r_order = o_id order, r_status = R_PENDING\<rparr>
        (d1\<lparr>orders := upd_where (\<lambda>r. o_id r = o_id order) (\<lambda>r. r\<lparr>o_status := O_REFUND_PENDING\<rparr>) (orders d1)\<rparr>) = Inr d2"
      and "event E 1 (o_id order) ''RefundRequested''
        (JObj [(''payment_id'', JStr pid), (''order_id'', JStr (o_id order))]) d2 = Inr d'"
      using close_order_refund [OF c] by blast
    moreover have "event_seats d2 = event_seats d1" using i by (simp add: insert_refund_def split: if_splits) auto
    ultimately show ?thesis by (intro that [of H_EXPIRED d1]) (simp_all add: event_Inr)
  next
    case False
    then have c: "close_order E order pid False d = Inr d'" using assms by simp
    obtain d1 where "release_order E 0 order H_RELEASED d = Inr d1"
      and "d' = d1\<lparr>orders := upd_where (\<lambda>r. o_id r = o_id order) (\<lambda>r. r\<lparr>o_status := O_FAILED\<rparr>) (orders d1)\<rparr>"
      using close_order_failed [OF c] by blast
    then show ?thesis by (intro that [of H_RELEASED d1]) simp_all
  qed
  have "seats_evolve d d1" by (rule release_order_evolves [OF rel])
  then show ?thesis using s by (simp add: seats_evolve_def)
qed

lemma settle_evolves:
  assumes core: "core_inv d" and s: "settle E cb order payment d = Inr (st, d')"
  shows "seats_evolve d d'"
proof -
  obtain valid d1 where
    c: "(case payment_decision (o_status order) valid (cb_outcome cb) of
         D_BOOK \<Rightarrow> ebind (not_none (find_hold (o_hold order) d)) (\<lambda>h. book_order E order (h_id h)
           (order_seats (o_id order) d) (set_payment_status (p_id payment) (cb_outcome cb) d))
       | D_REFUND \<Rightarrow> close_order E order (p_id payment) True (set_payment_status (p_id payment) (cb_outcome cb) d)
       | D_FAILED \<Rightarrow> close_order E order (p_id payment) False (set_payment_status (p_id payment) (cb_outcome cb) d)
       | D_UNCHANGED \<Rightarrow> Inr (set_payment_status (p_id payment) (cb_outcome cb) d)) = Inr d1"
    and e: "event E 2 (o_id order) ''SeatsChanged''
        (seats_payload (o_event order) (map s_id (order_seats (o_id order) d))) d1 = Inr d'"
    using settle_decision [OF s] by blast
  let ?d0 = "set_payment_status (p_id payment) (cb_outcome cb) d"
  have core0: "core_inv ?d0" using core by (simp add: set_payment_status_core)
  have "seats_evolve ?d0 d1"
    using c core0 by (cases "payment_decision (o_status order) valid (cb_outcome cb)")
      (auto simp: ebind_Inr_iff seats_evolve_same intro: book_order_evolves close_order_evolves)
  then show ?thesis using e by (simp add: seats_evolve_def event_Inr)
qed

lemma callback_tx_evolves:
  assumes inv: "store_inv d" and c: "callback_tx E p d = Inr (st, d')"
  shows "seats_evolve d d'"
proof -
  have m: "money_inv d" using inv by (simp add: store_inv_iff)
  from c show ?thesis
  proof (cases rule: callback_tx_cases)
    case duplicate_id
    then show ?thesis by (simp add: seats_evolve_same)
  next
    case (duplicate_success payment)
    show ?thesis using insert_callback_money(2) [OF m duplicate_success(5)] by (simp add: seats_evolve_same)
  next
    case (new payment order d1)
    note d1 = insert_callback_money [OF m new(9)]
    have "seats_evolve d1 d'" by (rule settle_evolves [OF _ new(10)]) (use d1(1) in \<open>simp add: money_inv_def\<close>)
    then show ?thesis using d1(2) by (simp add: seats_evolve_def)
  qed
qed

lemma release_tx_evolves: "release_tx E actor h d = Inr (r, d') \<Longrightarrow> seats_evolve d d'"
  by (rule release_tx_success) (auto intro: release_order_evolves)

lemma expire_tx_evolves: "expire_tx E limit d = Inr (n, d') \<Longrightarrow> seats_evolve d d'"
  by (auto simp: expire_tx_Inr intro: release_all_evolves)

lemmas tx_evolves = reserve_tx_evolves persist_tx_evolves checkout_tx_evolves initiate_payment_tx_evolves
  release_tx_evolves expire_tx_evolves

end
