(* ===== verification/Refresh_Facts.thy ===== *)
theory Refresh_Facts
  imports Refresh Store_Inv
begin

text \<open>
  Facts about the projection: a snapshot brings every seat of the map at least up to the database
  row it read, refresh requests that arrive while a refresh runs are not lost, and a worker whose
  lease was taken over cannot complete another worker's claim.
\<close>

section \<open>Snapshots\<close>

lemma seat_state_sel [simp]:
  "cs_id (seat_state r) = s_id r" "cs_source (seat_state r) = s_version r"
  by (simp_all add: seat_state_def)

lemma event_rows_set: "set (event_rows e d) = {s \<in> set (event_seats d). s_event s = e}"
  by (auto simp: event_rows_def)

lemma event_rows_distinct:
  assumes "distinct (map seat_key (event_seats d))"
  shows "distinct (map s_id (event_rows e d))"
proof -
  have "distinct (map s_id (filter (\<lambda>s. s_event s = e) (event_seats d)))"
    using assms by (induction "event_seats d") (auto simp: distinct_map inj_on_def seat_key_def)
  moreover have "distinct (map s_id (sort_key s_id xs)) = distinct (map s_id xs)" for xs :: "seat_row list"
    by (simp add: distinct_map)
  ultimately show ?thesis by (simp add: event_rows_def)
qed

lemma snapshot_seats_ids: "map cs_id (snapshot_seats rows) = map s_id rows"
  by (simp add: snapshot_seats_def o_def)

lemma find_snapshot_seat:
  assumes "distinct (map s_id rows)" and "r \<in> set rows"
  shows "\<exists>v. find_cseat (s_id r) (snapshot_seats rows) = Some ((seat_state r)\<lparr>cs_version := Some v\<rparr>)"
proof -
  have d: "distinct (map cs_id (snapshot_seats rows))" using assms(1) by (simp only: snapshot_seats_ids)
  have "(seat_state r)\<lparr>cs_version := Some (sum_list (map s_version rows))\<rparr> \<in> set (snapshot_seats rows)"
    using assms(2) by (auto simp: snapshot_seats_def)
  from find_cseat_mem [OF d this] show ?thesis by auto
qed

lemma snapshot_put:
  assumes "snapshot C e d maps = (Inr (), maps')"
  obtains a where "maps' = maps(e := snd (put_script (ce_now C) (Some a) (snapshot_seats (event_rows e d)) (maps e)))"
  using assms
  by (auto simp: snapshot_def put_map_def Let_def split_def split: option.splits if_splits)


section \<open>Refresh requests\<close>

lemma complete_row_Inr:
  assumes "complete_row E token cd t row d = Inr d'"
  shows "d' = d\<lparr>seat_refresh_requests := upd_where (\<lambda>r. f_event r = f_event row \<and> f_lease_token r = Some token)
     (finish_row E cd t row) (seat_refresh_requests d)\<rparr>"
  using assms by (simp add: complete_row_def Let_def split: if_splits)

lemma claim_refresh_Inr:
  assumes "claim_refresh E token limit d = Inr (rows, d')"
  shows "rows = refresh_due E limit d"
    and "d' = d\<lparr>seat_refresh_requests := upd_where (\<lambda>r. f_event r \<in> f_event ` set rows)
      (\<lambda>r. r\<lparr>f_lease_token := Some token, f_lease_until := Some (e_now E + 30 * 1000000)\<rparr>) (seat_refresh_requests d)\<rparr>"
proof -
  show rows: "rows = refresh_due E limit d" using assms by (simp add: claim_refresh_def Let_def split: if_splits)
  show "d' = d\<lparr>seat_refresh_requests := upd_where (\<lambda>r. f_event r \<in> f_event ` set rows)
      (\<lambda>r. r\<lparr>f_lease_token := Some token, f_lease_until := Some (e_now E + 30 * 1000000)\<rparr>) (seat_refresh_requests d)\<rparr>"
  proof (cases "rows = []")
    case True
    then have "d' = d" using assms rows by (simp add: claim_refresh_def)
    with True show ?thesis by (simp add: upd_where_id)
  next
    case False
    then show ?thesis using assms rows by (simp add: claim_refresh_def Let_def)
  qed
qed

lemma refresh_due_mem:
  assumes "r \<in> set (refresh_due E limit d)"
  shows "r \<in> set (seat_refresh_requests d)" and "f_completed r < f_generation r"
  using assms by (auto simp: refresh_due_def dest!: in_set_takeD)

text \<open>
  Property C32.  No refresh request is lost: when \<open>request_refresh\<close> for some seats runs while a
  worker is refreshing that event, then after the worker completes its claim the event is still
  pending, and what is pending is a full refresh or includes every requested seat.
\<close>

theorem refresh_request_not_lost:
  assumes keys: "distinct (map f_event (seat_refresh_requests d))"
    and claim: "claim_refresh E token limit d = Inr (rows, d1)" and row: "row \<in> set rows"
    and req: "request_refresh E' (f_event row) (Some ids) d1 = Inr d2"
    and complete: "complete_row E'' token cooldown_ms claimed_at row d2 = Inr d3"
  shows "\<exists>r\<in>set (seat_refresh_requests d3). f_event r = f_event row \<and> f_completed r < f_generation r \<and>
     (\<forall>xs. f_seats r = Some xs \<longrightarrow> set ids \<subseteq> set xs)"
proof -
  let ?lease = "\<lambda>r. r\<lparr>f_lease_token := Some token, f_lease_until := Some (e_now E + 30 * 1000000)\<rparr>"
  have mem: "row \<in> set (seat_refresh_requests d)" "f_completed row < f_generation row"
    using refresh_due_mem row claim_refresh_Inr(1) [OF claim] by auto
  have "(if f_event row \<in> f_event ` set rows then ?lease row else row) \<in> set (seat_refresh_requests d1)"
    unfolding claim_refresh_Inr(2) [OF claim]
    using upd_where_mem [OF mem(1), of "\<lambda>r. f_event r \<in> f_event ` set rows" ?lease] by simp
  then have leased: "?lease row \<in> set (seat_refresh_requests d1)" using row by simp
  have ev: "f_event row \<in> f_event ` set (seat_refresh_requests d1)"
    by (rule image_eqI [OF _ leased]) simp
  have d2: "seat_refresh_requests d2 =
      upd_where (\<lambda>r. f_event r = f_event row) (merge_request (e_now E') (Some ids)) (seat_refresh_requests d1)"
    using req ev by (auto simp: request_refresh_def split: if_splits)
  define m where "m = merge_request (e_now E') (Some ids) (?lease row)"
  have m: "m \<in> set (seat_refresh_requests d2)"
    using upd_where_mem [OF leased, of "\<lambda>r. f_event r = f_event row" "merge_request (e_now E') (Some ids)"]
    by (simp add: d2 m_def)
  have msel: "f_event m = f_event row" "f_lease_token m = Some token" "f_generation m = f_generation row + 1"
    "\<forall>xs. f_seats m = Some xs \<longrightarrow> set ids \<subseteq> set xs"
    using mem(2) by (auto simp: m_def merge_request_def split: option.splits)
  have "finish_row E'' cooldown_ms claimed_at row m \<in> set (seat_refresh_requests d3)"
    unfolding complete_row_Inr [OF complete]
    using upd_where_mem [OF m, of "\<lambda>r. f_event r = f_event row \<and> f_lease_token r = Some token"
        "finish_row E'' cooldown_ms claimed_at row"] msel by simp
  then show ?thesis by (rule bexI [rotated]) (use msel in \<open>simp add: finish_row_def\<close>)
qed

text \<open>
  Fact.  Leases are fenced by their token: when a second worker has claimed the event in the
  meantime, completing the first worker's claim changes nothing.
\<close>

theorem stale_refresh_completion_ignored:
  assumes claim: "claim_refresh E token limit d = Inr (rows, d1)" and row: "row \<in> set rows"
    and again: "claim_refresh E' token' limit' d1 = Inr (rows', d2)" "f_event row \<in> f_event ` set rows'"
    and fresh: "token' \<noteq> token"
  shows "complete_row E'' token cooldown_ms claimed_at row d2 = Inr d2"
proof -
  have "\<not> (f_event r = f_event row \<and> f_lease_token r = Some token)" if "r \<in> set (seat_refresh_requests d2)" for r
    using that again(2) fresh unfolding claim_refresh_Inr(2) [OF again(1)]
    by (auto simp: set_upd_where split: if_splits)
  then show ?thesis
    by (auto simp: complete_row_def Let_def list_ex_iff upd_where_id)
qed

section \<open>Instances\<close>

definition refresh_env :: env where
  "refresh_env = \<lparr>e_now = 100, e_uuid = (\<lambda>_. ''u''), e_sha = (\<lambda>_. ''h''), e_locked = (\<lambda>_. False), e_request_id = JNull\<rparr>"

definition empty_db :: db where
  "empty_db = \<lparr>events = [], holds = [], orders = [], event_seats = [], order_items = [], bookings = [],
     idempotency_records = [], payment_attempts = [], payment_callbacks = [], refund_requests = [],
     outbox_events = [], consumer_inbox = [], tickets = [], dead_letters = [],
     seat_refresh_requests = [], event_reconciliation = [], reservation_commands = []\<rparr>"

definition one_seat_db :: db where
  "one_seat_db = empty_db\<lparr>
     events := [\<lparr>ev_id = ''e'', ev_title = ''t'', ev_currency = ''THB'', ev_sale_starts = 0, ev_sale_ends = 10^12\<rparr>],
     event_seats := [\<lparr>s_event = ''e'', s_id = ''A1'', s_price = 5, s_hold = None, s_until = None, s_booked = None, s_version = 4\<rparr>],
     seat_refresh_requests := [\<lparr>f_event = ''e'', f_generation = 2, f_completed = 1, f_requested = 0,
       f_next_attempt = 0, f_lease_until = None, f_lease_token = None, f_seats = Some [''A1'']\<rparr>]\<rparr>"

lemmas one_seat_defs = one_seat_db_def empty_db_def refresh_env_def

lemma one_seat_core: "core_inv one_seat_db"
  by (simp add: core_inv_defs one_seat_defs seat_ok_def seat_check_def item_triples_def booking_triples_def)

abbreviation demo_cache :: cache_env where
  "demo_cache \<equiv> \<lparr>ce_now = 1, ce_uuid = ''i'', ce_sha = (\<lambda>_. ''h''), ce_ttl = 30, ce_up = True\<rparr>"


definition claimed_row :: refresh_row where "claimed_row = hd (seat_refresh_requests one_seat_db)"

lemma demo_claim:
  "claim_refresh refresh_env ''w1'' 2 one_seat_db = Inr ([claimed_row], one_seat_db\<lparr>seat_refresh_requests :=
     [claimed_row\<lparr>f_lease_token := Some ''w1'', f_lease_until := Some 30000100\<rparr>]\<rparr>)"
  by (simp add: claim_refresh_def refresh_due_def lease_free_def claimed_row_def one_seat_defs)

theorem refresh_request_not_lost_witness:
  "\<exists>d2 d3. request_refresh refresh_env ''e'' (Some [''B2'']) (one_seat_db\<lparr>seat_refresh_requests :=
       [claimed_row\<lparr>f_lease_token := Some ''w1'', f_lease_until := Some 30000100\<rparr>]\<rparr>) = Inr d2 \<and>
     complete_row refresh_env ''w1'' 250 100 claimed_row d2 = Inr d3 \<and>
     (\<exists>r\<in>set (seat_refresh_requests d3). f_completed r < f_generation r)"
proof -
  let ?d1 = "one_seat_db\<lparr>seat_refresh_requests := [claimed_row\<lparr>f_lease_token := Some ''w1'', f_lease_until := Some 30000100\<rparr>]\<rparr>"
  let ?m = "merge_request 100 (Some [''B2'']) (claimed_row\<lparr>f_lease_token := Some ''w1'', f_lease_until := Some 30000100\<rparr>)"
  have ev: "f_event claimed_row = ''e''" by (simp add: claimed_row_def one_seat_defs)
  have req: "request_refresh refresh_env (f_event claimed_row) (Some [''B2'']) ?d1 = Inr (?d1\<lparr>seat_refresh_requests := [?m]\<rparr>)"
    by (simp add: request_refresh_def refresh_env_def ev)
  have "0 \<le> f_generation claimed_row" by (simp add: claimed_row_def one_seat_defs)
  then obtain d3 where c: "complete_row refresh_env ''w1'' 250 100 claimed_row (?d1\<lparr>seat_refresh_requests := [?m]\<rparr>) = Inr d3"
    by (simp add: complete_row_def merge_request_def)
  have "distinct (map f_event (seat_refresh_requests one_seat_db))" by (simp add: one_seat_defs)
  from refresh_request_not_lost [OF this demo_claim _ req c] show ?thesis using req c ev by auto
qed

theorem stale_refresh_completion_ignored_witness:
  "\<exists>d2. claim_refresh (refresh_env\<lparr>e_now := 40000000\<rparr>) ''w2'' 2 (one_seat_db\<lparr>seat_refresh_requests :=
       [claimed_row\<lparr>f_lease_token := Some ''w1'', f_lease_until := Some 30000100\<rparr>]\<rparr>)
       = Inr ([claimed_row\<lparr>f_lease_token := Some ''w1'', f_lease_until := Some 30000100\<rparr>], d2) \<and>
     complete_row refresh_env ''w1'' 250 100 claimed_row d2 = Inr d2"
proof -
  let ?r = "claimed_row\<lparr>f_lease_token := Some ''w1'', f_lease_until := Some 30000100\<rparr>"
  obtain d2 where c: "claim_refresh (refresh_env\<lparr>e_now := 40000000\<rparr>) ''w2'' 2
      (one_seat_db\<lparr>seat_refresh_requests := [?r]\<rparr>) = Inr ([?r], d2)"
    by (simp add: claim_refresh_def refresh_due_def lease_free_def claimed_row_def one_seat_defs)
  from stale_refresh_completion_ignored [OF demo_claim _ c, of claimed_row] c show ?thesis by auto
qed

end
