(* ===== verification/Store_Demo.thy ===== *)
theory Store_Demo
  imports Store_Contracts Refresh_Facts
begin

text \<open>
  One sale from beginning to end, evaluated step by step: a seat is reserved, paid for, booked and
  ticketed.  The databases of the stages satisfy the store's invariant because the operations
  keep it; the instances of the properties are stated on them.
\<close>

definition stage_env :: "char \<Rightarrow> time \<Rightarrow> env" where
  "stage_env c now = \<lparr>e_now = now, e_uuid = (\<lambda>n. c # nat_str n), e_sha = (\<lambda>_. ''h''),
     e_locked = (\<lambda>_. False), e_request_id = JNull\<rparr>"

definition open_db :: db where
  "open_db = empty_db\<lparr>
     events := [\<lparr>ev_id = ''e'', ev_title = ''t'', ev_currency = ''THB'', ev_sale_starts = 0, ev_sale_ends = 1000000000000\<rparr>],
     event_seats := [
       \<lparr>s_event = ''e'', s_id = ''A1'', s_price = 5, s_hold = None, s_until = None, s_booked = None, s_version = 0\<rparr>,
       \<lparr>s_event = ''e'', s_id = ''A2'', s_price = 7, s_hold = None, s_until = None, s_booked = None, s_version = 0\<rparr>]\<rparr>"

definition held_db :: db where
  "held_db = snd (transaction (reserve_tx (stage_env CHR ''r'' 1000) 120 ''bob'' ''e'' [''A1''] ''k'') open_db)"

definition paying_db :: db where
  "paying_db = snd (initiate_payment (stage_env CHR ''p'' 2000) ''bob'' ''r1'' ''k'' SUCCEEDED 0 2 held_db)"

definition demo_callback :: callback_payload where
  "demo_callback = \<lparr>cb_callback_id = ''c1'', cb_payment_id = ''p0'', cb_order_id = ''r1'', cb_amount = 5,
     cb_currency = ''THB'', cb_outcome = SUCCEEDED\<rparr>"

definition paid_db :: db where
  "paid_db = snd (callback (stage_env CHR ''b'' 3000) demo_callback paying_db)"

lemma open_inv: "store_inv open_db"
  by (simp add: store_inv_def core_inv_defs pay_inv_def event_inv_def ticket_inv_def idem_inv_def open_db_def empty_db_def
      seat_ok_def seat_check_def item_triples_def booking_triples_def fate_def find_order_def seat_key_def)

lemma held_inv: "store_inv held_db"
  using reserve_op.op_inv [OF open_inv surjective_pairing, of "(stage_env CHR ''r'' 1000, 120, ''bob'', ''e'', [''A1''], ''k'')"] by (simp add: held_db_def)

lemma paying_inv: "store_inv paying_db"
  using payment_op.op_inv [OF held_inv surjective_pairing, of "(stage_env CHR ''p'' 2000, ''bob'', ''r1'', ''k'', SUCCEEDED, 0, 2)"] by (simp add: paying_db_def initiate_payment_def)

lemma paid_inv: "store_inv paid_db"
  using callback_op.op_inv [OF paying_inv surjective_pairing, of "(stage_env CHR ''b'' 3000, demo_callback)"] by (simp add: paid_db_def callback_def)

definition paid_event :: outbox_row where
  "paid_event = outbox_events paid_db ! 1"

lemma paid_event_facts:
  "paid_event \<in> set (outbox_events paid_db)" "x_type paid_event = ''OrderPaid''"
  "x_schema_version paid_event = 1" "x_aggregate paid_event = ''r1''" "x_id paid_event = ''b0''"
  by code_simp+

lemma paid_tickets: "tickets paid_db = []" "consumer_inbox paid_db = []"
  by code_simp+

lemma stage_env_fresh: "inj (e_uuid (stage_env c now))" "e_locked (stage_env c now) l = False"
  by (auto simp: stage_env_def inj_def dest!: arg_cong [of _ _ digits_val] simp: digits_val_nat_str)

end
