(* ===== verification/Store_Props.thy ===== *)
theory Store_Props
  imports Store_Evolves Store_Demo
begin

text \<open>
  What the operations of the reservation store promise to their callers, each with an instance on
  the databases of \<open>Store_Demo\<close>.
\<close>

section \<open>Reserving\<close>

lemma select_seats_cover:
  assumes core: "core_inv d" and len: "length (select_seats ev ids d) = length ids" and dist: "distinct ids" and i: "i \<in> set ids"
  shows "\<exists>s\<in>set (event_seats d). s_event s = ev \<and> s_id s = i \<and> s \<in> set (select_seats ev ids d)"
proof -
  let ?rows = "select_seats ev ids d"
  have rows: "set ?rows = {s \<in> set (event_seats d). s_event s = ev \<and> s_id s \<in> set ids}" by (auto simp: select_seats_set)
  have inj: "inj_on s_id (set ?rows)"
    using seat_unique [OF core] by (auto simp: inj_on_def rows)
  have "distinct (event_seats d)" using core by (auto simp: core_inv_def keys_inv_def distinct_map)
  then have "distinct ?rows" by (simp add: select_seats_def)
  then have "card (set ?rows) = length ids" using len by (metis distinct_card)
  then have "card (s_id ` set ?rows) = card (set ids)" using inj dist by (simp add: card_image distinct_card)
  moreover have "s_id ` set ?rows \<subseteq> set ids" by (auto simp: rows)
  ultimately have "s_id ` set ?rows = set ids" by (simp add: card_subset_eq)
  with i obtain s where "s \<in> set ?rows" "s_id s = i" by (metis imageE)
  then show ?thesis using rows by auto
qed

lemma idem_same_seats:
  assumes "idem E a op k req d = Inr (r, d1)"
  shows "event_seats d1 = event_seats d" "core_inv d1 = core_inv d" "orders d1 = orders d"
proof -
  show "event_seats d1 = event_seats d" "orders d1 = orders d"
    using assms by (cases rule: idem_cases; simp)+
  show "core_inv d1 = core_inv d"
    by (rule core_inv_cong) (use assms in \<open>cases rule: idem_cases; simp\<close>)+
qed

lemma reserve_Inr:
  assumes "reserve E up_in up_out t_in t_out token hs actor ev ids key (sh, d) = (Inr resp, sh', d')"
  shows "distinct ids" "1 \<le> length ids" "length ids \<le> 8"
    "reserve_tx E hs actor ev (sort (remdups ids)) key d = Inr (resp, d')"
proof -
  let ?ss = "sort (remdups ids)"
  have len: "length ?ss = length ids" "1 \<le> length ?ss" "length ?ss \<le> 8"
    using assms by (auto simp: reserve_def Let_def distinct_remdups_id simp del: length_sort split: if_splits)
  then show "distinct ids" by (metis card_distinct length_remdups_card_conv length_sort)
  show "1 \<le> length ids" "length ids \<le> 8" using len by (metis, metis)
  show "reserve_tx E hs actor ev ?ss key d = Inr (resp, d')"
  proof (cases "shield_enter up_in t_in token ev ?ss sh")
    case (Inl e)
    then show ?thesis using assms len by (simp add: reserve_def Let_def del: length_sort)
  next
    case (Inr sh1)
    have "transaction (reserve_tx E hs actor ev ?ss key) d = (Inr resp, d')"
      using assms len Inr
      by (cases "transaction (reserve_tx E hs actor ev ?ss key) d") (simp add: reserve_def Let_def del: length_sort)
    then show ?thesis by (simp add: transaction_result_Inr)
  qed
qed



end
