(* ===== verification/Store_Promises.thy ===== *)
theory Store_Promises
  imports Store_Props
begin

text \<open>
  Further promises of the reservation store: repeated requests, failures without a trace, payments
  and their callbacks, expiry, and the commands a writer persists.  The idempotency promises come
  from the interpretations of \<open>idempotent_op\<close>.
\<close>

section \<open>Repeating a reservation\<close>

lemma sort_eq_of_set: "distinct xs \<Longrightarrow> distinct ys \<Longrightarrow> set xs = set ys \<Longrightarrow> sort xs = sort ys"
  by (rule sorted_distinct_set_unique) simp_all

lemma reserve_admitted:
  assumes "distinct ids" and "1 \<le> length ids" and "length ids \<le> 8"
    and "shield_enter up_in t_in token ev (sort ids) sh = Inr sh1"
  shows "reserve E up_in up_out t_in t_out token hs actor ev ids key (sh, d) =
    (case transaction (reserve_tx E hs actor ev (sort ids) key) d of
       (r, d') \<Rightarrow> (r, shield_exit up_out t_out token ev (sort ids) sh1, d'))"
  using assms by (simp add: reserve_def Let_def distinct_remdups_id)

text \<open>
  Property C9.  A reservation is idempotent: after \<open>reserve\<close> has answered, the same actor repeating
  the request under the same key (the seats in any order, at any later time, admitted by the
  shield) gets the same answer, and nothing in the database changes.
\<close>

theorem reserve_repeats:
  assumes run: "reserve E up_in up_out t_in t_out token hold_seconds actor ev ids key (sh, d) = (Inr resp, sh', d')"
    and same: "distinct ids'" "set ids' = set ids" "e_sha E' = e_sha E" and unlocked: "\<not> e_locked E' (L_idem actor ''hold'' key)"
    and admitted: "shield_enter up_in' t_in' token' ev (sort ids) shA = Inr shB"
  shows "reserve E' up_in' up_out' t_in' t_out' token' hold_seconds actor ev ids' key (shA, d') =
    (Inr resp, shield_exit up_out' t_out' token' ev (sort ids) shB, d')"
proof -
  note r = reserve_Inr [OF run]
  have s: "sort ids' = sort ids" using same(1) r(1) same(2) by (rule sort_eq_of_set)
  have len: "length ids' = length ids" using same(1,2) r(1) by (metis distinct_card)
  have "reserve_tx E' hold_seconds actor ev (sort ids) key d' = Inr (resp, d')"
    using reserving.repeat_same [where hold_seconds = hold_seconds and E = E and actor = actor and key = key and q = "(ev, sort ids)"
        and d = d and r = resp and d' = d' and E' = E' and q' = "(ev, sort ids)"] r same(3) unlocked
    by (simp add: digest_def distinct_remdups_id)
  then show ?thesis
    using reserve_admitted [of ids' up_in' t_in' token' ev shA shB E' up_out' t_out' hold_seconds actor key d'] same(1) len s r admitted
    by (simp add: transaction_Inr)
qed

theorem reserve_repeats_witness:
  "\<exists>resp sh' d'. reserve (stage_env CHR ''r'' 1000) True True 1000 1500 ''tok'' 120 ''bob'' ''e'' [''A2'', ''A1''] ''k''
       (\<lambda>_. None, open_db) = (Inr resp, sh', d') \<and> d' \<noteq> open_db \<and>
     fst (reserve (stage_env CHR ''z'' 5000) True True 5000 5500 ''uok'' 120 ''bob'' ''e'' [''A1'', ''A2''] ''k''
       (\<lambda>_. None, d')) = Inr resp"
proof -
  let ?x = "reserve (stage_env CHR ''r'' 1000) True True 1000 1500 ''tok'' 120 ''bob'' ''e'' [''A2'', ''A1''] ''k'' (\<lambda>_. None, open_db)"
  have f: "fst ?x = Inr (hold_response ''r0'' ''r1'' 120001000 12 ''THB'' [''A1'', ''A2''])" by code_simp
  have o: "orders (snd (snd ?x)) \<noteq> orders open_db" by code_simp
  obtain sh' d' where x: "?x = (Inr (hold_response ''r0'' ''r1'' 120001000 12 ''THB'' [''A1'', ''A2'']), sh', d')"
    using f by (metis prod.collapse)
  have "shield_enter True 5000 ''uok'' ''e'' (sort [''A2'', ''A1'']) (\<lambda>_. None) =
      Inr (\<lambda>k. if k \<in> shield_key ''e'' ` set (sort [''A2'', ''A1'']) then Some (''uok'', 5000 + 2000000) else None)"
    by (subst shield_enter_Inr) (simp add: redis_get_def)
  moreover have "set [''A1'', ''A2''] = set [''A2'', ''A1'']" by (simp add: insert_commute)
  moreover have "e_sha (stage_env CHR ''z'' 5000) = e_sha (stage_env CHR ''r'' 1000)" by (simp add: stage_env_def)
  moreover have "distinct [''A1'', ''A2'']" "\<not> e_locked (stage_env CHR ''z'' 5000) (L_idem ''bob'' ''hold'' ''k'')"
    by (simp_all add: stage_env_fresh)
  ultimately have "fst (reserve (stage_env CHR ''z'' 5000) True True 5000 5500 ''uok'' 120 ''bob'' ''e'' [''A1'', ''A2''] ''k''
      (\<lambda>_. None, d')) = Inr (hold_response ''r0'' ''r1'' 120001000 12 ''THB'' [''A1'', ''A2''])"
    using reserve_repeats [OF x, of "[''A1'', ''A2'']" "stage_env CHR ''z'' 5000" True 5000 "''uok''" "\<lambda>_. None" _ True 5500] by simp
  with x o show ?thesis by auto
qed

text \<open>
  Fact.  A key stands for one request: once \<open>reserve\<close> has answered under a key, a request of
  the same actor under that key with another event or other seats, as far as the digest tells
  them apart, is refused with \<open>IDEMPOTENCY_MISMATCH\<close> and changes nothing in the database.
\<close>

theorem reserve_key_is_bound:
  assumes run: "reserve E up_in up_out t_in t_out token hold_seconds actor ev ids key (sh, d) = (Inr resp, sh', d')"
    and other: "digest E' (reserve_request ev' (sort ids')) \<noteq> digest E (reserve_request ev (sort ids))"
    and unlocked: "\<not> e_locked E' (L_idem actor ''hold'' key)"
    and valid: "distinct ids'" "1 \<le> length ids'" "length ids' \<le> 8"
    and admitted: "shield_enter up_in' t_in' token' ev' (sort ids') shA = Inr shB"
  shows "reserve E' up_in' up_out' t_in' t_out' token' hold_seconds actor ev' ids' key (shA, d') =
    (Inl (Failure ''IDEMPOTENCY_MISMATCH'' 409), shield_exit up_out' t_out' token' ev' (sort ids') shB, d')"
proof -
  note r = reserve_Inr [OF run]
  have "reserve_tx E' hold_seconds actor ev' (sort ids') key d' = Inl (Failure ''IDEMPOTENCY_MISMATCH'' 409)"
    using reserving.repeat_other [where hold_seconds = hold_seconds and E = E and actor = actor and key = key and q = "(ev, sort ids)"
        and d = d and r = resp and d' = d' and E' = E' and q' = "(ev', sort ids')"] r other unlocked
    by (simp add: distinct_remdups_id)
  then show ?thesis by (simp add: reserve_admitted [OF valid admitted] transaction_Inl)
qed

definition seats_sha :: "json \<Rightarrow> string" where
  "seats_sha j = (case jget ''seats'' j of
     Some (JArr ss) \<Rightarrow> concat (map (\<lambda>s. case s of JStr x \<Rightarrow> x | _ \<Rightarrow> []) ss) | _ \<Rightarrow> [])"

theorem reserve_key_is_bound_witness:
  "\<exists>resp sh' d'. reserve ((stage_env CHR ''r'' 1000)\<lparr>e_sha := seats_sha\<rparr>) True True 1000 1500 ''tok'' 120 ''bob'' ''e''
       [''A1''] ''k'' (\<lambda>_. None, open_db) = (Inr resp, sh', d') \<and>
     fst (reserve ((stage_env CHR ''z'' 5000)\<lparr>e_sha := seats_sha\<rparr>) True True 5000 5500 ''uok'' 120 ''bob'' ''e''
       [''A2''] ''k'' (\<lambda>_. None, d')) = Inl (Failure ''IDEMPOTENCY_MISMATCH'' 409)"
proof -
  let ?x = "reserve ((stage_env CHR ''r'' 1000)\<lparr>e_sha := seats_sha\<rparr>) True True 1000 1500 ''tok'' 120 ''bob'' ''e''
      [''A1''] ''k'' (\<lambda>_. None, open_db)"
  have f: "fst ?x = Inr (hold_response ''r0'' ''r1'' 120001000 5 ''THB'' [''A1''])" by code_simp
  obtain sh' d' where x: "?x = (Inr (hold_response ''r0'' ''r1'' 120001000 5 ''THB'' [''A1'']), sh', d')"
    using f by (metis prod.collapse)
  have a: "shield_enter True 5000 ''uok'' ''e'' (sort [''A2'']) (\<lambda>_. None) =
      Inr (\<lambda>k. if k \<in> shield_key ''e'' ` set (sort [''A2'']) then Some (''uok'', 5000 + 2000000) else None)"
    by (subst shield_enter_Inr) (simp add: redis_get_def)
  have "digest ((stage_env CHR ''z'' 5000)\<lparr>e_sha := seats_sha\<rparr>) (reserve_request ''e'' (sort [''A2''])) \<noteq>
      digest ((stage_env CHR ''r'' 1000)\<lparr>e_sha := seats_sha\<rparr>) (reserve_request ''e'' (sort [''A1'']))"
    by code_simp
  from reserve_key_is_bound [OF x this _ _ _ _ a, of True 5500] x show ?thesis
    by (simp add: stage_env_fresh)
qed



section \<open>Payments\<close>

text \<open>What settling leaves alone: the callbacks, all payments but one, and what orders are about.\<close>

definition order_face :: "order_row \<Rightarrow> uuid \<times> int \<times> string" where
  "order_face r = (o_id r, o_total r, o_currency r)"

definition same_books :: "db \<Rightarrow> db \<Rightarrow> bool" where
  "same_books d d' \<longleftrightarrow> payment_attempts d' = payment_attempts d \<and> payment_callbacks d' = payment_callbacks d \<and>
     map order_face (orders d') = map order_face (orders d)"

lemma map_upd_where_same: "(\<And>x. g (f x) = g x) \<Longrightarrow> map g (upd_where P f xs) = map g xs"
  by (induction xs) auto

lemma same_books_trans: "same_books d d' \<Longrightarrow> same_books d' d'' \<Longrightarrow> same_books d d''"
  by (simp add: same_books_def)

lemma release_order_books: "release_order E n order st d = Inr d' \<Longrightarrow> same_books d d'"
  by (drule release_order_effect(1)) (simp add: same_books_def map_upd_where_same order_face_def)

lemma book_order_books: "book_order E order h rows d = Inr d' \<Longrightarrow> same_books d d'"
  by (drule book_order_effect(1)) (simp add: same_books_def map_upd_where_same order_face_def)

lemma event_books: "event E n agg kind payload d = Inr d' \<Longrightarrow> same_books d d'"
  by (simp add: same_books_def event_Inr)

lemma insert_refund_books: "insert_refund r d = Inr d' \<Longrightarrow> same_books d d'"
  by (auto simp: same_books_def insert_refund_def split: if_splits)

lemma set_status_books: "same_books d (d\<lparr>orders := upd_where P (\<lambda>r. r\<lparr>o_status := st\<rparr>) (orders d)\<rparr>)"
  by (simp add: same_books_def map_upd_where_same order_face_def)

lemma close_order_books:
  assumes "close_order E order pid b d = Inr d'"
  shows "same_books d d'"
proof (cases b)
  case True
  from assms have "close_order E order pid True d = Inr d'" using True by simp
  then show ?thesis
  proof (rule close_order_refund)
    fix d1 d2
    assume "release_order E 0 order H_EXPIRED d = Inr d1"
      and "insert_refund \<lparr>r_payment = pid, r_order = o_id order, r_status = R_PENDING\<rparr>
        (d1\<lparr>orders := upd_where (\<lambda>r. o_id r = o_id order) (\<lambda>r. r\<lparr>o_status := O_REFUND_PENDING\<rparr>) (orders d1)\<rparr>) = Inr d2"
      and "event E 1 (o_id order) ''RefundRequested''
          (JObj [(''payment_id'', JStr pid), (''order_id'', JStr (o_id order))]) d2 = Inr d'"
    from release_order_books [OF this(1)] set_status_books insert_refund_books [OF this(2)] event_books [OF this(3)]
    show ?thesis by (meson same_books_trans)
  qed
next
  case False
  from assms have "close_order E order pid False d = Inr d'" using False by simp
  then show ?thesis
  proof (rule close_order_failed)
    fix d1
    assume "release_order E 0 order H_RELEASED d = Inr d1"
      and "d' = d1\<lparr>orders := upd_where (\<lambda>r. o_id r = o_id order) (\<lambda>r. r\<lparr>o_status := O_FAILED\<rparr>) (orders d1)\<rparr>"
    from release_order_books [OF this(1)] set_status_books [of d1] this(2)
    show ?thesis by (meson same_books_trans)
  qed
qed

lemma settle_books:
  assumes "settle E cb order payment d = Inr (st, d')"
  shows "same_books (set_payment_status (p_id payment) (cb_outcome cb) d) d'"
proof -
  let ?d0 = "set_payment_status (p_id payment) (cb_outcome cb) d"
  obtain valid d1 where
    c: "(case payment_decision (o_status order) valid (cb_outcome cb) of
         D_BOOK \<Rightarrow> ebind (not_none (find_hold (o_hold order) d)) (\<lambda>h. book_order E order (h_id h)
           (order_seats (o_id order) d) ?d0)
       | D_REFUND \<Rightarrow> close_order E order (p_id payment) True ?d0
       | D_FAILED \<Rightarrow> close_order E order (p_id payment) False ?d0
       | D_UNCHANGED \<Rightarrow> Inr ?d0) = Inr d1"
    and e: "event E 2 (o_id order) ''SeatsChanged''
        (seats_payload (o_event order) (map s_id (order_seats (o_id order) d))) d1 = Inr d'"
    using settle_decision [OF assms] by blast
  have "same_books ?d0 d1"
    using c by (cases "payment_decision (o_status order) valid (cb_outcome cb)")
      (auto simp: ebind_Inr_iff dest: close_order_books book_order_books, simp add: same_books_def)
  then show ?thesis using event_books [OF e] by (rule same_books_trans)
qed

lemma insert_callback_effect:
  "insert_callback c d = Inr d' \<Longrightarrow> d' = d\<lparr>payment_callbacks := payment_callbacks d @ [c]\<rparr> \<and>
     c_id c \<notin> c_id ` set (payment_callbacks d)"
  by (auto simp: insert_callback_def split: if_splits)

text \<open>
  Property C7.  A financial success is never discarded: when a callback with a new id and the outcome
  \<open>SUCCEEDED\<close> is processed, the payment is recorded as succeeded and its order is afterwards
  either sold, with every item booked for it, or being refunded, with a refund request.
\<close>

theorem success_never_discarded:
  assumes inv: "store_inv d" and run: "callback E p d = (Inr st, d')"
    and new: "cb_callback_id p \<notin> c_id ` set (payment_callbacks d)" and success: "cb_outcome p = SUCCEEDED"
  shows "\<exists>payment\<in>set (payment_attempts d'). \<exists>order\<in>set (orders d').
     p_id payment = cb_payment_id p \<and> p_status payment = P_SUCCEEDED \<and> o_id order = p_order payment \<and>
     (sold (o_status order) \<and> (\<forall>i\<in>set (order_items d'). i_order i = o_id order \<longrightarrow>
        (\<exists>b\<in>set (bookings d'). b_order b = o_id order \<and> b_event b = i_event i \<and> b_seat b = i_seat i)) \<or>
      o_status order \<in> {O_REFUND_PENDING, O_REFUNDED} \<and> (\<exists>q\<in>set (refund_requests d'). r_order q = o_id order))"
proof -
  have tx: "callback_tx E p d = Inr (st, d')" using run by (simp add: callback_def transaction_result_Inr)
  have inv': "store_inv d'" by (rule callback_tx_inv [OF inv tx])
  then have core: "core_inv d'" and pay: "pay_inv d'" by (simp_all add: store_inv_def)
  obtain payment where q: "payment \<in> set (payment_attempts d')" "p_id payment = cb_payment_id p" "p_status payment = P_SUCCEEDED"
    using tx
  proof (cases rule: callback_tx_cases)
    case duplicate_id
    then show ?thesis using new by simp
  next
    case (duplicate_success payment)
    then show ?thesis using insert_callback_effect [OF duplicate_success(5)] by (intro that [of payment]) auto
  next
    case (new q order d1)
    have "payment_attempts d1 = payment_attempts d" using insert_callback_effect [OF new(9)] by simp
    then have "q\<lparr>p_status := P_SUCCEEDED\<rparr> \<in> set (payment_attempts d')"
      using upd_where_mem [OF new(1), of "\<lambda>x. p_id x = p_id q" "\<lambda>x. x\<lparr>p_status := payment_status_of SUCCEEDED\<rparr>"]
      using settle_books [OF new(10)] by (simp add: same_books_def success set_payment_status_def)
    then show ?thesis using new(2) by (intro that [of "q\<lparr>p_status := P_SUCCEEDED\<rparr>"]) auto
  qed
  have "fate d' (p_order payment) \<noteq> None" using pay_invD(5) [OF pay q(1)] q(3) by simp
  then obtain order where f: "find_order (p_order payment) d' = Some order" and fin: "fin (o_status order) \<noteq> None"
    by (auto simp: fate_def split: option.splits)
  have o: "order \<in> set (orders d')" "o_id order = p_order payment" using find_row_Some(3) [OF f] by simp_all
  have fate: "fate d' (o_id order) = fin (o_status order)" by (rule fate_order [OF core o(1)])
  have "\<exists>b\<in>set (bookings d'). b_order b = o_id order \<and> b_event b = i_event i \<and> b_seat b = i_seat i"
    if "sold (o_status order)" "i \<in> set (order_items d')" "i_order i = o_id order" for i
  proof -
    have "(o_id order, i_event i, i_seat i) \<in> item_triples d'"
      unfolding item_triples_def by (rule image_eqI [OF _ that(2)]) (simp add: that(3))
    then have "(o_id order, i_event i, i_seat i) \<in> booking_triples d'"
      using core o(1) that(1) by (simp add: core_inv_def booking_inv_def)
    then show ?thesis by (auto simp: booking_triples_def)
  qed
  moreover have "\<exists>q\<in>set (refund_requests d'). r_order q = o_id order" if "\<not> sold (o_status order)"
    using pay_invD(9) [OF pay, of "o_id order"] fate fin that by (cases "o_status order") (auto simp: sold_def)
  moreover have "sold (o_status order) \<or> o_status order \<in> {O_REFUND_PENDING, O_REFUNDED}"
    using fin by (cases "o_status order") (simp_all add: sold_def)
  ultimately show ?thesis using q o by blast
qed

theorem success_never_discarded_witness:
  "\<exists>st d'. callback (stage_env CHR ''b'' 3000) demo_callback paying_db = (Inr st, d') \<and>
     (\<exists>payment\<in>set (payment_attempts d'). \<exists>order\<in>set (orders d'). p_status payment = P_SUCCEEDED \<and>
        o_id order = p_order payment \<and> (sold (o_status order) \<or> o_status order \<in> {O_REFUND_PENDING, O_REFUNDED}))"
proof -
  let ?x = "callback (stage_env CHR ''b'' 3000) demo_callback paying_db"
  have "fst ?x = Inr ''book''" by code_simp
  then obtain d' where x: "?x = (Inr ''book'', d')" by (metis prod.collapse)
  have "cb_callback_id demo_callback \<notin> c_id ` set (payment_callbacks paying_db)" "cb_outcome demo_callback = SUCCEEDED"
    by code_simp+
  from success_never_discarded [OF paying_inv x this] x show ?thesis by blast
qed

lemma find_snoc: "find P xs = None \<Longrightarrow> find P (xs @ [y]) = (if P y then Some y else None)"
  by (induction xs) (auto split: if_splits)

lemma find_same_face:
  assumes "map (\<lambda>x. (key x, g x)) xs' = map (\<lambda>x. (key x, g x)) xs" and "find (\<lambda>r. key r = k) xs = Some r"
  obtains r' where "find (\<lambda>r. key r = k) xs' = Some r'" and "g r' = g r"
proof -
  have "\<exists>r'. find (\<lambda>r. key r = k) xs' = Some r' \<and> g r' = g r"
    using assms by (induction xs' arbitrary: xs) (auto split: if_splits)
  then show ?thesis using that by blast
qed

text \<open>What an accepted callback has established, in the database it leaves.\<close>

lemma callback_tx_established:
  assumes "callback_tx E p d = Inr (st, d')"
  shows "\<exists>payment order c. find_payment (cb_payment_id p) d' = Some payment \<and> find_order (p_order payment) d' = Some order \<and>
     order_face order = (cb_order_id p, cb_amount p, cb_currency p) \<and>
     find (\<lambda>c. c_id c = cb_callback_id p) (payment_callbacks d') = Some c \<and> c_hash c = digest E (callback_json p)"
proof -
  let ?c = "\<lparr>c_id = cb_callback_id p, c_payment = cb_payment_id p, c_hash = digest E (callback_json p)\<rparr>"
  obtain payment where pay: "find_payment (cb_payment_id p) d = Some payment"
    using assms by (auto simp: callback_tx_def split: option.splits)
  obtain order where ord: "find_order (p_order payment) d = Some order"
    using assms by (auto simp: callback_tx_def pay ebind_Inr_iff)
  have face: "order_face order = (cb_order_id p, cb_amount p, cb_currency p)"
    using assms by (auto simp: callback_tx_def pay ord ebind_Inr_iff order_face_def split: if_splits)
  note simps = callback_tx_def pay ord ebind_Inr_iff
  show ?thesis
  proof (cases "find (\<lambda>c. c_id c = cb_callback_id p) (payment_callbacks d)")
    case (Some c)
    with assms have "d' = d" "c_hash c = digest E (callback_json p)"
      by (auto simp: simps split: if_splits)
    with pay ord face Some show ?thesis by blast
  next
    case None
    then obtain d1 where d1: "insert_callback ?c d = Inr d1"
      and rest: "(if p_status payment = P_SUCCEEDED then Inr (''duplicate'', d1) else settle E p order payment d1) = Inr (st, d')"
      using assms by (auto simp: simps split: if_splits)
    have eff: "d1 = d\<lparr>payment_callbacks := payment_callbacks d @ [?c]\<rparr>" using insert_callback_effect [OF d1] by simp
    have books: "map (\<lambda>x. (p_id x, p_order x)) (payment_attempts d') = map (\<lambda>x. (p_id x, p_order x)) (payment_attempts d) \<and>
        map order_face (orders d') = map order_face (orders d) \<and> payment_callbacks d' = payment_callbacks d @ [?c]"
    proof (cases "p_status payment = P_SUCCEEDED")
      case True
      then have "d' = d1" using rest by simp
      then show ?thesis by (simp add: eff)
    next
      case False
      then have "settle E p order payment d1 = Inr (st, d')" using rest by simp
      from settle_books [OF this] eff show ?thesis
        by (simp add: same_books_def set_payment_status_def map_upd_where_same)
    qed
    obtain payment' where p': "find_payment (cb_payment_id p) d' = Some payment'" "p_order payment' = p_order payment"
      using books pay find_same_face [of p_id p_order "payment_attempts d'" "payment_attempts d" "cb_payment_id p" payment]
      by (auto simp: find_payment_def)
    obtain order' where o': "find_order (p_order payment) d' = Some order'" "(o_total order', o_currency order') = (o_total order, o_currency order)"
      using books ord find_same_face [of o_id "\<lambda>r. (o_total r, o_currency r)" "orders d'" "orders d" "p_order payment" order]
      by (auto simp: find_order_def order_face_def [abs_def])
    have "order_face order' = order_face order"
      using o' find_row_Some(3) [OF o'(1)] find_row_Some(3) [OF ord] by (simp add: order_face_def)
    moreover have "find (\<lambda>c. c_id c = cb_callback_id p) (payment_callbacks d') = Some ?c"
      using books None by (simp add: find_snoc)
    ultimately show ?thesis using p' o'(1) face by auto
  qed
qed

text \<open>
  Property C10.  Callbacks are idempotent: once a callback was processed, the same payload delivered
  again, with no lock in the way, is answered \<open>duplicate\<close> and changes nothing.
\<close>

theorem callback_repeats:
  assumes run: "callback E p d = (Inr st, d')" and same: "e_sha E' = e_sha E" and unlocked: "\<forall>l. \<not> e_locked E' l"
  shows "callback E' p d' = (Inr ''duplicate'', d')"
proof -
  have tx: "callback_tx E p d = Inr (st, d')" using run by (simp add: callback_def transaction_result_Inr)
  obtain payment order c where est: "find_payment (cb_payment_id p) d' = Some payment" "find_order (p_order payment) d' = Some order"
    "order_face order = (cb_order_id p, cb_amount p, cb_currency p)"
    "find (\<lambda>c. c_id c = cb_callback_id p) (payment_callbacks d') = Some c" "c_hash c = digest E (callback_json p)"
    using callback_tx_established [OF tx] by blast
  have "callback_tx E' p d' = Inr (''duplicate'', d')"
    using est same unlocked by (simp add: callback_tx_def lock_order_def order_face_def digest_def)
  then show ?thesis by (simp add: callback_def transaction_Inr)
qed

theorem callback_repeats_witness:
  "\<exists>d'. callback (stage_env CHR ''b'' 3000) demo_callback paying_db = (Inr ''book'', d') \<and>
     callback (stage_env CHR ''c'' 9000) demo_callback d' = (Inr ''duplicate'', d')"
proof -
  let ?x = "callback (stage_env CHR ''b'' 3000) demo_callback paying_db"
  have "fst ?x = Inr ''book''" by code_simp
  then obtain d' where x: "?x = (Inr ''book'', d')" by (metis prod.collapse)
  have "e_sha (stage_env CHR ''c'' 9000) = e_sha (stage_env CHR ''b'' 3000)" by (simp add: stage_env_def)
  from callback_repeats [OF x this] x show ?thesis by (simp add: stage_env_fresh)
qed

text \<open>
  Fact.  An order has at most one payment: after \<open>initiate_payment\<close> has answered under one
  new key, asking again under another new key, with any outcome, delay and number of deliveries,
  gives the same payment id and creates no second payment.
\<close>

theorem one_payment_per_order:
  assumes inv: "store_inv d"
    and first: "initiate_payment E actor oid key outcome delay dup d = (Inr r, d')"
    and second: "initiate_payment E' actor oid key' outcome' delay' dup' d' = (Inr r', d'')"
    and new: "(actor, ''payment'', key) \<notin> idem_key ` set (idempotency_records d)"
      "(actor, ''payment'', key') \<notin> idem_key ` set (idempotency_records d')"
  shows "r' = r \<and> payment_attempts d'' = payment_attempts d'"
proof -
  have tx: "initiate_payment_tx E actor oid key outcome delay dup d = Inr (r, d')"
    "initiate_payment_tx E' actor oid key' outcome' delay' dup' d' = Inr (r', d'')"
    using first second by (simp_all add: initiate_payment_def transaction_result_Inr)
  have same: "payment_attempts d1 = payment_attempts d0" if "idem E0 a op k req d0 = Inr (x, d1)" for E0 a op k req d0 x d1
    using that by (cases rule: idem_cases) simp_all
  have pay: "distinct (map p_order (payment_attempts d'))"
    using initiate_payment_tx_inv [OF inv tx(1)] by (simp add: store_inv_def pay_inv_def)
  obtain p where p: "p \<in> set (payment_attempts d')" "p_order p = oid" "r = payment_response (p_id p) oid"
    using tx(1)
  proof (cases rule: initiate_payment_tx_cases)
    case replay
    then have "(actor, ''payment'', key) \<in> idem_key ` set (idempotency_records d)" by (rule idem_replay) force
    then show ?thesis using new(1) by simp
  next
    case (existing order p d1)
    then show ?thesis by (intro that [of p]) simp_all
  next
    case (created order h d1 d2)
    note e = insert_payment_effect [OF created(8)]
    show ?thesis using created(9,10) e by (intro that) auto
  qed
  show ?thesis
    using tx(2)
  proof (cases rule: initiate_payment_tx_cases)
    case replay
    then have "(actor, ''payment'', key') \<in> idem_key ` set (idempotency_records d')" by (rule idem_replay) force
    then show ?thesis using new(2) by simp
  next
    case (existing order q d1)
    then have "q \<in> set (payment_attempts d')" using same [OF existing(1)] by simp
    then have "q = p" using p existing(6) pay by (metis distinct_map inj_onD)
    then show ?thesis using existing p same [OF existing(1)] by simp
  next
    case (created order h d1 d2)
    then have "oid \<notin> p_order ` set (payment_attempts d')"
      using insert_payment_effect [OF created(8)] same [OF created(1)] by simp
    then show ?thesis using p by force
  qed
qed

theorem one_payment_per_order_witness:
  "\<exists>r' d''. initiate_payment (stage_env CHR ''q'' 2500) ''bob'' ''r1'' ''other'' FAILED 5 1 paying_db = (Inr r', d'') \<and>
     r' = payment_response ''p0'' ''r1'' \<and> payment_attempts d'' = payment_attempts paying_db"
proof -
  have "fst (initiate_payment (stage_env CHR ''p'' 2000) ''bob'' ''r1'' ''k'' SUCCEEDED 0 2 held_db) = Inr (payment_response ''p0'' ''r1'')"
    by code_simp
  then have first: "initiate_payment (stage_env CHR ''p'' 2000) ''bob'' ''r1'' ''k'' SUCCEEDED 0 2 held_db
      = (Inr (payment_response ''p0'' ''r1''), paying_db)"
    by (simp add: paying_db_def prod_eq_iff)
  let ?y = "initiate_payment (stage_env CHR ''q'' 2500) ''bob'' ''r1'' ''other'' FAILED 5 1 paying_db"
  have "fst ?y = Inr (payment_response ''p0'' ''r1'')" by code_simp
  then obtain d'' where y: "?y = (Inr (payment_response ''p0'' ''r1''), d'')" by (metis prod.collapse)
  have "(''bob'', ''payment'', ''k'') \<notin> idem_key ` set (idempotency_records held_db)"
    "(''bob'', ''payment'', ''other'') \<notin> idem_key ` set (idempotency_records paying_db)" by code_simp+
  from one_payment_per_order [OF held_inv first y this] y show ?thesis by blast
qed

section \<open>Expiry\<close>

lemma release_all_holds:
  assumes "release_all E n rs d = Inr d'"
  shows "h \<in> set (holds d') \<Longrightarrow> h_status h = H_ACTIVE \<Longrightarrow> h \<in> set (holds d) \<and> h_id h \<notin> o_hold ` set rs"
  using assms
proof (induction rs arbitrary: n d)
  case (Cons r rs)
  from Cons.prems(3) obtain d1 where rel: "release_order E n r H_EXPIRED d = Inr d1"
    and rest: "release_all E (Suc n) rs d1 = Inr d'" by (auto simp: ebind_Inr_iff)
  have h: "h \<in> set (holds d1)" "h_id h \<notin> o_hold ` set rs" using Cons.IH [OF Cons.prems(1,2) rest] by simp_all
  have "h \<in> set (upd_where (\<lambda>h. h_id h = o_hold r \<and> h_status h = H_ACTIVE) (\<lambda>h. h\<lparr>h_status := H_EXPIRED\<rparr>) (holds d))"
    using h(1) release_order_effect(1) [OF rel] by simp
  then have "h \<in> set (holds d) \<and> h_id h \<noteq> o_hold r"
    using Cons.prems(2) by (auto simp: set_upd_where)
  with h(2) show ?case by auto
qed simp

text \<open>
  Property C13.  Expiry keeps up: a batch handles at most its limit, and when it handles fewer, every
  hold that is still active afterwards has not elapsed, or its order was locked by another
  transaction; no hold is ever made active again.
\<close>

theorem expire_batch_catches_up:
  assumes inv: "store_inv d" and run: "expire_batch E limit d = (Inr n, d')"
  shows "int n \<le> limit \<and> (\<forall>h\<in>set (holds d'). h_status h = H_ACTIVE \<longrightarrow> h \<in> set (holds d) \<and>
    (int n < limit \<longrightarrow> e_now E < h_expires h \<or> (\<exists>r\<in>set (orders d). o_hold r = h_id h \<and> e_locked E (L_order (o_id r)))))"
proof -
  have lim: "1 \<le> limit" and tx: "expire_tx E (nat limit) d = Inr (n, d')"
    using run by (auto simp: expire_batch_def transaction_result_Inr split: if_splits)
  note e = tx [unfolded expire_tx_Inr]
  have core: "core_inv d" using inv by (simp add: store_inv_def)
  let ?free = "filter (\<lambda>r. \<not> e_locked E (L_order (o_id r))) (map fst (expired_orders E d))"
  have n: "n = min (length ?free) (nat limit)" using e by (simp add: expiring_def)
  have "e_now E < h_expires h \<or> (\<exists>r\<in>set (orders d). o_hold r = h_id h \<and> e_locked E (L_order (o_id r)))"
    if h: "h \<in> set (holds d')" "h_status h = H_ACTIVE" and less: "int n < limit" for h
  proof -
    have hd: "h \<in> set (holds d)" "h_id h \<notin> o_hold ` set (expiring E (nat limit) d)"
      using release_all_holds [OF conjunct2 [OF e] h] by simp_all
    have all: "expiring E (nat limit) d = ?free" using n less lim by (simp add: expiring_def)
    obtain r where r: "r \<in> set (orders d)" "o_hold r = h_id h"
      using core hd(1) by (auto simp: core_inv_def order_inv_def)
    show ?thesis
    proof (cases "h_expires h \<le> e_now E")
      case True
      then have "(r, h) \<in> set (expired_orders E d)" using r hd(1) h(2) by (simp add: expired_orders_set)
      then have "e_locked E (L_order (o_id r))" using hd(2) all r(2) by force
      then show ?thesis using r by blast
    qed simp
  qed
  moreover have "int n \<le> limit" using n lim by linarith
  ultimately show ?thesis using release_all_holds [OF conjunct2 [OF e]] by blast
qed

theorem expire_batch_catches_up_witness:
  "\<exists>d'. expire_batch (stage_env CHR ''x'' 130000000) 8 held_db = (Inr 1, d') \<and>
     filter (\<lambda>h. h_status h = H_ACTIVE \<and> h_expires h \<le> 130000000) (holds d') = []"
proof -
  let ?x = "expire_batch (stage_env CHR ''x'' 130000000) 8 held_db"
  have "fst ?x = Inr 1" by code_simp
  then obtain d' where x: "?x = (Inr 1, d')" by (metis prod.collapse)
  from expire_batch_catches_up [OF held_inv x] x show ?thesis by (force simp: stage_env_def filter_empty_conv)
qed

section \<open>Commands of the writer\<close>

lemma find_command_new:
  assumes "insert_command c d = Inr d'"
  shows "find (\<lambda>x. m_id x = m_id c) (reservation_commands d') = Some c"
  using insert_command_effect [OF assms] by (simp add: find_snoc find_key_None [where key = m_id])

text \<open>
  Fact.  A command is persisted exactly once: after the writer has persisted a command,
  processing the same stream entry again gives the same durable answer and changes nothing.
\<close>

theorem persist_exactly_once:
  assumes run: "persist_reservation_command E p response d = (Inr resp, d')"
    and same: "e_sha E' = e_sha E" and unlocked: "\<not> e_locked E' (L_idem (cp_actor p) ''hold'' (cp_key p))"
  shows "persist_reservation_command E' p response d' = (Inr resp, d')"
proof -
  have hash: "digest E (reserve_request (cp_event p) (sort (cp_seats p))) = cp_request_hash p"
    and tx: "persist_tx E p response d = Inr (resp, d')"
    using run by (auto simp: persist_reservation_command_def transaction_result_Inr split: if_splits)
  have "persist_tx E' p response d' = Inr (resp, d')"
    using tx
  proof (cases rule: persist_tx_cases)
    case (known c)
    show ?thesis
    proof (cases "find (\<lambda>c. m_id c = cp_command_id p) (reservation_commands d)")
      case None
      then show ?thesis using known(1,2) by (force simp: find_key_None [where key = m_id])
    next
      case (Some c')
      then show ?thesis using tx known(5) by (auto simp: persist_tx_def split: if_splits)
    qed
  next
    case replay
    then have none: "find (\<lambda>c. m_id c = cp_command_id p) (reservation_commands d) = None"
      by (simp add: find_key_None [where key = m_id])
    have d': "d' = d" using replay(2) by (rule idem_replay)
    have "idem E' (cp_actor p) ''hold'' (cp_key p) (reserve_request (cp_event p) (sort (cp_seats p))) d = Inr (Some resp, d)"
      using replay(2) d' same unlocked by (auto simp: idem_def digest_def split: if_splits option.splits)
    moreover have ji: "jindex ''hold_id'' resp = Inr (JStr (cp_hold p))" "jindex ''order_id'' resp = Inr (JStr (cp_order p))"
      using replay(3,4) by simp_all
    ultimately show ?thesis by (simp add: persist_tx_def none d' ji)
  next
    case (created sale d1 d2)
    from find_command_new [OF created(11)] show ?thesis by (simp add: persist_tx_def)
  qed
  then show ?thesis using hash same by (simp add: persist_reservation_command_def digest_def transaction_Inr)
qed

definition demo_payload :: command_payload where
  "demo_payload = \<lparr>cp_command_id = ''c'', cp_actor = ''bob'', cp_key = ''k'', cp_request_hash = ''h'', cp_event = ''e'',
     cp_seats = [''A1''], cp_hold = ''h0'', cp_order = ''o0'', cp_expires = 5000000\<rparr>"

theorem persist_exactly_once_witness:
  "\<exists>resp d'. persist_reservation_command (stage_env CHR ''w'' 1000) demo_payload (JObj []) open_db = (Inr resp, d') \<and>
     d' \<noteq> open_db \<and> persist_reservation_command (stage_env CHR ''v'' 2000) demo_payload (JObj []) d' = (Inr resp, d')"
proof -
  let ?x = "persist_reservation_command (stage_env CHR ''w'' 1000) demo_payload (JObj []) open_db"
  have "fst ?x = Inr (durable_response (JObj []) 5 ''THB'' 5000000)" by code_simp
  then obtain d' where x: "?x = (Inr (durable_response (JObj []) 5 ''THB'' 5000000), d')" by (metis prod.collapse)
  have "orders (snd ?x) \<noteq> orders open_db" by code_simp
  then have "d' \<noteq> open_db" using x by auto
  moreover have "e_sha (stage_env CHR ''v'' 2000) = e_sha (stage_env CHR ''w'' 1000)" by (simp add: stage_env_def)
  ultimately show ?thesis using persist_exactly_once [OF x, of "stage_env CHR ''v'' 2000"] x by (auto simp: stage_env_fresh)
qed

end
