(* ===== verification/Reconcile_Facts.thy ===== *)
theory Reconcile_Facts
  imports Reconcile Store_Demo
begin

text \<open>
  What the reconciliation schedule guarantees: it follows the active window, no two workers hold
  an event at a time, a failing event waits a bounded time, and a batch leaves no lease behind.
\<close>

definition schedule_keys :: "db \<Rightarrow> bool" where
  "schedule_keys d \<longleftrightarrow> distinct (map q_event (event_reconciliation d)) \<and> distinct (map ev_id (events d))"

definition open_schedule :: db where
  "open_schedule = open_db\<lparr>event_reconciliation := [\<lparr>q_event = ''e'', q_next_due = 10, q_last = None, q_failures = 2,
     q_lease_until = None, q_lease_token = None, q_claimed = None\<rparr>]\<rparr>"

section \<open>Seeding and pruning\<close>

lemma eq_pairI: "fst p = a \<Longrightarrow> p = (a, snd p)"
  by auto

lemma seeding_set:
  "set (seeding S now d) \<subseteq> {e \<in> set (events d). active_window S now e \<and> ev_id e \<notin> q_event ` set (event_reconciliation d)}"
  by (auto simp: seeding_def dest!: in_set_takeD)

lemma seeding_distinct:
  assumes "distinct (map ev_id (events d))"
  shows "distinct (map ev_id (seeding S now d))"
proof -
  have "distinct (seeding S now d)" using assms by (simp add: seeding_def distinct_map distinct_take)
  moreover have "inj_on ev_id (set (seeding S now d))"
    using assms seeding_set [of S now d] by (auto simp: distinct_map intro: inj_on_subset)
  ultimately show ?thesis by (simp add: distinct_map)
qed

lemma seed_schedule_keys:
  assumes "schedule_keys d"
  shows "schedule_keys (seed_schedule S now d)"
proof -
  have "q_event ` set (event_reconciliation d) \<inter> ev_id ` set (seeding S now d) = {}"
  proof (rule equals0I)
    fix x assume "x \<in> q_event ` set (event_reconciliation d) \<inter> ev_id ` set (seeding S now d)"
    then obtain e where "e \<in> set (seeding S now d)" "ev_id e \<in> q_event ` set (event_reconciliation d)"
      by (metis IntD1 IntD2 imageE)
    then show False using seeding_set by fastforce
  qed
  moreover have "q_event \<circ> seed_row now = ev_id" by (simp add: fun_eq_iff seed_row_def)
  ultimately show ?thesis
    using assms seeding_distinct [of d S now] by (simp add: schedule_keys_def seed_schedule_def image_image image_comp)
qed

lemma seed_schedule_complete:
  assumes "length (seeding S now d) < nat (reconcile_seed_batch S)" and "e \<in> set (events d)" and "active_window S now e"
  shows "ev_id e \<in> q_event ` set (event_reconciliation (seed_schedule S now d))"
proof (cases "ev_id e \<in> q_event ` set (event_reconciliation d)")
  case False
  have "e \<in> set (seeding S now d)"
    using assms False by (simp add: seeding_def)
  then show ?thesis by (auto simp: seed_schedule_def seed_row_def image_Un image_image)
qed (auto simp: seed_schedule_def)

lemma maintain_schedule_result:
  assumes "maintain_schedule E S d = (r, d')"
  shows "d' = prune_schedule E S (seed_schedule S (e_now E) d)"
    and "r = Inr (length (seeding S (e_now E) d),
      length (event_reconciliation (seed_schedule S (e_now E) d)) - length (event_reconciliation d'), sample_schedule (e_now E) d')"
  using assms by (auto simp: maintain_schedule_def transaction_def Let_def)

lemma pruned_outside:
  assumes k: "schedule_keys d" and q: "q \<in> set (event_reconciliation d)" "q \<notin> set (event_reconciliation (prune_schedule E S d))"
  shows "row_outside S (e_now E) d q \<and> lease_free (e_now E) (q_lease_until q)"
proof -
  have l: "lease_free (e_now E) (q_lease_until q)" and m: "q_event q \<in> set (pruning E S d)"
    using q by (auto simp: prune_schedule_def)
  from m obtain p where p: "p \<in> set (event_reconciliation d)" "q_event p = q_event q" "row_outside S (e_now E) d p"
    by (auto simp: pruning_def dest!: in_set_takeD)
  then have "p = q" using k q(1) by (auto simp: schedule_keys_def distinct_map inj_on_def)
  with p l show ?thesis by simp
qed

text \<open>
  Fact.  The schedule follows the active window: maintaining it keeps one row per event; unless
  the seed batch was full, every event within the window is tracked afterwards; and the only rows
  that disappear are unleased rows of events outside the window.
\<close>

theorem schedule_follows_window:
  assumes k: "schedule_keys d" and run: "maintain_schedule E S d = (Inr (seeded, pruned, g), d')"
  shows "schedule_keys d' \<and>
    (seeded < nat (reconcile_seed_batch S) \<longrightarrow>
       (\<forall>e\<in>set (events d). active_window S (e_now E) e \<longrightarrow> ev_id e \<in> q_event ` set (event_reconciliation d'))) \<and>
    (\<forall>q\<in>set (event_reconciliation d). q \<notin> set (event_reconciliation d') \<longrightarrow>
       row_outside S (e_now E) d q \<and> lease_free (e_now E) (q_lease_until q))"
proof -
  let ?d1 = "seed_schedule S (e_now E) d"
  note r = maintain_schedule_result [OF run]
  have k1: "schedule_keys ?d1" by (rule seed_schedule_keys [OF k])
  have ev: "events ?d1 = events d" "events d' = events d" by (simp_all add: r(1) seed_schedule_def prune_schedule_def)
  have "schedule_keys d'"
    using k1 by (simp add: r(1) schedule_keys_def prune_schedule_def distinct_map_filter)
  moreover have "ev_id e \<in> q_event ` set (event_reconciliation d')"
    if less: "seeded < nat (reconcile_seed_batch S)" and e: "e \<in> set (events d)" "active_window S (e_now E) e" for e
  proof -
    obtain q where q: "q \<in> set (event_reconciliation ?d1)" "q_event q = ev_id e"
      using seed_schedule_complete [OF _ e] less r(2) by auto
    have "\<not> row_outside S (e_now E) ?d1 q"
      using k e q(2) by (auto simp: row_outside_def list_ex_iff ev schedule_keys_def distinct_map inj_on_def)
    then have "q \<in> set (event_reconciliation d')" using pruned_outside [OF k1 q(1)] r(1) by blast
    then show ?thesis using q(2) by (metis imageI)
  qed
  moreover have "row_outside S (e_now E) d q \<and> lease_free (e_now E) (q_lease_until q)"
    if "q \<in> set (event_reconciliation d)" "q \<notin> set (event_reconciliation d')" for q
  proof -
    have "q \<in> set (event_reconciliation ?d1)" using that(1) by (simp add: seed_schedule_def)
    from pruned_outside [OF k1 this] that(2) r(1) show ?thesis by (simp add: row_outside_def ev)
  qed
  ultimately show ?thesis by blast
qed

theorem schedule_follows_window_witness:
  "\<exists>seeded pruned g d'. maintain_schedule (stage_env CHR ''m'' 1000) default_settings open_db = (Inr (seeded, pruned, g), d') \<and>
     ''e'' \<in> q_event ` set (event_reconciliation d')"
proof -
  let ?E = "stage_env CHR ''m'' 1000"
  let ?x = "maintain_schedule ?E default_settings open_db"
  obtain pruned g where f: "fst ?x = Inr (length (seeding default_settings (e_now ?E) open_db), pruned, g)"
    using maintain_schedule_result(2) [OF surjective_pairing] by blast
  note x = eq_pairI [OF f]
  have k: "schedule_keys open_db" and a: "list_ex (\<lambda>e. ev_id e = ''e'' \<and> active_window default_settings 1000 e) (events open_db)"
    by code_simp+
  obtain e where e: "e \<in> set (events open_db)" "ev_id e = ''e''" "active_window default_settings 1000 e"
    using a by (auto simp: list_ex_iff)
  have now: "e_now ?E = 1000" by (simp add: stage_env_def)
  have "length (seeding default_settings (e_now ?E) open_db) \<le> length (events open_db)"
    unfolding seeding_def by (simp add: min.coboundedI1)
  then have "length (seeding default_settings (e_now ?E) open_db) < nat (reconcile_seed_batch default_settings)"
    by (simp add: open_db_def default_settings_def)
  with schedule_follows_window [OF k x] have "\<forall>e\<in>set (events open_db). active_window default_settings (e_now ?E) e \<longrightarrow>
      ev_id e \<in> q_event ` set (event_reconciliation (snd ?x))" by blast
  then have "ev_id e \<in> q_event ` set (event_reconciliation (snd ?x))" using e(1,3) now by metis
  then show ?thesis using x e(2) by (metis (no_types))
qed

section \<open>Claims\<close>

lemma claim_due_events_Inr:
  assumes "claim_due_events E S d = (Inr (token, es, n), d')"
  shows "token = e_uuid E 0" and "es = map q_event (due_rows E S d)"
    and "event_reconciliation d' = upd_where (\<lambda>q. q_event q \<in> set es)
        (\<lambda>q. q\<lparr>q_lease_token := Some token, q_lease_until := Some (e_now E + reconcile_lease_seconds S * 1000000),
               q_claimed := Some (e_now E)\<rparr>) (event_reconciliation d)"
proof -
  have no: "upd_where (\<lambda>q. False) f xs = xs" for f :: "reconcile_row \<Rightarrow> reconcile_row" and xs
    by (induction xs) auto
  show "token = e_uuid E 0" "es = map q_event (due_rows E S d)"
    "event_reconciliation d' = upd_where (\<lambda>q. q_event q \<in> set es)
        (\<lambda>q. q\<lparr>q_lease_token := Some token, q_lease_until := Some (e_now E + reconcile_lease_seconds S * 1000000),
               q_claimed := Some (e_now E)\<rparr>) (event_reconciliation d)"
    using assms by (auto simp: claim_due_events_def claim_due_tx_def transaction_def Let_def no split: if_splits)
qed

text \<open>
  Fact.  No two workers reconcile an event at once: while the lease of a claim lasts, another
  claim, by whichever worker and with whichever settings, takes none of its events.
\<close>

theorem reconcile_claims_exclude:
  assumes first: "claim_due_events E S d = (Inr (token, es, n), d')"
    and second: "claim_due_events E' S' d' = (Inr (token', es', n'), d'')"
    and lease: "e_now E' \<le> e_now E + reconcile_lease_seconds S * 1000000"
  shows "set es \<inter> set es' = {}"
proof -
  note a = claim_due_events_Inr [OF first] and b = claim_due_events_Inr [OF second]
  have False if e: "e \<in> set es" "e \<in> set es'" for e
  proof -
    obtain q where q: "q \<in> set (event_reconciliation d')" "q_event q = e" "lease_free (e_now E') (q_lease_until q)"
      using e(2) by (auto simp: b(2) due_rows_def dest!: in_set_takeD)
    then have "q_lease_until q = Some (e_now E + reconcile_lease_seconds S * 1000000)"
      using e(1) by (auto simp: a(3) set_upd_where)
    then show False using q(3) lease by (simp add: lease_free_def)
  qed
  then show ?thesis by blast
qed

theorem reconcile_claims_exclude_witness:
  "\<exists>es es' d' d''. claim_due_events (stage_env CHR ''m'' 1000) default_settings open_schedule = (Inr (''m0'', es, 0), d') \<and>
     es = [''e''] \<and> claim_due_events (stage_env CHR ''n'' 2000) default_settings d' = (Inr (''n0'', es', 0), d'') \<and> set es \<inter> set es' = {}"
proof -
  let ?x = "claim_due_events (stage_env CHR ''m'' 1000) default_settings open_schedule"
  let ?y = "claim_due_events (stage_env CHR ''n'' 2000) default_settings (snd ?x)"
  have x: "?x = (Inr (''m0'', [''e''], 0), snd ?x)" by (rule eq_pairI) code_simp
  have y: "?y = (Inr (''n0'', [], 0), snd ?y)" by (rule eq_pairI) code_simp
  have "e_now (stage_env CHR ''n'' 2000) \<le> e_now (stage_env CHR ''m'' 1000) + reconcile_lease_seconds default_settings * 1000000"
    by code_simp
  from reconcile_claims_exclude [OF x y this] x y show ?thesis by blast
qed

section \<open>Backoff\<close>

lemma backoff_eq: "0 \<le> reconcile_backoff_ms S \<Longrightarrow> backoff S n = reconcile_backoff_ms S * 2 ^ min n 5"
proof -
  assume "0 \<le> reconcile_backoff_ms S"
  moreover have "(2::int) ^ min n 5 \<le> 2 ^ 5" by (rule power_increasing) simp_all
  ultimately have "reconcile_backoff_ms S * 2 ^ min n 5 \<le> reconcile_backoff_ms S * 2 ^ 5" by (simp only: mult_left_mono)
  then show ?thesis by (simp add: backoff_def min_absorb1)
qed

lemma backoff_bounds:
  assumes "0 \<le> reconcile_backoff_ms S"
  shows "reconcile_backoff_ms S \<le> backoff S n" "backoff S n \<le> reconcile_backoff_ms S * 32" "backoff S n \<le> backoff S (Suc n)"
proof -
  have "(1::int) \<le> 2 ^ min n 5" "(2::int) ^ min n 5 \<le> 2 ^ 5" "(2::int) ^ min n 5 \<le> 2 ^ min (Suc n) 5"
    by (simp, rule power_increasing, simp, simp, rule power_increasing, simp, simp)
  then show "reconcile_backoff_ms S \<le> backoff S n" "backoff S n \<le> reconcile_backoff_ms S * 32" "backoff S n \<le> backoff S (Suc n)"
    using assms by (simp_all only: backoff_eq) (simp_all add: mult_left_mono mult_le_cancel_left1)
qed

text \<open>
  Fact.  A failing event waits, but not for ever: deferring moves the deadline of the worker's
  own row between one and thirty-two times the base delay into the future, longer after more
  failures, gives the lease back, and leaves every other row as it is, also when the lease was
  taken over meanwhile.
\<close>

theorem deferred_event_waits_bounded:
  assumes valid: "validate S = Inr ()" and run: "defer_reconciliation E S event_id token d = (r, d')"
    and q: "q' \<in> set (event_reconciliation d')"
  shows "q' \<in> set (event_reconciliation d) \<or>
    (\<exists>q\<in>set (event_reconciliation d). q_event q = event_id \<and> q_lease_token q = Some token \<and> q_event q' = event_id \<and>
       q_lease_token q' = None \<and> q_failures q' = q_failures q + 1 \<and>
       q_next_due q' = e_now E + backoff S (q_failures q) * 1000 \<and>
       e_now E + reconcile_backoff_ms S * 1000 \<le> q_next_due q' \<and>
       q_next_due q' \<le> e_now E + reconcile_backoff_ms S * 32000 \<and> backoff S (q_failures q) \<le> backoff S (q_failures q'))"
proof -
  have d': "event_reconciliation d' = upd_where (\<lambda>q. q_event q = event_id \<and> q_lease_token q = Some token)
       (\<lambda>q. q\<lparr>q_failures := q_failures q + 1, q_next_due := e_now E + backoff S (q_failures q) * 1000,
              q_lease_until := None, q_lease_token := None\<rparr>) (event_reconciliation d)"
    using run by (auto simp: defer_reconciliation_def transaction_def)
  have "0 \<le> reconcile_backoff_ms S" using validated(13) [OF valid] by simp
  note b = backoff_bounds [OF this]
  obtain p where p: "p \<in> set (event_reconciliation d)" and eq: "q' = (if q_event p = event_id \<and> q_lease_token p = Some token
      then p\<lparr>q_failures := q_failures p + 1, q_next_due := e_now E + backoff S (q_failures p) * 1000,
              q_lease_until := None, q_lease_token := None\<rparr> else p)"
    using q by (auto simp: d' set_upd_where)
  show ?thesis
  proof (cases "q_event p = event_id \<and> q_lease_token p = Some token")
    case True
    then show ?thesis using p eq b [of "q_failures p"] by (intro disjI2 bexI [OF _ p]) simp
  next
    case False
    then have "q' = p" using eq by meson
    then show ?thesis using p by simp
  qed
qed

theorem deferred_event_waits_bounded_witness:
  "\<exists>q'. q' \<in> set (event_reconciliation (snd (defer_reconciliation (stage_env CHR ''m'' 2000) default_settings ''e'' ''m0''
      (snd (claim_due_events (stage_env CHR ''m'' 1000) default_settings open_schedule))))) \<and>
     q_next_due q' = 2000 + 4000 * 1000"
proof -
  let ?d = "snd (claim_due_events (stage_env CHR ''m'' 1000) default_settings open_schedule)"
  let ?x = "defer_reconciliation (stage_env CHR ''m'' 2000) default_settings ''e'' ''m0'' ?d"
  have m: "map q_next_due (event_reconciliation (snd ?x)) = [4002000]"
    and o: "map (\<lambda>q. (q_next_due q, q_failures q)) (event_reconciliation ?d) = [(10, 2)]" by code_simp+
  from m obtain q' where qs: "event_reconciliation (snd ?x) = [q']" and due: "q_next_due q' = 4002000"
    by (simp only: map_eq_Cons_conv map_is_Nil_conv) blast
  have q': "q' \<in> set (event_reconciliation (snd ?x))" by (simp only: qs list.set_intros)
  have "q' \<notin> set (event_reconciliation ?d)" using o due by (cases "event_reconciliation ?d") auto
  with deferred_event_waits_bounded [OF default_valid surjective_pairing q'] have "\<exists>q\<in>set (event_reconciliation ?d).
      q_next_due q' = e_now (stage_env CHR ''m'' 2000) + backoff default_settings (q_failures q) * 1000" by blast
  with q' due show ?thesis by auto
qed

section \<open>A batch\<close>

text \<open>The rows that still carry a token after an event was handled are those of other events.\<close>

definition leased_by :: "uuid \<Rightarrow> db \<Rightarrow> uuid set" where
  "leased_by token d = q_event ` {q \<in> set (event_reconciliation d). q_lease_token q = Some token}"

lemma leased_by_cleared:
  assumes "event_reconciliation d' = upd_where (\<lambda>q. P (q_event q) \<and> q_lease_token q = Some token) f (event_reconciliation d)"
    and "\<And>q. q_lease_token (f q) = None"
  shows "leased_by token d' = {e \<in> leased_by token d. \<not> P e}"
proof -
  have "{q \<in> set (upd_where (\<lambda>q. P (q_event q) \<and> q_lease_token q = Some token) f xs). q_lease_token q = Some token} =
      {q \<in> set xs. q_lease_token q = Some token \<and> \<not> P (q_event q)}" for xs
    using assms(2) by (induction xs) auto
  then show ?thesis by (auto simp: leased_by_def assms(1))
qed

lemma leased_by_settled:
  "leased_by token (snd (defer_reconciliation E S e token d)) = leased_by token d - {e}"
  "leased_by token (snd (complete_reconciliation E S e token d)) = leased_by token d - {e}"
  "leased_by token (snd (return_claims es token d)) = leased_by token d - set es"
proof -
  show "leased_by token (snd (defer_reconciliation E S e token d)) = leased_by token d - {e}"
    by (subst leased_by_cleared [where P = "\<lambda>x. x = e" and d = d])
      (auto simp: defer_reconciliation_def transaction_def)
  show "leased_by token (snd (complete_reconciliation E S e token d)) = leased_by token d - {e}"
    by (subst leased_by_cleared [where P = "\<lambda>x. x = e" and d = d])
      (auto simp: complete_reconciliation_def transaction_def Let_def)
  show "leased_by token (snd (return_claims es token d)) = leased_by token d - set es"
    by (subst leased_by_cleared [where P = "\<lambda>x. x \<in> set es" and d = d])
      (auto simp: return_claims_def transaction_def)
qed

lemma reconcile_event_leases:
  "tn_up T \<Longrightarrow> leased_by token (fst (reconcile_event S T token e (d, maps))) = leased_by token d - {e}"
  by (cases "snapshot (tn_cache T) e d maps") (auto simp: reconcile_event_def leased_by_settled split: sum.splits)

lemma reconcile_events_leases:
  assumes "\<forall>e. tn_before (T e) = id \<and> tn_up (T e)"
  shows "leased_by token d \<subseteq> set es \<Longrightarrow> reconcile_events S T token es (d, maps) = (r, d', maps') \<Longrightarrow>
    (\<exists>n\<le>length es. r = Inr n \<and> ((\<forall>e\<in>set es. \<not> tn_late (T e)) \<longrightarrow> n = length es)) \<and> leased_by token d' = {}"
proof (induction es arbitrary: d maps r)
  case Nil
  then show ?case by auto
next
  case (Cons e es)
  have q: "tn_before (T e) = id" "tn_up (T e)" using assms by simp_all
  show ?case
  proof (cases "tn_late (T e)")
    case True
    then have "r = Inr 0" "d' = snd (return_claims (e # es) token d)" using Cons.prems(2) q by (auto simp: Let_def)
    then show ?thesis using Cons.prems(1) leased_by_settled(3) [of token "e # es" d] True by auto
  next
    case False
    obtain d1 maps1 where s1: "reconcile_event S (T e) token e (d, maps) = (d1, maps1)" by (rule prod.exhaust)
    have sub: "leased_by token d1 \<subseteq> set es"
      using reconcile_event_leases [OF q(2), of token S e d maps] s1 Cons.prems(1) by auto
    obtain r1 s2 where rec: "reconcile_events S T token es (d1, maps1) = (r1, s2)" by (rule prod.exhaust)
    then have eq: "r = map_sum id Suc r1" "s2 = (d', maps')"
      using Cons.prems(2) False q(1) s1 by (auto simp: Let_def)
    from Cons.IH [OF sub] rec eq obtain n where "n \<le> length es" "r1 = Inr n"
      "(\<forall>e\<in>set es. \<not> tn_late (T e)) \<longrightarrow> n = length es" "leased_by token d' = {}" by blast
    then show ?thesis using eq(1) by auto
  qed
qed

text \<open>
  Fact.  One slow or failing event neither aborts a batch nor keeps a lease: when the
  bookkeeping transactions get through and no other worker interferes, the batch handles a number
  of events up to what it claimed, all of them unless the deadline cuts it short, whatever
  happens to the single snapshots, and no row carries the batch's token afterwards.
\<close>

theorem reconcile_batch_leaves_no_lease:
  assumes fresh: "leased_by (e_uuid E 0) d = {}" and quiet: "\<forall>e. tn_before (T e) = id \<and> tn_up (T e)"
    and run: "reconcile_batch E S T (d, maps) = (r, d', maps')"
  shows "\<exists>n\<le>length (due_rows E S d). r = Inr n \<and> leased_by (e_uuid E 0) d' = {} \<and>
    ((\<forall>q\<in>set (due_rows E S d). \<not> tn_late (T (q_event q))) \<longrightarrow> n = length (due_rows E S d))"
proof -
  let ?rows = "due_rows E S d"
  obtain d1 k where c: "claim_due_events E S d = (Inr (e_uuid E 0, map q_event ?rows, k), d1)"
    by (cases "?rows = []") (simp_all add: claim_due_events_def claim_due_tx_def transaction_def Let_def)
  note cl = claim_due_events_Inr [OF c]
  have "leased_by (e_uuid E 0) d1 \<subseteq> set (map q_event ?rows)"
    using fresh by (auto simp: leased_by_def cl(3) set_upd_where split: if_splits)
  from reconcile_events_leases [OF quiet this, of S maps r d' maps'] run c show ?thesis
    by (auto simp: reconcile_batch_def)
qed

definition calm_turn :: turn where
  "calm_turn = \<lparr>tn_late = False, tn_before = id, tn_cache = \<lparr>ce_now = 1, ce_uuid = ''i'', ce_sha = (\<lambda>_. ''h''), ce_ttl = 30, ce_up = False\<rparr>,
     tn_env = stage_env CHR ''c'' 2000, tn_up = True\<rparr>"

theorem reconcile_batch_leaves_no_lease_witness:
  "\<exists>n d' maps'. reconcile_batch (stage_env CHR ''m'' 1000) default_settings (\<lambda>_. calm_turn) (open_schedule, \<lambda>_. empty_map) = (Inr n, d', maps') \<and>
     leased_by ''m0'' d' = {}"
proof -
  let ?x = "reconcile_batch (stage_env CHR ''m'' 1000) default_settings (\<lambda>_. calm_turn) (open_schedule, \<lambda>_. empty_map)"
  have u: "e_uuid (stage_env CHR ''m'' 1000) 0 = ''m0''" by code_simp
  have "leased_by (e_uuid (stage_env CHR ''m'' 1000) 0) open_schedule = {}" by (simp add: leased_by_def open_schedule_def)
  moreover have "\<forall>e. tn_before ((\<lambda>_. calm_turn) e) = id \<and> tn_up ((\<lambda>_. calm_turn) e)" by (simp add: calm_turn_def)
  moreover obtain r d' maps' where x: "?x = (r, d', maps')" by (metis prod.collapse)
  ultimately show ?thesis using reconcile_batch_leaves_no_lease [OF _ _ x] u by (metis x)
qed

end
