(* ===== verification/Cli.thy ===== *)
theory Cli
  imports Fulfilment Config
begin

text \<open>
  The administration commands (\<open>cli.py\<close>): applying migrations, seeding the demo event, replaying a
  dead letter, and the guard of the token issuer.
\<close>

section \<open>Migrations\<close>

text \<open>
  The ledger \<open>schema_migrations\<close> (name and checksum) and, in order, the scripts that were run.
\<close>

record ledger =
  applied :: "(string \<times> string) list"
  executed :: "string list"

fun run_migrations :: "(string \<Rightarrow> string) \<Rightarrow> (string \<times> string) list \<Rightarrow> ledger \<Rightarrow> ledger result" where
  "run_migrations sha [] m = Inr m"
| "run_migrations sha ((name, sql) # files) m =
     (case map_of (applied m) name of
        Some checksum \<Rightarrow>
          if checksum \<noteq> sha sql then Inl (PyError ''RuntimeError'') else run_migrations sha files m
      | None \<Rightarrow> run_migrations sha files
          (m\<lparr>applied := applied m @ [(name, sha sql)], executed := executed m @ [sql]\<rparr>))"

text \<open>\<open>files\<close> is what the directory holds; the connection commits at the end or rolls back.\<close>

definition migrate :: "(string \<Rightarrow> string) \<Rightarrow> (string \<times> string) list \<Rightarrow> ledger \<Rightarrow> unit result \<times> ledger" where
  "migrate sha files m =
     (if files = [] then (Inl (PyError ''RuntimeError''), m)
      else case run_migrations sha (sort_key fst files) m of
        Inl x \<Rightarrow> (Inl x, m) | Inr m' \<Rightarrow> (Inr (), m'))"

section \<open>The demo event\<close>

definition demo_event :: uuid where
  "demo_event = ''00000000-0000-0000-0000-000000000001''"

definition pad3 :: "nat \<Rightarrow> string" where
  "pad3 n = replicate (3 - length (nat_str n)) (CHR ''0'') @ nat_str n"

definition seed_event :: "env \<Rightarrow> db \<Rightarrow> db" where
  "seed_event E d =
     (if demo_event \<in> ev_id ` set (events d) then d
      else d\<lparr>events := events d @ [\<lparr>ev_id = demo_event, ev_title = ''Bangkok Demo Concert'', ev_currency = ''THB'',
        ev_sale_starts = e_now E - 86400 * 1000000, ev_sale_ends = e_now E + 365 * 86400 * 1000000\<rparr>]\<rparr>)"

definition seed_seat :: "nat \<Rightarrow> db \<Rightarrow> db" where
  "seed_seat i d =
     (let s = \<lparr>s_event = demo_event, s_id = CHR ''A'' # pad3 i, s_price = 250000, s_hold = None, s_until = None,
               s_booked = None, s_version = 0\<rparr> in
      if seat_key s \<in> seat_key ` set (event_seats d) then d else d\<lparr>event_seats := event_seats d @ [s]\<rparr>)"

definition seed_tx :: "env \<Rightarrow> db \<Rightarrow> (unit \<times> db) result" where
  "seed_tx E d = Inr ((), fold seed_seat [1..<101] (seed_event E d))"

definition seed :: "env \<Rightarrow> settings \<Rightarrow> cache_env \<Rightarrow> db \<times> seatmaps \<Rightarrow> unit result \<times> db \<times> seatmaps" where
  "seed E S C = (\<lambda>(d, maps).
     if environment S \<noteq> ''development'' then (Inl (PyError ''RuntimeError''), d, maps)
     else case transaction (seed_tx E) d of
       (Inl x, d') \<Rightarrow> (Inl x, d', maps)
     | (Inr _, d') \<Rightarrow> (case snapshot C demo_event d' maps of (r, maps') \<Rightarrow> (r, d', maps')))"

text \<open>The local token issuer; \<open>encode\<close> is the JWT library.\<close>

definition issue_token :: "(json \<Rightarrow> string \<Rightarrow> string) \<Rightarrow> settings \<Rightarrow> time \<Rightarrow> string \<Rightarrow> string result" where
  "issue_token encode S now subject =
     (if environment S \<noteq> ''development'' then Inl (PyError ''RuntimeError'')
      else Inr (encode (JObj [(''sub'', JStr subject), (''iss'', JStr ''ticketing''), (''aud'', JStr ''ticketing''),
        (''iat'', JTime now), (''exp'', JTime (now + 7200 * 1000000))]) (jwt_secret S)))"

section \<open>Replaying a dead letter\<close>

text \<open>\<open>parse\<close> is \<open>json.loads\<close>; \<open>between\<close> is what others commit before the letter is removed.\<close>

definition delete_letter :: "uuid \<Rightarrow> db \<Rightarrow> (unit \<times> db) result" where
  "delete_letter i d = Inr ((), d\<lparr>dead_letters := filter (\<lambda>r. d_id r \<noteq> i) (dead_letters d)\<rparr>)"

definition replay_letter :: "(string \<Rightarrow> json option) \<Rightarrow> env \<Rightarrow> (db \<Rightarrow> db) \<Rightarrow> uuid \<Rightarrow> db \<Rightarrow> unit result \<times> db" where
  "replay_letter parse E between i d =
     (case find (\<lambda>r. d_id r = i) (dead_letters d) of
        None \<Rightarrow> (Inl (PyError ''RuntimeError''), d)
      | Some row \<Rightarrow>
          (case ebind (ebind (jindex ''raw'' (d_payload row)) as_text) (\<lambda>raw.
                  case parse raw of None \<Rightarrow> Inl (PyError ''JSONDecodeError'') | Some j \<Rightarrow> Inr j) of
             Inl x \<Rightarrow> (Inl x, d)
           | Inr envelope \<Rightarrow>
               (case consume_event E envelope d of
                  (Inl x, d1) \<Rightarrow> (Inl x, d1)
                | (Inr _, d1) \<Rightarrow> transaction (delete_letter i) (between d1))))"

end
