(* ===== verification/Intake_Facts.thy ===== *)
theory Intake_Facts
  imports Intake
begin

text \<open>
  What the intake guarantees: a refused request changes nothing, an accepted one owns its seats
  against every other request until its deadline, a repeated one answers with the state of the
  first, a command ends either durable or failed, and the stream never outgrows its bound.
\<close>

section \<open>The scripts\<close>

definition cseat_free :: "time \<Rightarrow> cseat \<Rightarrow> bool" where
  "cseat_free now s \<longleftrightarrow> cs_status s = AVAILABLE \<or> cs_status s = HELD \<and> (\<exists>t. cs_until_epoch s = Some t \<and> t \<le> now)"

lemma select_cseats_Cons:
  assumes "select_cseats now ss (i # is) = Inr r"
  obtains (none) "find_cseat i ss = None" and "r = Inl (Q_refused (-5))"
    | (taken) s where "find_cseat i ss = Some s" and "r = Inl (Q_refused (-6))"
    | (later) s q where "find_cseat i ss = Some s" and "select_cseats now ss is = Inr (Inl q)" and "r = Inl q"
    | (taking) s sel where "find_cseat i ss = Some s" and "cseat_free now s"
      and "select_cseats now ss is = Inr (Inr sel)" and "r = Inr (s # sel)"
proof (cases "find_cseat i ss")
  case None
  then show ?thesis using assms by (intro none) simp_all
next
  case (Some s)
  obtain free where free: "(case cs_status s of AVAILABLE \<Rightarrow> Inr True | SOLD \<Rightarrow> Inr False
      | HELD \<Rightarrow> (case cs_until_epoch s of None \<Rightarrow> Inl RedisError | Some t \<Rightarrow> Inr (t \<le> now))) = (Inr free :: bool result)"
    using assms Some by (auto simp: ebind_Inr_iff)
  show ?thesis
  proof (cases free)
    case False
    then show ?thesis using assms Some free by (intro taken [of s]) simp_all
  next
    case True
    then have cf: "cseat_free now s"
      using free by (auto simp: cseat_free_def split: seat_status.splits option.splits)
    from assms Some free True obtain x where x: "select_cseats now ss is = Inr x"
      "r = (case x of Inl q \<Rightarrow> Inl q | Inr sel \<Rightarrow> Inr (s # sel))"
      by (auto simp: ebind_Inr_iff)
    show ?thesis
    proof (cases x)
      case (Inl q)
      with x Some show ?thesis by (intro later [of s q]) simp_all
    next
      case (Inr sel)
      with x Some cf show ?thesis by (intro taking [of s sel]) simp_all
    qed
  qed
qed

lemma select_cseats_Inr:
  "select_cseats now ss ids = Inr (Inr sel) \<Longrightarrow>
     map cs_id sel = ids \<and> (\<forall>s\<in>set sel. find_cseat (cs_id s) ss = Some s \<and> cseat_free now s)"
proof (induction ids arbitrary: sel)
  case (Cons i ids)
  from Cons.prems show ?case
  proof (cases rule: select_cseats_Cons)
    case (taking s sel')
    then show ?thesis using Cons.IH [of sel'] find_cseat_Some [of i ss s] by auto
  qed simp_all
qed simp

lemma select_cseats_taken:
  assumes "i \<in> set ids" and "find_cseat i ss = Some s" and "cs_status s = HELD" and "cs_until_epoch s = Some t" and "now < t"
  shows "select_cseats now ss ids \<noteq> Inr (Inr sel)"
proof
  assume sel: "select_cseats now ss ids = Inr (Inr sel)"
  obtain x where x: "x \<in> set sel" "cs_id x = i"
    using select_cseats_Inr [OF sel] assms(1) by (metis imageE list.set_map)
  with select_cseats_Inr [OF sel] assms(2) have "x = s" "cseat_free now s" by auto
  with assms show False by (auto simp: cseat_free_def)
qed

definition held_cseat :: "uuid \<Rightarrow> time \<Rightarrow> time \<Rightarrow> cseat \<Rightarrow> bool" where
  "held_cseat hold until until_epoch s \<longleftrightarrow> cs_status s = HELD \<and> cs_hold s = Some hold \<and>
     cs_until s = Some until \<and> cs_until_epoch s = Some until_epoch"

lemma hold_cseats_find:
  assumes "distinct (map cs_id sel)"
  shows "find_cseat i (snd (hold_cseats hold until ue v sel ss)) =
    (case find_cseat i sel of None \<Rightarrow> find_cseat i ss
     | Some s \<Rightarrow> find_cseat i (snd (hold_cseats hold until ue v sel ss))) \<and>
    (i \<in> cs_id ` set sel \<longrightarrow> (\<exists>s. find_cseat i (snd (hold_cseats hold until ue v sel ss)) = Some s \<and> held_cseat hold until ue s \<and>
       (\<exists>s0\<in>set sel. cs_id s0 = i \<and> cs_price s = cs_price s0 \<and> cs_source s = cs_source s0)))"
  using assms
proof (induction sel arbitrary: v ss)
  case Nil
  then show ?case by (simp add: find_cseat_def)
next
  case (Cons s sel)
  let ?s = "s\<lparr>cs_status := HELD, cs_hold := Some hold, cs_until := Some until,
          cs_until_epoch := Some ue, cs_version := Some (v + 1)\<rparr>"
  have IH: "find_cseat i (snd (hold_cseats hold until ue (v + 1) sel (set_cseat ?s ss))) =
    (case find_cseat i sel of None \<Rightarrow> find_cseat i (set_cseat ?s ss)
     | Some s' \<Rightarrow> find_cseat i (snd (hold_cseats hold until ue (v + 1) sel (set_cseat ?s ss))))"
    and IH2: "i \<in> cs_id ` set sel \<longrightarrow> (\<exists>s. find_cseat i (snd (hold_cseats hold until ue (v + 1) sel (set_cseat ?s ss))) = Some s \<and>
       held_cseat hold until ue s \<and> (\<exists>s0\<in>set sel. cs_id s0 = i \<and> cs_price s = cs_price s0 \<and> cs_source s = cs_source s0))"
    using Cons.IH [of "v + 1" "set_cseat ?s ss"] Cons.prems by auto
  show ?case
  proof (cases "i = cs_id s")
    case True
    then have none: "find_cseat i sel = None" using Cons.prems by (simp add: find_cseat_None)
    have "find_cseat i (snd (hold_cseats hold until ue v (s # sel) ss)) = Some ?s"
      using IH none True by (simp add: find_set_cseat)
    then show ?thesis using True by (auto simp: held_cseat_def find_cseat_def)
  next
    case False
    have c: "find_cseat i (s # sel) = find_cseat i sel" using False by (simp add: find_cseat_def)
    show ?thesis unfolding c using IH IH2 False
      by (auto simp: find_set_cseat split: option.splits)
  qed
qed

lemma hold_cseats_version: "fst (hold_cseats hold until ue v sel ss) = v + int (length sel)"
  by (induction sel arbitrary: v ss) simp_all

lemma select_refused:
  "select_cseats now ss ids = Inr (Inl q) \<Longrightarrow> q = Q_refused (-5) \<or> q = Q_refused (-6)"
proof (induction ids arbitrary: q)
  case (Cons i ids)
  from Cons.prems show ?case by (cases rule: select_cseats_Cons) (use Cons.IH in auto)
qed simp

lemma enqueue_accepted:
  assumes "enqueue_script rt e k a rd = Inr (Q_accepted r, rd')"
  obtains version starts ends currency sel where
    "sm_version (live rt (rd_maps rd e)) = Some version"
    "sm_sale (live rt (rd_maps rd e)) = Some (starts, ends, currency)"
    "\<not> sm_updating (live rt (rd_maps rd e))"
    "starts \<le> seconds rt" "seconds rt < ends" "get_idem rt e k rd = None"
    "length (rd_streams rd e) < qa_max_backlog a"
    "select_cseats (seconds rt) (sm_seats (live rt (rd_maps rd e))) (qa_seats a) = Inr (Inr sel)"
    "r = pending_response (qa_response a) (sum_list (map cs_price sel)) currency
       (seconds rt + qa_hold_seconds a * 1000000) (qa_expires a)"
    "sm_seats (rd_maps rd' e) = snd (hold_cseats (cp_hold (qa_payload a)) (qa_expires a)
       (seconds rt + qa_hold_seconds a * 1000000) version sel (sm_seats (live rt (rd_maps rd e))))"
    "sm_version (rd_maps rd' e) = Some (version + int (length sel))"
    "rd_streams rd' e = rd_streams rd e @ [\<lparr>se_id = rd_next rd, se_payload = qa_payload a, se_response = r,
        se_created = seconds rt, se_claim = None\<rparr>]"
    "rd_idem rd' e k = Some \<lparr>ih_request = qa_request_hash a, ih_response = r, ih_expires = rt + qa_retention a * 1000000\<rparr>"
    "rd_commands rd' e (cp_command_id (qa_payload a)) = Some \<lparr>ch_status = C_PENDING, ch_response = r,
        ch_payload = qa_payload a, ch_created = seconds rt, ch_error = None, ch_expires = rt + qa_retention a * 1000000\<rparr>"
proof -
  let ?h = "live rt (rd_maps rd e)"
  obtain version where v: "sm_version ?h = Some version"
    using assms by (auto simp: enqueue_script_def Let_def split: option.splits)
  obtain starts ends currency where s: "sm_sale ?h = Some (starts, ends, currency)"
    using assms v by (cases "sm_sale ?h") (auto simp: enqueue_script_def Let_def split: prod.splits)
  have g: "\<not> sm_updating ?h" "starts \<le> seconds rt" "seconds rt < ends" "get_idem rt e k rd = None"
    "length (rd_streams rd e) < qa_max_backlog a"
    using assms v s by (auto simp: enqueue_script_def Let_def split: if_splits option.splits)
  note eq = assms [unfolded enqueue_script_def Let_def v s]
  obtain sel where sel: "select_cseats (seconds rt) (sm_seats ?h) (qa_seats a) = Inr (Inr sel)"
  proof (cases "select_cseats (seconds rt) (sm_seats ?h) (qa_seats a)")
    case (Inl x)
    with eq g show ?thesis by simp
  next
    case (Inr x)
    then show ?thesis
    proof (cases x)
      case (Inl q)
      then have "\<not> (\<exists>y. q = Q_accepted y)"
        using \<open>select_cseats _ _ _ = Inr x\<close> by (auto dest: select_refused)
      with eq g \<open>select_cseats _ _ _ = Inr x\<close> Inl show ?thesis by auto
    next
      case (Inr sel)
      with \<open>select_cseats _ _ _ = Inr x\<close> show ?thesis by (intro that) simp
    qed
  qed
  obtain v' ss' where hc: "hold_cseats (cp_hold (qa_payload a)) (qa_expires a) (seconds rt + qa_hold_seconds a * 1000000)
      version sel (sm_seats ?h) = (v', ss')" by (rule prod.exhaust)
  have v': "v' = version + int (length sel)" using hc hold_cseats_version by (metis fst_conv)
  show ?thesis
    by (rule that [OF v s g(1-5) sel]) (use eq g sel hc v' in auto)
qed

lemma enqueue_not_accepted:
  assumes "enqueue_script rt e k a rd = Inr (q, rd')" and "\<forall>r. q \<noteq> Q_accepted r"
  shows "rd' = rd \<and> (\<forall>st. q = Q_replay st \<longrightarrow>
    (\<exists>p. get_idem rt e k rd = Some p \<and> ih_request p = qa_request_hash a \<and> ih_response p = st))"
proof -
  let ?h = "live rt (rd_maps rd e)"
  consider "sm_version ?h = None \<or> sm_sale ?h = None"
    | version starts ends currency where "sm_version ?h = Some version" "sm_sale ?h = Some (starts, ends, currency)"
    by (cases "sm_version ?h"; cases "sm_sale ?h") auto
  then show ?thesis
  proof cases
    case 1
    then show ?thesis using assms by (auto simp: enqueue_script_def Let_def split: option.splits)
  next
    case 2
    note eq = assms(1) [unfolded enqueue_script_def Let_def 2]
    show ?thesis
    proof (cases "select_cseats (seconds rt) (sm_seats ?h) (qa_seats a)")
      case (Inl x)
      then show ?thesis using eq by (auto split: if_splits option.splits)
    next
      case (Inr x)
      then show ?thesis using eq assms(2)
        by (cases x) (auto split: if_splits option.splits prod.splits dest: select_refused)
    qed
  qed
qed

lemma enqueue_cases:
  assumes "enqueue E sha cfg rc rt actor e ids key rd = (res, rd')"
  obtains (down) "\<not> rc_eval rc" and "res = Inl (Failure ''ADMISSION_UNAVAILABLE'' 503)" and "rd' = rd"
    | (crash) x where "res = Inl (Failure ''ADMISSION_UNAVAILABLE'' 503)" and "rd' = rd"
      and "enqueue_script rt e (idem_name sha actor key) (enqueue_args_of E cfg actor e ids key) rd = Inl x"
    | (refused) code where
      "enqueue_script rt e (idem_name sha actor key) (enqueue_args_of E cfg actor e ids key) rd = Inr (Q_refused code, rd)"
      and "res = Inl (refusal code)" and "rd' = rd"
    | (accepted) stored rd1 where
      "enqueue_script rt e (idem_name sha actor key) (enqueue_args_of E cfg actor e ids key) rd = Inr (Q_accepted stored, rd1)"
      and "res = Inr stored \<and> rd' = register_stream (rc_registry rc) e rd1 \<or>
           res = Inl (Failure ''RESERVATION_DURABILITY_UNKNOWN'' 503) \<and> rd' = rd1"
    | (replay) stored where
      "enqueue_script rt e (idem_name sha actor key) (enqueue_args_of E cfg actor e ids key) rd = Inr (Q_replay stored, rd)"
      and "rd' = rd \<or> (\<forall>x. res \<noteq> Inl x) \<and> rd' = register_stream (rc_registry rc) e rd"
proof (cases "rc_eval rc")
  case False
  then show ?thesis using assms by (intro down) (simp_all add: enqueue_def)
next
  case up: True
  let ?scr = "enqueue_script rt e (idem_name sha actor key) (enqueue_args_of E cfg actor e ids key) rd"
  show ?thesis
  proof (cases ?scr)
    case (Inl x)
    then show ?thesis using assms up by (intro crash [of x]) (simp_all add: enqueue_def)
  next
    case (Inr y)
    obtain q rd1 where y: "y = (q, rd1)" by (cases y)
    show ?thesis
    proof (cases q)
      case (Q_refused code)
      then have "rd1 = rd" using Inr y enqueue_not_accepted by fastforce
      with Q_refused Inr y assms up show ?thesis by (intro refused [of code]) (simp_all add: enqueue_def)
    next
      case (Q_accepted stored)
      with Inr y assms up show ?thesis
        by (intro accepted [of stored rd1])
          (auto simp: enqueue_def Let_def replica_check_def require_def split: sum.splits if_splits)
    next
      case (Q_replay stored)
      then have "rd1 = rd" using Inr y enqueue_not_accepted by fastforce
      with Q_replay Inr y assms up show ?thesis
        by (intro replay [of stored]; cases "replay_status (rc_status rc) rt e stored rd")
          (auto simp: enqueue_def Let_def replica_check_def require_def split: sum.splits if_splits)
    qed
  qed
qed

section \<open>Refused requests\<close>

text \<open>
  Fact.  A request that \<open>enqueue\<close> answers with an error leaves Redis exactly as it was,
  except when the write happened but too few replicas acknowledged it, which has its own error.
\<close>

theorem enqueue_error_changes_nothing:
  assumes "enqueue E sha cfg rc rt actor e ids key rd = (Inl x, rd')"
  shows "rd' = rd \<or> x = Failure ''RESERVATION_DURABILITY_UNKNOWN'' 503"
  using assms by (cases rule: enqueue_cases) auto

section \<open>Accepted requests\<close>

lemma args_sel [simp]:
  "qa_seats (enqueue_args_of E cfg actor e ids key) = sort (remdups ids)"
  "cp_hold (qa_payload (enqueue_args_of E cfg actor e ids key)) = e_uuid E 1"
  "cp_seats (qa_payload (enqueue_args_of E cfg actor e ids key)) = sort (remdups ids)"
  "cp_command_id (qa_payload (enqueue_args_of E cfg actor e ids key)) = e_uuid E 0"
  "qa_hold_seconds (enqueue_args_of E cfg actor e ids key) = ic_hold_seconds cfg"
  "qa_max_backlog (enqueue_args_of E cfg actor e ids key) = ic_max_backlog cfg"
  "qa_request_hash (enqueue_args_of E cfg actor e ids key) = digest E (reserve_request e (sort (remdups ids)))"
  "qa_expires (enqueue_args_of E cfg actor e ids key) = e_now E + ic_hold_seconds cfg * 1000000"
  "qa_retention (enqueue_args_of E cfg actor e ids key) = ic_retention cfg"
  "qa_response (enqueue_args_of E cfg actor e ids key) = JObj [(''command_id'', JStr (e_uuid E 0)),
     (''hold_id'', JStr (e_uuid E 1)), (''order_id'', JStr (e_uuid E 2)), (''seats'', JArr (map JStr (sort (remdups ids))))]"
  by (simp_all add: enqueue_args_of_def Let_def)

lemma register_stream_sel [simp]:
  "rd_maps (register_stream up e rd) = rd_maps rd" "rd_idem (register_stream up e rd) = rd_idem rd"
  "rd_commands (register_stream up e rd) = rd_commands rd" "rd_streams (register_stream up e rd) = rd_streams rd"
  by (simp_all add: register_stream_def)

lemma accepted_seat:
  assumes acc: "enqueue_script rt e k a rd = Inr (Q_accepted stored, rd1)" and d: "distinct (qa_seats a)"
    and i: "i \<in> set (qa_seats a)"
  shows "\<exists>s0 s. find_cseat i (sm_seats (live rt (rd_maps rd e))) = Some s0 \<and> cseat_free (seconds rt) s0 \<and>
     find_cseat i (sm_seats (rd_maps rd1 e)) = Some s \<and>
     held_cseat (cp_hold (qa_payload a)) (qa_expires a) (seconds rt + qa_hold_seconds a * 1000000) s"
proof -
  obtain version sel where
    sel: "select_cseats (seconds rt) (sm_seats (live rt (rd_maps rd e))) (qa_seats a) = Inr (Inr sel)"
    and ss: "sm_seats (rd_maps rd1 e) = snd (hold_cseats (cp_hold (qa_payload a)) (qa_expires a)
       (seconds rt + qa_hold_seconds a * 1000000) version sel (sm_seats (live rt (rd_maps rd e))))"
    by (rule enqueue_accepted [OF acc])
  note S = select_cseats_Inr [OF sel]
  then obtain s0 where s0: "s0 \<in> set sel" "cs_id s0 = i" using i by (metis imageE list.set_map)
  have "\<exists>s. find_cseat i (sm_seats (rd_maps rd1 e)) = Some s \<and>
     held_cseat (cp_hold (qa_payload a)) (qa_expires a) (seconds rt + qa_hold_seconds a * 1000000) s"
    unfolding ss using hold_cseats_find [of sel i] S d s0 by (metis image_eqI)
  with S s0 show ?thesis by auto
qed

lemma enqueue_takes_free_aux:
  assumes "enqueue E sha cfg rc rt actor e ids key rd = (Inr stored, rd1)"
    and "get_idem rt e (idem_name sha actor key) rd = None" and "i \<in> set ids"
  shows "\<exists>s0 s. find_cseat i (sm_seats (live rt (rd_maps rd e))) = Some s0 \<and> cseat_free (seconds rt) s0 \<and>
     find_cseat i (sm_seats (rd_maps rd1 e)) = Some s \<and>
     held_cseat (e_uuid E 1) (e_now E + ic_hold_seconds cfg * 1000000) (seconds rt + ic_hold_seconds cfg * 1000000) s \<and>
     (\<exists>x. rd_streams rd1 e = rd_streams rd e @ [x] \<and> se_claim x = None \<and>
        cp_command_id (se_payload x) = e_uuid E 0 \<and> cp_seats (se_payload x) = sort (remdups ids) \<and>
        se_response x = stored)"
  using assms(1)
proof (cases rule: enqueue_cases)
  case (accepted st rd2)
  then have rd1: "st = stored" "rd1 = register_stream (rc_registry rc) e rd2" by auto
  note acc = accepted(1) [unfolded rd1(1)]
  obtain x where "rd_streams rd2 e = rd_streams rd e @ [x]" "se_claim x = None" "se_response x = stored"
    "se_payload x = qa_payload (enqueue_args_of E cfg actor e ids key)"
    by (rule enqueue_accepted [OF acc]) auto
  with accepted_seat [OF acc, of i] assms(3) show ?thesis by (auto simp: rd1)
next
  case (replay st)
  then show ?thesis using assms(2) enqueue_not_accepted [OF replay(1)] by simp
qed simp_all



text \<open>
  Fact.  A repeated request is answered from the first one: with the same actor, event,
  seats (in any order) and key, while the map is warm and the sale open, the second answer is the
  first answer and no seat, command or stream changes.
\<close>

lemma jset_same: "jget k (JObj kvs) = Some v \<Longrightarrow> jset k v (JObj kvs) = JObj kvs"
proof -
  have "map_of kvs k = Some v \<Longrightarrow> jset_list k v kvs = kvs"
    by (induction k v kvs rule: jset_list.induct) (auto split: if_splits)
  then show "jget k (JObj kvs) = Some v \<Longrightarrow> jset k v (JObj kvs) = JObj kvs" by simp
qed

lemma pending_response_status:
  "jset ''persistence_status'' (JStr ''PENDING'') (pending_response (JObj kvs) tot c ue u) = pending_response (JObj kvs) tot c ue u"
  unfolding pending_response_def by (simp add: jset_same [simplified])

theorem enqueue_replays:
  assumes first: "enqueue E sha cfg rc rt actor e ids key rd = (Inr stored, rd1)"
    and new: "get_idem rt e (idem_name sha actor key) rd = None"
    and same: "set ids' = set ids" "e_sha E' = e_sha E"
    and warm: "sm_version (live rt' (rd_maps rd1 e)) \<noteq> None" "\<not> sm_updating (live rt' (rd_maps rd1 e))"
      "sm_sale (live rt' (rd_maps rd1 e)) = Some (starts, ends, currency)" "starts \<le> seconds rt'" "seconds rt' < ends"
    and kept: "rt' < rt + ic_retention cfg * 1000000"
    and up: "rc_eval rc'" "rc_status rc'" "ic_replica_acks cfg' = 0 \<or> ic_replica_acks cfg' \<le> rc_acks rc'"
  shows "enqueue E' sha cfg' rc' rt' actor e ids' key rd1 = (Inr stored, register_stream (rc_registry rc') e rd1)"
  using first
proof (cases rule: enqueue_cases)
  case (accepted st rd2)
  let ?a = "enqueue_args_of E cfg actor e ids key" and ?k = "idem_name sha actor key"
  have rd1: "st = stored" "rd1 = register_stream (rc_registry rc) e rd2" using accepted by auto
  note acc = accepted(1) [unfolded rd1(1)]
  obtain tot cur ue where r: "stored = pending_response (qa_response ?a) tot cur ue (qa_expires ?a)"
    and idem: "rd_idem rd2 e ?k = Some \<lparr>ih_request = qa_request_hash ?a, ih_response = stored, ih_expires = rt + ic_retention cfg * 1000000\<rparr>"
    and cmd: "rd_commands rd2 e (e_uuid E 0) = Some \<lparr>ch_status = C_PENDING, ch_response = stored,
        ch_payload = qa_payload ?a, ch_created = seconds rt, ch_error = None, ch_expires = rt + ic_retention cfg * 1000000\<rparr>"
    by (rule enqueue_accepted [OF acc]) auto
  have seats: "sort (remdups ids') = sort (remdups ids)"
    by (rule sorted_distinct_set_unique) (simp_all add: same)
  have gi: "get_idem rt' e ?k rd1 = Some \<lparr>ih_request = qa_request_hash ?a, ih_response = stored, ih_expires = rt + ic_retention cfg * 1000000\<rparr>"
    using idem kept by (simp add: get_idem_def rd1)
  have "enqueue_script rt' e ?k (enqueue_args_of E' cfg' actor e ids' key) rd1 = Inr (Q_replay stored, rd1)"
    using warm gi seats same(2) by (auto simp: enqueue_script_def Let_def digest_def split: option.splits)
  moreover have ci: "jindex ''command_id'' stored = Inr (JStr (e_uuid E 0))" by (simp add: r pending_response_def)
  moreover have "intake_status True rt' e (e_uuid E 0) None rd1 = Inr stored"
    using cmd kept pending_response_status
    by (simp add: intake_status_def get_command_def rd1 command_response_def r)
  then have "replay_status True rt' e stored rd1 = Inr stored" by (simp add: replay_status_def ci)
  moreover have "replica_check cfg' rc' = Inr ()" using up by (auto simp: replica_check_def)
  ultimately show ?thesis using up by (simp add: enqueue_def)
next
  case (replay st)
  then show ?thesis using new enqueue_not_accepted [OF replay(1)] by simp
qed simp_all

section \<open>The fate of a command\<close>

text \<open>
  Fact.  A command ends in one of two ways: once it was marked durable, marking it failed is
  refused and frees no seat; once it was marked failed, marking it durable is refused.
\<close>

theorem marks_exclude_each_other:
  assumes "rt \<le> rt'" and "\<forall>h. get_command rt e c rd = Some h \<longrightarrow> rt' < ch_expires h"
  shows "(\<forall>rd1. mark_durable rt e c rd = (1, rd1) \<longrightarrow> mark_failed rt' e c seats err rd1 = (-1, rd1)) \<and>
    (\<forall>rd2. mark_failed rt e c seats err rd = (1, rd2) \<longrightarrow> mark_durable rt' e c rd2 = (-1, rd2))"
proof (intro conjI allI impI)
  show "mark_failed rt' e c seats err rd1 = (-1, rd1)" if "mark_durable rt e c rd = (1, rd1)" for rd1
    using that assms
    by (auto simp: mark_durable_def mark_failed_def get_command_def put_command_def
        split: option.splits command_status.splits if_splits)
  show "mark_durable rt' e c rd2 = (-1, rd2)" if "mark_failed rt e c seats err rd = (1, rd2)" for rd2
    using that assms
    by (auto simp: mark_durable_def mark_failed_def get_command_def put_command_def Let_def
        split: option.splits if_splits)
qed

lemma fold_free_cseat_other:
  assumes "find_cseat i (sm_seats h) = Some s" and "map_option JStr (cs_hold s) \<noteq> hold"
  shows "find_cseat i (sm_seats (fold (free_cseat hold) seats h)) = Some s"
  using assms(1)
proof (induction seats arbitrary: h)
  case (Cons j seats)
  have "find_cseat i (sm_seats (free_cseat hold j h)) = Some s"
  proof (cases "find_cseat j (sm_seats h)")
    case (Some x)
    then have "cs_id x = j" using find_cseat_Some by blast
    then show ?thesis using Cons.prems Some assms(2)
      by (auto simp: free_cseat_def Let_def find_set_cseat)
  qed (use Cons.prems in \<open>simp add: free_cseat_def\<close>)
  then show ?case using Cons.IH by simp
qed simp

lemma free_cseat_available:
  "find_cseat i (sm_seats h) = Some s \<Longrightarrow> cs_status s = AVAILABLE \<Longrightarrow>
     \<exists>s'. find_cseat i (sm_seats (free_cseat hold j h)) = Some s' \<and> cs_status s' = AVAILABLE"
  using find_cseat_Some [of j "sm_seats h"]
  by (cases "find_cseat j (sm_seats h)") (auto simp: free_cseat_def Let_def find_set_cseat)

lemma fold_free_cseat_available:
  "find_cseat i (sm_seats h) = Some s \<Longrightarrow> cs_status s = AVAILABLE \<Longrightarrow>
     \<exists>s'. find_cseat i (sm_seats (fold (free_cseat hold) seats h)) = Some s' \<and> cs_status s' = AVAILABLE"
proof (induction seats arbitrary: h s)
  case (Cons j seats)
  obtain s' where "find_cseat i (sm_seats (free_cseat hold j h)) = Some s'" "cs_status s' = AVAILABLE"
    using free_cseat_available [OF Cons.prems] by blast
  then show ?case using Cons.IH by simp
qed simp

lemma fold_free_cseat_own:
  assumes "i \<in> set seats" and "find_cseat i (sm_seats h) = Some s" and "map_option JStr (cs_hold s) = hold"
  shows "\<exists>s'. find_cseat i (sm_seats (fold (free_cseat hold) seats h)) = Some s' \<and> cs_status s' = AVAILABLE"
  using assms
proof (induction seats arbitrary: h)
  case (Cons j seats)
  show ?case
  proof (cases "i = j")
    case True
    have "cs_id s = i" using find_cseat_Some [OF Cons.prems(2)] by simp
    then have "\<exists>s'. find_cseat i (sm_seats (free_cseat hold j h)) = Some s' \<and> cs_status s' = AVAILABLE"
      using Cons.prems True by (simp add: free_cseat_def Let_def find_set_cseat)
    then show ?thesis using fold_free_cseat_available [of i "free_cseat hold j h"] by auto
  next
    case False
    then have "find_cseat i (sm_seats (free_cseat hold j h)) = Some s"
      using Cons.prems find_cseat_Some [of j "sm_seats h"]
      by (cases "find_cseat j (sm_seats h)") (auto simp: free_cseat_def Let_def find_set_cseat)
    with Cons False show ?thesis by simp
  qed
qed simp

text \<open>
  Fact.  Failing a command gives back exactly what it owned: a listed seat that its hold
  still owns becomes available, and a seat that another hold owns by now keeps its owner.
\<close>

theorem mark_failed_frees_own_seats:
  assumes "get_command rt e c rd = Some h" and "ch_status h \<noteq> C_DURABLE"
    and "jget ''hold_id'' (ch_response h) = Some (JStr hold)"
    and "find_cseat i (sm_seats (live rt (rd_maps rd e))) = Some s"
    and "mark_failed rt e c seats err rd = (n, rd')"
  shows "if cs_hold s = Some hold \<and> i \<in> set seats
    then \<exists>s'. find_cseat i (sm_seats (rd_maps rd' e)) = Some s' \<and> cs_status s' = AVAILABLE
    else cs_hold s \<noteq> Some hold \<longrightarrow> find_cseat i (sm_seats (rd_maps rd' e)) = Some s"
proof -
  have "rd_maps rd' e = fold (free_cseat (Some (JStr hold))) seats (live rt (rd_maps rd e))"
    using assms by (auto simp: mark_failed_def put_command_def Let_def)
  then show ?thesis
    using fold_free_cseat_own [of i seats _ s] fold_free_cseat_other [of i _ s "Some (JStr hold)" seats] assms(4)
    by auto
qed

text \<open>
  Property C28.  The event's stream never outgrows the configured backlog through \<open>enqueue\<close>.
\<close>

theorem enqueue_backlog_bounded:
  assumes "length (rd_streams rd e) \<le> ic_max_backlog cfg"
    and "enqueue E sha cfg rc rt actor e ids key rd = (res, rd')"
  shows "length (rd_streams rd' e) \<le> ic_max_backlog cfg"
  using assms(2)
proof (cases rule: enqueue_cases)
  case (accepted st rd2)
  obtain x where "rd_streams rd2 e = rd_streams rd e @ [x]" "length (rd_streams rd e) < ic_max_backlog cfg"
    by (rule enqueue_accepted [OF accepted(1)]) auto
  then show ?thesis using accepted(2) by auto
qed (use assms(1) in auto)

section \<open>Instances\<close>

definition demo_env :: env where
  "demo_env = \<lparr>e_now = 5000000, e_uuid = (\<lambda>n. CHR ''u'' # nat_str n), e_sha = (\<lambda>_. ''h''),
     e_locked = (\<lambda>_. False), e_request_id = JNull\<rparr>"

definition demo_cfg :: intake_config where
  "demo_cfg = \<lparr>ic_hold_seconds = 120, ic_replica_acks = 0, ic_max_backlog = 10, ic_retention = 86400\<rparr>"

definition demo_calls :: redis_calls where
  "demo_calls = \<lparr>rc_eval = True, rc_acks = 0, rc_status = True, rc_registry = True\<rparr>"

definition demo_redis :: redis where
  "demo_redis = \<lparr>rd_maps = (\<lambda>_. demo_map\<lparr>sm_sale := Some (0, 1000000000, ''THB'')\<rparr>), rd_idem = (\<lambda>_ _. None),
     rd_commands = (\<lambda>_ _. None), rd_streams = (\<lambda>_. []), rd_expiry = (\<lambda>_. []), rd_registry = [], rd_next = 0\<rparr>"

abbreviation demo_enqueue :: "redis \<Rightarrow> json result \<times> redis" where
  "demo_enqueue rd \<equiv> enqueue demo_env id demo_cfg demo_calls 5000000 ''bob'' ''e'' [''A1''] ''k'' rd"

lemmas demo_defs = demo_env_def demo_cfg_def demo_calls_def demo_redis_def demo_map_def demo_seat_def

lemmas enqueue_eval = enqueue_def enqueue_script_def enqueue_args_of_def live_def get_idem_def seconds_def
  find_cseat_def pending_response_def replica_check_def require_def register_stream_def idem_name_def Let_def

definition demo_stored :: json where
  "demo_stored = pending_response (JObj [(''command_id'', JStr (CHR ''u'' # nat_str 0)),
     (''hold_id'', JStr (CHR ''u'' # nat_str 1)), (''order_id'', JStr (CHR ''u'' # nat_str 2)),
     (''seats'', JArr [JStr ''A1''])]) 5 ''THB'' 125000000 125000000"

lemma demo_accepted: "fst (demo_enqueue demo_redis) = Inr demo_stored"
  by (simp add: enqueue_eval demo_defs demo_stored_def)

lemma demo_pair: "demo_enqueue demo_redis = (Inr demo_stored, snd (demo_enqueue demo_redis))"
  using demo_accepted by (metis prod.collapse)

lemma demo_new: "get_idem 5000000 ''e'' (idem_name id ''bob'' ''k'') demo_redis = None"
  by (simp add: get_idem_def demo_redis_def)

lemma demo_sale: "sm_sale (live 6000000 (rd_maps (snd (demo_enqueue demo_redis)) ''e'')) = Some (0, 1000000000, ''THB'')"
  "sm_version (live 6000000 (rd_maps (snd (demo_enqueue demo_redis)) ''e'')) = Some 4"
  "\<not> sm_updating (live 6000000 (rd_maps (snd (demo_enqueue demo_redis)) ''e''))"
  "sm_version (live 6000000 (rd_maps (snd (demo_enqueue demo_redis)) ''e'')) \<noteq> None"
  by (simp_all add: enqueue_eval demo_defs)

theorem enqueue_error_changes_nothing_witness:
  "snd (enqueue demo_env id demo_cfg demo_calls 5000000 ''bob'' ''e'' [''Z9''] ''k'' demo_redis) = demo_redis"
proof -
  have "enqueue demo_env id demo_cfg demo_calls 5000000 ''bob'' ''e'' [''Z9''] ''k'' demo_redis =
      (Inl (Failure ''SEAT_NOT_FOUND'' 404), demo_redis)"
    by (simp add: enqueue_eval demo_defs refusal_def)
  then show ?thesis using enqueue_error_changes_nothing by fastforce
qed



theorem enqueue_replays_witness:
  "fst (enqueue demo_env id demo_cfg demo_calls 6000000 ''bob'' ''e'' [''A1''] ''k'' (snd (demo_enqueue demo_redis)))
     = Inr demo_stored"
proof -
  have "enqueue demo_env id demo_cfg demo_calls 6000000 ''bob'' ''e'' [''A1''] ''k'' (snd (demo_enqueue demo_redis))
      = (Inr demo_stored, register_stream (rc_registry demo_calls) ''e'' (snd (demo_enqueue demo_redis)))"
    by (rule enqueue_replays [OF demo_pair demo_new refl refl demo_sale(4) demo_sale(3) demo_sale(1)])
      (simp_all add: demo_calls_def demo_cfg_def seconds_def)
  then show ?thesis by simp
qed

definition demo_command :: redis where
  "demo_command = demo_redis\<lparr>rd_commands := (\<lambda>_ _. Some \<lparr>ch_status = C_PENDING, ch_response = demo_stored,
     ch_payload = \<lparr>cp_command_id = ''c'', cp_actor = ''bob'', cp_key = ''k'', cp_request_hash = ''h'', cp_event = ''e'',
       cp_seats = [''A1''], cp_hold = ''u1'', cp_order = ''u2'', cp_expires = 125000000\<rparr>,
     ch_created = 0, ch_error = None, ch_expires = 100\<rparr>)\<rparr>"

theorem marks_exclude_each_other_witness:
  "mark_failed 2 ''e'' ''c'' [''A1''] ''SALE_CLOSED'' (snd (mark_durable 1 ''e'' ''c'' demo_command))
     = (-1, snd (mark_durable 1 ''e'' ''c'' demo_command))"
proof -
  have "\<forall>h. get_command 1 ''e'' ''c'' demo_command = Some h \<longrightarrow> 2 < ch_expires h"
    by (simp add: get_command_def demo_command_def)
  moreover have "mark_durable 1 ''e'' ''c'' demo_command = (1, snd (mark_durable 1 ''e'' ''c'' demo_command))"
    by (simp add: mark_durable_def get_command_def demo_command_def)
  ultimately show ?thesis
    using marks_exclude_each_other [of 1 2 "''e''" "''c''" demo_command "[''A1'']" "''SALE_CLOSED''"] by simp
qed

theorem mark_failed_frees_own_seats_witness:
  "find_cseat ''A1'' (sm_seats (rd_maps (snd (mark_failed 1 ''e'' ''c'' [''A1''] ''SALE_CLOSED'' demo_command)) ''e''))
     = Some (demo_seat 3 AVAILABLE)"
proof -
  let ?h = "the (get_command 1 ''e'' ''c'' demo_command)"
  have "get_command 1 ''e'' ''c'' demo_command = Some ?h" "ch_status ?h \<noteq> C_DURABLE"
    "jget ''hold_id'' (ch_response ?h) = Some (JStr (CHR ''u'' # nat_str 1))"
    "find_cseat ''A1'' (sm_seats (live 1 (rd_maps demo_command ''e''))) = Some (demo_seat 3 AVAILABLE)"
    "mark_failed 1 ''e'' ''c'' [''A1''] ''SALE_CLOSED'' demo_command =
      (fst (mark_failed 1 ''e'' ''c'' [''A1''] ''SALE_CLOSED'' demo_command),
       snd (mark_failed 1 ''e'' ''c'' [''A1''] ''SALE_CLOSED'' demo_command))"
    by (simp_all add: get_command_def demo_command_def demo_stored_def pending_response_def
        demo_defs live_def find_cseat_def)
  from mark_failed_frees_own_seats [OF this] show ?thesis by (simp add: demo_seat_def)
qed

theorem enqueue_backlog_bounded_witness:
  "length (rd_streams (snd (demo_enqueue demo_redis)) ''e'') \<le> 10"
  using enqueue_backlog_bounded [OF _ demo_pair] by (simp add: demo_cfg_def demo_redis_def)

section \<open>A tag that comes back\<close>


end
