(* ===== verification/Fulfilment_Facts.thy ===== *)
theory Fulfilment_Facts
  imports Fulfilment Store_Demo Intake_Facts
begin

text \<open>
  The workers keep the store's invariant, an outbox row is marked published only after the broker
  acknowledged it, each event takes effect at most once, a paid order ends with one ticket per
  booked seat, and a Kafka offset is committed only after the message was handled or kept.
\<close>

section \<open>Workers that only move leases\<close>

lemma event_inv_leases:
  assumes "outbox_events d' = upd_where P f (outbox_events d)" and "fate d' = fate d"
    and "refund_requests d' = refund_requests d"
    and f: "\<And>x. x_id (f x) = x_id x \<and> x_type (f x) = x_type x \<and> x_aggregate (f x) = x_aggregate x \<and> x_payload (f x) = x_payload x"
  shows "event_inv d' = event_inv d"
proof -
  have ids: "map x_id (outbox_events d') = map x_id (outbox_events d)"
    using assms(1) f by (simp add: upd_where_cong_key)
  have ok: "event_ok d' (if P x then f x else x) = event_ok d x" for x
    using f [of x] assms(2,3) by (simp add: event_ok_def)
  have ex: "(\<exists>x\<in>set (outbox_events d'). x_type x = k \<and> x_aggregate x = oid) \<longleftrightarrow>
      (\<exists>x\<in>set (outbox_events d). x_type x = k \<and> x_aggregate x = oid)" for k oid
    unfolding assms(1) using f by (intro bex_upd_where_same) simp
  show ?thesis
    unfolding event_inv_def ids ex assms(2) by (simp add: assms(1) ball_upd_where ok)
qed

lemma store_inv_outbox_leases:
  assumes "d' = d\<lparr>outbox_events := upd_where P f (outbox_events d)\<rparr>"
    and f: "\<And>x. x_id (f x) = x_id x \<and> x_type (f x) = x_type x \<and> x_aggregate (f x) = x_aggregate x \<and> x_payload (f x) = x_payload x"
  shows "store_inv d' = store_inv d"
proof -
  have "core_inv d' = core_inv d" by (rule core_inv_cong) (simp_all add: assms(1))
  moreover have fate: "fate d' = fate d" by (rule fate_cong) (simp add: assms(1))
  moreover have "pay_inv d' = pay_inv d" using fate by (simp add: pay_inv_def assms(1))
  moreover have "event_inv d' = event_inv d"
    by (rule event_inv_leases [OF _ fate _ f]) (simp_all add: assms(1))
  moreover have "ticket_inv d' = ticket_inv d" by (rule ticket_inv_cong [OF fate]) (simp_all add: assms(1))
  moreover have "idem_inv d' = idem_inv d" by (rule idem_inv_cong) (simp add: assms(1))
  ultimately show ?thesis by (simp add: store_inv_def)
qed

lemma store_inv_payment_leases:
  assumes d': "d' = d\<lparr>payment_attempts := upd_where P f (payment_attempts d)\<rparr>"
    and f: "\<And>p. p_id (f p) = p_id p \<and> p_order (f p) = p_order p \<and> p_status (f p) = p_status p"
  shows "store_inv d' = store_inv d"
proof -
  have fate: "fate d' = fate d" by (rule fate_cong) (simp add: d')
  have pa: "payment_attempts d' = upd_where P f (payment_attempts d)" by (simp add: d')
  have keys: "map p_id (payment_attempts d') = map p_id (payment_attempts d)"
    "map p_order (payment_attempts d') = map p_order (payment_attempts d)"
    using f by (simp_all add: pa upd_where_cong_key)
  have img: "p_order ` set (payment_attempts d') = p_order ` set (payment_attempts d)"
    using keys(2) by (metis list.set_map)
  have st: "(\<forall>p\<in>set (payment_attempts d'). p_status p = P_SUCCEEDED \<longleftrightarrow> fate d (p_order p) \<noteq> None) \<longleftrightarrow>
      (\<forall>p\<in>set (payment_attempts d). p_status p = P_SUCCEEDED \<longleftrightarrow> fate d (p_order p) \<noteq> None)"
    unfolding pa ball_upd_where using f by (intro ball_cong refl) (simp split: if_split)
  have ex: "(\<exists>p\<in>set (payment_attempts d'). p_id p = a \<and> p_order p = b) \<longleftrightarrow>
      (\<exists>p\<in>set (payment_attempts d). p_id p = a \<and> p_order p = b)" for a b
    unfolding pa using f by (intro bex_upd_where_same) simp
  have "pay_inv d' = pay_inv d"
    unfolding pay_inv_def keys img fate st ex by (simp add: d')
  moreover have "core_inv d' = core_inv d" by (rule core_inv_cong) (simp_all add: d')
  moreover have "event_inv d' = event_inv d" by (rule event_inv_same [OF fate]) (simp_all add: d')
  moreover have "ticket_inv d' = ticket_inv d" by (rule ticket_inv_cong [OF fate]) (simp_all add: d')
  moreover have "idem_inv d' = idem_inv d" by (rule idem_inv_cong) (simp add: d')
  ultimately show ?thesis by (simp add: store_inv_def)
qed

section \<open>Changes within one kind of fate\<close>

lemma money_inv_refate:
  assumes inv: "money_inv d" and core: "core_inv d'" and tick: "ticket_inv d'"
    and pays: "payment_attempts d' = payment_attempts d" "payment_callbacks d' = payment_callbacks d"
    and ords: "o_id ` set (orders d') = o_id ` set (orders d)"
    and refs: "map r_payment (refund_requests d') = map r_payment (refund_requests d)"
      "(\<lambda>q. (r_payment q, r_order q)) ` set (refund_requests d') = (\<lambda>q. (r_payment q, r_order q)) ` set (refund_requests d)"
    and out: "outbox_events d' = outbox_events d @ xs" "distinct (map x_id (outbox_events d'))"
      "\<forall>x\<in>set xs. \<not> money_event (x_type x)"
    and fate: "\<forall>oid. (fate d' oid = None \<longleftrightarrow> fate d oid = None) \<and> (sold_fate (fate d' oid) \<longleftrightarrow> sold_fate (fate d oid)) \<and>
      (refund_fate (fate d' oid) \<longleftrightarrow> refund_fate (fate d oid))"
  shows "money_inv d'"
proof -
  have pay: "pay_inv d" and ev: "event_inv d" using inv by (simp_all add: money_inv_def)
  have pairs: "(\<exists>q\<in>set (refund_requests d'). r_payment q = a \<and> r_order q = b) \<longleftrightarrow>
      (\<exists>q\<in>set (refund_requests d). r_payment q = a \<and> r_order q = b)" for a b
  proof -
    have m: "(\<exists>q\<in>set rs. r_payment q = a \<and> r_order q = b) \<longleftrightarrow> (a, b) \<in> (\<lambda>q. (r_payment q, r_order q)) ` set rs"
      for rs :: "refund_row list" by auto
    show ?thesis unfolding m refs(2) by (rule refl)
  qed
  have pair: "\<exists>q\<in>set (refund_requests d). r_payment q = r_payment q' \<and> r_order q = r_order q'"
    if "q' \<in> set (refund_requests d')" for q'
    using that pairs [of "r_payment q'" "r_order q'"] by blast
  have rorder: "r_order ` set (refund_requests d') = r_order ` set (refund_requests d)"
    using arg_cong [OF refs(2), of "image snd"] by (simp add: image_image)
  have rpay: "(\<exists>q\<in>set (refund_requests d'). r_order q = a \<and> j = Some (JStr (r_payment q))) \<longleftrightarrow>
      (\<exists>q\<in>set (refund_requests d). r_order q = a \<and> j = Some (JStr (r_payment q)))" for a j
    using pairs [of _ a] by metis
  have ref_pay: "\<exists>p\<in>set (payment_attempts d). p_id p = r_payment q \<and> p_order p = r_order q"
    if q: "q \<in> set (refund_requests d')" for q
  proof -
    obtain q0 where "q0 \<in> set (refund_requests d)" "r_payment q0 = r_payment q" "r_order q0 = r_order q"
      using pair [OF q] by blast
    then show ?thesis using pay_invD(7) [OF pay, of q0] by simp
  qed
  have "pay_inv d'"
    unfolding pay_inv_def pays ords refs(1) rorder
    using pay_invD [OF pay] fate ref_pay by simp
  moreover have "event_inv d'"
  proof -
    have "event_ok d' x" if "x \<in> set (outbox_events d)" for x
      using ev that fate rpay by (simp add: event_inv_def event_ok_def)
    moreover have "event_ok d' x" if "x \<in> set xs" for x
      using out(3) that by (simp add: event_ok_def money_event_def)
    moreover have "\<exists>x\<in>set (outbox_events d'). x_type x = ''OrderPaid'' \<and> x_aggregate x = oid" if "sold_fate (fate d' oid)" for oid
      using that fate ev by (auto simp: event_inv_def out(1))
    moreover have "\<exists>x\<in>set (outbox_events d'). x_type x = ''RefundRequested'' \<and> x_aggregate x = oid" if "refund_fate (fate d' oid)" for oid
      using that fate ev by (auto simp: event_inv_def out(1))
    ultimately show ?thesis using out(2) unfolding event_inv_def by (auto simp: out(1))
  qed
  ultimately show ?thesis using core tick by (simp add: money_inv_def)
qed

section \<open>Issuing tickets\<close>

text \<open>
  \<open>uuid4()\<close> never repeats: the ids an operation draws are pairwise different and not in use as
  ticket ids.  The code relies on this: a clash would make \<open>ON CONFLICT DO NOTHING\<close> skip a ticket.
\<close>

definition ticket_ids_fresh :: "env \<Rightarrow> db \<Rightarrow> bool" where
  "ticket_ids_fresh E d \<longleftrightarrow> inj (e_uuid E) \<and> (\<forall>n. e_uuid E n \<notin> t_id ` set (tickets d))"

lemma insert_tickets_effect:
  assumes "insert_tickets E n bs d = Inr d'" and "inj (e_uuid E)"
    and "\<forall>m\<ge>n. e_uuid E m \<notin> t_id ` set (tickets d)"
    and "distinct (map t_id (tickets d))" and "distinct (map t_booking (tickets d))"
  shows "d' = d\<lparr>tickets := tickets d'\<rparr> \<and> t_booking ` set (tickets d') = t_booking ` set (tickets d) \<union> b_id ` set bs \<and>
     distinct (map t_id (tickets d')) \<and> distinct (map t_booking (tickets d')) \<and>
     b_id ` set bs \<subseteq> t_booking ` set (tickets d) \<union> b_id ` set (bookings d) \<and> set (tickets d) \<subseteq> set (tickets d')"
  using assms
proof (induction E n bs d arbitrary: d' rule: insert_tickets.induct)
  case (1 E n d)
  then show ?case by simp
next
  case (2 E n b bs d)
  let ?t = "\<lparr>t_id = e_uuid E n, t_booking = b_id b\<rparr>"
  from "2.prems"(1) obtain d1 where ins: "insert_ticket ?t d = Inr d1" and rest: "insert_tickets E (Suc n) bs d1 = Inr d'"
    by (auto simp: ebind_Inr_iff)
  have n: "e_uuid E n \<notin> t_id ` set (tickets d)" using "2.prems"(3) by simp
  have d1: "d1 = d \<and> b_id b \<in> t_booking ` set (tickets d) \<or>
      d1 = d\<lparr>tickets := tickets d @ [?t]\<rparr> \<and> b_id b \<notin> t_booking ` set (tickets d) \<and> b_id b \<in> b_id ` set (bookings d)"
    using ins n by (auto simp: insert_ticket_def split: if_splits)
  have fresh: "\<forall>m\<ge>Suc n. e_uuid E m \<notin> t_id ` set (tickets d1)"
  proof (intro allI impI)
    fix m assume m: "Suc n \<le> m"
    have "t_id ` set (tickets d1) \<subseteq> insert (e_uuid E n) (t_id ` set (tickets d))" using d1 by auto
    moreover have "e_uuid E m \<noteq> e_uuid E n" using m "2.prems"(2) by (simp add: inj_eq)
    moreover have "e_uuid E m \<notin> t_id ` set (tickets d)" using m "2.prems"(3) by simp
    ultimately show "e_uuid E m \<notin> t_id ` set (tickets d1)" by blast
  qed
  have dist: "distinct (map t_id (tickets d1))" "distinct (map t_booking (tickets d1))"
    using d1 n "2.prems"(4,5) by auto
  note IH = "2.IH" [OF ins rest "2.prems"(2) fresh dist]
  have bk: "bookings d1 = bookings d" using d1 by auto
  have d1': "d1 = d\<lparr>tickets := tickets d1\<rparr>" using d1 by auto
  have "d' = d\<lparr>tickets := tickets d'\<rparr>" using IH d1' by (metis (no_types, lifting) db.surjective db.update_convs(13))
  moreover have "t_booking ` set (tickets d1) = insert (b_id b) (t_booking ` set (tickets d))"
    using d1 by auto
  ultimately show ?case using IH d1 bk by auto
qed

lemma issue_tickets_success:
  assumes "issue_tickets E data d = Inr d'"
  obtains order d1 where "find_order (o_id order) d = Some order" and "sold (o_status order)"
    and "jget ''order_id'' data = Some (JStr (o_id order))"
    and "insert_tickets E 1 (filter (\<lambda>b. b_order b = o_id order) (bookings d)) d = Inr d1"
    and "event E 0 (o_id order) ''TicketsIssued'' (JObj [(''order_id'', JStr (o_id order))])
         (d1\<lparr>orders := upd_where (\<lambda>r. o_id r = o_id order) (\<lambda>r. r\<lparr>o_status := O_FULFILLED\<rparr>) (orders d1)\<rparr>) = Inr d'"
proof -
  obtain j where j: "jindex ''order_id'' data = Inr j" using assms by (auto simp: issue_tickets_def ebind_Inr_iff)
  obtain oid where oid: "as_text j = Inr oid" using assms j by (auto simp: issue_tickets_def ebind_Inr_iff)
  obtain order where order: "find_order oid d = Some order"
    using assms j oid by (auto simp: issue_tickets_def ebind_Inr_iff)
  have id: "o_id order = oid" using find_row_Some(3) [OF order] by simp
  have sold: "sold (o_status order)"
    using assms j oid order by (auto simp: issue_tickets_def ebind_Inr_iff sold_def split: if_splits)
  obtain d1 where "insert_tickets E 1 (filter (\<lambda>b. b_order b = o_id order) (bookings d)) d = Inr d1"
    "event E 0 (o_id order) ''TicketsIssued'' (JObj [(''order_id'', JStr (o_id order))])
         (d1\<lparr>orders := upd_where (\<lambda>r. o_id r = o_id order) (\<lambda>r. r\<lparr>o_status := O_FULFILLED\<rparr>) (orders d1)\<rparr>) = Inr d'"
    using assms j oid order sold by (auto simp: issue_tickets_def ebind_Inr_iff sold_def split: if_splits)
  moreover have "jget ''order_id'' data = Some (JStr (o_id order))"
    using j oid id by (cases j) auto
  ultimately show ?thesis using that order id sold by blast
qed

lemma issue_tickets_inv:
  assumes inv: "store_inv d" and fresh: "ticket_ids_fresh E d" and run: "issue_tickets E data d = Inr d'"
  shows "store_inv d'"
  using run
proof (rule issue_tickets_success)
  fix order d1
  assume f: "find_order (o_id order) d = Some order" and s: "sold (o_status order)"
    and t: "insert_tickets E 1 (filter (\<lambda>b. b_order b = o_id order) (bookings d)) d = Inr d1"
    and e: "event E 0 (o_id order) ''TicketsIssued'' (JObj [(''order_id'', JStr (o_id order))])
         (d1\<lparr>orders := upd_where (\<lambda>r. o_id r = o_id order) (\<lambda>r. r\<lparr>o_status := O_FULFILLED\<rparr>) (orders d1)\<rparr>) = Inr d'"
  have m: "money_inv d" and core: "core_inv d" and idm: "idem_inv d" and ti: "ticket_inv d"
    using inv by (simp_all add: store_inv_def money_inv_def)
  have o: "order \<in> set (orders d)" using find_row_Some(3) [OF f] by simp
  have eff: "d1 = d\<lparr>tickets := tickets d1\<rparr>"
    "t_booking ` set (tickets d1) = t_booking ` set (tickets d) \<union> b_id ` set (filter (\<lambda>b. b_order b = o_id order) (bookings d))"
    "distinct (map t_id (tickets d1))" "distinct (map t_booking (tickets d1))"
    using insert_tickets_effect [OF t] fresh ti by (auto simp: ticket_ids_fresh_def ticket_inv_def)
  let ?d2 = "d1\<lparr>orders := upd_where (\<lambda>r. o_id r = o_id order) (\<lambda>r. r\<lparr>o_status := O_FULFILLED\<rparr>) (orders d1)\<rparr>"
  let ?x = "new_event E 0 (o_id order) ''TicketsIssued'' (JObj [(''order_id'', JStr (o_id order))])"
  have d': "d' = ?d2\<lparr>outbox_events := outbox_events ?d2 @ [?x]\<rparr>" and x: "e_uuid E 0 \<notin> x_id ` set (outbox_events d1)"
    using e by (simp_all add: event_Inr)
  note sel = eff(1) [THEN arg_cong, of orders, simplified] eff(1) [THEN arg_cong, of bookings, simplified]
    eff(1) [THEN arg_cong, of outbox_events, simplified] eff(1) [THEN arg_cong, of refund_requests, simplified]
    eff(1) [THEN arg_cong, of payment_attempts, simplified] eff(1) [THEN arg_cong, of payment_callbacks, simplified]
    eff(1) [THEN arg_cong, of idempotency_records, simplified] eff(1) [THEN arg_cong, of holds, simplified]
    eff(1) [THEN arg_cong, of event_seats, simplified] eff(1) [THEN arg_cong, of order_items, simplified]
  have fo: "fate d (o_id order) = fin (o_status order)" by (rule fate_order [OF core o])
  have fate: "fate d' = (fate d)(o_id order := Some O_FULFILLED)"
    using fate_set_status [of d' "o_id order" O_FULFILLED d] o by (simp add: d' sel)
  have sf: "sold_fate (fate d (o_id order))" using fo s by (cases "o_status order") auto
  have core1: "core_inv d1" using core core_inv_cong [of d1 d] by (simp add: sel)
  have "core_inv ?d2"
  proof (rule set_status_core [OF core1 refl])
    fix r assume "r \<in> set (orders d1)" "o_id r = o_id order"
    then have "r = order" using order_unique [OF core _ o] by (simp add: sel)
    with s show "same_phase (o_status r) O_FULFILLED" by (auto simp: same_phase_def)
  qed
  then have core': "core_inv d'" using core_inv_cong [of d' ?d2] by (simp add: d')
  have tick': "ticket_inv d'"
  proof -
    have tk: "tickets d' = tickets d1" and bk: "bookings d' = bookings d" by (simp_all add: d' sel)
    have "t_booking ` set (tickets d') \<subseteq> b_id ` set (bookings d')"
      using ti eff(2) by (auto simp: ticket_inv_def tk bk)
    moreover have "b_id b \<in> t_booking ` set (tickets d')" if "b \<in> set (bookings d')" "fate d' (b_order b) = Some O_FULFILLED" for b
      using that ti eff(2) by (cases "b_order b = o_id order") (auto simp: fate ticket_inv_def tk bk)
    ultimately show ?thesis using eff(3,4) by (simp add: ticket_inv_def tk)
  qed
  have fates: "\<forall>oid. (fate d' oid = None \<longleftrightarrow> fate d oid = None) \<and> (sold_fate (fate d' oid) \<longleftrightarrow> sold_fate (fate d oid)) \<and>
      (refund_fate (fate d' oid) \<longleftrightarrow> refund_fate (fate d oid))"
    using sf unfolding fate by auto
  have dist: "distinct (map x_id (outbox_events d))" using m by (simp add: money_inv_def event_inv_def)
  have "money_inv d'"
    by (rule money_inv_refate [OF m core' tick' _ _ _ _ _ _ _ _ fates, of "[?x]"])
      (use x dist in \<open>simp_all add: d' sel image_upd_where money_event_def\<close>)
  then show ?thesis using idm idem_inv_cong [of d' d] by (simp add: store_inv_iff d' sel)
qed

lemma settle_refund_inv:
  assumes inv: "store_inv d" and run: "settle_refund E data d = Inr d'"
  shows "store_inv d'"
proof -
  obtain oid pid where d': "d' = d\<lparr>refund_requests := upd_where (\<lambda>q. r_payment q = pid) (\<lambda>q. q\<lparr>r_status := R_REFUNDED\<rparr>) (refund_requests d),
       orders := upd_where (\<lambda>r. o_id r = oid \<and> o_status r = O_REFUND_PENDING) (\<lambda>r. r\<lparr>o_status := O_REFUNDED\<rparr>) (orders d)\<rparr>"
    using run by (auto simp: settle_refund_def ebind_Inr_iff)
  have m: "money_inv d" and core: "core_inv d" and idm: "idem_inv d" and ti: "ticket_inv d"
    using inv by (simp_all add: store_inv_def money_inv_def)
  let ?d1 = "d\<lparr>orders := upd_where (\<lambda>r. o_id r = oid \<and> o_status r = O_REFUND_PENDING) (\<lambda>r. r\<lparr>o_status := O_REFUNDED\<rparr>) (orders d)\<rparr>"
  have "core_inv ?d1" by (rule set_status_core [OF core refl]) (simp add: same_phase_def)
  then have core': "core_inv d'" using core_inv_cong [of d' ?d1] by (simp add: d')
  have ft: "fate d' x = (case find_order x d of None \<Rightarrow> None
     | Some r \<Rightarrow> if x = oid \<and> o_status r = O_REFUND_PENDING then fin O_REFUNDED else fin (o_status r))" for x
    using fate_upd [of d' oid "\<lambda>r. o_status r = O_REFUND_PENDING" O_REFUNDED d x] by (simp add: d')
  have fates: "\<forall>x. (fate d' x = None \<longleftrightarrow> fate d x = None) \<and> (sold_fate (fate d' x) \<longleftrightarrow> sold_fate (fate d x)) \<and>
      (refund_fate (fate d' x) \<longleftrightarrow> refund_fate (fate d x)) \<and> (fate d' x = Some O_FULFILLED \<longleftrightarrow> fate d x = Some O_FULFILLED)"
    unfolding ft fate_def [of d] by (auto split: option.splits)
  have tick': "ticket_inv d'" using ti fates by (simp add: ticket_inv_def d')
  have fates': "\<forall>oid. (fate d' oid = None \<longleftrightarrow> fate d oid = None) \<and> (sold_fate (fate d' oid) \<longleftrightarrow> sold_fate (fate d oid)) \<and>
      (refund_fate (fate d' oid) \<longleftrightarrow> refund_fate (fate d oid))"
    using fates by blast
  have dist: "distinct (map x_id (outbox_events d))" using m by (simp add: money_inv_def event_inv_def)
  have "money_inv d'"
    by (rule money_inv_refate [OF m core' tick' _ _ _ _ _ _ _ _ fates', of "[]"])
      (use dist in \<open>simp_all add: d' image_upd_where upd_where_cong_key\<close>)
  then show ?thesis using idm idem_inv_cong [of d' d] by (simp add: store_inv_iff d')
qed

lemma request_refresh_inv:
  assumes "request_refresh E e ids d = Inr d'"
  shows "store_inv d' = store_inv d"
  by (rule store_inv_cong) (use assms in \<open>auto simp: request_refresh_def split: if_splits\<close>)

lemma note_seats_request:
  assumes "note_seats E data d = Inr d'"
  shows "\<exists>e ids. request_refresh E e ids d = Inr d'"
  using assms by (auto simp: note_seats_def ebind_Inr_iff split: json.splits option.splits)

lemma note_seats_inv:
  assumes "note_seats E data d = Inr d'"
  shows "store_inv d' = store_inv d"
  using note_seats_request [OF assms] by (auto dest: request_refresh_inv)

lemma consume_tx_inv:
  assumes inv: "store_inv d" and fresh: "ticket_ids_fresh E d" and run: "consume_tx E env kind data d = Inr (u, d')"
  shows "store_inv d'"
proof -
  obtain id where "d' = d \<or> handle_event E kind data (d\<lparr>consumer_inbox := consumer_inbox d @ [(''fulfillment'', id)]\<rparr>) = Inr d'"
    using run by (auto simp: consume_tx_def ebind_Inr_iff split: if_splits)
  then show ?thesis
  proof
    let ?d1 = "d\<lparr>consumer_inbox := consumer_inbox d @ [(''fulfillment'', id)]\<rparr>"
    assume h: "handle_event E kind data ?d1 = Inr d'"
    have inv1: "store_inv ?d1" using inv store_inv_cong [of ?d1 d] by simp
    have "ticket_ids_fresh E ?d1" using fresh by (simp add: ticket_ids_fresh_def)
    with h inv1 show ?thesis
      using note_seats_inv [of E data ?d1 d'] issue_tickets_inv [of ?d1 E data d'] settle_refund_inv [of ?d1 E data d']
      by (simp add: handle_event_def split: if_splits)
  qed (use inv in simp)
qed

lemma consume_event_cases:
  assumes "consume_event E env d = (res, d')"
  obtains (rejected) x where "res = Inl x" and "d' = d"
    | (run) kind data where "jget ''schema_version'' env = Some (JInt 1)" and "jget ''event_type'' env = Some kind"
      and "jget ''payload'' env = Some data" and "consume_tx E env kind data d = Inr ((), d')" and "res = Inr ()"
proof -
  let ?pre = "ebind (jindex ''schema_version'' env) (\<lambda>v. ebind (require (v = JInt 1) (PyError ''ValueError'')) (\<lambda>_.
      ebind (jindex ''event_type'' env) (\<lambda>kind. ebind (jindex ''payload'' env) (\<lambda>data. Inr (kind, data)))))"
  show ?thesis
  proof (cases ?pre)
    case (Inl x)
    then show ?thesis using assms by (intro rejected [of x]) (simp_all add: consume_event_def)
  next
    case (Inr y)
    obtain kind data where y: "y = (kind, data)" by (cases y)
    then have pre: "jget ''schema_version'' env = Some (JInt 1)" "jget ''event_type'' env = Some kind" "jget ''payload'' env = Some data"
      using Inr by (auto simp: ebind_Inr_iff)
    show ?thesis
    proof (cases rule: transaction_cases [of "consume_tx E env kind data" d])
      case (fail x)
      then show ?thesis using assms Inr y by (intro rejected [of x]) (simp_all add: consume_event_def)
    next
      case (ok u d1)
      then show ?thesis using assms Inr y pre by (intro run [of kind data]) (simp_all add: consume_event_def)
    qed
  qed
qed

lemma insert_tickets_inbox: "insert_tickets E n bs d = Inr d' \<Longrightarrow> consumer_inbox d' = consumer_inbox d"
proof (induction E n bs d arbitrary: d' rule: insert_tickets.induct)
  case (2 E n b bs d)
  obtain d1 where d1: "insert_ticket \<lparr>t_id = e_uuid E n, t_booking = b_id b\<rparr> d = Inr d1"
    and rest: "insert_tickets E (Suc n) bs d1 = Inr d'" using "2.prems" by (auto simp: ebind_Inr_iff)
  have "consumer_inbox d1 = consumer_inbox d" using d1 by (auto simp: insert_ticket_def split: if_splits)
  with "2.IH" [OF d1 rest] show ?case by simp
qed simp

lemma handle_event_inbox:
  assumes "handle_event E kind data d = Inr d'"
  shows "consumer_inbox d' = consumer_inbox d"
proof -
  have "consumer_inbox d' = consumer_inbox d" if n: "note_seats E data d = Inr d'"
  proof -
    obtain e ids where "request_refresh E e ids d = Inr d'" using note_seats_request [OF n] by blast
    then show ?thesis by (auto simp: request_refresh_def split: if_splits)
  qed
  moreover have "consumer_inbox d' = consumer_inbox d" if "issue_tickets E data d = Inr d'"
    using that
  proof (rule issue_tickets_success)
    fix order d1
    assume t: "insert_tickets E 1 (filter (\<lambda>b. b_order b = o_id order) (bookings d)) d = Inr d1"
      and e: "event E 0 (o_id order) ''TicketsIssued'' (JObj [(''order_id'', JStr (o_id order))])
         (d1\<lparr>orders := upd_where (\<lambda>r. o_id r = o_id order) (\<lambda>r. r\<lparr>o_status := O_FULFILLED\<rparr>) (orders d1)\<rparr>) = Inr d'"
    show ?thesis using e insert_tickets_inbox [OF t] by (simp add: event_Inr)
  qed
  moreover have "consumer_inbox d' = consumer_inbox d" if "settle_refund E data d = Inr d'"
    using that by (auto simp: settle_refund_def ebind_Inr_iff)
  ultimately show ?thesis using assms by (simp add: handle_event_def split: if_splits)
qed

lemma consume_tx_inbox:
  assumes "consume_tx E env kind data d = Inr (u, d')"
  shows "\<exists>id. jget ''event_id'' env = Some (JStr id) \<and> (''fulfillment'', id) \<in> set (consumer_inbox d')"
proof -
  obtain j where j: "jget ''event_id'' env = Some j" using assms by (auto simp: consume_tx_def ebind_Inr_iff)
  obtain id where id: "as_text j = Inr id" using assms j by (auto simp: consume_tx_def ebind_Inr_iff)
  have "j = JStr id" using id by (cases j) auto
  moreover have "(''fulfillment'', id) \<in> set (consumer_inbox d')"
    using assms j id by (auto simp: consume_tx_def ebind_Inr_iff dest!: handle_event_inbox split: if_splits)
  ultimately show ?thesis using j by blast
qed

section \<open>Properties of the workers\<close>

text \<open>
  Fact.  The consumer keeps the whole invariant of the store, whatever the message says and
  however often it arrives.
\<close>

theorem consume_event_keeps_invariant:
  assumes "store_inv d" and "ticket_ids_fresh E d" and "consume_event E envelope d = (res, d')"
  shows "store_inv d'"
  using assms(3)
  by (cases rule: consume_event_cases) (use assms(1,2) consume_tx_inv in auto)

theorem consume_event_keeps_invariant_witness:
  "store_inv (snd (consume_event (stage_env CHR ''t'' 4000) (envelope_of paid_event) paid_db))"
proof -
  have "ticket_ids_fresh (stage_env CHR ''t'' 4000) paid_db"
    by (simp add: ticket_ids_fresh_def stage_env_fresh paid_tickets)
  then show ?thesis
    by (rule consume_event_keeps_invariant [OF paid_inv]) (rule prod.collapse [symmetric])
qed

text \<open>
  Property C17.  Each event takes effect at most once: after an event was consumed, consuming the
  same envelope again, at any time and with any environment, succeeds and changes nothing.
\<close>

theorem consume_event_once:
  assumes "consume_event E envelope d = (Inr (), d')"
  shows "consume_event E' envelope d' = (Inr (), d')"
  using assms
proof (cases rule: consume_event_cases)
  case (run kind data)
  obtain id where id: "jget ''event_id'' envelope = Some (JStr id)" "(''fulfillment'', id) \<in> set (consumer_inbox d')"
    using consume_tx_inbox [OF run(4)] by blast
  have ji: "jindex ''event_id'' envelope = Inr (JStr id)" "jindex ''schema_version'' envelope = Inr (JInt 1)"
    "jindex ''event_type'' envelope = Inr kind" "jindex ''payload'' envelope = Inr data" using id run by simp_all
  have "consume_tx E' envelope kind data d' = Inr ((), d')" using id(2) by (simp add: consume_tx_def ji)
  then show ?thesis by (simp add: consume_event_def transaction_Inr ji)
qed simp

theorem consume_event_once_witness:
  "\<exists>d'. consume_event (stage_env CHR ''t'' 4000) (envelope_of paid_event) paid_db = (Inr (), d') \<and> d' \<noteq> paid_db \<and>
     consume_event (stage_env CHR ''u'' 5000) (envelope_of paid_event) d' = (Inr (), d')"
proof -
  let ?x = "consume_event (stage_env CHR ''t'' 4000) (envelope_of paid_event) paid_db"
  have "fst ?x = Inr ()" by code_simp
  then have run: "?x = (Inr (), snd ?x)" by (metis prod.collapse)
  have "consumer_inbox (snd ?x) \<noteq> consumer_inbox paid_db" by code_simp
  then have "snd ?x \<noteq> paid_db" by metis
  with consume_event_once [OF run, of "stage_env CHR ''u'' 5000"] run show ?thesis by blast
qed

lemma insert_tickets_succeeds:
  "set bs \<subseteq> set (bookings d) \<Longrightarrow> \<exists>d'. insert_tickets E n bs d = Inr d'"
proof (induction E n bs d rule: insert_tickets.induct)
  case (2 E n b bs d)
  obtain d1 where d1: "insert_ticket \<lparr>t_id = e_uuid E n, t_booking = b_id b\<rparr> d = Inr d1"
    using "2.prems" by (cases "e_uuid E n \<in> t_id ` set (tickets d) \<or> b_id b \<in> t_booking ` set (tickets d)")
      (auto simp: insert_ticket_def)
  then have "bookings d1 = bookings d" by (auto simp: insert_ticket_def split: if_splits)
  with "2.IH" [OF d1] "2.prems" d1 show ?case by simp
qed simp

text \<open>
  Property C16.  A paid order is fulfilled: consuming the \<open>OrderPaid\<close> message of an outbox row for
  the first time succeeds, and afterwards the order is \<open>FULFILLED\<close> and every seat booked for it
  has exactly one ticket.
\<close>

theorem order_paid_is_fulfilled:
  assumes inv: "store_inv d" and x: "x \<in> set (outbox_events d)" "x_type x = ''OrderPaid''" "x_schema_version x = 1"
    and fresh: "ticket_ids_fresh E d" "e_uuid E 0 \<notin> x_id ` set (outbox_events d)"
    and unlocked: "\<not> e_locked E (L_order (x_aggregate x))"
    and first: "(''fulfillment'', x_id x) \<notin> set (consumer_inbox d)"
  shows "\<exists>d'. consume_event E (envelope_of x) d = (Inr (), d') \<and>
    (\<forall>r\<in>set (orders d'). o_id r = x_aggregate x \<longrightarrow> o_status r = O_FULFILLED) \<and>
    (\<forall>b\<in>set (bookings d'). b_order b = x_aggregate x \<longrightarrow> (\<exists>!t. t \<in> set (tickets d') \<and> t_booking t = b_id b))"
proof -
  let ?d0 = "d\<lparr>consumer_inbox := consumer_inbox d @ [(''fulfillment'', x_id x)]\<rparr>"
  have ok: "event_ok d x" and core: "core_inv d" using inv x(1) by (simp_all add: store_inv_def event_inv_def)
  then have sf: "sold_fate (fate d (x_aggregate x))" and oid: "jget ''order_id'' (x_payload x) = Some (JStr (x_aggregate x))"
    using x(2) by (simp_all add: event_ok_def)
  obtain order where order: "find_order (x_aggregate x) d = Some order"
    using sf by (cases "find_order (x_aggregate x) d") (auto simp: fate_def)
  have id: "o_id order = x_aggregate x" using find_row_Some(3) [OF order] by simp
  have sold: "o_status order \<in> {O_PAID, O_FULFILLED}"
    using sf order by (cases "o_status order") (auto simp: fate_def)
  have order0: "find_order (x_aggregate x) ?d0 = Some order" using order by (simp add: find_order_def)
  obtain d1 where t: "insert_tickets E 1 (filter (\<lambda>b. b_order b = o_id order) (bookings d)) ?d0 = Inr d1"
    using insert_tickets_succeeds [of "filter (\<lambda>b. b_order b = o_id order) (bookings d)" ?d0 E 1] by auto
  have ti: "distinct (map t_id (tickets d))" "distinct (map t_booking (tickets d))"
    using inv by (simp_all add: store_inv_def ticket_inv_def)
  have eff: "d1 = ?d0\<lparr>tickets := tickets d1\<rparr>"
    using insert_tickets_effect [OF t] fresh(1) ti by (simp add: ticket_ids_fresh_def)
  have ob: "outbox_events d1 = outbox_events d" by (subst eff) simp
  let ?d2 = "d1\<lparr>orders := upd_where (\<lambda>r. o_id r = o_id order) (\<lambda>r. r\<lparr>o_status := O_FULFILLED\<rparr>) (orders d1)\<rparr>"
  let ?ev = "new_event E 0 (o_id order) ''TicketsIssued'' (JObj [(''order_id'', JStr (o_id order))])"
  define d' where "d' = ?d2\<lparr>outbox_events := outbox_events ?d2 @ [?ev]\<rparr>"
  have ev: "event E 0 (o_id order) ''TicketsIssued'' (JObj [(''order_id'', JStr (o_id order))]) ?d2 = Inr d'"
    using fresh(2) by (simp add: event_Inr d'_def ob)
  have jo: "jindex ''order_id'' (x_payload x) = Inr (JStr (x_aggregate x))" using oid by simp
  have "issue_tickets E (x_payload x) ?d0 = Inr d'"
    using order0 sold unlocked t ev id by (simp add: issue_tickets_def lock_order_def jo)
  then have h: "handle_event E (JStr ''OrderPaid'') (x_payload x) ?d0 = Inr d'" by (simp add: handle_event_def)
  have run: "consume_event E (envelope_of x) d = (Inr (), d')"
    using x first h
    by (simp add: consume_event_def envelope_of_def jindex_def consume_tx_def transaction_def)
  have inv': "store_inv d'"
    using consume_tx_inv [OF inv fresh(1)] run by (auto elim: consume_event_cases)
  have st: "o_status r = O_FULFILLED" if "r \<in> set (orders d')" "o_id r = x_aggregate x" for r
    using that id by (auto simp: d'_def set_upd_where split: if_splits)
  have "\<exists>!t. t \<in> set (tickets d') \<and> t_booking t = b_id b" if b: "b \<in> set (bookings d')" "b_order b = x_aggregate x" for b
  proof -
    have o1: "order \<in> set (orders d1)"
      using find_row_Some(3) [OF order] eff [THEN arg_cong, of orders] by simp
    let ?r = "order\<lparr>o_status := O_FULFILLED\<rparr>"
    have "?r \<in> set (orders d')"
      using upd_where_mem [OF o1, of "\<lambda>r. o_id r = o_id order" "\<lambda>r. r\<lparr>o_status := O_FULFILLED\<rparr>"] by (simp add: d'_def)
    then have "fate d' (x_aggregate x) = Some O_FULFILLED"
      using fate_order [of d' ?r] inv' id by (simp add: store_inv_def)
    then have "b_id b \<in> t_booking ` set (tickets d')"
      using inv' b by (simp add: store_inv_def ticket_inv_def)
    moreover have "distinct (map t_booking (tickets d'))" using inv' by (simp add: store_inv_def ticket_inv_def)
    ultimately show ?thesis by (auto simp: distinct_map inj_on_def)
  qed
  with run st show ?thesis by blast
qed

theorem order_paid_is_fulfilled_witness:
  "\<exists>d'. consume_event (stage_env CHR ''t'' 4000) (envelope_of paid_event) paid_db = (Inr (), d') \<and>
     filter (\<lambda>r. o_id r = ''r1'' \<and> o_status r \<noteq> O_FULFILLED) (orders d') = []"
proof -
  have "ticket_ids_fresh (stage_env CHR ''t'' 4000) paid_db"
    by (simp add: ticket_ids_fresh_def stage_env_fresh paid_tickets)
  moreover have "e_uuid (stage_env CHR ''t'' 4000) 0 \<notin> x_id ` set (outbox_events paid_db)" by code_simp
  ultimately show ?thesis
    using order_paid_is_fulfilled [OF paid_inv paid_event_facts(1-3), of "stage_env CHR ''t'' 4000"]
    by (auto simp: paid_event_facts(4) stage_env_fresh paid_tickets filter_empty_conv)
qed

lemma attempts_cases:
  assumes "attempts (E # Es) message d = (ok, d')"
  obtains (again) "attempts Es message d = (ok, d')"
    | (handled) env where "message = Some env" and "consume_event E env d = (Inr (), d')" and "ok"
proof (cases message)
  case None
  then show ?thesis using assms by (intro again) simp
next
  case (Some env)
  obtain res d1 where c: "consume_event E env d = (res, d1)" by (rule prod.exhaust)
  show ?thesis
  proof (cases res)
    case (Inl x)
    then have "d1 = d" using c by (auto elim: consume_event_cases)
    then show ?thesis using assms Some c Inl by (intro again) simp
  next
    case (Inr u)
    then show ?thesis using assms Some c by (intro handled [of env]) simp_all
  qed
qed

lemma attempts_handled:
  "attempts Es message d = (True, d') \<Longrightarrow>
     \<exists>env id. message = Some env \<and> jget ''event_id'' env = Some (JStr id) \<and> (''fulfillment'', id) \<in> set (consumer_inbox d')"
proof (induction Es)
  case (Cons E Es)
  from Cons.prems show ?case
  proof (cases rule: attempts_cases)
    case (handled env)
    from handled(2) show ?thesis
    proof (cases rule: consume_event_cases)
      case (run kind data)
      obtain id where "jget ''event_id'' env = Some (JStr id)" "(''fulfillment'', id) \<in> set (consumer_inbox d')"
        using consume_tx_inbox [OF run(4)] by blast
      with handled(1) show ?thesis by blast
    qed simp
  qed (rule Cons.IH)
qed simp

lemma attempts_frame: "attempts Es message d = (False, d') \<Longrightarrow> d' = d"
proof (induction Es)
  case (Cons E Es)
  from Cons.prems show ?case by (cases rule: attempts_cases) (rule Cons.IH, simp_all)
qed simp

text \<open>
  Property C18.  No message is lost: the offset of a message is committed only when its event is in
  the consumer's inbox, or when the raw message was kept as a dead letter; after five failed
  attempts nothing else has changed.
\<close>

theorem committed_message_is_kept:
  assumes "consume_message Es E_dead up raw message d = (True, d')"
  shows "(\<exists>env id. message = Some env \<and> jget ''event_id'' env = Some (JStr id) \<and>
      (''fulfillment'', id) \<in> set (consumer_inbox d')) \<or>
    (\<exists>letter. d' = d\<lparr>dead_letters := dead_letters d @ [letter]\<rparr> \<and> d_payload letter = JObj [(''raw'', JStr raw)])"
proof -
  obtain ok d1 where a: "attempts (map Es [0..<5]) message d = (ok, d1)" by (rule prod.exhaust)
  show ?thesis
  proof (cases ok)
    case True
    then have "d' = d1" using assms a by (simp add: consume_message_def)
    with attempts_handled [of "map Es [0..<5]" message d d1] a True show ?thesis by simp
  next
    case False
    then have "d1 = d" using attempts_frame [of "map Es [0..<5]" message d d1] a by simp
    with assms a False show ?thesis
      by (auto simp: consume_message_def insert_dead_letter_def transaction_def split: if_splits)
  qed
qed

theorem committed_message_is_kept_witness:
  "\<exists>letter. snd (consume_message (\<lambda>_. stage_env CHR ''t'' 4000) (stage_env CHR ''d'' 5000) True ''not json'' None paid_db)
     = paid_db\<lparr>dead_letters := dead_letters paid_db @ [letter]\<rparr>"
proof -
  let ?x = "consume_message (\<lambda>_. stage_env CHR ''t'' 4000) (stage_env CHR ''d'' 5000) True ''not json'' None paid_db"
  have "fst ?x" by code_simp
  then have "?x = (True, snd ?x)" by (metis prod.collapse)
  from committed_message_is_kept [OF this] show ?thesis by auto
qed

section \<open>The publisher\<close>

lemma claim_outbox_Inr: "\<exists>rows d1. claim_outbox E token limit d = Inr (rows, d1)"
  by (simp add: claim_outbox_def Let_def)

lemma send_rows_pending: "send_rows K rows = (pending, errs) \<Longrightarrow> set pending \<subseteq> set rows"
  by (induction rows arbitrary: pending errs) (auto split: delivery.splits prod.splits)

text \<open>
  Property C19.  A row is marked published only after the broker has acknowledged its envelope: a row
  that is published after the step either was so when the confirming transaction began, or its
  envelope was sent and acknowledged in this step.
\<close>

theorem published_only_when_acknowledged:
  assumes run: "publish_batch E E' limit K between d = (res, d', sent)" and x: "x \<in> set (outbox_events d')" "x_published x \<noteq> None"
  shows "(\<exists>y\<in>set (outbox_events d) \<union> set (outbox_events (between (snd (transaction (claim_outbox E (e_uuid E 0) limit) d)))).
       x_id y = x_id x \<and> x_published y \<noteq> None) \<or>
     (K (x_id x) = Acked \<and> (\<exists>row. x_id row = x_id x \<and> envelope_of row \<in> set sent))"
proof -
  obtain rows d1 where c: "claim_outbox E (e_uuid E 0) limit d = Inr (rows, d1)" using claim_outbox_Inr by blast
  then have t: "transaction (claim_outbox E (e_uuid E 0) limit) d = (Inr rows, d1)" by (rule transaction_Inr)
  show ?thesis
  proof (cases "rows = []")
    case True
    then have "d1 = d" using c by (simp add: claim_outbox_def Let_def split: if_splits)
    with True run t x show ?thesis by (auto simp: publish_batch_def)
  next
    case False
    obtain pending errs where s: "send_rows K rows = (pending, errs)" by (rule prod.exhaust)
    let ?ids = "confirmed_rows K pending"
    have d': "outbox_events d' = (if ?ids = [] then outbox_events (between d1)
        else upd_where (\<lambda>x. x_id x \<in> set ?ids \<and> x_lease_token x = Some (e_uuid E 0))
          (\<lambda>x. x\<lparr>x_published := Some (e_now E'), x_lease_until := None\<rparr>) (outbox_events (between d1)))"
      and sent: "sent = map envelope_of pending"
      using run t False s by (auto simp: publish_batch_def Let_def confirm_outbox_def transaction_def)
    show ?thesis
    proof (cases "x_id x \<in> set ?ids")
      case True
      then show ?thesis by (auto simp: confirmed_rows_def sent)
    next
      case out: False
      then have "x \<in> set (outbox_events (between d1))"
        using x(1) by (auto simp: d' set_upd_where split: if_splits)
      with x(2) t show ?thesis by auto
    qed
  qed
qed

theorem published_only_when_acknowledged_witness:
  "\<exists>row. x_id row = ''r2'' \<and> envelope_of row \<in>
     set (snd (snd (publish_batch (stage_env CHR ''q'' 4000) (stage_env CHR ''s'' 5000) 1 (\<lambda>_. Acked) id paid_db)))"
proof -
  let ?x = "publish_batch (stage_env CHR ''q'' 4000) (stage_env CHR ''s'' 5000) 1 (\<lambda>_. Acked) id paid_db"
  have run: "?x = (fst ?x, fst (snd ?x), snd (snd ?x))" by simp
  have "map (\<lambda>x. (x_id x, x_published x)) (outbox_events (fst (snd ?x))) = [(''r2'', Some 5000), (''b0'', None), (''b2'', None)]"
    by code_simp
  then obtain x where x: "x \<in> set (outbox_events (fst (snd ?x)))" "x_id x = ''r2''" "x_published x \<noteq> None"
    by (cases "outbox_events (fst (snd ?x))") auto
  have none: "list_all (\<lambda>y. x_published y = None) (outbox_events paid_db)"
    "list_all (\<lambda>y. x_published y = None) (outbox_events (snd (transaction
       (claim_outbox (stage_env CHR ''q'' 4000) (e_uuid (stage_env CHR ''q'' 4000) 0) 1) paid_db)))"
    by code_simp+
  from published_only_when_acknowledged [OF run x(1,3)] x(2) none show ?thesis
    by (auto simp: list_all_iff)
qed

section \<open>The simulator\<close>

lemma payments_due_mem:
  "(p, r) \<in> set (payments_due E d) \<Longrightarrow> p \<in> set (payment_attempts d) \<and> r \<in> set (orders d) \<and> o_id r = p_order p"
  by (auto simp: payments_due_def)

text \<open>Once the checks have passed, only technical errors are left.\<close>

definition technical :: "exc \<Rightarrow> bool" where
  "technical x \<longleftrightarrow> (\<forall>code st. x \<noteq> Failure code st)"

lemma technical_simps [simp]:
  "technical LockNotAvailable" "technical (IntegrityError c)" "technical (PyError c)" "\<not> technical (Failure c st)"
  by (simp_all add: technical_def)

lemma event_technical: "event E n a k p d = Inl x \<Longrightarrow> technical x"
  by (auto simp: event_def insert_outbox_def split: if_splits)

lemma update_seats_technical: "update_seats P f d = Inl x \<Longrightarrow> technical x"
  by (auto simp: update_seats_def split: if_splits)

lemma release_order_technical: "release_order E n order st d = Inl x \<Longrightarrow> technical x"
  unfolding release_order_def Let_def lock_seats_def
  by (auto simp: ebind_Inl_iff dest: event_technical update_seats_technical)

lemma insert_bookings_technical: "insert_bookings E n order rows d = Inl x \<Longrightarrow> technical x"
  by (induction E n order rows d rule: insert_bookings.induct)
    (auto simp: ebind_Inl_iff insert_booking_def split: if_splits)

lemma book_order_technical: "book_order E order h rows d = Inl x \<Longrightarrow> technical x"
  unfolding book_order_def Let_def
  by (auto simp: ebind_Inl_iff dest: insert_bookings_technical update_seats_technical event_technical)

lemma insert_refund_technical: "insert_refund r d = Inl x \<Longrightarrow> technical x"
  by (auto simp: insert_refund_def split: if_splits)

lemma close_order_technical: "close_order E order p b d = Inl x \<Longrightarrow> technical x"
  unfolding close_order_def Let_def
  by (auto simp: ebind_Inl_iff dest: release_order_technical event_technical insert_refund_technical split: if_splits)

lemma not_none_technical: "not_none r = Inl x \<Longrightarrow> technical x"
  by (cases r) auto

lemma all_held_technical: "all_held h now rows = Inl x \<Longrightarrow> technical x"
  by (induction h now rows rule: all_held.induct) (auto split: if_splits option.splits)

lemma valid_hold_technical: "valid_hold now h rows = Inl x \<Longrightarrow> technical x"
  by (auto simp: valid_hold_def ebind_Inl_iff dest: not_none_technical all_held_technical split: if_splits)

lemma branch_technical:
  "(case dec of D_BOOK \<Rightarrow> ebind (not_none hold) (\<lambda>h. book_order E order (h_id h) rows d)
     | D_REFUND \<Rightarrow> close_order E order p True d | D_FAILED \<Rightarrow> close_order E order p False d
     | D_UNCHANGED \<Rightarrow> Inr d) = Inl x \<Longrightarrow> technical x"
  by (cases dec) (auto simp: ebind_Inl_iff dest: book_order_technical close_order_technical not_none_technical)

lemma settle_technical: "settle E cb order payment d = Inl x \<Longrightarrow> technical x"
  unfolding settle_def Let_def lock_seats_def
  by (auto simp: ebind_Inl_iff dest: valid_hold_technical event_technical branch_technical)

text \<open>
  Property C20.  The simulator speaks for the right order: the callback it builds from a claimed
  payment passes every check of the store that does not depend on locks or earlier callbacks, so
  it is never answered with \<open>PAYMENT_NOT_FOUND\<close> or \<open>PAYMENT_MISMATCH\<close>.
\<close>

theorem simulated_callback_matches:
  assumes inv: "store_inv d" and c: "claim_payment E token d = Inr (Some (p, r), d1)"
  shows "callback_tx E' (simulated_payload p r) d1 \<notin>
    {Inl (Failure ''PAYMENT_NOT_FOUND'' 404), Inl (Failure ''PAYMENT_MISMATCH'' 422)}"
proof -
  have due: "(p, r) \<in> set (payments_due E d)"
    using c by (auto simp: claim_payment_def split: list.splits)
  note mem = payments_due_mem [OF due]
  have d1: "d1 = d\<lparr>payment_attempts := upd_where (\<lambda>q. p_id q = p_id p)
      (\<lambda>q. q\<lparr>p_lease_until := Some (e_now E + 15 * 1000000), p_lease_token := Some token\<rparr>) (payment_attempts d)\<rparr>"
    using c by (auto simp: claim_payment_def split: list.splits)
  have inv1: "store_inv d1" using inv store_inv_payment_leases [OF d1] by simp
  let ?p = "p\<lparr>p_lease_until := Some (e_now E + 15 * 1000000), p_lease_token := Some token\<rparr>"
  have "?p \<in> set (payment_attempts d1)"
    using upd_where_mem [of p "payment_attempts d" "\<lambda>q. p_id q = p_id p"
        "\<lambda>q. q\<lparr>p_lease_until := Some (e_now E + 15 * 1000000), p_lease_token := Some token\<rparr>"] mem by (simp add: d1)
  moreover have "distinct (map p_id (payment_attempts d1))" using inv1 by (simp add: store_inv_def pay_inv_def)
  ultimately have fp: "find_payment (p_id p) d1 = Some ?p" by (simp add: find_payment_def find_key_iff)
  have "distinct (map o_id (orders d1))" using inv1 by (simp add: store_inv_def core_inv_def keys_inv_def)
  then have fo: "find_order (p_order p) d1 = Some r" using mem by (simp add: find_order_def find_key_iff d1)
  show ?thesis
    using mem fp fo
    by (auto simp: callback_tx_def simulated_payload_def ebind_Inl_iff insert_callback_def lock_order_def
        dest!: settle_technical split: option.splits if_splits)
qed

theorem simulated_callback_matches_witness:
  "\<exists>p r d1. claim_payment (stage_env CHR ''s'' 3000) ''tok'' paying_db = Inr (Some (p, r), d1) \<and>
     callback_tx (stage_env CHR ''b'' 4000) (simulated_payload p r) d1 \<noteq> Inl (Failure ''PAYMENT_MISMATCH'' 422)"
proof -
  have "payments_due (stage_env CHR ''s'' 3000) paying_db = [(payment_attempts paying_db ! 0, orders paying_db ! 0)]"
    by code_simp
  then obtain p r d1 where c: "claim_payment (stage_env CHR ''s'' 3000) ''tok'' paying_db = Inr (Some (p, r), d1)"
    by (simp add: claim_payment_def)
  with simulated_callback_matches [OF paying_inv c, of "stage_env CHR ''b'' 4000"] show ?thesis by blast
qed

end
