(* ===== verification/Cli_Facts.thy ===== *)
theory Cli_Facts
  imports Cli Fulfilment_Facts
begin

text \<open>
  Migrations run once and changed ones are refused, seeding keeps the store's invariant, and a
  replayed dead letter is removed only when its event was consumed.
\<close>

section \<open>Migrations\<close>

lemma run_migrations_records:
  assumes "run_migrations sha files m = Inr m'"
  shows "map_of (applied m) n = Some c \<Longrightarrow> map_of (applied m') n = Some c"
    and "(n, sql) \<in> set files \<Longrightarrow> map_of (applied m') n = Some (sha sql)"
proof -
  have "(map_of (applied m) n = Some c \<longrightarrow> map_of (applied m') n = Some c) \<and>
      ((n, sql) \<in> set files \<longrightarrow> map_of (applied m') n = Some (sha sql))"
    using assms
  proof (induction sha files m arbitrary: c rule: run_migrations.induct)
    case (2 sha name s files m)
    show ?case
    proof (cases "map_of (applied m) name")
      case None
      let ?m1 = "m\<lparr>applied := applied m @ [(name, sha s)], executed := executed m @ [s]\<rparr>"
      have rest: "run_migrations sha files ?m1 = Inr m'" using "2.prems" None by simp
      have "map_of (applied ?m1) name = Some (sha s)" using None by (simp add: map_add_def)
      moreover have "map_of (applied m) n = Some c \<Longrightarrow> map_of (applied ?m1) n = Some c"
        using None by (auto simp: map_add_def split: option.splits)
      ultimately show ?thesis using "2.IH"(1) [OF None rest] by (auto simp: map_add_def)
    next
      case (Some k)
      then have "k = sha s" and rest: "run_migrations sha files m = Inr m'"
        using "2.prems" by (simp_all split: if_splits)
      then show ?thesis using "2.IH"(2) [OF Some _ rest] Some by auto
    qed
  qed simp
  then show "map_of (applied m) n = Some c \<Longrightarrow> map_of (applied m') n = Some c"
    and "(n, sql) \<in> set files \<Longrightarrow> map_of (applied m') n = Some (sha sql)" by blast+
qed

lemma run_migrations_recorded:
  "\<forall>(n, sql)\<in>set files. map_of (applied m) n = Some (sha sql) \<Longrightarrow> run_migrations sha files m = Inr m"
  by (induction sha files m rule: run_migrations.induct) auto

lemma run_migrations_executes:
  assumes "run_migrations sha files m = Inr m'" and "distinct (map fst files)"
  shows "executed m' = executed m @ map snd (filter (\<lambda>f. fst f \<notin> fst ` set (applied m)) files)"
  using assms
proof (induction sha files m rule: run_migrations.induct)
  case (2 sha name s files m)
  show ?case
  proof (cases "map_of (applied m) name")
    case None
    have "filter (\<lambda>f. fst f \<notin> insert name (fst ` set (applied m))) files = filter (\<lambda>f. fst f \<notin> fst ` set (applied m)) files"
      using "2.prems"(2) by (intro filter_cong) force+
    then show ?thesis using "2.IH"(1) [OF None] "2.prems" None by (simp add: map_of_eq_None_iff)
  next
    case (Some k)
    then have "name \<in> fst ` set (applied m)" by (metis domI dom_map_of_conv_image_fst)
    then show ?thesis using "2.IH"(2) [OF Some] "2.prems" Some by (simp split: if_splits)
  qed
qed simp

text \<open>
  Fact.  Every migration runs exactly once: a successful run executes, in the order of their
  names, exactly the scripts that the ledger does not know yet; running the same files again
  executes nothing.
\<close>

theorem migrations_run_once:
  assumes "migrate sha files m = (Inr (), m')" and "distinct (map fst files)"
  shows "executed m' = executed m @ map snd (filter (\<lambda>f. fst f \<notin> fst ` set (applied m)) (sort_key fst files)) \<and>
    migrate sha files m' = (Inr (), m')"
proof -
  have run: "run_migrations sha (sort_key fst files) m = Inr m'" and ne: "files \<noteq> []"
    using assms(1) by (auto simp: migrate_def split: if_splits sum.splits)
  have "distinct (map fst (sort_key fst files))" using assms(2) by (simp add: distinct_map)
  moreover have "run_migrations sha (sort_key fst files) m' = Inr m'"
    using run_migrations_records(2) [OF run] by (intro run_migrations_recorded) auto
  ultimately show ?thesis using run_migrations_executes [OF run] ne by (simp add: migrate_def)
qed

theorem migrations_run_once_witness:
  "\<exists>m'. migrate (\<lambda>s. s) [(''002'', ''b''), (''001'', ''a'')] \<lparr>applied = [(''001'', ''a'')], executed = [''a'']\<rparr> = (Inr (), m') \<and>
     executed m' = [''a'', ''b'']"
proof -
  let ?m = "\<lparr>applied = [(''001'', ''a'')], executed = [''a'']\<rparr>"
  have run: "migrate (\<lambda>s. s) [(''002'', ''b''), (''001'', ''a'')] ?m =
      (Inr (), \<lparr>applied = [(''001'', ''a''), (''002'', ''b'')], executed = [''a'', ''b'']\<rparr>)" by code_simp
  from migrations_run_once [OF run] run show ?thesis by simp
qed

lemma changed_migration_refused:
  assumes "(n, sql) \<in> set files" and "map_of (applied m) n = Some c" and "c \<noteq> sha sql"
  shows "\<exists>x. migrate sha files m = (Inl x, m)"
proof -
  have "\<exists>x. run_migrations sha (sort_key fst files) m = Inl x"
  proof (cases "run_migrations sha (sort_key fst files) m")
    case (Inr m')
    from run_migrations_records [OF Inr] assms show ?thesis by fastforce
  qed simp
  then show ?thesis by (auto simp: migrate_def)
qed

section \<open>Seeding\<close>

lemma seat_append_inv:
  assumes inv: "store_inv d" and new: "seat_key s \<notin> seat_key ` set (event_seats d)"
    and free: "s_hold s = None" "s_until s = None" "s_booked s = None"
  shows "store_inv (d\<lparr>event_seats := event_seats d @ [s]\<rparr>)" (is "store_inv ?d'")
proof -
  have core: "core_inv d" using inv by (simp add: store_inv_def)
  have tr: "item_triples ?d' = item_triples d" "booking_triples ?d' = booking_triples d"
    by (simp_all add: item_triples_def booking_triples_def)
  have fate: "fate ?d' = fate d" by (rule fate_cong) simp
  have ok: "seat_ok ?d' x \<longleftrightarrow> seat_ok d x" for x by (simp add: seat_ok_def tr)
  have "seat_ok ?d' s" using free by (simp add: seat_ok_def seat_check_def)
  moreover have "(oid, s_event s, s_id s) \<notin> item_triples d" for oid
    using core new by (auto simp: core_inv_def item_inv_def item_triples_def item_seat_def seat_key_def)
  ultimately have "core_inv ?d'"
    using core new free by (auto simp: core_inv_def keys_inv_def order_inv_def seat_inv_def booking_inv_def item_inv_def tr ok)
  moreover have "pay_inv ?d'" "event_inv ?d'" "ticket_inv ?d'" "idem_inv ?d'"
    using inv fate by (simp_all add: store_inv_def pay_inv_def event_inv_def event_ok_def ticket_inv_def idem_inv_def)
  ultimately show ?thesis by (simp add: store_inv_def)
qed

lemma seed_seat_inv: "store_inv d \<Longrightarrow> store_inv (seed_seat i d)"
  by (auto simp: seed_seat_def Let_def intro: seat_append_inv)

lemma seed_event_inv: "store_inv (seed_event E d) = store_inv d"
  by (rule store_inv_cong) (simp_all add: seed_event_def)

lemma seed_tx_inv:
  assumes "store_inv d" and "seed_tx E d = Inr (u, d')"
  shows "store_inv d'"
proof -
  have "store_inv (fold seed_seat is d)" if "store_inv d" for "is" d
    using that by (induction "is" arbitrary: d) (simp_all add: seed_seat_inv)
  then show ?thesis using assms by (auto simp: seed_tx_def seed_event_inv)
qed

interpretation seed_op: store_op seed_tx
  by unfold_locales (rule seed_tx_inv)

section \<open>Dead letters\<close>

text \<open>
  Fact.  Replaying never loses a message: after a replay the dead letter is still there, or its
  event is in the consumer's inbox; an unsuccessful replay changes nothing at all.
\<close>

theorem replay_loses_nothing:
  assumes run: "replay_letter parse E id i d = (r, d')" and letter: "row \<in> set (dead_letters d)"
  shows "(row \<in> set (dead_letters d') \<or> (\<exists>env ev. (''fulfillment'', ev) \<in> set (consumer_inbox d') \<and>
      jget ''event_id'' env = Some (JStr ev) \<and> (\<exists>raw. parse raw = Some env))) \<and> (\<forall>x. r = Inl x \<longrightarrow> d' = d)"
proof (cases "find (\<lambda>r. d_id r = i) (dead_letters d)")
  case None
  then show ?thesis using run letter by (auto simp: replay_letter_def)
next
  case (Some found)
  show ?thesis
  proof (cases "ebind (ebind (jindex ''raw'' (d_payload found)) as_text) (\<lambda>raw.
      case parse raw of None \<Rightarrow> Inl (PyError ''JSONDecodeError'') | Some j \<Rightarrow> Inr j)")
    case (Inl x)
    then show ?thesis using run letter Some by (auto simp: replay_letter_def)
  next
    case (Inr env)
    then obtain raw where raw: "parse raw = Some env" by (auto simp: ebind_Inr_iff split: option.splits)
    obtain s d1 where c: "consume_event E env d = (s, d1)" by (rule prod.exhaust)
    show ?thesis
    proof (cases s)
      case err: (Inl x)
      have "d1 = d" using c by (cases rule: consume_event_cases) (use err in auto)
      then show ?thesis using run letter Some Inr c err by (auto simp: replay_letter_def)
    next
      case ok: (Inr u)
      then have ok1: "consume_event E env d = (Inr (), d1)" using c by simp
      then obtain ev where ev: "jget ''event_id'' env = Some (JStr ev)" "(''fulfillment'', ev) \<in> set (consumer_inbox d1)"
      proof (cases rule: consume_event_cases)
        case (run kind data)
        show ?thesis using consume_tx_inbox [OF run(4)] that by blast
      qed simp
      have "consumer_inbox d' = consumer_inbox d1" "r = Inr ()"
        using run Some Inr c ok by (auto simp: replay_letter_def delete_letter_def transaction_def)
      then show ?thesis using ev raw by auto
    qed
  qed
qed

theorem replay_loses_nothing_witness:
  "\<exists>d0 d'. replay_letter (\<lambda>_. Some (envelope_of paid_event)) (stage_env CHR ''t'' 4000) id ''x'' d0 = (Inr (), d') \<and>
     dead_letters d0 \<noteq> [] \<and> dead_letters d' = [] \<and> (\<exists>ev. (''fulfillment'', ev) \<in> set (consumer_inbox d'))"
proof -
  let ?row = "\<lparr>d_id = ''x'', d_payload = JObj [(''raw'', JStr ''m'')], d_error = ''e''\<rparr>"
  let ?d = "paid_db\<lparr>dead_letters := [?row]\<rparr>"
  let ?x = "replay_letter (\<lambda>_. Some (envelope_of paid_event)) (stage_env CHR ''t'' 4000) id ''x'' ?d"
  have f: "fst ?x = Inr ()" and s: "dead_letters (snd ?x) = []" by code_simp+
  have run: "?x = (Inr (), snd ?x)" using f by (metis prod.collapse)
  from replay_loses_nothing [OF run, of ?row] s have "\<exists>ev. (''fulfillment'', ev) \<in> set (consumer_inbox (snd ?x))" by auto
  then show ?thesis using run s by (intro exI [of _ ?d] exI [of _ "snd ?x"]) simp
qed

end
