(* ===== verification/System.thy ===== *)
theory System
  imports Store_Promises Reconcile_Facts Cli_Facts
begin

text \<open>
  The whole system as seen by its shared database: any number of API processes, workers and
  administrators commit transactions in any order.  \<open>commits\<close> has one rule per transaction of the
  program, whatever its arguments, clock, identifiers, locks and outcome; a history is a sequence
  of them that starts from a catalogue of unsold events.  The only assumption about the outside
  is that the ticket ids a consumer draws are new (\<open>uuid4\<close>).
\<close>

section \<open>Histories\<close>

inductive commits :: "db \<Rightarrow> db \<Rightarrow> bool" where
  reserve: "reserve E up_in up_out t_in t_out token hs actor ev ids key (sh, d) = (r, sh', d') \<Longrightarrow> commits d d'"
| persist: "persist_reservation_command E p response d = (r, d') \<Longrightarrow> commits d d'"
| checkout: "checkout E actor hold_id key d = (r, d') \<Longrightarrow> commits d d'"
| release: "release E actor hold_id d = (r, d') \<Longrightarrow> commits d d'"
| expire: "expire_batch E limit d = (r, d') \<Longrightarrow> commits d d'"
| pay: "initiate_payment E actor oid key outcome delay dup d = (r, d') \<Longrightarrow> commits d d'"
| callback: "callback E p d = (r, d') \<Longrightarrow> commits d d'"
| read_order: "get_order actor oid d = (r, d') \<Longrightarrow> commits d d'"
| read_hold: "get_hold E actor hold_id d = (r, d') \<Longrightarrow> commits d d'"
| publish_claim: "transaction (claim_outbox E token n) d = (r, d') \<Longrightarrow> commits d d'"
| publish_confirm: "transaction (confirm_outbox E token xs) d = (r, d') \<Longrightarrow> commits d d'"
| consume: "ticket_ids_fresh E d \<Longrightarrow> consume_event E envelope d = (r, d') \<Longrightarrow> commits d d'"
| dead_letter: "transaction (insert_dead_letter letter) d = (r, d') \<Longrightarrow> commits d d'"
| undead_letter: "transaction (delete_letter i) d = (r, d') \<Longrightarrow> commits d d'"
| simulate_claim: "transaction (claim_payment E token) d = (r, d') \<Longrightarrow> commits d d'"
| simulate_done: "transaction (delivered_payment pid token) d = (r, d') \<Longrightarrow> commits d d'"
| refresh_claim: "transaction (claim_refresh E token n) d = (r, d') \<Longrightarrow> commits d d'"
| refresh_done: "transaction (complete_rows E token cooldown claimed rows) d = (r, d') \<Longrightarrow> commits d d'"
| schedule: "maintain_schedule E S d = (r, d') \<Longrightarrow> commits d d'"
| reconcile_claim: "claim_due_events E S d = (r, d') \<Longrightarrow> commits d d'"
| reconcile_done: "complete_reconciliation E S ev token d = (r, d') \<Longrightarrow> commits d d'"
| reconcile_defer: "defer_reconciliation E S ev token d = (r, d') \<Longrightarrow> commits d d'"
| reconcile_return: "return_claims evs token d = (r, d') \<Longrightarrow> commits d d'"
| seed: "transaction (seed_tx E) d = (r, d') \<Longrightarrow> commits d d'"

definition catalogue :: "db \<Rightarrow> bool" where
  "catalogue d \<longleftrightarrow> distinct (map seat_key (event_seats d)) \<and>
     list_all (\<lambda>s. s_hold s = None \<and> s_until s = None \<and> s_booked s = None) (event_seats d) \<and>
     holds d = [] \<and> orders d = [] \<and> order_items d = [] \<and> bookings d = [] \<and> idempotency_records d = [] \<and>
     payment_attempts d = [] \<and> payment_callbacks d = [] \<and> refund_requests d = [] \<and> outbox_events d = [] \<and> tickets d = []"

inductive history :: "db \<Rightarrow> db \<Rightarrow> bool" where
  start: "history d d"
| step: "history d d1 \<Longrightarrow> commits d1 d2 \<Longrightarrow> history d d2"

section \<open>The invariant along a history\<close>

lemma catalogue_inv: "catalogue d \<Longrightarrow> store_inv d"
  by (auto simp: catalogue_def store_inv_def core_inv_defs pay_inv_def event_inv_def ticket_inv_def idem_inv_def seat_ok_def
      seat_check_def item_triples_def booking_triples_def fate_def find_order_def list_all_iff)

text \<open>The tables the invariant does not look at.\<close>

definition same_sales :: "db \<Rightarrow> db \<Rightarrow> bool" where
  "same_sales d d' \<longleftrightarrow> holds d' = holds d \<and> orders d' = orders d \<and> event_seats d' = event_seats d \<and>
     order_items d' = order_items d \<and> bookings d' = bookings d \<and> payment_attempts d' = payment_attempts d \<and>
     payment_callbacks d' = payment_callbacks d \<and> refund_requests d' = refund_requests d \<and>
     outbox_events d' = outbox_events d \<and> tickets d' = tickets d \<and> idempotency_records d' = idempotency_records d"

lemma same_sales_inv: "same_sales d d' \<Longrightarrow> store_inv d' = store_inv d"
  unfolding same_sales_def by (intro store_inv_cong) simp_all

lemma complete_rows_sales: "complete_rows E token c t rows d = Inr (u, d') \<Longrightarrow> same_sales d d'"
proof (induction E token c t rows d rule: complete_rows.induct)
  case (2 E token c t r rs d)
  then obtain d1 where d1: "complete_row E token c t r d = Inr d1" "same_sales d1 d'" by (auto simp: ebind_Inr_iff)
  then have "same_sales d d1" by (auto simp: complete_row_def same_sales_def Let_def split: if_splits)
  with d1(2) show ?case by (simp add: same_sales_def)
qed (simp add: same_sales_def)

lemma transaction_sales:
  assumes "transaction body d = (r, d')" and "\<And>x d1. body d = Inr (x, d1) \<Longrightarrow> same_sales d d1"
  shows "same_sales d d'"
  using assms by (cases rule: transaction_cases [of body d]) (auto simp: same_sales_def)

text \<open>Transactions on leases, letters, requests and the schedule do not touch the sale.\<close>

lemma bookkeeping_sales:
  "transaction (insert_dead_letter letter) d = (r1, d') \<Longrightarrow> same_sales d d'"
  "transaction (delete_letter i) d = (r2, d') \<Longrightarrow> same_sales d d'"
  "transaction (claim_refresh E token n) d = (r3, d') \<Longrightarrow> same_sales d d'"
  "transaction (complete_rows E token c t rows) d = (r4, d') \<Longrightarrow> same_sales d d'"
  "maintain_schedule E S d = (r5, d') \<Longrightarrow> same_sales d d'"
  "claim_due_events E S d = (r6, d') \<Longrightarrow> same_sales d d'"
  "complete_reconciliation E S ev token d = (r7, d') \<Longrightarrow> same_sales d d'"
  "defer_reconciliation E S ev token d = (r8, d') \<Longrightarrow> same_sales d d'"
  "return_claims evs token d = (r8, d') \<Longrightarrow> same_sales d d'"
  "get_order actor oid d = (r9, d') \<Longrightarrow> same_sales d d'"
  "get_hold E actor hold_id d = (r10, d') \<Longrightarrow> same_sales d d'"
proof -
  show "transaction (insert_dead_letter letter) d = (r1, d') \<Longrightarrow> same_sales d d'"
    by (erule transaction_sales) (auto simp: insert_dead_letter_def same_sales_def split: if_splits)
  show "transaction (delete_letter i) d = (r2, d') \<Longrightarrow> same_sales d d'"
    by (erule transaction_sales) (auto simp: delete_letter_def same_sales_def)
  show "transaction (claim_refresh E token n) d = (r3, d') \<Longrightarrow> same_sales d d'"
    by (erule transaction_sales) (auto simp: claim_refresh_def same_sales_def Let_def split: if_splits)
  show "transaction (complete_rows E token c t rows) d = (r4, d') \<Longrightarrow> same_sales d d'"
    by (erule transaction_sales) (erule complete_rows_sales)
  show "maintain_schedule E S d = (r5, d') \<Longrightarrow> same_sales d d'"
    by (drule maintain_schedule_result(1)) (simp add: same_sales_def prune_schedule_def seed_schedule_def)
  show "claim_due_events E S d = (r6, d') \<Longrightarrow> same_sales d d'"
    by (auto simp: claim_due_events_def claim_due_tx_def transaction_def same_sales_def Let_def split: if_splits)
  show "complete_reconciliation E S ev token d = (r7, d') \<Longrightarrow> same_sales d d'"
    "defer_reconciliation E S ev token d = (r8, d') \<Longrightarrow> same_sales d d'"
    "return_claims evs token d = (r8, d') \<Longrightarrow> same_sales d d'"
    by (auto simp: complete_reconciliation_def defer_reconciliation_def return_claims_def transaction_def same_sales_def Let_def)
  show "get_order actor oid d = (r9, d') \<Longrightarrow> same_sales d d'" "get_hold E actor hold_id d = (r10, d') \<Longrightarrow> same_sales d d'"
    by (auto simp: get_order_def get_hold_def transaction_def same_sales_def split: option.splits)
qed

lemma outbox_lease_inv:
  "transaction (claim_outbox E token n) d = (r, d') \<Longrightarrow> store_inv d' = store_inv d \<and> event_seats d' = event_seats d"
  "transaction (confirm_outbox E token xs) d = (q, d') \<Longrightarrow> store_inv d' = store_inv d \<and> event_seats d' = event_seats d"
  by (auto simp: transaction_def claim_outbox_def confirm_outbox_def Let_def store_inv_outbox_leases split: if_splits)

lemma payment_lease_inv:
  "transaction (claim_payment E token) d = (r, d') \<Longrightarrow> store_inv d' = store_inv d \<and> event_seats d' = event_seats d"
  "transaction (delivered_payment pid token) d = (q, d') \<Longrightarrow> store_inv d' = store_inv d \<and> event_seats d' = event_seats d"
  by (auto simp: transaction_def claim_payment_def delivered_payment_def store_inv_payment_leases split: list.splits)

lemma reserve_db:
  assumes "reserve E up_in up_out t_in t_out token hs actor ev ids key (sh, d) = (r, sh', d')"
  obtains "d' = d" | r' where "transaction (reserve_tx E hs actor ev (sort (remdups ids)) key) d = (r', d')"
proof (cases "d' = d")
  case False
  obtain r' d1 where t: "transaction (reserve_tx E hs actor ev (sort (remdups ids)) key) d = (r', d1)" by (rule prod.exhaust)
  have "d' = d1" using assms False t by (auto simp: reserve_def Let_def split: if_splits sum.splits)
  then show ?thesis using that(2) t by blast
qed (rule that(1))

text \<open>What the transactions of the sale itself do, in one place.\<close>

lemma sale_commits:
  assumes inv: "store_inv d" and t: "transaction body d = (r, d')"
    and body: "\<And>x d1. body d = Inr (x, d1) \<Longrightarrow> store_inv d1 \<and> seats_evolve d d1"
  shows "store_inv d' \<and> seats_evolve d d'"
  using t inv body seats_evolve_same [of d d]
  by (cases rule: transaction_cases [of body d]) auto

lemma store_commits:
  assumes inv: "store_inv d"
  shows "transaction (reserve_tx E hs actor ev ids key) d = (r1, d') \<Longrightarrow> store_inv d' \<and> seats_evolve d d'"
    "transaction (persist_tx E p response) d = (r2, d') \<Longrightarrow> store_inv d' \<and> seats_evolve d d'"
    "transaction (checkout_tx E actor hold_id key) d = (r3, d') \<Longrightarrow> store_inv d' \<and> seats_evolve d d'"
    "transaction (release_tx E actor hold_id) d = (r4, d') \<Longrightarrow> store_inv d' \<and> seats_evolve d d'"
    "transaction (expire_tx E n) d = (r5, d') \<Longrightarrow> store_inv d' \<and> seats_evolve d d'"
    "transaction (initiate_payment_tx E actor oid key oc delay dup) d = (r6, d') \<Longrightarrow> store_inv d' \<and> seats_evolve d d'"
    "transaction (callback_tx E cb) d = (r7, d') \<Longrightarrow> store_inv d' \<and> seats_evolve d d'"
  by (erule sale_commits [OF inv]; blast intro: inv reserve_tx_inv persist_tx_inv checkout_tx_inv release_tx_inv expire_tx_inv
      initiate_payment_tx_inv callback_tx_inv tx_evolves callback_tx_evolves)+

lemma insert_tickets_seats: "insert_tickets E n bs d = Inr d' \<Longrightarrow> event_seats d' = event_seats d"
  by (induction E n bs d rule: insert_tickets.induct) (auto simp: ebind_Inr_iff insert_ticket_def split: if_splits)

lemma handle_event_seats:
  assumes "handle_event E kind data d = Inr d'"
  shows "event_seats d' = event_seats d"
proof -
  have "event_seats d' = event_seats d" if "note_seats E data d = Inr d'"
    using note_seats_request [OF that] by (auto simp: request_refresh_def split: if_splits)
  moreover have "event_seats d' = event_seats d" if "issue_tickets E data d = Inr d'"
    using that by (rule issue_tickets_success) (auto simp: event_Inr dest: insert_tickets_seats)
  moreover have "event_seats d' = event_seats d" if "settle_refund E data d = Inr d'"
    using that by (auto simp: settle_refund_def ebind_Inr_iff)
  ultimately show ?thesis using assms by (auto simp: handle_event_def split: if_splits)
qed

lemma consume_commits:
  assumes inv: "store_inv d" and fresh: "ticket_ids_fresh E d" and run: "consume_event E envelope d = (r, d')"
  shows "store_inv d' \<and> seats_evolve d d'"
  using run
proof (cases rule: consume_event_cases)
  case (rejected x)
  then show ?thesis using inv by (simp add: seats_evolve_same)
next
  case (run kind data)
  have "event_seats d' = event_seats d"
    using run(4) by (auto simp: consume_tx_def ebind_Inr_iff dest: handle_event_seats split: if_splits)
  then show ?thesis using consume_tx_inv [OF inv fresh run(4)] by (simp add: seats_evolve_same)
qed

text \<open>Seats stay, also when the catalogue grows.\<close>

definition seats_kept :: "db \<Rightarrow> db \<Rightarrow> bool" where
  "seats_kept d d' \<longleftrightarrow> (\<forall>s\<in>set (event_seats d). \<exists>s'\<in>set (event_seats d'). seat_evolves s s')"

lemma seats_kept_trans: "seats_kept d d' \<Longrightarrow> seats_kept d' d'' \<Longrightarrow> seats_kept d d''"
  unfolding seats_kept_def by (meson seat_evolves_trans)

lemma seats_kept_evolve: "seats_evolve d d' \<Longrightarrow> seats_kept d d'"
  unfolding seats_kept_def by (meson seats_evolve_find)

lemma seats_kept_superset: "set (event_seats d) \<subseteq> set (event_seats d') \<Longrightarrow> seats_kept d d'"
  unfolding seats_kept_def using seat_evolves_refl by blast

lemma seed_seats: "set (event_seats d) \<subseteq> set (event_seats (fold seed_seat is d))"
proof (induction "is" arbitrary: d)
  case (Cons i "is")
  have "set (event_seats d) \<subseteq> set (event_seats (seed_seat i d))" by (auto simp: seed_seat_def Let_def)
  with Cons.IH [of "seed_seat i d"] show ?case by simp
qed simp

lemma seed_commits:
  assumes inv: "store_inv d" and t: "transaction (seed_tx E) d = (r, d')"
  shows "store_inv d' \<and> seats_kept d d'"
proof -
  have d': "d' = fold seed_seat [1..<101] (seed_event E d)" using t by (auto simp: transaction_def seed_tx_def)
  have "event_seats (seed_event E d) = event_seats d" by (simp add: seed_event_def)
  then have "seats_kept d d'" using seats_kept_superset seed_seats [of "seed_event E d"] d' by metis
  then show ?thesis using seed_op.op_inv [OF inv t] by simp
qed

lemma same_sales_commits: "store_inv d \<Longrightarrow> same_sales d d' \<Longrightarrow> store_inv d' \<and> seats_kept d d'"
  using same_sales_inv [of d d'] by (auto simp: same_sales_def intro: seats_kept_superset)

lemma same_seats_commits:
  "store_inv d \<Longrightarrow> store_inv d' = store_inv d \<and> event_seats d' = event_seats d \<Longrightarrow> store_inv d' \<and> seats_kept d d'"
  by (auto intro: seats_kept_superset)

lemma evolving_commits: "store_inv d' \<and> seats_evolve d d' \<Longrightarrow> store_inv d' \<and> seats_kept d d'"
  by (auto intro: seats_kept_evolve)

lemma unchanged_commits: "store_inv d \<Longrightarrow> d' = d \<Longrightarrow> store_inv d' \<and> seats_kept d d'"
  by (auto intro: seats_kept_superset)

lemma commits_keep:
  assumes "commits d d'" and inv: "store_inv d"
  shows "store_inv d' \<and> seats_kept d d'"
  using assms(1)
proof cases
  case (reserve E up_in up_out t_in t_out token hs actor ev ids key sh r sh')
  from reserve show ?thesis
    by (rule reserve_db) (erule unchanged_commits [OF inv], intro evolving_commits, erule store_commits(1) [OF inv])
next
  case (persist E p response r)
  then show ?thesis
    using unchanged_commits [OF inv, of d'] evolving_commits [OF store_commits(2) [OF inv]]
    by (auto simp: persist_reservation_command_def split: if_splits)
next
  case (checkout E actor hold_id key r)
  then show ?thesis unfolding checkout_def by (intro evolving_commits store_commits(3) [OF inv])
next
  case (release E actor hold_id r)
  then show ?thesis unfolding release_def by (intro evolving_commits store_commits(4) [OF inv])
next
  case (expire E limit r)
  then show ?thesis
    using unchanged_commits [OF inv, of d'] evolving_commits [OF store_commits(5) [OF inv]]
    by (auto simp: expire_batch_def split: if_splits)
next
  case (pay E actor oid key outcome delay dup r)
  then show ?thesis unfolding initiate_payment_def by (intro evolving_commits store_commits(6) [OF inv])
next
  case (callback E p r)
  then show ?thesis unfolding callback_def by (intro evolving_commits store_commits(7) [OF inv])
next
  case (consume E envelope r)
  then show ?thesis by (intro evolving_commits consume_commits [OF inv])
next
  case (seed E r)
  then show ?thesis by (rule seed_commits [OF inv])
qed (intro same_sales_commits [OF inv] same_seats_commits [OF inv], erule bookkeeping_sales outbox_lease_inv payment_lease_inv)+

lemma history_keep: "history d d' \<Longrightarrow> store_inv d \<Longrightarrow> store_inv d' \<and> seats_kept d d'"
proof (induction rule: history.induct)
  case (start d)
  then show ?case by (intro unchanged_commits) simp_all
next
  case (step d d1 d2)
  then show ?case using commits_keep [OF step.hyps(2)] seats_kept_trans by blast
qed

lemma history_trans: "history d d1 \<Longrightarrow> history d1 d2 \<Longrightarrow> history d d2"
  by (rotate_tac, induction rule: history.induct) (auto intro: history.step)

end
