(* ===== verification/Application.thy ===== *)
theory Application
  imports Fulfilment Intake_Facts Config
begin

text \<open>
  The use cases (\<open>application/reservations.py\<close>), the two stores behind them
  (\<open>PostgresReservations\<close> and \<open>RedisFirstReservations\<close>) and how \<open>lifespan\<close> in \<open>api.py\<close> chooses
  between them.  The state of an API process and of what it shares with the others is a \<open>world\<close>;
  what one request meets outside (clocks, identifiers, which calls go through) is a \<open>ctx\<close>.
\<close>

record world =
  w_db :: db
  w_redis :: redis
  w_shields :: shields
  w_rates :: rates
  w_bodies :: bodies

record ctx =
  cx_env :: env
  cx_up_in :: bool
  cx_up_out :: bool
  cx_t_in :: time
  cx_t_out :: time
  cx_token :: string
  cx_calls :: redis_calls
  cx_redis_time :: time
  cx_rate_up :: bool
  cx_sha_text :: "string \<Rightarrow> string"

section \<open>Stores\<close>

definition postgres_reserve ::
  "settings \<Rightarrow> ctx \<Rightarrow> string \<Rightarrow> uuid \<Rightarrow> seat_id list \<Rightarrow> string \<Rightarrow> world \<Rightarrow> json result \<times> world"
where
  "postgres_reserve S X actor event_id seat_ids key w =
     (case reserve (cx_env X) (cx_up_in X) (cx_up_out X) (cx_t_in X) (cx_t_out X) (cx_token X) (hold_seconds S)
        actor event_id seat_ids key (w_shields w, w_db w) of
        (r, sh, d) \<Rightarrow> (r, w\<lparr>w_shields := sh, w_db := d\<rparr>))"

definition intake_of :: "settings \<Rightarrow> intake_config" where
  "intake_of S = \<lparr>ic_hold_seconds = hold_seconds S, ic_replica_acks = nat (redis_reservation_replica_acks S),
     ic_max_backlog = nat (redis_reservation_max_backlog S), ic_retention = 86400\<rparr>"

definition redis_first_reserve ::
  "settings \<Rightarrow> ctx \<Rightarrow> string \<Rightarrow> uuid \<Rightarrow> seat_id list \<Rightarrow> string \<Rightarrow> world \<Rightarrow> json result \<times> world"
where
  "redis_first_reserve S X actor event_id seat_ids key w =
     (case enqueue (cx_env X) (cx_sha_text X) (intake_of S) (cx_calls X) (cx_redis_time X) actor event_id seat_ids key (w_redis w) of
        (r, rd) \<Rightarrow> (r, w\<lparr>w_redis := rd\<rparr>))"

definition store_reserve ::
  "settings \<Rightarrow> ctx \<Rightarrow> string \<Rightarrow> uuid \<Rightarrow> seat_id list \<Rightarrow> string \<Rightarrow> world \<Rightarrow> json result \<times> world"
where
  "store_reserve S = (if reservation_mode S = ''redis-first'' then redis_first_reserve S else postgres_reserve S)"

section \<open>\<open>Reservations\<close>\<close>

text \<open>The use case over any store: the checks come first, then the store gets the seats in order.\<close>

definition service_reserve ::
  "(string \<Rightarrow> uuid \<Rightarrow> seat_id list \<Rightarrow> string \<Rightarrow> 'w \<Rightarrow> json result \<times> 'w) \<Rightarrow>
   string \<Rightarrow> uuid \<Rightarrow> seat_id list \<Rightarrow> string \<Rightarrow> 'w \<Rightarrow> json result \<times> 'w"
where
  "service_reserve store actor event_id seat_ids key w =
     (if \<not> (1 \<le> length seat_ids \<and> length seat_ids \<le> 8) \<or> length (remdups seat_ids) \<noteq> length seat_ids
      then (Inl (Failure ''INVALID_SEATS'' 422), w)
      else if list_ex (\<lambda>seat. seat = [] \<or> length seat > 64) seat_ids
      then (Inl (Failure ''INVALID_SEATS'' 422), w)
      else store actor event_id (sort seat_ids) key w)"

definition outcome_of :: "string \<Rightarrow> outcome option" where
  "outcome_of s = (if s = ''SUCCEEDED'' then Some SUCCEEDED else if s = ''FAILED'' then Some FAILED else None)"

definition service_initiate_payment ::
  "env \<Rightarrow> string \<Rightarrow> uuid \<Rightarrow> string \<Rightarrow> string \<Rightarrow> int \<Rightarrow> int \<Rightarrow> db \<Rightarrow> json result \<times> db"
where
  "service_initiate_payment E actor order_id key outcome delay_seconds duplicates d =
     (case outcome_of outcome of
        None \<Rightarrow> (Inl (Failure ''INVALID_PAYMENT'' 422), d)
      | Some oc \<Rightarrow>
          if \<not> (0 \<le> delay_seconds \<and> delay_seconds \<le> 600) \<or> \<not> (1 \<le> duplicates \<and> duplicates \<le> 10)
          then (Inl (Failure ''INVALID_PAYMENT'' 422), d)
          else initiate_payment E actor order_id key oc delay_seconds duplicates d)"

section \<open>The port as a contract\<close>

text \<open>
  \<open>ReservationStore.reserve\<close> promises that a refused reservation has no effect on what the store
  owns (\<open>owned\<close>), up to one kind of error that says that the effect is unknown, and that a
  request it answers named between one and eight different seats.  The use case then promises
  the same, and that no store ever sees an invalid request.
\<close>

locale hold_port =
  fixes store :: "string \<Rightarrow> uuid \<Rightarrow> seat_id list \<Rightarrow> string \<Rightarrow> 'w \<Rightarrow> json result \<times> 'w"
    and owned :: "'w \<Rightarrow> 'o"
    and unknown :: "exc \<Rightarrow> bool"
  assumes refused: "store actor e ids key w = (Inl x, w') \<Longrightarrow> \<not> unknown x \<Longrightarrow> owned w' = owned w"
begin

lemma service_refused:
  "service_reserve store actor e ids key w = (Inl x, w') \<Longrightarrow> \<not> unknown x \<Longrightarrow> owned w' = owned w"
  by (auto simp: service_reserve_def split: if_splits dest: refused)

lemma service_answered:
  assumes "service_reserve store actor e ids key w = (Inr r, w')"
  shows "distinct ids \<and> ids \<noteq> [] \<and> length ids \<le> 8 \<and> (\<forall>s\<in>set ids. s \<noteq> [] \<and> length s \<le> 64)"
    and "store actor e (sort ids) key w = (Inr r, w')"
proof -
  have "length (remdups ids) = length ids \<Longrightarrow> distinct ids"
    by (metis card_distinct length_remdups_card_conv)
  then show "distinct ids \<and> ids \<noteq> [] \<and> length ids \<le> 8 \<and> (\<forall>s\<in>set ids. s \<noteq> [] \<and> length s \<le> 64)"
    and "store actor e (sort ids) key w = (Inr r, w')"
    using assms by (auto simp: service_reserve_def list_ex_iff not_less split: if_splits)
qed

end

definition durable_state :: "world \<Rightarrow> db \<times> redis" where
  "durable_state w = (w_db w, w_redis w)"

interpretation postgres_port: hold_port "postgres_reserve S X" durable_state "\<lambda>_. False" for S X
proof (unfold_locales, goal_cases)
  case (1 actor e ids key w x w')
  then show ?case
    by (auto simp: postgres_reserve_def reserve_def durable_state_def Let_def transaction_def split: if_splits sum.splits)
qed

definition durability_unknown :: exc where
  "durability_unknown = Failure ''RESERVATION_DURABILITY_UNKNOWN'' 503"

interpretation redis_first_port: hold_port "redis_first_reserve S X" durable_state "\<lambda>x. x = durability_unknown" for S X
proof (unfold_locales, goal_cases)
  case (1 actor e ids key w x w')
  obtain r rd where e: "enqueue (cx_env X) (cx_sha_text X) (intake_of S) (cx_calls X) (cx_redis_time X) actor e ids key (w_redis w) = (r, rd)"
    by (rule prod.exhaust)
  then have r: "r = Inl x" "w' = w\<lparr>w_redis := rd\<rparr>" using 1(1) by (auto simp: redis_first_reserve_def)
  from e have "rd = w_redis w" by (cases rule: enqueue_cases) (use r 1(2) in \<open>auto simp: durability_unknown_def\<close>)
  then show ?case using r by (simp add: durable_state_def)
qed

interpretation chosen_port: hold_port "store_reserve S X" durable_state
  "\<lambda>x. reservation_mode S = ''redis-first'' \<and> x = durability_unknown" for S X
  by unfold_locales (auto simp: store_reserve_def split: if_splits dest: postgres_port.refused redis_first_port.refused)

end
