(* ===== verification/Api.thy ===== *)
theory Api
  imports Application
begin

text \<open>
  The HTTP endpoints (\<open>api.py\<close>): authentication, the exception handlers, and one function per
  route.  Request bodies arrive parsed and typed, as FastAPI hands them over; a body or header that
  does not fit its model is \<open>None\<close> and becomes the validation error.  \<open>decode\<close> is \<open>jwt.decode\<close>,
  \<open>sign\<close> the HMAC of a text under a secret.
\<close>

record response =
  rs_status :: int
  rs_body :: json
  rs_headers :: "(string \<times> string) list"

section \<open>Exception handlers\<close>

text \<open>\<open>business_error\<close>\<close>

definition business_error :: "string \<Rightarrow> string \<Rightarrow> int \<Rightarrow> response" where
  "business_error request_id code status =
     \<lparr>rs_status = status, rs_body = JObj [(''code'', JStr code), (''request_id'', JStr request_id)],
      rs_headers = (if status = 429 \<or> status = 503 then [(''Retry-After'', ''1'')] else [])\<rparr>"

text \<open>
  The registered handlers: business failures, lock contention, an unavailable database.  For
  other exceptions there is no handler, and the server answers 500.
\<close>

definition error_response :: "string \<Rightarrow> exc \<Rightarrow> response" where
  "error_response request_id x =
     (case x of
        Failure code status \<Rightarrow> business_error request_id code status
      | LockNotAvailable \<Rightarrow> business_error request_id ''RESOURCE_BUSY'' 409
      | DatabaseUnavailable \<Rightarrow> business_error request_id ''DATABASE_UNAVAILABLE'' 503
      | _ \<Rightarrow> \<lparr>rs_status = 500, rs_body = JStr ''Internal Server Error'', rs_headers = []\<rparr>)"

definition validation_error :: "string \<Rightarrow> response" where
  "validation_error request_id = business_error request_id ''INVALID_REQUEST'' 422"

definition respond :: "string \<Rightarrow> int \<Rightarrow> json result \<Rightarrow> response" where
  "respond request_id status r =
     (case r of Inl x \<Rightarrow> error_response request_id x
      | Inr body \<Rightarrow> \<lparr>rs_status = status, rs_body = body, rs_headers = []\<rparr>)"

section \<open>Authentication\<close>

definition actor_of :: "(string \<Rightarrow> json option) \<Rightarrow> string \<Rightarrow> string result" where
  "actor_of decode credentials =
     (case decode credentials of
        None \<Rightarrow> Inl (Failure ''UNAUTHENTICATED'' 401)
      | Some claims \<Rightarrow> ebind (jindex ''sub'' claims) (\<lambda>s.
          case s of
            JStr subject \<Rightarrow> if 1 \<le> length subject \<and> length subject \<le> 128 then Inr subject
              else Inl (Failure ''UNAUTHENTICATED'' 401)
          | _ \<Rightarrow> Inl (Failure ''UNAUTHENTICATED'' 401)))"

section \<open>Browsing\<close>

definition list_events :: "db \<Rightarrow> event_row list" where
  "list_events d = take 100 (sort_key ev_sale_starts (events d))"

text \<open>\<open>GET .../seats\<close>: the cache only, never the database.\<close>

definition seats_endpoint :: "bool \<Rightarrow> bool \<Rightarrow> settings \<Rightarrow> time \<Rightarrow> uuid \<Rightarrow> world \<Rightarrow> (int \<times> cseat list) result \<times> world" where
  "seats_endpoint up up_touch S now e w =
     (case read_map up up_touch (seatmap_ttl_seconds S) now e (rd_maps (w_redis w)) of
        (r, maps) \<Rightarrow> (r, w\<lparr>w_redis := (w_redis w)\<lparr>rd_maps := maps\<rparr>\<rparr>))"

text \<open>
  \<open>since\<close> against the snapshot's version; a seat without its own version would raise \<open>KeyError\<close>.
\<close>

definition deltas :: "int \<Rightarrow> (int \<times> cseat list) result \<Rightarrow> (int \<times> cseat list) result" where
  "deltas since snap = ebind snap (\<lambda>(version, seats).
     if since < 0 \<or> since > version then Inl (Failure ''INVALID_VERSION'' 422)
     else if list_ex (\<lambda>s. cs_version s = None) seats then Inl (PyError ''KeyError'')
     else Inr (version, filter (\<lambda>s. the (cs_version s) > since) seats))"

text \<open>The headers of both browse routes; a 304 has no body.\<close>

definition browse_response :: "browse_kind \<Rightarrow> nat \<times> string \<times> string option \<Rightarrow> response" where
  "browse_response kind = (\<lambda>(status, etag, body).
     \<lparr>rs_status = int status,
      rs_body = (if status = 304 then JNull else case body of None \<Rightarrow> JNull | Some b \<Rightarrow> JStr b),
      rs_headers = [(''ETag'', ''W/'' @ etag), (''Cache-Control'',
        case kind of K_layout \<Rightarrow> ''public, max-age=3600, must-revalidate'' | K_availability \<Rightarrow> ''private, no-cache'')]\<rparr>)"

definition browse_endpoint ::
  "(json \<Rightarrow> string) \<Rightarrow> (bodies \<Rightarrow> bodies) \<Rightarrow> string \<Rightarrow> bool \<Rightarrow> settings \<Rightarrow> time \<Rightarrow> uuid \<Rightarrow> browse_kind \<Rightarrow> string option \<Rightarrow>
   world \<Rightarrow> response \<times> world"
where
  "browse_endpoint enc other request_id up S now e kind validator w =
     (case browse_encoded enc 2048 (32 * 1024 * 1024) other up (seatmap_ttl_seconds S) now e kind
        (case validator of None \<Rightarrow> [] | Some v \<Rightarrow> v) (w_bodies w) (rd_maps (w_redis w)) of
        (r, b, maps) \<Rightarrow>
          (case r of Inl x \<Rightarrow> error_response request_id x | Inr ans \<Rightarrow> browse_response kind ans,
           w\<lparr>w_bodies := b, w_redis := (w_redis w)\<lparr>rd_maps := maps\<rparr>\<rparr>))"

section \<open>Reservations\<close>

text \<open>\<open>HoldInput\<close> and the \<open>Idempotency-Key\<close> header, as their models accept them.\<close>

definition hold_input :: "seat_id list \<Rightarrow> bool" where
  "hold_input seat_ids \<longleftrightarrow> 1 \<le> length seat_ids \<and> length seat_ids \<le> 8"

definition key_input :: "string \<Rightarrow> bool" where
  "key_input key \<longleftrightarrow> 1 \<le> length key \<and> length key \<le> 128"

text \<open>\<open>POST /v1/holds\<close>: 202 while a Redis-first command is not durable yet.\<close>

definition hold_body ::
  "settings \<Rightarrow> ctx \<Rightarrow> string \<Rightarrow> uuid \<Rightarrow> seat_id list \<Rightarrow> string \<Rightarrow> world \<Rightarrow> json result \<times> world"
where
  "hold_body S X who event_id seat_ids key w =
     (case rate_limit (cx_rate_up X) (cx_redis_time X) who (w_rates w) of
        (Inl x, rs) \<Rightarrow> (Inl x, w\<lparr>w_rates := rs\<rparr>)
      | (Inr _, rs) \<Rightarrow> service_reserve (store_reserve S X) who event_id seat_ids key (w\<lparr>w_rates := rs\<rparr>))"

definition hold_status_code :: "json \<Rightarrow> int" where
  "hold_status_code r = (if jget ''persistence_status'' r = Some (JStr ''PENDING'') then 202 else 201)"

definition hold_endpoint ::
  "(string \<Rightarrow> json option) \<Rightarrow> settings \<Rightarrow> ctx \<Rightarrow> string \<Rightarrow> string \<Rightarrow> uuid \<Rightarrow> seat_id list \<Rightarrow> string \<Rightarrow> world \<Rightarrow> response \<times> world"
where
  "hold_endpoint decode S X request_id credentials event_id seat_ids key w =
     (case actor_of decode credentials of
        Inl x \<Rightarrow> (error_response request_id x, w)
      | Inr who \<Rightarrow>
          if \<not> hold_input seat_ids \<or> \<not> key_input key then (validation_error request_id, w)
          else case hold_body S X who event_id seat_ids key w of
            (Inl x, w') \<Rightarrow> (error_response request_id x, w')
          | (Inr r, w') \<Rightarrow> (\<lparr>rs_status = hold_status_code r, rs_body = r, rs_headers = []\<rparr>, w'))"

text \<open>\<open>GET /v1/reservation-commands/...\<close>: only the actor's own command.\<close>

definition command_endpoint ::
  "(string \<Rightarrow> json option) \<Rightarrow> bool \<Rightarrow> time \<Rightarrow> string \<Rightarrow> string \<Rightarrow> uuid \<Rightarrow> uuid \<Rightarrow> world \<Rightarrow> response"
where
  "command_endpoint decode up rt request_id credentials event_id command_id w =
     respond request_id 200 (ebind (actor_of decode credentials) (\<lambda>who.
       intake_status up rt event_id command_id (Some who) (w_redis w)))"

text \<open>The routes that only authenticate and call the service, with their success status.\<close>

definition authenticated ::
  "(string \<Rightarrow> json option) \<Rightarrow> string \<Rightarrow> string \<Rightarrow> int \<Rightarrow> (string \<Rightarrow> db \<Rightarrow> json result \<times> db) \<Rightarrow> world \<Rightarrow> response \<times> world"
where
  "authenticated decode request_id credentials status call w =
     (case actor_of decode credentials of
        Inl x \<Rightarrow> (error_response request_id x, w)
      | Inr who \<Rightarrow> (case call who (w_db w) of (r, d) \<Rightarrow> (respond request_id status r, w\<lparr>w_db := d\<rparr>)))"

definition checkout_endpoint ::
  "(string \<Rightarrow> json option) \<Rightarrow> env \<Rightarrow> string \<Rightarrow> string \<Rightarrow> uuid \<Rightarrow> string \<Rightarrow> world \<Rightarrow> response \<times> world"
where
  "checkout_endpoint decode E request_id credentials hold_id key =
     authenticated decode request_id credentials 201 (\<lambda>who d.
       if \<not> key_input key then (Inl (Failure ''INVALID_REQUEST'' 422), d) else checkout E who hold_id key d)"

text \<open>The two read routes answer with the row itself.\<close>

definition get_hold_endpoint ::
  "(string \<Rightarrow> json option) \<Rightarrow> env \<Rightarrow> string \<Rightarrow> uuid \<Rightarrow> world \<Rightarrow> hold_row result"
where
  "get_hold_endpoint decode E credentials hold_id w =
     ebind (actor_of decode credentials) (\<lambda>who. fst (get_hold E who hold_id (w_db w)))"

definition get_order_endpoint ::
  "(string \<Rightarrow> json option) \<Rightarrow> string \<Rightarrow> uuid \<Rightarrow> world \<Rightarrow> (order_row \<times> (uuid \<times> seat_id) list) result"
where
  "get_order_endpoint decode credentials order_id w =
     ebind (actor_of decode credentials) (\<lambda>who. fst (get_order who order_id (w_db w)))"

definition release_endpoint ::
  "(string \<Rightarrow> json option) \<Rightarrow> env \<Rightarrow> string \<Rightarrow> string \<Rightarrow> uuid \<Rightarrow> world \<Rightarrow> response \<times> world"
where
  "release_endpoint decode E request_id credentials hold_id =
     authenticated decode request_id credentials 200 (\<lambda>who. release E who hold_id)"

text \<open>\<open>PaymentInput\<close> and the development guard.\<close>

definition payment_endpoint ::
  "(string \<Rightarrow> json option) \<Rightarrow> settings \<Rightarrow> env \<Rightarrow> string \<Rightarrow> string \<Rightarrow> uuid \<Rightarrow> string \<Rightarrow> string \<Rightarrow> int \<Rightarrow> int \<Rightarrow> world \<Rightarrow> response \<times> world"
where
  "payment_endpoint decode S E request_id credentials order_id key outcome delay duplicates w =
     authenticated decode request_id credentials 202 (\<lambda>who d.
       if \<not> key_input key \<or> outcome_of outcome = None \<or> \<not> (0 \<le> delay \<and> delay \<le> 600) \<or> \<not> (1 \<le> duplicates \<and> duplicates \<le> 10)
       then (Inl (Failure ''INVALID_REQUEST'' 422), d)
       else if environment S \<noteq> ''development'' then (Inl (Failure ''SIMULATOR_DISABLED'' 403), d)
       else service_initiate_payment E who order_id key outcome delay duplicates d) w"

section \<open>The payment webhook\<close>

text \<open>\<open>Callback\<close>: what the model accepts beyond the types.\<close>

definition callback_input :: "callback_payload \<Rightarrow> bool" where
  "callback_input p \<longleftrightarrow> 0 \<le> cb_amount p \<and> length (cb_currency p) = 3"

text \<open>
  \<open>hmac.compare_digest\<close> on two texts: it raises \<open>TypeError\<close> when one of them has a character
  outside ASCII.  A header value arrives decoded from Latin-1, so it may have one.
\<close>

definition compare_digest :: "string \<Rightarrow> string \<Rightarrow> bool result" where
  "compare_digest a b =
     (if list_all (\<lambda>c. of_char c < (128 :: nat)) (a @ b) then Inr (a = b) else Inl (PyError ''TypeError''))"

text \<open>The size, the age and the signature of the raw body, in this order.\<close>

definition webhook_check ::
  "(string \<Rightarrow> string \<Rightarrow> string) \<Rightarrow> settings \<Rightarrow> time \<Rightarrow> string \<Rightarrow> int \<Rightarrow> string \<Rightarrow> unit result"
where
  "webhook_check sign S now signature timestamp raw =
     (if length raw > 16384 then Inl (Failure ''PAYLOAD_TOO_LARGE'' 413)
      else if \<bar>now - timestamp * 1000000\<bar> > 300 * 1000000 then Inl (Failure ''INVALID_SIGNATURE'' 401)
      else ebind (compare_digest signature (sign (webhook_secret S) (int_str timestamp @ ''.'' @ raw))) (\<lambda>ok.
        if ok then Inr () else Inl (Failure ''INVALID_SIGNATURE'' 401)))"

text \<open>\<open>body\<close> is the parsed \<open>raw\<close>, \<open>None\<close> when it does not fit the model.\<close>

definition webhook_endpoint ::
  "(string \<Rightarrow> string \<Rightarrow> string) \<Rightarrow> settings \<Rightarrow> env \<Rightarrow> string \<Rightarrow> time \<Rightarrow> string \<Rightarrow> int \<Rightarrow> string \<Rightarrow> callback_payload option \<Rightarrow>
   world \<Rightarrow> response \<times> world"
where
  "webhook_endpoint sign S E request_id now signature timestamp raw body w =
     (case body of
        None \<Rightarrow> (validation_error request_id, w)
      | Some p \<Rightarrow>
          if \<not> callback_input p then (validation_error request_id, w)
          else case webhook_check sign S now signature timestamp raw of
            Inl x \<Rightarrow> (error_response request_id x, w)
          | Inr _ \<Rightarrow>
              (case callback E p (w_db w) of
                 (r, d) \<Rightarrow> (respond request_id 200 (map_sum id (\<lambda>st. JObj [(''status'', JStr st)]) r), w\<lparr>w_db := d\<rparr>)))"

section \<open>Health\<close>

definition alive :: json where
  "alive = JObj [(''status'', JStr ''alive'')]"

definition ready :: "bool \<Rightarrow> bool \<Rightarrow> json result" where
  "ready db_up redis_up =
     (if \<not> db_up then Inl DatabaseUnavailable
      else if \<not> redis_up then Inl (Failure ''ADMISSION_UNAVAILABLE'' 503)
      else Inr (JObj [(''status'', JStr ''ready'')]))"

end
