(* ===== verification/Worker_Facts.thy ===== *)
theory Worker_Facts
  imports Worker System Api
begin

text \<open>
  Every process of the program moves the database only along histories: whatever a worker of any
  role does in its loop, and whatever the API does for a request, is a sequence of the
  transactions that the system's invariant is proved for.
\<close>

section \<open>Histories of the workers' operations\<close>

lemma commits_history: "commits d d' \<Longrightarrow> history d d'"
  by (rule history.step [OF history.start])

lemma history_snd:
  "history d (snd (transaction (delivered_payment pid token) d))" "history d (snd (transaction (confirm_outbox E token xs) d))"
  "history d (snd (maintain_schedule E S d))" "history d (snd (complete_reconciliation E S ev token d))"
  "history d (snd (defer_reconciliation E S ev token d))" "history d (snd (return_claims evs token d))"
  by (rule commits_history; rule commits.intros; rule surjective_pairing)+

text \<open>What others do meanwhile is itself a history.\<close>

definition lawful :: "(db \<Rightarrow> db) \<Rightarrow> bool" where
  "lawful f \<longleftrightarrow> (\<forall>d. history d (f d))"

lemma publish_history:
  assumes "lawful between" and "publish_batch E E' n K between d = (r, d', sent)"
  shows "history d d'"
proof -
  obtain q d1 where c: "transaction (claim_outbox E (e_uuid E 0) n) d = (q, d1)" by (rule prod.exhaust)
  then have h1: "history d d1" by (intro commits_history commits.publish_claim)
  then have h2: "history d (between d1)" using assms(1) history_trans by (auto simp: lawful_def)
  have "history d (snd (transaction (confirm_outbox E' (e_uuid E 0) xs) (between d1)))" for xs
    using h2 history_snd(2) history_trans by blast
  then show ?thesis using assms(2) h1 h2
    by (cases q) (auto simp: publish_batch_def c Let_def split: if_splits prod.splits)
qed

lemma consume_event_error: "consume_event E envelope d = (Inl x, d') \<Longrightarrow> d' = d"
  by (auto simp: consume_event_def transaction_def split: sum.splits prod.splits)

lemma attempts_history:
  assumes "attempts Es message d = (ok, d')" and "\<forall>E\<in>set Es. ticket_ids_fresh E d"
  shows "history d d'"
  using assms
proof (induction Es message d rule: attempts.induct)
  case (2 E Es message d)
  show ?case
  proof (cases message)
    case None
    then show ?thesis using 2 by simp
  next
    case (Some envelope)
    obtain q d1 where c: "consume_event E envelope d = (q, d1)" by (rule prod.exhaust)
    show ?thesis
    proof (cases q)
      case (Inl x)
      then have "d1 = d" using c consume_event_error by blast
      then show ?thesis using 2 Some c Inl by simp
    next
      case (Inr u)
      then show ?thesis using 2(3,4) Some c by (auto intro: commits_history commits.consume)
    qed
  qed
qed (simp add: history.start)

lemma consume_message_history:
  assumes "consume_message Es E_dead up raw message d = (ok, d')" and "\<forall>n. ticket_ids_fresh (Es n) d"
  shows "history d d'"
proof -
  obtain b d1 where a: "attempts (map Es [0..<5]) message d = (b, d1)" by (rule prod.exhaust)
  then have h: "history d d1" by (rule attempts_history) (use assms(2) in auto)
  moreover have "history d d2" if "transaction (insert_dead_letter l) d1 = (q, d2)" for q d2 l
    using that h commits_history commits.dead_letter history_trans by blast
  ultimately show ?thesis
    using assms(1) a by (auto simp: consume_message_def split: bool.splits if_splits sum.splits prod.splits)
qed

lemma simulate_one_history:
  assumes "simulate_one E post d = (r, d')" and "\<forall>p. lawful (\<lambda>d. snd (post p d))"
  shows "history d d'"
proof -
  obtain q d1 where c: "transaction (claim_payment E (e_uuid E 0)) d = (q, d1)" by (rule prod.exhaust)
  then have h1: "history d d1" by (intro commits_history commits.simulate_claim)
  have h2: "history d d2" if "post p d1 = (b, d2)" for p b d2
    using that assms(2) h1 history_trans unfolding lawful_def by (metis snd_conv)
  then have "history d (snd (transaction (delivered_payment i t) d2))" if "post p d1 = (b, d2)" for p b d2 i t
    using that history_snd(1) history_trans by blast
  then show ?thesis
    using assms(1) c h1 h2 by (auto simp: simulate_one_def split: sum.splits option.splits prod.splits bool.splits)
qed

lemma simulate_batch_history:
  assumes "simulate_batch runs d = (work, errors, d')" and "\<forall>(E, post)\<in>set runs. \<forall>p. lawful (\<lambda>d. snd (post p d))"
  shows "history d d'"
  using assms
proof (induction runs d arbitrary: work errors d' rule: simulate_batch.induct)
  case (2 E post runs d)
  obtain r d1 where o: "simulate_one E post d = (r, d1)" by (rule prod.exhaust)
  obtain w e d2 where b: "simulate_batch runs d1 = (w, e, d2)" by (metis prod.exhaust)
  have "history d d1" by (rule simulate_one_history [OF o]) (use 2(3) in auto)
  moreover have "history d1 d2" by (rule 2(1) [OF o [symmetric] b]) (use 2(3) in auto)
  moreover have "d' = d2" using 2(2) o b by (auto split: sum.splits)
  ultimately show ?case using history_trans by blast
qed (simp add: history.start)

lemma persist_message_history:
  assumes "persist_message E C rt m (d, rd) = (r, d', rd')"
  shows "history d d'"
proof -
  obtain stream e where m: "m = (stream, e)" by (rule prod.exhaust)
  obtain q d1 where p: "persist_reservation_command E (se_payload e) (se_response e) d = (q, d1)" by (rule prod.exhaust)
  have "d' = d1" using assms p
    by (auto simp: persist_message_def m Let_def split: sum.splits exc.splits prod.splits if_splits)
  then show ?thesis using p by (auto intro: commits_history commits.persist)
qed

lemma persist_messages_history: "persist_messages Es C rt ms s = (r, s') \<Longrightarrow> history (fst s) (fst s')"
proof (induction Es C rt ms s rule: persist_messages.induct)
  case (1 E Es C rt m ms s)
  obtain q s1 where p: "persist_message E C rt m s = (q, s1)" by (rule prod.exhaust)
  then have h: "history (fst s) (fst s1)" using persist_message_history [of E C rt m "fst s" "snd s" q "fst s1" "snd s1"] by simp
  show ?case
  proof (cases q)
    case (Inl x)
    then show ?thesis using 1(2) p h by simp
  next
    case (Inr u)
    then have "history (fst s1) (fst s')" using 1 p by simp
    with h show ?thesis by (rule history_trans)
  qed
qed (auto simp: history.start)

lemma refresh_history:
  assumes "lawful between" and "refresh_batch E E' n c C D between d maps = (r, d', maps')"
  shows "history d d'"
proof -
  obtain q d1 where c: "transaction (claim_refresh E (e_uuid E 0) n) d = (q, d1)" by (rule prod.exhaust)
  then have h1: "history d d1" by (intro commits_history commits.refresh_claim)
  then have h2: "history d (between d1)" using assms(1) history_trans by (auto simp: lawful_def)
  have h3: "history d d2" if "transaction (complete_rows E' t c n rows) (between d1) = (u, d2)" for t n rows u d2
    using that h2 commits_history commits.refresh_done history_trans by blast
  show ?thesis using assms(2) h1 h2
    by (cases q) (auto simp: refresh_batch_def c dest: h3 split: if_splits prod.splits sum.splits list.splits)
qed

lemma reconcile_event_history: "history d (fst (reconcile_event S T token e (d, maps)))"
  by (auto simp: reconcile_event_def history_snd history.start split: prod.splits sum.splits)

lemma reconcile_events_history:
  assumes "reconcile_events S T token es s = (r, s')" and "\<forall>e. lawful (tn_before (T e))"
  shows "history (fst s) (fst s')"
  using assms
proof (induction S T token es s arbitrary: r s' rule: reconcile_events.induct)
  case (2 S T token e es d maps)
  let ?d1 = "tn_before (T e) d" and ?s1 = "reconcile_event S (T e) token e (tn_before (T e) d, maps)"
  have h1: "history d ?d1" using 2(3) by (auto simp: lawful_def)
  show ?case
  proof (cases "tn_late (T e)")
    case True
    then show ?thesis using 2(2) h1 history_trans [OF h1 history_snd(6)] by (auto simp: Let_def split: if_splits)
  next
    case False
    obtain q s2 where q: "reconcile_events S T token es ?s1 = (q, s2)" by (rule prod.exhaust)
    then have "s' = s2" using 2(2) False by (simp add: Let_def)
    moreover have "history (fst ?s1) (fst s2)" by (rule 2(1) [OF refl False q 2(3)])
    moreover have "history d (fst ?s1)" using history_trans [OF h1 reconcile_event_history] .
    ultimately show ?thesis using history_trans by auto
  qed
qed (auto simp: history.start)

lemma reconcile_batch_history:
  assumes "reconcile_batch E S T s = (r, s')" and "\<forall>e. lawful (tn_before (T e))"
  shows "history (fst s) (fst s')"
proof -
  obtain d maps where s: "s = (d, maps)" by (rule prod.exhaust)
  obtain q d1 where c: "claim_due_events E S d = (q, d1)" by (rule prod.exhaust)
  then have h: "history d d1" by (intro commits_history commits.reconcile_claim)
  show ?thesis
  proof (cases q)
    case (Inl x)
    then show ?thesis using assms(1) h by (auto simp: reconcile_batch_def s c)
  next
    case (Inr y)
    then obtain token es n where "reconcile_events S T token es (d1, maps) = (r, s')"
      using assms(1) by (cases y) (auto simp: reconcile_batch_def s c)
    from reconcile_events_history [OF this assms(2)] h history_trans show ?thesis by (auto simp: s)
  qed
qed

lemma reconcile_pass_history:
  assumes "reconcile_pass S rounds s = (r, s')" and "\<forall>(E, T)\<in>set rounds. \<forall>e. lawful (tn_before (T e))"
  shows "history (fst s) (fst s')"
  using assms
proof (induction S rounds s arbitrary: r s' rule: reconcile_pass.induct)
  case (2 S E T rounds s)
  obtain q s1 where b: "reconcile_batch E S T s = (q, s1)" by (rule prod.exhaust)
  have h: "history (fst s) (fst s1)" by (rule reconcile_batch_history [OF b]) (use 2(3) in auto)
  show ?case
  proof (cases "\<exists>n. q = Inr n \<and> n \<noteq> 0")
    case False
    then show ?thesis using 2(2) b h by (cases q) auto
  next
    case True
    then obtain n where n: "q = Inr n" "n \<noteq> 0" by blast
    obtain q' s2 where p: "reconcile_pass S rounds s1 = (q', s2)" by (rule prod.exhaust)
    have "history (fst s1) (fst s2)" by (rule 2(1) [OF b [symmetric] n p]) (use 2(3) in auto)
    moreover have "s' = s2" using 2(2) b n p by simp
    ultimately show ?thesis using h history_trans by blast
  qed
qed (simp add: history.start)

section \<open>Whole iterations\<close>

definition lawful_tick :: "tick \<Rightarrow> db \<Rightarrow> bool" where
  "lawful_tick T d \<longleftrightarrow> lawful (tk_between T) \<and> (\<forall>n. ticket_ids_fresh (tk_envs T n) d) \<and>
     (\<forall>(E, post)\<in>set (tk_posts T). \<forall>p. lawful (\<lambda>d. snd (post p d))) \<and>
     (\<forall>(E, X)\<in>set (tk_rounds T). \<forall>e. lawful (tn_before (X e)))"

lemma refresh_turn_history: "lawful (tk_between T) \<Longrightarrow> refresh_turn S T s = (r, s') \<Longrightarrow> history (lp_db s) (lp_db s')"
  by (auto simp: refresh_turn_def dest: refresh_history split: prod.splits)

lemma expire_turn_history: "expire_turn S E s = (r, s') \<Longrightarrow> history (lp_db s) (lp_db s')"
  by (auto simp: expire_turn_def dest!: commits.expire intro: commits_history split: prod.splits)

lemma schedule_turn_history: "history (lp_db s) (lp_db (schedule_turn S T s))"
  by (auto simp: schedule_turn_def history_snd history.start)

lemma iteration_history:
  assumes "iteration S role T s = (r, s')" and "lawful_tick T (lp_db s)"
  shows "history (lp_db s) (lp_db s')"
proof (cases role)
  case publisher
  then show ?thesis using assms by (auto simp: iteration_def lawful_tick_def dest: publish_history split: prod.splits)
next
  case consumer
  have one: "history d d'" if "consume_polled T (take 1 ms) d = (q, d')" "\<forall>n. ticket_ids_fresh (tk_envs T n) d" for ms d q d'
    using that by (cases ms) (auto dest: consume_message_history split: prod.splits bool.splits intro: history.start)
  show ?thesis using assms consumer one [of "tk_polled T" "lp_db s"] by (auto simp: iteration_def lawful_tick_def split: prod.splits)
next
  case reservation_writer
  have "history d d'" if "persist_reservation_batch Es C rt sc co n (d, rd) = (q, d', rd')" for Es C rt sc co n d rd q d' rd'
    using that persist_messages_history by (force simp: persist_reservation_batch_def split: prod.splits)
  then show ?thesis using assms reservation_writer by (auto simp: iteration_def split: prod.splits)
next
  case maintenance
  obtain q s1 where f: "refresh_turn S T s = (q, s1)" by (rule prod.exhaust)
  have h: "history (lp_db s) (lp_db s1)" by (rule refresh_turn_history [OF _ f]) (use assms(2) in \<open>simp add: lawful_tick_def\<close>)
  show ?thesis
  proof (cases q)
    case (Inl x)
    then show ?thesis using assms(1) h f maintenance by (simp add: iteration_def)
  next
    case (Inr work)
    obtain q' s2 where e: "expire_turn S (tk_env2 T) s1 = (q', s2)" by (rule prod.exhaust)
    then have "s' = s2" using assms(1) f maintenance Inr by (simp add: iteration_def)
    then show ?thesis using history_trans [OF h expire_turn_history [OF e]] by simp
  qed
next
  case refresh_role
  then show ?thesis using assms by (auto simp: iteration_def lawful_tick_def intro: refresh_turn_history)
next
  case expiry
  then show ?thesis using assms by (auto simp: iteration_def intro: expire_turn_history)
next
  case reconciler
  let ?s1 = "schedule_turn S T s"
  obtain q d maps where p: "reconcile_pass S (tk_rounds T) (lp_db ?s1, rd_maps (lp_redis ?s1)) = (q, d, maps)" by (metis prod.exhaust)
  then have "history (lp_db ?s1) d" using reconcile_pass_history [OF p] assms(2) by (simp add: lawful_tick_def)
  then have "history (lp_db s) d" using schedule_turn_history history_trans by blast
  then show ?thesis using assms(1) p reconciler by (auto simp: iteration_def Let_def)
next
  case simulator
  have sub: "\<forall>(E, post)\<in>set (take n (tk_posts T)). \<forall>p. lawful (\<lambda>d. snd (post p d))" for n
    using assms(2) unfolding lawful_tick_def by (meson in_set_takeD)
  show ?thesis using assms(1) simulator by (auto simp: iteration_def dest: simulate_batch_history [OF _ sub] split: prod.splits)
qed

text \<open>The API's requests.\<close>

lemma hold_endpoint_history:
  assumes "hold_endpoint decode S X rid cred e ids key w = (resp, w')"
  shows "history (w_db w) (w_db w')"
proof -
  have pg: "history (w_db v) (w_db v')" if "postgres_reserve S X who e ids key v = (q, v')" for who ids v q v'
    using that by (auto simp: postgres_reserve_def dest!: commits.reserve intro: commits_history split: prod.splits)
  have rf: "history (w_db v) (w_db v')" if "redis_first_reserve S X who e ids key v = (q, v')" for who ids v q v'
    using that by (auto simp: redis_first_reserve_def history.start split: prod.splits)
  have st: "history (w_db v) (w_db v')" if "service_reserve (store_reserve S X) who e ids key v = (q, v')" for who ids v q v'
    using that by (auto simp: service_reserve_def store_reserve_def history.start dest: pg rf split: if_splits)
  have "history (w_db w) (w_db v')" if "hold_body S X who e ids key w = (q, v')" for who q v'
    using that st by (fastforce simp: hold_body_def history.start split: prod.splits sum.splits)
  then show ?thesis
    using assms by (auto simp: hold_endpoint_def history.start split: sum.splits if_splits prod.splits)
qed

lemma authenticated_history:
  assumes "authenticated decode rid cred status call w = (resp, w')" and "\<And>who r d d'. call who d = (r, d') \<Longrightarrow> history d d'"
  shows "history (w_db w) (w_db w')"
  using assms(1) by (auto simp: authenticated_def history.start dest: assms(2) split: sum.splits prod.splits)

lemma command_endpoints_history:
  "checkout_endpoint decode E rid cred hid key w = (resp, w') \<Longrightarrow> history (w_db w) (w_db w')"
  "release_endpoint decode E rid cred hid w = (resp, w') \<Longrightarrow> history (w_db w) (w_db w')"
  "payment_endpoint decode S E rid cred oid key oc delay dup w = (resp, w') \<Longrightarrow> history (w_db w) (w_db w')"
  "webhook_endpoint sign S E rid now sig ts raw body w = (resp, w') \<Longrightarrow> history (w_db w) (w_db w')"
proof -
  show "checkout_endpoint decode E rid cred hid key w = (resp, w') \<Longrightarrow> history (w_db w) (w_db w')"
    unfolding checkout_endpoint_def
    by (erule authenticated_history) (auto simp: history.start dest!: commits.checkout intro: commits_history split: if_splits)
  show "release_endpoint decode E rid cred hid w = (resp, w') \<Longrightarrow> history (w_db w) (w_db w')"
    unfolding release_endpoint_def
    by (erule authenticated_history) (auto dest!: commits.release intro: commits_history)
  show "payment_endpoint decode S E rid cred oid key oc delay dup w = (resp, w') \<Longrightarrow> history (w_db w) (w_db w')"
    unfolding payment_endpoint_def
    by (erule authenticated_history)
      (auto simp: service_initiate_payment_def history.start dest!: commits.pay intro: commits_history split: if_splits option.splits)
  show "webhook_endpoint sign S E rid now sig ts raw body w = (resp, w') \<Longrightarrow> history (w_db w) (w_db w')"
    by (auto simp: webhook_endpoint_def history.start dest!: commits.callback intro: commits_history
        split: option.splits if_splits sum.splits prod.splits)
qed

section \<open>The loop\<close>

text \<open>A validated configuration never makes the expiry worker fail on its batch size.\<close>

lemma validated_expiry:
  assumes "validate S = Inr ()"
  shows "expire_batch E (expiry_batch_size S) d = transaction (expire_tx E (nat (expiry_batch_size S))) d"
  using assms by (simp add: validate_Inr checks_def in_range_def expire_batch_def)

lemma simulator_only_in_development: "start_worker S simulator = Inr () \<Longrightarrow> environment S = ''development''"
  by (auto simp: start_worker_def ebind_Inr_iff require_def split: if_splits)

text \<open>
  Property C15.  A worker's loop survives every exception and moves the database only along
  histories: however the iterations of a worker of any role end, if what others do meanwhile are
  histories and the ids it draws for tickets are new, then the database after an iteration
  still satisfies the store's invariant and has kept every seat.
\<close>

theorem worker_keeps_sales:
  assumes "iteration S role T s = (r, s')" and "lawful_tick T (lp_db s)" and "store_inv (lp_db s)"
  shows "history (lp_db s) (lp_db s') \<and> store_inv (lp_db s') \<and> seats_kept (lp_db s) (lp_db s')"
  using iteration_history [OF assms(1,2)] history_keep assms(3) by blast

definition tick_cache :: cache_env where
  "tick_cache = \<lparr>ce_now = 0, ce_uuid = ''i'', ce_sha = (\<lambda>_. ''h''), ce_ttl = 30, ce_up = True\<rparr>"

definition demo_tick :: tick where
  "demo_tick = \<lparr>tk_env = stage_env CHR ''v'' 500000000, tk_env2 = stage_env CHR ''w'' 500000000,
     tk_envs = (\<lambda>_. stage_env CHR ''x'' 500000000), tk_dead = stage_env CHR ''y'' 500000000, tk_up = True,
     tk_between = id, tk_delivery = (\<lambda>_. Acked), tk_plan = (\<lambda>_. (tick_cache, tick_cache)),
     tk_reads = (\<lambda>_. (held_db, held_db)), tk_cache = tick_cache,
     tk_redis_time = 0, tk_scanned = [], tk_consumer = ''c'', tk_posts = [], tk_polled = [], tk_rounds = [],
     tk_now = 0, tk_scheduled = 0\<rparr>"

definition demo_loop :: loop where
  "demo_loop = \<lparr>lp_next_warm = 0, lp_db = held_db, lp_redis = demo_redis\<rparr>"

text \<open>The expiry worker frees the seat of an elapsed hold.\<close>

theorem worker_keeps_sales_witness:
  "iteration default_settings expiry demo_tick demo_loop = (Inr True, snd (iteration default_settings expiry demo_tick demo_loop)) \<and>
   store_inv (lp_db (snd (iteration default_settings expiry demo_tick demo_loop)))"
proof -
  have i: "fst (iteration default_settings expiry demo_tick demo_loop) = Inr True" by code_simp
  have "tickets held_db = []" by code_simp
  then have "lawful_tick demo_tick (lp_db demo_loop)"
    using stage_env_fresh by (simp add: ticket_ids_fresh_def lawful_tick_def demo_tick_def demo_loop_def lawful_def history.start)
  then have "store_inv (lp_db (snd (iteration default_settings expiry demo_tick demo_loop)))"
    using worker_keeps_sales [OF surjective_pairing] held_inv by (simp add: demo_loop_def)
  then show ?thesis using i by (simp add: prod_eq_iff)
qed

end
