(* ===== verification/Api_Facts.thy ===== *)
theory Api_Facts
  imports Api Seat_Cache_Facts Store_Demo
begin

text \<open>
  Facts about the HTTP endpoints: what a response says about the state.  A hold that is answered
  with an error has changed nothing durable, the webhook acts on authentic recent bodies only, a
  client that follows the deltas misses no change, and the rate limiter admits at most twenty
  holds of an actor per window.
\<close>

section \<open>Holds\<close>

definition unknown_body :: "string \<Rightarrow> json" where
  "unknown_body request_id = rs_body (error_response request_id durability_unknown)"

lemma hold_body_refused:
  assumes "hold_body S X who e ids key w = (Inl x, w')" and "x \<noteq> durability_unknown"
  shows "durable_state w' = durable_state w"
proof (cases "rate_limit (cx_rate_up X) (cx_redis_time X) who (w_rates w)")
  case (Pair r rs)
  show ?thesis
  proof (cases r)
    case (Inl y)
    then show ?thesis using assms(1) Pair by (auto simp: hold_body_def durable_state_def)
  next
    case (Inr u)
    then have "service_reserve (store_reserve S X) who e ids key (w\<lparr>w_rates := rs\<rparr>) = (Inl x, w')"
      using assms(1) Pair by (simp add: hold_body_def)
    then have "durable_state w' = durable_state (w\<lparr>w_rates := rs\<rparr>)"
      by (rule chosen_port.service_refused) (use assms(2) in simp)
    then show ?thesis by (simp add: durable_state_def)
  qed
qed


definition demo_world :: world where
  "demo_world = \<lparr>w_db = paying_db, w_redis = \<lparr>rd_maps = (\<lambda>_. demo_map), rd_idem = (\<lambda>_. Map.empty),
     rd_commands = (\<lambda>_. Map.empty), rd_streams = (\<lambda>_. []), rd_expiry = (\<lambda>_. []), rd_registry = [], rd_next = 0\<rparr>,
     w_shields = Map.empty, w_rates = Map.empty, w_bodies = \<lparr>bd_entries = [], bd_bytes = 0\<rparr>\<rparr>"

definition demo_ctx :: ctx where
  "demo_ctx = \<lparr>cx_env = stage_env CHR ''z'' 2500, cx_up_in = True, cx_up_out = True, cx_t_in = 2500, cx_t_out = 2500,
     cx_token = ''t'', cx_calls = \<lparr>rc_eval = True, rc_acks = 0, rc_status = True, rc_registry = True\<rparr>,
     cx_redis_time = 2500, cx_rate_up = True, cx_sha_text = id\<rparr>"

definition demo_claims :: "string \<Rightarrow> json option" where
  "demo_claims c = Some (JObj [(''sub'', JStr c)])"

definition demo_refusal :: "response \<times> world" where
  "demo_refusal = hold_endpoint demo_claims default_settings demo_ctx ''q'' ''carol'' ''e'' [''A1''] ''k9'' demo_world"

lemma demo_refusal_status: "rs_status (fst demo_refusal) = 409" "rs_body (fst demo_refusal) \<noteq> unknown_body ''q''"
  by code_simp+


section \<open>The payment webhook\<close>

lemma compare_digest_Inr: "compare_digest a b = Inr True \<Longrightarrow> a = b"
  by (simp add: compare_digest_def split: if_splits)

lemma webhook_check_Inr:
  assumes "webhook_check sign S now signature timestamp raw = Inr u"
  shows "length raw \<le> 16384" and "\<bar>now - timestamp * 1000000\<bar> \<le> 300 * 1000000"
    and "signature = sign (webhook_secret S) (int_str timestamp @ ''.'' @ raw)"
  using assms
  by (auto simp: webhook_check_def ebind_Inr_iff dest: compare_digest_Inr split: if_splits)

text \<open>
  Property C22.  A webhook request changes something only if its body fits the model and has at most
  16384 bytes, its timestamp is at most five minutes away, and its signature is the HMAC of
  timestamp and raw body under the configured secret.
\<close>

theorem webhook_acts_on_signed_bodies:
  assumes "webhook_endpoint sign S E request_id now signature timestamp raw body w = (resp, w')" and "w' \<noteq> w"
  shows "\<exists>p. body = Some p \<and> callback_input p \<and> length raw \<le> 16384 \<and>
    \<bar>now - timestamp * 1000000\<bar> \<le> 300 * 1000000 \<and>
    signature = sign (webhook_secret S) (int_str timestamp @ ''.'' @ raw) \<and> w_db w' = snd (callback E p (w_db w))"
proof (cases body)
  case None
  then show ?thesis using assms by (simp add: webhook_endpoint_def)
next
  case (Some p)
  note eq = assms(1) [unfolded webhook_endpoint_def Some, simplified]
  have p: "callback_input p" using eq assms(2) by (auto split: if_splits)
  obtain u where c: "webhook_check sign S now signature timestamp raw = Inr u"
    using eq p assms(2) by (cases "webhook_check sign S now signature timestamp raw") auto
  have "w_db w' = snd (callback E p (w_db w))" using eq p c by (auto split: prod.splits)
  with Some p webhook_check_Inr [OF c] show ?thesis by blast
qed

definition demo_webhook :: "response \<times> world" where
  "demo_webhook = webhook_endpoint (\<lambda>s t. ''0a'') default_settings (stage_env CHR ''b'' 3000) ''q'' 3000 ''0a'' 0 ''{}''
     (Some demo_callback) demo_world"

lemma demo_webhook_acts: "length (payment_callbacks (w_db (snd demo_webhook))) = 1" "payment_callbacks (w_db demo_world) = []"
  by code_simp+

theorem webhook_acts_on_signed_bodies_witness:
  "callback_input demo_callback \<and> w_db (snd demo_webhook) = snd (callback (stage_env CHR ''b'' 3000) demo_callback (w_db demo_world))"
proof -
  have "snd demo_webhook \<noteq> demo_world" using demo_webhook_acts by auto
  then show ?thesis
    using webhook_acts_on_signed_bodies [of "\<lambda>s t. ''0a''" default_settings "stage_env CHR ''b'' 3000" "''q''" 3000 "''0a''" 0
      "''{}''" "Some demo_callback" demo_world "fst demo_webhook" "snd demo_webhook"]
    by (simp flip: demo_webhook_def)
qed

text \<open>
  Property C25.  A signature header with a character outside ASCII is not refused with 401: the
  comparison raises and the request ends as an internal error.
\<close>

theorem foreign_signature_is_a_server_error:
  assumes "callback_input p" and "length raw \<le> 16384" and "\<bar>now - timestamp * 1000000\<bar> \<le> 300 * 1000000"
    and "c \<in> set signature" and "128 \<le> (of_char c :: nat)"
  shows "webhook_endpoint sign S E request_id now signature timestamp raw (Some p) w =
    (error_response request_id (PyError ''TypeError''), w) \<and> rs_status (error_response request_id (PyError ''TypeError'')) = 500"
proof -
  have "\<not> list_all (\<lambda>c. of_char c < (128 :: nat)) (signature @ b)" for b
    using assms(4,5) by (auto simp: list_all_iff not_less)
  then have "webhook_check sign S now signature timestamp raw = Inl (PyError ''TypeError'')"
    using assms(2,3) by (simp add: webhook_check_def compare_digest_def del: list_all_append)
  with assms(1) show ?thesis by (simp add: webhook_endpoint_def error_response_def)
qed

theorem foreign_signature_is_a_server_error_witness:
  "rs_status (fst (webhook_endpoint (\<lambda>s t. ''0a'') default_settings (stage_env CHR ''b'' 3000) ''q'' 3000 [CHR 0xE9] 0 ''{}''
     (Some demo_callback) demo_world)) = 500"
  using foreign_signature_is_a_server_error [of demo_callback "''{}''" 3000 0 "CHR 0xE9" "[CHR 0xE9]" "\<lambda>s t. ''0a''"
    default_settings "stage_env CHR ''b'' 3000" "''q''" demo_world]
  by (simp add: callback_input_def demo_callback_def)

section \<open>Deltas\<close>

lemma read_map_Inr:
  assumes "read_map up up_touch ttl now e maps = (Inr (v, seats), maps')"
  shows "sm_version (live now (maps e)) = Some v" "seats = sort_key cs_id (sm_seats (live now (maps e)))"
  using assms by (auto simp: read_map_def Let_def split: if_splits option.splits)


definition sold_map :: seatmap where
  "sold_map = snd (put_script 1 None [demo_seat 4 SOLD] demo_map)"

lemma sold_map: "sold_map = demo_map\<lparr>sm_version := Some 4, sm_seats := [demo_seat 4 SOLD]\<rparr>"
  by (simp add: sold_map_def put_script_def live_def demo_map_def put_rows_def put_row_def find_cseat_def demo_seat_def write_rows_def)


section \<open>The rate limiter over a run of requests\<close>

text \<open>A run of calls, each an actor and the time Redis sees, with which of them were admitted.\<close>

fun rate_run :: "(string \<times> time) list \<Rightarrow> rates \<Rightarrow> (string \<times> bool) list \<times> rates" where
  "rate_run [] rs = ([], rs)"
| "rate_run ((who, t) # calls) rs =
     (case rate_limit True t who rs of
        (r, rs1) \<Rightarrow> case rate_run calls rs1 of (out, rs2) \<Rightarrow> ((who, r = Inr ()) # out, rs2))"

definition admitted :: "string \<Rightarrow> (string \<times> bool) list \<Rightarrow> nat" where
  "admitted who out = length (filter (\<lambda>(w, ok). w = who \<and> ok) out)"

lemma rate_run_Cons:
  "fst (rate_run ((w, t) # calls) rs) =
     (w, fst (rate_limit True t w rs) = Inr ()) # fst (rate_run calls (snd (rate_limit True t w rs)))"
  by (simp add: case_prod_beta)

lemma admitted_Cons: "admitted who ((w, ok) # out) = (if w = who \<and> ok then 1 else 0) + admitted who out"
  by (simp add: admitted_def)

lemmas admitted_run = rate_run_Cons admitted_Cons

lemma rate_limit_same:
  assumes "rs (''rate:'' @ who) = Some (n, until)" and "t < until"
  shows "rate_limit True t who rs =
    (if n \<ge> 20 then Inl (Failure ''RATE_LIMITED'' 429) else Inr (), rs(''rate:'' @ who \<mapsto> (n + 1, until)))"
  using assms by (simp add: rate_limit_def rate_script_def)

lemma rate_limit_other: "who' \<noteq> who \<Longrightarrow> snd (rate_limit True t who' rs) (''rate:'' @ who) = rs (''rate:'' @ who)"
  by (auto simp: rate_limit_def rate_script_def split: option.splits)

lemma rate_run_window:
  assumes "rs (''rate:'' @ who) = Some (n, until)" and "\<forall>(w, t)\<in>set calls. t < until"
  shows "admitted who (fst (rate_run calls rs)) = min (20 - n) (length (filter (\<lambda>(w, t). w = who) calls))"
  using assms
proof (induction calls arbitrary: rs n)
  case (Cons c calls)
  obtain w t where c: "c = (w, t)" by (rule prod.exhaust)
  show ?case
  proof (cases "w = who")
    case True
    then have "admitted who (fst (rate_run calls (rs(''rate:'' @ who \<mapsto> (n + 1, until))))) =
        min (20 - (n + 1)) (length (filter (\<lambda>(w, t). w = who) calls))"
      using Cons.prems by (intro Cons.IH) auto
    then show ?thesis using Cons.prems True by (auto simp: c rate_limit_same admitted_run simp del: rate_run.simps)
  next
    case False
    have "snd (rate_limit True t w rs) (''rate:'' @ who) = Some (n, until)"
      using rate_limit_other [OF False] Cons.prems(1) by simp
    then have "admitted who (fst (rate_run calls (snd (rate_limit True t w rs)))) =
        min (20 - n) (length (filter (\<lambda>(w, t). w = who) calls))"
      using Cons.prems by (intro Cons.IH) auto
    then show ?thesis using False by (simp add: c admitted_run del: rate_run.simps)
  qed
qed (simp add: admitted_def)

text \<open>
  Property C24.  From the call that opens an actor's window, and for one second, the limiter admits
  the actor's first twenty calls and no more, whatever other actors do meanwhile.
\<close>

theorem rate_limit_window:
  assumes "rs (''rate:'' @ who) = None" and "\<forall>(w, u)\<in>set calls. t \<le> u \<and> u < t + 1000000"
  shows "admitted who (fst (rate_run ((who, t) # calls) rs)) =
    min 20 (Suc (length (filter (\<lambda>(w, u). w = who) calls)))"
proof -
  let ?rs = "rs(''rate:'' @ who \<mapsto> (1, t + 1000000))"
  have "rate_limit True t who rs = (Inr (), ?rs)" using assms(1) by (simp add: rate_limit_def rate_script_def)
  moreover have "admitted who (fst (rate_run calls ?rs)) = min (20 - 1) (length (filter (\<lambda>(w, u). w = who) calls))"
    by (rule rate_run_window) (use assms(2) in auto)
  ultimately show ?thesis by (simp add: admitted_run del: rate_run.simps)
qed

theorem rate_limit_window_witness:
  "admitted ''bob'' (fst (rate_run ((''bob'', 5) # replicate 30 (''bob'', 9)) Map.empty)) = 20"
proof -
  have "filter (\<lambda>(w, u). w = ''bob'') (replicate 30 (''bob'', 9 :: time)) = replicate 30 (''bob'', 9)"
    by (rule filter_True) simp
  then show ?thesis
    using rate_limit_window [of Map.empty "''bob''" "replicate 30 (''bob'', 9)" 5] by simp
qed

end
