(* ===== verification/Http.thy ===== *)
theory Http
  imports Config
begin

text \<open>
  The request middleware (\<open>http.py\<close>): admission of hold requests, the table of connections, and
  one log line per request.  \<open>RequestInstrumentation.__call__\<close> is one coroutine per request; its
  parts between two suspension points are the functions below, and \<open>step\<close> interleaves the parts of
  all requests of a process.  Times are in microseconds.
\<close>

section \<open>The connection table\<close>

record conn_entry =
  ce_first_seen :: time
  ce_last_seen :: time

text \<open>\<open>_connection_state\<close>, an ordered dictionary: oldest insertion first.\<close>

type_synonym conn_table = "(string \<times> conn_entry) list"

definition CONNECTION_STATE_MAX :: nat where
  "CONNECTION_STATE_MAX = 16384"

definition CONNECTION_STATE_IDLE :: time where
  "CONNECTION_STATE_IDLE = 120 * 1000000"

fun evict_conns :: "time \<Rightarrow> conn_table \<Rightarrow> conn_table" where
  "evict_conns idle_cutoff [] = []"
| "evict_conns idle_cutoff ((k, oldest) # cs) =
     (if length ((k, oldest) # cs) \<le> CONNECTION_STATE_MAX \<and> ce_last_seen oldest \<ge> idle_cutoff
      then (k, oldest) # cs else evict_conns idle_cutoff cs)"

definition pop_conn :: "string \<Rightarrow> conn_table \<Rightarrow> conn_table" where
  "pop_conn key cs = filter (\<lambda>c. fst c \<noteq> key) cs"

text \<open>The entry of a request's connection, whether it is new, and the table after it.\<close>

definition touch_conn :: "time \<Rightarrow> string \<Rightarrow> conn_table \<Rightarrow> conn_entry \<times> bool \<times> conn_table" where
  "touch_conn now key cs =
     (let (entry, recreated) =
        (case map_of cs key of
           None \<Rightarrow> (\<lparr>ce_first_seen = now, ce_last_seen = now\<rparr>, True)
         | Some e \<Rightarrow> (e\<lparr>ce_last_seen := now\<rparr>, False)) in
      (entry, recreated, evict_conns (now - CONNECTION_STATE_IDLE) (pop_conn key cs @ [(key, entry)])))"

section \<open>One request\<close>

datatype close_reason = client_disconnect | server_send_error

record request =
  rq_id :: string
  rq_reservation :: bool
  rq_key :: string
  rq_occupancy :: int
  rq_limit :: int
  rq_rejected :: bool
  rq_admitted :: bool
  rq_sent :: bool
  rq_close :: "close_reason option"
  rq_recreated :: bool
  rq_age :: time
  rq_error :: "string option"

record log_line =
  lg_request :: string
  lg_status :: "int option"
  lg_error :: "string option"
  lg_recreated :: bool
  lg_age :: time
  lg_close :: "close_reason option"
  lg_hold :: "(int \<times> int) option"

text \<open>
  What the requests of a process share: the counter \<open>reserve_inflight\<close>, the connection table, and
  what has been reported to metrics and log.
\<close>

record mw =
  mw_inflight :: int
  mw_conns :: conn_table
  mw_gauge :: int
  mw_admitted :: nat
  mw_rejected :: nat
  mw_requests :: nat
  mw_closes :: "close_reason list"
  mw_logs :: "log_line list"

definition empty_mw :: mw where
  "empty_mw = \<lparr>mw_inflight = 0, mw_conns = [], mw_gauge = 0, mw_admitted = 0, mw_rejected = 0,
     mw_requests = 0, mw_closes = [], mw_logs = []\<rparr>"

text \<open>
  From the arrival up to the first suspension: the connection, then the admission.  A refused
  request goes on to send its own 503, an accepted one enters the application.
\<close>

definition arrive :: "settings \<Rightarrow> time \<Rightarrow> string \<Rightarrow> string \<Rightarrow> bool \<Rightarrow> mw \<Rightarrow> request \<times> mw" where
  "arrive S now request_id key reservation m =
     (let limit = hold_admission_limit S;
          (entry, recreated, conns) = touch_conn now key (mw_conns m);
          m = m\<lparr>mw_conns := conns\<rparr>;
          rq = \<lparr>rq_id = request_id, rq_reservation = reservation, rq_key = key, rq_occupancy = mw_inflight m,
            rq_limit = limit, rq_rejected = False, rq_admitted = False, rq_sent = False, rq_close = None,
            rq_recreated = recreated, rq_age = now - ce_first_seen entry, rq_error = None\<rparr> in
      if reservation \<and> mw_inflight m \<ge> limit
      then (rq\<lparr>rq_rejected := True, rq_error := Some ''ADMISSION_FULL''\<rparr>, m\<lparr>mw_rejected := mw_rejected m + 1\<rparr>)
      else if reservation
      then (rq\<lparr>rq_admitted := True\<rparr>,
        m\<lparr>mw_inflight := mw_inflight m + 1, mw_gauge := mw_inflight m + 1, mw_admitted := mw_admitted m + 1\<rparr>)
      else (rq, m))"

text \<open>\<open>release\<close>: the slot goes back once, whoever calls first.\<close>

definition release_slot :: "request \<Rightarrow> mw \<Rightarrow> request \<times> mw" where
  "release_slot rq m =
     (if rq_admitted rq
      then (rq\<lparr>rq_admitted := False\<rparr>, m\<lparr>mw_inflight := mw_inflight m - 1, mw_gauge := mw_inflight m - 1\<rparr>)
      else (rq, m))"

definition mark_close :: "close_reason \<Rightarrow> request \<Rightarrow> request" where
  "mark_close reason rq = (if rq_close rq = None then rq\<lparr>rq_close := Some reason\<rparr> else rq)"

definition log_of :: "request \<Rightarrow> int option \<Rightarrow> log_line" where
  "log_of rq status = \<lparr>lg_request = rq_id rq, lg_status = status, lg_error = rq_error rq,
     lg_recreated = rq_recreated rq, lg_age = rq_age rq, lg_close = rq_close rq,
     lg_hold = (if rq_reservation rq then Some (rq_occupancy rq, rq_limit rq) else None)\<rparr>"

text \<open>The close counter and the log line, the same on both paths.\<close>

definition report :: "request \<Rightarrow> int option \<Rightarrow> mw \<Rightarrow> mw" where
  "report rq status m = m\<lparr>mw_closes := (case rq_close rq of None \<Rightarrow> mw_closes m | Some r \<Rightarrow> mw_closes m @ [r]),
     mw_logs := mw_logs m @ [log_of rq status]\<rparr>"

text \<open>\<open>observed_receive\<close> and \<open>observed_send\<close>; \<open>sent\<close> is whether \<open>send\<close> went through.\<close>

definition observed_receive :: "bool \<Rightarrow> request \<Rightarrow> request" where
  "observed_receive disconnect rq = (if disconnect then mark_close client_disconnect rq else rq)"

definition observed_start :: "int \<Rightarrow> request \<Rightarrow> mw \<Rightarrow> request \<times> mw" where
  "observed_start status rq m =
     (let (rq, m) = release_slot (rq\<lparr>rq_sent := True\<rparr>) m in
      (rq, report rq (Some status) (m\<lparr>mw_requests := mw_requests m + 1\<rparr>)))"

definition observed_send :: "int option \<Rightarrow> bool \<Rightarrow> request \<Rightarrow> mw \<Rightarrow> request \<times> mw" where
  "observed_send start sent rq m =
     (let (rq, m) = (case start of None \<Rightarrow> (rq, m) | Some status \<Rightarrow> observed_start status rq m) in
      (if sent then rq else mark_close server_send_error rq, m))"

text \<open>The \<open>finally\<close> block.\<close>

definition finish :: "time \<Rightarrow> request \<Rightarrow> mw \<Rightarrow> mw" where
  "finish now rq m =
     (let (rq, m) = release_slot rq m;
          m = (if rq_sent rq then m else report rq None m) in
      case rq_close rq of
        Some _ \<Rightarrow> m\<lparr>mw_conns := pop_conn (rq_key rq) (mw_conns m)\<rparr>
      | None \<Rightarrow> m\<lparr>mw_conns := map (\<lambda>(k, e). (k, if k = rq_key rq then e\<lparr>ce_last_seen := now\<rparr> else e)) (mw_conns m)\<rparr>)"

section \<open>All requests of a process\<close>

text \<open>
  The state: what is shared, the requests that are running, and the identifiers seen so far
  (each \<open>uuid4\<close> is new).  The application sends the head of its response at most once; a refused
  request sends a 503.
\<close>

record server =
  sv_mw :: mw
  sv_running :: "request list"
  sv_seen :: "string list"

inductive step :: "settings \<Rightarrow> server \<Rightarrow> server \<Rightarrow> bool" for S where
  arrival: "request_id \<notin> set (sv_seen s) \<Longrightarrow> arrive S now request_id key reservation (sv_mw s) = (rq, m) \<Longrightarrow>
    step S s \<lparr>sv_mw = m, sv_running = sv_running s @ [rq], sv_seen = request_id # sv_seen s\<rparr>"
| receive: "sv_running s = as @ rq # bs \<Longrightarrow>
    step S s (s\<lparr>sv_running := as @ observed_receive disconnect rq # bs\<rparr>)"
| send: "sv_running s = as @ rq # bs \<Longrightarrow> (start \<noteq> None \<longrightarrow> \<not> rq_sent rq) \<Longrightarrow>
    (start \<noteq> None \<and> rq_rejected rq \<longrightarrow> start = Some 503) \<Longrightarrow> observed_send start sent rq (sv_mw s) = (rq', m) \<Longrightarrow>
    step S s (s\<lparr>sv_mw := m, sv_running := as @ rq' # bs\<rparr>)"
| return: "sv_running s = as @ rq # bs \<Longrightarrow>
    step S s (s\<lparr>sv_mw := finish now rq (sv_mw s), sv_running := as @ bs\<rparr>)"

inductive reachable :: "settings \<Rightarrow> server \<Rightarrow> bool" for S where
  boot: "reachable S \<lparr>sv_mw = empty_mw, sv_running = [], sv_seen = []\<rparr>"
| later: "reachable S s \<Longrightarrow> step S s s' \<Longrightarrow> reachable S s'"

end
