(* ===== verification/Http_Facts.thy ===== *)
theory Http_Facts
  imports Http
begin

text \<open>
  Facts about the middleware: the number of admitted holds is counted exactly and stays within the
  limit, every request is logged once, and the connection table is bounded and keeps the
  connection it was touched for.
\<close>

section \<open>The connection table\<close>

lemma evict_suffix: "\<exists>ds. cs = ds @ evict_conns t cs"
proof (induction t cs rule: evict_conns.induct)
  case (2 t k oldest cs)
  then show ?case by (cases "length ((k, oldest) # cs) \<le> CONNECTION_STATE_MAX \<and> t \<le> ce_last_seen oldest") (auto intro: exI [of _ "[]"] exI [of _ "(k, oldest) # ds" for ds])
qed simp

lemma evict_length: "length (evict_conns t cs) \<le> CONNECTION_STATE_MAX"
  by (induction t cs rule: evict_conns.induct) auto

lemma evict_head: "evict_conns t cs = (k, e) # ds \<Longrightarrow> t \<le> ce_last_seen e"
  by (induction t cs rule: evict_conns.induct) (auto split: if_splits)

lemma evict_last:
  assumes "t \<le> ce_last_seen e"
  shows "\<exists>ds. evict_conns t (cs @ [(k, e)]) = ds @ [(k, e)]"
  using assms by (induction cs) (auto simp: CONNECTION_STATE_MAX_def)

lemma map_of_pop: "map_of (pop_conn key cs) k = (if k = key then None else map_of cs k)"
  by (induction cs) (auto simp: pop_conn_def)

text \<open>
  Fact.  Touching a connection always ends with a table of at most 16384 entries whose
  newest is this connection's, with the time it was first seen and now as its last use; the oldest entry
  was used in the last two minutes, and every other entry is an unchanged one from before.
\<close>

theorem connection_table_bounded:
  assumes "touch_conn now key cs = (entry, recreated, cs')"
  shows "length cs' \<le> 16384 \<and> last cs' = (key, entry) \<and> cs' \<noteq> [] \<and> now - 120 * 1000000 \<le> ce_last_seen (snd (hd cs')) \<and>
    ce_last_seen entry = now \<and> ce_first_seen entry = (case map_of cs key of None \<Rightarrow> now | Some e \<Rightarrow> ce_first_seen e) \<and>
    (\<forall>c\<in>set (butlast cs'). c \<in> set cs \<and> fst c \<noteq> key)"
proof -
  let ?t = "now - CONNECTION_STATE_IDLE" and ?cs = "pop_conn key cs @ [(key, entry)]"
  have cs': "cs' = evict_conns ?t ?cs" and e: "ce_last_seen entry = now"
    "ce_first_seen entry = (case map_of cs key of None \<Rightarrow> now | Some e \<Rightarrow> ce_first_seen e)"
    using assms by (auto simp: touch_conn_def Let_def split: option.splits)
  obtain ds where ds: "cs' = ds @ [(key, entry)]"
    using evict_last [of ?t entry "pop_conn key cs" key] e(1) by (auto simp: cs' CONNECTION_STATE_IDLE_def)
  obtain as where "?cs = as @ cs'" using evict_suffix [of ?cs ?t] by (auto simp: cs')
  then have "set ds \<subseteq> set (pop_conn key cs)" by (simp add: ds)
  then have "\<forall>c\<in>set (butlast cs'). c \<in> set cs \<and> fst c \<noteq> key" by (auto simp: ds pop_conn_def)
  moreover have "now - 120 * 1000000 \<le> ce_last_seen (snd (hd cs'))"
    using evict_head [of ?t ?cs "fst (hd cs')" "snd (hd cs')" "tl cs'", folded cs'] ds
    by (cases cs') (auto simp: CONNECTION_STATE_IDLE_def)
  ultimately show ?thesis
    using e ds evict_length [of ?t ?cs] by (simp add: cs' [symmetric] CONNECTION_STATE_MAX_def)
qed

definition idle_table :: conn_table where
  "idle_table = [(''a'', \<lparr>ce_first_seen = 0, ce_last_seen = 0\<rparr>), (''b'', \<lparr>ce_first_seen = 7, ce_last_seen = 90000000\<rparr>)]"

theorem connection_table_bounded_witness:
  "snd (snd (touch_conn 200000000 ''b'' idle_table)) = [(''b'', \<lparr>ce_first_seen = 7, ce_last_seen = 200000000\<rparr>)] \<and>
   length (snd (snd (touch_conn 200000000 ''b'' idle_table))) \<le> 16384"
proof -
  let ?x = "touch_conn 200000000 ''b'' idle_table"
  have "snd (snd ?x) = [(''b'', \<lparr>ce_first_seen = 7, ce_last_seen = 200000000\<rparr>)]"
    by (simp add: touch_conn_def idle_table_def pop_conn_def CONNECTION_STATE_IDLE_def CONNECTION_STATE_MAX_def)
  then show ?thesis using connection_table_bounded [of 200000000 "''b''" idle_table "fst ?x" "fst (snd ?x)" "snd (snd ?x)"] by simp
qed

section \<open>Admission\<close>

definition admitted_of :: "request list \<Rightarrow> int" where
  "admitted_of rqs = int (length (filter rq_admitted rqs))"

definition pending :: "request list \<Rightarrow> string set" where
  "pending rqs = rq_id ` {rq \<in> set rqs. \<not> rq_sent rq}"

text \<open>
  The invariant: the counter and its gauge are the admitted requests, within the limit; identifiers
  are used once; a request has a log line exactly if it has sent its head or is over.
\<close>

definition server_ok :: "settings \<Rightarrow> server \<Rightarrow> bool" where
  "server_ok S s \<longleftrightarrow>
     mw_inflight (sv_mw s) = admitted_of (sv_running s) \<and> mw_gauge (sv_mw s) = mw_inflight (sv_mw s) \<and>
     mw_inflight (sv_mw s) \<le> max 0 (hold_admission_limit S) \<and>
     distinct (map rq_id (sv_running s)) \<and> set (map rq_id (sv_running s)) \<subseteq> set (sv_seen s) \<and>
     distinct (map lg_request (mw_logs (sv_mw s))) \<and>
     set (map lg_request (mw_logs (sv_mw s))) =
       set (sv_seen s) - pending (sv_running s)"

lemma admitted_of_simps [simp]:
  "admitted_of [] = 0" "admitted_of (rq # rqs) = (if rq_admitted rq then 1 else 0) + admitted_of rqs"
  "admitted_of (as @ bs) = admitted_of as + admitted_of bs"
  by (simp_all add: admitted_of_def)

lemma pending_simps [simp]:
  "pending [] = {}" "pending (rq # rqs) = (if rq_sent rq then pending rqs else insert (rq_id rq) (pending rqs))"
  "pending (as @ bs) = pending as \<union> pending bs"
  by (auto simp: pending_def)

lemma pending_subset: "i \<in> pending rqs \<Longrightarrow> i \<in> rq_id ` set rqs"
  by (auto simp: pending_def)

lemma admitted_of_nonneg: "0 \<le> admitted_of rqs"
  by (simp add: admitted_of_def)

lemma release_slot_effect:
  assumes "release_slot rq m = (rq', m')"
  shows "rq' = rq\<lparr>rq_admitted := False\<rparr>" "mw_inflight m' = mw_inflight m - (if rq_admitted rq then 1 else 0)"
    "mw_gauge m = mw_inflight m \<Longrightarrow> mw_gauge m' = mw_inflight m'" "mw_logs m' = mw_logs m"
  using assms by (auto simp: release_slot_def split: if_splits)

lemma report_effect [simp]:
  "mw_inflight (report rq st m) = mw_inflight m" "mw_gauge (report rq st m) = mw_gauge m"
  "map lg_request (mw_logs (report rq st m)) = map lg_request (mw_logs m) @ [rq_id rq]"
  by (simp_all add: report_def log_of_def)

lemma mark_close_same [simp]:
  "rq_id (mark_close r rq) = rq_id rq" "rq_admitted (mark_close r rq) = rq_admitted rq" "rq_sent (mark_close r rq) = rq_sent rq"
  by (simp_all add: mark_close_def)

lemma arrive_effect:
  assumes "arrive S now i key reservation m = (rq, m')"
  shows "rq_id rq = i" "\<not> rq_sent rq" "mw_logs m' = mw_logs m"
    "mw_inflight m' = mw_inflight m + (if rq_admitted rq then 1 else 0)"
    "mw_gauge m = mw_inflight m \<Longrightarrow> mw_gauge m' = mw_inflight m'"
    "rq_admitted rq \<longleftrightarrow> reservation \<and> mw_inflight m < hold_admission_limit S"
    "rq_rejected rq \<longleftrightarrow> reservation \<and> hold_admission_limit S \<le> mw_inflight m"
  using assms by (auto simp: arrive_def Let_def split: if_splits prod.splits)

lemma observed_send_effect:
  assumes "observed_send start sent rq m = (rq', m')"
  shows "rq_id rq' = rq_id rq" "rq_sent rq' \<longleftrightarrow> rq_sent rq \<or> start \<noteq> None"
    "rq_admitted rq' \<longleftrightarrow> rq_admitted rq \<and> start = None"
    "mw_inflight m' = mw_inflight m - (if rq_admitted rq \<and> start \<noteq> None then 1 else 0)"
    "mw_gauge m = mw_inflight m \<Longrightarrow> mw_gauge m' = mw_inflight m'"
    "map lg_request (mw_logs m') = map lg_request (mw_logs m) @ (if start = None then [] else [rq_id rq])"
  using assms
  by (cases start; cases sent; cases "rq_admitted rq"; auto simp: observed_send_def observed_start_def release_slot_def)+

lemma finish_effect:
  "mw_inflight (finish now rq m) = mw_inflight m - (if rq_admitted rq then 1 else 0)"
  "mw_gauge m = mw_inflight m \<Longrightarrow> mw_gauge (finish now rq m) = mw_inflight (finish now rq m)"
  "map lg_request (mw_logs (finish now rq m)) = map lg_request (mw_logs m) @ (if rq_sent rq then [] else [rq_id rq])"
  by (auto simp: finish_def release_slot_def Let_def report_def log_of_def split: option.splits if_splits)

lemma step_ok:
  assumes "step S s s'" and "server_ok S s"
  shows "server_ok S s'"
  using assms
proof (induction rule: step.induct)
  case (arrival i s now key reservation rq m)
  note ef = arrive_effect [OF arrival(2)]
  have "i \<notin> rq_id ` set (sv_running s)" using arrival(1,3) by (auto simp: server_ok_def)
  moreover from this have "i \<notin> pending (sv_running s)" using pending_subset by blast
  ultimately show ?case using arrival(1,3) ef(1-6) by (auto simp: server_ok_def)
next
  case (receive s as rq bs disconnect)
  have "rq_id (observed_receive disconnect rq) = rq_id rq" "rq_admitted (observed_receive disconnect rq) = rq_admitted rq"
    "rq_sent (observed_receive disconnect rq) = rq_sent rq" by (simp_all add: observed_receive_def)
  then show ?case using receive by (simp add: server_ok_def)
next
  case (send s as rq bs start sent rq' m)
  note ef = observed_send_effect [OF send(4)]
  have d: "rq_id rq \<notin> pending as" "rq_id rq \<notin> pending bs" "rq_id rq \<in> set (sv_seen s)"
    using send(1,5) by (auto simp: server_ok_def dest: pending_subset)
  show ?case
  proof (cases "start = None")
    case True
    then show ?thesis using send(1,5) ef by (simp add: server_ok_def)
  next
    case False
    have logs: "set (map lg_request (mw_logs m)) = insert (rq_id rq) (set (map lg_request (mw_logs (sv_mw s))))"
      and dis: "distinct (map lg_request (mw_logs m)) \<longleftrightarrow>
        distinct (map lg_request (mw_logs (sv_mw s))) \<and> rq_id rq \<notin> set (map lg_request (mw_logs (sv_mw s)))"
      using False by (simp_all only: ef(6)) auto
    show ?thesis
      using send(1,2,5) False ef(1-5) d by (cases "rq_admitted rq") (auto simp: server_ok_def logs [simplified] dis [simplified])
  qed
next
  case (return s as rq bs now)
  let ?m = "finish now rq (sv_mw s)"
  have d: "rq_id rq \<notin> pending as" "rq_id rq \<notin> pending bs" "rq_id rq \<in> set (sv_seen s)"
    using return(1,2) by (auto simp: server_ok_def dest: pending_subset)
  have logs: "set (map lg_request (mw_logs ?m)) = (if rq_sent rq then {} else {rq_id rq}) \<union> set (map lg_request (mw_logs (sv_mw s)))"
    and dis: "distinct (map lg_request (mw_logs ?m)) \<longleftrightarrow>
      distinct (map lg_request (mw_logs (sv_mw s))) \<and> (rq_sent rq \<or> rq_id rq \<notin> set (map lg_request (mw_logs (sv_mw s))))"
    by (simp_all only: finish_effect(3)) auto
  show ?case
    using return finish_effect(1,2) [where rq = rq and m = "sv_mw s" and now = now] d
    by (cases "rq_sent rq"; cases "rq_admitted rq") (auto simp: server_ok_def logs [simplified] dis [simplified])
qed

lemma reachable_ok: "reachable S s \<Longrightarrow> server_ok S s"
proof (induction rule: reachable.induct)
  case boot
  then show ?case by (simp add: server_ok_def empty_mw_def)
next
  case (later s s')
  then show ?case by (blast intro: step_ok)
qed

text \<open>
  Property C33.  In every interleaving of requests the counter of running holds is exactly the number of
  admitted ones and never leaves the range from zero to the limit; when nothing runs, every slot
  is back.
\<close>

theorem admission_counts_exactly:
  assumes "reachable S s"
  shows "mw_inflight (sv_mw s) = int (length (filter rq_admitted (sv_running s))) \<and> 0 \<le> mw_inflight (sv_mw s) \<and>
    mw_inflight (sv_mw s) \<le> max 0 (hold_admission_limit S) \<and> mw_gauge (sv_mw s) = mw_inflight (sv_mw s) \<and>
    (sv_running s = [] \<longrightarrow> mw_inflight (sv_mw s) = 0)"
  using reachable_ok [OF assms] by (auto simp: server_ok_def admitted_of_def)

text \<open>
  Fact.  Every request gets one log line: no request has two, and a request that is over
  has one, whether it sent a response, failed, or lost its client.
\<close>

theorem every_request_logged_once:
  assumes "reachable S s"
  shows "distinct (map lg_request (mw_logs (sv_mw s))) \<and>
    (\<forall>i\<in>set (sv_seen s). i \<notin> set (map rq_id (sv_running s)) \<longrightarrow> i \<in> set (map lg_request (mw_logs (sv_mw s))))"
  using reachable_ok [OF assms] pending_subset by (fastforce simp: server_ok_def)

section \<open>Instances\<close>

definition boot_server :: server where
  "boot_server = \<lparr>sv_mw = empty_mw, sv_running = [], sv_seen = []\<rparr>"

definition one_hold :: settings where
  "one_hold = default_settings\<lparr>reserve_concurrency := 1\<rparr>"

text \<open>One hold arrives, a second one is refused while it runs.\<close>

definition first_arrival :: "request \<times> mw" where
  "first_arrival = arrive one_hold 5 ''q1'' ''c'' True empty_mw"

definition second_arrival :: "request \<times> mw" where
  "second_arrival = arrive one_hold 6 ''q2'' ''c'' True (snd first_arrival)"

definition busy_server :: server where
  "busy_server = \<lparr>sv_mw = snd second_arrival, sv_running = [fst first_arrival, fst second_arrival], sv_seen = [''q2'', ''q1'']\<rparr>"

definition done_server :: server where
  "done_server = busy_server\<lparr>sv_mw := finish 9 (fst first_arrival) (snd second_arrival), sv_running := [fst second_arrival]\<rparr>"

lemmas demo_defs = busy_server_def done_server_def first_arrival_def second_arrival_def arrive_def one_hold_def
  default_settings_def hold_admission_limit_def empty_mw_def touch_conn_def pop_conn_def CONNECTION_STATE_MAX_def
  CONNECTION_STATE_IDLE_def Let_def

lemma busy_reachable: "reachable one_hold busy_server"
proof -
  have "reachable one_hold boot_server" unfolding boot_server_def by (rule reachable.boot)
  then have "reachable one_hold \<lparr>sv_mw = snd first_arrival, sv_running = [fst first_arrival], sv_seen = [''q1'']\<rparr>"
    using step.arrival [of "''q1''" boot_server one_hold 5 "''c''" True "fst first_arrival" "snd first_arrival"]
    by (auto simp: boot_server_def first_arrival_def intro: reachable.later)
  then show ?thesis
    using step.arrival [of "''q2''" "\<lparr>sv_mw = snd first_arrival, sv_running = [fst first_arrival], sv_seen = [''q1'']\<rparr>"
        one_hold 6 "''c''" True "fst second_arrival" "snd second_arrival"]
    by (auto simp: busy_server_def second_arrival_def intro: reachable.later)
qed

theorem admission_counts_exactly_witness:
  "mw_inflight (sv_mw busy_server) = 1 \<and> mw_rejected (sv_mw busy_server) = 1 \<and>
   mw_inflight (sv_mw busy_server) = int (length (filter rq_admitted (sv_running busy_server)))"
proof -
  have "mw_inflight (sv_mw busy_server) = 1" "mw_rejected (sv_mw busy_server) = 1" by (simp_all add: demo_defs)
  then show ?thesis using admission_counts_exactly [OF busy_reachable] by simp
qed

theorem every_request_logged_once_witness:
  "''q1'' \<in> set (map lg_request (mw_logs (sv_mw done_server)))"
proof -
  have "step one_hold busy_server done_server"
    unfolding done_server_def
    using step.return [of busy_server "[]" "fst first_arrival" "[fst second_arrival]" one_hold 9] by (simp add: busy_server_def)
  then have "reachable one_hold done_server" by (rule reachable.later [OF busy_reachable])
  moreover have "''q1'' \<notin> set (map rq_id (sv_running done_server))" "''q1'' \<in> set (sv_seen done_server)" by (simp_all add: demo_defs)
  ultimately show ?thesis using every_request_logged_once by blast
qed

end
