(* ===== verification/Observability.thy ===== *)
theory Observability
  imports Domain "HOL-Library.AList"
begin

text \<open>
  The wrappers of \<open>observability.py\<close> around other code: \<open>measured_work\<close> around worker operations,
  \<open>hold_phase\<close> and \<open>TimedHoldResource\<close> around the stages of a hold.  What a wrapped piece of code does is
  its ending and the new state; the wrappers add to the metrics.  An \<open>Interrupted\<close> ending is a
  \<open>BaseException\<close> that is not an \<open>Exception\<close>.
\<close>

datatype 'a ending = Returned 'a | Raised exc | Interrupted

record metrics =
  mt_active :: "string \<Rightarrow> int"
  mt_busy :: "string \<Rightarrow> time"
  mt_calls :: "string \<times> string \<Rightarrow> nat"
  mt_phases :: "string \<times> string \<Rightarrow> time list"
  mt_trace :: "(string \<rightharpoonup> time) option"

definition no_metrics :: metrics where
  "no_metrics = \<lparr>mt_active = (\<lambda>_. 0), mt_busy = (\<lambda>_. 0), mt_calls = (\<lambda>_. 0), mt_phases = (\<lambda>_. []), mt_trace = None\<rparr>"

section \<open>\<open>measured_work\<close>\<close>

text \<open>
  \<open>seconds\<close> is the time between the two clock readings.  The outcome is \<open>error\<close> for exceptions
  only: an interruption passes the \<open>except\<close> clause and counts as \<open>ok\<close>.
\<close>

definition work_outcome :: "'a ending \<Rightarrow> string" where
  "work_outcome r = (case r of Raised _ \<Rightarrow> ''error'' | _ \<Rightarrow> ''ok'')"

definition measured_work ::
  "string \<Rightarrow> time \<Rightarrow> ('w \<Rightarrow> metrics \<Rightarrow> 'a ending \<times> 'w \<times> metrics) \<Rightarrow> 'w \<Rightarrow> metrics \<Rightarrow> 'a ending \<times> 'w \<times> metrics"
where
  "measured_work operation seconds fn w m =
     (case fn w (m\<lparr>mt_active := (mt_active m)(operation := mt_active m operation + 1)\<rparr>) of
        (r, w', m) \<Rightarrow>
          (r, w', m\<lparr>mt_active := (mt_active m)(operation := mt_active m operation - 1),
             mt_busy := (mt_busy m)(operation := mt_busy m operation + seconds),
             mt_calls := (mt_calls m)((operation, work_outcome r) := mt_calls m (operation, work_outcome r) + 1)\<rparr>))"

section \<open>Phases of a hold\<close>

definition observe_hold_phase :: "string \<Rightarrow> time \<Rightarrow> string \<Rightarrow> metrics \<Rightarrow> metrics" where
  "observe_hold_phase phase seconds outcome m =
     m\<lparr>mt_phases := (mt_phases m)((phase, outcome) := mt_phases m (phase, outcome) @ [seconds]),
       mt_trace := map_option (\<lambda>t. t(phase \<mapsto> (case t phase of None \<Rightarrow> 0 | Some x \<Rightarrow> x) + seconds)) (mt_trace m)\<rparr>"

definition phase_outcome :: "'a ending \<Rightarrow> string" where
  "phase_outcome r = (case r of Returned _ \<Rightarrow> ''ok'' | _ \<Rightarrow> ''error'')"

definition hold_phase ::
  "string \<Rightarrow> time \<Rightarrow> ('w \<Rightarrow> metrics \<Rightarrow> 'a ending \<times> 'w \<times> metrics) \<Rightarrow> 'w \<Rightarrow> metrics \<Rightarrow> 'a ending \<times> 'w \<times> metrics"
where
  "hold_phase phase seconds body w m =
     (case body w m of (r, w', m') \<Rightarrow> (r, w', observe_hold_phase phase seconds (phase_outcome r) m'))"

text \<open>
  A context manager: \<open>cm_enter\<close> may fail, \<open>cm_exit\<close> sees how the body ended and says whether it swallows
  an exception.  \<open>with_resource\<close> is the \<open>with\<close> statement, \<open>timed\<close> the wrapper.
\<close>

record ('w) resource =
  cm_enter :: "'w \<Rightarrow> metrics \<Rightarrow> unit ending \<times> 'w \<times> metrics"
  cm_exit :: "bool \<Rightarrow> 'w \<Rightarrow> metrics \<Rightarrow> bool ending \<times> 'w \<times> metrics"

definition timed :: "string \<Rightarrow> time \<Rightarrow> time \<Rightarrow> 'w resource \<Rightarrow> 'w resource" where
  "timed phase t_enter t_exit res =
     \<lparr>cm_enter = hold_phase (phase @ ''_enter'') t_enter (cm_enter res),
      cm_exit = (\<lambda>ok. hold_phase (phase @ ''_exit'') t_exit (cm_exit res ok))\<rparr>"

definition with_resource ::
  "'w resource \<Rightarrow> ('w \<Rightarrow> metrics \<Rightarrow> 'a ending \<times> 'w \<times> metrics) \<Rightarrow> 'w \<Rightarrow> metrics \<Rightarrow> 'a option ending \<times> 'w \<times> metrics"
where
  "with_resource res body w m =
     (case cm_enter res w m of
        (Raised x, w1, m1) \<Rightarrow> (Raised x, w1, m1)
      | (Interrupted, w1, m1) \<Rightarrow> (Interrupted, w1, m1)
      | (Returned _, w1, m1) \<Rightarrow>
          (case body w1 m1 of
             (r, w2, m2) \<Rightarrow>
               (case cm_exit res (case r of Returned _ \<Rightarrow> True | _ \<Rightarrow> False) w2 m2 of
                  (Raised x, w3, m3) \<Rightarrow> (Raised x, w3, m3)
                | (Interrupted, w3, m3) \<Rightarrow> (Interrupted, w3, m3)
                | (Returned swallow, w3, m3) \<Rightarrow>
                    (case r of
                       Returned a \<Rightarrow> Returned (Some a)
                     | Raised x \<Rightarrow> if swallow then Returned None else Raised x
                     | Interrupted \<Rightarrow> if swallow then Returned None else Interrupted, w3, m3))))"

section \<open>Log lines\<close>

text \<open>\<open>JsonFormatter.format\<close>: the fixed fields, then the record's own, which may replace them.\<close>

definition update_obj :: "(string \<times> json) list \<Rightarrow> (string \<times> json) list \<Rightarrow> (string \<times> json) list" where
  "update_obj result extra = fold (\<lambda>(k, v) r. AList.update k v r) extra result"

definition format_record ::
  "time \<Rightarrow> string \<Rightarrow> string \<Rightarrow> string \<Rightarrow> (string \<times> json) list \<Rightarrow> string option \<Rightarrow> json"
where
  "format_record now level logger message extra exc_text =
     (let result = update_obj [(''time'', JTime now), (''level'', JStr level), (''logger'', JStr logger),
        (''message'', JStr message)] extra in
      JObj (case exc_text of None \<Rightarrow> result | Some e \<Rightarrow> AList.update ''exception'' (JStr e) result))"

section \<open>The wrappers change nothing else\<close>

text \<open>Code that leaves a gauge as it found it, however it ends.\<close>

definition balanced :: "string \<Rightarrow> ('w \<Rightarrow> metrics \<Rightarrow> 'a ending \<times> 'w \<times> metrics) \<Rightarrow> bool" where
  "balanced operation fn \<longleftrightarrow> (\<forall>w m. mt_active (snd (snd (fn w m))) operation = mt_active m operation)"

text \<open>Code whose ending and effect do not depend on the metrics.\<close>

definition blind :: "('w \<Rightarrow> metrics \<Rightarrow> 'a ending \<times> 'w \<times> metrics) \<Rightarrow> bool" where
  "blind fn \<longleftrightarrow> (\<forall>w m m'. fst (fn w m) = fst (fn w m') \<and> fst (snd (fn w m)) = fst (snd (fn w m')))"

lemma blind_fst: "blind fn \<Longrightarrow> fst (fn w m) = fst (fn w m')"
  and blind_state: "blind fn \<Longrightarrow> fst (snd (fn w m)) = fst (snd (fn w m'))"
  by (simp_all add: blind_def)

lemma blindE:
  assumes "blind fn" and "fn w m = (r, w1, m1)" and "fn w m' = (r', w1', m1')"
  shows "r' = r \<and> w1' = w1"
  using blind_fst [OF assms(1), of w m m'] blind_state [OF assms(1), of w m m'] assms(2,3) by simp

lemma measured_work_effect:
  assumes "measured_work operation t fn w m = (r, w', m')" and "blind fn" and "balanced operation fn"
  shows "fst (fn w m) = r" and "fst (snd (fn w m)) = w'" and "mt_active m' operation = mt_active m operation"
proof -
  let ?m = "m\<lparr>mt_active := (mt_active m)(operation := mt_active m operation + 1)\<rparr>"
  obtain m1 where f: "fn w ?m = (r, w', m1)" and m': "mt_active m' operation = mt_active m1 operation - 1"
    using assms(1) by (auto simp: measured_work_def split: prod.splits)
  show "fst (fn w m) = r" "fst (snd (fn w m)) = w'"
    using f blind_fst [OF assms(2), of w m ?m] blind_state [OF assms(2), of w m ?m] by simp_all
  have "mt_active m1 operation = mt_active ?m operation"
    using assms(3) f by (metis balanced_def snd_conv)
  then show "mt_active m' operation = mt_active m operation" using m' by simp
qed

lemma hold_phase_same:
  assumes "hold_phase phase t body w m = (r, w', m')"
  shows "\<exists>m1. body w m = (r, w', m1)"
  using assms by (auto simp: hold_phase_def split: prod.splits)

lemma hold_phase_blind: "blind fn \<Longrightarrow> blind (hold_phase phase t fn)"
  unfolding blind_def hold_phase_def by (simp add: case_prod_beta)

lemma timed_same:
  assumes "blind (cm_enter res)" and "\<And>ok. blind (cm_exit res ok)"
  shows "fst (cm_enter (timed p a b res) w m) = fst (cm_enter res w m')"
    and "fst (snd (cm_enter (timed p a b res) w m)) = fst (snd (cm_enter res w m'))"
    and "fst (cm_exit (timed p a b res) ok w m) = fst (cm_exit res ok w m')"
    and "fst (snd (cm_exit (timed p a b res) ok w m)) = fst (snd (cm_exit res ok w m'))"
  using blind_fst [OF assms(1), of w m m'] blind_state [OF assms(1), of w m m']
    blind_fst [OF assms(2), of ok w m m'] blind_state [OF assms(2), of ok w m m']
  by (simp_all add: timed_def hold_phase_def case_prod_beta)

lemma with_resource_cong:
  assumes enter: "\<And>w m m'. fst (cm_enter res w m) = fst (cm_enter res' w m') \<and> fst (snd (cm_enter res w m)) = fst (snd (cm_enter res' w m'))"
    and exit: "\<And>ok w m m'. fst (cm_exit res ok w m) = fst (cm_exit res' ok w m') \<and> fst (snd (cm_exit res ok w m)) = fst (snd (cm_exit res' ok w m'))"
    and body: "blind body"
  shows "fst (with_resource res body w m) = fst (with_resource res' body w m') \<and>
    fst (snd (with_resource res body w m)) = fst (snd (with_resource res' body w m'))"
proof -
  obtain r w1 m1 where e: "cm_enter res w m = (r, w1, m1)" by (metis prod.exhaust)
  obtain m1' where e': "cm_enter res' w m' = (r, w1, m1')" using enter [of w m m'] e by (metis fst_conv snd_conv prod.exhaust)
  show ?thesis
  proof (cases r)
    case (Returned u)
    obtain q w2 m2 where b: "body w1 m1 = (q, w2, m2)" by (metis prod.exhaust)
    obtain q' w2' m2' where b0: "body w1 m1' = (q', w2', m2')" by (metis prod.exhaust)
    with blindE [OF body b b0] have b': "body w1 m1' = (q, w2, m2')" by simp
    let ?ok = "case q of Returned _ \<Rightarrow> True | _ \<Rightarrow> False"
    obtain s w3 m3 where x: "cm_exit res ?ok w2 m2 = (s, w3, m3)" by (metis prod.exhaust)
    obtain m3' where x': "cm_exit res' ?ok w2 m2' = (s, w3, m3')" using exit [of ?ok w2 m2 m2'] x by (metis fst_conv snd_conv prod.exhaust)
    show ?thesis by (simp add: with_resource_def e e' Returned b b' x x' split: ending.split)
  qed (simp_all add: with_resource_def e e')
qed

text \<open>
  Fact.  Timing a resource changes nothing but the metrics: a \<open>with\<close> block over the timed
  resource ends as the block over the resource itself, with the same effect, on every path
  (failing entry, failing body, failing or swallowing exit).
\<close>

theorem timed_resource_transparent:
  assumes "blind (cm_enter res)" and "\<forall>ok. blind (cm_exit res ok)" and "blind body"
  shows "fst (with_resource (timed phase t_enter t_exit res) body w m) = fst (with_resource res body w m) \<and>
    fst (snd (with_resource (timed phase t_enter t_exit res) body w m)) = fst (snd (with_resource res body w m))"
  by (rule with_resource_cong) (use assms timed_same [OF assms(1)] in auto)

definition demo_resource :: "nat resource" where
  "demo_resource = \<lparr>cm_enter = (\<lambda>w m. (Returned (), w + 1, m)), cm_exit = (\<lambda>ok w m. (Returned False, w + 10, m))\<rparr>"

theorem timed_resource_transparent_witness:
  "fst (with_resource (timed ''db'' 1 2 demo_resource) (\<lambda>w m. (Raised LockNotAvailable :: unit ending, w * 2, m)) 0 no_metrics) =
   Raised LockNotAvailable"
proof -
  have "blind (cm_enter demo_resource)" "\<forall>ok. blind (cm_exit demo_resource ok)"
    "blind (\<lambda>(w :: nat) (m :: metrics). (Raised LockNotAvailable :: unit ending, w * 2, m))"
    by (simp_all add: blind_def demo_resource_def)
  then show ?thesis
    using timed_resource_transparent [of demo_resource "\<lambda>w m. (Raised LockNotAvailable :: unit ending, w * 2, m)" "''db''" 1 2 0 no_metrics]
    by (simp add: with_resource_def demo_resource_def)
qed

end
