(* ===== verification/Pg.thy ===== *)
theory Pg
  imports Store Seat_Cache Observability
begin

text \<open>
  The PostgreSQL adapter (\<open>infrastructure/postgres.py\<close>): the context managers \<open>connection\<close> and
  \<open>transaction\<close> with everything that can fail in them, and the metrics they keep.  The driver is
  outside; what it does in one transaction is a \<open>session\<close>.  The rest of the development uses the
  function \<open>transaction\<close> of the schema; the facts at the end say when that is what the adapter does.
\<close>

record pg_metrics =
  pm_acquiring :: int
  pm_in_use :: int
  pm_pool :: "bool list"
  pm_bodies :: nat
  pm_commits :: nat
  pm_rollbacks :: nat
  pm_transactions :: nat
  pm_returns :: nat
  pm_holds :: nat
  pm_errors :: "string list"
  pm_slow :: "(string \<times> string) list"

text \<open>What the driver does: each call raises or goes through; how long commit and return take.\<close>

record session =
  ss_getconn :: "exc option"
  ss_begin :: "exc option"
  ss_commit :: "exc option"
  ss_commit_time :: time
  ss_rollback :: "exc option"
  ss_exit :: "exc option"
  ss_putconn :: "exc option"
  ss_return_time :: time

definition quiet :: session where
  "quiet = \<lparr>ss_getconn = None, ss_begin = None, ss_commit = None, ss_commit_time = 0, ss_rollback = None,
     ss_exit = None, ss_putconn = None, ss_return_time = 0\<rparr>"

definition no_pg :: pg_metrics where
  "no_pg = \<lparr>pm_acquiring = 0, pm_in_use = 0, pm_pool = [], pm_bodies = 0, pm_commits = 0, pm_rollbacks = 0,
     pm_transactions = 0, pm_returns = 0, pm_holds = 0, pm_errors = [], pm_slow = []\<rparr>"

section \<open>Query labels\<close>

text \<open>\<open>str.upper\<close> on ASCII; no other Latin-1 letter becomes an ASCII one.\<close>

definition upper :: "char \<Rightarrow> char" where
  "upper c = (let n = (of_char c :: nat) in if 97 \<le> n \<and> n \<le> 122 then char_of (n - 32) else c)"

definition commands :: "string list" where
  "commands = [''SELECT'', ''INSERT'', ''UPDATE'', ''DELETE'', ''SET'', ''BEGIN'', ''COMMIT'', ''ROLLBACK'']"

text \<open>\<open>None\<close> stands for a query that is not a text.\<close>

definition command_label :: "string option \<Rightarrow> string" where
  "command_label query =
     (case query of
        None \<Rightarrow> ''OTHER''
      | Some q \<Rightarrow>
          if strip q = [] then ''OTHER''
          else let command = map upper (takeWhile (\<lambda>c. \<not> is_space c) (dropWhile is_space q)) in
            if command \<in> set commands then command else ''OTHER'')"

section \<open>\<open>connection\<close>\<close>

definition record_slow_db_phase :: "string \<Rightarrow> time \<Rightarrow> string \<Rightarrow> pg_metrics \<Rightarrow> pg_metrics" where
  "record_slow_db_phase phase duration outcome m =
     (if duration \<ge> 100000 then m\<lparr>pm_slow := pm_slow m @ [(phase, outcome)]\<rparr> else m)"

definition outcome_name :: "exc option \<Rightarrow> string" where
  "outcome_name x = (case x of None \<Rightarrow> ''ok'' | Some _ \<Rightarrow> ''error'')"

text \<open>Giving the connection back: the inner \<open>finally\<close> block.\<close>

definition return_connection :: "session \<Rightarrow> 'a ending \<times> 'w \<times> pg_metrics \<Rightarrow> 'a ending \<times> 'w \<times> pg_metrics" where
  "return_connection s = (\<lambda>(r, w, m).
     let m = record_slow_db_phase ''pool_return'' (ss_return_time s) (outcome_name (ss_putconn s)) (m\<lparr>pm_returns := pm_returns m + 1\<rparr>) in
     case ss_putconn s of
       Some x \<Rightarrow> (Raised x, w, m)
     | None \<Rightarrow> (r, w, m\<lparr>pm_holds := pm_holds m + 1, pm_in_use := pm_in_use m - 1\<rparr>))"

text \<open>\<open>with conn:\<close> ends the session; when that raises, its exception replaces the body's ending.\<close>

definition leave_session :: "session \<Rightarrow> 'a ending \<times> 'w \<times> pg_metrics \<Rightarrow> 'a ending \<times> 'w \<times> pg_metrics" where
  "leave_session s = (\<lambda>(r, w, m). (case ss_exit s of None \<Rightarrow> r | Some x \<Rightarrow> Raised x, w, m))"

definition connection ::
  "session \<Rightarrow> ('w \<Rightarrow> pg_metrics \<Rightarrow> 'a ending \<times> 'w \<times> pg_metrics) \<Rightarrow> 'w \<Rightarrow> pg_metrics \<Rightarrow> 'a ending \<times> 'w \<times> pg_metrics"
where
  "connection s body w m =
     (let m = m\<lparr>pm_acquiring := pm_acquiring m + 1\<rparr> in
      case ss_getconn s of
        Some x \<Rightarrow> (Raised x, w, m\<lparr>pm_pool := pm_pool m @ [False], pm_acquiring := pm_acquiring m - 1\<rparr>)
      | None \<Rightarrow>
          return_connection s (leave_session s
            (body w (m\<lparr>pm_pool := pm_pool m @ [True], pm_acquiring := pm_acquiring m - 1, pm_in_use := pm_in_use m + 1\<rparr>))))"

section \<open>\<open>transaction\<close>\<close>

text \<open>The label of an error: its SQL state, or the name of a pool error; other errors are not counted.\<close>

definition record_error :: "(exc \<Rightarrow> string option) \<Rightarrow> exc \<Rightarrow> pg_metrics \<Rightarrow> pg_metrics" where
  "record_error label x m = (case label x of None \<Rightarrow> m | Some l \<Rightarrow> m\<lparr>pm_errors := pm_errors m @ [l]\<rparr>)"

text \<open>
  The \<open>except\<close> clause of the transaction: the body time is observed (again, if it had been), then the
  rollback, if the transaction was open; when the rollback raises, the error is not recorded.
\<close>

definition undo :: "(exc \<Rightarrow> string option) \<Rightarrow> session \<Rightarrow> bool \<Rightarrow> exc \<Rightarrow> pg_metrics \<Rightarrow> exc \<times> pg_metrics" where
  "undo label s opened x m =
     (let m = m\<lparr>pm_bodies := pm_bodies m + 1, pm_rollbacks := pm_rollbacks m + 1\<rparr> in
      case (if opened then ss_rollback s else None) of
        Some y \<Rightarrow> (y, m)
      | None \<Rightarrow> (x, record_error label x m))"

text \<open>
  Inside the connection.  \<open>w\<close> is the committed state, \<open>body w\<close> the ending of the block and the
  state it would leave.
\<close>

definition transaction_block ::
  "(exc \<Rightarrow> string option) \<Rightarrow> session \<Rightarrow> ('w \<Rightarrow> 'a ending \<times> 'w) \<Rightarrow> 'w \<Rightarrow> pg_metrics \<Rightarrow> 'a ending \<times> 'w \<times> pg_metrics"
where
  "transaction_block label s body w m =
     (let (r, w', m) =
        (case ss_begin s of
           Some x \<Rightarrow> (case undo label s False x m of (y, m) \<Rightarrow> (Raised y, w, m))
         | None \<Rightarrow>
             (case body w of
                (Interrupted, _) \<Rightarrow> (Interrupted, w, m\<lparr>pm_bodies := pm_bodies m + 1\<rparr>)
              | (Raised x, _) \<Rightarrow> (case undo label s True x m of (y, m) \<Rightarrow> (Raised y, w, m))
              | (Returned a, w') \<Rightarrow>
                  let m = m\<lparr>pm_bodies := pm_bodies m + 1, pm_commits := pm_commits m + 1\<rparr>;
                      m = record_slow_db_phase ''commit'' (ss_commit_time s) (outcome_name (ss_commit s)) m in
                  (case ss_commit s of
                     None \<Rightarrow> (Returned a, w', m)
                   | Some x \<Rightarrow> (case undo label s True x m of (y, m) \<Rightarrow> (Raised y, w, m)))))
      in (r, w', m\<lparr>pm_transactions := pm_transactions m + 1\<rparr>))"

text \<open>Whether the inner clause has already dealt with an error (\<open>error_recorded\<close>).\<close>

definition inner_failed :: "session \<Rightarrow> ('w \<Rightarrow> 'a ending \<times> 'w) \<Rightarrow> 'w \<Rightarrow> bool" where
  "inner_failed s body w \<longleftrightarrow> ss_getconn s = None \<and>
     (ss_begin s \<noteq> None \<or> (case fst (body w) of Raised _ \<Rightarrow> True | Interrupted \<Rightarrow> False | Returned _ \<Rightarrow> ss_commit s \<noteq> None))"

definition pg_transaction ::
  "(exc \<Rightarrow> string option) \<Rightarrow> session \<Rightarrow> ('w \<Rightarrow> 'a ending \<times> 'w) \<Rightarrow> 'w \<Rightarrow> pg_metrics \<Rightarrow> 'a ending \<times> 'w \<times> pg_metrics"
where
  "pg_transaction label s body w m =
     (case connection s (transaction_block label s body) w m of
        (Raised x, w', m') \<Rightarrow> (Raised x, w', if inner_failed s body w then m' else record_error label x m')
      | out \<Rightarrow> out)"

end
