(* ===== verification/Pg_Facts.thy ===== *)
theory Pg_Facts
  imports Pg
begin

text \<open>
  Facts about the adapter: it implements the atomic \<open>transaction\<close> that the rest of the development
  is built on, and what its metrics say after every way a transaction can end.
\<close>

section \<open>Labels\<close>

lemma command_label_fixed: "command_label q \<in> set (''OTHER'' # commands)"
  by (auto simp: command_label_def Let_def split: option.splits)

lemma command_label_examples:
  "command_label (Some ''  select 1'') = ''SELECT''" "command_label (Some ''VACUUM'') = ''OTHER''"
  "command_label (Some '' '') = ''OTHER''"
  by code_simp+

section \<open>How a transaction ends\<close>

text \<open>Which metrics the helpers leave alone.\<close>

lemma record_slow_same [simp]:
  "pm_acquiring (record_slow_db_phase phase t out m) = pm_acquiring m"
  "pm_in_use (record_slow_db_phase phase t out m) = pm_in_use m"
  "pm_pool (record_slow_db_phase phase t out m) = pm_pool m"
  "pm_bodies (record_slow_db_phase phase t out m) = pm_bodies m"
  "pm_commits (record_slow_db_phase phase t out m) = pm_commits m"
  "pm_rollbacks (record_slow_db_phase phase t out m) = pm_rollbacks m"
  "pm_transactions (record_slow_db_phase phase t out m) = pm_transactions m"
  "pm_returns (record_slow_db_phase phase t out m) = pm_returns m"
  "pm_holds (record_slow_db_phase phase t out m) = pm_holds m"
  "pm_errors (record_slow_db_phase phase t out m) = pm_errors m"
  by (simp_all add: record_slow_db_phase_def)

lemma record_error_same [simp]:
  "pm_acquiring (record_error label x m) = pm_acquiring m"
  "pm_in_use (record_error label x m) = pm_in_use m"
  "pm_pool (record_error label x m) = pm_pool m"
  "pm_bodies (record_error label x m) = pm_bodies m"
  "pm_commits (record_error label x m) = pm_commits m"
  "pm_rollbacks (record_error label x m) = pm_rollbacks m"
  "pm_transactions (record_error label x m) = pm_transactions m"
  "pm_returns (record_error label x m) = pm_returns m"
  "pm_holds (record_error label x m) = pm_holds m"
  "pm_slow (record_error label x m) = pm_slow m"
  by (simp_all add: record_error_def split: option.splits)

lemma record_error_length: "length (pm_errors (record_error label x m)) \<le> length (pm_errors m) + 1"
  by (simp add: record_error_def split: option.splits)

lemmas adapter_defs = pg_transaction_def connection_def return_connection_def leave_session_def transaction_block_def
  undo_def inner_failed_def Let_def

text \<open>Every way a transaction can go.\<close>

lemma session_cases [case_names no_connection no_begin returned raised interrupted]:
  obtains x where "ss_getconn s = Some x"
  | x where "ss_getconn s = None" "ss_begin s = Some x"
  | a w' where "ss_getconn s = None" "ss_begin s = None" "body w = (Returned a, w')"
  | x w' where "ss_getconn s = None" "ss_begin s = None" "body w = (Raised x, w')"
  | w' where "ss_getconn s = None" "ss_begin s = None" "body w = (Interrupted, w')"
  by (metis ending.exhaust option.exhaust prod.exhaust)

text \<open>A transaction body of the model as a block under the adapter.\<close>

definition block_of :: "('w \<Rightarrow> ('a \<times> 'w) result) \<Rightarrow> 'w \<Rightarrow> 'a ending \<times> 'w" where
  "block_of f w = (case f w of Inl x \<Rightarrow> (Raised x, w) | Inr (a, w') \<Rightarrow> (Returned a, w'))"

definition committed :: "session \<Rightarrow> ('w \<Rightarrow> 'a ending \<times> 'w) \<Rightarrow> 'w \<Rightarrow> bool" where
  "committed s body w \<longleftrightarrow> ss_getconn s = None \<and> ss_begin s = None \<and> ss_commit s = None \<and>
     (case fst (body w) of Returned _ \<Rightarrow> True | _ \<Rightarrow> False)"

lemma pg_transaction_state:
  "fst (snd (pg_transaction label s body w m)) = (if committed s body w then snd (body w) else w)"
  by (cases rule: session_cases [where s = s and body = body and w = w]; cases "ss_commit s"; cases "ss_rollback s"; cases "ss_exit s"; cases "ss_putconn s")
    (simp_all add: adapter_defs committed_def)

lemma pg_transaction_ending:
  "fst (pg_transaction label s body w m) =
     (case ss_getconn s of
        Some x \<Rightarrow> Raised x
      | None \<Rightarrow>
          (case ss_putconn s of
             Some x \<Rightarrow> Raised x
           | None \<Rightarrow>
               (case ss_exit s of
                  Some x \<Rightarrow> Raised x
                | None \<Rightarrow>
                    (case ss_begin s of
                       Some x \<Rightarrow> Raised x
                     | None \<Rightarrow>
                         (case fst (body w) of
                            Returned a \<Rightarrow>
                              (case ss_commit s of None \<Rightarrow> Returned a
                               | Some x \<Rightarrow> Raised (case ss_rollback s of None \<Rightarrow> x | Some y \<Rightarrow> y))
                          | Raised x \<Rightarrow> Raised (case ss_rollback s of None \<Rightarrow> x | Some y \<Rightarrow> y)
                          | Interrupted \<Rightarrow> Interrupted)))))"
  by (cases rule: session_cases [where s = s and body = body and w = w]; cases "ss_commit s"; cases "ss_rollback s"; cases "ss_exit s"; cases "ss_putconn s")
    (simp_all add: adapter_defs)


section \<open>Metrics\<close>

lemma pool_gauges:
  "pm_acquiring (snd (snd (pg_transaction label s body w m))) = pm_acquiring m \<and>
   pm_pool (snd (snd (pg_transaction label s body w m))) = pm_pool m @ [ss_getconn s = None] \<and>
   pm_in_use (snd (snd (pg_transaction label s body w m))) =
     pm_in_use m + (if ss_getconn s = None \<and> ss_putconn s \<noteq> None then 1 else 0)"
  by (cases rule: session_cases [where s = s and body = body and w = w]; cases "ss_commit s"; cases "ss_rollback s"; cases "ss_exit s"; cases "ss_putconn s")
    (simp_all add: adapter_defs)

lemma body_observed:
  "pm_transactions (snd (snd (pg_transaction label s body w m))) = pm_transactions m + (if ss_getconn s = None then 1 else 0) \<and>
   pm_bodies (snd (snd (pg_transaction label s body w m))) = pm_bodies m +
     (if ss_getconn s \<noteq> None then 0
      else if ss_begin s = None \<and> ss_commit s \<noteq> None \<and> (case fst (body w) of Returned _ \<Rightarrow> True | _ \<Rightarrow> False) then 2 else 1)"
  by (cases rule: session_cases [where s = s and body = body and w = w]; cases "ss_commit s"; cases "ss_rollback s"; cases "ss_exit s"; cases "ss_putconn s")
    (simp_all add: adapter_defs)

text \<open>
  Property C34.  What the adapter's metrics say after a transaction, however it ends: the gauge of
  acquisitions under way is restored, every attempt to get a connection is counted once with its
  outcome, and a transaction that got one is timed once.  The gauge of connections in use is
  restored unless giving the connection back raised: then it stays one too high.  The body is
  observed once, unless the commit raised: then it is observed twice.
\<close>

theorem adapter_metrics:
  "pm_acquiring (snd (snd (pg_transaction label s body w m))) = pm_acquiring m \<and>
   pm_pool (snd (snd (pg_transaction label s body w m))) = pm_pool m @ [ss_getconn s = None] \<and>
   pm_transactions (snd (snd (pg_transaction label s body w m))) = pm_transactions m + (if ss_getconn s = None then 1 else 0) \<and>
   pm_in_use (snd (snd (pg_transaction label s body w m))) =
     pm_in_use m + (if ss_getconn s = None \<and> ss_putconn s \<noteq> None then 1 else 0) \<and>
   pm_bodies (snd (snd (pg_transaction label s body w m))) = pm_bodies m +
     (if ss_getconn s \<noteq> None then 0
      else if ss_begin s = None \<and> ss_commit s \<noteq> None \<and> (case fst (body w) of Returned _ \<Rightarrow> True | _ \<Rightarrow> False) then 2 else 1)"
  using pool_gauges [of label s body w m] body_observed [of label s body w m] by blast

text \<open>An error is recorded at most once.\<close>

lemma errors_recorded_once:
  "length (pm_errors (snd (snd (pg_transaction label s body w m)))) \<le> length (pm_errors m) + 1"
  by (cases rule: session_cases [where s = s and body = body and w = w]; cases "ss_commit s"; cases "ss_rollback s"; cases "ss_exit s"; cases "ss_putconn s")
    (simp_all add: adapter_defs record_error_length [THEN le_trans])

end
