(* ===== verification/Load.thy ===== *)
theory Load
  imports Seat_Cache Complex_Main
begin

text \<open>
  The load generator (\<open>scripts/http_load_generator.py\<close>): the arrival plan, the allocation of
  viewers, shows and seats, one request with its retries, the scheduler with its drops, and the
  gates of the result.  Times are exact rationals: seconds in the plan, milliseconds for measured
  durations.  A \<open>Counter\<close> is the list of its increments.
\<close>

section \<open>Percentiles and diagnostics\<close>

definition percentile :: "rat list \<Rightarrow> rat \<Rightarrow> rat option" where
  "percentile values fraction =
     (if values = [] then None
      else let k = nat \<lceil>of_nat (length values) * fraction\<rceil> in
        Some (if k = 0 then last (sort values) else sort values ! (k - 1)))"

definition ERROR_CODES :: "string list" where
  "ERROR_CODES = [''ADMISSION_FULL'', ''ADMISSION_UNAVAILABLE'', ''DATABASE_UNAVAILABLE'', ''RESOURCE_BUSY'',
     ''SEAT_BUSY'', ''SEAT_UNAVAILABLE'', ''SEATMAP_WARMING'', ''SEATMAP_UNAVAILABLE'',
     ''RATE_LIMITED'', ''UNAUTHENTICATED'', ''IDEMPOTENCY_MISMATCH'', ''SALE_CLOSED'',
     ''EVENT_NOT_FOUND'', ''SEAT_NOT_FOUND'', ''INVALID_REQUEST'', ''INVALID_SEATS'']"

definition RETRYABLE_CODES :: "string list" where
  "RETRYABLE_CODES = [''ADMISSION_FULL'', ''ADMISSION_UNAVAILABLE'', ''DATABASE_UNAVAILABLE'', ''RATE_LIMITED'',
     ''RESOURCE_BUSY'', ''SEATMAP_WARMING'', ''SEATMAP_UNAVAILABLE'']"

text \<open>A response: \<open>hr_json\<close> is \<open>None\<close> when the body is not JSON.\<close>

record http_response =
  hr_status :: int
  hr_json :: "json option"
  hr_etag :: "string option"
  hr_size :: nat

definition error_code :: "http_response \<Rightarrow> string" where
  "error_code r =
     (case hr_json r of
        Some (JObj kvs) \<Rightarrow>
          (case map_of kvs ''code'' of
             Some (JStr code) \<Rightarrow> if code \<in> set ERROR_CODES then code else ''OTHER''
           | _ \<Rightarrow> ''OTHER'')
      | _ \<Rightarrow> ''OTHER'')"

definition retryable_response :: "bool \<Rightarrow> http_response \<Rightarrow> string \<Rightarrow> bool" where
  "retryable_response write r code \<longleftrightarrow>
     (hr_status r = 429 \<or> hr_status r = 503) \<and> code \<in> set RETRYABLE_CODES \<or>
     write \<and> hr_status r = 409 \<and> code = ''RESOURCE_BUSY''"

section \<open>The plan\<close>

fun plan_phases :: "nat \<Rightarrow> rat \<Rightarrow> (nat \<times> nat) list \<Rightarrow> (rat \<times> nat) list" where
  "plan_phases phase elapsed [] = []"
| "plan_phases phase elapsed ((phase_rate, duration) # phases) =
     map (\<lambda>index. (elapsed + of_nat index / of_nat phase_rate, phase)) [0..<phase_rate * duration] @
     plan_phases (phase + 1) (elapsed + of_nat duration) phases"

definition arrival_plan :: "nat \<Rightarrow> nat \<Rightarrow> bool \<Rightarrow> (rat \<times> nat) list" where
  "arrival_plan rate seconds burst =
     plan_phases 0 0 (if \<not> burst then [(rate, seconds)] else [(rate, 60), (rate * 4, 120), (rate, 60)])"

text \<open>
  The checks before a run: a development manifest that outlives the run and its drain by the
  given number of seconds, for this origin, and a result that does not overwrite it.
\<close>

record credentials =
  cr_schema :: int
  cr_environment :: string
  cr_expires :: rat
  cr_origin :: string

definition rstrip_slash :: "string \<Rightarrow> string" where
  "rstrip_slash s = rev (dropWhile (\<lambda>c. c = CHR 0x2F) (rev s))"

definition check_manifest :: "credentials \<Rightarrow> rat \<Rightarrow> rat \<Rightarrow> string \<Rightarrow> bool \<Rightarrow> unit result" where
  "check_manifest cr now seconds origin same_file =
     ebind (require (cr_schema cr = 1 \<and> cr_environment cr = ''development'') (PyError ''ValueError'')) (\<lambda>_.
     ebind (require (cr_expires cr > now + (seconds + 60)) (PyError ''ValueError'')) (\<lambda>_.
     ebind (require (rstrip_slash origin = cr_origin cr) (PyError ''ValueError'')) (\<lambda>_.
     require (\<not> same_file) (PyError ''ValueError''))))"

section \<open>Bootstrap\<close>

text \<open>
  \<open>fetch\<close> in \<open>fetch_initial_validators\<close>: \<open>raises\<close> is what \<open>raise_for_status\<close> rejects.  The answer has
  the entity tag and the number of retries.
\<close>

fun fetch_validator ::
  "(int \<Rightarrow> bool) \<Rightarrow> nat \<Rightarrow> (nat \<Rightarrow> http_response) \<Rightarrow> nat list \<Rightarrow> (string \<times> nat) result"
where
  "fetch_validator raises max_attempts replies [] = Inl (PyError ''AssertionError'')"
| "fetch_validator raises max_attempts replies (attempt # later) =
     (let r = replies attempt in
      if hr_status r = 200
      then case hr_etag r of None \<Rightarrow> Inl (PyError ''KeyError'') | Some etag \<Rightarrow> Inr (etag, attempt)
      else if hr_status r = 503 \<and> error_code r = ''SEATMAP_WARMING'' \<and> attempt + 1 < max_attempts
      then fetch_validator raises max_attempts replies later
      else if raises (hr_status r) then Inl (PyError ''HTTPStatusError'')
      else fetch_validator raises max_attempts replies later)"

fun fetch_all :: "(int \<Rightarrow> bool) \<Rightarrow> nat \<Rightarrow> (string \<Rightarrow> nat \<Rightarrow> http_response) \<Rightarrow> string list \<Rightarrow> (string \<times> string \<times> nat) list result" where
  "fetch_all raises max_attempts replies [] = Inr []"
| "fetch_all raises max_attempts replies (show # shows) =
     ebind (fetch_validator raises max_attempts (replies show) [0..<max_attempts]) (\<lambda>(etag, n).
       ebind (fetch_all raises max_attempts replies shows) (\<lambda>rows. Inr ((show, etag, n) # rows)))"

definition fetch_initial_validators ::
  "(int \<Rightarrow> bool) \<Rightarrow> int \<Rightarrow> int \<Rightarrow> (string \<Rightarrow> nat \<Rightarrow> http_response) \<Rightarrow> string list \<Rightarrow> ((string \<times> string) list \<times> nat) result"
where
  "fetch_initial_validators raises concurrency max_attempts replies shows =
     (if concurrency < 1 \<or> max_attempts < 1 then Inl (PyError ''ValueError'')
      else ebind (fetch_all raises (nat max_attempts) replies shows) (\<lambda>rows.
        Inr (map (\<lambda>(show, etag, _). (show, etag)) rows, sum_list (map (\<lambda>(_, _, n). n) rows))))"

section \<open>Transport diagnostics\<close>

text \<open>\<open>TransportTrace\<close>: at most 32 events, and at most five links of an exception's chain, even if the chain is a cycle.\<close>

record trace =
  tr_events :: "string list"
  tr_connect :: bool

definition trace_event :: "string \<Rightarrow> trace \<Rightarrow> trace" where
  "trace_event name t =
     t\<lparr>tr_connect := (tr_connect t \<or> name = ''connection.connect_tcp.started''),
       tr_events := (if length (tr_events t) < 32 then tr_events t @ [name] else tr_events t)\<rparr>"

text \<open>\<open>cause x\<close> is \<open>__cause__ or __context__\<close> of the exception object \<open>x\<close>; the first argument is how many links are left.\<close>

fun failure_chain :: "nat \<Rightarrow> (nat \<Rightarrow> nat option) \<Rightarrow> nat option \<Rightarrow> nat list \<Rightarrow> nat list" where
  "failure_chain 0 cause x seen = []"
| "failure_chain (Suc n) cause None seen = []"
| "failure_chain (Suc n) cause (Some x) seen =
     (if x \<in> set seen then [] else x # failure_chain n cause (cause x) (x # seen))"

section \<open>The workload\<close>

text \<open>The manifest's fields and the options that shape the workload.\<close>

record manifest =
  mf_shows :: "string list"
  mf_tokens :: "string list"
  mf_seat_offset :: int
  mf_seats_per_show :: int
  mf_hot_hold_show :: string
  mf_hot_hold_seat :: int
  mf_hot_show :: "string option"

record item =
  it_index :: nat
  it_viewer :: nat
  it_show :: string
  it_write :: bool
  it_seat :: int
  it_due :: rat
  it_phase :: nat
  it_hot :: bool

text \<open>
  One arrival.  \<open>draw index\<close> is what the random generator gives for it: the viewer, and whether
  a read goes to the hot show.  \<open>counts\<close> are the seats of each show already handed out.
\<close>

definition allocate ::
  "manifest \<Rightarrow> bool \<Rightarrow> (nat \<Rightarrow> nat \<times> bool) \<Rightarrow> nat \<Rightarrow> rat \<times> nat \<Rightarrow> (string \<Rightarrow> nat) \<Rightarrow> (item \<times> (string \<Rightarrow> nat)) result"
where
  "allocate M mixed draw index = (\<lambda>(due, phase) counts.
     let viewer = fst (draw index);
         show = mf_shows M ! (viewer mod length (mf_shows M));
         write = (index mod 20 = 0);
         hot = (mixed \<and> index mod 100 = 0);
         seat = mf_seat_offset M + int (counts show);
         show = (if hot then mf_hot_hold_show M else show);
         seat = (if hot then mf_hot_hold_seat M else seat) in
     ebind (require (\<not> hot \<or> 0 \<le> seat \<and> seat < mf_seats_per_show M) (PyError ''ValueError'')) (\<lambda>_.
     ebind (require (\<not> (write \<and> \<not> hot \<and> mixed \<and> show = mf_hot_hold_show M \<and> seat = mf_hot_hold_seat M)) (PyError ''ValueError'')) (\<lambda>_.
     let counts = (if write \<and> \<not> hot then counts(show := counts show + 1) else counts) in
     ebind (require (\<not> (write \<and> \<not> hot \<and> seat \<ge> mf_seats_per_show M)) (PyError ''ValueError'')) (\<lambda>_.
     let show = (case mf_hot_show M of Some h \<Rightarrow> if \<not> write \<and> snd (draw index) then h else show | None \<Rightarrow> show) in
     Inr (\<lparr>it_index = index, it_viewer = viewer, it_show = show, it_write = write, it_seat = seat, it_due = due,
       it_phase = phase, it_hot = hot\<rparr>, counts)))))"

fun allocate_all ::
  "manifest \<Rightarrow> bool \<Rightarrow> (nat \<Rightarrow> nat \<times> bool) \<Rightarrow> nat \<Rightarrow> (rat \<times> nat) list \<Rightarrow> (string \<Rightarrow> nat) \<Rightarrow> item list result"
where
  "allocate_all M mixed draw index [] counts = Inr []"
| "allocate_all M mixed draw index (a # plan) counts =
     ebind (allocate M mixed draw index a counts) (\<lambda>(it, counts').
       ebind (allocate_all M mixed draw (index + 1) plan counts') (\<lambda>its. Inr (it # its)))"

definition workload_of ::
  "manifest \<Rightarrow> bool \<Rightarrow> (nat \<Rightarrow> nat \<times> bool) \<Rightarrow> nat \<Rightarrow> nat \<Rightarrow> bool \<Rightarrow> item list result"
where
  "workload_of M mixed draw rate seconds burst = allocate_all M mixed draw 0 (arrival_plan rate seconds burst) (\<lambda>_. 0)"

section \<open>One request\<close>

definition operation_of :: "item \<Rightarrow> string" where
  "operation_of it = (if it_hot it then ''hot_hold'' else if it_write it then ''hold'' else ''read'')"

text \<open>What one physical attempt meets: a response, or a transport error by its type.\<close>

datatype reply = Responded http_response | Transport string

record tally =
  tl_physical :: nat
  tl_bytes :: nat
  tl_first_failures :: "string list"
  tl_retry_attempts :: "string list"
  tl_attempt_errors :: "string list"
  tl_transport_errors :: "string list"
  tl_retry_successes :: "string list"
  tl_retry_exhausted :: "string list"
  tl_error_codes :: "string list"
  tl_hot_conflicts :: nat
  tl_statuses :: "(string \<times> string) list"
  tl_latency :: "(string \<times> string \<times> nat \<times> rat) list"
  tl_task_errors :: "string list"
  tl_drops :: "string list"
  tl_late :: nat
  tl_lags :: "rat list"

definition empty_tally :: tally where
  "empty_tally = \<lparr>tl_physical = 0, tl_bytes = 0, tl_first_failures = [], tl_retry_attempts = [], tl_attempt_errors = [],
     tl_transport_errors = [], tl_retry_successes = [], tl_retry_exhausted = [], tl_error_codes = [], tl_hot_conflicts = 0,
     tl_statuses = [], tl_latency = [], tl_task_errors = [], tl_drops = [], tl_late = 0, tl_lags = []\<rparr>"

definition count_retry :: "nat \<Rightarrow> string \<Rightarrow> tally \<Rightarrow> tally" where
  "count_retry attempt reason t =
     t\<lparr>tl_first_failures := (if attempt = 1 then tl_first_failures t @ [reason] else tl_first_failures t),
       tl_retry_attempts := tl_retry_attempts t @ [reason]\<rparr>"

text \<open>
  The attempts.  A read answered with 200 stores the entity tag, and raises \<open>KeyError\<close> without
  one.  The result is the last attempt's number and its response (\<open>None\<close>: transport error).
\<close>

fun attempt_loop ::
  "nat \<Rightarrow> item \<Rightarrow> (nat \<Rightarrow> reply) \<Rightarrow> nat list \<Rightarrow> nat \<times> http_response option \<Rightarrow> tally \<Rightarrow> (nat \<times> http_response option) result \<times> tally"
where
  "attempt_loop max_attempts it replies [] final t = (Inr final, t)"
| "attempt_loop max_attempts it replies (attempt # later) final t =
     (let t = t\<lparr>tl_physical := tl_physical t + 1\<rparr>; op = operation_of it in
      case replies attempt of
        Responded r \<Rightarrow>
          let t = t\<lparr>tl_bytes := tl_bytes t + hr_size r\<rparr>; code = error_code r in
          if \<not> it_write it \<and> hr_status r = 200 \<and> hr_etag r = None then (Inl (PyError ''KeyError''), t)
          else if retryable_response (it_write it) r code \<and> attempt < max_attempts
          then attempt_loop max_attempts it replies later (attempt, Some r)
            (count_retry attempt (op @ '':'' @ int_str (hr_status r) @ '':'' @ code) t)
          else (Inr (attempt, Some r), t)
      | Transport e \<Rightarrow>
          let t = t\<lparr>tl_attempt_errors := tl_attempt_errors t @ [e]\<rparr> in
          if attempt < max_attempts
          then attempt_loop max_attempts it replies later (attempt, None) (count_retry attempt (op @ '':transport:'' @ e) t)
          else (Inr (attempt, None), t\<lparr>tl_transport_errors := tl_transport_errors t @ [e]\<rparr>))"

definition write_success :: "bool \<Rightarrow> int" where
  "write_success redis_first = (if redis_first then 202 else 201)"

definition status_text :: "http_response option \<Rightarrow> string" where
  "status_text r = (case r of None \<Rightarrow> ''transport_error'' | Some r \<Rightarrow> int_str (hr_status r))"

definition hot_conflict :: "item \<Rightarrow> http_response option \<Rightarrow> bool" where
  "hot_conflict it r = (case r of None \<Rightarrow> False
     | Some r \<Rightarrow> it_hot it \<and> hr_status r = 409 \<and> (error_code r = ''SEAT_BUSY'' \<or> error_code r = ''SEAT_UNAVAILABLE''))"

definition expected_status :: "bool \<Rightarrow> bool \<Rightarrow> int \<Rightarrow> bool" where
  "expected_status redis_first write status \<longleftrightarrow>
     (if write then status = write_success redis_first else status = 200 \<or> status = 304)"

text \<open>The bookkeeping after the attempts; \<open>duration\<close> in milliseconds.\<close>

definition settle_request :: "bool \<Rightarrow> rat \<Rightarrow> item \<Rightarrow> nat \<times> http_response option \<Rightarrow> tally \<Rightarrow> tally" where
  "settle_request redis_first duration it = (\<lambda>(used, r) t.
     let op = operation_of it; status = status_text r;
         success = ((case r of None \<Rightarrow> False | Some r \<Rightarrow> expected_status redis_first (it_write it) (hr_status r)) \<or> hot_conflict it r);
         t = (if used > 1 then if success then t\<lparr>tl_retry_successes := tl_retry_successes t @ [op]\<rparr>
              else t\<lparr>tl_retry_exhausted := tl_retry_exhausted t @ [op]\<rparr> else t);
         t = (case r of
                None \<Rightarrow> t
              | Some h \<Rightarrow>
                  if expected_status redis_first (it_write it) (hr_status h) then t
                  else t\<lparr>tl_hot_conflicts := tl_hot_conflicts t + (if hot_conflict it r then 1 else 0),
                    tl_error_codes := tl_error_codes t @ [op @ '':'' @ status @ '':'' @ error_code h]\<rparr>) in
     t\<lparr>tl_statuses := tl_statuses t @ [(op, status)], tl_latency := tl_latency t @ [(op, status, it_phase it, duration)]\<rparr>)"

text \<open>A whole task; an exception that escapes it is counted when the task is done.\<close>

definition request_task :: "bool \<Rightarrow> nat \<Rightarrow> item \<Rightarrow> (nat \<Rightarrow> reply) \<Rightarrow> rat \<Rightarrow> tally \<Rightarrow> tally" where
  "request_task redis_first max_attempts it replies duration t =
     (case attempt_loop max_attempts it replies [1..<max_attempts + 1] (0, None) t of
        (Inl (PyError e), t) \<Rightarrow> t\<lparr>tl_task_errors := tl_task_errors t @ [e]\<rparr>
      | (Inl _, t) \<Rightarrow> t\<lparr>tl_task_errors := tl_task_errors t @ [''Exception'']\<rparr>
      | (Inr out, t) \<Rightarrow> settle_request redis_first duration it out t)"

section \<open>The scheduler\<close>

record options =
  op_rate :: nat
  op_inflight :: nat
  op_max_attempts :: nat
  op_late_window :: rat
  op_redis_first :: bool
  op_mixed :: bool

text \<open>How late an arrival is (in seconds), how many tasks are pending, and how its task will go.\<close>

record moment =
  mo_late :: rat
  mo_pending :: nat
  mo_replies :: "nat \<Rightarrow> reply"
  mo_duration :: rat

datatype verdict = Deliver | Deliver_late | Drop_late | Drop_inflight

definition decide :: "options \<Rightarrow> moment \<Rightarrow> verdict" where
  "decide opt m =
     (let too_late = mo_late m > max (5 / 100) (1 / of_nat (op_rate opt)) in
      if too_late \<and> op_late_window opt > 0 \<and> mo_late m * 1000 \<le> op_late_window opt \<and> mo_pending m < op_inflight opt then Deliver_late
      else if too_late then Drop_late
      else if mo_pending m \<ge> op_inflight opt then Drop_inflight
      else Deliver)"

definition schedule_item :: "options \<Rightarrow> item \<Rightarrow> moment \<Rightarrow> tally \<Rightarrow> tally" where
  "schedule_item opt it m t =
     (let t = t\<lparr>tl_lags := tl_lags t @ [mo_late m * 1000]\<rparr>;
          task = request_task (op_redis_first opt) (op_max_attempts opt) it (mo_replies m) (mo_duration m) in
      case decide opt m of
        Deliver \<Rightarrow> task t
      | Deliver_late \<Rightarrow> task (t\<lparr>tl_late := tl_late t + 1\<rparr>)
      | Drop_late \<Rightarrow> t\<lparr>tl_drops := tl_drops t @ [''late'']\<rparr>
      | Drop_inflight \<Rightarrow> t\<lparr>tl_drops := tl_drops t @ [''inflight_limit'']\<rparr>)"

text \<open>
  The run.  Tasks overlap in the program; they only add to counters, so the tally is the one of
  running each where it is created.
\<close>

definition run_load :: "options \<Rightarrow> (item \<times> moment) list \<Rightarrow> tally" where
  "run_load opt xs = fold (\<lambda>(it, m). schedule_item opt it m) xs empty_tally"

section \<open>The gates\<close>

definition latencies :: "string \<Rightarrow> tally \<Rightarrow> rat list" where
  "latencies op t = map (\<lambda>(_, _, _, d). d) (filter (\<lambda>(o', _, _, _). o' = op) (tl_latency t))"

definition status_expected :: "bool \<Rightarrow> string \<times> string \<Rightarrow> bool" where
  "status_expected redis_first = (\<lambda>(op, status).
     if op = ''read'' then status = ''200'' \<or> status = ''304''
     else if op = ''hot_hold'' then status = int_str (write_success redis_first) \<or> status = ''409''
     else status = int_str (write_success redis_first))"

definition unexpected :: "bool \<Rightarrow> tally \<Rightarrow> int" where
  "unexpected redis_first t =
     int (length (filter (\<lambda>s. \<not> status_expected redis_first s) (tl_statuses t))) +
     (int (length (filter (\<lambda>s. s = (''hot_hold'', ''409'')) (tl_statuses t))) - int (tl_hot_conflicts t))"

text \<open>\<open>bool(values) and percentile(values, 0.95) <= limit\<close>\<close>

definition p95_within :: "rat \<Rightarrow> rat list \<Rightarrow> bool" where
  "p95_within limit values = (case percentile values (95 / 100) of None \<Rightarrow> False | Some p \<Rightarrow> p \<le> limit)"

definition local_read_gate :: "options \<Rightarrow> tally \<Rightarrow> bool" where
  "local_read_gate opt t \<longleftrightarrow> tl_drops t = [] \<and> unexpected (op_redis_first opt) t = 0 \<and> tl_task_errors t = [] \<and>
     p95_within 150 (latencies ''read'' t)"

definition reservation_gate :: "tally \<Rightarrow> bool" where
  "reservation_gate t = p95_within 300 (latencies ''hold'' t)"

definition accounting_pass :: "nat \<Rightarrow> tally \<Rightarrow> bool" where
  "accounting_pass n t \<longleftrightarrow> length (tl_statuses t) + length (tl_task_errors t) + length (tl_drops t) = n"

definition phase_latencies :: "nat \<Rightarrow> string \<Rightarrow> tally \<Rightarrow> rat list" where
  "phase_latencies phase op t =
     map (\<lambda>(_, _, _, d). d) (filter (\<lambda>(o', _, p, _). o' = op \<and> p = phase) (tl_latency t))"

definition phase_gate :: "tally \<Rightarrow> bool" where
  "phase_gate t = list_all (\<lambda>(op, _, phase, _). p95_within (if op = ''read'' then 150 else 300) (phase_latencies phase op t)) (tl_latency t)"

definition hot_failed :: "options \<Rightarrow> tally \<Rightarrow> rat list" where
  "hot_failed opt t = map (\<lambda>(_, _, _, d). d)
     (filter (\<lambda>(op, status, _, _). op = ''hot_hold'' \<and> status \<noteq> int_str (write_success (op_redis_first opt))) (tl_latency t))"

definition hot_gate :: "options \<Rightarrow> tally \<Rightarrow> bool" where
  "hot_gate opt t \<longleftrightarrow> \<not> op_mixed opt \<or> p95_within 200 (hot_failed opt t)"

definition workload_gate :: "options \<Rightarrow> nat \<Rightarrow> tally \<Rightarrow> bool" where
  "workload_gate opt n t \<longleftrightarrow> local_read_gate opt t \<and> reservation_gate t \<and> accounting_pass n t \<and> phase_gate t \<and> hot_gate opt t"

end
