(* ===== verification/Load_Facts.thy ===== *)
theory Load_Facts
  imports Load
begin

text \<open>
  Facts about the load generator: the plan offers exactly the configured number of requests in
  order, ordinary holds never compete for a seat, every arrival is accounted for exactly once, and
  a passed gate means what it says about the responses.
\<close>

section \<open>Percentiles\<close>

lemma percentile_index:
  assumes "values \<noteq> []" and "0 < f" and "f \<le> 1"
  shows "0 < nat \<lceil>of_nat (length values) * f\<rceil>" and "nat \<lceil>of_nat (length values) * f\<rceil> \<le> length values"
proof -
  have n: "0 < (of_nat (length values) :: rat)" using assms(1) by simp
  then have "0 < of_nat (length values) * f" using assms(2) by simp
  then show "0 < nat \<lceil>of_nat (length values) * f\<rceil>" by simp
  have "of_nat (length values) * f \<le> of_nat (length values)" using n assms(3) by (simp add: mult_left_le)
  then have "\<lceil>of_nat (length values) * f\<rceil> \<le> int (length values)" by (metis ceiling_le of_int_of_nat_eq)
  then show "nat \<lceil>of_nat (length values) * f\<rceil> \<le> length values" by linarith
qed

lemma sorted_prefix_le: "sorted xs \<Longrightarrow> k < length xs \<Longrightarrow> k + 1 \<le> length (filter (\<lambda>x. x \<le> xs ! k) xs)"
proof -
  assume s: "sorted xs" and k: "k < length xs"
  have "filter (\<lambda>x. x \<le> xs ! k) (take (k + 1) xs) = take (k + 1) xs"
    using s k by (intro filter_True) (auto simp: in_set_conv_nth sorted_iff_nth_mono)
  then have "length (filter (\<lambda>x. x \<le> xs ! k) (take (k + 1) xs @ drop (k + 1) xs)) \<ge> length (take (k + 1) xs)"
    by (simp only: filter_append length_append)
  then show ?thesis using k by simp
qed

lemma filter_sort_length: "length (filter P (sort xs)) = length (filter P xs)"
proof -
  have "length (filter P (insort x ys)) = length (filter P (x # ys))" for x ys by (induction ys) auto
  then have "length (filter P (foldr insort xs [])) = length (filter P xs)"
    by (induction xs) (simp_all split: if_splits)
  then show ?thesis by (simp add: sort_key_def)
qed

text \<open>
  Fact.  A percentile is one of the measured values, and at least the given share of the values
  is not above it.
\<close>

theorem percentile_correct:
  assumes "percentile values f = Some p" and "0 < f" and "f \<le> 1"
  shows "p \<in> set values \<and> of_nat (length values) * f \<le> of_nat (length (filter (\<lambda>x. x \<le> p) values))"
proof -
  let ?k = "nat \<lceil>of_nat (length values) * f\<rceil>"
  have ne: "values \<noteq> []" using assms(1) by (auto simp: percentile_def)
  note k = percentile_index [OF ne assms(2,3)]
  have p: "p = sort values ! (?k - 1)" using assms(1) ne k(1) by (simp add: percentile_def Let_def)
  have lt: "?k - 1 < length (sort values)" unfolding length_sort using k by linarith
  have "p \<in> set (sort values)" unfolding p by (rule nth_mem [OF lt])
  moreover have "?k \<le> length (filter (\<lambda>x. x \<le> p) values)"
    using sorted_prefix_le [OF sorted_sort lt] k(1) by (simp add: p filter_sort_length)
  moreover have "of_nat (length values) * f \<le> (of_nat ?k :: rat)" using k(1) by (simp add: le_of_int_ceiling)
  ultimately show ?thesis using order_trans [of "of_nat (length values) * f" "of_nat ?k" "of_nat (length (filter (\<lambda>x. x \<le> p) values))"]
    by (simp only: set_sort of_nat_le_iff)
qed

theorem percentile_correct_witness:
  "percentile [30, 10, 20] (1 / 2) = Some 20 \<and> (20 :: rat) \<in> set [30, 10, 20]"
proof -
  have "\<lceil>3 / 2 :: rat\<rceil> = 2" by (rule ceiling_unique) simp_all
  then have "percentile [30, 10, 20] (1 / 2) = Some 20" by (simp add: percentile_def)
  then show ?thesis using percentile_correct [of "[30, 10, 20]" "1 / 2" 20] by simp
qed

section \<open>The plan\<close>

lemma plan_length: "length (plan_phases n e phases) = sum_list (map (\<lambda>(r, d). r * d) phases)"
  by (induction n e phases rule: plan_phases.induct) auto

lemma plan_bounds:
  assumes "x \<in> set (plan_phases n e phases)" and "\<forall>(r, d)\<in>set phases. 0 < r"
  shows "e \<le> fst x \<and> fst x < e + of_nat (sum_list (map snd phases))"
  using assms
proof (induction n e phases rule: plan_phases.induct)
  case (2 n e r d phases)
  consider i where "i < r * d" "x = (e + of_nat i / of_nat r, n)" | "x \<in> set (plan_phases (n + 1) (e + of_nat d) phases)"
    using 2(2) by auto
  then show ?case
  proof cases
    case 1
    have r: "0 < (of_nat r :: rat)" using 2(3) by simp
    have "(of_nat i :: rat) < of_nat d * of_nat r" using 1(1) by (metis of_nat_less_iff of_nat_mult mult.commute)
    then have "of_nat i / of_nat r < (of_nat d :: rat)" using r by (simp add: divide_less_eq)
    moreover have "0 \<le> (of_nat (sum_list (map snd phases)) :: rat)" by simp
    ultimately have "e + of_nat i / of_nat r < e + (of_nat d + of_nat (sum_list (map snd phases)))" by linarith
    then show ?thesis using 1(2) r by simp
  next
    case 2
    then have "e + of_nat d \<le> fst x \<and> fst x < e + of_nat d + of_nat (sum_list (map snd phases))"
      using "2.IH" "2.prems"(2) by auto
    moreover have "0 \<le> (of_nat d :: rat)" by simp
    ultimately show ?thesis by (simp add: add.assoc)
  qed
qed simp

lemma plan_sorted:
  assumes "\<forall>(r, d)\<in>set phases. 0 < r"
  shows "sorted (map fst (plan_phases n e phases))"
  using assms
proof (induction n e phases rule: plan_phases.induct)
  case (2 n e r d phases)
  have r: "0 < (of_nat r :: rat)" using 2(2) by simp
  have "sorted (map (\<lambda>i. e + of_nat i / (of_nat r :: rat)) [0..<r * d])"
    using r by (simp add: sorted_iff_nth_mono divide_right_mono)
  moreover have "x < y" if "x \<in> set (map (\<lambda>i. e + of_nat i / (of_nat r :: rat)) [0..<r * d])"
    and "y \<in> fst ` set (plan_phases (n + 1) (e + of_nat d) phases)" for x y
  proof -
    have "x < e + of_nat d"
      using plan_bounds [of "(x, n)" n e "[(r, d)]"] that(1) 2(2) by (auto simp: image_iff)
    moreover have "e + of_nat d \<le> y" using that(2) plan_bounds 2(2) by fastforce
    ultimately show ?thesis by simp
  qed
  ultimately show ?case using 2 by (auto simp: sorted_append o_def intro: less_imp_le)
qed simp

text \<open>
  Fact.  The arrival plan offers exactly rate times duration requests (600 seconds' worth in a
  burst run: one minute, two minutes at four times the rate, one minute), in order of their due
  times, all within the run.
\<close>

theorem arrival_plan_offers_the_rate:
  assumes "0 < rate"
  shows "length (arrival_plan rate seconds burst) = rate * (if burst then 600 else seconds) \<and>
    sorted (map fst (arrival_plan rate seconds burst)) \<and>
    (\<forall>x\<in>set (arrival_plan rate seconds burst). 0 \<le> fst x \<and> fst x < of_nat (if burst then 240 else seconds))"
proof -
  let ?ph = "if \<not> burst then [(rate, seconds)] else [(rate, 60), (rate * 4, 120), (rate, 60)]"
  have pos: "\<forall>(r, d)\<in>set ?ph. 0 < r" using assms by auto
  have "sum_list (map snd ?ph) = (if burst then 240 else seconds)" by simp
  then have "\<forall>x\<in>set (arrival_plan rate seconds burst). 0 \<le> fst x \<and> fst x < of_nat (if burst then 240 else seconds)"
    using plan_bounds [OF _ pos, of _ 0 0] by (simp only: arrival_plan_def) simp
  moreover have "length (arrival_plan rate seconds burst) = rate * (if burst then 600 else seconds)"
    by (simp add: arrival_plan_def plan_length)
  moreover have "sorted (map fst (arrival_plan rate seconds burst))"
    unfolding arrival_plan_def by (rule plan_sorted [OF pos])
  ultimately show ?thesis by blast
qed

theorem arrival_plan_offers_the_rate_witness: "length (arrival_plan 3 7 False) = 21 \<and> length (arrival_plan 2 7 True) = 1200"
  using arrival_plan_offers_the_rate [of 3 7 False] arrival_plan_offers_the_rate [of 2 7 True] by simp

section \<open>Seats of the workload\<close>

definition ordinary :: "item \<Rightarrow> bool" where
  "ordinary it \<longleftrightarrow> it_write it \<and> \<not> it_hot it"

definition place :: "item \<Rightarrow> string \<times> int" where
  "place it = (it_show it, it_seat it)"

lemma allocate_ordinary:
  assumes "allocate M mixed draw i a counts = Inr (it, counts')"
  shows "ordinary it \<Longrightarrow> it_seat it = mf_seat_offset M + int (counts (it_show it)) \<and> it_seat it < mf_seats_per_show M \<and>
      (mixed \<longrightarrow> place it \<noteq> (mf_hot_hold_show M, mf_hot_hold_seat M)) \<and> counts' = counts(it_show it := counts (it_show it) + 1)"
    and "\<not> ordinary it \<Longrightarrow> counts' = counts"
  using assms
  by (auto simp: allocate_def Let_def ebind_Inr_iff ordinary_def place_def split: prod.splits option.splits if_splits)

lemma allocate_all_ordinary:
  assumes "allocate_all M mixed draw i plan counts = Inr its"
  shows "\<forall>it\<in>set its. ordinary it \<longrightarrow> mf_seat_offset M + int (counts (it_show it)) \<le> it_seat it \<and>
      it_seat it < mf_seats_per_show M \<and> (mixed \<longrightarrow> place it \<noteq> (mf_hot_hold_show M, mf_hot_hold_seat M))"
    and "distinct (map place (filter ordinary its))"
  using assms
proof (induction plan arbitrary: i counts its)
  case (Cons a plan)
  {
    case 1
    obtain it counts' its' where s: "allocate M mixed draw i a counts = Inr (it, counts')"
      "allocate_all M mixed draw (i + 1) plan counts' = Inr its'" "its = it # its'"
      using 1 by (auto simp: ebind_Inr_iff)
    have "counts x \<le> counts' x" for x using allocate_ordinary [OF s(1)] by (cases "ordinary it") auto
    then have mono: "int (counts x) \<le> int (counts' x)" for x by simp
    show ?case
    proof (intro ballI impI)
      fix x assume x: "x \<in> set its" "ordinary x"
      show "mf_seat_offset M + int (counts (it_show x)) \<le> it_seat x \<and> it_seat x < mf_seats_per_show M \<and>
          (mixed \<longrightarrow> place x \<noteq> (mf_hot_hold_show M, mf_hot_hold_seat M))"
      proof (cases "x = it")
        case True
        then show ?thesis using allocate_ordinary(1) [OF s(1)] x(2) by simp
      next
        case False
        then have "mf_seat_offset M + int (counts' (it_show x)) \<le> it_seat x \<and> it_seat x < mf_seats_per_show M \<and>
          (mixed \<longrightarrow> place x \<noteq> (mf_hot_hold_show M, mf_hot_hold_seat M))" using Cons.IH(1) [OF s(2)] x s(3) by simp
        then show ?thesis using mono [of "it_show x"] by linarith
      qed
    qed
  next
    case 2
    obtain it counts' its' where s: "allocate M mixed draw i a counts = Inr (it, counts')"
      "allocate_all M mixed draw (i + 1) plan counts' = Inr its'" "its = it # its'"
      using 2 by (auto simp: ebind_Inr_iff)
    have "place it \<noteq> place x" if "ordinary it" "ordinary x" "x \<in> set its'" for x
    proof
      assume eq: "place it = place x"
      have "mf_seat_offset M + int (counts' (it_show x)) \<le> it_seat x" using Cons.IH(1) [OF s(2)] that by blast
      moreover have "counts' (it_show x) = counts (it_show it) + 1" "it_seat it = mf_seat_offset M + int (counts (it_show it))"
        using allocate_ordinary(1) [OF s(1) that(1)] eq by (auto simp: place_def)
      ultimately show False using eq by (simp add: place_def)
    qed
    then show ?case using Cons.IH(2) [OF s(2)] s(3) by auto
  }
qed auto

text \<open>
  Fact.  Ordinary holds never compete: in a workload that was accepted they all have different
  seats, each beyond the offset and within the show, and none has the shared hot seat.
\<close>

theorem ordinary_holds_never_compete:
  assumes "workload_of M mixed draw rate seconds burst = Inr its"
  shows "distinct (map place (filter ordinary its)) \<and>
    (\<forall>it\<in>set its. ordinary it \<longrightarrow> mf_seat_offset M \<le> it_seat it \<and> it_seat it < mf_seats_per_show M \<and>
       (mixed \<longrightarrow> place it \<noteq> (mf_hot_hold_show M, mf_hot_hold_seat M)))"
  using allocate_all_ordinary [OF assms [unfolded workload_of_def]] by auto

definition demo_manifest :: manifest where
  "demo_manifest = \<lparr>mf_shows = [''a'', ''b''], mf_tokens = [''t''], mf_seat_offset = 0, mf_seats_per_show = 300,
     mf_hot_hold_show = ''a'', mf_hot_hold_seat = 299, mf_hot_show = None\<rparr>"

definition demo_items :: "item list" where
  "demo_items = (case workload_of demo_manifest False (\<lambda>i. (i, False)) 1 2 False of Inr its \<Rightarrow> its | Inl _ \<Rightarrow> [])"

lemma demo_items: "workload_of demo_manifest False (\<lambda>i. (i, False)) 1 2 False = Inr demo_items"
  "map place (filter ordinary demo_items) = [(''a'', 0)]"
  by code_simp+

theorem ordinary_holds_never_compete_witness:
  "map place (filter ordinary demo_items) = [(''a'', 0)] \<and> distinct (map place (filter ordinary demo_items))"
  using ordinary_holds_never_compete [OF demo_items(1)] demo_items(2) by simp

section \<open>Accounting\<close>

lemma count_retry_same [simp]:
  "tl_statuses (count_retry n r t) = tl_statuses t" "tl_task_errors (count_retry n r t) = tl_task_errors t"
  "tl_drops (count_retry n r t) = tl_drops t" "tl_hot_conflicts (count_retry n r t) = tl_hot_conflicts t"
  "tl_physical (count_retry n r t) = tl_physical t"
  by (simp_all add: count_retry_def)

lemma attempt_loop_counts:
  assumes "attempt_loop m it replies as final t = (r, t')"
  shows "tl_statuses t' = tl_statuses t \<and> tl_task_errors t' = tl_task_errors t \<and> tl_drops t' = tl_drops t \<and>
    tl_hot_conflicts t' = tl_hot_conflicts t \<and> tl_physical t \<le> tl_physical t' \<and> tl_physical t' \<le> tl_physical t + length as"
  using assms
proof (induction as arbitrary: final t)
  case (Cons a as)
  show ?case using Cons.prems by (cases "replies a") (auto simp: Let_def dest!: Cons.IH split: if_splits)
qed simp

lemma attempt_loop_same:
  assumes "attempt_loop m it replies as final t = (r, t')"
  shows "tl_statuses t' = tl_statuses t" "tl_task_errors t' = tl_task_errors t" "tl_drops t' = tl_drops t"
    "tl_hot_conflicts t' = tl_hot_conflicts t" "tl_physical t \<le> tl_physical t'" "tl_physical t' \<le> tl_physical t + length as"
  using attempt_loop_counts [OF assms] by blast+

lemma attempt_loop_physical:
  assumes "attempt_loop m it replies (a # as) final t = (r, t')"
  shows "tl_physical t + 1 \<le> tl_physical t'"
proof -
  have *: "attempt_loop m it replies as f u = (r, t') \<Longrightarrow> tl_physical u \<le> tl_physical t'" for f u
    by (rule attempt_loop_same(5))
  show ?thesis using assms by (cases "replies a") (auto simp: Let_def dest!: * split: if_splits)
qed

lemma settle_request_effect:
  "tl_statuses (settle_request rf d it out t) = tl_statuses t @ [(operation_of it, status_text (snd out))]"
  "tl_task_errors (settle_request rf d it out t) = tl_task_errors t" "tl_drops (settle_request rf d it out t) = tl_drops t"
  "tl_physical (settle_request rf d it out t) = tl_physical t"
  "tl_hot_conflicts (settle_request rf d it out t) =
     tl_hot_conflicts t + (if hot_conflict it (snd out) \<and>
       (case snd out of None \<Rightarrow> False | Some h \<Rightarrow> \<not> expected_status rf (it_write it) (hr_status h)) then 1 else 0)"
  by (cases out; cases "snd out"; simp add: settle_request_def Let_def hot_conflict_def)+

text \<open>The two things that can come out of a task: a status or an error.\<close>

lemma request_task_effect:
  fixes rf m it replies d t
  defines "t' \<equiv> request_task rf m it replies d t"
  obtains (status) out where "tl_statuses t' = tl_statuses t @ [(operation_of it, status_text out)]"
    "tl_task_errors t' = tl_task_errors t" "tl_drops t' = tl_drops t"
    "tl_hot_conflicts t' \<le> tl_hot_conflicts t + (if hot_conflict it out then 1 else 0)"
  | (error) e where "tl_statuses t' = tl_statuses t" "tl_task_errors t' = tl_task_errors t @ [e]"
    "tl_drops t' = tl_drops t" "tl_hot_conflicts t' = tl_hot_conflicts t"
proof -
  obtain r t1 where a: "attempt_loop m it replies [1..<m + 1] (0, None) t = (r, t1)" by (rule prod.exhaust)
  note same = attempt_loop_same [OF a]
  show ?thesis
  proof (cases r)
    case (Inl x)
    then show ?thesis using error a same by (cases x) (auto simp: t'_def request_task_def)
  next
    case (Inr out)
    then have "t' = settle_request rf d it out t1" using a by (simp add: t'_def request_task_def)
    then show ?thesis using status [of "snd out"] same by (simp add: settle_request_effect)
  qed
qed

lemma request_task_physical:
  "tl_physical (request_task rf m it replies d t) \<le> tl_physical t + m"
  "1 \<le> m \<Longrightarrow> tl_physical t + 1 \<le> tl_physical (request_task rf m it replies d t)"
proof -
  obtain r t1 where a: "attempt_loop m it replies [1..<m + 1] (0, None) t = (r, t1)" by (rule prod.exhaust)
  have eq: "tl_physical (request_task rf m it replies d t) = tl_physical t1"
    using a by (cases r) (auto simp: request_task_def settle_request_effect split: exc.splits)
  show "tl_physical (request_task rf m it replies d t) \<le> tl_physical t + m"
    using attempt_loop_same(6) [OF a] by (simp add: eq del: upt_Suc)
  show "tl_physical t + 1 \<le> tl_physical (request_task rf m it replies d t)" if "1 \<le> m"
  proof -
    have "[1..<m + 1] = 1 # [2..<m + 1]" using that by (simp add: upt_conv_Cons numeral_2_eq_2)
    then show ?thesis using attempt_loop_physical a by (simp add: eq)
  qed
qed

definition handled :: "tally \<Rightarrow> nat" where
  "handled t = length (tl_statuses t) + length (tl_task_errors t) + length (tl_drops t)"

text \<open>The conflicts that are counted as expected are among the hot holds answered with 409.\<close>

definition conflicts_ok :: "tally \<Rightarrow> bool" where
  "conflicts_ok t \<longleftrightarrow> tl_hot_conflicts t \<le> length (filter (\<lambda>s. s = (''hot_hold'', ''409'')) (tl_statuses t))"

lemma conflicts_ok_tally:
  "conflicts_ok (t\<lparr>tl_lags := x\<rparr>) = conflicts_ok t" "conflicts_ok (t\<lparr>tl_late := n\<rparr>) = conflicts_ok t"
  "conflicts_ok (t\<lparr>tl_drops := ds\<rparr>) = conflicts_ok t"
  by (simp_all add: conflicts_ok_def)

lemma int_str_409: "int_str 409 = ''409''"
  by code_simp

lemma request_task_handled: "handled (request_task rf m it replies d t) = handled t + 1"
  by (rule request_task_effect [of rf m it replies d t]) (simp_all add: handled_def)

lemma request_task_conflicts:
  assumes "conflicts_ok t"
  shows "conflicts_ok (request_task rf m it replies d t)"
proof (rule request_task_effect [of rf m it replies d t], goal_cases)
  case (1 out)
  have "hot_conflict it out \<Longrightarrow> (operation_of it, status_text out) = (''hot_hold'', ''409'')"
    by (auto simp: hot_conflict_def operation_of_def status_text_def int_str_409 split: option.splits)
  then show ?case using 1 assms by (auto simp: conflicts_ok_def split: if_splits)
next
  case (2 e)
  then show ?case using assms by (simp add: conflicts_ok_def)
qed

lemma schedule_item_effect:
  "handled (schedule_item opt it m t) = handled t + 1"
  "conflicts_ok t \<Longrightarrow> conflicts_ok (schedule_item opt it m t)"
proof -
  show "handled (schedule_item opt it m t) = handled t + 1"
    by (simp add: schedule_item_def Let_def request_task_handled split: verdict.split) (simp add: handled_def)
  show "conflicts_ok t \<Longrightarrow> conflicts_ok (schedule_item opt it m t)"
    by (cases "decide opt m")
      (simp_all add: schedule_item_def Let_def request_task_conflicts conflicts_ok_tally)
qed

lemma status_expected_iff:
  "(case s of (op, status) \<Rightarrow>
      if op = ''read'' then status \<in> {''200'', ''304''}
      else if op = ''hot_hold'' then status \<in> {int_str (write_success rf), ''409''} else status = int_str (write_success rf)) =
   status_expected rf s"
  unfolding status_expected_def by (simp only: insert_iff empty_iff simp_thms)

lemma fold_handled: "handled (fold (\<lambda>(it, m). schedule_item opt it m) xs t) = handled t + length xs"
  by (induction xs arbitrary: t) (simp_all add: schedule_item_effect case_prod_beta)

lemma fold_conflicts: "conflicts_ok t \<Longrightarrow> conflicts_ok (fold (\<lambda>(it, m). schedule_item opt it m) xs t)"
  by (induction xs arbitrary: t) (simp_all add: schedule_item_effect case_prod_beta)

text \<open>
  Fact.  Every arrival is accounted for exactly once, whatever the server answers and however
  late the scheduler is: as a status, as a failed task, or as a drop.
\<close>

theorem every_arrival_accounted: "accounting_pass (length xs) (run_load opt xs)"
proof -
  have "handled (run_load opt xs) = handled empty_tally + length xs" unfolding run_load_def by (rule fold_handled)
  then show ?thesis by (simp add: accounting_pass_def handled_def empty_tally_def)
qed

text \<open>
  Fact.  A passed gate means success: then nothing was dropped and no task failed, there is one
  status per arrival, every read was answered with 200 or 304, every ordinary hold with the
  success status of its mode, and every hot hold with that or with a recognised seat conflict.
\<close>

theorem passed_gate_means_success:
  assumes "workload_gate opt n (run_load opt xs)"
  shows "length (tl_statuses (run_load opt xs)) = length xs \<and> tl_drops (run_load opt xs) = [] \<and>
    (\<forall>(op, status)\<in>set (tl_statuses (run_load opt xs)).
       if op = ''read'' then status \<in> {''200'', ''304''}
       else if op = ''hot_hold'' then status \<in> {int_str (write_success (op_redis_first opt)), ''409''}
       else status = int_str (write_success (op_redis_first opt))) \<and>
    tl_hot_conflicts (run_load opt xs) = length (filter (\<lambda>s. s = (''hot_hold'', ''409'')) (tl_statuses (run_load opt xs)))"
proof -
  let ?t = "run_load opt xs" and ?rf = "op_redis_first opt"
  have gate: "tl_drops ?t = []" "tl_task_errors ?t = []" "unexpected ?rf ?t = 0"
    using assms by (simp_all add: workload_gate_def local_read_gate_def)
  have "conflicts_ok ?t" unfolding run_load_def by (rule fold_conflicts) (simp add: conflicts_ok_def empty_tally_def)
  then have le: "tl_hot_conflicts ?t \<le> length (filter (\<lambda>s. s = (''hot_hold'', ''409'')) (tl_statuses ?t))"
    by (simp add: conflicts_ok_def)
  have zero: "length (filter (\<lambda>s. \<not> status_expected ?rf s) (tl_statuses ?t)) = 0"
    and eq: "tl_hot_conflicts ?t = length (filter (\<lambda>s. s = (''hot_hold'', ''409'')) (tl_statuses ?t))"
    using gate(3) le unfolding unexpected_def by linarith+
  have "\<forall>s\<in>set (tl_statuses ?t). status_expected ?rf s" using zero by (simp add: filter_empty_conv)
  then have all: "\<forall>(op, status)\<in>set (tl_statuses ?t).
       if op = ''read'' then status \<in> {''200'', ''304''}
       else if op = ''hot_hold'' then status \<in> {int_str (write_success ?rf), ''409''} else status = int_str (write_success ?rf)"
    unfolding status_expected_iff by blast
  have "length (tl_statuses ?t) = length xs"
    using fold_handled [of opt xs empty_tally] gate(1,2) by (simp add: run_load_def handled_def empty_tally_def)
  then show ?thesis using gate(1) all eq by blast
qed

definition demo_options :: options where
  "demo_options = \<lparr>op_rate = 1, op_inflight = 4, op_max_attempts = 2, op_late_window = 0, op_redis_first = False, op_mixed = False\<rparr>"

definition demo_item :: "bool \<Rightarrow> item" where
  "demo_item write = \<lparr>it_index = 0, it_viewer = 0, it_show = ''a'', it_write = write, it_seat = 0, it_due = 0, it_phase = 0, it_hot = False\<rparr>"

definition demo_moment :: "int \<Rightarrow> moment" where
  "demo_moment status = \<lparr>mo_late = 0, mo_pending = 0,
     mo_replies = (\<lambda>n. if n = 1 then Transport ''ReadError''
       else Responded \<lparr>hr_status = status, hr_json = None, hr_etag = Some ''t'', hr_size = 5\<rparr>), mo_duration = 10\<rparr>"

text \<open>A read and a hold, each answered at the second attempt.\<close>

definition demo_run :: "(item \<times> moment) list" where
  "demo_run = [(demo_item False, demo_moment 200), (demo_item True, demo_moment 201)]"

lemma demo_run_statuses: "tl_statuses (run_load demo_options demo_run) = [(''read'', ''200''), (''hold'', ''201'')]"
  by code_simp

lemma demo_run_gate: "workload_gate demo_options 2 (run_load demo_options demo_run)"
  by code_simp

theorem passed_gate_means_success_witness:
  "tl_statuses (run_load demo_options demo_run) = [(''read'', ''200''), (''hold'', ''201'')] \<and>
   tl_drops (run_load demo_options demo_run) = []"
  using passed_gate_means_success [OF demo_run_gate] demo_run_statuses by simp

text \<open>Retries are bounded: every delivered arrival makes between one and \<open>max_attempts\<close> physical requests.\<close>

lemma physical_bounded: "tl_physical (run_load opt xs) \<le> op_max_attempts opt * length xs"
proof -
  have "tl_physical (schedule_item opt it m t) \<le> tl_physical t + op_max_attempts opt" for it m t
    by (cases "decide opt m")
      (simp_all add: schedule_item_def Let_def request_task_physical(1) [THEN order_trans])
  then have "tl_physical (fold (\<lambda>(it, m). schedule_item opt it m) xs t) \<le> tl_physical t + op_max_attempts opt * length xs" for t
  proof (induction xs arbitrary: t)
    case (Cons x xs)
    let ?t = "schedule_item opt (fst x) (snd x) t"
    have "tl_physical ?t \<le> tl_physical t + op_max_attempts opt" by (rule Cons.prems)
    then show ?case using Cons.IH [OF Cons.prems, of ?t] by (simp add: case_prod_beta)
  qed simp
  from this [of empty_tally] show ?thesis by (simp add: run_load_def empty_tally_def)
qed

section \<open>Bootstrap and diagnostics\<close>

text \<open>
  With the documented behaviour of \<open>raise_for_status\<close>, which rejects everything but 2xx, the last
  assertion of \<open>fetch\<close> is reached only through success codes other than 200.
\<close>

lemma fetch_validator_assertion:
  assumes "fetch_validator raises m replies as = Inl (PyError ''AssertionError'')" and "\<forall>s. raises s \<longleftrightarrow> \<not> (200 \<le> s \<and> s < 300)"
    and "as = [k..<m]" and "k < m"
  shows "200 < hr_status (replies (m - 1)) \<and> hr_status (replies (m - 1)) < 300"
  using assms
proof (induction as arbitrary: k)
  case (Cons a as)
  then have a: "a = k" "as = [Suc k..<m]" by (simp_all add: upt_conv_Cons)
  show ?case
  proof (cases "Suc k < m")
    case True
    then show ?thesis using Cons a by (auto simp: Let_def split: if_splits option.splits)
  next
    case False
    then have "m - 1 = k" using Cons.prems(4) by simp
    then show ?thesis using Cons.prems(1,2) a False by (auto simp: Let_def split: if_splits option.splits)
  qed
qed (auto simp: upt_conv_Cons)

lemma trace_bounded: "length (tr_events (fold trace_event names t)) \<le> max 32 (length (tr_events t))"
proof (induction names arbitrary: t)
  case (Cons n names)
  have "length (tr_events (trace_event n t)) \<le> max 32 (length (tr_events t))" by (simp add: trace_event_def)
  then show ?case using Cons.IH [of "trace_event n t"] by (simp add: max_def split: if_splits)
qed simp

lemma failure_chain_bounded: "length (failure_chain n cause x seen) \<le> n \<and> distinct (failure_chain n cause x seen) \<and>
    set (failure_chain n cause x seen) \<inter> set seen = {}"
proof (induction n cause x seen rule: failure_chain.induct)
  case (3 n cause x seen)
  then show ?case by auto
qed auto

end
