(* ===== verification/Parallel.thy ===== *)
theory Parallel
  imports Load_Facts
begin

text \<open>
  The parallel runner (\<open>scripts/parallel_cloud_load.py\<close>): how a manifest and a rate are split over
  generator processes, and how their results are merged into one verdict; and what the split
  guarantees for the whole fleet.
\<close>

section \<open>Splitting\<close>

text \<open>\<open>xs[i::n]\<close>\<close>

definition slice :: "nat \<Rightarrow> nat \<Rightarrow> 'a list \<Rightarrow> 'a list" where
  "slice i n xs = map (nth xs) (filter (\<lambda>k. i \<le> k \<and> (k - i) mod n = 0) [0..<length xs])"

text \<open>The run goes on; without shows the last remainder raises \<open>ZeroDivisionError\<close>.\<close>

definition split_ok :: "nat \<Rightarrow> int \<Rightarrow> int \<Rightarrow> rat \<Rightarrow> manifest \<Rightarrow> bool" where
  "split_ok workers rate seconds start_delay M \<longleftrightarrow>
     \<not> (workers < 1 \<or> rate < int workers \<or> seconds < 1 \<or> length (mf_shows M) mod workers \<noteq> 0 \<or>
        mf_shows M = [] \<or> length (mf_tokens M) mod length (mf_shows M) \<noteq> 0 \<or> \<not> (1 \<le> start_delay \<and> start_delay \<le> 120))"

definition worker_rates :: "nat \<Rightarrow> nat \<Rightarrow> nat list" where
  "worker_rates workers rate = map (\<lambda>i. rate div workers + (if i < rate mod workers then 1 else 0)) [0..<workers]"

definition shard :: "nat \<Rightarrow> int \<Rightarrow> bool \<Rightarrow> bool \<Rightarrow> nat \<Rightarrow> manifest \<Rightarrow> manifest" where
  "shard workers seat_offset mixed hot_reads i M =
     (let s = M\<lparr>mf_shows := slice i workers (mf_shows M), mf_tokens := slice i workers (mf_tokens M), mf_seat_offset := seat_offset\<rparr>;
          s = (if mixed then s\<lparr>mf_hot_hold_show := hd (mf_shows M), mf_hot_hold_seat := 299\<rparr> else s) in
      if hot_reads then s\<lparr>mf_hot_show := Some (hd (mf_shows M))\<rparr> else s)"

section \<open>Merging\<close>

text \<open>The fields of a generator's result that the runner reads; a missing counter is empty.\<close>

record worker_result =
  wr_started :: rat
  wr_redis_first :: bool
  wr_gate :: bool
  wr_drops :: nat
  wr_late :: nat
  wr_physical :: nat
  wr_retries :: "(string \<times> nat) list"
  wr_read_p95 :: "rat option"
  wr_hold_p95 :: "rat option"

definition counter_get :: "(string \<times> nat) list \<Rightarrow> string \<Rightarrow> nat" where
  "counter_get c k = (case map_of c k of None \<Rightarrow> 0 | Some n \<Rightarrow> n)"

text \<open>\<open>sum_counter\<close>: the keys in order, each with its total.\<close>

definition sum_counter :: "(worker_result \<Rightarrow> (string \<times> nat) list) \<Rightarrow> worker_result list \<Rightarrow> (string \<times> nat) list" where
  "sum_counter field results =
     map (\<lambda>k. (k, sum_list (map (\<lambda>r. counter_get (field r) k) results))) (sort (remdups (concat (map (map fst \<circ> field) results))))"

text \<open>The spread of the start times in milliseconds, when every worker has a result.\<close>

definition start_skew :: "nat \<Rightarrow> worker_result list \<Rightarrow> rat option" where
  "start_skew workers results =
     (if length results = workers \<and> results \<noteq> []
      then Some ((Max (set (map wr_started results)) - Min (set (map wr_started results))) * 1000) else None)"

definition coordination_gate :: "nat \<Rightarrow> bool \<Rightarrow> int list \<Rightarrow> worker_result list \<Rightarrow> bool" where
  "coordination_gate workers redis_first codes results \<longleftrightarrow>
     length results = workers \<and> list_all (\<lambda>c. c = 0) codes \<and>
     (case start_skew workers results of None \<Rightarrow> False | Some skew \<Rightarrow> skew \<le> 100) \<and>
     list_all (\<lambda>r. wr_redis_first r = redis_first) results"

definition fleet_gate :: "nat \<Rightarrow> bool \<Rightarrow> int list \<Rightarrow> worker_result list \<Rightarrow> bool" where
  "fleet_gate workers redis_first codes results \<longleftrightarrow> coordination_gate workers redis_first codes results \<and> list_all wr_gate results"

definition worst :: "rat option list \<Rightarrow> rat option" where
  "worst vs = (let xs = concat (map (\<lambda>v. case v of None \<Rightarrow> [] | Some x \<Rightarrow> [x]) vs) in if xs = [] then None else Some (Max (set xs)))"

record fleet_summary =
  fs_drops :: nat
  fs_late :: nat
  fs_physical :: nat
  fs_retries :: "(string \<times> nat) list"
  fs_skew :: "rat option"
  fs_read_p95 :: "rat option"
  fs_hold_p95 :: "rat option"
  fs_gate :: bool

definition summarize :: "nat \<Rightarrow> bool \<Rightarrow> int list \<Rightarrow> worker_result list \<Rightarrow> fleet_summary" where
  "summarize workers redis_first codes results =
     \<lparr>fs_drops = sum_list (map wr_drops results), fs_late = sum_list (map wr_late results),
      fs_physical = sum_list (map wr_physical results), fs_retries = sum_counter wr_retries results,
      fs_skew = start_skew workers results, fs_read_p95 = worst (map wr_read_p95 results),
      fs_hold_p95 = worst (map wr_hold_p95 results), fs_gate = fleet_gate workers redis_first codes results\<rparr>"

section \<open>The split is a partition\<close>

lemma set_slice: "x \<in> set (slice i n xs) \<longleftrightarrow> (\<exists>k<length xs. x = xs ! k \<and> i \<le> k \<and> (k - i) mod n = 0)"
  by (auto simp: slice_def)

lemma slice_class:
  fixes i k n :: nat
  assumes "i < n"
  shows "(i \<le> k \<and> (k - i) mod n = 0) \<longleftrightarrow> k mod n = i"
proof
  assume "i \<le> k \<and> (k - i) mod n = 0"
  then obtain q where "k = i + n * q" by (metis le_add_diff_inverse mod_0_imp_dvd dvdE)
  then show "k mod n = i" using assms by simp
next
  assume k: "k mod n = i"
  then have "i \<le> k" by (metis mod_less_eq_dividend)
  moreover have "(k - i) mod n = 0" using k by (metis minus_mod_eq_mult_div mod_mult_self1_is_0)
  ultimately show "i \<le> k \<and> (k - i) mod n = 0" by simp
qed

lemma set_slice_class: "i < n \<Longrightarrow> x \<in> set (slice i n xs) \<longleftrightarrow> (\<exists>k<length xs. x = xs ! k \<and> k mod n = i)"
  by (simp add: set_slice slice_class)

lemma slices_disjoint:
  assumes "distinct xs" and "i < n" and "j < n" and "i \<noteq> j"
  shows "set (slice i n xs) \<inter> set (slice j n xs) = {}"
  using assms by (auto simp: set_slice_class nth_eq_iff_index_eq)

lemma slices_cover: "0 < n \<Longrightarrow> (\<Union>i<n. set (slice i n xs)) = set xs"
  by (auto simp: set_slice_class set_conv_nth [of xs]) (metis lessThan_iff mod_less_divisor)

lemma rates_sum: "0 < n \<Longrightarrow> sum_list (worker_rates n rate) = rate"
proof -
  assume n: "0 < n"
  have "sum_list (map (\<lambda>i. if i < m then 1 else 0) [0..<k]) = min m k" for m k :: nat
    by (induction k) (auto simp: min_def)
  moreover have "sum_list (worker_rates n rate) = n * (rate div n) + sum_list (map (\<lambda>i. if i < rate mod n then 1 else 0) [0..<n])"
    by (simp add: worker_rates_def sum_list_addf sum_list_triv)
  ultimately show ?thesis using n by (simp add: min_absorb1 less_imp_le)
qed

text \<open>
  Fact.  The runner splits the work without loss or overlap: the workers' rates add up to the
  whole rate and differ by at most one, the shows of different workers are disjoint, and together
  they are all shows.
\<close>

theorem split_is_a_partition:
  assumes "split_ok workers (int rate) seconds start_delay M" and "distinct (mf_shows M)"
  shows "sum_list (worker_rates workers rate) = rate \<and>
    (\<forall>r\<in>set (worker_rates workers rate). \<forall>q\<in>set (worker_rates workers rate). r \<le> q + 1) \<and>
    (\<forall>i<workers. \<forall>j<workers. i \<noteq> j \<longrightarrow>
       set (mf_shows (shard workers off mixed hot i M)) \<inter> set (mf_shows (shard workers off mixed hot j M)) = {}) \<and>
    (\<Union>i<workers. set (mf_shows (shard workers off mixed hot i M))) = set (mf_shows M)"
proof -
  have n: "0 < workers" using assms(1) by (simp add: split_ok_def)
  have s: "mf_shows (shard workers off mixed hot i M) = slice i workers (mf_shows M)" for i by (simp add: shard_def Let_def)
  have "\<forall>r\<in>set (worker_rates workers rate). \<forall>q\<in>set (worker_rates workers rate). r \<le> q + 1" by (auto simp: worker_rates_def)
  then show ?thesis using rates_sum [OF n] slices_disjoint [OF assms(2)] slices_cover [OF n] by (simp add: s)
qed

theorem split_is_a_partition_witness:
  "set (mf_shows (shard 2 0 False False 0 demo_manifest)) \<inter> set (mf_shows (shard 2 0 False False 1 demo_manifest)) = {} \<and>
   sum_list (worker_rates 2 7) = 7"
proof -
  have "split_ok 2 (int 7) 10 30 (demo_manifest\<lparr>mf_tokens := [''t'', ''u'']\<rparr>)" "distinct (mf_shows (demo_manifest\<lparr>mf_tokens := [''t'', ''u'']\<rparr>))"
    by (simp_all add: split_ok_def demo_manifest_def)
  from split_is_a_partition [OF this, of 0 False False] show ?thesis by (simp add: shard_def)
qed

section \<open>The whole fleet\<close>

lemma allocate_show:
  assumes "allocate M mixed draw i a counts = Inr (it, counts')" and "ordinary it" and "mf_shows M \<noteq> []"
  shows "it_show it \<in> set (mf_shows M)"
  using assms
  by (auto simp: allocate_def Let_def ebind_Inr_iff ordinary_def split: prod.splits option.splits if_splits)

lemma allocate_all_show:
  assumes "allocate_all M mixed draw i plan counts = Inr its" and "mf_shows M \<noteq> []" and "it \<in> set its" and "ordinary it"
  shows "it_show it \<in> set (mf_shows M)"
  using assms
proof (induction plan arbitrary: i counts its)
  case (Cons a plan)
  then obtain x counts' its' where s: "allocate M mixed draw i a counts = Inr (x, counts')"
    "allocate_all M mixed draw (i + 1) plan counts' = Inr its'" "its = x # its'"
    by (auto simp: ebind_Inr_iff)
  then show ?case using Cons allocate_show [OF s(1)] by auto
qed simp

text \<open>
  Fact.  Ordinary holds of different workers never compete either: whatever each worker
  draws, no two of them ask for the same seat of the same show.
\<close>

theorem fleet_holds_never_compete:
  assumes "split_ok workers rate seconds delay M" and "distinct (mf_shows M)" and "i < workers" and "j < workers" and "i \<noteq> j"
    and "workload_of (shard workers off mixed hot i M) mixed draw r n burst = Inr its"
    and "workload_of (shard workers off mixed hot j M) mixed draw' r' n' burst' = Inr its'"
    and "x \<in> set its" and "y \<in> set its'" and "ordinary x" and "ordinary y"
  shows "place x \<noteq> place y"
proof -
  have s: "mf_shows (shard workers off mixed hot k M) = slice k workers (mf_shows M)" for k by (simp add: shard_def Let_def)
  have ne: "slice k workers (mf_shows M) \<noteq> []" if "k < workers" "mf_shows M \<noteq> []" for k
  proof -
    have "length (mf_shows M) mod workers = 0" using assms(1) by (simp add: split_ok_def)
    then have "workers \<le> length (mf_shows M)" using that(2) by (metis dvd_imp_le length_greater_0_conv mod_0_imp_dvd)
    then have "mf_shows M ! k \<in> set (slice k workers (mf_shows M))" using that(1) by (auto simp: set_slice_class intro: exI [of _ k])
    then show ?thesis by auto
  qed
  have some: "mf_shows M \<noteq> []" using assms(1) by (simp add: split_ok_def)
  have "it_show x \<in> set (mf_shows (shard workers off mixed hot i M))"
    by (rule allocate_all_show [OF assms(6) [unfolded workload_of_def] _ assms(8,10)]) (simp add: s ne [OF assms(3) some])
  moreover have "it_show y \<in> set (mf_shows (shard workers off mixed hot j M))"
    by (rule allocate_all_show [OF assms(7) [unfolded workload_of_def] _ assms(9,11)]) (simp add: s ne [OF assms(4) some])
  ultimately have "it_show x \<noteq> it_show y" using slices_disjoint [OF assms(2-5)] by (auto simp: s)
  then show ?thesis by (simp add: place_def)
qed

definition fleet_manifest :: manifest where
  "fleet_manifest = demo_manifest\<lparr>mf_tokens := [''t'', ''u'']\<rparr>"

definition fleet_items :: "nat \<Rightarrow> item list" where
  "fleet_items i = (case workload_of (shard 2 0 False False i fleet_manifest) False (\<lambda>k. (k, False)) 1 1 False of Inr its \<Rightarrow> its | Inl _ \<Rightarrow> [])"

lemma fleet_items:
  "workload_of (shard 2 0 False False 0 fleet_manifest) False (\<lambda>k. (k, False)) 1 1 False = Inr (fleet_items 0)"
  "workload_of (shard 2 0 False False 1 fleet_manifest) False (\<lambda>k. (k, False)) 1 1 False = Inr (fleet_items 1)"
  "length (fleet_items 0) = 1" "length (fleet_items 1) = 1" "list_all ordinary (fleet_items 0)" "list_all ordinary (fleet_items 1)"
  by code_simp+

theorem fleet_holds_never_compete_witness: "place (hd (fleet_items 0)) \<noteq> place (hd (fleet_items 1))"
proof -
  have ok: "split_ok 2 7 10 30 fleet_manifest" "distinct (mf_shows fleet_manifest)"
    by (simp_all add: split_ok_def fleet_manifest_def demo_manifest_def)
  have "hd (fleet_items i) \<in> set (fleet_items i) \<and> ordinary (hd (fleet_items i))" if "i < 2" for i
  proof -
    have "i = 0 \<or> i = 1" using that by linarith
    then have "fleet_items i \<noteq> [] \<and> list_all ordinary (fleet_items i)" using fleet_items(3-6) by auto
    then show ?thesis by (cases "fleet_items i") simp_all
  qed
  from this [of 0] this [of 1] show ?thesis
    using fleet_holds_never_compete [OF ok, of 0 1, OF _ _ _ fleet_items(1,2)] by simp
qed

end
