(* ===== verification/Stage.thy ===== *)
theory Stage
  imports Prelude Complex_Main
begin

text \<open>
  One unattended capacity stage (\<open>scripts/unattended_capacity_stage.py\<close>): the checks of the
  arguments, the sequence of remote calls with its checkpoints, the polling of the generator, the
  finalizer that restores the system, and the gates of the result.  What a remote call does is given
  by a \<open>world\<close>; the calls that were made are recorded in order.
\<close>

section \<open>Arguments\<close>

record stage_args =
  sa_backend_host :: string
  sa_generator_host :: string
  sa_output_exists :: bool
  sa_identity_missing :: bool
  sa_rate :: int
  sa_seconds :: int
  sa_workers :: int
  sa_shows :: int
  sa_seats :: int
  sa_viewers :: int
  sa_sale_hours :: int
  sa_hold_expiry_wait :: int
  sa_retry_delay :: rat
  sa_late_window :: rat
  sa_admission :: "int \<times> int"
  sa_maintenance :: "int \<times> int"
  sa_consumers :: "int \<times> int"

text \<open>\<open>SAFE_HOST.fullmatch\<close>\<close>

definition host_char :: "char \<Rightarrow> bool" where
  "host_char c \<longleftrightarrow> (let n = (of_char c :: nat) in
     (65 \<le> n \<and> n \<le> 90) \<or> (97 \<le> n \<and> n \<le> 122) \<or> (48 \<le> n \<and> n \<le> 57) \<or> c \<in> {CHR ''_'', CHR ''.'', CHR 0x40, CHR 0x2D})"

definition safe_host :: "string \<Rightarrow> bool" where
  "safe_host h \<longleftrightarrow> h \<noteq> [] \<and> list_all host_char h"

definition both_within :: "int \<Rightarrow> int \<Rightarrow> int \<times> int \<Rightarrow> bool" where
  "both_within lo hi = (\<lambda>(a, b). lo \<le> a \<and> a \<le> hi \<and> lo \<le> b \<and> b \<le> hi)"

definition validate_args :: "stage_args \<Rightarrow> unit result" where
  "validate_args a =
     (let bad = PyError ''ValueError'' in
      ebind (require (safe_host (sa_backend_host a) \<and> safe_host (sa_generator_host a)) bad) (\<lambda>_.
      ebind (require (\<not> sa_output_exists a) bad) (\<lambda>_.
      ebind (require (\<not> sa_identity_missing a) bad) (\<lambda>_.
      ebind (require (list_all (\<lambda>n. n \<ge> 1) [sa_rate a, sa_seconds a, sa_workers a, sa_shows a, sa_seats a, sa_viewers a,
        sa_sale_hours a, sa_hold_expiry_wait a]) bad) (\<lambda>_.
      ebind (require (sa_seats a \<ge> (sa_rate a * sa_seconds a * 5 div 100 + sa_shows a - 1) div sa_shows a) bad) (\<lambda>_.
      ebind (require (0 \<le> sa_retry_delay a \<and> sa_retry_delay a \<le> 5000) bad) (\<lambda>_.
      ebind (require (0 \<le> sa_late_window a \<and> sa_late_window a \<le> 5000) bad) (\<lambda>_.
      ebind (require (both_within 1 64 (sa_admission a)) bad) (\<lambda>_.
      ebind (require (both_within 1 4 (sa_maintenance a)) bad) (\<lambda>_.
      require (both_within 1 6 (sa_consumers a)) bad))))))))))"

section \<open>Remote calls\<close>

text \<open>The exceptions of the script, as far as its handlers tell them apart.\<close>

datatype fault = OS_error | Runtime_error | Timed_out | Value_error | Type_error | Keyboard_interrupt

text \<open>An exit code, or an exception of \<open>subprocess.run\<close> itself.\<close>

datatype call = Exits int | Faults fault

text \<open>What a poll of the generator's job returns.\<close>

datatype job_status = Running | Finished int | Malformed fault

record stage_world =
  sw_call :: "string \<Rightarrow> call"
  sw_revisions :: "string \<times> string"
  sw_write :: "string \<Rightarrow> fault option"
  sw_status :: "nat \<Rightarrow> call \<times> job_status"
  sw_clock :: "nat \<Rightarrow> int"
  sw_evidence :: bool

record stage =
  st_calls :: "string list"
  st_completed :: "string list"
  st_deployed :: bool
  st_observers :: bool
  st_load_attempted :: bool
  st_load_exit :: "int option"
  st_admission_exit :: "int option"
  st_audit_exit :: "int option"
  st_revision :: "string option"
  st_error :: "string list"

definition fresh_stage :: stage where
  "fresh_stage = \<lparr>st_calls = [], st_completed = [], st_deployed = False, st_observers = False, st_load_attempted = False,
     st_load_exit = None, st_admission_exit = None, st_audit_exit = None, st_revision = None, st_error = []\<rparr>"

type_synonym 'a act = "stage \<Rightarrow> (fault + 'a) \<times> stage"

definition sbind :: "'a act \<Rightarrow> ('a \<Rightarrow> 'b act) \<Rightarrow> 'b act" where
  "sbind m f s = (case m s of (Inl e, s') \<Rightarrow> (Inl e, s') | (Inr x, s') \<Rightarrow> f x s')"

definition upd :: "(stage \<Rightarrow> stage) \<Rightarrow> unit act" where
  "upd f s = (Inr (), f s)"

definition throw :: "fault \<Rightarrow> 'a act" where
  "throw e s = (Inl e, s)"

text \<open>\<open>Transport.remote\<close>: the call is recorded; with \<open>check\<close> a nonzero exit code raises.\<close>

definition remote :: "stage_world \<Rightarrow> string \<Rightarrow> bool \<Rightarrow> int act" where
  "remote w phase check s =
     (let s = s\<lparr>st_calls := st_calls s @ [phase]\<rparr> in
      case sw_call w phase of
        Faults e \<Rightarrow> (Inl e, s)
      | Exits code \<Rightarrow> if check \<and> code \<noteq> 0 then (Inl Runtime_error, s) else (Inr code, s))"

text \<open>\<open>copy_from\<close> and \<open>copy_to\<close> always check.\<close>

definition copy :: "stage_world \<Rightarrow> string \<Rightarrow> int act" where
  "copy w phase = remote w phase True"

definition checkpoint :: "stage_world \<Rightarrow> string \<Rightarrow> unit act" where
  "checkpoint w phase s =
     (let s = s\<lparr>st_completed := st_completed s @ [phase]\<rparr> in
      case sw_write w phase of None \<Rightarrow> (Inr (), s) | Some e \<Rightarrow> (Inl e, s))"

section \<open>The phases\<close>

definition hex_digit :: "char \<Rightarrow> bool" where
  "hex_digit c \<longleftrightarrow> (let n = (of_char c :: nat) in (48 \<le> n \<and> n \<le> 57) \<or> (97 \<le> n \<and> n \<le> 102))"

definition match_revisions :: "stage_world \<Rightarrow> unit act" where
  "match_revisions w =
     sbind (remote w ''backend-revision'' True) (\<lambda>_.
     sbind (remote w ''generator-revision'' True) (\<lambda>_.
     let (b, g) = sw_revisions w in
     if length b \<noteq> 40 \<or> \<not> list_all hex_digit b \<or> b \<noteq> g then throw Runtime_error
     else sbind (upd (\<lambda>s. s\<lparr>st_revision := Some b\<rparr>)) (\<lambda>_. checkpoint w ''revisions_matched'')))"

definition deploy_phase :: "stage_world \<Rightarrow> unit act" where
  "deploy_phase w =
     sbind (upd (\<lambda>s. s\<lparr>st_deployed := True\<rparr>)) (\<lambda>_.
     sbind (remote w ''deploy'' True) (\<lambda>_. checkpoint w ''deployed''))"

definition prepare_phases :: "stage_world \<Rightarrow> unit act" where
  "prepare_phases w =
     sbind (remote w ''prepare'' True) (\<lambda>_.
     sbind (checkpoint w ''prepared'') (\<lambda>_.
     sbind (copy w ''manifest-from-backend'') (\<lambda>_.
     sbind (copy w ''manifest-to-generator'') (\<lambda>_.
     sbind (checkpoint w ''manifest_transferred'') (\<lambda>_.
     sbind (remote w ''preflight'' True) (\<lambda>_.
     sbind (checkpoint w ''preflight_passed'') (\<lambda>_.
     sbind (remote w ''observe'' True) (\<lambda>_.
     sbind (upd (\<lambda>s. s\<lparr>st_observers := True\<rparr>)) (\<lambda>_. checkpoint w ''observers_started'')))))))))"

text \<open>
  The polling loop, with fuel; \<open>None\<close> when the fuel is spent, which below counts as an operator's
  interrupt; enough fuel always gives an answer.  \<open>sw_clock k\<close> is the time of the \<open>k\<close>-th
  look at the clock, the deadline is \<open>seconds + 240\<close> after the start.
\<close>

fun poll :: "stage_world \<Rightarrow> int \<Rightarrow> nat \<Rightarrow> nat \<Rightarrow> stage \<Rightarrow> ((fault + int) \<times> stage) option" where
  "poll w deadline 0 k s = None"
| "poll w deadline (Suc fuel) k s =
     (let s = s\<lparr>st_calls := st_calls s @ [''load-status'']\<rparr> in
      case sw_status w k of
        (Faults e, _) \<Rightarrow> Some (Inl e, s)
      | (Exits code, job) \<Rightarrow>
          if code \<noteq> 0 then Some (Inl Runtime_error, s)
          else (case job of
                  Malformed e \<Rightarrow> Some (Inl e, s)
                | Finished code \<Rightarrow> if 0 \<le> code \<and> code \<le> 255 then Some (Inr code, s) else Some (Inl Value_error, s)
                | Running \<Rightarrow>
                    if deadline - sw_clock w k \<le> 0 then Some (Inl OS_error, s)
                    else poll w deadline fuel (k + 1) s))"

definition start_and_poll :: "stage_world \<Rightarrow> int \<Rightarrow> nat \<Rightarrow> unit act" where
  "start_and_poll w deadline fuel =
     sbind (remote w ''load-start'' True) (\<lambda>_ s.
       case poll w deadline fuel 0 s of
         None \<Rightarrow> (Inl Keyboard_interrupt, s)
       | Some (Inl e, s') \<Rightarrow> (Inl e, s')
       | Some (Inr code, s') \<Rightarrow> sbind (upd (\<lambda>s. s\<lparr>st_load_exit := Some code\<rparr>)) (\<lambda>_. checkpoint w ''load_finished'') s')"

text \<open>The generator's own failures are recorded, not raised; an interrupt is raised.\<close>

definition attempt_load :: "stage_world \<Rightarrow> int \<Rightarrow> nat \<Rightarrow> unit act" where
  "attempt_load w deadline fuel s =
     (case start_and_poll w deadline fuel s of
        (Inr u, s) \<Rightarrow> (Inr u, s)
      | (Inl e, s) \<Rightarrow>
          if e = Keyboard_interrupt then (Inl e, s)
          else checkpoint w ''load_failed'' (s\<lparr>st_load_exit := Some (- 1), st_error := [''generator job failed'']\<rparr>))"

text \<open>\<open>try: ... finally: load-stop\<close>, where the stop itself may raise.\<close>

definition load_phase :: "stage_world \<Rightarrow> int \<Rightarrow> nat \<Rightarrow> unit act" where
  "load_phase w deadline fuel s0 =
     (case attempt_load w deadline fuel (s0\<lparr>st_load_attempted := True\<rparr>) of
        (r, s) \<Rightarrow>
          (case remote w ''load-stop'' False s of
             (Inl e, s) \<Rightarrow> (Inl e, s)
           | (Inr code, s) \<Rightarrow> if code \<noteq> 0 then (Inl Runtime_error, s) else (r, s)))"

definition collect_phase :: "stage_world \<Rightarrow> unit act" where
  "collect_phase w =
     sbind (copy w ''generator-evidence'') (\<lambda>_.
     if \<not> sw_evidence w then throw Runtime_error
     else sbind (remote w ''backend-load-dir'' True) (\<lambda>_.
       sbind (copy w ''load-results-to-backend'') (\<lambda>_.
       sbind (remote w ''admission-gate'' False) (\<lambda>code.
       sbind (upd (\<lambda>s. s\<lparr>st_admission_exit := Some code\<rparr>)) (\<lambda>_. checkpoint w ''compact_results_collected'')))))"

definition audit_phase :: "stage_world \<Rightarrow> unit act" where
  "audit_phase w =
     sbind (remote w ''durability-audit'' False) (\<lambda>code.
     sbind (upd (\<lambda>s. s\<lparr>st_audit_exit := Some code\<rparr>)) (\<lambda>_.
     sbind (checkpoint w ''audit_finished'') (\<lambda>_.
     sbind (remote w ''stop-observers'' False) (\<lambda>code.
       upd (\<lambda>s. if code \<noteq> 0 then s\<lparr>st_error := st_error s @ [''stop-observers failed'']\<rparr> else s\<lparr>st_observers := False\<rparr>)))))"

definition body :: "stage_world \<Rightarrow> int \<Rightarrow> nat \<Rightarrow> unit act" where
  "body w deadline fuel =
     sbind (match_revisions w) (\<lambda>_.
     sbind (deploy_phase w) (\<lambda>_.
     sbind (prepare_phases w) (\<lambda>_.
     sbind (load_phase w deadline fuel) (\<lambda>_.
     sbind (collect_phase w) (\<lambda>_. audit_phase w)))))"

section \<open>The finalizer\<close>

text \<open>\<open>finish\<close>: a failing call becomes an error text; an exception of another kind ends the finalizer.\<close>

definition finish_call :: "stage_world \<Rightarrow> bool \<Rightarrow> string \<Rightarrow> unit act" where
  "finish_call w check phase s =
     (case remote w phase check s of
        (Inr code, s) \<Rightarrow> (Inr (), if code \<noteq> 0 then s\<lparr>st_error := st_error s @ [phase]\<rparr> else s)
      | (Inl e, s) \<Rightarrow>
          if e \<in> {OS_error, Runtime_error, Timed_out} then (Inr (), s\<lparr>st_error := st_error s @ [phase]\<rparr>) else (Inl e, s))"

definition when_act :: "(stage \<Rightarrow> bool) \<Rightarrow> unit act \<Rightarrow> unit act" where
  "when_act P m s = (if P s then m s else (Inr (), s))"

definition finalizer :: "stage_world \<Rightarrow> unit act" where
  "finalizer w =
     sbind (when_act st_load_attempted (finish_call w False ''load-stop-finally'')) (\<lambda>_.
     sbind (when_act st_observers (finish_call w False ''stop-observers-finally'')) (\<lambda>_.
     sbind (when_act st_deployed (finish_call w False ''rollback'')) (\<lambda>_.
     sbind (finish_call w True ''backend-evidence'') (\<lambda>_.
     sbind (finish_call w False ''generator-cleanup'') (\<lambda>_. finish_call w False ''backend-cleanup'')))))"

text \<open>\<open>except\<close> and \<open>finally\<close> around the body: a \<open>TypeError\<close> is not caught, but the finalizer runs.\<close>

definition run_phases :: "stage_world \<Rightarrow> int \<Rightarrow> nat \<Rightarrow> unit act" where
  "run_phases w deadline fuel s =
     (let (r, s) = (case body w deadline fuel s of
            (Inl e, s) \<Rightarrow> if e = Type_error then (Inl e, s) else (Inr (), s\<lparr>st_error := [''stage failed'']\<rparr>)
          | (Inr u, s) \<Rightarrow> (Inr u, s)) in
      case finalizer w s of (Inl e, s) \<Rightarrow> (Inl e, s) | (Inr _, s) \<Rightarrow> (r, s))"

section \<open>The verdict\<close>

text \<open>The collected evidence; a missing file is a record of absent values.\<close>

record evidence =
  ev_workload :: bool
  ev_drops :: "int option"
  ev_transport_errors :: nat
  ev_read_p95 :: "rat option"
  ev_hold_p95 :: "rat option"
  ev_rejections :: "int option"
  ev_durability :: bool
  ev_overlap :: "int option"
  ev_queues :: "(string \<times> int) list"
  ev_rollback :: bool

text \<open>\<open>(value or inf) < limit\<close>: an absent value and zero both fail.\<close>

definition below :: "rat \<Rightarrow> rat option \<Rightarrow> bool" where
  "below limit v = (case v of None \<Rightarrow> False | Some x \<Rightarrow> x \<noteq> 0 \<and> x < limit)"

definition evaluate :: "evidence \<Rightarrow> stage \<Rightarrow> (string \<times> bool) list" where
  "evaluate ev s =
     [(''load_exit_zero'', st_load_exit s = Some 0),
      (''workload'', ev_workload ev),
      (''generator_drops_zero'', ev_drops ev = Some 0),
      (''transport_errors_zero'', ev_transport_errors ev = 0),
      (''read_p95'', below 150 (ev_read_p95 ev)),
      (''hold_p95'', below 300 (ev_hold_p95 ev)),
      (''admission_zero'', st_admission_exit s = Some 0 \<and> ev_rejections ev = Some 0),
      (''audit_exit_zero'', st_audit_exit s = Some 0),
      (''durability'', ev_durability ev),
      (''overlap_zero'', ev_overlap ev = Some 0),
      (''queues_drained'', ev_queues ev \<noteq> [] \<and> list_all (\<lambda>(_, n). n = 0) (ev_queues ev)),
      (''rollback'', ev_rollback ev)]"

definition stage_passes :: "evidence \<Rightarrow> stage \<Rightarrow> bool" where
  "stage_passes ev s \<longleftrightarrow> list_all snd (evaluate ev s @ [(''execution_and_cleanup'', st_error s = [])])"

text \<open>The whole run: whether it exits with success.\<close>

definition run_stage :: "stage_world \<Rightarrow> int \<Rightarrow> nat \<Rightarrow> evidence \<Rightarrow> bool \<times> stage" where
  "run_stage w deadline fuel ev =
     (case run_phases w deadline fuel fresh_stage of
        (Inl e, s) \<Rightarrow> (False, s)
      | (Inr _, s) \<Rightarrow> (st_error s = [] \<and> stage_passes ev s, s))"

end
