(* ===== verification/Stage_Facts.thy ===== *)
theory Stage_Facts
  imports Stage
begin

text \<open>
  Facts about a capacity stage: polling ends, the system is restored after every failure, and a
  stage that passes has gone through every phase.
\<close>

section \<open>The script's steps\<close>

lemma sbind_Inr: "sbind m f s = (Inr y, s'') \<longleftrightarrow> (\<exists>x s'. m s = (Inr x, s') \<and> f x s' = (Inr y, s''))"
  by (auto simp: sbind_def split: prod.splits sum.splits)

lemma remote_Inr:
  "remote w p c s = (Inr code, s') \<longleftrightarrow>
     sw_call w p = Exits code \<and> (c \<longrightarrow> code = 0) \<and> s' = s\<lparr>st_calls := st_calls s @ [p]\<rparr>"
  by (auto simp: remote_def Let_def split: call.splits if_splits)

lemma checkpoint_Inr:
  "checkpoint w p s = (Inr u, s') \<longleftrightarrow> sw_write w p = None \<and> s' = s\<lparr>st_completed := st_completed s @ [p]\<rparr>"
  by (auto simp: checkpoint_def Let_def split: option.splits)

lemma upd_Inr: "upd f s = (Inr u, s') \<longleftrightarrow> s' = f s"
  by (auto simp: upd_def)

lemma throw_Inr: "throw e s \<noteq> (Inr x, s')"
  by (simp add: throw_def)

lemmas success_simps = sbind_Inr remote_Inr checkpoint_Inr upd_Inr throw_Inr copy_def

lemma poll_effect:
  assumes "poll w deadline fuel k s = Some (r, s')"
  shows "\<exists>n. s' = s\<lparr>st_calls := st_calls s @ replicate n ''load-status''\<rparr>"
  using assms
proof (induction fuel arbitrary: k s)
  case (Suc fuel)
  let ?s = "s\<lparr>st_calls := st_calls s @ [''load-status'']\<rparr>"
  have one: "?s = s\<lparr>st_calls := st_calls s @ replicate 1 ''load-status''\<rparr>" by simp
  show ?case
  proof (cases "s' = ?s")
    case True
    then show ?thesis using one by blast
  next
    case False
    then have "poll w deadline fuel (k + 1) ?s = Some (r, s')"
      using Suc.prems by (auto simp: Let_def split: prod.splits call.splits job_status.splits if_splits)
    then obtain n where "s' = ?s\<lparr>st_calls := st_calls ?s @ replicate n ''load-status''\<rparr>" using Suc.IH by blast
    then have "s' = s\<lparr>st_calls := st_calls s @ replicate (Suc n) ''load-status''\<rparr>" by simp
    then show ?thesis by blast
  qed
qed simp

section \<open>Polling ends\<close>

lemma poll_enough:
  assumes "\<forall>k. sw_clock w k + min 10000 (deadline - sw_clock w k) \<le> sw_clock w (k + 1)"
    and "deadline - sw_clock w k \<le> 10000 * int n" and "n < fuel"
  shows "\<exists>r. poll w deadline fuel k s = Some r"
  using assms(2,3)
proof (induction n arbitrary: fuel k s)
  case 0
  then obtain f where "fuel = Suc f" by (metis gr0_conv_Suc)
  then show ?case using 0 by (auto simp: Let_def split: prod.splits call.splits job_status.splits)
next
  case (Suc n)
  then obtain f where f: "fuel = Suc f" by (metis Suc_lessE)
  have "deadline - sw_clock w (k + 1) \<le> 10000 * int n \<or> deadline - sw_clock w k \<le> 0"
    using assms(1) [rule_format, of k] Suc.prems(1) by (auto simp: min_def split: if_splits)
  moreover have "\<exists>r. poll w deadline f (k + 1) s' = Some r" if "deadline - sw_clock w (k + 1) \<le> 10000 * int n" for s'
    using Suc.IH [OF that] Suc.prems(2) f by simp
  ultimately show ?case using f by (auto simp: Let_def split: prod.splits call.splits job_status.splits)
qed


definition demo_stage_world :: stage_world where
  "demo_stage_world = \<lparr>sw_call = (\<lambda>_. Exits 0), sw_revisions = (replicate 40 CHR ''a'', replicate 40 CHR ''a''), sw_write = (\<lambda>_. None),
     sw_status = (\<lambda>k. (Exits 0, if k < 2 then Running else Finished 0)), sw_clock = (\<lambda>k. 10000 * int k), sw_evidence = True\<rparr>"


section \<open>The system is restored\<close>

definition keeps :: "(stage \<Rightarrow> bool) \<Rightarrow> 'a act \<Rightarrow> bool" where
  "keeps P m \<longleftrightarrow> (\<forall>s. P s \<longrightarrow> P (snd (m s)))"

lemma keepsD: "keeps P m \<Longrightarrow> m s = (r, s') \<Longrightarrow> P s \<Longrightarrow> P s'"
  unfolding keeps_def by (metis snd_conv)

lemma keeps_sbind: "keeps P m \<Longrightarrow> (\<And>x. keeps P (f x)) \<Longrightarrow> keeps P (sbind m f)"
  by (auto simp: keeps_def sbind_def split: prod.splits sum.splits)

text \<open>What was attempted is remembered.\<close>

definition remembered :: "stage \<Rightarrow> bool" where
  "remembered s \<longleftrightarrow> (''deploy'' \<in> set (st_calls s) \<longrightarrow> st_deployed s) \<and>
     (''load-start'' \<in> set (st_calls s) \<longrightarrow> st_load_attempted s)"

lemma keeps_remote:
  assumes "p \<noteq> ''deploy''" and "p \<noteq> ''load-start''"
  shows "keeps remembered (remote w p c)"
  using assms by (auto simp: keeps_def remote_def remembered_def Let_def split: call.splits)

lemma keeps_checkpoint: "keeps remembered (checkpoint w p)"
  by (auto simp: keeps_def checkpoint_def remembered_def Let_def split: option.splits)

lemma keeps_throw: "keeps P (throw e)"
  by (simp add: keeps_def throw_def)

lemma keeps_upd: "(\<And>s. remembered s \<Longrightarrow> remembered (f s)) \<Longrightarrow> keeps remembered (upd f)"
  by (simp add: keeps_def upd_def)

lemmas keeps_intros = keeps_sbind keeps_remote keeps_checkpoint keeps_throw keeps_upd

lemma keeps_match: "keeps remembered (match_revisions w)"
  unfolding match_revisions_def Let_def
  by (intro keeps_intros) (auto simp: remembered_def keeps_throw split: prod.splits intro!: keeps_intros)

lemma keeps_deploy: "keeps remembered (deploy_phase w)"
  by (auto simp: keeps_def deploy_phase_def sbind_def upd_def remote_def checkpoint_def remembered_def Let_def
      split: call.splits option.splits)

lemma keeps_prepare: "keeps remembered (prepare_phases w)"
  unfolding prepare_phases_def copy_def by (intro keeps_intros) (auto simp: remembered_def)

lemma keeps_collect: "keeps remembered (collect_phase w)"
  unfolding collect_phase_def copy_def
  by (cases "sw_evidence w") (auto simp: remembered_def intro!: keeps_intros)

lemma keeps_audit: "keeps remembered (audit_phase w)"
  unfolding audit_phase_def by (intro keeps_intros) (auto simp: remembered_def)

lemma start_and_poll_attempted:
  assumes "start_and_poll w dl fuel s = (r, s')" and "st_load_attempted s" and "remembered s"
  shows "st_load_attempted s' \<and> remembered s'"
  using assms
  by (auto simp: start_and_poll_def sbind_def remote_def upd_def checkpoint_def remembered_def Let_def
      dest!: poll_effect split: call.splits option.splits sum.splits prod.splits if_splits)

lemma attempt_load_remembered:
  assumes "attempt_load w dl fuel s = (r, s')" and "st_load_attempted s" and "remembered s"
  shows "remembered s'"
proof -
  obtain q s1 where p: "start_and_poll w dl fuel s = (q, s1)" by (rule prod.exhaust)
  have s1: "remembered s1" using start_and_poll_attempted [OF p assms(2,3)] by simp
  let ?fail = "s1\<lparr>st_load_exit := Some (- 1), st_error := [''generator job failed'']\<rparr>"
  have "remembered ?fail" using s1 by (simp add: remembered_def)
  then have "checkpoint w ''load_failed'' ?fail = (r, s') \<Longrightarrow> remembered s'" using keepsD [OF keeps_checkpoint] by blast
  then show ?thesis using assms(1) p s1 by (auto simp: attempt_load_def split: sum.splits if_splits)
qed

lemma keeps_load: "keeps remembered (load_phase w dl fuel)"
  unfolding keeps_def
proof (intro allI impI)
  fix s assume "remembered s"
  then have s: "remembered (s\<lparr>st_load_attempted := True\<rparr>)" by (simp add: remembered_def)
  obtain r s1 where p: "attempt_load w dl fuel (s\<lparr>st_load_attempted := True\<rparr>) = (r, s1)" by (rule prod.exhaust)
  have "remembered s1" by (rule attempt_load_remembered [OF p]) (simp_all add: s)
  moreover have "remote w ''load-stop'' False s1 = (q, t) \<Longrightarrow> remembered s1 \<Longrightarrow> remembered t" for q t
    by (erule keepsD [OF keeps_remote, rotated 2]) simp_all
  ultimately show "remembered (snd (load_phase w dl fuel s))"
    by (auto simp: load_phase_def p split: sum.splits prod.splits)
qed

lemma keeps_body: "keeps remembered (body w dl fuel)"
  unfolding body_def
  by (intro keeps_sbind keeps_match keeps_deploy keeps_prepare keeps_load keeps_collect keeps_audit)

text \<open>The calls of the finalizer, and that they end in a way it handles.\<close>

definition cleanup_calls :: "stage \<Rightarrow> string list" where
  "cleanup_calls s =
     (if st_load_attempted s then [''load-stop-finally''] else []) @ (if st_observers s then [''stop-observers-finally''] else []) @
     (if st_deployed s then [''rollback''] else []) @ [''backend-evidence'', ''generator-cleanup'', ''backend-cleanup'']"

definition handled_call :: "stage_world \<Rightarrow> string \<Rightarrow> bool" where
  "handled_call w p = (case sw_call w p of Exits _ \<Rightarrow> True | Faults e \<Rightarrow> e \<in> {OS_error, Runtime_error, Timed_out})"

lemma finish_call_handled:
  assumes "handled_call w p"
  shows "\<exists>s'. finish_call w c p s = (Inr (), s') \<and> st_calls s' = st_calls s @ [p] \<and> st_deployed s' = st_deployed s \<and>
    st_observers s' = st_observers s \<and> st_load_attempted s' = st_load_attempted s \<and> st_completed s' = st_completed s \<and>
    st_load_exit s' = st_load_exit s \<and>
    (st_error s' = [] \<longrightarrow> st_error s = [] \<and> sw_call w p = Exits 0)"
  using assms by (auto simp: finish_call_def remote_def handled_call_def Let_def split: call.splits)

lemma finalizer_effect:
  assumes "\<forall>p. handled_call w p"
  shows "\<exists>s'. finalizer w s = (Inr (), s') \<and> st_calls s' = st_calls s @ cleanup_calls s \<and> st_completed s' = st_completed s \<and>
    st_load_exit s' = st_load_exit s \<and>
    (st_error s' = [] \<longrightarrow> st_error s = [] \<and> (\<forall>p\<in>set (cleanup_calls s). sw_call w p = Exits 0))"
proof -
  have call: "\<exists>s'. m s = (Inr (), s') \<and> st_calls s' = st_calls s @ (if P s then [p] else []) \<and> st_deployed s' = st_deployed s \<and>
    st_observers s' = st_observers s \<and> st_load_attempted s' = st_load_attempted s \<and> st_completed s' = st_completed s \<and>
    st_load_exit s' = st_load_exit s \<and>
    (st_error s' = [] \<longrightarrow> st_error s = [] \<and> (P s \<longrightarrow> sw_call w p = Exits 0))"
    if "m = when_act P (finish_call w c p)" for m P c p s
    using finish_call_handled [of w p c s] assms that by (cases "P s") (auto simp: when_act_def)
  have all: "finish_call w c p = when_act (\<lambda>_. True) (finish_call w c p)" for c p by (rule ext) (simp add: when_act_def)
  obtain s1 where 1: "when_act st_load_attempted (finish_call w False ''load-stop-finally'') s = (Inr (), s1)"
    "st_calls s1 = st_calls s @ (if st_load_attempted s then [''load-stop-finally''] else [])"
    "st_deployed s1 = st_deployed s" "st_observers s1 = st_observers s" "st_completed s1 = st_completed s" "st_load_exit s1 = st_load_exit s"
    "st_error s1 = [] \<longrightarrow> st_error s = [] \<and> (st_load_attempted s \<longrightarrow> sw_call w ''load-stop-finally'' = Exits 0)"
    using call [OF refl, of st_load_attempted False "''load-stop-finally''" s] by blast
  obtain s2 where 2: "when_act st_observers (finish_call w False ''stop-observers-finally'') s1 = (Inr (), s2)"
    "st_calls s2 = st_calls s1 @ (if st_observers s then [''stop-observers-finally''] else [])"
    "st_deployed s2 = st_deployed s" "st_completed s2 = st_completed s" "st_load_exit s2 = st_load_exit s"
    "st_error s2 = [] \<longrightarrow> st_error s1 = [] \<and> (st_observers s \<longrightarrow> sw_call w ''stop-observers-finally'' = Exits 0)"
    using call [OF refl, of st_observers False "''stop-observers-finally''" s1] 1(3-6) by auto
  obtain s3 where 3: "when_act st_deployed (finish_call w False ''rollback'') s2 = (Inr (), s3)"
    "st_calls s3 = st_calls s2 @ (if st_deployed s then [''rollback''] else [])" "st_completed s3 = st_completed s" "st_load_exit s3 = st_load_exit s"
    "st_error s3 = [] \<longrightarrow> st_error s2 = [] \<and> (st_deployed s \<longrightarrow> sw_call w ''rollback'' = Exits 0)"
    using call [OF refl, of st_deployed False "''rollback''" s2] 2(3-5) by auto
  obtain s4 where 4: "finish_call w True ''backend-evidence'' s3 = (Inr (), s4)" "st_calls s4 = st_calls s3 @ [''backend-evidence'']"
    "st_completed s4 = st_completed s" "st_load_exit s4 = st_load_exit s"
    "st_error s4 = [] \<longrightarrow> st_error s3 = [] \<and> sw_call w ''backend-evidence'' = Exits 0"
    using call [OF all, of True "''backend-evidence''" s3] 3(3,4) by auto
  obtain s5 where 5: "finish_call w False ''generator-cleanup'' s4 = (Inr (), s5)" "st_calls s5 = st_calls s4 @ [''generator-cleanup'']"
    "st_completed s5 = st_completed s" "st_load_exit s5 = st_load_exit s"
    "st_error s5 = [] \<longrightarrow> st_error s4 = [] \<and> sw_call w ''generator-cleanup'' = Exits 0"
    using call [OF all, of False "''generator-cleanup''" s4] 4(3,4) by auto
  obtain s6 where 6: "finish_call w False ''backend-cleanup'' s5 = (Inr (), s6)" "st_calls s6 = st_calls s5 @ [''backend-cleanup'']"
    "st_completed s6 = st_completed s" "st_load_exit s6 = st_load_exit s"
    "st_error s6 = [] \<longrightarrow> st_error s5 = [] \<and> sw_call w ''backend-cleanup'' = Exits 0"
    using call [OF all, of False "''backend-cleanup''" s5] 5(3,4) by auto
  have "finalizer w s = (Inr (), s6)" by (simp add: finalizer_def sbind_def 1(1) 2(1) 3(1) 4(1) 5(1) 6(1))
  moreover have "st_calls s6 = st_calls s @ cleanup_calls s" by (simp add: 1(2) 2(2) 3(2) 4(2) 5(2) 6(2) cleanup_calls_def)
  moreover have "st_error s6 = [] \<longrightarrow> st_error s = [] \<and> (\<forall>p\<in>set (cleanup_calls s). sw_call w p = Exits 0)"
    using 1(7) 2(6) 3(5) 4(5) 5(5) 6(5) by (auto simp: cleanup_calls_def)
  ultimately show ?thesis using 6(3,4) by blast
qed


text \<open>A deployment that fails with exit code 1.\<close>

definition broken_world :: stage_world where
  "broken_world = demo_stage_world\<lparr>sw_call := (\<lambda>p. if p = ''deploy'' then Exits 1 else Exits 0)\<rparr>"

lemma broken_calls:
  "st_calls (snd (run_phases broken_world 30000 5 fresh_stage)) =
     [''backend-revision'', ''generator-revision'', ''deploy'', ''rollback'', ''backend-evidence'', ''generator-cleanup'', ''backend-cleanup'']"
  by code_simp


section \<open>A passing stage is complete\<close>

definition all_phases :: "string list" where
  "all_phases = [''revisions_matched'', ''deployed'', ''prepared'', ''manifest_transferred'', ''preflight_passed'',
     ''observers_started'', ''load_finished'', ''compact_results_collected'', ''audit_finished'']"

lemma load_phase_success:
  assumes "load_phase w dl fuel s = (Inr u, s')" and "st_error s' = []"
  shows "st_completed s' = st_completed s @ [''load_finished''] \<and> st_deployed s' = st_deployed s"
proof -
  let ?s = "s\<lparr>st_load_attempted := True\<rparr>"
  obtain r s1 where a: "attempt_load w dl fuel ?s = (r, s1)" by (rule prod.exhaust)
  have r: "r = Inr u" "s' = s1\<lparr>st_calls := st_calls s1 @ [''load-stop'']\<rparr>"
    using assms(1) a by (auto simp: load_phase_def remote_Inr split: sum.splits prod.splits if_splits)
  obtain q s0 where p: "start_and_poll w dl fuel ?s = (q, s0)" by (rule prod.exhaust)
  have "q = Inr () \<and> s1 = s0"
    using a p r assms(2) by (cases q) (auto simp: attempt_load_def checkpoint_Inr split: if_splits)
  then have "start_and_poll w dl fuel ?s = (Inr (), s1)" using p by simp
  then have "st_completed s1 = st_completed s @ [''load_finished''] \<and> st_deployed s1 = st_deployed s"
    by (auto simp: start_and_poll_def success_simps dest!: poll_effect split: option.splits sum.splits prod.splits)
  then show ?thesis by (simp add: r(2))
qed

lemma body_success:
  assumes "body w dl fuel s = (Inr u, s')" and "st_error s' = []" and "st_completed s = []"
  shows "st_completed s' = all_phases \<and> st_deployed s'"
proof -
  obtain s1 s2 s3 s4 s5 where b: "match_revisions w s = (Inr (), s1)" "deploy_phase w s1 = (Inr (), s2)"
    "prepare_phases w s2 = (Inr (), s3)" "load_phase w dl fuel s3 = (Inr (), s4)" "collect_phase w s4 = (Inr (), s5)"
    "audit_phase w s5 = (Inr u, s')"
    using assms(1) by (auto simp: body_def sbind_Inr)
  have 1: "st_completed s1 = [''revisions_matched'']"
    using b(1) assms(3) by (auto simp: match_revisions_def success_simps Let_def split: prod.splits if_splits)
  have 2: "st_completed s2 = st_completed s1 @ [''deployed'']" "st_deployed s2"
    using b(2) by (auto simp: deploy_phase_def success_simps)
  have 3: "st_completed s3 = st_completed s2 @ [''prepared'', ''manifest_transferred'', ''preflight_passed'', ''observers_started'']"
    "st_deployed s3 = st_deployed s2"
    using b(3) by (auto simp: prepare_phases_def success_simps)
  have 5: "st_completed s5 = st_completed s4 @ [''compact_results_collected'']" "st_deployed s5 = st_deployed s4" "st_error s5 = st_error s4"
    using b(5) by (auto simp: collect_phase_def success_simps split: if_splits)
  have 6: "st_completed s' = st_completed s5 @ [''audit_finished'']" "st_deployed s' = st_deployed s5" "st_error s5 = []"
    using b(6) assms(2) by (auto simp: audit_phase_def success_simps split: if_splits)
  have "st_completed s4 = st_completed s3 @ [''load_finished''] \<and> st_deployed s4 = st_deployed s3"
    by (rule load_phase_success [OF b(4)]) (use 5(3) 6(3) in simp)
  then show ?thesis using 1 2 3 5(1,2) 6(1,2) by (simp add: all_phases_def)
qed

text \<open>
  Fact.  A stage that exits with success has passed every gate and gone through every phase in order;
  its load finished with exit code zero, and the rollback and both cleanups succeeded.
\<close>

theorem passing_stage_is_complete:
  assumes "run_stage w deadline fuel ev = (True, s)" and "\<forall>p. handled_call w p"
  shows "st_completed s = all_phases \<and> st_load_exit s = Some 0 \<and> ev_workload ev \<and> ev_drops ev = Some 0 \<and> ev_durability ev \<and>
    ev_overlap ev = Some 0 \<and>
    sw_call w ''rollback'' = Exits 0 \<and> sw_call w ''generator-cleanup'' = Exits 0 \<and> sw_call w ''backend-cleanup'' = Exits 0"
proof -
  obtain q where q: "run_phases w deadline fuel fresh_stage = (Inr q, s)" and err: "st_error s = []" and pass: "stage_passes ev s"
    using assms(1) by (auto simp: run_stage_def split: prod.splits sum.splits)
  obtain r s1 where b: "body w deadline fuel fresh_stage = (r, s1)" by (rule prod.exhaust)
  define s2 where "s2 = (case r of Inl e \<Rightarrow> if e = Type_error then s1 else s1\<lparr>st_error := [''stage failed'']\<rparr> | Inr _ \<Rightarrow> s1)"
  obtain s3 where f: "finalizer w s2 = (Inr (), s3)" "st_completed s3 = st_completed s2"
    "st_error s3 = [] \<longrightarrow> st_error s2 = [] \<and> (\<forall>p\<in>set (cleanup_calls s2). sw_call w p = Exits 0)"
    using finalizer_effect [OF assms(2)] by blast
  have "s = s3" using q b f(1) by (auto simp: run_phases_def s2_def Let_def split: sum.splits if_splits)
  then have clean: "st_error s2 = []" "\<forall>p\<in>set (cleanup_calls s2). sw_call w p = Exits 0" using err f(3) by simp_all
  have "r = Inr ()"
    using q b f(1) clean(1) by (cases r) (auto simp: run_phases_def s2_def Let_def split: if_splits)
  then have comp: "st_completed s1 = all_phases \<and> st_deployed s1" and "s2 = s1"
    using body_success [of w deadline fuel fresh_stage "()" s1] b clean(1) by (simp_all add: s2_def fresh_stage_def)
  then have "st_completed s = all_phases" "\<forall>p\<in>{''rollback'', ''generator-cleanup'', ''backend-cleanup''}. sw_call w p = Exits 0"
    using f(2) \<open>s = s3\<close> clean(2) by (simp_all add: cleanup_calls_def)
  then show ?thesis using pass by (simp add: stage_passes_def evaluate_def)
qed

definition good_evidence :: evidence where
  "good_evidence = \<lparr>ev_workload = True, ev_drops = Some 0, ev_transport_errors = 0, ev_read_p95 = Some 40, ev_hold_p95 = Some 90,
     ev_rejections = Some 0, ev_durability = True, ev_overlap = Some 0, ev_queues = [(''outbox'', 0)], ev_rollback = True\<rparr>"

lemma demo_world_steps:
  "remote demo_stage_world p c s = (Inr 0, s\<lparr>st_calls := st_calls s @ [p]\<rparr>)"
  "checkpoint demo_stage_world p s = (Inr (), s\<lparr>st_completed := st_completed s @ [p]\<rparr>)"
  "copy demo_stage_world p = remote demo_stage_world p True"
  by (simp_all add: remote_def checkpoint_def copy_def demo_stage_world_def)

lemma demo_match: "match_revisions demo_stage_world s =
    sbind (remote demo_stage_world ''backend-revision'' True) (\<lambda>_. sbind (remote demo_stage_world ''generator-revision'' True) (\<lambda>_.
      sbind (upd (\<lambda>s. s\<lparr>st_revision := Some (replicate 40 CHR ''a'')\<rparr>)) (\<lambda>_. checkpoint demo_stage_world ''revisions_matched''))) s"
proof -
  have "list_all hex_digit (replicate 40 CHR ''a'')" "sw_revisions demo_stage_world = (replicate 40 CHR ''a'', replicate 40 CHR ''a'')"
    by (simp_all add: list_all_iff hex_digit_def demo_stage_world_def)
  then show ?thesis by (simp only: match_revisions_def Let_def case_prod_conv length_replicate simp_thms if_False)
qed

lemma demo_poll: "poll demo_stage_world 30000 5 0 s = Some (Inr 0, s\<lparr>st_calls := st_calls s @ [''load-status'', ''load-status'', ''load-status'']\<rparr>)"
  by (simp add: demo_stage_world_def numeral_eq_Suc)

lemma demo_phases:
  "\<exists>s. run_phases demo_stage_world 30000 5 fresh_stage = (Inr (), s) \<and> st_error s = [] \<and> st_load_exit s = Some 0 \<and>
     st_admission_exit s = Some 0 \<and> st_audit_exit s = Some 0"
proof -
  have e: "sw_evidence demo_stage_world" by (simp add: demo_stage_world_def)
  show ?thesis
    by (simp add: run_phases_def body_def demo_match deploy_phase_def prepare_phases_def load_phase_def attempt_load_def start_and_poll_def
        collect_phase_def audit_phase_def finalizer_def finish_call_def when_act_def sbind_def upd_def demo_world_steps demo_poll e
        fresh_stage_def)
qed

lemma demo_stage_passes: "fst (run_stage demo_stage_world 30000 5 good_evidence)"
  using demo_phases by (auto simp: run_stage_def stage_passes_def evaluate_def good_evidence_def below_def)

theorem passing_stage_is_complete_witness:
  "st_completed (snd (run_stage demo_stage_world 30000 5 good_evidence)) = all_phases"
proof -
  have "\<forall>p. handled_call demo_stage_world p" by (simp add: handled_call_def demo_stage_world_def)
  moreover have "run_stage demo_stage_world 30000 5 good_evidence = (True, snd (run_stage demo_stage_world 30000 5 good_evidence))"
    using demo_stage_passes by (simp add: prod_eq_iff)
  ultimately show ?thesis using passing_stage_is_complete by blast
qed

end
