(* ===== verification/Hot_Seat.thy ===== *)
theory Hot_Seat
  imports Api_Facts Load Store_Props
begin

text \<open>
  One synchronized contention wave (\<open>scripts/hot_seat_load.py\<close>): many viewers ask for the same seat at
  once, without retries.  The first half models the script over whatever answers it gets, the second
  half runs the wave against the hold endpoint: whatever the order in which the requests commit, at
  most one of them wins.
\<close>

section \<open>The script\<close>

record wave_args =
  wa_schema :: "int option"
  wa_environment :: "string option"
  wa_output_used :: bool
  wa_expires :: time
  wa_tokens :: "string list"
  wa_contenders :: nat
  wa_seat :: int
  wa_seats_per_show :: int
  wa_redis_first :: bool

definition wave_checks :: "time \<Rightarrow> wave_args \<Rightarrow> unit result" where
  "wave_checks now a =
     (let bad = PyError ''ValueError'' in
      ebind (require (wa_schema a = Some 1 \<and> wa_environment a = Some ''development'') bad) (\<lambda>_.
      ebind (require (\<not> wa_output_used a) bad) (\<lambda>_.
      ebind (require (wa_expires a \<ge> now + 5 * 60 * 1000000) bad) (\<lambda>_.
      require (length (wa_tokens a) \<ge> wa_contenders a \<and> 0 \<le> wa_seat a \<and> wa_seat a < wa_seats_per_show a) bad))))"

definition winner_status :: "wave_args \<Rightarrow> int" where
  "winner_status a = (if wa_redis_first a then 202 else 201)"

text \<open>An answer of the server, or the class of an \<open>httpx.HTTPError\<close>.\<close>

datatype attempt = Answered http_response rat | Broken string rat

text \<open>A row of the result; the status is \<open>None\<close> for \<open>transport_error\<close>.\<close>

record wave_row =
  wr_status :: "int option"
  wr_code :: "string option"
  wr_latency :: rat
  wr_hold :: "json option"

text \<open>\<open>r.json().get("hold_id")\<close> raises on a body that is no JSON object; the wave then ends with that exception.\<close>

definition attempt_row :: "wave_args \<Rightarrow> attempt \<Rightarrow> wave_row result" where
  "attempt_row a x =
     (case x of
        Broken cls t \<Rightarrow> Inr \<lparr>wr_status = None, wr_code = Some cls, wr_latency = t, wr_hold = None\<rparr>
      | Answered r t \<Rightarrow>
          if hr_status r = winner_status a
          then (case hr_json r of
                  None \<Rightarrow> Inl (PyError ''ValueError'')
                | Some (JObj kvs) \<Rightarrow> Inr \<lparr>wr_status = Some (hr_status r), wr_code = None, wr_latency = t,
                    wr_hold = map_of kvs ''hold_id''\<rparr>
                | Some _ \<Rightarrow> Inl (PyError ''AttributeError''))
          else Inr \<lparr>wr_status = Some (hr_status r), wr_code = Some (error_code r), wr_latency = t, wr_hold = None\<rparr>)"

fun attempt_rows :: "wave_args \<Rightarrow> attempt list \<Rightarrow> wave_row list result" where
  "attempt_rows a [] = Inr []"
| "attempt_rows a (x # xs) = ebind (attempt_row a x) (\<lambda>r. ebind (attempt_rows a xs) (\<lambda>rs. Inr (r # rs)))"

record wave_report =
  wp_winners :: nat
  wp_expected :: nat
  wp_one_winner :: bool
  wp_available :: bool
  wp_failed_p95 :: "rat option"

definition wave_report_of :: "wave_args \<Rightarrow> wave_row list \<Rightarrow> wave_report" where
  "wave_report_of a rows =
     (let winners = length (filter (\<lambda>r. wr_status r = Some (winner_status a)) rows);
          expected = length (filter (\<lambda>r. wr_status r = Some 409 \<and> wr_code r \<in> {Some ''SEAT_BUSY'', Some ''SEAT_UNAVAILABLE''}) rows) in
      \<lparr>wp_winners = winners, wp_expected = expected, wp_one_winner = (winners = 1),
       wp_available = (winners = 1 \<and> int expected = int (wa_contenders a) - 1),
       wp_failed_p95 = percentile (map wr_latency (filter (\<lambda>r. wr_status r \<noteq> Some (winner_status a)) rows)) (95 / 100)\<rparr>)"

text \<open>The readiness probe comes first; the exit status is 0 for exactly one winner.\<close>

definition run_wave :: "time \<Rightarrow> bool \<Rightarrow> wave_args \<Rightarrow> attempt list \<Rightarrow> (wave_report \<times> int) result" where
  "run_wave now up a answers =
     ebind (wave_checks now a) (\<lambda>_.
     ebind (require up (PyError ''HTTPStatusError'')) (\<lambda>_.
     ebind (attempt_rows a answers) (\<lambda>rows.
     let report = wave_report_of a rows in
     Inr (report, if wp_one_winner report then 0 else 1))))"

section \<open>The wave against the hold endpoint\<close>

text \<open>
  A contender's request, with everything but the database as the request meets it: shields, rates and
  Redis may be in any state the other requests have left them in.  The database passes from one
  request to the next in the order of the transactions.
\<close>

record contender =
  ct_token :: string
  ct_key :: string
  ct_ctx :: ctx
  ct_redis :: redis
  ct_shields :: shields
  ct_rates :: rates
  ct_bodies :: bodies

definition contend :: "(string \<Rightarrow> json option) \<Rightarrow> settings \<Rightarrow> uuid \<Rightarrow> seat_id \<Rightarrow> contender \<Rightarrow> db \<Rightarrow> response \<times> db" where
  "contend decode S e seat c d =
     (case hold_endpoint decode S (ct_ctx c) [] (ct_token c) e [seat] (ct_key c)
        \<lparr>w_db = d, w_redis = ct_redis c, w_shields = ct_shields c, w_rates = ct_rates c, w_bodies = ct_bodies c\<rparr> of
        (r, w) \<Rightarrow> (r, w_db w))"

fun contest :: "(string \<Rightarrow> json option) \<Rightarrow> settings \<Rightarrow> uuid \<Rightarrow> seat_id \<Rightarrow> contender list \<Rightarrow> db \<Rightarrow> response list \<times> db" where
  "contest decode S e seat [] d = ([], d)"
| "contest decode S e seat (c # cs) d =
     (case contend decode S e seat c d of (r, d1) \<Rightarrow> (case contest decode S e seat cs d1 of (rs, d2) \<Rightarrow> (r # rs, d2)))"

text \<open>The key of a contender's request is new, and its clock lies in a window shorter than a hold.\<close>

definition fresh_contender :: "(string \<Rightarrow> json option) \<Rightarrow> db \<Rightarrow> contender \<Rightarrow> bool" where
  "fresh_contender decode d c \<longleftrightarrow>
     (\<forall>who. actor_of decode (ct_token c) = Inr who \<longrightarrow> (who, ''hold'', ct_key c) \<notin> idem_key ` set (idempotency_records d))"

definition taken_until :: "time \<Rightarrow> uuid \<Rightarrow> seat_id \<Rightarrow> db \<Rightarrow> bool" where
  "taken_until t e seat d \<longleftrightarrow> (\<exists>s\<in>set (event_seats d). s_event s = e \<and> s_id s = seat \<and> (\<exists>u. s_until s = Some u \<and> t \<le> u))"

section \<open>Refusals\<close>

text \<open>An exception that the handlers turn into an answer of at least 400.\<close>

definition refuses :: "exc \<Rightarrow> bool" where
  "refuses x = (case x of Failure _ status \<Rightarrow> 400 \<le> status | _ \<Rightarrow> True)"

lemma refuses_simps [simp]:
  "refuses (Failure code status) \<longleftrightarrow> 400 \<le> status"
  "refuses LockNotAvailable" "refuses (IntegrityError n)" "refuses DatabaseUnavailable" "refuses RedisError" "refuses (PyError n)"
  by (simp_all add: refuses_def)

lemma refuses_status: "refuses x \<Longrightarrow> 400 \<le> rs_status (error_response request_id x)"
  by (cases x) (simp_all add: error_response_def business_error_def)

lemma inserts_refuse:
  "insert_hold h d = Inl x \<Longrightarrow> refuses x" "insert_order r d = Inl x \<Longrightarrow> refuses x"
  "insert_item i d = Inl x \<Longrightarrow> refuses x" "update_seats P f d = Inl x \<Longrightarrow> refuses x" "insert_outbox y d = Inl x \<Longrightarrow> refuses x"
  by (auto simp: insert_defs update_seats_def split: if_splits)

lemma insert_items_refuse: "insert_items order ev rows d = Inl x \<Longrightarrow> refuses x"
  by (induction rows arbitrary: d) (auto simp: ebind_Inl_iff inserts_refuse)

lemma create_hold_refuse:
  "create_hold E n actor ev cur hold order expires rows ids d = Inl x \<Longrightarrow> refuses x"
  by (auto simp: create_hold_def ebind_Inl_iff event_def dest: inserts_refuse insert_items_refuse)

lemma lock_seats_refuse: "lock_seats E rows = Inl x \<Longrightarrow> refuses x"
  by (auto simp: lock_seats_def split: if_splits)

lemma reserve_tx_refuse: "reserve_tx E hs actor ev ids key d = Inl x \<Longrightarrow> refuses x"
  by (auto simp: reserve_tx_def ebind_Inl_iff idem_def find_sale_def Let_def split: option.splits if_splits prod.splits
      dest: create_hold_refuse lock_seats_refuse)

text \<open>What one request can do in the PostgreSQL mode: nothing, or commit the transaction of the reservation.\<close>

lemma postgres_reserve_cases:
  assumes "postgres_reserve S X who e [seat] key w = (r, w')"
  obtains (refused) x where "r = Inl x" and "refuses x" and "w_db w' = w_db w"
    | (committed) resp where "r = Inr resp"
      and "reserve_tx (cx_env X) (hold_seconds S) who e [seat] key (w_db w) = Inr (resp, w_db w')"
proof -
  obtain sh d where run: "reserve (cx_env X) (cx_up_in X) (cx_up_out X) (cx_t_in X) (cx_t_out X) (cx_token X) (hold_seconds S)
      who e [seat] key (w_shields w, w_db w) = (r, sh, d)" and w': "w_db w' = d"
    using assms by (auto simp: postgres_reserve_def split: prod.splits)
  show ?thesis
  proof (cases "shield_enter (cx_up_in X) (cx_t_in X) (cx_token X) e [seat] (w_shields w)")
    case (Inl x)
    then have "refuses x" by (auto simp: shield_enter_def split: if_splits prod.splits bool.splits)
    then show ?thesis using run w' Inl by (intro refused [of x]) (simp_all add: reserve_def)
  next
    case (Inr sh1)
    then have tx: "transaction (reserve_tx (cx_env X) (hold_seconds S) who e [seat] key) (w_db w) = (r, d)"
      using run by (auto simp: reserve_def Let_def split: prod.splits)
    then show ?thesis
    proof (cases r)
      case (Inl x)
      then have "reserve_tx (cx_env X) (hold_seconds S) who e [seat] key (w_db w) = Inl x" "d = w_db w"
        using tx by (auto simp: transaction_def split: sum.splits)
      then show ?thesis using Inl w' reserve_tx_refuse by (intro refused) auto
    next
      case (Inr resp)
      then show ?thesis using tx w' by (intro committed) (simp_all add: transaction_result_Inr)
    qed
  qed
qed

lemma contend_cases:
  assumes run: "contend decode S e seat c d = (r, d1)" and mode: "reservation_mode S \<noteq> ''redis-first''"
  obtains (refused) "400 \<le> rs_status r" and "d1 = d"
    | (committed) who resp where "actor_of decode (ct_token c) = Inr who"
      and "reserve_tx (cx_env (ct_ctx c)) (hold_seconds S) who e [seat] (ct_key c) d = Inr (resp, d1)"
proof (cases "actor_of decode (ct_token c)")
  case (Inl x)
  then have "refuses x" by (auto simp: actor_of_def jindex_def ebind_Inl_iff split: option.splits json.splits if_splits)
  then show ?thesis using run Inl refuses_status by (intro refused) (auto simp: contend_def hold_endpoint_def)
next
  case (Inr who)
  let ?w = "\<lparr>w_db = d, w_redis = ct_redis c, w_shields = ct_shields c, w_rates = ct_rates c, w_bodies = ct_bodies c\<rparr>"
  show ?thesis
  proof (cases "hold_input [seat] \<and> key_input (ct_key c)")
    case False
    then show ?thesis using run Inr
      by (intro refused) (auto simp: contend_def hold_endpoint_def validation_error_def business_error_def)
  next
    case True
    obtain b w' where b: "hold_body S (ct_ctx c) who e [seat] (ct_key c) ?w = (b, w')" by (rule prod.exhaust)
    have d1: "d1 = w_db w'" and r: "\<And>x. b = Inl x \<Longrightarrow> r = error_response [] x"
      using run Inr True b by (auto simp: contend_def hold_endpoint_def split: sum.splits)
    have pg: "store_reserve S = postgres_reserve S" using mode by (simp add: store_reserve_def)
    consider (early) x where "b = Inl x" "refuses x" "w_db w' = d"
      | (store) rs where "postgres_reserve S (ct_ctx c) who e [seat] (ct_key c) (?w\<lparr>w_rates := rs\<rparr>) = (b, w')"
      using b by (auto simp: hold_body_def service_reserve_def pg rate_limit_def split: prod.splits if_splits sum.splits)
    then show ?thesis
    proof cases
      case early
      then show ?thesis using d1 r refuses_status by (intro refused) simp_all
    next
      case (store rs)
      then show ?thesis
      proof (cases rule: postgres_reserve_cases)
        case (refused x)
        then show ?thesis using d1 r refuses_status that(1) by simp
      next
        case (committed resp)
        then show ?thesis using d1 Inr that(2) by simp
      qed
    qed
  qed
qed

section \<open>At most one winner\<close>

lemma taken_seat_not_reserved:
  assumes tx: "reserve_tx E hs who e [seat] key d = Inr (resp, d')"
    and new: "(who, ''hold'', key) \<notin> idem_key ` set (idempotency_records d)" and taken: "taken_until t e seat d"
  shows "t \<le> e_now E"
  using tx
proof (cases rule: reserve_tx_cases)
  case replay
  then show ?thesis by (rule idem_replay) (use new in force)
next
  case (created sale d1 d2)
  obtain s u where s: "s \<in> set (event_seats d)" "s_event s = e" "s_id s = seat" "s_until s = Some u" "t \<le> u"
    using taken by (auto simp: taken_until_def)
  have "s \<in> set (select_seats e [seat] d1)" using s idem_same_seats(1) [OF created(1)] by (simp add: select_seats_def)
  then have "\<not> unavailable (e_now E) s" using created(6) by (auto simp: list_ex_iff)
  then show ?thesis using s by (simp add: unavailable_def)
qed

lemma reserved_seat_taken:
  assumes tx: "reserve_tx E hs who e [seat] key d = Inr (resp, d')"
    and new: "(who, ''hold'', key) \<notin> idem_key ` set (idempotency_records d)"
  shows "taken_until (e_now E + hs * 1000000) e seat d'"
    and "idem_key ` set (idempotency_records d') = insert (who, ''hold'', key) (idem_key ` set (idempotency_records d))"
proof -
  from tx have "taken_until (e_now E + hs * 1000000) e seat d' \<and>
    idem_key ` set (idempotency_records d') = insert (who, ''hold'', key) (idem_key ` set (idempotency_records d))"
  proof (cases rule: reserve_tx_cases)
    case replay
    then show ?thesis by (rule idem_replay) (use new in force)
  next
    case (created sale d1 d2)
    note eff = create_hold_effect(1) [OF created(7)]
    obtain s where "s \<in> set (select_seats e [seat] d1)" using created(5) by (cases "select_seats e [seat] d1") auto
    then have s: "s \<in> set (event_seats d1)" "s_event s = e" "s_id s = seat" by (simp_all add: select_seats_def)
    have "take_seat (e_uuid E 0) (e_now E + hs * 1000000) s \<in> set (event_seats d')"
      using upd_where_mem [OF s(1), of "\<lambda>s. s_event s = e \<and> s_id s \<in> set [seat]"] s created(9) eff by (simp add: remember_def)
    then have "taken_until (e_now E + hs * 1000000) e seat d'"
      unfolding taken_until_def by (rule bexI [rotated]) (simp add: take_seat_def s)
    moreover have "d1 = d\<lparr>idempotency_records := idempotency_records d @ [new_idem E who ''hold'' key (reserve_request e [seat])]\<rparr>"
      using created(1) by (cases rule: idem_cases) (use new in force)+
    then have "idem_key ` set (idempotency_records d') = insert (who, ''hold'', key) (idem_key ` set (idempotency_records d))"
      using created(9) eff
      by (simp add: remember_def image_upd_where idem_key_def new_idem_def)
    ultimately show ?thesis by blast
  qed
  then show "taken_until (e_now E + hs * 1000000) e seat d'"
    and "idem_key ` set (idempotency_records d') = insert (who, ''hold'', key) (idem_key ` set (idempotency_records d))" by blast+
qed

lemma contest_after_winner:
  assumes "reservation_mode S \<noteq> ''redis-first''" and "taken_until t e seat d"
    and "\<forall>c\<in>set cs. fresh_contender decode d c \<and> e_now (cx_env (ct_ctx c)) < t"
    and "contest decode S e seat cs d = (rs, d')"
  shows "d' = d \<and> (\<forall>r\<in>set rs. 400 \<le> rs_status r)"
  using assms(3,4)
proof (induction cs arbitrary: rs d')
  case (Cons c cs)
  obtain r d1 where c: "contend decode S e seat c d = (r, d1)" by (rule prod.exhaust)
  obtain rs' d2 where cs: "contest decode S e seat cs d1 = (rs', d2)" by (rule prod.exhaust)
  have res: "rs = r # rs'" "d' = d2" using Cons.prems(2) c cs by simp_all
  from c assms(1) show ?case
  proof (cases rule: contend_cases)
    case refused
    then show ?thesis using Cons.IH [of rs' d2] Cons.prems(1) cs res by simp
  next
    case (committed who resp)
    then have "t \<le> e_now (cx_env (ct_ctx c))"
      using taken_seat_not_reserved [OF committed(2) _ assms(2)] Cons.prems(1) by (simp add: fresh_contender_def)
    then show ?thesis using Cons.prems(1) by fastforce
  qed
qed simp

text \<open>
  Property C11.  A contested seat has at most one winner: when viewers ask for one seat through the hold endpoint
  in the PostgreSQL mode, each under a new key of its own and all within less than the length of a
  hold, then in every order of their transactions at most one is answered with 201, every other answer
  is an error, and after a win the seat stays held beyond the last request.
\<close>

theorem one_winner_per_seat:
  assumes mode: "reservation_mode S \<noteq> ''redis-first''" and keys: "distinct (map ct_key cs)"
    and fresh: "\<forall>c\<in>set cs. fresh_contender decode d c"
    and window: "\<forall>c\<in>set cs. t \<le> e_now (cx_env (ct_ctx c)) \<and> e_now (cx_env (ct_ctx c)) < t + hold_seconds S * 1000000"
    and run: "contest decode S e seat cs d = (rs, d')"
  shows "length (filter (\<lambda>r. rs_status r < 400) rs) \<le> 1 \<and>
    ((\<exists>r\<in>set rs. rs_status r < 400) \<longrightarrow> taken_until (t + hold_seconds S * 1000000) e seat d')"
  using keys fresh window run
proof (induction cs arbitrary: rs)
  case (Cons c cs)
  obtain r d1 where c: "contend decode S e seat c d = (r, d1)" by (rule prod.exhaust)
  obtain rs' d2 where cs: "contest decode S e seat cs d1 = (rs', d2)" by (rule prod.exhaust)
  have res: "rs = r # rs'" "d' = d2" using Cons.prems(4) c cs by simp_all
  from c mode show ?case
  proof (cases rule: contend_cases)
    case refused
    then show ?thesis using Cons.IH [of rs'] Cons.prems(1-3) cs res by simp
  next
    case (committed who resp)
    have new: "(who, ''hold'', ct_key c) \<notin> idem_key ` set (idempotency_records d)"
      using Cons.prems(2) committed(1) by (simp add: fresh_contender_def)
    note won = reserved_seat_taken [OF committed(2) new]
    have "taken_until (t + hold_seconds S * 1000000) e seat d1"
      using won(1) Cons.prems(3) unfolding taken_until_def by (fastforce intro: order_trans)
    moreover have "\<forall>c'\<in>set cs. ct_key c' \<noteq> ct_key c" using Cons.prems(1) by (metis distinct.simps(2) imageI list.set_map list.simps(9))
    then have "\<forall>c\<in>set cs. fresh_contender decode d1 c"
      using Cons.prems(2) by (auto simp: fresh_contender_def won(2))
    ultimately have "d2 = d1 \<and> (\<forall>r\<in>set rs'. 400 \<le> rs_status r)"
      using contest_after_winner [OF mode _ _ cs] Cons.prems(3) by simp
    then show ?thesis using \<open>taken_until (t + hold_seconds S * 1000000) e seat d1\<close> res
      by (auto simp: filter_empty_conv not_less)
  qed
qed simp

definition demo_contender :: "string \<Rightarrow> string \<Rightarrow> time \<Rightarrow> char \<Rightarrow> contender" where
  "demo_contender token key now c = \<lparr>ct_token = token, ct_key = key, ct_ctx = demo_ctx\<lparr>cx_env := stage_env c now\<rparr>,
     ct_redis = w_redis demo_world, ct_shields = (\<lambda>_. None), ct_rates = (\<lambda>_. None), ct_bodies = w_bodies demo_world\<rparr>"

definition demo_contenders :: "contender list" where
  "demo_contenders = [demo_contender ''bob'' ''w-0'' 1000 CHR ''b'', demo_contender ''carol'' ''w-1'' 1200 CHR ''c'',
     demo_contender ''dave'' ''w-2'' 1100 CHR ''d'']"

lemma demo_fresh: "fresh_contender demo_claims open_db c"
proof -
  have "idempotency_records open_db = []" by code_simp
  then show ?thesis by (simp add: fresh_contender_def)
qed

theorem one_winner_per_seat_witness:
  "map rs_status (fst (contest demo_claims default_settings ''e'' ''A1'' demo_contenders open_db)) = [201, 409, 409] \<and>
   taken_until (1000 + hold_seconds default_settings * 1000000) ''e'' ''A1''
     (snd (contest demo_claims default_settings ''e'' ''A1'' demo_contenders open_db))"
proof -
  let ?x = "contest demo_claims default_settings ''e'' ''A1'' demo_contenders open_db"
  have st: "map rs_status (fst ?x) = [201, 409, 409]" by code_simp
  have a: "reservation_mode default_settings \<noteq> ''redis-first''" "distinct (map ct_key demo_contenders)"
    "list_all (\<lambda>c. 1000 \<le> e_now (cx_env (ct_ctx c)) \<and>
       e_now (cx_env (ct_ctx c)) < 1000 + hold_seconds default_settings * 1000000) demo_contenders"
    by code_simp+
  have "\<exists>r\<in>set (fst ?x). rs_status r < 400" using st by (cases "fst ?x") auto
  then have "taken_until (1000 + hold_seconds default_settings * 1000000) ''e'' ''A1'' (snd ?x)"
    using one_winner_per_seat [OF a(1,2) _ _ surjective_pairing, of demo_claims open_db 1000 "''e''" "''A1''"] a(3) demo_fresh
    by (simp add: list_all_iff)
  then show ?thesis using st by blast
qed

end
