(* ===== verification/Hold_Audit.thy ===== *)
theory Hold_Audit
  imports Store_Promises Intake
begin

text \<open>
  The read-only checks around a load run: the preflight of the fixture
  (\<open>scripts/cloud_load_preflight.py\<close>), the audit of acknowledged holds after the run
  (\<open>scripts/verify_cloud_holds.py\<close>), the evidence of one owner after a contention wave
  (\<open>scripts/verify_hot_seat.py\<close>), and the loop over the waves (\<open>scripts/verify_contention_matrix.py\<close>).
  Each reads one snapshot of the database; \<open>parser.error\<close> is the exit with status 2.
\<close>

datatype 'a exits = Usage_error | Raises exc | Report 'a

section \<open>Preflight\<close>

record preflight =
  pf_expected :: nat
  pf_found :: nat
  pf_open :: nat
  pf_credentials :: bool
  pf_pass :: bool

text \<open>\<open>now\<close> is the script's clock, \<open>db_now\<close> the server's; instants are microseconds.\<close>

definition deadline_with_drain :: "time \<Rightarrow> int \<Rightarrow> time" where
  "deadline_with_drain now secs = now + (secs + 180) * 1000000"

definition load_preflight ::
  "bool \<Rightarrow> int \<Rightarrow> string option \<Rightarrow> uuid list \<Rightarrow> time \<Rightarrow> time \<Rightarrow> time \<Rightarrow> db \<Rightarrow> preflight exits"
where
  "load_preflight output_exists secs environ show_ids expires_at now db_now d =
     (if output_exists \<or> secs < 1 then Usage_error
      else if environ \<noteq> Some ''development'' then Usage_error
      else
        let deadline = deadline_with_drain now secs;
            shows = filter (\<lambda>r. ev_id r \<in> set show_ids) (events d);
            found = length shows;
            still_open = length (filter (\<lambda>r. ev_sale_starts r < db_now \<and> ev_sale_ends r > deadline) shows);
            expected = length show_ids;
            credentials = expires_at > deadline in
        Report \<lparr>pf_expected = expected, pf_found = found, pf_open = still_open, pf_credentials = credentials,
          pf_pass = (found = still_open \<and> still_open = expected \<and> credentials)\<rparr>)"

section \<open>\<open>LIKE\<close> and the join of the audits\<close>

text \<open>SQL's \<open>LIKE\<close> with its wildcards.\<close>

function like :: "string \<Rightarrow> string \<Rightarrow> bool" where
  "like [] s = (s = [])"
| "like (p # ps) s =
     (if p = CHR 0x25 then like ps s \<or> (case s of [] \<Rightarrow> False | c # cs \<Rightarrow> like (p # ps) cs)
      else case s of
        [] \<Rightarrow> False
      | c # cs \<Rightarrow>
          if p = CHR ''_'' then like ps cs
          else if p = CHR 0x5C then (case ps of [] \<Rightarrow> False | q # qs \<Rightarrow> q = c \<and> like qs cs)
          else p = c \<and> like ps cs)"
  by pat_completeness auto
termination by (relation "measure (\<lambda>(p, s). length p + length s)") auto

text \<open>\<open>run_id + '-%'\<close>\<close>

definition run_pattern :: "string \<Rightarrow> string" where
  "run_pattern run = run @ ''-%''"

text \<open>\<open>(r.response->>k)::uuid\<close>: \<open>NULL\<close> without the member, an error for a value that is no identifier.\<close>

definition response_uuid :: "string \<Rightarrow> idem_row \<Rightarrow> uuid option result" where
  "response_uuid k r =
     (case k_response r of
        None \<Rightarrow> Inr None
      | Some j \<Rightarrow>
          (case jget k j of
             None \<Rightarrow> Inr None
           | Some JNull \<Rightarrow> Inr None
           | Some (JStr x) \<Rightarrow> Inr (Some x)
           | Some _ \<Rightarrow> Inl (PyError ''InvalidTextRepresentation'')))"

record joined =
  jn_record :: idem_row
  jn_hold :: "hold_row option"
  jn_order :: "order_row option"

definition join_record :: "db \<Rightarrow> idem_row \<Rightarrow> joined result" where
  "join_record d r =
     ebind (response_uuid ''hold_id'' r) (\<lambda>h.
     ebind (response_uuid ''order_id'' r) (\<lambda>oid.
     Inr \<lparr>jn_record = r, jn_hold = Option.bind h (\<lambda>h. find_hold h d),
       jn_order = Option.bind oid (\<lambda>oid. find_order oid d)\<rparr>))"

fun join_records :: "db \<Rightarrow> idem_row list \<Rightarrow> joined list result" where
  "join_records d [] = Inr []"
| "join_records d (r # rs) = ebind (join_record d r) (\<lambda>j. ebind (join_records d rs) (\<lambda>js. Inr (j # js)))"

text \<open>\<open>WHERE r.operation='hold' AND r.key LIKE ...\<close>\<close>

definition hold_records :: "(string \<Rightarrow> bool) \<Rightarrow> db \<Rightarrow> idem_row list" where
  "hold_records selects d = filter (\<lambda>r. k_operation r = ''hold'' \<and> selects (k_key r)) (idempotency_records d)"

definition distinct_count :: "('b \<Rightarrow> 'a option) \<Rightarrow> 'b list \<Rightarrow> nat" where
  "distinct_count f xs = length (remdups (List.map_filter f xs))"

section \<open>The audit of a run\<close>

type_synonym statuses = "(string \<times> (string \<times> int) list) list"

definition status_count :: "statuses \<Rightarrow> string \<Rightarrow> string \<Rightarrow> int" where
  "status_count statuses operation code =
     (case map_of statuses operation of
        None \<Rightarrow> 0
      | Some t \<Rightarrow> (case map_of t code of None \<Rightarrow> 0 | Some n \<Rightarrow> n))"

record acknowledged =
  ak_201 :: int
  ak_202 :: int
  ak_total :: int

definition acknowledged_of :: "statuses \<Rightarrow> acknowledged" where
  "acknowledged_of statuses =
     (let a201 = sum_list (map (\<lambda>operation. status_count statuses operation ''201'') [''hold'', ''hot_hold'']);
          a202 = sum_list (map (\<lambda>operation. status_count statuses operation ''202'') [''hold'', ''hot_hold'']) in
      \<lparr>ak_201 = a201, ak_202 = a202, ak_total = a201 + a202\<rparr>)"

text \<open>The files in the order of the scan; \<open>None\<close> is a file that is no worker result.  A later file replaces an earlier one of the same run.\<close>

fun dict_put :: "'k \<Rightarrow> 'v \<Rightarrow> ('k \<times> 'v) list \<Rightarrow> ('k \<times> 'v) list" where
  "dict_put k v [] = [(k, v)]"
| "dict_put k v ((k', v') # kvs) = (if k' = k then (k, v) # kvs else (k', v') # dict_put k v kvs)"

fun collect_runs :: "(string \<times> statuses) option list \<Rightarrow> (string \<times> acknowledged) list \<Rightarrow> (string \<times> acknowledged) list" where
  "collect_runs [] runs = runs"
| "collect_runs (None # files) runs = collect_runs files runs"
| "collect_runs (Some (run, statuses) # files) runs = collect_runs files (dict_put run (acknowledged_of statuses) runs)"

record run_row =
  rr_records :: nat
  rr_holds :: nat
  rr_orders :: nat
  rr_broken :: nat
  rr_active :: nat
  rr_overdue :: nat
  rr_pending :: nat
  rr_commands :: nat

definition broken_link :: "joined \<Rightarrow> bool" where
  "broken_link j =
     (case (jn_hold j, jn_order j) of
        (Some h, Some order) \<Rightarrow> o_hold order \<noteq> h_id h \<or> h_actor h \<noteq> k_actor (jn_record j) \<or> o_actor order \<noteq> k_actor (jn_record j)
      | _ \<Rightarrow> True)"

definition hold_is :: "(hold_row \<Rightarrow> bool) \<Rightarrow> joined \<Rightarrow> bool" where
  "hold_is P j = (case jn_hold j of None \<Rightarrow> False | Some h \<Rightarrow> P h)"

definition order_pending :: "joined \<Rightarrow> bool" where
  "order_pending j = (case jn_order j of None \<Rightarrow> False | Some order \<Rightarrow> o_status order = O_PENDING)"

text \<open>Every stored command is durable: \<open>persist_tx\<close> inserts no other (\<open>insert_command\<close>).\<close>

definition run_query :: "time \<Rightarrow> string \<Rightarrow> db \<Rightarrow> run_row result" where
  "run_query db_now run d =
     ebind (join_records d (hold_records (like (run_pattern run)) d)) (\<lambda>js.
     Inr \<lparr>rr_records = length js, rr_holds = distinct_count (\<lambda>j. map_option h_id (jn_hold j)) js,
       rr_orders = distinct_count (\<lambda>j. map_option o_id (jn_order j)) js,
       rr_broken = length (filter broken_link js),
       rr_active = length (filter (hold_is (\<lambda>h. h_status h = H_ACTIVE)) js),
       rr_overdue = length (filter (hold_is (\<lambda>h. h_status h = H_ACTIVE \<and> h_expires h < db_now)) js),
       rr_pending = length (filter order_pending js),
       rr_commands = length (filter (\<lambda>c. like (run_pattern run) (m_key c)) (reservation_commands d))\<rparr>)"

definition run_passed :: "acknowledged \<Rightarrow> run_row \<Rightarrow> bool" where
  "run_passed a row \<longleftrightarrow>
     int (rr_records row) = ak_total a \<and> int (rr_holds row) = ak_total a \<and> int (rr_orders row) = ak_total a \<and>
     list_all (\<lambda>n. n = 0) [rr_broken row, rr_active row, rr_overdue row, rr_pending row] \<and>
     int (rr_commands row) = ak_202 a"

fun audit_runs :: "time \<Rightarrow> (string \<times> acknowledged) list \<Rightarrow> db \<Rightarrow> (string \<times> run_row \<times> bool) list result" where
  "audit_runs db_now [] d = Inr []"
| "audit_runs db_now ((run, a) # runs) d =
     ebind (run_query db_now run d) (\<lambda>row.
     ebind (audit_runs db_now runs d) (\<lambda>rest. Inr ((run, row, run_passed a row) # rest)))"

subsection \<open>Overlapping intervals\<close>

record interval =
  iv_hold :: uuid
  iv_event :: uuid
  iv_expires :: time
  iv_created :: time
  iv_seat :: seat_id

text \<open>The inner joins of \<open>selected\<close> for one record, with its \<open>DISTINCT\<close> applied at the end.\<close>

definition intervals_of :: "db \<Rightarrow> joined \<Rightarrow> interval list" where
  "intervals_of d j =
     (case (jn_hold j, jn_order j) of
        (Some h, Some order) \<Rightarrow>
          map (\<lambda>i. \<lparr>iv_hold = h_id h, iv_event = h_event h, iv_expires = h_expires h, iv_created = o_created order, iv_seat = i_seat i\<rparr>)
            (filter (\<lambda>i. i_order i = o_id order) (order_items d))
      | _ \<Rightarrow> [])"

definition selected :: "string list \<Rightarrow> db \<Rightarrow> interval list result" where
  "selected runs d =
     ebind (join_records d (hold_records (\<lambda>k. list_ex (\<lambda>run. like (run_pattern run) k) runs) d)) (\<lambda>js.
     Inr (remdups (concat (map (intervals_of d) js))))"

text \<open>
  \<open>max(expires_at) OVER (... ROWS BETWEEN UNBOUNDED PRECEDING AND 1 PRECEDING)\<close> along one partition,
  with the rows counted that were created before it; \<open>None\<close> is the \<open>NULL\<close> of the first row.
\<close>

fun sweep :: "time option \<Rightarrow> interval list \<Rightarrow> nat" where
  "sweep prior [] = 0"
| "sweep prior (r # rs) =
     (case prior of
        None \<Rightarrow> sweep (Some (iv_expires r)) rs
      | Some p \<Rightarrow> (if iv_created r < p then 1 else 0) + sweep (Some (max p (iv_expires r))) rs)"

definition iv_place :: "interval \<Rightarrow> uuid \<times> seat_id" where
  "iv_place r = (iv_event r, iv_seat r)"

text \<open>\<open>PARTITION BY event_id,seat_id ORDER BY created_at,id\<close>\<close>

definition window_rows :: "uuid \<times> seat_id \<Rightarrow> interval list \<Rightarrow> interval list" where
  "window_rows place rows = sort_key iv_created (sort_key iv_hold (filter (\<lambda>r. iv_place r = place) rows))"

definition overlaps :: "interval list \<Rightarrow> nat" where
  "overlaps rows = sum_list (map (\<lambda>place. sweep None (window_rows place rows)) (remdups (map iv_place rows)))"

subsection \<open>Queues and streams\<close>

record queues =
  qu_outbox :: nat
  qu_refresh :: nat
  qu_letters :: nat
  qu_entries :: nat
  qu_pending :: nat

text \<open>
  The streams found by the scan; \<open>has_group\<close> tells for which of them the consumer group exists: without
  it \<open>XPENDING\<close> raises \<open>ResponseError\<close> and every entry counts as pending.
\<close>

fun stream_backlog :: "(uuid \<Rightarrow> bool) \<Rightarrow> uuid list \<Rightarrow> redis \<Rightarrow> nat \<times> nat \<Rightarrow> nat \<times> nat" where
  "stream_backlog has_group [] rd acc = acc"
| "stream_backlog has_group (e # es) rd (entries, pending) =
     (let n = length (rd_streams rd e) in
      stream_backlog has_group es rd (entries + n,
        pending + (if has_group e then length (filter (\<lambda>x. se_claim x \<noteq> None) (rd_streams rd e)) else n)))"

record audit_report =
  au_runs :: "(string \<times> run_row \<times> bool) list"
  au_queues :: queues
  au_holds :: nat
  au_intervals :: nat
  au_overlaps :: nat
  au_pass :: bool

definition verify_cloud_holds ::
  "(string \<times> statuses) option list \<Rightarrow> time \<Rightarrow> db \<Rightarrow> bool \<Rightarrow> (uuid \<Rightarrow> bool) \<Rightarrow> uuid list \<Rightarrow> redis \<Rightarrow> audit_report exits"
where
  "verify_cloud_holds files db_now d redis_url has_group scanned rd =
     (let runs = collect_runs files [] in
      if runs = [] then Usage_error
      else case ebind (audit_runs db_now (sort_key fst runs) d) (\<lambda>checks.
             ebind (selected (map fst runs) d) (\<lambda>rows. Inr (checks, rows))) of
        Inl e \<Rightarrow> Raises e
      | Inr (checks, rows) \<Rightarrow>
          if \<not> redis_url then Usage_error
          else
            let (entries, pending) = stream_backlog has_group scanned rd (0, 0);
                audited = length (remdups (map iv_hold rows)) in
            Report \<lparr>au_runs = checks,
              au_queues = \<lparr>qu_outbox = length (filter (\<lambda>x. x_published x = None) (outbox_events d)),
                qu_refresh = length (filter (\<lambda>f. f_generation f > f_completed f) (seat_refresh_requests d)),
                qu_letters = length (dead_letters d), qu_entries = entries, qu_pending = pending\<rparr>,
              au_holds = audited, au_intervals = length rows, au_overlaps = overlaps rows,
              au_pass = (list_all (\<lambda>(_, _, ok). ok) checks \<and> overlaps rows = 0 \<and>
                int audited = sum_list (map (ak_total \<circ> snd) runs) \<and> entries = 0 \<and> pending = 0)\<rparr>)"

text \<open>\<open>raise SystemExit(1)\<close> unless the audit passed; 2 for a usage error, 1 for an exception.\<close>

definition exit_status :: "('a \<Rightarrow> bool) \<Rightarrow> 'a exits \<Rightarrow> int" where
  "exit_status ok x = (case x of Usage_error \<Rightarrow> 2 | Raises _ \<Rightarrow> 1 | Report r \<Rightarrow> if ok r then 0 else 1)"

section \<open>The owner of a contested seat\<close>

record owner_report =
  ow_records :: "nat \<times> nat \<times> nat \<times> nat"
  ow_active :: "nat \<times> nat"
  ow_seat :: "uuid option"
  ow_pass :: bool

definition owned_link :: "uuid \<Rightarrow> uuid \<Rightarrow> joined \<Rightarrow> bool" where
  "owned_link hold ev j =
     (case (jn_hold j, jn_order j) of
        (Some h, Some order) \<Rightarrow> h_id h = hold \<and> h_event h = ev \<and> o_hold order = h_id h \<and> o_actor order = h_actor h \<and>
          k_actor (jn_record j) = h_actor h
      | _ \<Rightarrow> False)"

text \<open>The holds and orders that own the seat at \<open>db_now\<close>: \<open>order_items JOIN orders JOIN holds\<close>.\<close>

definition active_owners :: "time \<Rightarrow> uuid \<Rightarrow> seat_id \<Rightarrow> db \<Rightarrow> (uuid \<times> uuid) list" where
  "active_owners db_now ev seat d =
     List.map_filter (\<lambda>i.
       Option.bind (find_order (i_order i) d) (\<lambda>order.
       Option.bind (find_hold (o_hold order) d) (\<lambda>h.
       if h_status h = H_ACTIVE \<and> h_expires h > db_now then Some (h_id h, o_id order) else None)))
     (filter (\<lambda>i. i_event i = ev \<and> i_seat i = seat) (order_items d))"

text \<open>\<open>str(None)\<close> is the text \<open>None\<close>, which is no identifier.\<close>

definition verify_hot_seat :: "string \<Rightarrow> uuid \<Rightarrow> seat_id \<Rightarrow> uuid \<Rightarrow> time \<Rightarrow> db \<Rightarrow> owner_report exits" where
  "verify_hot_seat run ev seat hold db_now d =
     (case join_records d (hold_records (like (run_pattern run)) d) of
        Inl e \<Rightarrow> Raises e
      | Inr js \<Rightarrow>
          let row = (length js, distinct_count (\<lambda>j. map_option h_id (jn_hold j)) js,
                distinct_count (\<lambda>j. map_option o_id (jn_order j)) js, length (filter (owned_link hold ev) js));
              owners = active_owners db_now ev seat d;
              active = (length (remdups (map fst owners)), length (remdups (map snd owners)));
              found = find (\<lambda>s. s_event s = ev \<and> s_id s = seat) (event_seats d);
              current = map_option (\<lambda>s. case s_hold s of None \<Rightarrow> ''None'' | Some h \<Rightarrow> h) found in
          Report \<lparr>ow_records = row, ow_active = active, ow_seat = current,
            ow_pass = (row = (1, 1, 1, 1) \<and> active = (1, 1) \<and> current = Some hold)\<rparr>)"

text \<open>
  The loop over the waves: each summary names its winners; a wave without exactly one raises, and so does
  a verifier that does not exit with 0 (\<open>check=True\<close>).
\<close>

record wave_summary =
  wv_event :: uuid
  wv_seat :: seat_id
  wv_winners :: "(string \<times> uuid) list"

fun verify_contention_matrix :: "(wave_summary \<Rightarrow> string \<times> uuid \<Rightarrow> int) \<Rightarrow> wave_summary list \<Rightarrow> unit result" where
  "verify_contention_matrix verifier [] = Inr ()"
| "verify_contention_matrix verifier (w # ws) =
     (if length (wv_winners w) \<noteq> 1 then Inl (PyError ''ValueError'')
      else if verifier w (hd (wv_winners w)) \<noteq> 0 then Inl (PyError ''CalledProcessError'')
      else verify_contention_matrix verifier ws)"

end
