(* ===== verification/Suite.thy ===== *)
theory Suite
  imports Hold_Audit Refresh Stage
begin

text \<open>
  The stability suite (\<open>scripts/cloud_stability_suite.py\<close>): reconfiguring the API, warming the seat maps,
  one load stage with its observer and its audit, and the loop over worker counts, rates and keep-alive
  values.  Subprocesses, clocks and files are parameters; the warm-up works on the model's own cache
  and database, and the audit and the preflight are those of \<open>Hold_Audit\<close>.
\<close>

section \<open>Reconfiguring the API\<close>

text \<open>An answer of the readiness probe; \<open>HTTPError\<close> is one of the caught exceptions.\<close>

datatype probe = Code int | Unreachable | Probe_fault fault

text \<open>
  \<open>readiness_wait\<close>: the \<open>k\<close>-th round reads the clock and, before the deadline, probes once and sleeps.
  \<open>None\<close> means that the fuel ended first.
\<close>

fun readiness_rounds :: "(nat \<Rightarrow> int) \<Rightarrow> (nat \<Rightarrow> probe) \<Rightarrow> int \<Rightarrow> nat \<Rightarrow> nat \<Rightarrow> (fault + bool) option" where
  "readiness_rounds clock probes deadline k 0 = None"
| "readiness_rounds clock probes deadline k (Suc fuel) =
     (if clock k < deadline
      then (case probes k of
              Code c \<Rightarrow> if c = 200 then Some (Inr True) else readiness_rounds clock probes deadline (k + 1) fuel
            | Unreachable \<Rightarrow> readiness_rounds clock probes deadline (k + 1) fuel
            | Probe_fault e \<Rightarrow> Some (Inl e))
      else Some (Inr False))"

definition readiness_wait :: "(nat \<Rightarrow> int) \<Rightarrow> (nat \<Rightarrow> probe) \<Rightarrow> int \<Rightarrow> nat \<Rightarrow> (fault + bool) option" where
  "readiness_wait clock probes timeout fuel = readiness_rounds clock probes (clock 0 + timeout) 1 fuel"

text \<open>\<open>configure_api\<close>; the fuel is given by the caller and \<open>None\<close> again means that it was too little.\<close>

definition configure_api ::
  "fault option \<Rightarrow> call \<Rightarrow> (nat \<Rightarrow> int) \<Rightarrow> (nat \<Rightarrow> probe) \<Rightarrow> nat \<Rightarrow> (fault + unit) option"
where
  "configure_api written compose clock probes fuel =
     (case written of
        Some e \<Rightarrow> Some (Inl e)
      | None \<Rightarrow>
          (case compose of
             Faults e \<Rightarrow> Some (Inl e)
           | Exits code \<Rightarrow>
               if code \<noteq> 0 then Some (Inl Runtime_error)
               else (case readiness_wait clock probes 120 fuel of
                       None \<Rightarrow> None
                     | Some (Inl e) \<Rightarrow> Some (Inl e)
                     | Some (Inr ok) \<Rightarrow> Some (if ok then Inr () else Inl Runtime_error))))"

text \<open>\<open>restore_api\<close> ignores the exit code.\<close>

definition restore_api :: "call \<Rightarrow> fault + unit" where
  "restore_api compose = (case compose of Faults e \<Rightarrow> Inl e | Exits _ \<Rightarrow> Inr ())"

section \<open>Warming the seat maps\<close>

text \<open>What the calls for one show meet: the first read, the snapshot, the second read.\<close>

record warm_call =
  wc_up :: bool
  wc_touch :: bool
  wc_now :: time
  wc_cache :: cache_env
  wc_up2 :: bool
  wc_touch2 :: bool
  wc_now2 :: time

record warmup =
  wu_ready :: nat
  wu_missing :: nat
  wu_seeded :: nat
  wu_post :: nat
  wu_failures :: "(uuid \<times> exc) list"

text \<open>The body of the first loop.\<close>

definition warm_show :: "int \<Rightarrow> db \<Rightarrow> uuid \<Rightarrow> warm_call \<Rightarrow> warmup \<times> seatmaps \<Rightarrow> warmup \<times> seatmaps" where
  "warm_show ttl d e c = (\<lambda>(u, maps).
     case read_map (wc_up c) (wc_touch c) ttl (wc_now c) e maps of
       (Inr _, maps1) \<Rightarrow> (u\<lparr>wu_ready := wu_ready u + 1\<rparr>, maps1)
     | (Inl x, maps1) \<Rightarrow>
         (case x of
            Failure code status \<Rightarrow>
              if code \<notin> {''SEATMAP_WARMING'', ''SEATMAP_UNAVAILABLE''}
              then (u\<lparr>wu_failures := wu_failures u @ [(e, x)]\<rparr>, maps1)
              else (case snapshot (wc_cache c) e d maps1 of
                      (Inr _, maps2) \<Rightarrow> (u\<lparr>wu_missing := wu_missing u + 1, wu_seeded := wu_seeded u + 1\<rparr>, maps2)
                    | (Inl y, maps2) \<Rightarrow> (u\<lparr>wu_missing := wu_missing u + 1, wu_failures := wu_failures u @ [(e, y)]\<rparr>, maps2))
          | _ \<Rightarrow> (u\<lparr>wu_failures := wu_failures u @ [(e, x)]\<rparr>, maps1)))"

fun warm_shows :: "int \<Rightarrow> db \<Rightarrow> (uuid \<times> warm_call) list \<Rightarrow> warmup \<times> seatmaps \<Rightarrow> warmup \<times> seatmaps" where
  "warm_shows ttl d [] s = s"
| "warm_shows ttl d ((e, c) # shows) s = warm_shows ttl d shows (warm_show ttl d e c s)"

fun check_shows :: "int \<Rightarrow> (uuid \<times> warm_call) list \<Rightarrow> warmup \<times> seatmaps \<Rightarrow> warmup \<times> seatmaps" where
  "check_shows ttl [] s = s"
| "check_shows ttl ((e, c) # shows) (u, maps) =
     check_shows ttl shows
       (case read_map (wc_up2 c) (wc_touch2 c) ttl (wc_now2 c) e maps of
          (Inr _, maps1) \<Rightarrow> (u\<lparr>wu_post := wu_post u + 1\<rparr>, maps1)
        | (Inl x, maps1) \<Rightarrow> (u\<lparr>wu_failures := wu_failures u @ [(e, x)]\<rparr>, maps1))"

definition no_warmup :: warmup where
  "no_warmup = \<lparr>wu_ready = 0, wu_missing = 0, wu_seeded = 0, wu_post = 0, wu_failures = []\<rparr>"

text \<open>\<open>db_url\<close>: whether one of the two variables is set.  The flag is the result's \<open>pass\<close>.\<close>

definition run_warmup :: "bool \<Rightarrow> int \<Rightarrow> db \<Rightarrow> (uuid \<times> warm_call) list \<Rightarrow> seatmaps \<Rightarrow> (warmup \<times> bool) \<times> seatmaps" where
  "run_warmup db_url ttl d shows maps =
     (if \<not> db_url then ((no_warmup, False), maps)
      else case check_shows ttl shows (warm_shows ttl d shows (no_warmup, maps)) of
        (u, maps') \<Rightarrow> ((u, wu_failures u = [] \<and> wu_post u = length shows \<and> length shows > 0), maps'))"

section \<open>The observer's summary\<close>

record observation =
  ob_metrics :: "(string \<times> rat) list"
  ob_lock_waiters :: "rat option"
  ob_checkpoints :: "rat option"
  ob_checkpoint_sync :: "rat option"
  ob_wal_sync :: "rat option"
  ob_wal_write :: "rat option"
  ob_minimum_ttl :: "rat option"

definition has_prefix :: "string \<Rightarrow> string \<Rightarrow> bool" where
  "has_prefix p s \<longleftrightarrow> take (length p) s = p"

text \<open>Members are visited in the order of the last sample; a counter that fell is left out.\<close>

definition metric_delta :: "observation list \<Rightarrow> string \<Rightarrow> rat \<times> nat" where
  "metric_delta samples p =
     (case samples of
        [] \<Rightarrow> (0, 0)
      | first # _ \<Rightarrow>
          let deltas = filter (\<lambda>x. 0 \<le> x)
            (map (\<lambda>(key, v). v - (case map_of (ob_metrics first) key of None \<Rightarrow> 0 | Some w \<Rightarrow> w))
              (filter (\<lambda>(key, _). has_prefix p key) (ob_metrics (last samples)))) in
          (sum_list deltas, length deltas))"

definition value_or :: "rat \<Rightarrow> rat option \<Rightarrow> rat" where
  "value_or x v = (case v of None \<Rightarrow> x | Some y \<Rightarrow> y)"

definition avg_ms :: "observation list \<Rightarrow> string \<Rightarrow> rat option" where
  "avg_ms rows p =
     (let n = fst (metric_delta rows (p @ ''_count'')) in
      if n = 0 then None else Some (fst (metric_delta rows (p @ ''_sum'')) / n * 1000))"

definition growth :: "(observation \<Rightarrow> rat option) \<Rightarrow> observation list \<Rightarrow> rat" where
  "growth f rows = max (value_or 0 (f (last rows)) - value_or 0 (f (hd rows))) 0"

definition active_max :: "observation \<Rightarrow> rat" where
  "active_max row =
     (case map snd (filter (\<lambda>(key, _). has_prefix ''ticketing_worker_active'' key) (ob_metrics row)) of
        [] \<Rightarrow> 0 | v # vs \<Rightarrow> fold max vs v)"

definition timing :: "observation list \<Rightarrow> string \<Rightarrow> rat \<times> rat \<times> rat option" where
  "timing rows p = (fst (metric_delta rows (p @ ''_count'')), fst (metric_delta rows (p @ ''_sum'')), avg_ms rows p)"

record observer_summary =
  os_rows :: nat
  os_commit :: "rat \<times> rat \<times> rat option"
  os_rollback :: "rat \<times> rat \<times> rat option"
  os_pool_return :: "rat \<times> rat \<times> rat option"
  os_pool_acquire :: "rat \<times> rat \<times> rat option"
  os_query :: "rat \<times> rat \<times> rat option"
  os_body :: "rat \<times> rat \<times> rat option"
  os_worker_busy :: rat
  os_worker_active :: rat
  os_http_close :: rat
  os_lock_waiters :: rat
  os_checkpoints :: rat
  os_checkpoint_sync :: rat
  os_wal_sync :: rat
  os_wal_write :: rat
  os_minimum_ttl :: rat

definition summarize_observer :: "observation list \<Rightarrow> observer_summary option" where
  "summarize_observer rows =
     (case rows of
        [] \<Rightarrow> None
      | r # rs \<Rightarrow> Some
          \<lparr>os_rows = length rows, os_commit = timing rows ''ticketing_db_commit_seconds'',
           os_rollback = timing rows ''ticketing_db_rollback_seconds'',
           os_pool_return = timing rows ''ticketing_db_pool_return_seconds'',
           os_pool_acquire = timing rows ''ticketing_db_pool_acquire_seconds'',
           os_query = timing rows ''ticketing_db_query_seconds'',
           os_body = timing rows ''ticketing_db_transaction_body_seconds'',
           os_worker_busy = fst (metric_delta rows ''ticketing_worker_busy_seconds_total''),
           os_worker_active = fold max (map active_max rs) (active_max r),
           os_http_close = fst (metric_delta rows ''ticketing_http_connection_close_total''),
           os_lock_waiters = fold max (map (\<lambda>o'. value_or 0 (ob_lock_waiters o')) rs) (value_or 0 (ob_lock_waiters r)),
           os_checkpoints = growth ob_checkpoints rows, os_checkpoint_sync = growth ob_checkpoint_sync rows,
           os_wal_sync = growth ob_wal_sync rows, os_wal_write = growth ob_wal_write rows,
           os_minimum_ttl = fold min (map (\<lambda>o'. value_or 1000000000 (ob_minimum_ttl o')) rs)
             (value_or 1000000000 (ob_minimum_ttl r))\<rparr>)"

section \<open>One stage\<close>

text \<open>\<open>run_verify\<close> and \<open>run_preflight\<close>: without an output file the flag is \<open>False\<close>; the script writes it before it exits.\<close>

definition run_verify :: "audit_report exits \<Rightarrow> int \<times> bool" where
  "run_verify x = (exit_status au_pass x, case x of Report r \<Rightarrow> au_pass r | _ \<Rightarrow> False)"

definition run_preflight :: "preflight exits \<Rightarrow> int \<times> bool" where
  "run_preflight x = (exit_status pf_pass x, case x of Report r \<Rightarrow> pf_pass r | _ \<Rightarrow> False)"

text \<open>What \<open>run_loader\<close> reads from \<open>summary.json\<close>; without the file every entry is absent.\<close>

record loader =
  lo_exit :: int
  lo_gate :: "bool option"
  lo_errors :: "(string \<times> int) list"

definition run_loader :: "int \<Rightarrow> (bool option \<times> (string \<times> int) list) option \<Rightarrow> loader" where
  "run_loader code summary =
     (case summary of
        None \<Rightarrow> \<lparr>lo_exit = code, lo_gate = None, lo_errors = []\<rparr>
      | Some (gate, errors) \<Rightarrow> \<lparr>lo_exit = code, lo_gate = gate, lo_errors = errors\<rparr>)"

fun tails :: "string \<Rightarrow> string list" where
  "tails [] = [[]]"
| "tails (c # cs) = (c # cs) # tails cs"

definition contains :: "string \<Rightarrow> string \<Rightarrow> bool" where
  "contains p s = list_ex (has_prefix p) (tails s)"

definition lower :: "string \<Rightarrow> string" where
  "lower s = map (\<lambda>c. let n = (of_char c :: nat) in if 65 \<le> n \<and> n \<le> 90 then char_of (n + 32) else c) s"

definition reset_like :: "(string \<times> int) list \<Rightarrow> int" where
  "reset_like errors = sum_list (map snd (filter (\<lambda>(name, _).
     contains ''Reset'' name \<or> contains ''connection'' (lower name) \<or> contains ''RemoteProtocolError'' name) errors))"

text \<open>
  The observer process: whether it ends within the wait for it, and within the five seconds after it
  was terminated.
\<close>

datatype observer = Ends_in_time | Ends_when_terminated | Never_ends

record stage_outcome =
  so_warmup :: "warmup \<times> bool"
  so_loader :: "loader option"
  so_verify :: "int \<times> bool"
  so_resets :: int
  so_observer :: "observer_summary option"
  so_passed :: bool

text \<open>
  \<open>run_stage\<close>: a failed warm-up ends it.  An exception of the loader, or of the wait for the observer,
  leaves through the \<open>finally\<close>, whose own wait may raise in its place.  \<open>rows\<close> are the observer's samples,
  none when it wrote no file.
\<close>

definition finish_observer :: "observer \<Rightarrow> (fault + 'a) \<Rightarrow> fault + 'a" where
  "finish_observer ob r =
     (case r of
        Inl e \<Rightarrow> (case ob of Never_ends \<Rightarrow> Inl Timed_out | _ \<Rightarrow> Inl e)
      | Inr x \<Rightarrow> (case ob of Ends_in_time \<Rightarrow> Inr x | _ \<Rightarrow> Inl Timed_out))"

definition suite_stage ::
  "(warmup \<times> bool) \<Rightarrow> (fault + loader) \<Rightarrow> observer \<Rightarrow> observation list \<Rightarrow> audit_report exits \<Rightarrow> fault + stage_outcome"
where
  "suite_stage warm loading ob rows audit =
     (if \<not> snd warm
      then Inr \<lparr>so_warmup = warm, so_loader = None, so_verify = (1, False), so_resets = 0, so_observer = None, so_passed = False\<rparr>
      else case finish_observer ob loading of
        Inl e \<Rightarrow> Inl e
      | Inr l \<Rightarrow>
          let v = run_verify audit; resets = reset_like (lo_errors l) in
          Inr \<lparr>so_warmup = warm, so_loader = Some l, so_verify = v, so_resets = resets, so_observer = summarize_observer rows,
            so_passed = ((case lo_gate l of None \<Rightarrow> False | Some g \<Rightarrow> g) \<and> lo_exit l = 0 \<and> fst v = 0 \<and> snd v \<and> resets = 0)\<rparr>)"

section \<open>The suite\<close>

record suite_args =
  ua_output_exists :: bool
  ua_seconds :: int
  ua_rates :: "int list"
  ua_keepalives :: "rat list"
  ua_api_workers :: "int list"
  ua_fallbacks :: "int list"
  ua_environment :: "string option"
  ua_origin :: "string option"

text \<open>
  What the calls return, by the block, the rate and the keep-alive value they belong to (as positions in
  their lists) and, for a fallback, its position.
\<close>

record suite_world =
  uw_configure :: "nat \<Rightarrow> fault + unit"
  uw_restore :: "nat \<Rightarrow> fault + unit"
  uw_preflight :: "nat \<Rightarrow> nat \<Rightarrow> nat \<Rightarrow> fault + (int \<times> bool)"
  uw_stage :: "nat \<Rightarrow> nat \<Rightarrow> nat \<Rightarrow> nat option \<Rightarrow> fault + stage_outcome"

datatype suite_call =
    Configure int
  | Preflight int int rat
  | Run_stage int int rat int int
  | Restore

text \<open>An entry of \<open>rate_progress\<close> keeps its rate, its keep-alive value and whether it passed.\<close>

record suite_block =
  sb_workers :: int
  sb_error :: "fault option"
  sb_progress :: "(int \<times> rat \<times> bool) list"

text \<open>The manifests in the scratch directory, by worker count and rate (the manifest's id is the same for all), with their seat offset.\<close>

record suite_state =
  us_calls :: "suite_call list"
  us_offsets :: "((int \<times> int) \<times> int) list"
  us_blocks :: "suite_block list"

definition log_call :: "suite_call \<Rightarrow> suite_state \<Rightarrow> suite_state" where
  "log_call c s = s\<lparr>us_calls := us_calls s @ [c]\<rparr>"

definition stage_manifest :: "int \<Rightarrow> int \<Rightarrow> suite_state \<Rightarrow> int \<times> suite_state" where
  "stage_manifest workers rate s =
     (case map_of (us_offsets s) (workers, rate) of
        Some offset \<Rightarrow> (offset, s)
      | None \<Rightarrow>
          let offset = int (length (us_blocks s)) * 20 in
          (offset, s\<lparr>us_offsets := us_offsets s @ [((workers, rate), offset)]\<rparr>))"

type_synonym progress = "(int \<times> rat \<times> bool) list"

fun run_fallbacks ::
  "suite_world \<Rightarrow> suite_args \<Rightarrow> int \<Rightarrow> nat \<Rightarrow> nat \<Rightarrow> int \<Rightarrow> nat \<Rightarrow> rat \<Rightarrow> int \<Rightarrow> (nat \<times> int) list \<Rightarrow>
   progress \<times> suite_state \<Rightarrow> (fault + unit) \<times> progress \<times> suite_state"
where
  "run_fallbacks w a workers b i rate j keepalive offset [] ps = (Inr (), ps)"
| "run_fallbacks w a workers b i rate j keepalive offset ((n, fallback) # fallbacks) (p, s) =
     (if fallback \<ge> rate then run_fallbacks w a workers b i rate j keepalive offset fallbacks (p, s)
      else
        let s = log_call (Run_stage workers fallback keepalive (min 600 (ua_seconds a)) offset) s in
        case uw_stage w b i j (Some n) of
          Inl e \<Rightarrow> (Inl e, p, s)
        | Inr out \<Rightarrow>
            run_fallbacks w a workers b i rate j keepalive offset fallbacks (p @ [(fallback, keepalive, so_passed out)], s))"

text \<open>The loop over the keep-alive values of one rate; both failures break out of it.\<close>

fun run_keepalives ::
  "suite_world \<Rightarrow> suite_args \<Rightarrow> int \<Rightarrow> nat \<Rightarrow> nat \<Rightarrow> int \<Rightarrow> (nat \<times> rat) list \<Rightarrow>
   progress \<times> suite_state \<Rightarrow> (fault + unit) \<times> progress \<times> suite_state"
where
  "run_keepalives w a workers b i rate [] ps = (Inr (), ps)"
| "run_keepalives w a workers b i rate ((j, keepalive) # keepalives) (p, s) =
     (case stage_manifest workers rate s of
        (offset, s) \<Rightarrow>
          let s = log_call (Preflight workers rate keepalive) s in
          case uw_preflight w b i j of
            Inl e \<Rightarrow> (Inl e, p, s)
          | Inr (code, ok) \<Rightarrow>
              if code \<noteq> 0 \<or> \<not> ok then (Inr (), p @ [(rate, keepalive, False)], s)
              else
                let s = log_call (Run_stage workers rate keepalive (ua_seconds a) offset) s in
                case uw_stage w b i j None of
                  Inl e \<Rightarrow> (Inl e, p, s)
                | Inr out \<Rightarrow>
                    let p = p @ [(rate, keepalive, so_passed out)] in
                    if so_passed out then run_keepalives w a workers b i rate keepalives (p, s)
                    else if rate \<noteq> Min (set (ua_rates a))
                    then run_fallbacks w a workers b i rate j keepalive offset (enumerate 0 (ua_fallbacks a)) (p, s)
                    else (Inr (), p, s))"

fun run_rates ::
  "suite_world \<Rightarrow> suite_args \<Rightarrow> int \<Rightarrow> nat \<Rightarrow> (nat \<times> int) list \<Rightarrow> progress \<times> suite_state \<Rightarrow> (fault + unit) \<times> progress \<times> suite_state"
where
  "run_rates w a workers b [] ps = (Inr (), ps)"
| "run_rates w a workers b ((i, rate) # rates) ps =
     (case run_keepalives w a workers b i rate (enumerate 0 (ua_keepalives a)) ps of
        (Inl e, ps) \<Rightarrow> (Inl e, ps)
      | (Inr _, ps) \<Rightarrow> run_rates w a workers b rates ps)"

fun run_blocks :: "suite_world \<Rightarrow> suite_args \<Rightarrow> (nat \<times> int) list \<Rightarrow> suite_state \<Rightarrow> (fault + unit) \<times> suite_state" where
  "run_blocks w a [] s = (Inr (), s)"
| "run_blocks w a ((b, workers) # blocks) s =
     (let s = log_call (Configure workers) s in
      case uw_configure w b of
        Inl e \<Rightarrow> if e = Keyboard_interrupt then (Inl e, s) else run_blocks w a blocks (s\<lparr>us_blocks := us_blocks s @ [\<lparr>sb_workers = workers, sb_error = Some e, sb_progress = []\<rparr>]\<rparr>)
      | Inr _ \<Rightarrow>
          (case run_rates w a workers b (enumerate 0 (ua_rates a)) ([], s) of
             (Inl e, _, s) \<Rightarrow> (Inl e, s)
           | (Inr _, p, s) \<Rightarrow>
               let s = s\<lparr>us_blocks := us_blocks s @ [\<lparr>sb_workers = workers, sb_error = None, sb_progress = p\<rparr>]\<rparr>;
                   s = log_call Restore s in
               case uw_restore w b of Inl e \<Rightarrow> (Inl e, s) | Inr _ \<Rightarrow> run_blocks w a blocks s))"

text \<open>The blocks that count as failed, and \<open>main\<close> with its exit status: 2 for a usage error, 1 for an exception or a failed block.\<close>

definition failed_blocks :: "suite_state \<Rightarrow> suite_block list" where
  "failed_blocks s = filter (\<lambda>bl. list_ex (\<lambda>(_, _, ok). \<not> ok) (sb_progress bl)) (us_blocks s)"

definition suite_main :: "suite_world \<Rightarrow> suite_args \<Rightarrow> int \<times> suite_state" where
  "suite_main w a =
     (let s = \<lparr>us_calls = [], us_offsets = [], us_blocks = []\<rparr> in
      if ua_output_exists a \<or> ua_seconds a < 1 \<or> Min (set (ua_rates a)) < 1 then (2, s)
      else if ua_environment a \<noteq> Some ''development'' then (2, s)
      else if ua_origin a = None then (1, s)
      else case run_blocks w a (enumerate 0 (ua_api_workers a)) s of
        (Inl e, s) \<Rightarrow> (1, s)
      | (Inr _, s) \<Rightarrow> (if failed_blocks s = [] then 0 else 1, s))"

end
