(* ===== verification/Hold_Audit_Facts.thy ===== *)
theory Hold_Audit_Facts
  imports Hold_Audit System
begin

text \<open>
  Facts about the audits: the window query counts exactly the overlapping intervals, a passed audit
  means that every acknowledged hold is durable, settled and exclusive, and a passed preflight
  covers every show of the fixture.
\<close>

section \<open>\<open>LIKE\<close>\<close>

definition plain :: "char \<Rightarrow> bool" where
  "plain c \<longleftrightarrow> c \<noteq> CHR 0x25 \<and> c \<noteq> CHR ''_'' \<and> c \<noteq> CHR 0x5C"

lemma like_any: "like [CHR 0x25] s"
  by (induction s) simp_all

lemma like_plain_prefix: "list_all plain p \<Longrightarrow> like (p @ [CHR 0x25]) s \<longleftrightarrow> (\<exists>t. s = p @ t)"
proof (induction p arbitrary: s)
  case Nil
  then show ?case using like_any by (simp del: like.simps)
next
  case (Cons c p)
  then show ?case by (cases s) (auto simp: plain_def)
qed

text \<open>The keys of a run are those that continue its id after a dash, whenever the id has no wildcard.\<close>

lemma run_pattern_prefix:
  "list_all plain run \<Longrightarrow> like (run_pattern run) key \<longleftrightarrow> (\<exists>rest. key = run @ ''-'' @ rest)"
  using like_plain_prefix [of "run @ ''-''" key] by (simp add: run_pattern_def plain_def)

section \<open>The sweep over the intervals\<close>

definition before :: "interval \<Rightarrow> interval \<Rightarrow> bool" where
  "before r r' \<longleftrightarrow> iv_expires r \<le> iv_created r'"

lemma sweep_Some: "sweep (Some p) rs = 0 \<longleftrightarrow> (\<forall>r\<in>set rs. p \<le> iv_created r) \<and> sorted_wrt before rs"
  by (induction rs arbitrary: p) (auto simp: before_def)

lemma sweep_None: "sweep None rs = 0 \<longleftrightarrow> sorted_wrt before rs"
  by (cases rs) (auto simp: sweep_Some before_def)

lemma window_rows_props:
  "set (window_rows place rows) = {r \<in> set rows. iv_place r = place}"
  "distinct rows \<Longrightarrow> distinct (window_rows place rows)"
  "sorted_wrt (\<lambda>r r'. iv_created r \<le> iv_created r') (window_rows place rows)"
proof -
  have "sorted (map iv_created (window_rows place rows))" by (simp add: window_rows_def)
  then show "sorted_wrt (\<lambda>r r'. iv_created r \<le> iv_created r') (window_rows place rows)" by (simp add: sorted_wrt_map)
qed (auto simp: window_rows_def)

lemma overlaps_zero: "overlaps rows = 0 \<longleftrightarrow> (\<forall>place. sorted_wrt before (window_rows place rows))"
proof -
  have "sorted_wrt before (window_rows place rows)" if "place \<notin> iv_place ` set rows" for place
    using that window_rows_props(1) [of place rows] by (cases "window_rows place rows") auto
  moreover have "overlaps rows = 0 \<longleftrightarrow> (\<forall>place\<in>iv_place ` set rows. sorted_wrt before (window_rows place rows))"
    by (simp add: overlaps_def sweep_None)
  ultimately show ?thesis by blast
qed

lemma before_if_sorted:
  assumes "sorted_wrt before xs" and "r \<in> set xs" and "r' \<in> set xs" and "r \<noteq> r'"
  shows "before r r' \<or> before r' r"
  using assms by (induction xs) auto

text \<open>In an ordered list without repetition, being ordered by \<open>before\<close> is pairwise disjointness.\<close>

lemma ordered_disjoint:
  assumes "distinct xs" and "sorted_wrt (\<lambda>r r'. iv_created r \<le> iv_created r') xs"
    and len: "\<forall>r\<in>set xs. iv_created r < iv_expires r"
  shows "sorted_wrt before xs \<longleftrightarrow> (\<forall>r\<in>set xs. \<forall>r'\<in>set xs. r \<noteq> r' \<longrightarrow> before r r' \<or> before r' r)"
proof
  assume "sorted_wrt before xs"
  then show "\<forall>r\<in>set xs. \<forall>r'\<in>set xs. r \<noteq> r' \<longrightarrow> before r r' \<or> before r' r" using before_if_sorted by blast
next
  assume dis: "\<forall>r\<in>set xs. \<forall>r'\<in>set xs. r \<noteq> r' \<longrightarrow> before r r' \<or> before r' r"
  show "sorted_wrt before xs" unfolding sorted_wrt_iff_nth_less
  proof (intro allI impI)
    fix i j
    assume ij: "i < j" "j < length xs"
    have "xs ! i \<noteq> xs ! j" using assms(1) ij by (simp add: nth_eq_iff_index_eq)
    then have "before (xs ! i) (xs ! j) \<or> before (xs ! j) (xs ! i)" using dis ij by simp
    moreover have "iv_created (xs ! i) \<le> iv_created (xs ! j)" using assms(2) ij by (simp add: sorted_wrt_iff_nth_less)
    moreover have "iv_created (xs ! j) < iv_expires (xs ! j)" using len ij by simp
    ultimately show "before (xs ! i) (xs ! j)" by (auto simp: before_def)
  qed
qed

text \<open>
  Property C35.  The audit's window query finds exactly the overlaps: over distinct intervals of positive
  length it counts zero precisely when no two intervals of the same seat overlap.
\<close>

theorem overlap_sweep_correct:
  assumes "distinct rows" and "\<forall>r\<in>set rows. iv_created r < iv_expires r"
  shows "overlaps rows = 0 \<longleftrightarrow> (\<forall>r\<in>set rows. \<forall>r'\<in>set rows. r \<noteq> r' \<and> iv_event r = iv_event r' \<and> iv_seat r = iv_seat r' \<longrightarrow>
    iv_expires r \<le> iv_created r' \<or> iv_expires r' \<le> iv_created r)"
proof -
  have key: "sorted_wrt before (window_rows place rows) \<longleftrightarrow>
      (\<forall>r\<in>set rows. \<forall>r'\<in>set rows. iv_place r = place \<and> iv_place r' = place \<and> r \<noteq> r' \<longrightarrow> before r r' \<or> before r' r)" for place
  proof -
    have len: "\<forall>r\<in>set (window_rows place rows). iv_created r < iv_expires r" using assms(2) by (simp add: window_rows_props(1))
    show ?thesis
      unfolding ordered_disjoint [OF window_rows_props(2) [OF assms(1)] window_rows_props(3) len] window_rows_props(1) by blast
  qed
  have "overlaps rows = 0 \<longleftrightarrow>
      (\<forall>r\<in>set rows. \<forall>r'\<in>set rows. r \<noteq> r' \<and> iv_place r = iv_place r' \<longrightarrow> before r r' \<or> before r' r)"
    unfolding overlaps_zero key
  proof (rule iffI, intro ballI impI)
    fix r r'
    assume all: "\<forall>place. \<forall>r\<in>set rows. \<forall>r'\<in>set rows. iv_place r = place \<and> iv_place r' = place \<and> r \<noteq> r' \<longrightarrow> before r r' \<or> before r' r"
      and rr: "r \<in> set rows" "r' \<in> set rows" "r \<noteq> r' \<and> iv_place r = iv_place r'"
    from spec [OF all, of "iv_place r"] rr show "before r r' \<or> before r' r" by simp
  qed simp
  then show ?thesis by (simp add: iv_place_def before_def)
qed

definition demo_interval :: "uuid \<Rightarrow> time \<Rightarrow> interval" where
  "demo_interval h t = \<lparr>iv_hold = h, iv_event = ''e'', iv_expires = t + 10, iv_created = t, iv_seat = ''A1''\<rparr>"

theorem overlap_sweep_correct_witness:
  "overlaps [demo_interval ''a'' 15, demo_interval ''b'' 0] = 0 \<and> overlaps [demo_interval ''a'' 5, demo_interval ''b'' 0] \<noteq> 0"
proof
  show "overlaps [demo_interval ''a'' 15, demo_interval ''b'' 0] = 0"
    by (subst overlap_sweep_correct) (simp_all add: demo_interval_def)
  show "overlaps [demo_interval ''a'' 5, demo_interval ''b'' 0] \<noteq> 0"
    by (subst overlap_sweep_correct) (simp_all add: demo_interval_def)
qed

section \<open>What a passed audit says\<close>

lemma distinct_count_full:
  assumes "distinct_count f xs = length xs"
  shows "\<forall>x\<in>set xs. f x \<noteq> None" and "distinct (map f xs)"
proof -
  let ?ys = "List.map_filter f xs"
  have ys: "?ys = map (the \<circ> f) (filter (\<lambda>x. f x \<noteq> None) xs)" by (simp add: List.map_filter_def)
  have "length (remdups ?ys) \<le> length ?ys" by (rule length_remdups_leq)
  moreover have "length ?ys \<le> length xs" by (simp add: ys)
  ultimately have eq: "length (remdups ?ys) = length ?ys" "length ?ys = length xs"
    using assms unfolding distinct_count_def by linarith+
  have full: "length (filter (\<lambda>x. f x \<noteq> None) xs) = length xs" using eq(2) by (simp add: ys)
  show some: "\<forall>x\<in>set xs. f x \<noteq> None"
    using length_filter_less [of _ xs "\<lambda>x. f x \<noteq> None"] full by (metis less_irrefl)
  then have all: "filter (\<lambda>x. f x \<noteq> None) xs = xs" by simp
  have "distinct ?ys" using eq(1) by (metis card_distinct length_remdups_card_conv)
  then have "distinct (map the (map f xs))" by (simp only: ys all map_map)
  then show "distinct (map f xs)" using distinct_map [of the "map f xs"] by blast
qed

lemma join_record_Inr:
  assumes "join_record d r = Inr j"
  shows "jn_record j = r"
    and "jn_hold j = Some h \<Longrightarrow> h \<in> set (holds d) \<and> response_uuid ''hold_id'' r = Inr (Some (h_id h))"
    and "jn_order j = Some order \<Longrightarrow> order \<in> set (orders d) \<and> response_uuid ''order_id'' r = Inr (Some (o_id order))"
  using assms find_row_Some(2,3) by (auto simp: join_record_def ebind_Inr_iff bind_eq_Some_conv)

lemma join_records_Inr: "join_records d rs = Inr js \<longleftrightarrow> list_all2 (\<lambda>r j. join_record d r = Inr j) rs js"
  by (induction rs arbitrary: js) (auto simp: ebind_Inr_iff list_all2_Cons1)

lemma run_checks_Inr:
  assumes "audit_runs now runs d = Inr outcomes" and "(run, a) \<in> set runs"
  shows "\<exists>row. run_query now run d = Inr row \<and> (run, row, run_passed a row) \<in> set outcomes"
  using assms by (induction now runs d arbitrary: outcomes rule: audit_runs.induct) (fastforce simp: ebind_Inr_iff)+

lemma stream_backlog_entries:
  "fst (stream_backlog g es rd (n, p)) = n + sum_list (map (\<lambda>e. length (rd_streams rd e)) es)"
  by (induction es arbitrary: n p) (simp_all add: Let_def)

text \<open>A record whose hold and order exist, belong to its actor and to each other, and are over.\<close>

definition settled_record :: "db \<Rightarrow> idem_row \<Rightarrow> bool" where
  "settled_record d r \<longleftrightarrow> (\<exists>h\<in>set (holds d). \<exists>order\<in>set (orders d).
     response_uuid ''hold_id'' r = Inr (Some (h_id h)) \<and> response_uuid ''order_id'' r = Inr (Some (o_id order)) \<and>
     o_hold order = h_id h \<and> h_actor h = k_actor r \<and> o_actor order = k_actor r \<and>
     h_status h \<noteq> H_ACTIVE \<and> o_status order \<noteq> O_PENDING)"

lemma run_query_passed:
  assumes q: "run_query now run d = Inr row" and ok: "run_passed a row"
  shows "int (length (hold_records (like (run_pattern run)) d)) = ak_total a"
    and "\<forall>r\<in>set (hold_records (like (run_pattern run)) d). settled_record d r"
    and "distinct (map (response_uuid ''hold_id'') (hold_records (like (run_pattern run)) d))"
proof -
  let ?rs = "hold_records (like (run_pattern run)) d"
  obtain js where js: "join_records d ?rs = Inr js" and row: "int (length js) = ak_total a"
      "distinct_count (\<lambda>j. map_option h_id (jn_hold j)) js = length js" "filter broken_link js = []"
      "filter (hold_is (\<lambda>h. h_status h = H_ACTIVE)) js = []" "filter order_pending js = []"
    using q ok by (auto simp: run_query_def ebind_Inr_iff run_passed_def)
  have all: "list_all2 (\<lambda>r j. join_record d r = Inr j) ?rs js" using js by (simp add: join_records_Inr)
  show "int (length ?rs) = ak_total a" using row(1) list_all2_lengthD [OF all] by simp
  have j: "settled_record d r \<and> response_uuid ''hold_id'' r = Inr (map_option h_id (jn_hold j))"
    if "join_record d r = Inr j" "j \<in> set js" for r j
  proof -
    have no: "\<not> broken_link j" "\<not> hold_is (\<lambda>h. h_status h = H_ACTIVE) j" "\<not> order_pending j"
      using row(3-5) that(2) by (simp_all add: filter_empty_conv)
    obtain h order where ho: "jn_hold j = Some h" "jn_order j = Some order"
        "o_hold order = h_id h" "h_actor h = k_actor (jn_record j)" "o_actor order = k_actor (jn_record j)"
      using no(1) by (auto simp: broken_link_def split: option.splits)
    have "h_status h \<noteq> H_ACTIVE" "o_status order \<noteq> O_PENDING"
      using no(2,3) ho(1,2) by (simp_all add: hold_is_def order_pending_def)
    then have "settled_record d r"
      unfolding settled_record_def using join_record_Inr(1) [OF that(1)] join_record_Inr(2) [OF that(1) ho(1)]
        join_record_Inr(3) [OF that(1) ho(2)] ho(3-5) by (intro bexI [of _ h] bexI [of _ order]) simp_all
    then show ?thesis using join_record_Inr(2) [OF that(1) ho(1)] ho(1) by simp
  qed
  have eq: "list_all2 (\<lambda>r j. settled_record d r \<and> response_uuid ''hold_id'' r = Inr (map_option h_id (jn_hold j))) ?rs js"
    by (rule list.rel_mono_strong [OF all]) (rule j)
  then show "\<forall>r\<in>set ?rs. settled_record d r" by (metis (no_types, lifting) in_set_conv_nth list_all2_conv_all_nth)
  have "map (response_uuid ''hold_id'') ?rs = map (\<lambda>j. Inr (map_option h_id (jn_hold j))) js"
    using eq by (auto simp: list_all2_conv_all_nth intro: nth_equalityI)
  then show "distinct (map (response_uuid ''hold_id'') ?rs)"
    using distinct_count_full(2) [OF row(2)] by (simp add: distinct_map inj_on_def)
qed

text \<open>
  Fact.  A passed audit means durable and exclusive holds: every audited run has as many hold records
  as holds were acknowledged, each record has its own hold and an order of the same actor that is no
  longer pending, no two audited intervals of a seat overlap, and no command waits in a stream.
\<close>

theorem passed_audit_means_durable:
  assumes run: "verify_cloud_holds files now d url g scanned rd = Report rep" and ok: "au_pass rep"
    and m: "(run, a) \<in> set (collect_runs files [])"
  shows "int (length (hold_records (like (run_pattern run)) d)) = ak_total a \<and>
    (\<forall>r\<in>set (hold_records (like (run_pattern run)) d). settled_record d r) \<and>
    distinct (map (response_uuid ''hold_id'') (hold_records (like (run_pattern run)) d)) \<and>
    (\<exists>rows. selected (map fst (collect_runs files [])) d = Inr rows \<and>
      (\<forall>r\<in>set rows. \<forall>r'\<in>set rows. r \<noteq> r' \<and> iv_event r = iv_event r' \<and> iv_seat r = iv_seat r' \<longrightarrow>
        iv_expires r \<le> iv_created r' \<or> iv_expires r' \<le> iv_created r)) \<and>
    (\<forall>e\<in>set scanned. rd_streams rd e = [])"
proof -
  let ?runs = "collect_runs files []"
  obtain outcomes rows where c: "audit_runs now (sort_key fst ?runs) d = Inr outcomes" "selected (map fst ?runs) d = Inr rows"
      and p: "list_all (\<lambda>(_, _, ok). ok) outcomes" "overlaps rows = 0" "fst (stream_backlog g scanned rd (0, 0)) = 0"
    using run ok by (auto simp: verify_cloud_holds_def Let_def ebind_Inr_iff split: if_splits sum.splits prod.splits)
  obtain row where q: "run_query now run d = Inr row" "run_passed a row"
    using run_checks_Inr [OF c(1), of run a] m p(1) by (auto simp: list_all_iff)
  have "iv_expires r \<le> iv_created r' \<or> iv_expires r' \<le> iv_created r"
    if "r \<in> set rows" "r' \<in> set rows" "r \<noteq> r'" "iv_event r = iv_event r'" "iv_seat r = iv_seat r'" for r r'
    using before_if_sorted [of "window_rows (iv_place r) rows" r r'] p(2) that
    by (auto simp: overlaps_zero window_rows_props(1) before_def iv_place_def)
  moreover have "\<forall>e\<in>set scanned. rd_streams rd e = []" using p(3) by (simp add: stream_backlog_entries)
  ultimately show ?thesis using run_query_passed [OF q] c(2) by blast
qed

text \<open>An expired hold, as the audit meets it after the expiry worker has run.\<close>

definition drained_db :: db where
  "drained_db = snd (expire_batch (stage_env CHR ''x'' 130000000) 8
     (snd (transaction (reserve_tx (stage_env CHR ''r'' 1000) 120 ''bob'' ''e'' [''A1''] ''run-1'') open_db)))"

definition idle_redis :: redis where
  "idle_redis = \<lparr>rd_maps = (\<lambda>_. empty_map), rd_idem = (\<lambda>_ _. None), rd_commands = (\<lambda>_ _. None), rd_streams = (\<lambda>_. []),
     rd_expiry = (\<lambda>_. []), rd_registry = [], rd_next = 0\<rparr>"

definition demo_audit :: "audit_report exits" where
  "demo_audit = verify_cloud_holds [Some (''run'', [(''hold'', [(''201'', 1), (''409'', 3)])])] 140000000 drained_db True
     (\<lambda>_. True) [''e''] idle_redis"

theorem passed_audit_means_durable_witness:
  "exit_status au_pass demo_audit = 0 \<and> length (hold_records (like (run_pattern ''run'')) drained_db) = 1"
proof -
  have z: "exit_status au_pass demo_audit = 0" by code_simp
  then obtain rep where r: "demo_audit = Report rep" "au_pass rep" by (auto simp: exit_status_def split: exits.splits if_splits)
  have "int (length (hold_records (like (run_pattern ''run'')) drained_db)) = ak_total \<lparr>ak_201 = 1, ak_202 = 0, ak_total = 1\<rparr>"
    by (rule conjunct1 [OF passed_audit_means_durable [OF r(1) [unfolded demo_audit_def] r(2)]]) code_simp
  then show ?thesis using z by simp
qed

section \<open>Preflight\<close>

lemma filter_full: "length (filter P xs) = length xs \<Longrightarrow> x \<in> set xs \<Longrightarrow> P x"
  using length_filter_less [of x xs P] by (metis less_irrefl)

text \<open>
  Fact.  A passed preflight covers the whole fixture: over a table of distinct events its show ids are
  distinct, and every one is the id of an event whose sale has begun and outlasts the load and its
  drain, as do the credentials.
\<close>

theorem preflight_covers_every_show:
  assumes keys: "distinct (map ev_id (events d))"
    and run: "load_preflight existing secs environ ids expires now db_now d = Report p" and ok: "pf_pass p"
  shows "distinct ids \<and> deadline_with_drain now secs < expires \<and> (\<forall>i\<in>set ids. \<exists>r\<in>set (events d). ev_id r = i \<and>
    ev_sale_starts r < db_now \<and> deadline_with_drain now secs < ev_sale_ends r)"
proof -
  let ?shows = "filter (\<lambda>r. ev_id r \<in> set ids) (events d)"
  let ?open = "\<lambda>r. ev_sale_starts r < db_now \<and> ev_sale_ends r > deadline_with_drain now secs"
  have p: "length (filter ?open ?shows) = length ?shows" "length ?shows = length ids" "deadline_with_drain now secs < expires"
    using run ok by (auto simp: load_preflight_def Let_def split: if_splits)
  have sub: "ev_id ` set ?shows \<subseteq> set ids" by auto
  have n: "card (ev_id ` set ?shows) = length ids"
    using distinct_card [OF distinct_map_filter [OF keys, of "\<lambda>r. ev_id r \<in> set ids"]] p(2) by (simp only: set_map length_map)
  then have c: "card (set ids) = length ids"
    using card_mono [OF finite_set sub] card_length [of ids] by linarith
  have all: "ev_id ` set ?shows = set ids" by (rule card_subset_eq [OF finite_set sub]) (simp only: n c)
  have "\<exists>r\<in>set (events d). ev_id r = i \<and> ev_sale_starts r < db_now \<and> deadline_with_drain now secs < ev_sale_ends r"
    if "i \<in> set ids" for i
  proof -
    have "i \<in> ev_id ` set ?shows" using that by (simp only: all)
    then obtain r where r: "r \<in> set ?shows" "ev_id r = i" by auto
    then show ?thesis using filter_full [OF p(1) r(1)] by (intro bexI [of _ r]) simp_all
  qed
  then show ?thesis using p(3) card_distinct [OF c] by blast
qed

theorem preflight_covers_every_show_witness:
  "\<exists>p. load_preflight False 60 (Some ''development'') [''e''] 500000000 0 1 open_db = Report p \<and> pf_pass p \<and>
     (\<exists>r\<in>set (events open_db). ev_id r = ''e'' \<and> deadline_with_drain 0 60 < ev_sale_ends r)"
proof -
  let ?x = "load_preflight False 60 (Some ''development'') [''e''] 500000000 0 1 open_db"
  have "exit_status pf_pass ?x = 0" "distinct (map ev_id (events open_db))" by code_simp+
  moreover from this(1) obtain p where "?x = Report p" "pf_pass p" by (auto simp: exit_status_def split: exits.splits if_splits)
  ultimately show ?thesis using preflight_covers_every_show [of open_db False 60 "Some ''development''" "[''e'']" 500000000 0 1 p] by auto
qed

end
