(* ===== verification/Suite_Facts.thy ===== *)
theory Suite_Facts
  imports Suite Hold_Audit_Facts
begin

text \<open>
  Facts about the stability suite: the readiness wait ends, a passed warm-up leaves a complete seat map for
  every show, a passed stage has a passed load and a passed audit, and what the exit status and the
  calls say about the API after a run, including a run that never measured anything.
\<close>

section \<open>Readiness\<close>

text \<open>Each round takes at least the second it sleeps, so the deadline bounds the number of rounds.\<close>

lemma readiness_rounds_end:
  assumes "\<And>i. k \<le> i \<Longrightarrow> clock i + 1 \<le> clock (i + 1)" and "deadline - clock k < int fuel" and "0 < fuel"
  shows "readiness_rounds clock probes deadline k fuel \<noteq> None"
  using assms
proof (induction fuel arbitrary: k)
  case (Suc fuel)
  have "readiness_rounds clock probes deadline (k + 1) fuel \<noteq> None" if "clock k < deadline"
  proof (rule Suc.IH)
    show "clock i + 1 \<le> clock (i + 1)" if "k + 1 \<le> i" for i using Suc.prems(1) that by simp
    show "deadline - clock (k + 1) < int fuel" "0 < fuel" using Suc.prems(1) [of k] Suc.prems(2) that by simp_all
  qed
  then show ?case by (auto split: probe.splits)
qed simp

lemma readiness_wait_ends:
  assumes "clock 0 \<le> clock 1" and "\<And>i. 1 \<le> i \<Longrightarrow> clock i + 1 \<le> clock (i + 1)" and "0 \<le> timeout"
  shows "readiness_wait clock probes timeout (nat timeout + 1) \<noteq> None"
  unfolding readiness_wait_def by (rule readiness_rounds_end) (use assms in auto)

text \<open>Configuring the API therefore always returns, with the fuel for its two minutes.\<close>

lemma configure_api_returns:
  assumes "clock 0 \<le> clock 1" and "\<And>i. 1 \<le> i \<Longrightarrow> clock i + 1 \<le> clock (i + 1)"
  shows "configure_api written compose clock probes 121 \<noteq> None"
  using readiness_wait_ends [OF assms, of 120 probes]
  by (auto simp: configure_api_def split: option.splits call.splits sum.splits)

section \<open>The warm-up\<close>

definition complete_map :: "seatmaps \<Rightarrow> uuid \<Rightarrow> bool" where
  "complete_map maps e \<longleftrightarrow> sm_version (maps e) \<noteq> None \<and> \<not> sm_updating (maps e)"

lemma read_map_complete:
  assumes "read_map up tch ttl now e maps = (r, maps')"
  shows "r = Inl x \<Longrightarrow> maps' = maps" and "r = Inr v \<Longrightarrow> complete_map maps' e"
    and "complete_map maps e' \<Longrightarrow> complete_map maps' e'"
  using assms
  by (auto simp: read_map_def complete_map_def touch_script_def live_def empty_map_def Let_def split: if_splits option.splits)

lemma check_shows_complete:
  assumes "check_shows ttl shs (u, maps) = (u', maps')" and "wu_failures u' = []"
  shows "wu_failures u = [] \<and> (\<forall>x\<in>set shs. complete_map maps' (fst x)) \<and> (\<forall>e. complete_map maps e \<longrightarrow> complete_map maps' e)"
  using assms
proof (induction shs arbitrary: u maps)
  case (Cons x shs)
  obtain e c where x: "x = (e, c)" by (rule prod.exhaust)
  obtain r maps1 where r: "read_map (wc_up2 c) (wc_touch2 c) ttl (wc_now2 c) e maps = (r, maps1)" by (rule prod.exhaust)
  note ok = read_map_complete [OF r]
  show ?case
  proof (cases r)
    case (Inl y)
    then show ?thesis using Cons.IH [of "u\<lparr>wu_failures := wu_failures u @ [(e, y)]\<rparr>" maps1] Cons.prems x r by simp
  next
    case (Inr v)
    then have "wu_failures u = [] \<and> (\<forall>x\<in>set shs. complete_map maps' (fst x)) \<and> (\<forall>e. complete_map maps1 e \<longrightarrow> complete_map maps' e)"
      using Cons.IH [of "u\<lparr>wu_post := wu_post u + 1\<rparr>" maps1] Cons.prems x r by simp
    then show ?thesis using ok Inr x by auto
  qed
qed simp

text \<open>One step of the first loop either settles the show or records a failure.\<close>

lemma warm_show_counts:
  assumes "warm_show ttl d e c (u, maps) = (u1, maps1)" and "wu_failures u1 = []"
  shows "wu_failures u = [] \<and> wu_ready u1 + wu_seeded u1 = wu_ready u + wu_seeded u + 1"
  using assms by (auto simp: warm_show_def split: prod.splits sum.splits exc.splits if_splits)

lemma warm_shows_counts:
  assumes "warm_shows ttl d shs (u, maps) = (u', maps')" and "wu_failures u' = []"
  shows "wu_failures u = [] \<and> wu_ready u' + wu_seeded u' = wu_ready u + wu_seeded u + length shs"
  using assms
proof (induction shs arbitrary: u maps)
  case (Cons x shs)
  obtain e c where x: "x = (e, c)" by (rule prod.exhaust)
  obtain u1 maps1 where s: "warm_show ttl d e c (u, maps) = (u1, maps1)" by (rule prod.exhaust)
  then show ?case using Cons.IH [of u1 maps1] Cons.prems x warm_show_counts [OF s] by simp
qed simp

lemma check_shows_counts:
  "check_shows ttl shs (u, maps) = (u', maps') \<Longrightarrow> wu_ready u' = wu_ready u \<and> wu_seeded u' = wu_seeded u"
  by (induction shs arbitrary: u maps) (auto split: prod.splits sum.splits)

text \<open>
  Fact.  A passed warm-up means warm maps: there is at least one show, each of them was ready before or was
  filled from the database, and afterwards Redis holds a complete seat map for every one.
\<close>

theorem warmup_completes_every_map:
  assumes "run_warmup db_url ttl d shs maps = ((u, True), maps')"
  shows "shs \<noteq> [] \<and> wu_ready u + wu_seeded u = length shs \<and>
    (\<forall>x\<in>set shs. sm_version (maps' (fst x)) \<noteq> None \<and> \<not> sm_updating (maps' (fst x)))"
proof -
  obtain u1 maps1 where w: "warm_shows ttl d shs (no_warmup, maps) = (u1, maps1)" by (rule prod.exhaust)
  have c: "check_shows ttl shs (u1, maps1) = (u, maps')" "wu_failures u = []" "shs \<noteq> []"
    using assms w by (auto simp: run_warmup_def split: if_splits prod.splits)
  note done' = check_shows_complete [OF c(1,2)]
  have "wu_ready u1 + wu_seeded u1 = length shs"
    using warm_shows_counts [OF w] done' by (simp add: no_warmup_def)
  then show ?thesis using done' c(3) check_shows_counts [OF c(1)] by (simp add: complete_map_def)
qed

definition demo_warm_call :: warm_call where
  "demo_warm_call = \<lparr>wc_up = True, wc_touch = True, wc_now = 0, wc_cache = demo_cache, wc_up2 = True, wc_touch2 = True, wc_now2 = 2\<rparr>"

definition demo_warmup :: "(warmup \<times> bool) \<times> seatmaps" where
  "demo_warmup = run_warmup True 30 open_db [(''e'', demo_warm_call)] (\<lambda>_. empty_map)"

theorem warmup_completes_every_map_witness:
  "snd (fst demo_warmup) \<and> sm_version (snd demo_warmup ''e'') \<noteq> None \<and> wu_seeded (fst (fst demo_warmup)) = 1"
proof -
  have p: "snd (fst demo_warmup)" "wu_seeded (fst (fst demo_warmup)) = 1" by code_simp+
  have "run_warmup True 30 open_db [(''e'', demo_warm_call)] (\<lambda>_. empty_map) = ((fst (fst demo_warmup), True), snd demo_warmup)"
    using p(1) by (simp add: prod_eq_iff flip: demo_warmup_def)
  from warmup_completes_every_map [OF this] p show ?thesis by simp
qed

section \<open>A passed stage\<close>

lemma passed_stage:
  assumes "suite_stage warm loading ob rows audit = Inr out" and "so_passed out"
  obtains l rep where "snd warm" and "loading = Inr l" and "ob = Ends_in_time" and "lo_gate l = Some True" and "lo_exit l = 0"
    and "audit = Report rep" and "au_pass rep" and "reset_like (lo_errors l) = 0"
proof -
  obtain l where l: "snd warm" "finish_observer ob loading = Inr l" "lo_gate l = Some True" "lo_exit l = 0"
      "snd (run_verify audit)" "reset_like (lo_errors l) = 0"
    using assms by (auto simp: suite_stage_def Let_def split: if_splits sum.splits option.splits)
  obtain rep where "audit = Report rep" "au_pass rep" using l(5) by (auto simp: run_verify_def split: exits.splits)
  moreover have "loading = Inr l" "ob = Ends_in_time" using l(2) by (auto simp: finish_observer_def split: sum.splits observer.splits)
  ultimately show ?thesis using l that by blast
qed

section \<open>The whole suite\<close>

text \<open>The configuration the API is left in: the override of a worker count, or \<open>None\<close> after a restore.\<close>

fun api_after :: "int option \<Rightarrow> suite_call list \<Rightarrow> int option" where
  "api_after st [] = st"
| "api_after st (Configure n # cs) = api_after (Some n) cs"
| "api_after st (Restore # cs) = api_after None cs"
| "api_after st (_ # cs) = api_after st cs"

lemma api_after_append [simp]: "api_after st (xs @ ys) = api_after (api_after st xs) ys"
  by (induction st xs rule: api_after.induct) simp_all

definition same_api :: "suite_state \<Rightarrow> suite_state \<Rightarrow> bool" where
  "same_api s s' \<longleftrightarrow> us_blocks s' = us_blocks s \<and> (\<forall>st. api_after st (us_calls s') = api_after st (us_calls s))"

lemma same_api_trans: "same_api s s1 \<Longrightarrow> same_api s1 s2 \<Longrightarrow> same_api s s2"
  by (simp add: same_api_def)

lemma same_api_log:
  "same_api s (log_call (Preflight n r k) s)" "same_api s (log_call (Run_stage n r k t x) s)"
  "stage_manifest n r s = (x, s') \<Longrightarrow> same_api s s'"
  by (auto simp: same_api_def log_call_def stage_manifest_def Let_def split: option.splits)

lemma run_fallbacks_same:
  "run_fallbacks w a n b i rate j k x fbs (p, s) = (r, p', s') \<Longrightarrow> same_api s s'"
proof (induction fbs arbitrary: p s)
  case (Cons f fbs)
  obtain m fb where f: "f = (m, fb)" by (rule prod.exhaust)
  note log = same_api_log(2) [of s n fb k "min 600 (ua_seconds a)" x]
  show ?case using Cons f log by (auto simp: Let_def split: if_splits sum.splits intro: same_api_trans)
qed (simp add: same_api_def)

lemma run_keepalives_same:
  "run_keepalives w a n b i rate ks (p, s) = (r, p', s') \<Longrightarrow> same_api s s'"
proof (induction ks arbitrary: p s)
  case (Cons f ks)
  obtain j k where f: "f = (j, k)" by (rule prod.exhaust)
  obtain x s1 where m: "stage_manifest n rate s = (x, s1)" by (rule prod.exhaust)
  have 1: "same_api s (log_call (Preflight n rate k) s1)" using same_api_log(1,3) m same_api_trans by blast
  have 2: "same_api s (log_call (Run_stage n rate k (ua_seconds a) x) (log_call (Preflight n rate k) s1))"
    using 1 same_api_log(2) same_api_trans by blast
  show ?case
  proof (cases "uw_preflight w b i j")
    case (Inl e)
    then show ?thesis using Cons.prems f m 1 by simp
  next
    case (Inr v)
    then obtain code ok where v: "uw_preflight w b i j = Inr (code, ok)" by (cases v) simp
    show ?thesis
    proof (cases "code \<noteq> 0 \<or> \<not> ok")
      case True
      then show ?thesis using Cons.prems f m v 1 by auto
    next
      case False
      note step = Cons.prems [unfolded f run_keepalives.simps m v] False
      show ?thesis
      proof (cases "uw_stage w b i j None")
        case (Inl e)
        then show ?thesis using step 2 by simp
      next
        case (Inr out)
        let ?t = "log_call (Run_stage n rate k (ua_seconds a) x) (log_call (Preflight n rate k) s1)"
        have "same_api ?t s'" using step Inr Cons.IH run_fallbacks_same by (auto simp: Let_def same_api_def [of s' s'] split: if_splits)
        then show ?thesis by (rule same_api_trans [OF 2])
      qed
    qed
  qed
qed (simp add: same_api_def)

lemma run_rates_same:
  "run_rates w a n b rs (p, s) = (r, p', s') \<Longrightarrow> same_api s s'"
proof (induction rs arbitrary: p s)
  case (Cons f rs)
  obtain i rate where f: "f = (i, rate)" by (rule prod.exhaust)
  obtain r1 p1 s1 where k: "run_keepalives w a n b i rate (enumerate 0 (ua_keepalives a)) (p, s) = (r1, p1, s1)" by (metis prod.exhaust)
  show ?case using Cons f k run_keepalives_same [OF k] by (cases r1) (auto intro: same_api_trans)
qed (simp add: same_api_def)

text \<open>After a completed run only the last block decides which configuration is left.\<close>

lemma run_blocks_api:
  assumes "run_blocks w a bs s = (Inr u, s')"
  shows "api_after None (us_calls s') = (if bs = [] then api_after None (us_calls s)
    else case uw_configure w (fst (last bs)) of Inr _ \<Rightarrow> None | Inl _ \<Rightarrow> Some (snd (last bs)))"
  using assms
proof (induction bs arbitrary: s)
  case (Cons f bs)
  obtain b n where f: "f = (b, n)" by (rule prod.exhaust)
  let ?s = "log_call (Configure n) s"
  show ?case
  proof (cases "uw_configure w b")
    case (Inl e)
    then show ?thesis
      using Cons.IH [of "?s\<lparr>us_blocks := us_blocks ?s @ [\<lparr>sb_workers = n, sb_error = Some e, sb_progress = []\<rparr>]\<rparr>"] Cons.prems
      by (simp add: f log_call_def Let_def split: if_splits sum.splits)
  next
    case (Inr v)
    obtain r p s1 where k: "run_rates w a n b (enumerate 0 (ua_rates a)) ([], ?s) = (r, p, s1)" by (metis prod.exhaust)
    let ?t = "log_call Restore (s1\<lparr>us_blocks := us_blocks s1 @ [\<lparr>sb_workers = n, sb_error = None, sb_progress = p\<rparr>]\<rparr>)"
    obtain v' where r: "r = Inr v'" using Cons.prems by (cases r) (simp_all add: f Inr k Let_def)
    have "run_blocks w a bs ?t = (Inr u, s')"
      using Cons.prems by (simp add: f Inr k r Let_def split: sum.splits)
    then show ?thesis using Cons.IH [of ?t] Inr f by (simp add: log_call_def split: if_splits sum.splits)
  qed
qed simp

text \<open>Every block that is recorded is one that was already there or one of the run's.\<close>

definition suite_passed :: "suite_state \<Rightarrow> bool" where
  "suite_passed s \<longleftrightarrow> (\<forall>bl\<in>set (us_blocks s). \<forall>x\<in>set (sb_progress bl). snd (snd x))"

lemma failed_blocks_empty: "failed_blocks s = [] \<longleftrightarrow> suite_passed s"
  by (auto simp: failed_blocks_def suite_passed_def filter_empty_conv list_ex_iff case_prod_unfold)

definition start_suite :: suite_state where
  "start_suite = \<lparr>us_calls = [], us_offsets = [], us_blocks = []\<rparr>"

lemma suite_zero:
  assumes "suite_main w a = (0, s)"
  shows "run_blocks w a (enumerate 0 (ua_api_workers a)) start_suite = (Inr (), s)" and "suite_passed s"
  using assms by (auto simp: suite_main_def start_suite_def Let_def failed_blocks_empty split: if_splits sum.splits prod.splits)

lemma enumerate_Nil: "enumerate 0 xs = [] \<longleftrightarrow> xs = []"
  by (metis length_0_conv length_enumerate)

lemma last_enumerate: "xs \<noteq> [] \<Longrightarrow> last (enumerate 0 xs) = (length xs - 1, last xs)"
  by (simp add: last_conv_nth enumerate_Nil nth_enumerate_eq)

text \<open>
  Fact.  What exit status 0 says: every recorded stage passed, and the API is back in its normal configuration
  exactly when the last worker count could be configured.
\<close>

theorem suite_exit_zero:
  assumes "suite_main w a = (0, s)" and "ua_api_workers a \<noteq> []"
  shows "suite_passed s \<and> (api_after None (us_calls s) = None \<longleftrightarrow> (\<exists>u. uw_configure w (length (ua_api_workers a) - 1) = Inr u))"
  using run_blocks_api [OF suite_zero(1) [OF assms(1)]] suite_zero(2) [OF assms(1)] assms(2)
  by (simp add: last_enumerate enumerate_Nil split: sum.splits)

lemma run_blocks_unconfigured:
  assumes "\<And>b. uw_configure w b = Inl Runtime_error"
  shows "run_blocks w a bs s = (Inr (), s\<lparr>us_calls := us_calls s @ map (Configure \<circ> snd) bs,
    us_blocks := us_blocks s @ map (\<lambda>x. \<lparr>sb_workers = snd x, sb_error = Some Runtime_error, sb_progress = []\<rparr>) bs\<rparr>)"
proof (induction bs arbitrary: s)
  case (Cons f bs)
  then show ?case by (cases f) (simp add: assms log_call_def Let_def)
qed simp


definition demo_suite_args :: suite_args where
  "demo_suite_args = \<lparr>ua_output_exists = False, ua_seconds = 1800, ua_rates = [400, 500], ua_keepalives = [5],
     ua_api_workers = [1, 2], ua_fallbacks = [200, 100], ua_environment = Some ''development'', ua_origin = Some ''o''\<rparr>"

definition broken_suite_world :: suite_world where
  "broken_suite_world = \<lparr>uw_configure = (\<lambda>_. Inl Runtime_error), uw_restore = (\<lambda>_. Inr ()),
     uw_preflight = (\<lambda>_ _ _. Inr (0, True)), uw_stage = (\<lambda>_ _ _ _. Inl Timed_out)\<rparr>"


end
