(* ===== verification/Summaries.thy ===== *)
theory Summaries
  imports Hold_Audit Complex_Main
begin

text \<open>
  The summaries of recorded metrics: \<open>scripts/summarize_seatmap_load.py\<close> and
  \<open>scripts/summarize_capacity.py\<close>.  A series is the sorted list of its labels; a sample maps series to
  numbers, which are exact here.  \<open>le_of\<close> is \<open>float\<close> on the text of an \<open>le\<close> label, and an item of a row's
  value is \<open>None\<close> when \<open>float\<close> rejects it.
\<close>

section \<open>Bucket bounds\<close>

datatype bound = Finite rat | Infinite

instantiation bound :: linorder
begin

fun less_eq_bound :: "bound \<Rightarrow> bound \<Rightarrow> bool" where
  "less_eq_bound (Finite a) (Finite b) = (a \<le> b)"
| "less_eq_bound (Finite a) Infinite = True"
| "less_eq_bound Infinite (Finite b) = False"
| "less_eq_bound Infinite Infinite = True"

definition less_bound :: "bound \<Rightarrow> bound \<Rightarrow> bool" where
  "less_bound a b \<longleftrightarrow> a \<le> b \<and> \<not> b \<le> a"

instance
proof
  fix a b c :: bound
  show "a < b \<longleftrightarrow> a \<le> b \<and> \<not> b \<le> a" by (rule less_bound_def)
  show "a \<le> a" by (cases a) simp_all
  show "a \<le> b \<or> b \<le> a" by (cases a; cases b) auto
  show "a \<le> b \<Longrightarrow> b \<le> a \<Longrightarrow> a = b" by (cases a; cases b) auto
  show "a \<le> b \<Longrightarrow> b \<le> c \<Longrightarrow> a \<le> c" by (cases a; cases b; cases c) auto
qed

end

section \<open>Samples\<close>

type_synonym labels = "(string \<times> string) list"
type_synonym sample = "(labels \<times> rat) list"

text \<open>A row of a query result; \<open>None\<close> stands for a field that is no dictionary, or no list.\<close>

record metric_row =
  mr_metric :: "labels option"
  mr_value :: "rat option list option"

definition to_metric_map :: "metric_row option list \<Rightarrow> sample" where
  "to_metric_map rows = fold (\<lambda>row out.
     case row of
       Some r \<Rightarrow>
         (case (mr_metric r, mr_value r) of
            (Some m, Some (_ # Some v # _)) \<Rightarrow> dict_put (sort_key fst m) v out
          | _ \<Rightarrow> out)
     | None \<Rightarrow> out) rows []"

text \<open>The name and the required labels of a series.\<close>

definition labels_match :: "labels \<Rightarrow> string \<Rightarrow> labels \<Rightarrow> bool" where
  "labels_match m name required \<longleftrightarrow>
     map_of m ''__name__'' = Some name \<and> list_all (\<lambda>(k, v). map_of m k = Some v) required"

definition start_value :: "sample \<Rightarrow> labels \<Rightarrow> rat" where
  "start_value start key = (case map_of start key of None \<Rightarrow> 0 | Some v \<Rightarrow> v)"

section \<open>\<open>summarize_seatmap_load\<close>\<close>

definition delta :: "sample \<Rightarrow> sample \<Rightarrow> string \<Rightarrow> labels \<Rightarrow> rat option" where
  "delta start final name required =
     (let hits = filter (\<lambda>(key, _). labels_match key name required) final;
          value_delta = sum_list (map snd hits) - sum_list (map (\<lambda>(key, _). start_value start key) hits) in
      if value_delta < 0 then None else Some value_delta)"

text \<open>The first loop of \<open>_histogram_p95\<close>: the growth of each bucket, added up per bound.\<close>

definition bucket_step ::
  "(string \<Rightarrow> bound option) \<Rightarrow> sample \<Rightarrow> string \<Rightarrow> labels \<Rightarrow> labels \<times> rat \<Rightarrow> (bound \<times> rat) list \<Rightarrow> (bound \<times> rat) list"
where
  "bucket_step le_of start name required = (\<lambda>(key, end_value) out.
     if \<not> labels_match key name required then out
     else case Option.bind (map_of key ''le'') le_of of
       None \<Rightarrow> out
     | Some b \<Rightarrow>
         let d = end_value - start_value start key in
         if d \<le> 0 then out
         else dict_put b ((case map_of out b of None \<Rightarrow> 0 | Some v \<Rightarrow> v) + d) out)"

fun p95_walk :: "rat \<Rightarrow> rat \<Rightarrow> (bound \<times> rat) list \<Rightarrow> rat option" where
  "p95_walk target cumulative [] = None"
| "p95_walk target cumulative ((b, v) # buckets) =
     (if cumulative + v \<ge> target then (case b of Finite r \<Rightarrow> Some (r * 1000) | Infinite \<Rightarrow> None)
      else p95_walk target (cumulative + v) buckets)"

definition histogram_p95 :: "(string \<Rightarrow> bound option) \<Rightarrow> sample \<Rightarrow> sample \<Rightarrow> string \<Rightarrow> labels \<Rightarrow> rat option" where
  "histogram_p95 le_of start final name required =
     (let buckets = fold (bucket_step le_of start (name @ ''_bucket'') required) final [];
          tot = sum_list (map snd buckets) in
      if tot = 0 then None else p95_walk (tot * (95 / 100)) 0 (sort_key fst buckets))"

text \<open>\<open>_max_sample\<close>: a value of one item passes the test for emptiness and then has no second item.\<close>

definition max_row :: "string \<Rightarrow> labels \<Rightarrow> metric_row option \<Rightarrow> rat option \<Rightarrow> rat option result" where
  "max_row name required row best =
     (case row of
        None \<Rightarrow> Inr best
      | Some r \<Rightarrow>
          (case (mr_metric r, mr_value r) of
             (Some m, Some items) \<Rightarrow>
               if \<not> labels_match m name required \<or> items = [] then Inr best
               else (case tl items of
                       [] \<Rightarrow> Inl (PyError ''IndexError'')
                     | None # _ \<Rightarrow> Inr best
                     | Some v # _ \<Rightarrow> Inr (case best of None \<Rightarrow> Some v | Some b \<Rightarrow> Some (max b v)))
           | _ \<Rightarrow> Inr best))"

fun max_rows :: "string \<Rightarrow> labels \<Rightarrow> metric_row option list \<Rightarrow> rat option \<Rightarrow> rat option result" where
  "max_rows name required [] best = Inr best"
| "max_rows name required (r # rs) best = ebind (max_row name required r best) (max_rows name required rs)"

text \<open>The samples of a stage; a sample without a list of metrics is \<open>None\<close>.\<close>

definition max_sample :: "metric_row option list option list \<Rightarrow> string \<Rightarrow> labels \<Rightarrow> rat option result" where
  "max_sample samples name required =
     max_rows name required (concat (map (\<lambda>s. case s of None \<Rightarrow> [] | Some rows \<Rightarrow> rows) samples)) None"

definition mean_ms :: "rat option \<Rightarrow> rat option \<Rightarrow> rat option result" where
  "mean_ms tot count =
     (case count of
        None \<Rightarrow> Inr None
      | Some n \<Rightarrow>
          if n = 0 then Inr None
          else (case tot of None \<Rightarrow> Inl (PyError ''TypeError'') | Some s \<Rightarrow> Inr (Some (s * 1000 / n))))"

definition OPERATIONS :: "string list" where
  "OPERATIONS = [''snapshot'', ''refresh_one'', ''publish_batch'', ''consume_event'', ''simulate_one'']"

record stage_metrics =
  sg_query :: "rat option \<times> rat option \<times> rat option"
  sg_tx :: "rat option \<times> rat option \<times> rat option"
  sg_pool :: "rat option \<times> rat option \<times> rat option"
  sg_errors :: "(string \<times> rat option) list"
  sg_busy :: "(string \<times> rat option) list"
  sg_active :: "(string \<times> rat option) list"
  sg_cache_rows :: "rat option \<times> rat option"
  sg_pool_state :: "(string \<times> rat option) list"

text \<open>\<open>{label: f(label) for label in ...}\<close> with an \<open>f\<close> that may raise.\<close>

fun tabulate :: "(string \<Rightarrow> rat option result) \<Rightarrow> string list \<Rightarrow> (string \<times> rat option) list result" where
  "tabulate f [] = Inr []"
| "tabulate f (k # ks) = ebind (f k) (\<lambda>v. ebind (tabulate f ks) (\<lambda>rest. Inr ((k, v) # rest)))"

definition stage_metrics_of ::
  "(string \<Rightarrow> bound option) \<Rightarrow> metric_row option list option list \<Rightarrow> sample \<Rightarrow> sample \<Rightarrow> stage_metrics result"
where
  "stage_metrics_of le_of samples start final =
     (let dl = delta start final; p95 = histogram_p95 le_of start final;
          query_count = dl ''ticketing_db_query_seconds_count'' []; tx_count = dl ''ticketing_db_transaction_seconds_count'' [];
          query_sum = dl ''ticketing_db_query_seconds_sum'' []; tx_sum = dl ''ticketing_db_transaction_seconds_sum'' [] in
      ebind (mean_ms query_sum query_count) (\<lambda>query_mean.
      ebind (mean_ms tx_sum tx_count) (\<lambda>tx_mean.
      ebind (tabulate (\<lambda>op. max_sample samples ''ticketing_worker_active'' [(''operation'', op)]) OPERATIONS) (\<lambda>active.
      ebind (tabulate (\<lambda>k. max_sample samples ''ticketing_db_pool_state'' [(''state'', k)])
        [''pool_size'', ''pool_in_use'', ''pool_acquiring'']) (\<lambda>pool_state.
      Inr \<lparr>sg_query = (query_count, query_mean, p95 ''ticketing_db_query_seconds'' []),
        sg_tx = (tx_count, tx_mean, p95 ''ticketing_db_transaction_seconds'' []),
        sg_pool = (dl ''ticketing_db_pool_acquire_seconds_count'' [(''outcome'', ''ok'')],
          dl ''ticketing_db_pool_acquire_seconds_count'' [(''outcome'', ''error'')],
          p95 ''ticketing_db_pool_acquire_seconds'' [(''outcome'', ''ok'')]),
        sg_errors = map (\<lambda>l. (l, dl ''ticketing_db_errors_total'' [(''type'', l)])) [''55P03'', ''40P01'', ''deadlock'', ''lock_not_available''],
        sg_busy = map (\<lambda>op. (op, dl ''ticketing_worker_busy_seconds_total'' [(''operation'', op)])) OPERATIONS,
        sg_active = active,
        sg_cache_rows = (dl ''ticketing_cache_rows_total'' [(''mode'', ''full'')], dl ''ticketing_cache_rows_total'' [(''mode'', ''patch'')]),
        sg_pool_state = pool_state\<rparr>)))))"

record stage_summary =
  ss_samples :: nat
  ss_read_200 :: int
  ss_read_304 :: int
  ss_hold_201 :: int
  ss_metrics :: "stage_metrics option"
  ss_ratio :: "rat option"

text \<open>\<open>_summarize_stage\<close>; the fields it copies unchanged are left out.  Without two metric samples there are no deltas.\<close>

definition summarize_stage ::
  "(string \<Rightarrow> bound option) \<Rightarrow> statuses \<Rightarrow> metric_row option list option list \<Rightarrow> stage_summary result"
where
  "summarize_stage le_of statuses samples =
     (let ok = status_count statuses ''read'' ''200''; unmodified = status_count statuses ''read'' ''304'';
          hold_ok = status_count statuses ''hold'' ''201'';
          maps = map to_metric_map (List.map_filter id samples) in
      if length maps < 2
      then Inr \<lparr>ss_samples = length samples, ss_read_200 = ok, ss_read_304 = unmodified, ss_hold_201 = hold_ok,
        ss_metrics = None, ss_ratio = None\<rparr>
      else ebind (stage_metrics_of le_of samples (hd maps) (last maps)) (\<lambda>m.
        Inr \<lparr>ss_samples = length samples, ss_read_200 = ok, ss_read_304 = unmodified, ss_hold_201 = hold_ok,
          ss_metrics = Some m,
          ss_ratio = (if ok \<noteq> 0 \<or> unmodified \<noteq> 0
            then Some (of_int ok / of_int (max 1 (ok + unmodified))) else None)\<rparr>))"

section \<open>\<open>summarize_capacity\<close>\<close>

definition deltas_of :: "sample \<Rightarrow> sample \<Rightarrow> sample" where
  "deltas_of start final =
     map (\<lambda>(key, v). (key, v - start_value start key)) (filter (\<lambda>(key, v). v \<ge> start_value start key) final)"

definition total_of :: "sample \<Rightarrow> string \<Rightarrow> labels \<Rightarrow> rat" where
  "total_of ds name required = sum_list (map snd (filter (\<lambda>(key, _). labels_match key name required) ds))"

definition add_bucket ::
  "(string \<Rightarrow> bound option) \<Rightarrow> string \<Rightarrow> labels \<Rightarrow> labels \<times> rat \<Rightarrow> (bound \<times> rat) list result \<Rightarrow> (bound \<times> rat) list result"
where
  "add_bucket le_of name required = (\<lambda>(key, v) out. ebind out (\<lambda>out.
     if \<not> labels_match key name required then Inr out
     else case map_of key ''le'' of
       None \<Rightarrow> Inl (PyError ''KeyError'')
     | Some text \<Rightarrow>
         (case le_of text of
            None \<Rightarrow> Inl (PyError ''ValueError'')
          | Some b \<Rightarrow> Inr (dict_put b ((case map_of out b of None \<Rightarrow> 0 | Some x \<Rightarrow> x) + v) out))))"

text \<open>\<open>boundary * 1000\<close> of an infinite boundary is infinite.\<close>

fun scale :: "bound \<Rightarrow> bound" where
  "scale (Finite r) = Finite (r * 1000)"
| "scale Infinite = Infinite"

definition upper_p95 :: "(string \<Rightarrow> bound option) \<Rightarrow> sample \<Rightarrow> string \<Rightarrow> labels \<Rightarrow> bound option result" where
  "upper_p95 le_of ds name required =
     (let count = total_of ds (name @ ''_count'') required in
      if count = 0 then Inr None
      else ebind (fold (add_bucket le_of (name @ ''_bucket'') required) ds (Inr [])) (\<lambda>buckets.
        Inr (map_option (scale \<circ> fst) (find (\<lambda>(b, v). v \<ge> count * (95 / 100)) (sort_key fst buckets)))))"

end
