(* ===== verification/Summaries_Facts.thy ===== *)
theory Summaries_Facts
  imports Summaries
begin

text \<open>
  Facts about the summaries.  A Prometheus bucket counts every observation up to its bound, so the buckets of
  a histogram are cumulative; \<open>upper_p95\<close> reads them that way, while \<open>histogram_p95\<close> adds them up again.
\<close>

section \<open>The buckets of one histogram\<close>

definition bucket_key :: "string \<Rightarrow> string \<Rightarrow> labels" where
  "bucket_key name t = [(''__name__'', name @ ''_bucket''), (''le'', t)]"

definition histogram_rows :: "string \<Rightarrow> (string \<times> rat) list \<Rightarrow> rat \<Rightarrow> sample" where
  "histogram_rows name tvs n = map (\<lambda>(t, v). (bucket_key name t, v)) tvs @ [([(''__name__'', name @ ''_count'')], n)]"

lemma bucket_labels [simp]:
  "labels_match (bucket_key name t) (name @ ''_bucket'') []" "map_of (bucket_key name t) ''le'' = Some t"
  "\<not> labels_match (bucket_key name t) (name @ ''_count'') []"
  "\<not> labels_match [(''__name__'', name @ ''_count'')] (name @ ''_bucket'') []"
  "labels_match [(''__name__'', name @ ''_count'')] (name @ ''_count'') []"
  by (simp_all add: labels_match_def bucket_key_def)

lemma dict_put_new: "k \<notin> fst ` set kvs \<Longrightarrow> dict_put k v kvs = kvs @ [(k, v)]"
  by (induction kvs) auto

lemma map_of_new: "k \<notin> fst ` set kvs \<Longrightarrow> map_of kvs k = None"
  by (simp add: map_of_eq_None_iff)

text \<open>Both first loops collect the buckets in order when their bounds differ.\<close>

lemma bucket_steps:
  assumes "map (le_of \<circ> fst) tvs = map (Some \<circ> fst) bvs" and "map snd tvs = map snd bvs"
    and "distinct (map fst out @ map fst bvs)" and "\<forall>x\<in>set tvs. 0 < snd x"
  shows "fold (bucket_step le_of [] (name @ ''_bucket'') []) (map (\<lambda>(t, v). (bucket_key name t, v)) tvs) out = out @ bvs"
  using assms
proof (induction tvs arbitrary: bvs out)
  case (Cons tv tvs)
  obtain t v where tv: "tv = (t, v)" by (rule prod.exhaust)
  obtain b bvs' where b: "bvs = (b, v) # bvs'" "le_of t = Some b" using Cons.prems(1,2) tv by (cases bvs) auto
  have new: "b \<notin> fst ` set out" using Cons.prems(3) b by auto
  have "fold (bucket_step le_of [] (name @ ''_bucket'') []) (map (\<lambda>(t, v). (bucket_key name t, v)) tvs) (out @ [(b, v)]) = (out @ [(b, v)]) @ bvs'"
    by (rule Cons.IH) (use Cons.prems tv b in auto)
  then show ?case using tv b new Cons.prems(4)
    by (simp add: bucket_step_def start_value_def dict_put_new map_of_new Let_def)
qed simp

lemma add_buckets:
  assumes "map (le_of \<circ> fst) tvs = map (Some \<circ> fst) bvs" and "map snd tvs = map snd bvs"
    and "distinct (map fst out @ map fst bvs)"
  shows "fold (add_bucket le_of (name @ ''_bucket'') []) (map (\<lambda>(t, v). (bucket_key name t, v)) tvs) (Inr out) = Inr (out @ bvs)"
  using assms
proof (induction tvs arbitrary: bvs out)
  case (Cons tv tvs)
  obtain t v where tv: "tv = (t, v)" by (rule prod.exhaust)
  obtain b bvs' where b: "bvs = (b, v) # bvs'" "le_of t = Some b" using Cons.prems(1,2) tv by (cases bvs) auto
  have new: "b \<notin> fst ` set out" using Cons.prems(3) b by auto
  have "fold (add_bucket le_of (name @ ''_bucket'') []) (map (\<lambda>(t, v). (bucket_key name t, v)) tvs) (Inr (out @ [(b, v)])) = Inr ((out @ [(b, v)]) @ bvs')"
    by (rule Cons.IH) (use Cons.prems tv b in auto)
  then show ?case using tv b new by (simp add: add_bucket_def dict_put_new map_of_new)
qed simp

lemma sorted_buckets: "sorted_wrt (<) (map fst bvs) \<Longrightarrow> sort_key fst (bvs :: (bound \<times> rat) list) = bvs"
  by (rule sort_key_id_if_sorted) (metis strict_sorted_imp_sorted)

lemma sum_list_pos: "xs \<noteq> [] \<Longrightarrow> \<forall>x\<in>set xs. (0::rat) < x \<Longrightarrow> 0 < sum_list xs"
proof (induction xs)
  case (Cons x xs)
  then show ?case by (cases "xs = []") auto
qed simp

lemma upper_p95_histogram:
  assumes "map (le_of \<circ> fst) tvs = map (Some \<circ> fst) bvs" and "map snd tvs = map snd bvs"
    and "sorted_wrt (<) (map fst bvs)" and "n \<noteq> 0"
  shows "upper_p95 le_of (histogram_rows name tvs n) name [] =
    Inr (map_option (scale \<circ> fst) (find (\<lambda>(b, v). v \<ge> n * (95 / 100)) bvs))"
proof -
  have tot: "total_of (histogram_rows name tvs n) (name @ ''_count'') [] = n"
    by (simp add: total_of_def histogram_rows_def filter_map o_def case_prod_unfold)
  have d: "distinct (map fst bvs)" using assms(3) strict_sorted_iff by blast
  have f: "fold (add_bucket le_of (name @ ''_bucket'') []) (histogram_rows name tvs n) (Inr []) = Inr bvs"
    using add_buckets [OF assms(1,2), of "[]" name] d by (simp add: histogram_rows_def) (simp add: add_bucket_def)
  show ?thesis unfolding upper_p95_def Let_def tot f ebind_simps sorted_buckets [OF assms(3)] by (rule if_not_P) (rule assms(4))
qed

lemma histogram_p95_histogram:
  assumes "map (le_of \<circ> fst) tvs = map (Some \<circ> fst) bvs" and "map snd tvs = map snd bvs"
    and "sorted_wrt (<) (map fst bvs)" and "\<forall>x\<in>set tvs. 0 < snd x" and "tvs \<noteq> []"
  shows "histogram_p95 le_of [] (histogram_rows name tvs n) name [] =
    p95_walk (sum_list (map snd bvs) * (95 / 100)) 0 bvs"
proof -
  have d: "distinct (map fst bvs)" using assms(3) strict_sorted_iff by blast
  have f: "fold (bucket_step le_of [] (name @ ''_bucket'') []) (histogram_rows name tvs n) [] = bvs"
    using bucket_steps [OF assms(1,2) _ assms(4), of "[]" name] d by (simp add: histogram_rows_def) (simp add: bucket_step_def)
  have "0 < sum_list (map snd tvs)" by (rule sum_list_pos) (use assms(4,5) in auto)
  then have "sum_list (map snd bvs) \<noteq> 0" using assms(2) by simp
  then show ?thesis unfolding histogram_p95_def Let_def f sorted_buckets [OF assms(3)] by (rule if_not_P)
qed

lemma walk_to_the_end:
  assumes "cum + of_nat (length bs - 1) * c < target" and "bs \<noteq> []" and "last bs = Infinite" and "0 < c"
  shows "p95_walk target cum (map (\<lambda>b. (b, c)) bs) = None"
  using assms
proof (induction bs arbitrary: cum)
  case (Cons b bs)
  show ?case
  proof (cases bs)
    case Nil
    then show ?thesis using Cons.prems by simp
  next
    case (Cons b' bs')
    have "cum + c + of_nat (length bs - 1) * c < target"
      using Cons.prems(1) local.Cons by (simp add: algebra_simps)
    moreover have "0 \<le> of_nat (length bs - 1) * c" using Cons.prems(4) by simp
    ultimately have "cum + c + of_nat (length bs - 1) * c < target" "cum + c < target" by linarith+
    then show ?thesis using Cons.IH [of "cum + c"] Cons.prems local.Cons by simp
  qed
qed simp

text \<open>
  Property C40.  The seat-map summary adds up buckets that are already cumulative: when all observations of a histogram with
  fewer than twenty buckets fall into the first one, the 95th percentile is at most the first bound, which
  \<open>upper_p95\<close> reports, while \<open>histogram_p95\<close> walks on to the infinite bucket and reports nothing.
\<close>

theorem cumulative_buckets_added_twice:
  assumes le: "map le_of ts = map Some (Finite b # bs)" and sorted: "sorted_wrt (<) (Finite b # bs)"
    and inf: "bs \<noteq> []" "last bs = Infinite" and few: "length ts < 20" and n: "0 < n"
  shows "upper_p95 le_of (histogram_rows name (map (\<lambda>t. (t, n)) ts) n) name [] = Inr (Some (Finite (b * 1000))) \<and>
    histogram_p95 le_of [] (histogram_rows name (map (\<lambda>t. (t, n)) ts) n) name [] = None"
proof -
  let ?tvs = "map (\<lambda>t. (t, n)) ts" and ?bvs = "map (\<lambda>b. (b, n)) (Finite b # bs)"
  have len: "length ts = Suc (length bs)" using arg_cong [OF le, of length] by simp
  have a: "map (le_of \<circ> fst) ?tvs = map (Some \<circ> fst) ?bvs" using le by (simp add: o_def)
  have s: "map snd ?tvs = map snd ?bvs" using len by (simp add: o_def map_replicate_const)
  have o: "sorted_wrt (<) (map fst ?bvs)" using sorted by (simp add: o_def)
  have "upper_p95 le_of (histogram_rows name ?tvs n) name [] = Inr (Some (Finite (b * 1000)))"
    using upper_p95_histogram [OF a s o, of n name] n by simp
  moreover have "p95_walk (sum_list (map snd ?bvs) * (95 / 100)) 0 ?bvs = None"
  proof (rule walk_to_the_end)
    have "sum_list (map snd ?bvs) = of_nat (length ts) * n" by (simp add: o_def map_replicate_const sum_list_replicate len distrib_right)
    moreover have "of_nat (length ts) < (of_nat 20 :: rat)" using few by (simp only: of_nat_less_iff)
    then have "of_nat (length ts) * n < 20 * n" using mult_strict_right_mono [OF _ n] by simp
    moreover have "(0::rat) + of_nat (length (Finite b # bs) - 1) * n = of_nat (length ts) * n - n" by (simp add: len distrib_right)
    ultimately show "0 + of_nat (length (Finite b # bs) - 1) * n < sum_list (map snd ?bvs) * (95 / 100)" by linarith
  qed (use inf n in simp_all)
  moreover have "\<forall>x\<in>set ?tvs. 0 < snd x" "?tvs \<noteq> []" using n len by auto
  ultimately show ?thesis using histogram_p95_histogram [OF a s o, of name n] by (simp only: simp_thms)
qed

definition demo_le :: "string \<Rightarrow> bound option" where
  "demo_le t = (if t = ''0.005'' then Some (Finite (5 / 1000)) else if t = ''0.1'' then Some (Finite (1 / 10))
     else if t = ''+Inf'' then Some Infinite else None)"

theorem cumulative_buckets_added_twice_witness:
  "upper_p95 demo_le (histogram_rows ''q'' [(''0.005'', 100), (''0.1'', 100), (''+Inf'', 100)] 100) ''q'' [] = Inr (Some (Finite 5)) \<and>
   histogram_p95 demo_le [] (histogram_rows ''q'' [(''0.005'', 100), (''0.1'', 100), (''+Inf'', 100)] 100) ''q'' [] = None"
  using cumulative_buckets_added_twice [of demo_le "[''0.005'', ''0.1'', ''+Inf'']" "5 / 1000" "[Finite (1 / 10), Infinite]" 100 "''q''"]
  by (simp add: demo_le_def less_bound_def)

end
