(* ===== verification/Capacity.thy ===== *)
theory Capacity
  imports Cli_Facts Load
begin

text \<open>
  The capacity probe (\<open>scripts/capacity_test.py\<close>): its fixture, what it observes in the database and
  the seat map, the journeys it schedules, the drain loop and the correctness gate.  The HTTP client, the
  clocks and the databases that the separate connections see are parameters; the activity view of the
  server and Prometheus are only recorded by the script and left out.
\<close>

section \<open>Arguments and fixture\<close>

datatype profile = Hot | Spread | Checkout

record capacity_args =
  ca_profile :: profile
  ca_rate :: int
  ca_seconds :: int
  ca_inflight :: int
  ca_drain :: int
  ca_seats :: int
  ca_wait_projection :: bool

definition capacity_limits :: "capacity_args \<Rightarrow> bool" where
  "capacity_limits a \<longleftrightarrow> list_all (\<lambda>n. n \<ge> 1) [ca_rate a, ca_seconds a, ca_inflight a, ca_drain a] \<and>
     ca_rate a * ca_seconds a \<le> 100000"

text \<open>\<open>up\<close>: the readiness probe is answered with success; \<open>dsn\<close>: the database URL is configured.\<close>

definition capacity_checks :: "settings \<Rightarrow> bool \<Rightarrow> bool \<Rightarrow> capacity_args \<Rightarrow> unit result" where
  "capacity_checks S up dsn a =
     ebind (require (environment S = ''development'') (PyError ''RuntimeError'')) (\<lambda>_.
     ebind (require (\<not> (ca_profile a = Hot \<and> ca_seconds a + 10 \<ge> hold_seconds S)) (PyError ''ValueError'')) (\<lambda>_.
     ebind (require up (PyError ''HTTPStatusError'')) (\<lambda>_.
     ebind (require dsn (PyError ''KeyError'')) (\<lambda>_.
     require (1 \<le> ca_seats a \<and> ca_seats a \<le> 100000) (PyError ''ValueError'')))))"

definition scheduled :: "capacity_args \<Rightarrow> nat" where
  "scheduled a = nat (ca_rate a * ca_seconds a)"

definition inventory :: "capacity_args \<Rightarrow> nat" where
  "inventory a = (if ca_profile a = Hot then 1 else max (scheduled a) (nat (ca_seats a)))"

definition seat_name :: "nat \<Rightarrow> seat_id" where
  "seat_name i = CHR ''S'' # nat_str i"

definition probe_seat :: "uuid \<Rightarrow> nat \<Rightarrow> seat_row" where
  "probe_seat ev i =
     \<lparr>s_event = ev, s_id = seat_name i, s_price = 100, s_hold = None, s_until = None, s_booked = None, s_version = 0\<rparr>"

fun insert_seats :: "uuid \<Rightarrow> nat list \<Rightarrow> db \<Rightarrow> db result" where
  "insert_seats ev [] d = Inr d"
| "insert_seats ev (i # is) d =
     (if seat_key (probe_seat ev i) \<in> seat_key ` set (event_seats d) then Inl (IntegrityError ''event_seats_pkey'')
      else insert_seats ev is (d\<lparr>event_seats := event_seats d @ [probe_seat ev i]\<rparr>))"

definition prepare_fixture :: "time \<Rightarrow> uuid \<Rightarrow> nat \<Rightarrow> db \<Rightarrow> (unit \<times> db) result" where
  "prepare_fixture now ev n d =
     (if ev \<in> ev_id ` set (events d) then Inl (IntegrityError ''events_pkey'')
      else ebind (insert_seats ev [0..<n] (d\<lparr>events := events d @ [\<lparr>ev_id = ev, ev_title = ''Capacity probe'', ev_currency = ''THB'',
          ev_sale_starts = now - 86400 * 1000000, ev_sale_ends = now + 86400 * 1000000\<rparr>]\<rparr>))
        (\<lambda>d. Inr ((), d)))"

section \<open>Observing\<close>

record capacity_sample =
  cp_orders :: nat
  cp_fulfilled :: nat
  cp_callbacks :: int
  cp_unconsumed :: nat
  cp_unpublished :: nat
  cp_outbox_age :: time
  cp_sql_version :: int
  cp_cache_version :: "int option"
  cp_lag :: "int option"
  cp_refresh :: int
  cp_refresh_age :: time

definition event_orders :: "uuid \<Rightarrow> db \<Rightarrow> order_row list" where
  "event_orders ev d = filter (\<lambda>r. o_event r = ev) (orders d)"

definition remaining_deliveries :: "uuid \<Rightarrow> db \<Rightarrow> int" where
  "remaining_deliveries ev d = sum_list (map (\<lambda>p. max (p_target p - p_deliveries p) 0)
     (filter (\<lambda>p. p_order p \<in> o_id ` set (event_orders ev d)) (payment_attempts d)))"

text \<open>The age of the oldest entry; 0 when there is none.\<close>

definition oldest_age :: "time \<Rightarrow> time list \<Rightarrow> time" where
  "oldest_age now ts = (case ts of [] \<Rightarrow> 0 | t # ts \<Rightarrow> now - fold min ts t)"

text \<open>
  The version in the hash or, without one, in the key \<open>legacy\<close> of an earlier layout; \<open>None\<close> when Redis fails.
\<close>

definition cached_version :: "bool \<Rightarrow> time \<Rightarrow> int option \<Rightarrow> uuid \<Rightarrow> seatmaps \<Rightarrow> int option" where
  "cached_version up now legacy ev maps =
     (if \<not> up then None
      else case sm_version (live now (maps ev)) of Some v \<Rightarrow> Some v | None \<Rightarrow> legacy)"

definition observe :: "bool \<Rightarrow> time \<Rightarrow> int option \<Rightarrow> uuid \<Rightarrow> db \<Rightarrow> seatmaps \<Rightarrow> capacity_sample" where
  "observe up now legacy ev d maps =
     (let unpublished = filter (\<lambda>x. x_published x = None) (outbox_events d);
          unconsumed = filter (\<lambda>x. x_aggregate x \<in> o_id ` set (event_orders ev d) \<and>
            (''fulfillment'', x_id x) \<notin> set (consumer_inbox d)) (outbox_events d);
          sql = sum_list (map s_version (filter (\<lambda>s. s_event s = ev) (event_seats d)));
          cached = cached_version up now legacy ev maps;
          dirty = find (\<lambda>f. f_event f = ev \<and> f_generation f > f_completed f) (seat_refresh_requests d) in
      \<lparr>cp_orders = length (event_orders ev d),
       cp_fulfilled = length (filter (\<lambda>r. o_status r = O_FULFILLED) (event_orders ev d)),
       cp_callbacks = remaining_deliveries ev d, cp_unconsumed = length unconsumed, cp_unpublished = length unpublished,
       cp_outbox_age = oldest_age now (map x_occurred unpublished), cp_sql_version = sql, cp_cache_version = cached,
       cp_lag = map_option (\<lambda>v. max 0 (sql - v)) cached,
       cp_refresh = (case dirty of None \<Rightarrow> 0 | Some f \<Rightarrow> f_generation f - f_completed f),
       cp_refresh_age = (case dirty of None \<Rightarrow> 0 | Some f \<Rightarrow> now - f_requested f)\<rparr>)"

section \<open>Journeys\<close>

text \<open>A status code, or \<open>None\<close> for a transport error.\<close>

record journey_tally =
  jt_hold :: "int option list"
  jt_payment :: "int option list"
  jt_accepted :: nat
  jt_dispatched :: nat
  jt_dropped :: nat

definition no_journeys :: journey_tally where
  "no_journeys = \<lparr>jt_hold = [], jt_payment = [], jt_accepted = 0, jt_dispatched = 0, jt_dropped = 0\<rparr>"

definition journey :: "profile \<Rightarrow> int option \<times> int option \<Rightarrow> journey_tally \<Rightarrow> journey_tally" where
  "journey p = (\<lambda>(held, paid) t.
     let t = t\<lparr>jt_hold := jt_hold t @ [held]\<rparr> in
     if p = Checkout \<and> held = Some 201
     then t\<lparr>jt_payment := jt_payment t @ [paid], jt_accepted := jt_accepted t + (if paid = Some 202 then 1 else 0)\<rparr>
     else t)"

text \<open>One arrival: how late it is, how many journeys are pending, and what its requests are answered.\<close>

record arrival =
  ar_late :: rat
  ar_pending :: nat
  ar_replies :: "int option \<times> int option"

definition dispatch :: "capacity_args \<Rightarrow> arrival \<Rightarrow> journey_tally \<Rightarrow> journey_tally" where
  "dispatch a x t =
     (if ar_late x > max (5 / 100) (1 / of_int (ca_rate a)) \<or> int (ar_pending x) \<ge> ca_inflight a
      then t\<lparr>jt_dropped := jt_dropped t + 1\<rparr>
      else journey (ca_profile a) (ar_replies x) (t\<lparr>jt_dispatched := jt_dispatched t + 1\<rparr>))"

definition dispatch_all :: "capacity_args \<Rightarrow> arrival list \<Rightarrow> journey_tally" where
  "dispatch_all a xs = fold (dispatch a) xs no_journeys"

section \<open>Draining and the gate\<close>

record drain_state =
  dr_fulfilled :: nat
  dr_holds :: nat
  dr_duplicates :: nat
  dr_tickets :: nat
  dr_remaining :: int

text \<open>Seats of the event with more than one booking.\<close>

definition duplicate_seats :: "uuid \<Rightarrow> db \<Rightarrow> nat" where
  "duplicate_seats ev d =
     (let seats = map b_seat (filter (\<lambda>b. b_event b = ev) (bookings d)) in
      length (filter (\<lambda>s. length (filter (\<lambda>s'. s' = s) seats) > 1) (remdups seats)))"

definition drain_query :: "uuid \<Rightarrow> db \<Rightarrow> drain_state" where
  "drain_query ev d =
     \<lparr>dr_fulfilled = length (filter (\<lambda>r. o_status r = O_FULFILLED) (event_orders ev d)),
      dr_holds = length (filter (\<lambda>h. h_event h = ev) (holds d)),
      dr_duplicates = duplicate_seats ev d,
      dr_tickets = length (filter (\<lambda>t. t_booking t \<in> b_id ` set (filter (\<lambda>b. b_event b = ev) (bookings d))) (tickets d)),
      dr_remaining = remaining_deliveries ev d\<rparr>"

definition delivery_done :: "capacity_args \<Rightarrow> nat \<Rightarrow> drain_state \<Rightarrow> bool" where
  "delivery_done a accepted s \<longleftrightarrow> ca_profile a \<noteq> Checkout \<or> dr_fulfilled s = accepted \<and> dr_remaining s = 0"

definition projection_done :: "capacity_args \<Rightarrow> capacity_sample \<Rightarrow> bool" where
  "projection_done a p \<longleftrightarrow> \<not> ca_wait_projection a \<or> cp_unconsumed p = 0 \<and> cp_refresh p = 0 \<and> cp_lag p = Some 0"

text \<open>
  The \<open>k\<close>-th round reads \<open>db_at k\<close> and \<open>seen k\<close>, then the clock; \<open>None\<close> means that the fuel ended first.
\<close>

fun drain_rounds ::
  "capacity_args \<Rightarrow> uuid \<Rightarrow> nat \<Rightarrow> (nat \<Rightarrow> db) \<Rightarrow> (nat \<Rightarrow> capacity_sample) \<Rightarrow> (nat \<Rightarrow> rat) \<Rightarrow> rat \<Rightarrow> nat \<Rightarrow> nat \<Rightarrow>
   (drain_state \<times> bool) option"
where
  "drain_rounds a ev accepted db_at seen clock start k 0 = None"
| "drain_rounds a ev accepted db_at seen clock start k (Suc fuel) =
     (let s = drain_query ev (db_at k); p = projection_done a (seen k) in
      if delivery_done a accepted s \<and> p then Some (s, p)
      else if clock k - start \<ge> of_int (ca_drain a) then Some (s, p)
      else drain_rounds a ev accepted db_at seen clock start (k + 1) fuel)"

definition unexpected_replies :: "journey_tally \<Rightarrow> nat" where
  "unexpected_replies t =
     length (filter (\<lambda>s. s \<notin> {Some 201, Some 409, Some 429, Some 503}) (jt_hold t)) +
     length (filter (\<lambda>s. s \<notin> {Some 202, Some 409, Some 429, Some 503}) (jt_payment t))"

definition wins :: "journey_tally \<Rightarrow> nat" where
  "wins t = length (filter (\<lambda>s. s = Some 201) (jt_hold t))"

definition capacity_correct :: "capacity_args \<Rightarrow> journey_tally \<Rightarrow> drain_state \<Rightarrow> bool" where
  "capacity_correct a t s \<longleftrightarrow> dr_duplicates s = 0 \<and> dr_holds s = wins t \<and> wins t > 0 \<and> unexpected_replies t = 0 \<and>
     (ca_profile a \<noteq> Hot \<or> wins t = 1) \<and>
     (ca_profile a \<noteq> Checkout \<or> dr_fulfilled s = jt_accepted t \<and> jt_accepted t = dr_tickets s \<and> jt_accepted t > 0 \<and> dr_remaining s = 0)"

text \<open>The exit status after the drain.\<close>

definition capacity_exit :: "capacity_args \<Rightarrow> journey_tally \<Rightarrow> drain_state \<times> bool \<Rightarrow> int" where
  "capacity_exit a t = (\<lambda>(s, projected). if capacity_correct a t s \<and> projected then 0 else 1)"

section \<open>Facts\<close>

lemma insert_seats_inv: "store_inv d \<Longrightarrow> insert_seats ev is d = Inr d' \<Longrightarrow> store_inv d'"
proof (induction "is" arbitrary: d)
  case (Cons i "is")
  let ?s = "probe_seat ev i"
  have new: "seat_key ?s \<notin> seat_key ` set (event_seats d)" and rest: "insert_seats ev is (d\<lparr>event_seats := event_seats d @ [?s]\<rparr>) = Inr d'"
    using Cons.prems(2) by (simp_all split: if_splits)
  have "store_inv (d\<lparr>event_seats := event_seats d @ [?s]\<rparr>)"
    by (rule seat_append_inv [OF Cons.prems(1) new]) (simp_all add: probe_seat_def)
  then show ?case using rest by (rule Cons.IH)
qed simp

lemma probe_seat_key [simp]: "seat_key (probe_seat ev i) = (ev, seat_name i)"
  by (simp add: probe_seat_def seat_key_def)

lemma seat_name_inj: "seat_name i = seat_name j \<longleftrightarrow> i = j"
  by (auto simp: seat_name_def dest!: arg_cong [of _ _ digits_val] simp: digits_val_nat_str)

lemma insert_seats_fresh:
  assumes "distinct is" and "\<forall>i\<in>set is. (ev, seat_name i) \<notin> seat_key ` set (event_seats d)"
  shows "insert_seats ev is d = Inr (d\<lparr>event_seats := event_seats d @ map (probe_seat ev) is\<rparr>)"
  using assms
proof (induction "is" arbitrary: d)
  case (Cons i "is")
  have "insert_seats ev is (d\<lparr>event_seats := event_seats d @ [probe_seat ev i]\<rparr>) =
      Inr (d\<lparr>event_seats := event_seats d @ [probe_seat ev i]\<rparr>\<lparr>event_seats := event_seats (d\<lparr>event_seats := event_seats d @ [probe_seat ev i]\<rparr>) @ map (probe_seat ev) is\<rparr>)"
    by (rule Cons.IH) (use Cons.prems in \<open>auto simp: seat_name_inj\<close>)
  moreover have "(ev, seat_name i) \<notin> seat_key ` set (event_seats d)" using Cons.prems(2) by simp
  ultimately show ?case by simp
qed simp

text \<open>For a fresh event the fixture succeeds with exactly the seats it was asked for, all of them free.\<close>

lemma prepare_fixture_creates:
  assumes "ev \<notin> ev_id ` set (events d)" and "ev \<notin> s_event ` set (event_seats d)"
  shows "\<exists>d'. prepare_fixture now ev n d = Inr ((), d') \<and>
    filter (\<lambda>s. s_event s = ev) (event_seats d') = map (probe_seat ev) [0..<n] \<and> ev \<in> ev_id ` set (events d')"
proof -
  let ?d = "d\<lparr>events := events d @ [\<lparr>ev_id = ev, ev_title = ''Capacity probe'', ev_currency = ''THB'',
          ev_sale_starts = now - 86400 * 1000000, ev_sale_ends = now + 86400 * 1000000\<rparr>]\<rparr>"
  have "insert_seats ev [0..<n] ?d = Inr (?d\<lparr>event_seats := event_seats ?d @ map (probe_seat ev) [0..<n]\<rparr>)"
    by (rule insert_seats_fresh) (use assms(2) in \<open>auto simp: seat_key_def image_iff\<close>)
  moreover have "filter (\<lambda>s. s_event s = ev) (event_seats d) = []" using assms(2) by (auto simp: filter_empty_conv)
  moreover have "filter (\<lambda>s. s_event s = ev) (map (probe_seat ev) [0..<n]) = map (probe_seat ev) [0..<n]"
    by (simp add: filter_id_conv probe_seat_def)
  ultimately show ?thesis using assms(1) by (simp add: prepare_fixture_def)
qed

text \<open>The fixture is a transaction that keeps the store's invariant.\<close>

lemma prepare_fixture_inv:
  assumes "store_inv d" and "prepare_fixture now ev n d = Inr (u, d')"
  shows "store_inv d'"
proof -
  have "store_inv (d\<lparr>events := es\<rparr>) = store_inv d" for es by (rule store_inv_cong) simp_all
  moreover obtain es where "insert_seats ev [0..<n] (d\<lparr>events := es\<rparr>) = Inr d'"
    using assms(2) by (auto simp: prepare_fixture_def ebind_Inr_iff split: if_splits)
  ultimately show ?thesis using assms(1) by (blast intro: insert_seats_inv)
qed

interpretation fixture_op: store_op "\<lambda>(now, ev, n). prepare_fixture now ev n"
  by unfold_locales (auto dest: prepare_fixture_inv)

lemma distinct_once: "distinct xs \<Longrightarrow> length (filter (\<lambda>y. y = x) xs) \<le> 1"
  by (induction xs) (auto simp: filter_empty_conv)

text \<open>The gate's check for seats that were booked twice never fails on a database the program can reach.\<close>

lemma no_duplicate_seats:
  assumes "store_inv d"
  shows "duplicate_seats ev d = 0"
proof -
  have "distinct (map booking_key (bookings d))" using assms by (simp add: store_inv_def core_inv_def keys_inv_def)
  then have "distinct (map booking_key (filter (\<lambda>b. b_event b = ev) (bookings d)))" by (rule distinct_map_filter)
  then have seats: "distinct (map b_seat (filter (\<lambda>b. b_event b = ev) (bookings d)))"
    by (auto simp: distinct_map inj_on_def booking_key_def)
  define seats where "seats = map b_seat (filter (\<lambda>b. b_event b = ev) (bookings d))"
  have "\<not> 1 < length (filter (\<lambda>s'. s' = s) seats)" for s
    using distinct_once [OF seats, of s] by (simp add: seats_def not_less)
  then show ?thesis by (simp add: duplicate_seats_def Let_def seats_def [symmetric])
qed

lemma dispatch_accounts:
  "jt_dispatched (fold (dispatch a) xs t) + jt_dropped (fold (dispatch a) xs t) = jt_dispatched t + jt_dropped t + length xs"
  "length (jt_hold t) = jt_dispatched t \<Longrightarrow> length (jt_hold (fold (dispatch a) xs t)) = jt_dispatched (fold (dispatch a) xs t)"
  by (induction xs arbitrary: t) (auto simp: dispatch_def journey_def Let_def split: prod.splits)

text \<open>Every scheduled journey is dispatched and answered, or counted as dropped.\<close>

lemma every_journey_accounted:
  "jt_dispatched (dispatch_all a xs) + jt_dropped (dispatch_all a xs) = length xs"
  "length (jt_hold (dispatch_all a xs)) = jt_dispatched (dispatch_all a xs)"
  using dispatch_accounts [where a = a and xs = xs and t = no_journeys] by (simp_all add: dispatch_all_def no_journeys_def)

text \<open>Every round sleeps half a second, so the drain ends within its limit.\<close>

lemma drain_rounds_end:
  assumes "\<And>i. clock i + 1 / 2 \<le> clock (i + 1)" and "2 * (of_int (ca_drain a) - (clock k - start)) \<le> of_nat fuel - 1" and "0 < fuel"
  shows "drain_rounds a ev accepted db_at seen clock start k fuel \<noteq> None"
  using assms(2,3)
proof (induction fuel arbitrary: k)
  case (Suc fuel)
  have "drain_rounds a ev accepted db_at seen clock start (k + 1) fuel \<noteq> None" if "\<not> clock k - start \<ge> of_int (ca_drain a)"
  proof (rule Suc.IH)
    show "2 * (of_int (ca_drain a) - (clock (k + 1) - start)) \<le> of_nat fuel - 1"
      using assms(1) [of k] Suc.prems(1) by (simp add: field_simps)
    have "(0::rat) < of_nat fuel" using that Suc.prems(1) by (simp add: field_simps)
    then show "0 < fuel" by simp
  qed
  then show ?case by (auto simp: Let_def)
qed simp

end
