(* ===== verification/Text_Tools.thy ===== *)
theory Text_Tools
  imports Seat_Cache
begin

text \<open>
  The operations on texts that the scripts use from Python's library: \<open>split\<close>, \<open>splitlines\<close>,
  \<open>rsplit(None, 1)\<close> and the scanner for the labels of a metric.  Texts are lists of characters below 256.
\<close>

section \<open>Splitting\<close>

fun split_on :: "char \<Rightarrow> string \<Rightarrow> string list" where
  "split_on c [] = [[]]"
| "split_on c (x # xs) =
     (if x = c then [] # split_on c xs
      else case split_on c xs of [] \<Rightarrow> [[x]] | w # ws \<Rightarrow> (x # w) # ws)"

text \<open>\<open>splitlines\<close> up to empty lines, which its only caller skips.\<close>

definition split_lines :: "string \<Rightarrow> string list" where
  "split_lines s = split_on (CHR 0x0A) (map (\<lambda>c. if c \<in> set [CHR 0x0B, CHR 0x0C, CHR 0x0D, CHR 0x1C, CHR 0x1D, CHR 0x1E, CHR 0x85] then CHR 0x0A else c) s)"

text \<open>\<open>rsplit(None, 1)\<close> of a text that was stripped and has a space.\<close>

definition rsplit_space :: "string \<Rightarrow> string \<times> string" where
  "rsplit_space s =
     (rev (dropWhile is_space (dropWhile (\<lambda>c. \<not> is_space c) (rev s))), rev (takeWhile (\<lambda>c. \<not> is_space c) (rev s)))"

text \<open>\<open>lower\<close> on ASCII.\<close>

definition lower_char :: "char \<Rightarrow> char" where
  "lower_char c = (let n = of_char c :: nat in if 65 \<le> n \<and> n \<le> 90 then char_of (n + 32) else c)"

section \<open>Labels\<close>

text \<open>\<open>\w\<close> on ASCII, the alphabet of label names.\<close>

definition is_word :: "char \<Rightarrow> bool" where
  "is_word c \<longleftrightarrow> (let n = of_char c :: nat in 48 \<le> n \<and> n \<le> 57 \<or> 65 \<le> n \<and> n \<le> 90 \<or> 97 \<le> n \<and> n \<le> 122 \<or> n = 95)"

text \<open>All matches of a word, an equals sign and a quoted text, from left to right.\<close>

function find_labels :: "string \<Rightarrow> (string \<times> string) list" where
  "find_labels s =
     (let w = takeWhile is_word s; rest = dropWhile is_word s in
      if s = [] then []
      else if w \<noteq> [] \<and> take 2 rest = [CHR ''='', CHR 0x22] \<and> CHR 0x22 \<in> set (drop 2 rest)
      then (w, takeWhile (\<lambda>c. c \<noteq> CHR 0x22) (drop 2 rest)) # find_labels (tl (dropWhile (\<lambda>c. c \<noteq> CHR 0x22) (drop 2 rest)))
      else find_labels (tl s))"
  by auto

lemma label_shorter:
  assumes "s \<noteq> []"
  shows "length (tl (dropWhile q (drop 2 (dropWhile p s)))) < length s"
proof -
  have "length (tl (dropWhile q (drop 2 (dropWhile p s)))) \<le> length (drop 2 (dropWhile p s)) - 1"
    using length_dropWhile_le [of q "drop 2 (dropWhile p s)"] by simp
  also have "\<dots> \<le> length s - 3" using length_dropWhile_le [of p s] by simp
  also have "\<dots> < length s" using assms by (cases s) auto
  finally show ?thesis .
qed

termination find_labels
  by (relation "measure length") (auto intro: label_shorter [simplified])

declare find_labels.simps [simp del]

end
