(* ===== verification/Read_Probe.thy ===== *)
theory Read_Probe
  imports Capacity Refresh Text_Tools
begin

text \<open>
  The read-heavy probe (\<open>scripts/seatmap_load.py\<close>): its fixture, the stages with their warm-up and their
  workload, the requests with entity tags, the observer and the gate.  The draws of the seeded generator, the
  replies and the clocks are parameters; \<open>to_float\<close> is \<open>float\<close> on a text.  The stages share the counters of
  the seats that were handed out.
\<close>

section \<open>Arguments and fixture\<close>

datatype read_mode = Legacy | Conditional

record probe_args =
  pb_modes :: "read_mode list"
  pb_rates :: "int list"
  pb_seconds :: int
  pb_shows :: int
  pb_viewers :: int
  pb_inflight :: int

definition probe_limits :: "probe_args \<Rightarrow> bool" where
  "probe_limits a \<longleftrightarrow> list_all (\<lambda>n. n \<ge> 1) (pb_rates a @ [pb_seconds a, pb_shows a, pb_viewers a, pb_inflight a]) \<and>
     pb_shows a \<le> 2000 \<and> sum_list (pb_rates a) * pb_seconds a * 2 \<le> 100000"

definition probe_checks :: "settings \<Rightarrow> bool \<Rightarrow> bool \<Rightarrow> unit result" where
  "probe_checks S dsn redis =
     ebind (require (environment S = ''development'') (PyError ''RuntimeError'')) (\<lambda>_.
     ebind (require dsn (PyError ''KeyError'')) (\<lambda>_. require redis (PyError ''KeyError'')))"

fun probe_fixture :: "time \<Rightarrow> uuid list \<Rightarrow> db \<Rightarrow> (unit \<times> db) result" where
  "probe_fixture now [] d = Inr ((), d)"
| "probe_fixture now (ev # evs) d =
     (if ev \<in> ev_id ` set (events d) then Inl (IntegrityError ''events_pkey'')
      else ebind (insert_seats ev [0..<300] (d\<lparr>events := events d @ [\<lparr>ev_id = ev, ev_title = ''Read-heavy probe'', ev_currency = ''THB'',
          ev_sale_starts = now - 86400 * 1000000, ev_sale_ends = now + 86400 * 1000000\<rparr>]\<rparr>))
        (probe_fixture now evs))"

text \<open>\<open>args.rates.index(rate)\<close>: the first position.\<close>

fun index_of :: "int \<Rightarrow> int list \<Rightarrow> nat" where
  "index_of x [] = 0"
| "index_of x (y # ys) = (if y = x then 0 else index_of x ys + 1)"

definition modes_of :: "probe_args \<Rightarrow> int \<Rightarrow> read_mode list" where
  "modes_of a rate =
     (if pb_modes a \<noteq> [] then pb_modes a
      else if index_of rate (pb_rates a) mod 2 = 0 then [Legacy, Conditional] else [Conditional, Legacy])"

definition probe_stages :: "probe_args \<Rightarrow> (int \<times> read_mode) list" where
  "probe_stages a = concat (map (\<lambda>rate. map (Pair rate) (modes_of a rate)) (pb_rates a))"

section \<open>Warm-up\<close>

fun probe_warm :: "(uuid \<Rightarrow> cache_env) \<Rightarrow> (uuid \<Rightarrow> db) \<Rightarrow> uuid list \<Rightarrow> seatmaps \<Rightarrow> unit result \<times> seatmaps" where
  "probe_warm C D [] maps = (Inr (), maps)"
| "probe_warm C D (ev # evs) maps =
     (case snapshot (C ev) ev (D ev) maps of
        (Inl e, maps') \<Rightarrow> (Inl e, maps')
      | (Inr _, maps') \<Rightarrow> probe_warm C D evs maps')"

fun fetch_tags :: "(int \<Rightarrow> bool) \<Rightarrow> (uuid \<Rightarrow> http_response) \<Rightarrow> uuid list \<Rightarrow> (uuid \<times> string) list result" where
  "fetch_tags raises replies [] = Inr []"
| "fetch_tags raises replies (ev # evs) =
     (if raises (hr_status (replies ev)) then Inl (PyError ''HTTPStatusError'')
      else case hr_etag (replies ev) of
        None \<Rightarrow> Inl (PyError ''KeyError'')
      | Some tag \<Rightarrow> ebind (fetch_tags raises replies evs) (\<lambda>tags. Inr ((ev, tag) # tags)))"

definition show_of :: "uuid list \<Rightarrow> nat \<Rightarrow> uuid" where
  "show_of shows viewer = shows ! (viewer mod length shows)"

definition initial_validators :: "uuid list \<Rightarrow> (uuid \<times> string) list \<Rightarrow> nat \<Rightarrow> string option" where
  "initial_validators shows tags viewer = map_of tags (show_of shows viewer)"

section \<open>The workload of a stage\<close>

record work_item =
  wi_viewer :: nat
  wi_show :: uuid
  wi_seat :: "nat option"

text \<open>\<open>wi_seat\<close> is the number of the seat of a write, \<open>None\<close> for a read.\<close>

definition plan_item :: "uuid list \<Rightarrow> (nat \<Rightarrow> nat) \<Rightarrow> nat \<Rightarrow> (uuid \<Rightarrow> nat) \<Rightarrow> (work_item \<times> (uuid \<Rightarrow> nat)) result" where
  "plan_item shows draw index counts =
     (let viewer = draw index; ev = show_of shows viewer in
      if index mod 20 = 0
      then ebind (require (\<not> counts ev + 1 > 300) (PyError ''ValueError'')) (\<lambda>_.
        Inr (\<lparr>wi_viewer = viewer, wi_show = ev, wi_seat = Some (counts ev)\<rparr>, counts(ev := counts ev + 1)))
      else Inr (\<lparr>wi_viewer = viewer, wi_show = ev, wi_seat = None\<rparr>, counts))"

fun plan_items :: "uuid list \<Rightarrow> (nat \<Rightarrow> nat) \<Rightarrow> nat list \<Rightarrow> (uuid \<Rightarrow> nat) \<Rightarrow> (work_item list \<times> (uuid \<Rightarrow> nat)) result" where
  "plan_items shows draw [] counts = Inr ([], counts)"
| "plan_items shows draw (index # is) counts =
     ebind (plan_item shows draw index counts) (\<lambda>(w, counts').
       ebind (plan_items shows draw is counts') (\<lambda>(ws, counts''). Inr (w # ws, counts'')))"

definition stage_work :: "probe_args \<Rightarrow> uuid list \<Rightarrow> (nat \<Rightarrow> nat) \<Rightarrow> int \<Rightarrow> (uuid \<Rightarrow> nat) \<Rightarrow> (work_item list \<times> (uuid \<Rightarrow> nat)) result" where
  "stage_work a shows draw rate counts = plan_items shows draw [0..<nat (rate * pb_seconds a)] counts"

section \<open>Requests\<close>

datatype probe_request = Post_hold uuid seat_id | Get_seats uuid | Get_availability uuid "string option"

definition probe_request_of :: "read_mode \<Rightarrow> (nat \<Rightarrow> string option) \<Rightarrow> work_item \<Rightarrow> probe_request" where
  "probe_request_of m validators w =
     (case wi_seat w of
        Some i \<Rightarrow> Post_hold (wi_show w) (seat_name i)
      | None \<Rightarrow> if m = Legacy then Get_seats (wi_show w) else Get_availability (wi_show w) (validators (wi_viewer w)))"

text \<open>The texts of the \<open>dur\<close> parameters of a \<open>Server-Timing\<close> header.\<close>

definition durations :: "string \<Rightarrow> string list" where
  "durations header =
     concat (map (\<lambda>metric. map (\<lambda>p. tl (dropWhile (\<lambda>c. c \<noteq> CHR ''='') p))
       (filter (\<lambda>p. starts_with ''dur='' (strip p)) (tl (split_on (CHR 0x3B) metric)))) (split_on (CHR 0x2C) header))"

record probe_tally =
  pt_statuses :: "(string \<times> string) list"
  pt_times :: "(string \<times> string \<times> rat) list"
  pt_server :: "(string \<times> string \<times> rat) list"
  pt_bytes :: nat
  pt_read_bytes :: nat
  pt_drops :: nat
  pt_validators :: "nat \<Rightarrow> string option"

definition probe_start :: "(nat \<Rightarrow> string option) \<Rightarrow> probe_tally" where
  "probe_start validators = \<lparr>pt_statuses = [], pt_times = [], pt_server = [], pt_bytes = 0, pt_read_bytes = 0, pt_drops = 0,
     pt_validators = validators\<rparr>"

text \<open>One arrival: lateness in seconds, pending tasks, the reply with its \<open>Server-Timing\<close> header, and the duration in milliseconds.\<close>

record probe_arrival =
  pv_late :: rat
  pv_pending :: nat
  pv_reply :: reply
  pv_timing :: "string option"
  pv_duration :: rat

definition probe_operation :: "work_item \<Rightarrow> string" where
  "probe_operation w = (if wi_seat w \<noteq> None then ''hold'' else ''read'')"

definition count_probe :: "string \<Rightarrow> string \<Rightarrow> rat \<Rightarrow> probe_tally \<Rightarrow> probe_tally" where
  "count_probe op status duration t =
     t\<lparr>pt_statuses := pt_statuses t @ [(op, status)], pt_times := pt_times t @ [(op, status, duration)]\<rparr>"

text \<open>\<open>request\<close>: only transport errors are caught.\<close>

definition probe_receive :: "(string \<Rightarrow> rat option) \<Rightarrow> read_mode \<Rightarrow> work_item \<Rightarrow> http_response \<Rightarrow> string option \<Rightarrow> probe_tally \<Rightarrow> probe_tally result" where
  "probe_receive to_float m w r timing t =
     (let read = (wi_seat w = None); fresh = (read \<and> hr_status r = 200 \<and> m = Conditional) in
      ebind (require (\<not> fresh \<or> hr_etag r \<noteq> None) (PyError ''KeyError'')) (\<lambda>_.
      let t = t\<lparr>pt_validators := (if fresh then (pt_validators t)(wi_viewer w := hr_etag r) else pt_validators t),
                pt_read_bytes := pt_read_bytes t + (if read then hr_size r else 0), pt_bytes := pt_bytes t + hr_size r\<rparr> in
      case timing of
        None \<Rightarrow> Inr t
      | Some header \<Rightarrow>
          (case durations header of
             [] \<Rightarrow> Inr t
           | text # _ \<Rightarrow>
               (case to_float text of
                  None \<Rightarrow> Inl (PyError ''ValueError'')
                | Some x \<Rightarrow> Inr (t\<lparr>pt_server := pt_server t @ [(probe_operation w, int_str (hr_status r), x)]\<rparr>)))))"

definition probe_task :: "(string \<Rightarrow> rat option) \<Rightarrow> read_mode \<Rightarrow> work_item \<Rightarrow> probe_arrival \<Rightarrow> probe_tally \<Rightarrow> probe_tally result" where
  "probe_task to_float m w x t =
     (case pv_reply x of
        Responded r \<Rightarrow> ebind (probe_receive to_float m w r (pv_timing x) t) (\<lambda>t.
          Inr (count_probe (probe_operation w) (int_str (hr_status r)) (pv_duration x) t))
      | Transport _ \<Rightarrow> Inr (count_probe (probe_operation w) ''transport_error'' (pv_duration x) t))"

definition probe_dispatch ::
  "(string \<Rightarrow> rat option) \<Rightarrow> probe_args \<Rightarrow> int \<Rightarrow> read_mode \<Rightarrow> work_item \<times> probe_arrival \<Rightarrow> probe_tally \<Rightarrow> probe_tally result"
where
  "probe_dispatch to_float a rate m = (\<lambda>(w, x) t.
     if pv_late x > max (5 / 100) (1 / of_int rate) \<or> int (pv_pending x) \<ge> pb_inflight a
     then Inr (t\<lparr>pt_drops := pt_drops t + 1\<rparr>)
     else probe_task to_float m w x t)"

fun probe_all ::
  "(string \<Rightarrow> rat option) \<Rightarrow> probe_args \<Rightarrow> int \<Rightarrow> read_mode \<Rightarrow> (work_item \<times> probe_arrival) list \<Rightarrow> probe_tally \<Rightarrow> probe_tally result"
where
  "probe_all to_float a rate m [] t = Inr t"
| "probe_all to_float a rate m (wx # wxs) t = ebind (probe_dispatch to_float a rate m wx t) (probe_all to_float a rate m wxs)"

section \<open>The observer\<close>

record probe_sample =
  ps_expired :: nat
  ps_overdue :: nat
  ps_overdue_age :: time
  ps_reconcile_age :: time
  ps_never :: nat
  ps_dirty :: nat
  ps_missing :: nat
  ps_no_ttl :: nat
  ps_min_ttl :: int

text \<open>\<open>TTL\<close>: \<open>-2\<close> without the key, \<open>-1\<close> without an expiry, and seconds rounded from milliseconds.\<close>

definition map_ttl :: "time \<Rightarrow> seatmap \<Rightarrow> int" where
  "map_ttl now h =
     (if live now h = empty_map then -2
      else case sm_expires h of None \<Rightarrow> -1 | Some t \<Rightarrow> ((t - now) div 1000 + 500) div 1000)"

definition probe_observe :: "time \<Rightarrow> uuid list \<Rightarrow> db \<Rightarrow> seatmaps \<Rightarrow> probe_sample" where
  "probe_observe now shows d maps =
     (let hs = filter (\<lambda>h. h_event h \<in> set shows) (holds d);
          overdue = filter (\<lambda>h. h_status h = H_ACTIVE \<and> h_expires h < now) hs;
          recs = filter (\<lambda>r. q_event r \<in> set shows) (event_reconciliation d);
          ttls = map (\<lambda>ev. map_ttl now (maps ev)) shows in
      \<lparr>ps_expired = length (filter (\<lambda>h. h_status h = H_EXPIRED) hs), ps_overdue = length overdue,
       ps_overdue_age = oldest_age now (map h_expires overdue),
       ps_reconcile_age = oldest_age now (List.map_filter q_last recs),
       ps_never = length (filter (\<lambda>r. q_last r = None) recs),
       ps_dirty = length (filter (\<lambda>f. f_event f \<in> set shows \<and> f_generation f > f_completed f) (seat_refresh_requests d)),
       ps_missing = length (filter (\<lambda>t. t = -2) ttls), ps_no_ttl = length (filter (\<lambda>t. t = -1) ttls),
       ps_min_ttl = (case ttls of [] \<Rightarrow> 0 | t # ts \<Rightarrow> fold min ts t)\<rparr>)"

text \<open>
  The monitor until it is stopped.  A round has its sample (with the metrics or the error of fetching them), or
  the type of the exception.  The result is what is recorded, and how often the monitor pauses for two seconds:
  not after a failure.
\<close>

fun probe_monitor :: "(string + 'a) list \<Rightarrow> (string + 'a) list \<times> nat" where
  "probe_monitor [] = ([], 0)"
| "probe_monitor (Inl e # rounds) = (let (xs, n) = probe_monitor rounds in (Inl e # xs, n))"
| "probe_monitor (Inr s # rounds) = (let (xs, n) = probe_monitor rounds in (Inr s # xs, n + 1))"

section \<open>The gate and the run\<close>

definition read_times :: "probe_tally \<Rightarrow> rat list" where
  "read_times t = map (\<lambda>(_, _, v). v) (filter (\<lambda>(op, _, _). op = ''read'') (pt_times t))"

definition probe_gate :: "probe_tally \<Rightarrow> bool" where
  "probe_gate t \<longleftrightarrow> pt_drops t = 0 \<and> p95_within 150 (read_times t) \<and>
     list_all (\<lambda>(op, status). (op = ''read'' \<longrightarrow> status \<in> {''200'', ''304''}) \<and> (op = ''hold'' \<longrightarrow> status = ''201'')) (pt_statuses t)"

text \<open>What a stage meets: the warm-up, the first reads and the arrivals.\<close>

record probe_world =
  sw_cache :: "uuid \<Rightarrow> cache_env"
  sw_db :: "uuid \<Rightarrow> db"
  sw_first :: "uuid \<Rightarrow> http_response"
  sw_arrivals :: "probe_arrival list"

definition probe_stage ::
  "(int \<Rightarrow> bool) \<Rightarrow> (string \<Rightarrow> rat option) \<Rightarrow> probe_args \<Rightarrow> uuid list \<Rightarrow> (nat \<Rightarrow> nat) \<Rightarrow> int \<times> read_mode \<Rightarrow> probe_world \<Rightarrow>
   (uuid \<Rightarrow> nat) \<times> seatmaps \<Rightarrow> (work_item list \<times> probe_tally) result \<times> (uuid \<Rightarrow> nat) \<times> seatmaps"
where
  "probe_stage raises to_float a shows draw = (\<lambda>(rate, m) W (counts, maps).
     case probe_warm (sw_cache W) (sw_db W) shows maps of
       (Inl e, maps) \<Rightarrow> (Inl e, counts, maps)
     | (Inr _, maps) \<Rightarrow>
         (case fetch_tags raises (sw_first W) shows of
            Inl e \<Rightarrow> (Inl e, counts, maps)
          | Inr tags \<Rightarrow>
              (case stage_work a shows draw rate counts of
                 Inl e \<Rightarrow> (Inl e, counts, maps)
               | Inr (work, counts) \<Rightarrow>
                   (ebind (probe_all to_float a rate m (zip work (sw_arrivals W)) (probe_start (initial_validators shows tags)))
                      (\<lambda>t. Inr (work, t)), counts, maps))))"

text \<open>The results that were written, and the exception that ended the run early.\<close>

fun probe_run ::
  "(int \<Rightarrow> bool) \<Rightarrow> (string \<Rightarrow> rat option) \<Rightarrow> probe_args \<Rightarrow> uuid list \<Rightarrow> (nat \<Rightarrow> nat) \<Rightarrow> ((int \<times> read_mode) \<times> probe_world) list \<Rightarrow>
   (uuid \<Rightarrow> nat) \<times> seatmaps \<Rightarrow> (work_item list \<times> probe_tally) list \<times> unit result"
where
  "probe_run raises to_float a shows draw [] s = ([], Inr ())"
| "probe_run raises to_float a shows draw ((stage, W) # rest) s =
     (case probe_stage raises to_float a shows draw stage W s of
        (Inl e, _) \<Rightarrow> ([], Inl e)
      | (Inr r, s') \<Rightarrow> (let (rs, out) = probe_run raises to_float a shows draw rest s' in (r # rs, out)))"

section \<open>Facts\<close>

lemma probe_fixture_inv: "store_inv d \<Longrightarrow> probe_fixture now evs d = Inr (u, d') \<Longrightarrow> store_inv d'"
proof (induction evs arbitrary: d)
  case (Cons ev evs)
  have ev: "store_inv (d\<lparr>events := es\<rparr>) = store_inv d" for es by (rule store_inv_cong) simp_all
  obtain es d1 where "insert_seats ev [0..<300] (d\<lparr>events := es\<rparr>) = Inr d1" and rest: "probe_fixture now evs d1 = Inr (u, d')"
    using Cons.prems(2) by (auto simp: ebind_Inr_iff split: if_splits)
  then have "store_inv d1" using Cons.prems(1) ev by (blast intro: insert_seats_inv)
  then show ?case using rest by (rule Cons.IH)
qed simp

interpretation probe_op: store_op "\<lambda>(now, evs). probe_fixture now evs"
  by unfold_locales (auto dest: probe_fixture_inv)

text \<open>
  What handing out seats promises: the seats of the writes \<open>ws\<close> for a show are the next ones, in order, and
  their number stays within the 300 seats of the fixture.
\<close>

definition seats_of :: "uuid \<Rightarrow> work_item list \<Rightarrow> nat list" where
  "seats_of ev ws = List.map_filter wi_seat (filter (\<lambda>w. wi_show w = ev) ws)"

definition handed :: "(uuid \<Rightarrow> nat) \<Rightarrow> work_item list \<Rightarrow> (uuid \<Rightarrow> nat) \<Rightarrow> bool" where
  "handed counts ws counts' \<longleftrightarrow> (\<forall>ev. counts ev \<le> counts' ev \<and> seats_of ev ws = [counts ev..<counts' ev] \<and>
     (counts ev \<le> 300 \<longrightarrow> counts' ev \<le> 300))"

lemma seats_of_simps [simp]:
  "seats_of ev [] = []"
  "seats_of ev (w # ws) = (case wi_seat w of Some i \<Rightarrow> if wi_show w = ev then [i] else [] | None \<Rightarrow> []) @ seats_of ev ws"
  by (auto simp: seats_of_def map_filter_simps split: option.splits)

lemma seats_of_append [simp]: "seats_of ev (ws @ ws') = seats_of ev ws @ seats_of ev ws'"
  by (induction ws) simp_all

lemma handed_none [simp]: "handed counts [] counts"
  by (simp add: handed_def)

lemma handed_append:
  assumes "handed a ws b" and "handed b ws' c"
  shows "handed a (ws @ ws') c"
proof -
  have "a ev \<le> b ev" "b ev \<le> c ev" for ev using assms by (simp_all add: handed_def)
  then have "[a ev..<b ev] @ [b ev..<c ev] = [a ev..<c ev]" for ev
    using upt_add_eq_append [of "a ev" "b ev" "c ev - b ev"] by simp
  then show ?thesis using assms by (auto simp: handed_def intro: order_trans)
qed

lemma plan_item_handed: "plan_item shows draw i counts = Inr (w, counts') \<Longrightarrow> handed counts [w] counts'"
  by (auto simp: plan_item_def handed_def Let_def ebind_Inr_iff split: if_splits)

lemma plan_items_handed: "plan_items shows draw is counts = Inr (ws, counts') \<Longrightarrow> handed counts ws counts'"
proof (induction "is" arbitrary: counts ws)
  case (Cons i "is")
  then obtain w c ws' where "plan_item shows draw i counts = Inr (w, c)" and "plan_items shows draw is c = Inr (ws', counts')"
    and ws: "ws = [w] @ ws'"
    by (auto simp: ebind_Inr_iff)
  then show ?case unfolding ws by (blast intro: handed_append plan_item_handed Cons.IH)
qed simp

lemma probe_stage_handed:
  "probe_stage raises to_float a shows draw stage W (counts, maps) = (Inr (work, t), counts', maps') \<Longrightarrow> handed counts work counts'"
  by (auto simp: probe_stage_def stage_work_def ebind_Inr_iff dest!: plan_items_handed split: prod.splits sum.splits)

lemma probe_run_handed:
  "probe_run raises to_float a shows draw stages (counts, maps) = (rs, out) \<Longrightarrow> \<exists>counts'. handed counts (concat (map fst rs)) counts'"
proof (induction stages arbitrary: counts maps rs)
  case (Cons s stages)
  obtain stage W where s: "s = (stage, W)" by (rule prod.exhaust)
  obtain r c m where st: "probe_stage raises to_float a shows draw stage W (counts, maps) = (r, c, m)" by (rule prod_cases3)
  show ?case
  proof (cases r)
    case (Inl e)
    then show ?thesis using Cons.prems s st by (auto intro: handed_none)
  next
    case (Inr x)
    obtain work t where x: "x = (work, t)" by (rule prod.exhaust)
    obtain rs' where run: "probe_run raises to_float a shows draw stages (c, m) = (rs', out)" and rs: "rs = x # rs'"
      using Cons.prems s st Inr by (auto split: prod.splits)
    have "handed counts work c" using st Inr x by (simp add: probe_stage_handed)
    moreover obtain c' where "handed c (concat (map fst rs')) c'" using Cons.IH [OF run] by blast
    ultimately have "handed counts (work @ concat (map fst rs')) c'" by (rule handed_append)
    then show ?thesis by (auto simp: rs x)
  qed
qed (auto intro: handed_none)

text \<open>
  Fact.  Over all the stages of a run the probe asks for the seats of a show one after the other and for
  none beyond the 300 of its fixture: no two of its holds compete for a seat.
\<close>

theorem probe_holds_never_compete:
  "\<exists>n. n \<le> 300 \<and> seats_of ev (concat (map fst (fst (probe_run raises to_float a shows draw stages (\<lambda>_. 0, maps))))) = [0..<n]"
proof -
  obtain rs out where "probe_run raises to_float a shows draw stages (\<lambda>_. 0, maps) = (rs, out)" by (rule prod.exhaust)
  moreover from probe_run_handed [OF this] obtain c where "handed (\<lambda>_. 0) (concat (map fst rs)) c" by blast
  ultimately show ?thesis by (auto simp: handed_def)
qed

lemma receive_statuses: "probe_receive to_float m w r timing t = Inr t' \<Longrightarrow> pt_statuses t' = pt_statuses t \<and> pt_drops t' = pt_drops t"
  by (auto simp: probe_receive_def Let_def ebind_Inr_iff split: option.splits list.splits)

lemma probe_task_answers:
  "probe_task to_float m w x t = Inr t' \<Longrightarrow> \<exists>status. pt_statuses t' = pt_statuses t @ [(probe_operation w, status)] \<and> pt_drops t' = pt_drops t"
  by (auto simp: probe_task_def ebind_Inr_iff count_probe_def dest: receive_statuses split: reply.splits)

lemma probe_all_answers:
  assumes "probe_all to_float a rate m wxs t = Inr t'"
  shows "pt_drops t \<le> pt_drops t'"
    and "pt_drops t' = pt_drops t \<Longrightarrow> map fst (pt_statuses t') = map fst (pt_statuses t) @ map (probe_operation \<circ> fst) wxs"
proof -
  have "pt_drops t \<le> pt_drops t' \<and> (pt_drops t' = pt_drops t \<longrightarrow>
      map fst (pt_statuses t') = map fst (pt_statuses t) @ map (probe_operation \<circ> fst) wxs)"
    using assms
  proof (induction wxs arbitrary: t)
    case (Cons wx wxs)
    then obtain t1 where t1: "probe_dispatch to_float a rate m wx t = Inr t1" and rest: "probe_all to_float a rate m wxs t1 = Inr t'"
      by (auto simp: ebind_Inr_iff)
    consider "pt_drops t1 = pt_drops t + 1"
      | status where "pt_statuses t1 = pt_statuses t @ [(probe_operation (fst wx), status)]" "pt_drops t1 = pt_drops t"
      using t1 by (auto simp: probe_dispatch_def split: prod.splits if_splits dest!: probe_task_answers)
    then show ?case by cases (use Cons.IH [OF rest] in auto)
  qed simp
  then show "pt_drops t \<le> pt_drops t'"
    and "pt_drops t' = pt_drops t \<Longrightarrow> map fst (pt_statuses t') = map fst (pt_statuses t) @ map (probe_operation \<circ> fst) wxs"
    by blast+
qed

text \<open>
  Fact.  A stage that passes its gate has an answer for every item of its work: 201 for each of its
  holds and 200 or 304 for each of its reads.
\<close>

theorem passed_probe_answers_everything:
  assumes run: "probe_all to_float a rate m wxs (probe_start validators) = Inr t" and gate: "probe_gate t"
  shows "map fst (pt_statuses t) = map (probe_operation \<circ> fst) wxs"
    and "filter (\<lambda>s. s \<noteq> (''hold'', ''201'') \<and> s \<noteq> (''read'', ''200'') \<and> s \<noteq> (''read'', ''304'')) (pt_statuses t) = []"
proof -
  have d: "pt_drops t = pt_drops (probe_start validators)" using gate by (simp add: probe_gate_def probe_start_def)
  show ops: "map fst (pt_statuses t) = map (probe_operation \<circ> fst) wxs"
    using probe_all_answers(2) [OF run d] by (simp add: probe_start_def)
  have "s = (''hold'', ''201'') \<or> s = (''read'', ''200'') \<or> s = (''read'', ''304'')" if s: "s \<in> set (pt_statuses t)" for s
  proof -
    obtain op status where eq: "s = (op, status)" by (rule prod.exhaust)
    have "op \<in> set (map fst (pt_statuses t))" using s eq by force
    then have "op = ''hold'' \<or> op = ''read''" unfolding ops by (auto simp: probe_operation_def)
    moreover have "(op = ''read'' \<longrightarrow> status \<in> {''200'', ''304''}) \<and> (op = ''hold'' \<longrightarrow> status = ''201'')"
      using gate s eq by (auto simp: probe_gate_def list_all_iff)
    ultimately show ?thesis using eq by blast
  qed
  then show "filter (\<lambda>s. s \<noteq> (''hold'', ''201'') \<and> s \<noteq> (''read'', ''200'') \<and> s \<noteq> (''read'', ''304'')) (pt_statuses t) = []"
    by (auto simp: filter_empty_conv)
qed

end
