(* ===== verification/Pressure.thy ===== *)
theory Pressure
  imports Text_Tools Summaries Config Load
begin

text \<open>
  The pressure observer (\<open>scripts/cloud_pressure_observe.py\<close>): parsing the metrics of a replica, counters and
  histograms over the observed window, the sampling loop and the exit status.  A scrape is a list of named
  numbers in the order of the text; \<open>to_float\<close> is \<open>float\<close> on a text, and numbers are exact.  Replicas are
  numbered as in the arguments.
\<close>

section \<open>Metrics\<close>

type_synonym metric_table = "(string \<times> rat) list"

definition METRIC_PREFIXES :: "string list" where
  "METRIC_PREFIXES = [''ticketing_hold_inflight'', ''ticketing_hold_limit'', ''ticketing_hold_admission_total'',
     ''ticketing_hold_arrival_occupancy_'', ''ticketing_db_pool_acquiring'', ''ticketing_db_pool_in_use'',
     ''ticketing_db_pool_state'', ''ticketing_db_pool_acquire_seconds_'', ''ticketing_db_connection_hold_seconds_'',
     ''ticketing_db_pool_return_seconds_'', ''ticketing_db_transaction_seconds_'', ''ticketing_db_commit_seconds_'',
     ''ticketing_event_loop_lag_'']"

definition parse_line :: "(string \<Rightarrow> rat option) \<Rightarrow> string \<Rightarrow> (string \<times> rat) option" where
  "parse_line to_float raw_line =
     (let line = strip raw_line in
      if line = [] \<or> starts_with ''#'' line \<or> CHR '' '' \<notin> set line then None
      else let (metric, raw_value) = rsplit_space line; name = takeWhile (\<lambda>c. c \<noteq> CHR ''{'') metric in
        if \<not> list_ex (\<lambda>p. starts_with p name) METRIC_PREFIXES then None
        else map_option (Pair metric) (to_float raw_value))"

definition parse_metrics :: "(string \<Rightarrow> rat option) \<Rightarrow> string \<Rightarrow> metric_table" where
  "parse_metrics to_float txt =
     fold (\<lambda>l out. case parse_line to_float l of None \<Rightarrow> out | Some (k, v) \<Rightarrow> dict_put k v out) (split_lines txt) []"

definition metric_value :: "metric_table \<Rightarrow> string \<Rightarrow> string \<Rightarrow> rat" where
  "metric_value ms name labels = (case map_of ms (name @ labels) of None \<Rightarrow> 0 | Some v \<Rightarrow> v)"

definition counter_delta :: "metric_table \<Rightarrow> metric_table \<Rightarrow> string \<Rightarrow> string \<Rightarrow> rat" where
  "counter_delta start final name labels = max 0 (metric_value final name labels - metric_value start name labels)"

definition metric_labels :: "string \<Rightarrow> (string \<times> string) list" where
  "metric_labels metric =
     (if CHR ''{'' \<notin> set metric then []
      else fold (\<lambda>(k, v). dict_put k v) (find_labels (tl (dropWhile (\<lambda>c. c \<noteq> CHR ''{'') metric))) [])"

section \<open>Histograms\<close>

definition bound_of :: "(string \<Rightarrow> rat option) \<Rightarrow> string \<Rightarrow> bound option" where
  "bound_of to_float raw = (if raw = ''+Inf'' then Some Infinite else map_option Finite (to_float raw))"

text \<open>The \<open>le\<close> text of a metric that is a bucket of \<open>name\<close> with the required labels.\<close>

definition bucket_le :: "string \<Rightarrow> (string \<times> string) list \<Rightarrow> string \<Rightarrow> string option" where
  "bucket_le name required metric =
     (if \<not> starts_with (name @ ''_bucket{'') metric then None
      else if list_all (\<lambda>(k, v). map_of (metric_labels metric) k = Some v) required then map_of (metric_labels metric) ''le''
      else None)"

fun collect_buckets ::
  "(string \<Rightarrow> rat option) \<Rightarrow> metric_table \<Rightarrow> string \<Rightarrow> (string \<times> string) list \<Rightarrow> metric_table \<Rightarrow> (bound \<times> rat) list result"
where
  "collect_buckets to_float start name required [] = Inr []"
| "collect_buckets to_float start name required ((metric, v) # rest) =
     (case bucket_le name required metric of
        None \<Rightarrow> collect_buckets to_float start name required rest
      | Some raw \<Rightarrow>
          (case bound_of to_float raw of
             None \<Rightarrow> Inl (PyError ''ValueError'')
           | Some b \<Rightarrow> ebind (collect_buckets to_float start name required rest) (\<lambda>bs.
               Inr ((b, max 0 (v - metric_value start metric [])) # bs))))"

text \<open>\<open>sorted\<close> on pairs.\<close>

definition sort_buckets :: "(bound \<times> rat) list \<Rightarrow> (bound \<times> rat) list" where
  "sort_buckets bs = sort_key fst (sort_key snd bs)"

definition histogram_upper_bound ::
  "(string \<Rightarrow> rat option) \<Rightarrow> metric_table \<Rightarrow> metric_table \<Rightarrow> string \<Rightarrow> rat \<Rightarrow> (string \<times> string) list \<Rightarrow> string \<Rightarrow> bound option result"
where
  "histogram_upper_bound to_float start final name fraction required count_labels =
     (let count = counter_delta start final (name @ ''_count'') count_labels in
      if count \<le> 0 then Inr None
      else ebind (collect_buckets to_float start name required final) (\<lambda>bs.
        Inr (map_option fst (find (\<lambda>(_, c). c \<ge> count * fraction) (sort_buckets bs)))))"

record window =
  wn_count :: rat
  wn_seconds :: rat
  wn_avg_ms :: "rat option"
  wn_p95_ms :: "bound option"
  wn_p99_ms :: "bound option"

definition histogram_window ::
  "(string \<Rightarrow> rat option) \<Rightarrow> metric_table \<Rightarrow> metric_table \<Rightarrow> string \<Rightarrow> string \<Rightarrow> (string \<times> string) list \<Rightarrow> window result"
where
  "histogram_window to_float start final name count_labels required =
     (let count = counter_delta start final (name @ ''_count'') count_labels;
          spent = counter_delta start final (name @ ''_sum'') count_labels in
      ebind (histogram_upper_bound to_float start final name (95 / 100) required count_labels) (\<lambda>p95.
      ebind (histogram_upper_bound to_float start final name (99 / 100) required count_labels) (\<lambda>p99.
      Inr \<lparr>wn_count = count, wn_seconds = spent, wn_avg_ms = (if count \<noteq> 0 then Some (spent * 1000 / count) else None),
        wn_p95_ms = map_option scale p95, wn_p99_ms = map_option scale p99\<rparr>)))"

section \<open>Sampling\<close>

record peaks =
  pk_hold_inflight :: rat
  pk_acquiring :: rat
  pk_in_use :: rat
  pk_waiting :: rat
  pk_loop_lag_ms :: rat

definition no_peaks :: peaks where
  "no_peaks = \<lparr>pk_hold_inflight = 0, pk_acquiring = 0, pk_in_use = 0, pk_waiting = 0, pk_loop_lag_ms = 0\<rparr>"

definition requests_waiting :: string where
  "requests_waiting = ''{state='' @ [CHR 0x22] @ ''requests_waiting'' @ [CHR 0x22] @ ''}''"

definition raise_peaks :: "metric_table \<Rightarrow> peaks \<Rightarrow> peaks" where
  "raise_peaks ms p =
     \<lparr>pk_hold_inflight = max (pk_hold_inflight p) (metric_value ms ''ticketing_hold_inflight'' []),
      pk_acquiring = max (pk_acquiring p) (metric_value ms ''ticketing_db_pool_acquiring'' []),
      pk_in_use = max (pk_in_use p) (metric_value ms ''ticketing_db_pool_in_use'' []),
      pk_waiting = max (pk_waiting p) (metric_value ms ''ticketing_db_pool_state'' requests_waiting),
      pk_loop_lag_ms = max (pk_loop_lag_ms p) (metric_value ms ''ticketing_event_loop_lag_current_seconds'' [] * 1000)\<rparr>"

record pressure_observer =
  ob_samples :: nat
  ob_errors :: nat
  ob_lags :: "rat list"
  ob_first :: "(nat \<times> metric_table) list"
  ob_last :: "(nat \<times> metric_table) list"
  ob_peaks :: "(nat \<times> peaks) list"

definition observer_start :: pressure_observer where
  "observer_start = \<lparr>ob_samples = 0, ob_errors = 0, ob_lags = [], ob_first = [], ob_last = [], ob_peaks = []\<rparr>"

text \<open>One replica in one round; \<open>Inl\<close> is the exception of the scrape.\<close>

definition observe_replica :: "nat \<times> (string + metric_table) \<Rightarrow> pressure_observer \<Rightarrow> pressure_observer" where
  "observe_replica = (\<lambda>(i, outcome) s.
     case outcome of
       Inl _ \<Rightarrow> s\<lparr>ob_errors := ob_errors s + 1\<rparr>
     | Inr ms \<Rightarrow>
         s\<lparr>ob_first := (if map_of (ob_first s) i = None then dict_put i ms (ob_first s) else ob_first s),
           ob_last := dict_put i ms (ob_last s),
           ob_peaks := dict_put i (raise_peaks ms (case map_of (ob_peaks s) i of None \<Rightarrow> no_peaks | Some p \<Rightarrow> p)) (ob_peaks s)\<rparr>)"

definition observe_round :: "rat \<Rightarrow> rat \<Rightarrow> (string + metric_table) list \<Rightarrow> pressure_observer \<Rightarrow> pressure_observer" where
  "observe_round now due outcomes s =
     (let s = fold observe_replica (enumerate 0 outcomes) (s\<lparr>ob_lags := ob_lags s @ [max 0 ((now - due) * 1000)]\<rparr>) in
      s\<lparr>ob_samples := ob_samples s + 1\<rparr>)"

text \<open>
  The loop from its \<open>k\<close>-th round: \<open>head k\<close> is the clock in the loop's condition, \<open>now k\<close> in its body.
  \<open>None\<close>: the fuel ended.
\<close>

fun observe_rounds ::
  "rat \<Rightarrow> rat \<Rightarrow> rat \<Rightarrow> (nat \<Rightarrow> rat) \<Rightarrow> (nat \<Rightarrow> rat) \<Rightarrow> (nat \<Rightarrow> (string + metric_table) list) \<Rightarrow> nat \<Rightarrow> nat \<Rightarrow> pressure_observer \<Rightarrow> pressure_observer option"
where
  "observe_rounds start interval duration head now replies k 0 s = None"
| "observe_rounds start interval duration head now replies k (Suc fuel) s =
     (if head k < start + duration
      then observe_rounds start interval duration head now replies (k + 1) fuel
        (observe_round (now k) (start + of_nat k * interval) (replies k) s)
      else Some s)"

definition observer_limits :: "rat \<Rightarrow> rat \<Rightarrow> bool \<Rightarrow> bool" where
  "observer_limits duration interval fresh_output \<longleftrightarrow>
     1 \<le> duration \<and> duration \<le> 7200 \<and> 1 / 10 \<le> interval \<and> interval \<le> 10 \<and> fresh_output"

section \<open>The summary\<close>

definition outcome_label :: "string \<Rightarrow> string" where
  "outcome_label v = ''{outcome='' @ [CHR 0x22] @ v @ [CHR 0x22] @ ''}''"

record replica_delta =
  rd_admitted :: rat
  rd_rejected :: rat
  rd_acquire_ok :: window
  rd_connection_hold :: window
  rd_pool_return :: window
  rd_transaction :: window
  rd_commit :: window
  rd_loop_lag :: window
  rd_acquire_errors :: rat

definition replica_delta_of :: "(string \<Rightarrow> rat option) \<Rightarrow> metric_table \<Rightarrow> metric_table \<Rightarrow> replica_delta result" where
  "replica_delta_of to_float start final =
     (let w = (\<lambda>name. histogram_window to_float start final name [] []) in
      ebind (histogram_window to_float start final ''ticketing_db_pool_acquire_seconds'' (outcome_label ''ok'') [(''outcome'', ''ok'')]) (\<lambda>acquire.
      ebind (w ''ticketing_db_connection_hold_seconds'') (\<lambda>hold.
      ebind (w ''ticketing_db_pool_return_seconds'') (\<lambda>return.
      ebind (w ''ticketing_db_transaction_seconds'') (\<lambda>tx.
      ebind (w ''ticketing_db_commit_seconds'') (\<lambda>commit.
      ebind (w ''ticketing_event_loop_lag_seconds'') (\<lambda>lag.
      Inr \<lparr>rd_admitted = counter_delta start final ''ticketing_hold_admission_total'' (outcome_label ''admitted''),
        rd_rejected = counter_delta start final ''ticketing_hold_admission_total'' (outcome_label ''rejected''),
        rd_acquire_ok = acquire, rd_connection_hold = hold, rd_pool_return = return, rd_transaction = tx,
        rd_commit = commit, rd_loop_lag = lag,
        rd_acquire_errors = counter_delta start final ''ticketing_db_pool_acquire_seconds_count'' (outcome_label ''error'')\<rparr>)))))))"

definition observer_exit :: "nat \<Rightarrow> pressure_observer \<Rightarrow> int" where
  "observer_exit replicas s = (if ob_errors s = 0 \<and> length (ob_last s) = replicas then 0 else 1)"

end
