(* ===== verification/Pressure_Facts.thy ===== *)
theory Pressure_Facts
  imports Pressure
begin

text \<open>
  Facts about the pressure observer: its histogram bound is the smallest bucket bound that is not below the
  nearest-rank percentile of the observed window, its loop ends within its duration, and the exit status 0
  means that no scrape failed.
\<close>

section \<open>Histogram bounds\<close>

lemma nth_sorted_filter:
  assumes "sorted xs" and "\<And>x y. x \<le> y \<Longrightarrow> P y \<Longrightarrow> P x" and "k < length xs"
  shows "k < length (filter P xs) \<longleftrightarrow> P (xs ! k)"
  using assms(1,3)
proof (induction xs arbitrary: k)
  case (Cons x xs)
  show ?case
  proof (cases "P x")
    case True
    then show ?thesis using Cons by (cases k) auto
  next
    case False
    then have none: "\<not> P y" if "y \<in> set (x # xs)" for y using Cons.prems(1) assms(2) that by auto
    then have "filter P (x # xs) = []" by (auto simp: filter_empty_conv)
    then show ?thesis using none nth_mem [OF Cons.prems(2)] by simp
  qed
qed simp

text \<open>At least a fraction of the observations is within a bound exactly when the percentile is.\<close>

lemma percentile_within:
  assumes p: "percentile obs fraction = Some p" and f: "0 < fraction" "fraction \<le> 1"
  shows "of_nat (length (filter (\<lambda>x. Finite x \<le> b) obs)) \<ge> of_nat (length obs) * fraction \<longleftrightarrow> Finite p \<le> b"
proof -
  define k where "k = nat \<lceil>of_nat (length obs) * fraction\<rceil>"
  have obs: "obs \<noteq> []" using p by (auto simp: percentile_def)
  then have pos: "0 < of_nat (length obs) * fraction" using f(1) by simp
  then have k0: "0 < k" unfolding k_def by simp
  have "of_nat (length obs) * fraction \<le> of_nat (length obs)" using f(2) by (simp add: mult_left_le)
  then have "\<lceil>of_nat (length obs) * fraction\<rceil> \<le> int (length obs)" by (simp add: ceiling_le_iff)
  then have "k \<le> length obs" unfolding k_def by (simp only: nat_le_iff)
  then have kn: "k - 1 < length (sort obs)" using k0 by simp
  have pk: "p = sort obs ! (k - 1)" using p obs k0 by (simp add: percentile_def Let_def k_def [symmetric])
  have down: "x \<le> y \<Longrightarrow> Finite y \<le> b \<Longrightarrow> Finite x \<le> b" for x y :: rat by (cases b) auto
  define c where "c = length (filter (\<lambda>x. Finite x \<le> b) obs)"
  have c: "length (filter (\<lambda>x. Finite x \<le> b) (sort obs)) = c" unfolding c_def by (simp add: filter_sort)
  have "of_nat c \<ge> of_nat (length obs) * fraction \<longleftrightarrow> \<lceil>of_nat (length obs) * fraction\<rceil> \<le> int c" by (simp add: ceiling_le_iff)
  also have "\<dots> \<longleftrightarrow> k \<le> c" unfolding k_def by (rule nat_le_iff [symmetric])
  also have "\<dots> \<longleftrightarrow> k - 1 < c" using k0 by auto
  also have "\<dots> \<longleftrightarrow> Finite p \<le> b" unfolding pk c [symmetric]
    by (rule nth_sorted_filter) (use down kn in \<open>auto\<close>)
  finally show ?thesis by (simp only: c_def)
qed

lemma find_first:
  assumes "sorted (map fst xs)" and "\<exists>x\<in>set xs. Q (fst x)"
  shows "map_option fst (find (\<lambda>x. Q (fst x)) xs) = Some (Min {b \<in> fst ` set xs. Q b})"
  using assms
proof (induction xs)
  case (Cons x xs)
  show ?case
  proof (cases "Q (fst x)")
    case True
    then have "Min {b \<in> fst ` set (x # xs). Q b} = fst x" using Cons.prems(1) by (intro Min_eqI) auto
    then show ?thesis using True by simp
  next
    case False
    then have "{b \<in> fst ` set (x # xs). Q b} = {b \<in> fst ` set xs. Q b}" by auto
    then show ?thesis using Cons False by simp
  qed
qed simp

lemma sorted_sort_buckets: "sorted (map fst (sort_buckets bs))"
  by (simp add: sort_buckets_def)

lemma set_sort_buckets: "set (sort_buckets bs) = set bs"
  by (simp add: sort_buckets_def)

text \<open>
  Fact.  When the buckets of the window count the observations \<open>obs\<close> and one of them is unbounded, the
  reported bound is the least bucket bound that is not below the percentile of the observations.
\<close>

theorem histogram_bound_is_percentile:
  assumes bs: "collect_buckets to_float start name required final = Inr bs"
    and cumulative: "\<And>b c. (b, c) \<in> set bs \<Longrightarrow> c = of_nat (length (filter (\<lambda>x. Finite x \<le> b) obs))"
    and count: "counter_delta start final (name @ ''_count'') count_labels = of_nat (length obs)"
    and inf: "Infinite \<in> fst ` set bs" and p: "percentile obs fraction = Some p" and f: "0 < fraction" "fraction \<le> 1"
  shows "histogram_upper_bound to_float start final name fraction required count_labels =
    Inr (Some (Min {b \<in> fst ` set bs. Finite p \<le> b}))"
proof -
  have obs: "obs \<noteq> []" using p by (auto simp: percentile_def)
  have "(case x of (_, c) \<Rightarrow> c \<ge> of_nat (length obs) * fraction) = (Finite p \<le> fst x)" if "x \<in> set (sort_buckets bs)" for x
    using cumulative [of "fst x" "snd x"] that percentile_within [OF p f, of "fst x"] by (simp add: set_sort_buckets case_prod_unfold)
  then have "find (\<lambda>(_, c). c \<ge> of_nat (length obs) * fraction) (sort_buckets bs) = find (\<lambda>x. Finite p \<le> fst x) (sort_buckets bs)"
    by (rule find_cong [OF refl])
  moreover have "\<exists>x\<in>set (sort_buckets bs). Finite p \<le> fst x" using inf by (force simp: set_sort_buckets)
  ultimately show ?thesis
    using find_first [OF sorted_sort_buckets, of bs "\<lambda>b. Finite p \<le> b"] obs
    by (simp add: histogram_upper_bound_def count bs set_sort_buckets)
qed

definition demo_scrape :: metric_table where
  "demo_scrape = [(''h_bucket{le='' @ [CHR 0x22] @ ''1'' @ [CHR 0x22] @ ''}'', 1),
     (''h_bucket{le='' @ [CHR 0x22] @ ''+Inf'' @ [CHR 0x22] @ ''}'', 2), (''h_count'', 2)]"

definition demo_float :: "string \<Rightarrow> rat option" where
  "demo_float s = (if s = ''1'' then Some 1 else None)"

theorem histogram_bound_is_percentile_witness:
  "percentile [3, 1 / 2] (1 / 2) = Some (1 / 2) \<and>
   histogram_upper_bound demo_float [] demo_scrape ''h'' (1 / 2) [] [] = Inr (Some (Finite 1))"
proof -
  have p: "percentile [3, 1 / 2] (1 / 2) = Some (1 / 2)" by code_simp
  have bs: "collect_buckets demo_float [] ''h'' [] demo_scrape = Inr [(Finite 1, 1), (Infinite, 2)]" by code_simp
  have n: "counter_delta [] demo_scrape (''h'' @ ''_count'') [] = of_nat (length [3, 1 / 2 :: rat])" by code_simp
  have "histogram_upper_bound demo_float [] demo_scrape ''h'' (1 / 2) [] [] =
    Inr (Some (Min {b \<in> fst ` set [(Finite 1, 1 :: rat), (Infinite, 2)]. Finite (1 / 2) \<le> b}))"
    by (rule histogram_bound_is_percentile [OF bs _ n _ p]) auto
  moreover have "{b \<in> fst ` set [(Finite 1, 1 :: rat), (Infinite, 2)]. Finite (1 / 2) \<le> b} = {Finite 1, Infinite}" by auto
  moreover have "Min {Finite 1, Infinite} = Finite 1" by (rule Min_eqI) auto
  ultimately show ?thesis using p by simp
qed

section \<open>The loop\<close>

lemma observe_round_samples: "ob_samples (observe_round now due outcomes s) = ob_samples s + 1"
proof -
  have "ob_samples (fold observe_replica xs t) = ob_samples t" for xs t
    by (induction xs arbitrary: t) (auto simp: observe_replica_def split: prod.splits sum.splits)
  then show ?thesis by (simp add: observe_round_def Let_def)
qed

text \<open>
  Fact.  The loop sleeps until its next due time, so it ends after at most as many rounds as intervals fit
  into the duration.
\<close>

lemma observe_rounds_end:
  assumes "\<And>i. start + of_nat i * interval \<le> head i" and "duration \<le> of_nat (k + n) * interval"
  shows "\<exists>s'. observe_rounds start interval duration head now replies k (Suc n) s = Some s' \<and> ob_samples s' \<le> ob_samples s + n"
  using assms(2)
proof (induction n arbitrary: k s)
  case 0
  then have "\<not> head k < start + duration" using assms(1) [of k] by simp
  then show ?case by simp
next
  case (Suc n)
  show ?case
  proof (cases "head k < start + duration")
    case True
    let ?s = "observe_round (now k) (start + of_nat k * interval) (replies k) s"
    have "ob_samples ?s = ob_samples s + 1" by (rule observe_round_samples)
    moreover have "duration \<le> of_nat ((k + 1) + n) * interval" using Suc.prems by (simp add: add.assoc add.commute)
    ultimately show ?thesis using Suc.IH [of "k + 1" ?s] True by auto
  qed simp
qed

section \<open>The exit status\<close>

definition failed_scrapes :: "(string + metric_table) list \<Rightarrow> nat" where
  "failed_scrapes outcomes = length (filter isl outcomes)"

lemma observe_round_errors: "ob_errors (observe_round now due outcomes s) = ob_errors s + failed_scrapes outcomes"
proof -
  have "ob_errors (fold observe_replica (enumerate n xs) t) = ob_errors t + failed_scrapes xs" for n xs t
    by (induction xs arbitrary: n t) (auto simp: observe_replica_def failed_scrapes_def split: sum.splits)
  then show ?thesis by (simp add: observe_round_def Let_def)
qed

lemma observe_rounds_errors:
  "observe_rounds start interval duration head now replies k fuel s = Some s' \<Longrightarrow>
    ob_samples s \<le> ob_samples s' \<and>
    ob_errors s' = ob_errors s + (\<Sum>i\<leftarrow>[k..<k + (ob_samples s' - ob_samples s)]. failed_scrapes (replies i))"
proof (induction fuel arbitrary: k s)
  case (Suc fuel)
  show ?case
  proof (cases "head k < start + duration")
    case True
    let ?s = "observe_round (now k) (start + of_nat k * interval) (replies k) s"
    define m where "m = ob_samples s' - ob_samples ?s"
    have run: "observe_rounds start interval duration head now replies (k + 1) fuel ?s = Some s'" using Suc.prems True by simp
    from Suc.IH [OF run] have le: "ob_samples ?s \<le> ob_samples s'"
      and err: "ob_errors s' = ob_errors ?s + (\<Sum>i\<leftarrow>[k + 1..<k + 1 + m]. failed_scrapes (replies i))" by (auto simp: m_def)
    have "ob_samples s' - ob_samples s = Suc m" using le by (simp add: m_def observe_round_samples)
    moreover have "[k..<k + Suc m] = k # [k + 1..<k + 1 + m]" by (simp add: upt_conv_Cons)
    ultimately show ?thesis using le err by (simp add: observe_round_errors observe_round_samples)
  next
    case False
    then show ?thesis using Suc.prems by simp
  qed
qed simp

text \<open>
  Fact.  The exit status 0 means that at least one round was observed and that every scrape of every round
  succeeded.
\<close>

theorem observer_exit_zero:
  assumes run: "observe_rounds start interval duration head now replies 0 fuel observer_start = Some s"
    and zero: "observer_exit n s = 0" and n: "0 < n"
  shows "0 < ob_samples s" and "\<forall>k < ob_samples s. \<forall>x \<in> set (replies k). \<not> isl x"
proof -
  have last: "ob_last s \<noteq> []" and err: "ob_errors s = 0" using zero n by (auto simp: observer_exit_def split: if_splits)
  have "s = observer_start \<or> 0 < ob_samples s"
  proof (cases fuel)
    case (Suc f)
    show ?thesis
    proof (cases "head 0 < start + duration")
      case True
      then show ?thesis using run Suc observe_rounds_errors [of start interval duration head now replies 1 f]
        by (fastforce simp: observe_round_samples)
    qed (use run Suc in simp)
  qed (use run in simp)
  then show "0 < ob_samples s" using last by (auto simp: observer_start_def)
  have "(\<Sum>i\<leftarrow>[0..<ob_samples s]. failed_scrapes (replies i)) = 0"
    using observe_rounds_errors [OF run] err by (simp add: observer_start_def)
  then have "failed_scrapes (replies k) = 0" if "k < ob_samples s" for k using that by (simp add: sum_list_eq_0_iff)
  then show "\<forall>k < ob_samples s. \<forall>x \<in> set (replies k). \<not> isl x" by (auto simp: failed_scrapes_def filter_empty_conv)
qed

end
