(* ===== verification/Rds_Preflight.thy ===== *)
theory Rds_Preflight
  imports Prelude Complex_Main
begin

text \<open>
  The readiness check of a managed database (\<open>scripts/rds_preflight.py\<close>).  What the resolver, the sockets and
  the server answer is a parameter, an exception by its class; durations are in milliseconds and exact.
\<close>

section \<open>What is required\<close>

definition REQUIRED_TABLES :: "string list" where
  "REQUIRED_TABLES = [''bookings'', ''consumer_inbox'', ''dead_letters'', ''event_reconciliation'', ''event_seats'', ''events'',
     ''holds'', ''idempotency_records'', ''order_items'', ''orders'', ''outbox_events'', ''payment_attempts'',
     ''payment_callbacks'', ''refund_requests'', ''schema_migrations'', ''seat_refresh_requests'', ''tickets'']"

definition REQUIRED_INDEXES :: "string list" where
  "REQUIRED_INDEXES = [''event_reconciliation_due'', ''event_seats_active_hold'', ''events_pkey'', ''events_sale_window'',
     ''event_seats_pkey'', ''holds_expiry'', ''idempotency_records_pkey'', ''outbox_pending'', ''seat_refresh_pending'']"

definition percentile_index :: "nat \<Rightarrow> rat \<Rightarrow> nat" where
  "percentile_index n fraction = min (n - 1) (nat \<lfloor>of_nat (n - 1) * fraction + 999999 / 1000000\<rfloor>)"

definition rds_percentile :: "rat list \<Rightarrow> rat \<Rightarrow> rat option" where
  "rds_percentile values fraction = (if values = [] then None else Some (sort values ! percentile_index (length values) fraction))"

record server_snapshot =
  sv_version :: int
  sv_encoding :: string
  sv_max_connections :: int
  sv_recovery :: bool
  sv_read_only :: string
  sv_ssl :: bool

definition validate_server :: "server_snapshot \<Rightarrow> int \<Rightarrow> int \<Rightarrow> bool \<Rightarrow> string list" where
  "validate_server v minimum_version minimum_connections require_tls =
     (if sv_version v < minimum_version * 10000 then [''server_version''] else []) @
     (if sv_recovery v then [''primary_required''] else []) @
     (if sv_read_only v \<noteq> ''off'' then [''read_write_required''] else []) @
     (if sv_encoding v \<noteq> ''UTF8'' then [''utf8_required''] else []) @
     (if sv_max_connections v < minimum_connections then [''connection_budget''] else []) @
     (if require_tls \<and> \<not> sv_ssl v then [''tls_required''] else [])"

text \<open>Migrations by name and checksum; both sides as association lists with distinct names.\<close>

definition same_dict :: "(string \<times> string) list \<Rightarrow> (string \<times> string) list \<Rightarrow> bool" where
  "same_dict a b \<longleftrightarrow> list_all (\<lambda>k. map_of a k = map_of b k) (map fst a @ map fst b)"

definition validate_schema :: "(string \<times> string) list \<Rightarrow> (string \<times> string) list \<Rightarrow> string list \<Rightarrow> string list \<Rightarrow> string list" where
  "validate_schema actual expected tables indexes =
     (if \<not> same_dict actual expected then [''migration_checksums''] else []) @
     (if \<not> list_all (\<lambda>t. t \<in> set tables) REQUIRED_TABLES then [''required_tables''] else []) @
     (if \<not> list_all (\<lambda>i. i \<in> set indexes) REQUIRED_INDEXES then [''required_indexes''] else [])"

section \<open>The run\<close>

datatype server_exc = OSError | ValueError | KeyError | PsycopgError | OtherError string

definition caught :: "server_exc \<Rightarrow> bool" where
  "caught e = (case e of OtherError _ \<Rightarrow> False | _ \<Rightarrow> True)"

record preflight_args =
  pf_attempts :: int
  pf_tx_attempts :: int
  pf_minimum_version :: int
  pf_minimum_connections :: int
  pf_require_schema :: bool
  pf_allow_plaintext :: bool

text \<open>The checks that end in \<open>parser.error\<close>, in their order.\<close>

definition preflight_arguments :: "preflight_args \<Rightarrow> bool \<Rightarrow> string option \<Rightarrow> string option \<Rightarrow> (string + unit)" where
  "preflight_arguments a output_exists dsn host =
     (if output_exists then Inl ''Use a fresh output path''
      else if pf_attempts a < 1 \<or> pf_tx_attempts a < 1 then Inl ''Attempt counts must be positive''
      else if dsn = None \<or> dsn = Some [] then Inl ''Set RDS_DATABASE_URL''
      else if host = None \<or> host = Some [] then Inl ''RDS_DATABASE_URL must include a host''
      else Inr ())"

record preflight_world =
  pw_dns :: "server_exc + nat"
  pw_tcp :: "nat \<Rightarrow> server_exc + rat"
  pw_connect :: "nat \<Rightarrow> server_exc + rat \<times> (server_exc + server_snapshot)"
  pw_session :: "server_exc + unit"
  pw_tx :: "nat \<Rightarrow> server_exc + rat"
  pw_expected :: "server_exc + (string \<times> string) list"
  pw_schema :: "server_exc + (string \<times> string) list \<times> string list \<times> string list"

record timing_summary =
  ti_minimum :: rat
  ti_median :: rat
  ti_p95 :: "rat option"
  ti_maximum :: rat

definition median :: "rat list \<Rightarrow> rat" where
  "median values =
     (let s = sort values; n = length s in if n mod 2 = 1 then s ! (n div 2) else (s ! (n div 2 - 1) + s ! (n div 2)) / 2)"

text \<open>\<open>min\<close> of nothing raises \<open>ValueError\<close>.\<close>

definition timing_of :: "rat list \<Rightarrow> server_exc + timing_summary" where
  "timing_of values =
     (if values = [] then Inl ValueError
      else Inr \<lparr>ti_minimum = hd (sort values), ti_median = median values, ti_p95 = rds_percentile values (95 / 100), ti_maximum = last (sort values)\<rparr>)"

fun collect :: "(server_exc + 'a) list \<Rightarrow> server_exc + 'a list" where
  "collect [] = Inr []"
| "collect (Inl e # xs) = Inl e"
| "collect (Inr x # xs) = (case collect xs of Inl e \<Rightarrow> Inl e | Inr ys \<Rightarrow> Inr (x # ys))"

text \<open>The connections: the snapshot is only read on the first one.\<close>

definition first_snapshot :: "(nat \<Rightarrow> server_exc + rat \<times> (server_exc + server_snapshot)) \<Rightarrow> nat \<Rightarrow> server_exc + rat" where
  "first_snapshot conn i =
     (case conn i of
        Inl e \<Rightarrow> Inl e
      | Inr (ms, snap) \<Rightarrow> if i = 0 then (case snap of Inl e \<Rightarrow> Inl e | Inr _ \<Rightarrow> Inr ms) else Inr ms)"

text \<open>The body of the \<open>try\<close>: the failures it had recorded, and how it ended.\<close>

definition server_phase :: "preflight_args \<Rightarrow> preflight_world \<Rightarrow> server_exc + server_snapshot" where
  "server_phase a W =
     (case pw_dns W of Inl e \<Rightarrow> Inl e
      | Inr _ \<Rightarrow>
     (case collect (map (pw_tcp W) [0..<nat (pf_attempts a)]) of Inl e \<Rightarrow> Inl e
      | Inr tcp \<Rightarrow>
     (case timing_of tcp of Inl e \<Rightarrow> Inl e
      | Inr _ \<Rightarrow>
     (case collect (map (first_snapshot (pw_connect W)) [0..<nat (pf_attempts a)]) of Inl e \<Rightarrow> Inl e
      | Inr connect \<Rightarrow>
     (case timing_of connect of Inl e \<Rightarrow> Inl e
      | Inr _ \<Rightarrow>
     (case pw_connect W 0 of Inr (_, Inr v) \<Rightarrow> Inr v | _ \<Rightarrow> Inl (OtherError ''TypeError'')))))))"

definition schema_phase :: "preflight_args \<Rightarrow> preflight_world \<Rightarrow> server_exc + string list" where
  "schema_phase a W =
     (case pw_session W of Inl e \<Rightarrow> Inl e
      | Inr _ \<Rightarrow>
     (case collect (map (pw_tx W) [0..<nat (pf_tx_attempts a)]) of Inl e \<Rightarrow> Inl e
      | Inr tx \<Rightarrow>
     (case timing_of tx of Inl e \<Rightarrow> Inl e
      | Inr _ \<Rightarrow>
     if \<not> pf_require_schema a then Inr []
     else (case pw_expected W of Inl e \<Rightarrow> Inl e
      | Inr expected \<Rightarrow>
     (case pw_schema W of Inl e \<Rightarrow> Inl e
      | Inr (actual, tables, indexes) \<Rightarrow> Inr (validate_schema actual expected tables indexes))))))"

definition preflight_body :: "preflight_args \<Rightarrow> preflight_world \<Rightarrow> string list \<times> server_exc option" where
  "preflight_body a W =
     (case server_phase a W of
        Inl e \<Rightarrow> ([], Some e)
      | Inr v \<Rightarrow>
          (let failures = validate_server v (pf_minimum_version a) (pf_minimum_connections a) (\<not> pf_allow_plaintext a) in
           case schema_phase a W of
             Inl e \<Rightarrow> (failures, Some e)
           | Inr extra \<Rightarrow> (failures @ extra, None)))"

text \<open>The exit status; \<open>Inl\<close> is an exception that no handler catches.\<close>

definition preflight_main :: "preflight_args \<Rightarrow> preflight_world \<Rightarrow> server_exc + string list \<times> int" where
  "preflight_main a W =
     (case preflight_body a W of
        (failures, None) \<Rightarrow> Inr (failures, if failures = [] then 0 else 1)
      | (failures, Some e) \<Rightarrow> if caught e then Inr (failures @ [''preflight_exception''], 1) else Inl e)"

section \<open>Facts\<close>

text \<open>The index is exactly that of the 95th percentile by rounding up, in spite of the added 0.999999.\<close>

lemma percentile_index_95: "percentile_index n (95 / 100) = nat \<lceil>of_nat (n - 1) * (95 / 100 :: rat)\<rceil>"
proof -
  define m where "m = n - 1"
  define q r where "q = 19 * m div 20" and "r = 19 * m mod 20"
  have qr: "19 * m = 20 * q + r" "r < 20" by (simp_all add: q_def r_def)
  have "of_nat m * (95 / 100 :: rat) = of_nat (19 * m) / 20" by simp
  then have eq: "of_nat m * (95 / 100 :: rat) = of_nat q + of_nat r / 20" unfolding qr(1) by (simp add: add_divide_distrib)
  have r: "(of_nat r :: rat) \<le> 19" using qr(2) by (simp add: of_nat_le_iff [of r 19, symmetric, where 'a = rat, simplified])
  show ?thesis
  proof (cases "r = 0")
    case True
    have "q \<le> m" using qr True by linarith
    have "\<lfloor>of_nat m * (95 / 100 :: rat) + 999999 / 1000000\<rfloor> = int q" unfolding eq by (rule floor_unique) (simp_all add: True)
    moreover have "\<lceil>of_nat m * (95 / 100 :: rat)\<rceil> = int q" unfolding eq by (simp add: True)
    ultimately show ?thesis using \<open>q \<le> m\<close> unfolding percentile_index_def m_def [symmetric] by simp
  next
    case False
    have "q + 1 \<le> m" using qr False by linarith
    have "1 \<le> (of_nat r :: rat)" using False by (simp add: Suc_leI)
    have "\<lfloor>of_nat m * (95 / 100 :: rat) + 999999 / 1000000\<rfloor> = int q + 1"
      unfolding eq by (rule floor_unique) (use r \<open>1 \<le> of_nat r\<close> in simp_all)
    moreover have "\<lceil>of_nat m * (95 / 100 :: rat)\<rceil> = int q + 1"
      unfolding eq by (rule ceiling_unique) (use r \<open>1 \<le> of_nat r\<close> in simp_all)
    ultimately show ?thesis using \<open>q + 1 \<le> m\<close> unfolding percentile_index_def m_def [symmetric] by (simp add: nat_add_distrib)
  qed
qed

lemma rds_percentile_member:
  assumes "values \<noteq> []"
  shows "\<exists>p \<in> set values. rds_percentile values fraction = Some p"
proof -
  have "length values - 1 < length values" using assms by simp
  then have "percentile_index (length values) fraction < length (sort values)" unfolding percentile_index_def by simp
  then have "sort values ! percentile_index (length values) fraction \<in> set (sort values)" by (rule nth_mem)
  then have "sort values ! percentile_index (length values) fraction \<in> set values" by (simp only: set_sort)
  then show ?thesis using assms by (simp add: rds_percentile_def)
qed

lemma collect_length: "collect xs = Inr ys \<Longrightarrow> length ys = length xs"
  by (induction xs arbitrary: ys rule: collect.induct) (auto split: sum.splits)

lemma collect_all: "collect xs = Inr ys \<Longrightarrow> x \<in> set xs \<Longrightarrow> \<not> isl x"
  by (induction xs arbitrary: ys rule: collect.induct) (auto split: sum.splits)

lemma timing_total: "0 < n \<Longrightarrow> collect (map f [0..<n]) = Inr ys \<Longrightarrow> \<exists>t. timing_of ys = Inr t"
  by (auto simp: timing_of_def dest!: collect_length)

lemma same_dict_iff: "same_dict a b \<longleftrightarrow> map_of a = map_of b"
proof
  assume same: "same_dict a b"
  show "map_of a = map_of b"
  proof
    fix k
    show "map_of a k = map_of b k"
    proof (cases "k \<in> set (map fst a @ map fst b)")
      case True
      then show ?thesis using same unfolding same_dict_def list_all_iff by blast
    next
      case False
      then have "map_of a k = None" "map_of b k = None" by (auto simp: map_of_eq_None_iff)
      then show ?thesis by simp
    qed
  qed
qed (simp add: same_dict_def list_all_iff)

text \<open>
  Fact.  The exit status 0 means that the server answered every attempt and meets every requirement and, when the
  schema is required, that the migrations are the expected ones and all required tables and indexes exist.
\<close>

theorem preflight_pass_means_ready:
  assumes "preflight_main a W = Inr (fs, 0)"
  shows "\<exists>v. server_phase a W = Inr v \<and> sv_version v \<ge> pf_minimum_version a * 10000 \<and> \<not> sv_recovery v \<and>
    sv_read_only v = ''off'' \<and> sv_encoding v = ''UTF8'' \<and> sv_max_connections v \<ge> pf_minimum_connections a \<and>
    (pf_allow_plaintext a \<or> sv_ssl v)"
    and "pf_require_schema a \<Longrightarrow> \<exists>expected actual tables indexes. pw_expected W = Inr expected \<and>
      pw_schema W = Inr (actual, tables, indexes) \<and> map_of actual = map_of expected \<and>
      set REQUIRED_TABLES \<subseteq> set tables \<and> set REQUIRED_INDEXES \<subseteq> set indexes"
proof -
  obtain failures where body: "preflight_body a W = (failures, None)" and none: "failures = []"
    using assms by (auto simp: preflight_main_def split: prod.splits option.splits if_splits)
  obtain v extra where v: "server_phase a W = Inr v" and extra: "schema_phase a W = Inr extra"
    and fs: "failures = validate_server v (pf_minimum_version a) (pf_minimum_connections a) (\<not> pf_allow_plaintext a) @ extra"
    using body by (auto simp: preflight_body_def Let_def split: sum.splits)
  show "\<exists>v. server_phase a W = Inr v \<and> sv_version v \<ge> pf_minimum_version a * 10000 \<and> \<not> sv_recovery v \<and>
    sv_read_only v = ''off'' \<and> sv_encoding v = ''UTF8'' \<and> sv_max_connections v \<ge> pf_minimum_connections a \<and>
    (pf_allow_plaintext a \<or> sv_ssl v)"
    using v fs none by (auto simp: validate_server_def split: if_splits)
  assume "pf_require_schema a"
  then obtain expected actual tables indexes where s: "pw_expected W = Inr expected" "pw_schema W = Inr (actual, tables, indexes)"
    and eq: "extra = validate_schema actual expected tables indexes"
    using extra by (auto simp: schema_phase_def split: sum.splits)
  have "validate_schema actual expected tables indexes = []" using eq fs none by simp
  then have "same_dict actual expected" "list_all (\<lambda>t. t \<in> set tables) REQUIRED_TABLES" "list_all (\<lambda>i. i \<in> set indexes) REQUIRED_INDEXES"
    unfolding validate_schema_def by (simp_all split: if_splits)
  then show "\<exists>expected actual tables indexes. pw_expected W = Inr expected \<and>
      pw_schema W = Inr (actual, tables, indexes) \<and> map_of actual = map_of expected \<and>
      set REQUIRED_TABLES \<subseteq> set tables \<and> set REQUIRED_INDEXES \<subseteq> set indexes"
    using s unfolding same_dict_iff list_all_iff by blast
qed

text \<open>
  Fact.  With valid arguments the preflight never fails for lack of measurements: when every attempt of the
  first phase is answered it has a snapshot, so an exception can only come from the resolver, a socket or the
  server.
\<close>

lemma server_phase_total:
  assumes "pf_attempts a \<ge> 1" and "pw_dns W = Inr n"
    and tcp: "collect (map (pw_tcp W) [0..<nat (pf_attempts a)]) = Inr ts"
    and conn: "collect (map (first_snapshot (pw_connect W)) [0..<nat (pf_attempts a)]) = Inr cs"
  shows "\<exists>v. server_phase a W = Inr v"
proof -
  have pos: "0 < nat (pf_attempts a)" using assms(1) by simp
  obtain t where "timing_of ts = Inr t" using timing_total [OF pos tcp] by blast
  moreover obtain c where "timing_of cs = Inr c" using timing_total [OF pos conn] by blast
  moreover have "\<not> isl (first_snapshot (pw_connect W) 0)" using collect_all [OF conn] pos by simp
  then obtain ms v where "pw_connect W 0 = Inr (ms, Inr v)" by (auto simp: first_snapshot_def split: sum.splits)
  ultimately show ?thesis using assms(2) tcp conn by (simp add: server_phase_def)
qed

end
