(* ===== verification/Schema_Typing.thy ===== *)
theory Schema_Typing
  imports System
begin

text \<open>
  The database as a typed store: \<open>schema_ok\<close> is every constraint that \<open>src/migrations/*.sql\<close> declares on the
  tables of the model (primary keys, \<open>UNIQUE\<close>, foreign keys, \<open>CHECK\<close>), and every history keeps it.  An
  \<open>INSERT\<close> of the model checks the constraints of its table; this theory shows that the \<open>UPDATE\<close>s, which
  mostly do not, never violate one either, and that no row ever loses the row it refers to.
\<close>

section \<open>The constraints\<close>

definition events_ok :: "db \<Rightarrow> bool" where
  "events_ok d \<longleftrightarrow> distinct (map ev_id (events d)) \<and>
     list_all (\<lambda>e. length (ev_currency e) = 3 \<and> ev_sale_starts e < ev_sale_ends e) (events d)"

definition holds_ok :: "db \<Rightarrow> bool" where
  "holds_ok d \<longleftrightarrow> distinct (map h_id (holds d)) \<and> list_all (\<lambda>h. h_event h \<in> ev_id ` set (events d)) (holds d)"

definition orders_ok :: "db \<Rightarrow> bool" where
  "orders_ok d \<longleftrightarrow> distinct (map o_id (orders d)) \<and> distinct (map o_hold (orders d)) \<and>
     list_all (\<lambda>r. o_hold r \<in> h_id ` set (holds d) \<and> o_event r \<in> ev_id ` set (events d) \<and> 0 \<le> o_total r) (orders d)"

definition seats_ok :: "db \<Rightarrow> bool" where
  "seats_ok d \<longleftrightarrow> distinct (map seat_key (event_seats d)) \<and>
     list_all (\<lambda>s. s_event s \<in> ev_id ` set (events d) \<and> 0 \<le> s_price s \<and> seat_check s \<and> seat_refs d s) (event_seats d)"

definition items_ok :: "db \<Rightarrow> bool" where
  "items_ok d \<longleftrightarrow> distinct (map item_key (order_items d)) \<and>
     list_all (\<lambda>i. i_order i \<in> o_id ` set (orders d) \<and> item_seat i \<in> seat_key ` set (event_seats d)) (order_items d)"

definition bookings_ok :: "db \<Rightarrow> bool" where
  "bookings_ok d \<longleftrightarrow> distinct (map b_id (bookings d)) \<and> distinct (map booking_key (bookings d)) \<and>
     list_all (\<lambda>b. b_order b \<in> o_id ` set (orders d) \<and> booking_key b \<in> seat_key ` set (event_seats d)) (bookings d)"

definition payments_ok :: "db \<Rightarrow> bool" where
  "payments_ok d \<longleftrightarrow> distinct (map p_id (payment_attempts d)) \<and> distinct (map p_order (payment_attempts d)) \<and>
     list_all (\<lambda>p. p_order p \<in> o_id ` set (orders d) \<and> 1 \<le> p_target p \<and> p_target p \<le> 10) (payment_attempts d) \<and>
     distinct (map c_id (payment_callbacks d)) \<and>
     list_all (\<lambda>c. c_payment c \<in> p_id ` set (payment_attempts d)) (payment_callbacks d) \<and>
     distinct (map r_payment (refund_requests d)) \<and>
     list_all (\<lambda>q. r_payment q \<in> p_id ` set (payment_attempts d) \<and> r_order q \<in> o_id ` set (orders d)) (refund_requests d)"

definition messages_ok :: "db \<Rightarrow> bool" where
  "messages_ok d \<longleftrightarrow> distinct (map x_id (outbox_events d)) \<and> distinct (consumer_inbox d) \<and>
     distinct (map d_id (dead_letters d)) \<and> distinct (map idem_key (idempotency_records d))"

definition tickets_ok :: "db \<Rightarrow> bool" where
  "tickets_ok d \<longleftrightarrow> distinct (map t_id (tickets d)) \<and> distinct (map t_booking (tickets d)) \<and>
     list_all (\<lambda>t. t_booking t \<in> b_id ` set (bookings d)) (tickets d)"

definition refresh_ok :: "db \<Rightarrow> bool" where
  "refresh_ok d \<longleftrightarrow> distinct (map f_event (seat_refresh_requests d)) \<and>
     list_all (\<lambda>f. f_event f \<in> ev_id ` set (events d) \<and> 0 < f_generation f \<and> 0 \<le> f_completed f \<and>
       f_completed f \<le> f_generation f) (seat_refresh_requests d)"

definition schedule_ok :: "db \<Rightarrow> bool" where
  "schedule_ok d \<longleftrightarrow> distinct (map q_event (event_reconciliation d)) \<and>
     list_all (\<lambda>q. q_event q \<in> ev_id ` set (events d) \<and> (q_lease_until q = None \<longleftrightarrow> q_lease_token q = None))
       (event_reconciliation d)"

definition commands_ok :: "db \<Rightarrow> bool" where
  "commands_ok d \<longleftrightarrow> distinct (map m_id (reservation_commands d)) \<and> distinct (map m_hold (reservation_commands d)) \<and>
     distinct (map m_order (reservation_commands d)) \<and>
     list_all (\<lambda>m. m_event m \<in> ev_id ` set (events d)) (reservation_commands d)"

definition schema_ok :: "db \<Rightarrow> bool" where
  "schema_ok d \<longleftrightarrow> events_ok d \<and> holds_ok d \<and> orders_ok d \<and> seats_ok d \<and> items_ok d \<and> bookings_ok d \<and> payments_ok d \<and>
     messages_ok d \<and> tickets_ok d \<and> refresh_ok d \<and> schedule_ok d \<and> commands_ok d"

section \<open>What the store's invariant does not say\<close>

definition sale_ok :: "db \<Rightarrow> bool" where
  "sale_ok d \<longleftrightarrow> (\<forall>r\<in>set (orders d). o_event r \<in> ev_id ` set (events d) \<and> 0 \<le> o_total r) \<and>
     (\<forall>s\<in>set (event_seats d). s_event s \<in> ev_id ` set (events d) \<and> 0 \<le> s_price s) \<and>
     (\<forall>p\<in>set (payment_attempts d). 1 \<le> p_target p \<and> p_target p \<le> 10) \<and>
     (\<forall>c\<in>set (payment_callbacks d). c_payment c \<in> p_id ` set (payment_attempts d))"

definition queues_ok :: "db \<Rightarrow> bool" where
  "queues_ok d \<longleftrightarrow> distinct (consumer_inbox d) \<and> distinct (map d_id (dead_letters d)) \<and> refresh_ok d \<and> schedule_ok d \<and> commands_ok d"

definition rest_ok :: "db \<Rightarrow> bool" where
  "rest_ok d \<longleftrightarrow> events_ok d \<and> sale_ok d \<and> queues_ok d"

lemmas queue_defs = queues_ok_def refresh_ok_def schedule_ok_def commands_ok_def

lemma schema_rest: "schema_ok d \<Longrightarrow> rest_ok d"
  by (auto simp: schema_ok_def rest_ok_def sale_ok_def queues_ok_def orders_ok_def seats_ok_def payments_ok_def messages_ok_def list_all_iff)

text \<open>A hold has an order, so it belongs to an event because its order does.\<close>

lemma hold_event:
  assumes core: "core_inv d" and sale: "sale_ok d" and h: "h \<in> set (holds d)"
  shows "h_event h \<in> ev_id ` set (events d)"
proof -
  obtain r where r: "r \<in> set (orders d)" "o_hold r = h_id h" using core h by (force simp: core_inv_def order_inv_def)
  obtain h' where "h' \<in> set (holds d)" "h_id h' = o_hold r" "h_event h' = o_event r" using order_hold [OF core r(1)] by metis
  then have "h_event h = o_event r" using hold_unique [OF core h] r(2) by metis
  then show ?thesis using sale r(1) by (simp add: sale_ok_def)
qed

lemma booking_refs:
  assumes core: "core_inv d" and b: "b \<in> set (bookings d)"
  shows "b_order b \<in> o_id ` set (orders d)" and "booking_key b \<in> seat_key ` set (event_seats d)"
proof -
  have "(b_order b, b_event b, b_seat b) \<in> item_triples d"
    using core b by (auto simp: core_inv_def booking_inv_def booking_triples_def)
  then obtain i where i: "i \<in> set (order_items d)" "i_order i = b_order b" "i_event i = b_event b" "i_seat i = b_seat b"
    by (auto simp: item_triples_def)
  show "b_order b \<in> o_id ` set (orders d)" using item_order [OF core i(1)] i(2) by simp
  have "item_seat i \<in> seat_key ` set (event_seats d)" using core i(1) by (simp add: core_inv_def item_inv_def)
  then show "booking_key b \<in> seat_key ` set (event_seats d)" using i by (simp add: item_seat_def booking_key_def)
qed

lemma seat_refs_ok:
  assumes core: "core_inv d" and s: "s \<in> set (event_seats d)"
  shows "seat_refs d s"
proof -
  have ok: "seat_ok d s" using core s by (simp add: core_inv_def seat_inv_def)
  have "oid \<in> o_id ` set (orders d)" if "s_booked s = Some oid" for oid
  proof -
    have "(oid, s_event s, s_id s) \<in> booking_triples d" using core s that by (simp add: core_inv_def booking_inv_def)
    then show ?thesis using booking_refs(1) [OF core] by (auto simp: booking_triples_def)
  qed
  then show ?thesis using ok by (auto simp: seat_refs_def seat_ok_def split: option.splits)
qed

lemma rest_schema:
  assumes inv: "store_inv d" and rest: "rest_ok d"
  shows "schema_ok d"
proof -
  have core: "core_inv d" and pay: "pay_inv d" and ev: "event_inv d" and ti: "ticket_inv d" and ide: "idem_inv d"
    using inv by (simp_all add: store_inv_def)
  have sale: "sale_ok d" and q: "queues_ok d" and evs: "events_ok d" using rest by (simp_all add: rest_ok_def)
  have keys: "keys_inv d" using core by (simp add: core_inv_def)
  have "holds_ok d" using keys hold_event [OF core sale] by (simp add: holds_ok_def keys_inv_def list_all_iff)
  moreover have "o_hold r \<in> h_id ` set (holds d)" if "r \<in> set (orders d)" for r
    using order_hold [OF core that] by (metis imageI)
  then have "orders_ok d" using keys sale by (simp add: orders_ok_def keys_inv_def sale_ok_def list_all_iff)
  moreover have "seat_check s" if "s \<in> set (event_seats d)" for s using core that by (simp add: core_inv_def seat_inv_def seat_ok_def)
  then have "seats_ok d" using keys sale seat_refs_ok [OF core] by (simp add: seats_ok_def keys_inv_def sale_ok_def list_all_iff)
  moreover have "items_ok d"
    using keys item_order [OF core] core by (simp add: items_ok_def keys_inv_def core_inv_def item_inv_def list_all_iff)
  moreover have "bookings_ok d" using keys booking_refs [OF core] by (simp add: bookings_ok_def keys_inv_def list_all_iff)
  moreover have "r_payment x \<in> p_id ` set (payment_attempts d) \<and> r_order x \<in> o_id ` set (orders d)" if "x \<in> set (refund_requests d)" for x
    using pay_invD(7) [OF pay that] pay_invD(4) [OF pay] by force
  then have "payments_ok d" using pay_invD(1-4,8) [OF pay] sale by (auto simp: payments_ok_def sale_ok_def list_all_iff)
  moreover have "messages_ok d" using ev ide q by (simp add: messages_ok_def event_inv_def idem_inv_def queues_ok_def)
  moreover have "tickets_ok d" using ti by (auto simp: tickets_ok_def ticket_inv_def list_all_iff)
  ultimately show ?thesis using evs q by (simp add: schema_ok_def queues_ok_def)
qed

section \<open>Every write keeps the constraints\<close>

text \<open>\<open>rest_ok\<close> only looks at these tables.\<close>

lemma rest_cong:
  assumes "events d' = events d" "orders d' = orders d" "event_seats d' = event_seats d" "payment_attempts d' = payment_attempts d"
    "payment_callbacks d' = payment_callbacks d" "consumer_inbox d' = consumer_inbox d" "dead_letters d' = dead_letters d"
    "seat_refresh_requests d' = seat_refresh_requests d" "event_reconciliation d' = event_reconciliation d"
    "reservation_commands d' = reservation_commands d"
  shows "rest_ok d' = rest_ok d"
  by (simp add: rest_ok_def events_ok_def sale_ok_def queue_defs assms)

lemma rest_sale:
  assumes "rest_ok d" and "sale_ok d'" and "events d' = events d" "consumer_inbox d' = consumer_inbox d" "dead_letters d' = dead_letters d"
    "seat_refresh_requests d' = seat_refresh_requests d" "event_reconciliation d' = event_reconciliation d"
    "reservation_commands d' = reservation_commands d"
  shows "rest_ok d'"
  using assms by (simp add: rest_ok_def events_ok_def queue_defs)

lemma rest_queue:
  assumes "rest_ok d" and "queues_ok d'" and "events d' = events d" "orders d' = orders d" "event_seats d' = event_seats d"
    "payment_attempts d' = payment_attempts d" "payment_callbacks d' = payment_callbacks d"
  shows "rest_ok d'"
  using assms by (simp add: rest_ok_def events_ok_def sale_ok_def)

lemma seat_change_row [simp]:
  "s_event (take_seat h t s) = s_event s" "s_price (take_seat h t s) = s_price s"
  "s_event (free_seat s) = s_event s" "s_price (free_seat s) = s_price s"
  "s_event (sell_seat oid s) = s_event s" "s_price (sell_seat oid s) = s_price s"
  by (simp_all add: seat_change_defs)

lemma create_hold_rest:
  assumes "rest_ok d" and "create_hold E n actor ev cur hold order expires rows ids d = Inr d'"
  shows "rest_ok d'"
proof -
  note eff = create_hold_effect [OF assms(2)]
  have sale: "sale_ok d" using assms(1) by (simp add: rest_ok_def)
  show ?thesis
  proof (rule rest_sale [OF assms(1)])
    show "sale_ok d'" using sale eff(3,7) by (auto simp: eff(1) sale_ok_def new_order_def set_upd_where)
  qed (simp_all add: eff(1))
qed

lemma release_order_rest:
  assumes "rest_ok d" and "release_order E n order state d = Inr d'"
  shows "rest_ok d'"
proof -
  note eff = release_order_effect(1) [OF assms(2)]
  have sale: "sale_ok d" using assms(1) by (simp add: rest_ok_def)
  show ?thesis
  proof (rule rest_sale [OF assms(1)])
    show "sale_ok d'" using sale by (auto simp: eff sale_ok_def set_upd_where)
  qed (simp_all add: eff)
qed

lemma book_order_rest:
  assumes "rest_ok d" and "book_order E order hold rows d = Inr d'"
  shows "rest_ok d'"
proof -
  note eff = book_order_effect(1) [OF assms(2)]
  have sale: "sale_ok d" using assms(1) by (simp add: rest_ok_def)
  show ?thesis
  proof (rule rest_sale [OF assms(1)])
    show "sale_ok d'" using sale by (auto simp: eff sale_ok_def set_upd_where)
  qed (simp_all add: eff)
qed

lemma order_status_rest:
  assumes "rest_ok d" and "\<And>r. o_event (f r) = o_event r \<and> o_total (f r) = o_total r"
  shows "rest_ok (d\<lparr>orders := upd_where P f (orders d)\<rparr>)"
  by (rule rest_sale [OF assms(1)]) (use assms in \<open>auto simp: rest_ok_def sale_ok_def set_upd_where\<close>)

lemma payment_rest:
  assumes "rest_ok d" and "\<And>p. p_id (f p) = p_id p \<and> p_target (f p) = p_target p"
  shows "rest_ok (d\<lparr>payment_attempts := upd_where P f (payment_attempts d)\<rparr>)"
proof (rule rest_sale [OF assms(1)])
  have "p_id ` set (upd_where P f (payment_attempts d)) = p_id ` set (payment_attempts d)"
    by (rule image_upd_where) (simp add: assms(2))
  then show "sale_ok (d\<lparr>payment_attempts := upd_where P f (payment_attempts d)\<rparr>)"
    using assms by (auto simp: rest_ok_def sale_ok_def set_upd_where)
qed simp_all

lemma event_rest: "rest_ok d \<Longrightarrow> event E n agg kind payload d = Inr d' \<Longrightarrow> rest_ok d'"
  using rest_cong [of d' d] by (simp add: event_Inr)

lemma idem_rest: "rest_ok d \<Longrightarrow> idem E actor op key req d = Inr (r, d1) \<Longrightarrow> rest_ok d1"
  using rest_cong [of d1 d] by (auto elim!: idem_cases)

lemma remember_rest: "rest_ok d \<Longrightarrow> rest_ok (remember a op k r d)"
  using rest_cong [of "remember a op k r d" d] by (simp add: remember_def)

lemma insert_payment_rest:
  assumes "rest_ok d" and "insert_payment p d = Inr d'"
  shows "rest_ok d'"
  by (rule rest_sale [OF assms(1)]) (use assms(1) insert_payment_effect [OF assms(2)] in \<open>auto simp: rest_ok_def sale_ok_def\<close>)

lemma insert_callback_rest:
  assumes "rest_ok d" and "insert_callback c d = Inr d'"
  shows "rest_ok d'"
  by (rule rest_sale [OF assms(1)]) (use assms in \<open>auto simp: rest_ok_def sale_ok_def insert_callback_def split: if_splits\<close>)

lemma insert_command_rest:
  assumes "rest_ok d" and "insert_command c d = Inr d'"
  shows "rest_ok d'"
  by (rule rest_queue [OF assms(1)]) (use assms in \<open>auto simp: rest_ok_def queue_defs insert_command_def split: if_splits\<close>)

lemma close_order_rest:
  assumes "rest_ok d" and "close_order E order pid refund d = Inr d'"
  shows "rest_ok d'"
proof (cases refund)
  case True
  then have c: "close_order E order pid True d = Inr d'" using assms(2) by simp
  obtain d1 d2 where rel: "release_order E 0 order H_EXPIRED d = Inr d1"
    and i: "insert_refund \<lparr>r_payment = pid, r_order = o_id order, r_status = R_PENDING\<rparr>
        (d1\<lparr>orders := upd_where (\<lambda>r. o_id r = o_id order) (\<lambda>r. r\<lparr>o_status := O_REFUND_PENDING\<rparr>) (orders d1)\<rparr>) = Inr d2"
    and e: "event E 1 (o_id order) ''RefundRequested'' (JObj [(''payment_id'', JStr pid), (''order_id'', JStr (o_id order))]) d2 = Inr d'"
    using close_order_refund [OF c] by blast
  define d0 where "d0 = d1\<lparr>orders := upd_where (\<lambda>r. o_id r = o_id order) (\<lambda>r. r\<lparr>o_status := O_REFUND_PENDING\<rparr>) (orders d1)\<rparr>"
  have "rest_ok d0" unfolding d0_def by (rule order_status_rest [OF release_order_rest [OF assms(1) rel]]) simp
  moreover have "rest_ok d2 = rest_ok d0"
    by (rule rest_cong) (use i in \<open>auto simp: d0_def [symmetric] insert_refund_def split: if_splits\<close>)
  ultimately show ?thesis using event_rest [OF _ e] by simp
next
  case False
  then have c: "close_order E order pid False d = Inr d'" using assms(2) by simp
  obtain d1 where rel: "release_order E 0 order H_RELEASED d = Inr d1"
    and d': "d' = d1\<lparr>orders := upd_where (\<lambda>r. o_id r = o_id order) (\<lambda>r. r\<lparr>o_status := O_FAILED\<rparr>) (orders d1)\<rparr>"
    using close_order_failed [OF c] by blast
  show ?thesis unfolding d' by (rule order_status_rest [OF release_order_rest [OF assms(1) rel]]) simp
qed

lemma settle_rest:
  assumes rest: "rest_ok d" and s: "settle E cb order payment d = Inr (st, d')"
  shows "rest_ok d'"
proof -
  let ?d0 = "set_payment_status (p_id payment) (cb_outcome cb) d"
  obtain valid d1 where
    c: "(case payment_decision (o_status order) valid (cb_outcome cb) of
         D_BOOK \<Rightarrow> ebind (not_none (find_hold (o_hold order) d)) (\<lambda>h. book_order E order (h_id h) (order_seats (o_id order) d) ?d0)
       | D_REFUND \<Rightarrow> close_order E order (p_id payment) True ?d0
       | D_FAILED \<Rightarrow> close_order E order (p_id payment) False ?d0
       | D_UNCHANGED \<Rightarrow> Inr ?d0) = Inr d1"
    and e: "event E 2 (o_id order) ''SeatsChanged''
        (seats_payload (o_event order) (map s_id (order_seats (o_id order) d))) d1 = Inr d'"
    using settle_decision [OF s] by blast
  have "rest_ok ?d0" unfolding set_payment_status_def by (rule payment_rest [OF rest]) simp
  then have "rest_ok d1"
    using c by (cases "payment_decision (o_status order) valid (cb_outcome cb)")
      (auto simp: ebind_Inr_iff intro: book_order_rest close_order_rest)
  then show ?thesis using e by (rule event_rest)
qed

section \<open>Every transaction keeps the constraints\<close>

lemma reserve_tx_rest: "rest_ok d \<Longrightarrow> reserve_tx E hs actor ev ids key d = Inr (r, d') \<Longrightarrow> rest_ok d'"
  by (erule reserve_tx_cases) (auto intro: idem_rest create_hold_rest remember_rest)

lemma persist_tx_rest:
  assumes "rest_ok d" and "persist_tx E p response d = Inr (r, d')"
  shows "rest_ok d'"
  using assms(2)
proof (cases rule: persist_tx_cases)
  case known
  then show ?thesis using assms(1) by simp
next
  case replay
  show ?thesis by (rule idem_rest [OF assms(1) replay(2)])
next
  case (created sale d1 d2)
  have "rest_ok d2" by (rule create_hold_rest [OF idem_rest [OF assms(1) created(2)] created(9)])
  then show ?thesis by (rule insert_command_rest [OF remember_rest created(11)])
qed

lemma checkout_tx_rest: "rest_ok d \<Longrightarrow> checkout_tx E actor hold_id key d = Inr (r, d') \<Longrightarrow> rest_ok d'"
  by (erule checkout_tx_cases) (auto intro: idem_rest remember_rest)

lemma initiate_payment_tx_rest:
  "rest_ok d \<Longrightarrow> initiate_payment_tx E actor oid key oc delay dup d = Inr (r, d') \<Longrightarrow> rest_ok d'"
  by (erule initiate_payment_tx_cases) (auto intro: idem_rest insert_payment_rest remember_rest)

lemma release_tx_rest: "rest_ok d \<Longrightarrow> release_tx E actor hold_id d = Inr (r, d') \<Longrightarrow> rest_ok d'"
  by (erule release_tx_success) (rule release_order_rest)

lemma release_all_rest: "rest_ok d \<Longrightarrow> release_all E n rs d = Inr d' \<Longrightarrow> rest_ok d'"
  by (induction rs arbitrary: n d) (auto simp: ebind_Inr_iff dest: release_order_rest)

lemma expire_tx_rest: "rest_ok d \<Longrightarrow> expire_tx E limit d = Inr (n, d') \<Longrightarrow> rest_ok d'"
  by (auto simp: expire_tx_Inr intro: release_all_rest)

lemma callback_tx_rest: "rest_ok d \<Longrightarrow> callback_tx E p d = Inr (st, d') \<Longrightarrow> rest_ok d'"
  by (erule callback_tx_cases) (auto intro: insert_callback_rest settle_rest)

text \<open>An update of the refresh queue that keeps the events and the order of the generations.\<close>

definition generations_ok :: "refresh_row \<Rightarrow> bool" where
  "generations_ok f \<longleftrightarrow> 0 < f_generation f \<and> 0 \<le> f_completed f \<and> f_completed f \<le> f_generation f"

lemma refresh_ok_iff:
  "refresh_ok d \<longleftrightarrow> distinct (map f_event (seat_refresh_requests d)) \<and>
     (\<forall>f\<in>set (seat_refresh_requests d). f_event f \<in> ev_id ` set (events d) \<and> generations_ok f)"
  by (simp add: refresh_ok_def generations_ok_def list_all_iff)

lemma refresh_update_rest:
  assumes rest: "rest_ok d" and ev: "\<And>r. f_event (f r) = f_event r"
    and gen: "\<And>r. r \<in> set (seat_refresh_requests d) \<Longrightarrow> P r \<Longrightarrow> generations_ok r \<Longrightarrow> generations_ok (f r)"
  shows "rest_ok (d\<lparr>seat_refresh_requests := upd_where P f (seat_refresh_requests d)\<rparr>)" (is "rest_ok ?d'")
proof (rule rest_queue [OF rest])
  have q: "queues_ok d" using rest by (simp add: rest_ok_def)
  have "map f_event (upd_where P f (seat_refresh_requests d)) = map f_event (seat_refresh_requests d)"
    by (rule upd_where_cong_key) (rule ev)
  then have "refresh_ok ?d'" using q gen unfolding queues_ok_def refresh_ok_iff by (simp add: ball_upd_where ev)
  then show "queues_ok ?d'" using q by (simp add: queues_ok_def schedule_ok_def commands_ok_def)
qed simp_all

lemma request_refresh_rest:
  assumes "rest_ok d" and "request_refresh E e ids d = Inr d'"
  shows "rest_ok d'"
proof (cases "e \<in> f_event ` set (seat_refresh_requests d)")
  case True
  then have "d' = d\<lparr>seat_refresh_requests := upd_where (\<lambda>r. f_event r = e) (merge_request (e_now E) ids) (seat_refresh_requests d)\<rparr>"
    using assms(2) by (simp add: request_refresh_def split: if_splits)
  then show ?thesis using refresh_update_rest [OF assms(1)] by (simp add: merge_request_def generations_ok_def)
next
  case False
  show ?thesis
    by (rule rest_queue [OF assms(1)]) (use assms False in \<open>auto simp: request_refresh_def rest_ok_def queue_defs split: if_splits\<close>)
qed

lemma insert_tickets_rest: "insert_tickets E n bs d = Inr d' \<Longrightarrow> rest_ok d \<Longrightarrow> rest_ok d'"
proof (induction E n bs d rule: insert_tickets.induct)
  case (2 E n b bs d)
  then obtain d1 where d1: "insert_ticket \<lparr>t_id = e_uuid E n, t_booking = b_id b\<rparr> d = Inr d1" "insert_tickets E (Suc n) bs d1 = Inr d'"
    by (auto simp: ebind_Inr_iff)
  have "rest_ok d1 = rest_ok d" by (rule rest_cong) (use d1(1) in \<open>auto simp: insert_ticket_def split: if_splits\<close>)
  then show ?case using "2.IH" [OF d1] "2.prems"(2) by simp
qed simp

lemma issue_tickets_rest:
  assumes "rest_ok d" and "issue_tickets E data d = Inr d'"
  shows "rest_ok d'"
  using assms(2)
proof (rule issue_tickets_success)
  fix order d1
  assume t: "insert_tickets E 1 (filter (\<lambda>b. b_order b = o_id order) (bookings d)) d = Inr d1"
    and e: "event E 0 (o_id order) ''TicketsIssued'' (JObj [(''order_id'', JStr (o_id order))])
       (d1\<lparr>orders := upd_where (\<lambda>r. o_id r = o_id order) (\<lambda>r. r\<lparr>o_status := O_FULFILLED\<rparr>) (orders d1)\<rparr>) = Inr d'"
  show ?thesis
    by (rule event_rest [OF order_status_rest e]) (simp_all add: insert_tickets_rest [OF t assms(1)])
qed

lemma settle_refund_rest:
  assumes "rest_ok d" and "settle_refund E data d = Inr d'"
  shows "rest_ok d'"
proof -
  obtain rs P where d': "d' = d\<lparr>refund_requests := rs, orders := upd_where P (\<lambda>r. r\<lparr>o_status := O_REFUNDED\<rparr>) (orders d)\<rparr>"
    using assms(2) by (auto simp: settle_refund_def ebind_Inr_iff)
  show ?thesis by (rule rest_sale [OF assms(1)]) (use assms(1) in \<open>auto simp: d' rest_ok_def sale_ok_def set_upd_where\<close>)
qed

lemma handle_event_rest:
  assumes "rest_ok d" and "handle_event E kind data d = Inr d'"
  shows "rest_ok d'"
proof -
  have "rest_ok d'" if "note_seats E data d = Inr d'"
    using note_seats_request [OF that] by (auto intro: request_refresh_rest [OF assms(1)])
  moreover have "rest_ok d'" if "issue_tickets E data d = Inr d'" by (rule issue_tickets_rest [OF assms(1) that])
  moreover have "rest_ok d'" if "settle_refund E data d = Inr d'" by (rule settle_refund_rest [OF assms(1) that])
  ultimately show ?thesis using assms by (auto simp: handle_event_def split: if_splits)
qed

lemma consume_tx_rest:
  assumes "rest_ok d" and "consume_tx E envelope kind data d = Inr (u, d')"
  shows "rest_ok d'"
proof (cases "d' = d")
  case False
  then obtain i where i: "(''fulfillment'', i) \<notin> set (consumer_inbox d)"
    and h: "handle_event E kind data (d\<lparr>consumer_inbox := consumer_inbox d @ [(''fulfillment'', i)]\<rparr>) = Inr d'"
    using assms(2) by (auto simp: consume_tx_def ebind_Inr_iff split: if_splits)
  have "rest_ok (d\<lparr>consumer_inbox := consumer_inbox d @ [(''fulfillment'', i)]\<rparr>)"
    by (rule rest_queue [OF assms(1)]) (use assms(1) i in \<open>auto simp: rest_ok_def queue_defs\<close>)
  then show ?thesis using h by (rule handle_event_rest)
qed (use assms(1) in simp)

lemma transaction_rest:
  assumes "rest_ok d" and "transaction body d = (r, d')" and "\<And>x d1. body d = Inr (x, d1) \<Longrightarrow> rest_ok d1"
  shows "rest_ok d'"
  using assms by (cases rule: transaction_cases [of body d]) auto

text \<open>The queues: leases, refresh requests, the schedule and dead letters.\<close>

lemma claim_refresh_rest:
  assumes "rest_ok d" and "claim_refresh E token n d = Inr (rows, d')"
  shows "rest_ok d'"
proof (cases "refresh_due E n d = []")
  case True
  then show ?thesis using assms by (simp add: claim_refresh_def)
next
  case False
  then have d': "d' = d\<lparr>seat_refresh_requests := upd_where (\<lambda>r. f_event r \<in> f_event ` set (refresh_due E n d))
      (\<lambda>r. r\<lparr>f_lease_token := Some token, f_lease_until := Some (e_now E + 30 * 1000000)\<rparr>) (seat_refresh_requests d)\<rparr>"
    using assms(2) by (auto simp: claim_refresh_def Let_def)
  show ?thesis unfolding d' by (rule refresh_update_rest [OF assms(1)]) (simp_all add: generations_ok_def)
qed

lemma complete_row_rest:
  assumes "rest_ok d" and "complete_row E token c t row d = Inr d'"
  shows "rest_ok d'"
proof -
  let ?P = "\<lambda>r. f_event r = f_event row \<and> f_lease_token r = Some token"
  have d': "d' = d\<lparr>seat_refresh_requests := upd_where ?P (finish_row E c t row) (seat_refresh_requests d)\<rparr>"
    and ok: "\<not> list_ex (\<lambda>r. ?P r \<and> (f_generation row > f_generation r \<or> f_generation row < 0)) (seat_refresh_requests d)"
    using assms(2) by (simp_all add: complete_row_def split: if_splits)
  show ?thesis
    unfolding d'
  proof (rule refresh_update_rest [OF assms(1)])
    fix r assume "r \<in> set (seat_refresh_requests d)" "?P r" "generations_ok r"
    then show "generations_ok (finish_row E c t row r)" using ok by (auto simp: list_ex_iff generations_ok_def finish_row_def)
  qed (simp add: finish_row_def)
qed

lemma complete_rows_rest: "complete_rows E token c t rows d = Inr (u, d') \<Longrightarrow> rest_ok d \<Longrightarrow> rest_ok d'"
  by (induction E token c t rows d rule: complete_rows.induct) (auto simp: ebind_Inr_iff dest: complete_row_rest)

text \<open>An update of the schedule that keeps the events and the pairing of the leases.\<close>

lemma schedule_update_rest:
  assumes "rest_ok d" and "\<And>q. q_event (f q) = q_event q"
    and "\<And>q. q_lease_until (f q) = None \<longleftrightarrow> q_lease_token (f q) = None"
  shows "rest_ok (d\<lparr>event_reconciliation := upd_where P f (event_reconciliation d)\<rparr>)"
proof (rule rest_queue [OF assms(1)])
  have "map q_event (upd_where P f (event_reconciliation d)) = map q_event (event_reconciliation d)"
    by (rule upd_where_cong_key) (rule assms(2))
  then show "queues_ok (d\<lparr>event_reconciliation := upd_where P f (event_reconciliation d)\<rparr>)"
    using assms by (auto simp: rest_ok_def queue_defs list_all_iff set_upd_where)
qed simp_all

lemma seeding_mem: "e \<in> set (seeding S now d) \<Longrightarrow> e \<in> set (events d) \<and> ev_id e \<notin> q_event ` set (event_reconciliation d)"
  by (auto simp: seeding_def dest!: in_set_takeD)

lemma distinct_seeding:
  assumes "distinct (map ev_id (events d))"
  shows "distinct (map ev_id (seeding S now d))"
proof -
  have "distinct (map ev_id (sort_key g (filter Q (events d))))" for g :: "event_row \<Rightarrow> time" and Q
    using distinct_map_filter [OF assms, of Q] by (simp add: distinct_map)
  then show ?thesis by (simp add: seeding_def take_map [symmetric])
qed

lemma seed_schedule_rest:
  assumes "rest_ok d"
  shows "rest_ok (seed_schedule S now d)"
proof (rule rest_queue [OF assms])
  have "distinct (map ev_id (seeding S now d))" using assms by (auto simp: rest_ok_def events_ok_def intro: distinct_seeding)
  then have "distinct (map q_event (map (seed_row now) (seeding S now d)))" by (simp add: seed_row_def o_def)
  moreover have "set (map q_event (event_reconciliation d)) \<inter> set (map q_event (map (seed_row now) (seeding S now d))) = {}"
    using seeding_mem [of _ S now d] by (auto simp: seed_row_def) (metis imageI)
  moreover have "q_event q \<in> ev_id ` set (events d) \<and> q_lease_until q = None \<and> q_lease_token q = None"
    if "q \<in> set (map (seed_row now) (seeding S now d))" for q
    using that seeding_mem [of _ S now d] by (auto simp: seed_row_def)
  moreover have "schedule_ok d" using assms by (simp add: rest_ok_def queues_ok_def)
  moreover have "event_reconciliation (seed_schedule S now d) = event_reconciliation d @ map (seed_row now) (seeding S now d)"
    "events (seed_schedule S now d) = events d" by (simp_all add: seed_schedule_def)
  ultimately have "schedule_ok (seed_schedule S now d)"
    unfolding schedule_ok_def list_all_iff by (simp only: map_append distinct_append set_append ball_Un simp_thms) simp
  then show "queues_ok (seed_schedule S now d)"
    using assms by (simp add: rest_ok_def queues_ok_def refresh_ok_def commands_ok_def seed_schedule_def)
qed (simp_all add: seed_schedule_def)

lemma prune_schedule_rest:
  assumes "rest_ok d"
  shows "rest_ok (prune_schedule E S d)"
  by (rule rest_queue [OF assms]) (use assms in \<open>auto simp: prune_schedule_def rest_ok_def queue_defs list_all_iff intro: distinct_map_filter\<close>)

lemma maintain_schedule_rest: "rest_ok d \<Longrightarrow> maintain_schedule E S d = (r, d') \<Longrightarrow> rest_ok d'"
  by (drule maintain_schedule_result(1)) (simp add: prune_schedule_rest seed_schedule_rest)

lemma claim_due_rest:
  assumes "rest_ok d" and "claim_due_events E S d = (r, d')"
  shows "rest_ok d'"
proof (cases "due_rows E S d = []")
  case True
  then show ?thesis using assms by (simp add: claim_due_events_def claim_due_tx_def transaction_def)
next
  case False
  then show ?thesis using assms
    by (auto simp: claim_due_events_def claim_due_tx_def transaction_def Let_def intro!: schedule_update_rest)
qed

lemma settle_schedule_rest:
  "rest_ok d \<Longrightarrow> complete_reconciliation E S ev token d = (r1, d') \<Longrightarrow> rest_ok d'"
  "rest_ok d \<Longrightarrow> defer_reconciliation E S ev token d = (r2, d') \<Longrightarrow> rest_ok d'"
  "rest_ok d \<Longrightarrow> return_claims evs token d = (r2, d') \<Longrightarrow> rest_ok d'"
  by (auto simp: complete_reconciliation_def defer_reconciliation_def return_claims_def transaction_def Let_def intro!: schedule_update_rest)

lemma letter_rest:
  assumes "rest_ok d"
  shows "insert_dead_letter letter d = Inr (u, d') \<Longrightarrow> rest_ok d'" and "delete_letter i d = Inr (v, d') \<Longrightarrow> rest_ok d'"
proof -
  show "rest_ok d'" if "insert_dead_letter letter d = Inr (u, d')"
    by (rule rest_queue [OF assms]) (use assms that in \<open>auto simp: rest_ok_def queue_defs insert_dead_letter_def split: if_splits\<close>)
  show "rest_ok d'" if "delete_letter i d = Inr (v, d')"
    by (rule rest_queue [OF assms]) (use assms that in \<open>auto simp: rest_ok_def queue_defs delete_letter_def intro: distinct_map_filter\<close>)
qed

lemma seed_event_rest:
  assumes "rest_ok d"
  shows "rest_ok (seed_event E d)" and "demo_event \<in> ev_id ` set (events (seed_event E d))"
  using assms by (auto simp: seed_event_def rest_ok_def events_ok_def sale_ok_def queue_defs list_all_iff)

lemma seed_seat_rest:
  assumes "rest_ok d" and "demo_event \<in> ev_id ` set (events d)"
  shows "rest_ok (seed_seat i d)" and "events (seed_seat i d) = events d"
proof -
  show "events (seed_seat i d) = events d" by (simp add: seed_seat_def Let_def)
  show "rest_ok (seed_seat i d)"
    by (rule rest_sale [OF assms(1)]) (use assms in \<open>auto simp: seed_seat_def Let_def rest_ok_def sale_ok_def\<close>)
qed

lemma seed_seats_rest:
  "rest_ok d \<Longrightarrow> demo_event \<in> ev_id ` set (events d) \<Longrightarrow> rest_ok (fold seed_seat is d)"
  by (induction "is" arbitrary: d) (simp_all add: seed_seat_rest)

lemma seed_tx_rest: "rest_ok d \<Longrightarrow> seed_tx E d = Inr (u, d') \<Longrightarrow> rest_ok d'"
  by (auto simp: seed_tx_def intro: seed_seats_rest seed_event_rest)

lemma outbox_rest:
  "rest_ok d \<Longrightarrow> claim_outbox E token n d = Inr (rows, d') \<Longrightarrow> rest_ok d'"
  "rest_ok d \<Longrightarrow> confirm_outbox E token xs d = Inr (u, d') \<Longrightarrow> rest_ok d'"
  using rest_cong [of d' d] by (auto simp: claim_outbox_def confirm_outbox_def Let_def split: if_splits)

lemma payment_lease_rest:
  "rest_ok d \<Longrightarrow> claim_payment E token d = Inr (row, d') \<Longrightarrow> rest_ok d'"
  "rest_ok d \<Longrightarrow> delivered_payment pid token d = Inr (u, d') \<Longrightarrow> rest_ok d'"
  by (auto simp: claim_payment_def delivered_payment_def split: list.splits intro!: payment_rest)

lemmas tx_rest = reserve_tx_rest persist_tx_rest checkout_tx_rest release_tx_rest expire_tx_rest initiate_payment_tx_rest
  callback_tx_rest claim_refresh_rest complete_rows_rest [rotated] letter_rest seed_tx_rest outbox_rest payment_lease_rest

lemma commits_rest:
  assumes "commits d d'" and rest: "rest_ok d"
  shows "rest_ok d'"
  using assms(1)
proof cases
  case (reserve E up_in up_out t_in t_out token hs actor ev ids key sh r sh')
  then show ?thesis by (rule reserve_db) (use rest in \<open>auto elim: transaction_rest [OF rest] intro: reserve_tx_rest [OF rest]\<close>)
next
  case (persist E p response r)
  then show ?thesis
    using rest transaction_rest [OF rest _ persist_tx_rest [OF rest]]
    by (auto simp: persist_reservation_command_def split: if_splits)
next
  case (expire E limit r)
  then show ?thesis
    using rest transaction_rest [OF rest _ expire_tx_rest [OF rest]] by (auto simp: expire_batch_def split: if_splits)
next
  case (consume E envelope r)
  from consume(2) show ?thesis
    by (cases rule: consume_event_cases) (use rest consume_tx_rest [OF rest] in auto)
next
  case (schedule E S r)
  then show ?thesis by (rule maintain_schedule_rest [OF rest])
next
  case (reconcile_claim E S r)
  then show ?thesis by (rule claim_due_rest [OF rest])
next
  case (read_order actor oid r)
  then have "d' = d" by (auto simp: get_order_def transaction_def split: option.splits)
  then show ?thesis using rest by simp
next
  case (read_hold E actor hold_id r)
  then have "d' = d" by (auto simp: get_hold_def transaction_def split: option.splits)
  then show ?thesis using rest by simp
qed (unfold checkout_def release_def initiate_payment_def callback_def,
    (erule transaction_rest [OF rest]; erule tx_rest [OF rest] | erule settle_schedule_rest [OF rest])+)

lemma history_rest: "history d d' \<Longrightarrow> rest_ok d \<Longrightarrow> rest_ok d'"
  by (induction rule: history.induct) (auto intro: commits_rest)

end
