(* ===== verification/Fixtures.thy ===== *)
theory Fixtures
  imports Read_Probe Schema_Typing Api Hold_Audit
begin

text \<open>
  What is prepared and checked before a distributed load test: the fixture of shows and seats
  (\<open>scripts/prepare_capacity_fixture.py\<close>), the credential manifest of the generators
  (\<open>export_load_manifest.py\<close>), the warm-up of every show over HTTP (\<open>warm_capacity_manifest.py\<close>) and the
  state of the queues (\<open>capacity_queue_state.py\<close>).  Fresh ids, clocks, the parts that \<open>urlsplit\<close> finds,
  \<open>jwt.encode\<close> and the replies of the API are parameters.
\<close>

section \<open>The fixture\<close>

record fixture_args =
  fx_output_exists :: bool
  fx_shows :: int
  fx_seats :: int
  fx_sale_hours :: int

definition validate_fixture :: "fixture_args \<Rightarrow> settings \<Rightarrow> unit result" where
  "validate_fixture a S =
     ebind (require (environment S = ''development'') (PyError ''RuntimeError'')) (\<lambda>_.
     ebind (require (\<not> fx_output_exists a) (PyError ''ValueError'')) (\<lambda>_.
     ebind (require (1 \<le> fx_shows a \<and> fx_shows a \<le> 2000) (PyError ''ValueError'')) (\<lambda>_.
     ebind (require (1 \<le> fx_seats a \<and> fx_seats a \<le> 1000) (PyError ''ValueError'')) (\<lambda>_.
     require (1 \<le> fx_sale_hours a \<and> fx_sale_hours a \<le> 24) (PyError ''ValueError'')))))"

definition fixture_event :: "string \<Rightarrow> time \<Rightarrow> time \<Rightarrow> nat \<times> uuid \<Rightarrow> event_row" where
  "fixture_event fid starts ends = (\<lambda>(i, ev).
     \<lparr>ev_id = ev, ev_title = ''Capacity fixture '' @ fid @ '' show '' @ nat_str i, ev_currency = ''THB'',
      ev_sale_starts = starts, ev_sale_ends = ends\<rparr>)"

fun copy_events :: "string \<Rightarrow> time \<Rightarrow> time \<Rightarrow> (nat \<times> uuid) list \<Rightarrow> db \<Rightarrow> db result" where
  "copy_events fid starts ends [] d = Inr d"
| "copy_events fid starts ends (x # xs) d =
     (if snd x \<in> ev_id ` set (events d) then Inl (IntegrityError ''events_pkey'')
      else if \<not> starts < ends then Inl (IntegrityError ''events_check'')
      else copy_events fid starts ends xs (d\<lparr>events := events d @ [fixture_event fid starts ends x]\<rparr>))"

fun copy_seats :: "nat \<Rightarrow> uuid list \<Rightarrow> db \<Rightarrow> db result" where
  "copy_seats n [] d = Inr d"
| "copy_seats n (ev # evs) d = ebind (insert_seats ev [0..<n] d) (copy_seats n evs)"

definition fixture_tx :: "string \<Rightarrow> time \<Rightarrow> time \<Rightarrow> uuid list \<Rightarrow> nat \<Rightarrow> db \<Rightarrow> (unit \<times> db) result" where
  "fixture_tx fid starts ends evs n d =
     ebind (copy_events fid starts ends (enumerate 0 evs) d) (\<lambda>d.
     ebind (copy_seats n evs d) (\<lambda>d. Inr ((), d)))"

record fixture_file =
  ff_fixture :: string
  ff_sale_ends :: time
  ff_shows :: int
  ff_seats_per_show :: int
  ff_show_ids :: "uuid list"

text \<open>
  \<open>dsn\<close> and \<open>redis\<close> say that the addresses are configured, \<open>now0\<close> and \<open>now1\<close> are the two clock readings in
  microseconds, and the snapshot of a show reads the database \<open>D ev\<close>.
\<close>

definition prepare_main ::
  "settings \<Rightarrow> fixture_args \<Rightarrow> bool \<Rightarrow> bool \<Rightarrow> string \<Rightarrow> uuid list \<Rightarrow> time \<Rightarrow> time \<Rightarrow> (uuid \<Rightarrow> cache_env) \<Rightarrow> (uuid \<Rightarrow> db) \<Rightarrow>
   db \<times> seatmaps \<Rightarrow> fixture_file result \<times> db \<times> seatmaps"
where
  "prepare_main S a dsn redis fid evs now0 now1 C D = (\<lambda>(d, maps).
     case validate_fixture a S of
       Inl e \<Rightarrow> (Inl e, d, maps)
     | Inr _ \<Rightarrow>
         if \<not> dsn \<or> \<not> redis then (Inl (PyError ''RuntimeError''), d, maps)
         else
           let starts = now0 - 5 * 60 * 1000000; ends = now1 + fx_sale_hours a * 3600 * 1000000 in
           case transaction (fixture_tx fid starts ends evs (nat (fx_seats a))) d of
             (Inl e, d') \<Rightarrow> (Inl e, d', maps)
           | (Inr _, d') \<Rightarrow>
               (case probe_warm C D evs maps of
                  (Inl e, maps') \<Rightarrow> (Inl e, d', maps')
                | (Inr _, maps') \<Rightarrow>
                    (Inr \<lparr>ff_fixture = fid, ff_sale_ends = ends, ff_shows = fx_shows a, ff_seats_per_show = fx_seats a,
                       ff_show_ids = evs\<rparr>, d', maps')))"

section \<open>The credential manifest\<close>

record url_parts =
  up_scheme :: string
  up_netloc :: string
  up_username :: "string option"
  up_path :: string
  up_query :: string
  up_fragment :: string

record export_args =
  ex_origin :: string
  ex_under_tmp :: bool
  ex_viewers :: int
  ex_seat_offset :: int

definition export_checks :: "settings \<Rightarrow> (string \<Rightarrow> url_parts) \<Rightarrow> export_args \<Rightarrow> unit result" where
  "export_checks S urlsplit a =
     (let target = urlsplit (ex_origin a) in
      ebind (require (environment S = ''development'') (PyError ''SystemExit'')) (\<lambda>_.
      ebind (require (up_scheme target \<in> {''http'', ''https''} \<and> up_netloc target \<noteq> [] \<and> up_username target \<in> {None, Some []} \<and>
        up_query target = [] \<and> up_fragment target = [] \<and> up_path target \<in> {[], [CHR 0x2F]}) (PyError ''SystemExit'')) (\<lambda>_.
      ebind (require (ex_under_tmp a) (PyError ''SystemExit'')) (\<lambda>_.
      require (1 \<le> ex_viewers a \<and> ex_viewers a \<le> 50000 \<and> 0 \<le> ex_seat_offset a \<and> ex_seat_offset a < 300)
        (PyError ''SystemExit'')))))"

text \<open>Times of the manifest are seconds, as in \<open>credentials\<close> of the generator.\<close>

record load_manifest = credentials +
  lm_id :: string
  lm_show_ids :: "uuid list"
  lm_tokens :: "string list"
  lm_seat_offset :: int
  lm_seats_per_show :: int

definition viewer_subject :: "string \<Rightarrow> nat \<Rightarrow> string" where
  "viewer_subject identifier i = ''load-'' @ identifier @ ''-'' @ nat_str i"

definition viewer_claims :: "json \<Rightarrow> string \<Rightarrow> nat \<Rightarrow> json" where
  "viewer_claims expiry identifier i =
     JObj [(''sub'', JStr (viewer_subject identifier i)), (''aud'', JStr ''ticketing''), (''iss'', JStr ''ticketing''), (''exp'', expiry)]"

text \<open>\<open>encode\<close> is \<open>jwt.encode\<close> with the secret of the settings; \<open>stamp\<close> is the form in which it takes a time.\<close>

definition export_manifest ::
  "settings \<Rightarrow> (string \<Rightarrow> url_parts) \<Rightarrow> (string \<Rightarrow> json \<Rightarrow> string) \<Rightarrow> (rat \<Rightarrow> json) \<Rightarrow> export_args \<Rightarrow> rat \<Rightarrow> string \<Rightarrow> fixture_file \<Rightarrow>
   load_manifest result"
where
  "export_manifest S urlsplit encode stamp a now identifier source =
     ebind (export_checks S urlsplit a) (\<lambda>_.
       let expiry = now + 3600 in
       Inr \<lparr>cr_schema = 1, cr_environment = ''development'', cr_expires = expiry, cr_origin = rstrip_slash (ex_origin a),
         lm_id = identifier, lm_show_ids = ff_show_ids source,
         lm_tokens = map (\<lambda>i. encode (jwt_secret S) (viewer_claims (stamp expiry) identifier i)) [0..<nat (ex_viewers a)],
         lm_seat_offset = ex_seat_offset a, lm_seats_per_show = 300\<rparr>)"

section \<open>Warming every show\<close>

text \<open>The class name of an exception of the client, or a status with the body that \<open>json()\<close> reads.\<close>

datatype warm_reply = Warm_raised string | Warm_answer int "json option"

definition warm_code :: "(json \<Rightarrow> string) \<Rightarrow> warm_reply \<Rightarrow> string" where
  "warm_code py_str r =
     (case r of
        Warm_raised name \<Rightarrow> name
      | Warm_answer status body \<Rightarrow>
          if status = 200 \<or> status = 304 then ''ok''
          else case body of
            None \<Rightarrow> ''JSONDecodeError''
          | Some (JObj kvs) \<Rightarrow> int_str status @ '':'' @
              (case map_of kvs ''code'' of None \<Rightarrow> ''unknown'' | Some (JStr s) \<Rightarrow> s | Some v \<Rightarrow> py_str v)
          | Some _ \<Rightarrow> ''AttributeError'')"

record warm_attempt =
  wa_attempt :: nat
  wa_counts :: "(string \<times> nat) list"
  wa_remaining :: nat

definition count_codes :: "string list \<Rightarrow> (string \<times> nat) list" where
  "count_codes cs = fold (\<lambda>c counts. dict_put c (case map_of counts c of None \<Rightarrow> 1 | Some n \<Rightarrow> n + 1) counts) cs []"

text \<open>\<open>code a i\<close> is the outcome of show \<open>i\<close> in attempt \<open>a\<close>; \<open>un\<close> has the unresolved shows.\<close>

fun warm_attempts :: "(nat \<Rightarrow> nat \<Rightarrow> string) \<Rightarrow> nat list \<Rightarrow> nat list \<Rightarrow> warm_attempt list \<times> nat list" where
  "warm_attempts code [] un = ([], un)"
| "warm_attempts code (a # as) un =
     (let rows = map (\<lambda>i. (i, code a i)) un;
          un' = map fst (filter (\<lambda>(_, c). c \<noteq> ''ok'') rows);
          entry = \<lparr>wa_attempt = a, wa_counts = count_codes (map snd rows), wa_remaining = length un'\<rparr> in
      if un' = [] then ([entry], [])
      else let (rest, out) = warm_attempts code as un' in (entry # rest, out))"

definition warm_manifest :: "(nat \<Rightarrow> nat \<Rightarrow> string) \<Rightarrow> nat \<Rightarrow> uuid list \<Rightarrow> warm_attempt list \<times> bool" where
  "warm_manifest code tries shows =
     (let (history, un) = warm_attempts code [1..<tries + 1] [0..<length shows] in (history, un = [] \<and> shows \<noteq> []))"

text \<open>The exit status; 2 is \<open>parser.error\<close>.\<close>

definition warm_main :: "(nat \<Rightarrow> nat \<Rightarrow> string) \<Rightarrow> bool \<Rightarrow> int \<Rightarrow> int \<Rightarrow> rat \<Rightarrow> uuid list \<Rightarrow> int" where
  "warm_main code output_exists tries concurrency timeout shows =
     (if output_exists \<or> tries \<le> 0 \<or> concurrency \<le> 0 \<or> timeout \<le> 0 then 2
      else if snd (warm_manifest code (nat tries) shows) then 0 else 1)"

section \<open>The state of the queues\<close>

record queue_state =
  qs_unpublished :: nat
  qs_refresh :: nat
  qs_dead :: nat
  qs_active :: nat
  qs_overdue :: nat
  qs_pending :: nat

definition queue_state_of :: "time \<Rightarrow> uuid list \<Rightarrow> db \<Rightarrow> queue_state" where
  "queue_state_of now shows d =
     (let active = filter (\<lambda>h. h_event h \<in> set shows \<and> h_status h = H_ACTIVE) (holds d) in
      \<lparr>qs_unpublished = length (filter (\<lambda>x. x_published x = None) (outbox_events d)),
       qs_refresh = length (filter (\<lambda>f. f_generation f > f_completed f) (seat_refresh_requests d)),
       qs_dead = length (dead_letters d),
       qs_active = length active,
       qs_overdue = length (filter (\<lambda>h. h_expires h < now) active),
       qs_pending = length (filter (\<lambda>r. o_event r \<in> set shows \<and> o_status r = O_PENDING) (orders d))\<rparr>)"

definition queues_idle :: "queue_state \<Rightarrow> bool" where
  "queues_idle q \<longleftrightarrow> list_all (\<lambda>n. n = 0) [qs_unpublished q, qs_refresh q, qs_dead q, qs_active q, qs_overdue q, qs_pending q]"

definition queue_exit :: "bool \<Rightarrow> bool \<Rightarrow> time \<Rightarrow> uuid list \<Rightarrow> db \<Rightarrow> int" where
  "queue_exit output_exists dsn now shows d =
     (if output_exists then 2 else if \<not> dsn then 1 else if queues_idle (queue_state_of now shows d) then 0 else 1)"

section \<open>Facts\<close>

subsection \<open>The fixture\<close>

lemma copy_events_result:
  "copy_events fid starts ends xs d = Inr d' \<Longrightarrow>
    d' = d\<lparr>events := events d @ map (fixture_event fid starts ends) xs\<rparr> \<and> (xs \<noteq> [] \<longrightarrow> starts < ends) \<and>
    distinct (map snd xs) \<and> set (map snd xs) \<inter> ev_id ` set (events d) = {}"
proof (induction xs arbitrary: d)
  case (Cons x xs)
  let ?d = "d\<lparr>events := events d @ [fixture_event fid starts ends x]\<rparr>"
  have new: "snd x \<notin> ev_id ` set (events d)" and t: "starts < ends" and rest: "copy_events fid starts ends xs ?d = Inr d'"
    using Cons.prems by (simp_all split: if_splits)
  have id: "ev_id (fixture_event fid starts ends x) = snd x" by (simp add: fixture_event_def split: prod.splits)
  show ?case using Cons.IH [OF rest] new t by (auto simp: id)
qed simp

lemma copy_seats_inv: "store_inv d \<Longrightarrow> copy_seats n evs d = Inr d' \<Longrightarrow> store_inv d'"
  by (induction evs arbitrary: d) (auto simp: ebind_Inr_iff dest: insert_seats_inv)

lemma fixture_tx_inv:
  assumes "store_inv d" and "fixture_tx fid starts ends evs n d = Inr (u, d')"
  shows "store_inv d'"
proof -
  obtain es where "copy_seats n evs (d\<lparr>events := es\<rparr>) = Inr d'"
    using assms(2) by (auto simp: fixture_tx_def ebind_Inr_iff dest!: copy_events_result)
  moreover have "store_inv (d\<lparr>events := es\<rparr>) = store_inv d" by (rule store_inv_cong) simp_all
  ultimately show ?thesis using assms(1) copy_seats_inv by blast
qed

interpretation shows_op: store_op "\<lambda>(fid, starts, ends, evs, n). fixture_tx fid starts ends evs n"
  by unfold_locales (auto dest: fixture_tx_inv)

lemma insert_seats_adds:
  "insert_seats ev is d = Inr d' \<Longrightarrow> d' = d\<lparr>event_seats := event_seats d @ map (probe_seat ev) is\<rparr>"
proof (induction "is" arbitrary: d)
  case (Cons i "is")
  then have "insert_seats ev is (d\<lparr>event_seats := event_seats d @ [probe_seat ev i]\<rparr>) = Inr d'" by (simp split: if_splits)
  from Cons.IH [OF this] show ?case by simp
qed simp

lemma copy_seats_adds:
  "copy_seats n evs d = Inr d' \<Longrightarrow>
    d' = d\<lparr>event_seats := event_seats d @ concat (map (\<lambda>ev. map (probe_seat ev) [0..<n]) evs)\<rparr>"
proof (induction evs arbitrary: d)
  case (Cons ev evs)
  then have "copy_seats n evs (d\<lparr>event_seats := event_seats d @ map (probe_seat ev) [0..<n]\<rparr>) = Inr d'"
    by (auto simp: ebind_Inr_iff dest!: insert_seats_adds)
  from Cons.IH [OF this] show ?case by simp
qed simp

lemma enumerate_Nil_iff [simp]: "enumerate k xs = [] \<longleftrightarrow> xs = []"
  by (cases xs) auto

text \<open>What a fixture that succeeded has written: its events and their free seats, and nothing else.\<close>

lemma fixture_tx_writes:
  assumes "fixture_tx fid starts ends evs n d = Inr (u, d')"
  shows "d' = d\<lparr>events := events d @ map (fixture_event fid starts ends) (enumerate 0 evs),
      event_seats := event_seats d @ concat (map (\<lambda>ev. map (probe_seat ev) [0..<n]) evs)\<rparr>"
    and "evs \<noteq> [] \<Longrightarrow> starts < ends" and "distinct evs" and "set evs \<inter> ev_id ` set (events d) = {}"
  using assms by (auto simp: fixture_tx_def ebind_Inr_iff dest!: copy_events_result copy_seats_adds)

lemma fixture_event_ids: "map ev_id (map (fixture_event fid starts ends) (enumerate k evs)) = evs"
  by (simp add: fixture_event_def comp_def case_prod_unfold)

lemma fixture_event_ok: "ev_currency (fixture_event fid starts ends x) = ''THB''" "ev_sale_starts (fixture_event fid starts ends x) = starts"
  "ev_sale_ends (fixture_event fid starts ends x) = ends"
  by (simp_all add: fixture_event_def split: prod.splits)

lemma set_map_fixture_events: "ev_id ` set (map (fixture_event fid starts ends) (enumerate k evs)) = set evs"
  using arg_cong [OF fixture_event_ids, of set] by (simp only: set_map)

text \<open>A fixture satisfies the schema: the two \<open>COPY\<close> statements violate no constraint of the whole database.\<close>

lemma fixture_keeps_schema:
  assumes inv: "store_inv d" and ok: "schema_ok d" and tx: "fixture_tx fid starts ends evs n d = Inr (u, d')"
  shows "schema_ok d'"
proof (rule rest_schema)
  show "store_inv d'" by (rule fixture_tx_inv [OF inv tx])
  note w = fixture_tx_writes [OF tx]
  define es where "es = map (fixture_event fid starts ends) (enumerate 0 evs)"
  define ss where "ss = concat (map (\<lambda>ev. map (probe_seat ev) [0..<n]) evs)"
  have d': "d' = d\<lparr>events := events d @ es, event_seats := event_seats d @ ss\<rparr>" using w(1) by (simp only: es_def ss_def)
  have ids: "map ev_id es = evs" "ev_id ` set es = set evs" unfolding es_def by (rule fixture_event_ids, rule set_map_fixture_events)
  have es: "\<forall>e\<in>set es. length (ev_currency e) = 3 \<and> ev_sale_starts e < ev_sale_ends e"
    using w(2) by (cases evs) (auto simp: es_def fixture_event_ok)
  have ss: "\<forall>s\<in>set ss. s_event s \<in> set evs \<and> 0 \<le> s_price s" by (auto simp: ss_def probe_seat_def)
  have rest: "rest_ok d" by (rule schema_rest [OF ok])
  have "events_ok d'" using rest es w(3,4) by (simp add: d' rest_ok_def events_ok_def ids list_all_iff Int_commute ball_Un)
  moreover have "sale_ok d'" using rest ss by (auto simp: d' rest_ok_def sale_ok_def ids image_Un)
  moreover have "queues_ok d'" using rest by (auto simp: d' rest_ok_def queue_defs image_Un list_all_iff)
  ultimately show "rest_ok d'" by (simp add: rest_ok_def)
qed

text \<open>With fresh distinct ids and a sale window that is not empty the transaction succeeds.\<close>

lemma copy_events_fresh:
  "starts < ends \<Longrightarrow> distinct (map snd xs) \<Longrightarrow> set (map snd xs) \<inter> ev_id ` set (events d) = {} \<Longrightarrow>
    \<exists>d'. copy_events fid starts ends xs d = Inr d' \<and> event_seats d' = event_seats d"
proof (induction xs arbitrary: d)
  case (Cons x xs)
  have id: "ev_id (fixture_event fid starts ends x) = snd x" by (simp add: fixture_event_def split: prod.splits)
  have "\<exists>d'. copy_events fid starts ends xs (d\<lparr>events := events d @ [fixture_event fid starts ends x]\<rparr>) = Inr d' \<and>
      event_seats d' = event_seats (d\<lparr>events := events d @ [fixture_event fid starts ends x]\<rparr>)"
    by (rule Cons.IH) (use Cons.prems in \<open>auto simp: id\<close>)
  then show ?case using Cons.prems by auto
qed simp

lemma copy_seats_fresh:
  "distinct evs \<Longrightarrow> set evs \<inter> s_event ` set (event_seats d) = {} \<Longrightarrow> \<exists>d'. copy_seats n evs d = Inr d'"
proof (induction evs arbitrary: d)
  case (Cons ev evs)
  have one: "insert_seats ev [0..<n] d = Inr (d\<lparr>event_seats := event_seats d @ map (probe_seat ev) [0..<n]\<rparr>)"
    by (rule insert_seats_fresh) (use Cons.prems in \<open>auto simp: seat_key_def image_iff\<close>)
  have "\<exists>d'. copy_seats n evs (d\<lparr>event_seats := event_seats d @ map (probe_seat ev) [0..<n]\<rparr>) = Inr d'"
    by (rule Cons.IH) (use Cons.prems in \<open>auto simp: probe_seat_def\<close>)
  then show ?case using one by simp
qed simp

lemma fixture_tx_succeeds:
  assumes "starts < ends" and "distinct evs" and "set evs \<inter> ev_id ` set (events d) = {}"
    and "set evs \<inter> s_event ` set (event_seats d) = {}"
  shows "\<exists>d'. fixture_tx fid starts ends evs n d = Inr ((), d')"
proof -
  have m: "map snd (enumerate 0 evs) = evs" by simp
  then have m': "set (map snd (enumerate 0 evs)) = set evs" by (rule arg_cong)
  obtain d1 where d1: "copy_events fid starts ends (enumerate 0 evs) d = Inr d1" "event_seats d1 = event_seats d"
    using copy_events_fresh [OF assms(1), of "enumerate 0 evs" d fid] assms(2,3) m m' by auto
  obtain d2 where "copy_seats n evs d1 = Inr d2" using copy_seats_fresh [OF assms(2), of d1 n] assms(4) d1(2) by auto
  then show ?thesis using d1(1) by (simp add: fixture_tx_def)
qed

text \<open>A fixture that is written out has been committed, with a sale window of at least an hour.\<close>

lemma prepare_main_file:
  assumes "prepare_main S a dsn redis fid evs now0 now1 C D (d, maps) = (Inr f, d', maps')"
  shows "\<exists>starts n. fixture_tx fid starts (ff_sale_ends f) evs n d = Inr ((), d') \<and> int n = ff_seats_per_show f"
    and "ff_show_ids f = evs" and "now1 + 3600 * 1000000 \<le> ff_sale_ends f" and "1 \<le> ff_seats_per_show f \<and> ff_seats_per_show f \<le> 1000"
proof -
  define starts ends where "starts = now0 - 5 * 60 * 1000000" and "ends = now1 + fx_sale_hours a * 3600 * 1000000"
  note run = assms [unfolded prepare_main_def Let_def, folded starts_def ends_def]
  have val: "validate_fixture a S = Inr ()" using run by (auto split: sum.splits)
  then have lim: "1 \<le> fx_seats a" "fx_seats a \<le> 1000" "1 \<le> fx_sale_hours a"
    by (auto simp: validate_fixture_def ebind_Inr_iff require_def split: if_splits)
  obtain u where tx: "transaction (fixture_tx fid starts ends evs (nat (fx_seats a))) d = (Inr u, d')"
    and f: "f = \<lparr>ff_fixture = fid, ff_sale_ends = ends, ff_shows = fx_shows a, ff_seats_per_show = fx_seats a, ff_show_ids = evs\<rparr>"
    using run val by (auto split: if_splits prod.splits sum.splits)
  have "fixture_tx fid starts ends evs (nat (fx_seats a)) d = Inr ((), d')"
    using tx by (auto simp: transaction_def split: sum.splits)
  then show "\<exists>starts n. fixture_tx fid starts (ff_sale_ends f) evs n d = Inr ((), d') \<and> int n = ff_seats_per_show f"
    using lim f by (intro exI [of _ starts] exI [of _ "nat (fx_seats a)"]) simp
  show "ff_show_ids f = evs" and "1 \<le> ff_seats_per_show f \<and> ff_seats_per_show f \<le> 1000" using f lim by simp_all
  show "now1 + 3600 * 1000000 \<le> ff_sale_ends f" using lim(3) by (simp add: f ends_def)
qed

subsection \<open>The credential manifest\<close>

text \<open>The generator accepts an exported manifest for its origin as long as the run and its drain end before it expires.\<close>

lemma exported_manifest_accepted:
  assumes "export_manifest S urlsplit encode stamp a now identifier source = Inr m"
    and "rstrip_slash origin = rstrip_slash (ex_origin a)"
  shows "check_manifest (credentials.truncate m) t run origin False = Inr () \<longleftrightarrow> t + run + 60 < now + 3600"
  using assms by (auto simp: export_manifest_def Let_def ebind_Inr_iff check_manifest_def credentials.truncate_def require_def algebra_simps)

lemma length_nat_str: "n < 10 ^ k \<Longrightarrow> 0 < k \<Longrightarrow> length (nat_str n) \<le> k"
proof (induction k arbitrary: n)
  case (Suc k)
  show ?case
  proof (cases "n < 10")
    case False
    then have k: "0 < k" using Suc.prems(1) by (cases k) simp_all
    have "n div 10 < 10 ^ k" using Suc.prems(1) by (simp add: less_mult_imp_div_less mult.commute)
    from Suc.IH [OF this k] show ?thesis using False nat_str.simps [of n] by simp
  qed (use nat_str.simps [of n] in simp)
qed simp

lemma viewer_subject_inj: "viewer_subject identifier i = viewer_subject identifier j \<longleftrightarrow> i = j"
  by (auto simp: viewer_subject_def dest!: arg_cong [of _ _ digits_val] simp: digits_val_nat_str)

text \<open>
  Fact.  Exported credentials are good for the API: when \<open>jwt.decode\<close> reads back what \<open>jwt.encode\<close> wrote with
  the secret of the settings, every token of an exported manifest authenticates, the \<open>i\<close>-th one as the
  \<open>i\<close>-th viewer, and the viewers are different actors, so none of them shares a rate limit or an
  idempotency key with another.
\<close>

theorem exported_tokens_authenticate:
  assumes "export_manifest S urlsplit encode stamp a now identifier source = Inr m"
    and "\<And>claims. decode (encode (jwt_secret S) claims) = Some claims" and "length identifier = 36"
  shows "map (actor_of decode) (lm_tokens m) = map (\<lambda>i. Inr (viewer_subject identifier i)) [0..<nat (ex_viewers a)] \<and>
    distinct (map (actor_of decode) (lm_tokens m))"
proof -
  have m: "lm_tokens m = map (\<lambda>i. encode (jwt_secret S) (viewer_claims (stamp (now + 3600)) identifier i)) [0..<nat (ex_viewers a)]"
    and v: "nat (ex_viewers a) \<le> 50000"
    using assms(1) by (auto simp: export_manifest_def export_checks_def Let_def ebind_Inr_iff require_def split: if_splits)
  have "actor_of decode (encode (jwt_secret S) (viewer_claims x identifier i)) = Inr (viewer_subject identifier i)"
    if "i < nat (ex_viewers a)" for x i
  proof -
    have "length (nat_str i) \<le> 5" by (rule length_nat_str) (use that v in simp_all)
    then have "length (viewer_subject identifier i) \<le> 128" using assms(3) by (simp add: viewer_subject_def)
    then show ?thesis by (simp add: actor_of_def assms(2) viewer_claims_def jindex_def viewer_subject_def)
  qed
  then have "map (actor_of decode) (lm_tokens m) = map (\<lambda>i. Inr (viewer_subject identifier i)) [0..<nat (ex_viewers a)]"
    by (simp add: m)
  moreover have "distinct (map (\<lambda>i. Inr (viewer_subject identifier i) :: string result) [0..<nat (ex_viewers a)])"
    by (simp add: distinct_map inj_on_def viewer_subject_inj)
  ultimately show ?thesis by simp
qed

subsection \<open>Warming\<close>

text \<open>A show stays unresolved exactly when no attempt got an answer for it.\<close>

lemma warm_attempts_unresolved:
  "set (snd (warm_attempts code as un)) = {i \<in> set un. \<forall>a\<in>set as. code a i \<noteq> ''ok''}"
proof (induction "as" arbitrary: un)
  case (Cons a "as")
  define un' where "un' = map fst (filter (\<lambda>(_, c). c \<noteq> ''ok'') (map (\<lambda>i. (i, code a i)) un))"
  have un': "set un' = {i \<in> set un. code a i \<noteq> ''ok''}" by (force simp: un'_def)
  show ?case
  proof (cases "un' = []")
    case True
    then show ?thesis using un' by (auto simp: un'_def [symmetric] Let_def)
  next
    case False
    then have "snd (warm_attempts code (a # as) un) = snd (warm_attempts code as un')"
      unfolding warm_attempts.simps Let_def un'_def [symmetric] by (simp add: case_prod_unfold)
    then show ?thesis using Cons.IH [of un'] un' by auto
  qed
qed simp

lemma warm_attempts_length: "length (fst (warm_attempts code as un)) \<le> length as"
  by (induction "as" arbitrary: un) (simp_all add: Let_def case_prod_unfold)

text \<open>The warm-up exits with 0 exactly when there are shows and each of them was served in some attempt.\<close>

lemma warm_main_exit:
  "warm_main code ex tries c t shows = 0 \<longleftrightarrow>
    \<not> ex \<and> 0 < tries \<and> 0 < c \<and> 0 < t \<and> shows \<noteq> [] \<and> (\<forall>i<length shows. \<exists>a\<in>{1..nat tries}. code a i = ''ok'')"
proof -
  have "snd (warm_manifest code n shows) \<longleftrightarrow> shows \<noteq> [] \<and> (\<forall>i<length shows. \<exists>a\<in>{1..n}. code a i = ''ok'')" for n
  proof -
    have "set (snd (warm_attempts code [1..<n + 1] [0..<length shows])) = {i. i < length shows \<and> (\<forall>a\<in>{1..n}. code a i \<noteq> ''ok'')}"
      by (auto simp: warm_attempts_unresolved simp del: upt_Suc)
    then have "snd (warm_attempts code [1..<n + 1] [0..<length shows]) = [] \<longleftrightarrow> (\<forall>i<length shows. \<exists>a\<in>{1..n}. code a i = ''ok'')"
      unfolding set_empty [symmetric] by auto
    then show ?thesis by (simp add: warm_manifest_def Let_def case_prod_unfold conj_commute del: upt_Suc)
  qed
  then show ?thesis by (auto simp: warm_main_def not_le)
qed

text \<open>Only a 200 or 304 counts, unless the client has an exception class with that name.\<close>

lemma warm_code_ok:
  assumes "\<And>name. r = Warm_raised name \<Longrightarrow> name \<noteq> ''ok''"
  shows "warm_code py_str r = ''ok'' \<longleftrightarrow> (\<exists>body. r = Warm_answer 200 body \<or> r = Warm_answer 304 body)"
proof -
  have colon: "x @ '':'' @ y \<noteq> ''ok''" for x y
  proof
    assume "x @ '':'' @ y = ''ok''"
    then have "CHR '':'' \<in> set ''ok''" by (metis in_set_conv_decomp append_Cons append_Nil)
    then show False by simp
  qed
  show ?thesis using assms colon by (auto simp: warm_code_def split: warm_reply.splits option.splits json.splits)
qed

subsection \<open>The queues\<close>

lemma length_filter_key: "distinct (map k xs) \<Longrightarrow> length (filter P xs) = card (k ` {x \<in> set xs. P x})"
  using distinct_card [of "map k (filter P xs)"] by (simp add: distinct_map_filter)

text \<open>Active holds and pending orders of the shows always correspond, so two of the six counts are redundant.\<close>

lemma active_holds_are_pending_orders:
  assumes "store_inv d"
  shows "qs_active (queue_state_of now shows d) = qs_pending (queue_state_of now shows d)"
proof -
  have core: "core_inv d" using assms by (simp add: store_inv_def)
  then have dist: "distinct (map h_id (holds d))" "distinct (map o_hold (orders d))" by (simp_all add: core_inv_def keys_inv_def)
  have "h_id ` {h \<in> set (holds d). h_event h \<in> set shows \<and> h_status h = H_ACTIVE} =
      o_hold ` {r \<in> set (orders d). o_event r \<in> set shows \<and> o_status r = O_PENDING}" (is "?L = ?R")
  proof
    have "h_id h \<in> ?R" if h: "h \<in> set (holds d)" "h_event h \<in> set shows" "h_status h = H_ACTIVE" for h
    proof -
      obtain r where r: "r \<in> set (orders d)" "o_hold r = h_id h" using core h(1) by (force simp: core_inv_def order_inv_def)
      obtain h' where h': "h' \<in> set (holds d)" "h_id h' = o_hold r" "compat (o_status r) (h_status h')" "h_event h' = o_event r"
        using order_hold [OF core r(1)] by metis
      then have "h' = h" using hold_unique [OF core h'(1) h(1)] r(2) by simp
      then show ?thesis using h h' r by (intro image_eqI [of _ _ r]) (simp_all add: compat_def)
    qed
    then show "?L \<subseteq> ?R" by blast
    have "o_hold r \<in> ?L" if r: "r \<in> set (orders d)" "o_event r \<in> set shows" "o_status r = O_PENDING" for r
    proof -
      obtain h where h: "h \<in> set (holds d)" "h_id h = o_hold r" "compat (o_status r) (h_status h)" "h_event h = o_event r"
        using order_hold [OF core r(1)] by metis
      then show ?thesis using r by (intro image_eqI [of _ _ h]) (simp_all add: compat_def)
    qed
    then show "?R \<subseteq> ?L" by blast
  qed
  then show ?thesis by (simp add: queue_state_of_def Let_def length_filter_key [OF dist(1)] length_filter_key [OF dist(2)])
qed

text \<open>Idle queues mean a clean fixture: no seat of its shows is held by anyone.\<close>

lemma idle_queues_mean_free_seats:
  assumes inv: "store_inv d" and zero: "queue_exit False dsn now shows d = 0"
    and s: "s \<in> set (event_seats d)" "s_event s \<in> set shows"
  shows "s_hold s = None"
proof (rule ccontr)
  assume "s_hold s \<noteq> None"
  then obtain h where sh: "s_hold s = Some h" by blast
  have core: "core_inv d" using inv by (simp add: store_inv_def)
  then have "seat_ok d s" using s(1) by (simp add: core_inv_def seat_inv_def)
  then obtain hr r where hr: "hr \<in> set (holds d)" "h_id hr = h" "h_status hr = H_ACTIVE"
    and r: "r \<in> set (orders d)" "o_hold r = h" "(o_id r, s_event s, s_id s) \<in> item_triples d"
    using sh unfolding seat_ok_def by metis
  obtain h' where h': "h' \<in> set (holds d)" "h_id h' = o_hold r" "h_event h' = o_event r" using order_hold [OF core r(1)] by metis
  have eq: "h' = hr" using hold_unique [OF core h'(1) hr(1)] h'(2) hr(2) r(2) by simp
  obtain i where i: "i \<in> set (order_items d)" "i_order i = o_id r" "i_event i = s_event s" using r(3) by (auto simp: item_triples_def)
  obtain r' where r': "r' \<in> set (orders d)" "o_id r' = i_order i" "o_event r' = i_event i"
    using core i(1) by (auto simp: core_inv_def item_inv_def)
  have "r' = r" using order_unique [OF core r'(1) r(1)] r'(2) i(2) by simp
  then have "h_event hr \<in> set shows" using eq h'(3) r'(3) i(3) s(2) by simp
  then have "filter (\<lambda>h. h_event h \<in> set shows \<and> h_status h = H_ACTIVE) (holds d) \<noteq> []" using hr by (auto simp: filter_empty_conv)
  then show False using zero by (simp add: queue_exit_def queues_idle_def queue_state_of_def Let_def split: if_splits)
qed

end
