(* ===== verification/Drill.thy ===== *)
theory Drill
  imports Hot_Seat Capacity
begin

text \<open>
  The outage drills (\<open>scripts/cloud_failure_drill.py\<close>, \<open>recovery_drill.py\<close>): they stop a service, use the API,
  start the service again and assert what the system promises about outages.  A drill is a function of what the
  outside answers to its calls; the \<open>k\<close>-th call gets the \<open>k\<close>-th answer, and the log has the calls that were
  made.  An exception, an assertion that fails included, is the left value.  The last section runs the drill's
  case against the model of the hold endpoint.
\<close>

section \<open>Calls\<close>

datatype drill_call = Call_stop string | Call_start string | Call_probe | Call_hold seat_id string | Call_pay uuid
  | Call_order uuid | Call_get string | Call_query string | Call_clock | Call_sleep

record outside =
  ou_compose :: "nat \<Rightarrow> unit result"
  ou_reply :: "nat \<Rightarrow> (int \<times> json) result"
  ou_rows :: "nat \<Rightarrow> int list list result"
  ou_clock :: "nat \<Rightarrow> rat"

type_synonym 'a drill = "outside \<Rightarrow> drill_call list \<Rightarrow> 'a result \<times> drill_call list"

definition perform :: "(outside \<Rightarrow> nat \<Rightarrow> 'a result) \<Rightarrow> drill_call \<Rightarrow> 'a drill" where
  "perform answer c ou past = (answer ou (length past), past @ [c])"

definition dreturn :: "'a result \<Rightarrow> 'a drill" where
  "dreturn r ou past = (r, past)"

definition dbind :: "'a drill \<Rightarrow> ('a \<Rightarrow> 'b drill) \<Rightarrow> 'b drill" where
  "dbind m f ou past = (case m ou past of (Inl x, past') \<Rightarrow> (Inl x, past') | (Inr a, past') \<Rightarrow> f a ou past')"

text \<open>\<open>try ... finally\<close>: an exception of the last part replaces the outcome.\<close>

definition dfinally :: "'a drill \<Rightarrow> unit drill \<Rightarrow> 'a drill" where
  "dfinally m after ou past =
     (case m ou past of (r, past') \<Rightarrow> (case after ou past' of (Inl x, past'') \<Rightarrow> (Inl x, past'') | (Inr _, past'') \<Rightarrow> (r, past'')))"

definition dassert :: "bool \<Rightarrow> unit drill" where
  "dassert b = dreturn (require b (PyError ''AssertionError''))"

definition compose_stop :: "string \<Rightarrow> unit drill" where
  "compose_stop service = perform ou_compose (Call_stop service)"

definition compose_start :: "string \<Rightarrow> unit drill" where
  "compose_start service = perform ou_compose (Call_start service)"

definition drill_clock :: "rat drill" where
  "drill_clock = perform (\<lambda>ou k. Inr (ou_clock ou k)) Call_clock"

definition drill_pause :: "unit drill" where
  "drill_pause = perform (\<lambda>_ _. Inr ()) Call_sleep"

definition drill_request :: "drill_call \<Rightarrow> (int \<times> json) drill" where
  "drill_request c = perform ou_reply c"

definition drill_query :: "string \<Rightarrow> int list list drill" where
  "drill_query q = perform ou_rows (Call_query q)"

definition first_cell :: "int list list \<Rightarrow> int result" where
  "first_cell rows = (case rows of (n # _) # _ \<Rightarrow> Inr n | _ \<Rightarrow> Inl (PyError ''IndexError''))"

section \<open>Waiting\<close>

text \<open>
  \<open>ready\<close>: a round per second for two minutes.  Network errors are swallowed.  The number of rounds is an
  argument; \<open>ready_within_rounds\<close> below shows that 121 never run out before the two minutes do.
\<close>

fun ready_rounds :: "nat \<Rightarrow> rat \<Rightarrow> rat drill" where
  "ready_rounds 0 started = dreturn (Inl (PyError ''AssertionError''))"
| "ready_rounds (Suc n) started =
     dbind drill_clock (\<lambda>t.
       if t - started < 120 then
         dbind (\<lambda>ou past. case drill_request Call_probe ou past of
             (Inl (PyError e), past') \<Rightarrow> if e \<in> {''URLError'', ''TimeoutError''} then (Inr False, past') else (Inl (PyError e), past')
           | (Inl x, past') \<Rightarrow> (Inl x, past')
           | (Inr (status, _), past') \<Rightarrow> (Inr (status = 200), past')) (\<lambda>up.
         if up then dbind drill_clock (\<lambda>t. dreturn (Inr (t - started)))
         else dbind drill_pause (\<lambda>_. ready_rounds n started))
       else dreturn (Inl (PyError ''AssertionError'')))"

definition drill_ready :: "rat drill" where
  "drill_ready = dbind drill_clock (ready_rounds 121)"

text \<open>\<open>reply['body'].get('status')\<close> and \<open>reply['body'][k]\<close>.\<close>

definition body_status :: "int \<times> json \<Rightarrow> json option drill" where
  "body_status reply = dreturn (case snd reply of JObj kvs \<Rightarrow> Inr (map_of kvs ''status'') | _ \<Rightarrow> Inl (PyError ''AttributeError''))"

definition body_index :: "string \<Rightarrow> int \<times> json \<Rightarrow> json drill" where
  "body_index k reply = dreturn (jindex k (snd reply))"

definition py_len :: "json \<Rightarrow> nat result" where
  "py_len v = (case v of JArr xs \<Rightarrow> Inr (length xs) | JObj kvs \<Rightarrow> Inr (length kvs) | JStr s \<Rightarrow> Inr (length s) | _ \<Rightarrow> Inl (PyError ''TypeError''))"

text \<open>An id of the API, which is a string.\<close>

definition body_id :: "string \<Rightarrow> int \<times> json \<Rightarrow> string drill" where
  "body_id k reply = dreturn (ebind (jindex k (snd reply)) (\<lambda>v. case v of JStr s \<Rightarrow> Inr s | _ \<Rightarrow> Inl (PyError ''TypeError'')))"

text \<open>The two polls of an order every half second: before the round the status is looked at, or after it.\<close>

fun poll_paid :: "nat \<Rightarrow> uuid \<Rightarrow> rat \<Rightarrow> int \<times> json \<Rightarrow> (int \<times> json) drill" where
  "poll_paid 0 oid deadline current = dreturn (Inr current)"
| "poll_paid (Suc n) oid deadline current =
     dbind (body_status current) (\<lambda>status.
       if status = Some (JStr ''PAID'') then dreturn (Inr current)
       else dbind drill_clock (\<lambda>t.
         if t < deadline then dbind drill_pause (\<lambda>_. dbind (drill_request (Call_order oid)) (poll_paid n oid deadline))
         else dreturn (Inr current)))"

fun poll_fulfilled :: "nat \<Rightarrow> uuid \<Rightarrow> rat \<Rightarrow> int \<times> json \<Rightarrow> (int \<times> json) drill" where
  "poll_fulfilled 0 oid deadline current = dreturn (Inr current)"
| "poll_fulfilled (Suc n) oid deadline current =
     dbind drill_clock (\<lambda>t.
       if t < deadline then
         dbind (drill_request (Call_order oid)) (\<lambda>current.
         dbind (body_status current) (\<lambda>status.
           if status = Some (JStr ''FULFILLED'') then dreturn (Inr current)
           else dbind drill_pause (\<lambda>_. poll_fulfilled n oid deadline current)))
       else dreturn (Inr current))"

text \<open>The rows of the last round; a loop without a round leaves the name unbound.\<close>

fun poll_deliveries :: "nat \<Rightarrow> rat \<Rightarrow> int list list option \<Rightarrow> int list list drill" where
  "poll_deliveries 0 deadline rows = dreturn (case rows of None \<Rightarrow> Inl (PyError ''UnboundLocalError'') | Some rs \<Rightarrow> Inr rs)"
| "poll_deliveries (Suc n) deadline rows =
     dbind drill_clock (\<lambda>t.
       if t < deadline then
         dbind (drill_query ''deliveries'') (\<lambda>rs. dbind (dreturn (first_cell rs)) (\<lambda>k.
           if k \<ge> 5 then dreturn (Inr rs) else dbind drill_pause (\<lambda>_. poll_deliveries n deadline (Some rs))))
       else dreturn (case rows of None \<Rightarrow> Inl (PyError ''UnboundLocalError'') | Some rs \<Rightarrow> Inr rs))"

section \<open>The cases of the failure drill\<close>

definition outage_case :: "string \<Rightarrow> seat_id \<Rightarrow> string \<Rightarrow> string \<Rightarrow> unit drill" where
  "outage_case service seat key conflict_key =
     dbind (dfinally
       (dbind (compose_stop service) (\<lambda>_.
        dbind drill_pause (\<lambda>_.
        dbind (drill_request (Call_hold seat key)) (\<lambda>during. dassert (fst during = 503)))))
       (compose_start service)) (\<lambda>_.
     dbind drill_ready (\<lambda>_.
     dbind (drill_query ''failed key records'') (\<lambda>rows.
     dbind (dreturn (first_cell rows)) (\<lambda>records.
     dbind (dassert (records = 0)) (\<lambda>_.
     dbind (drill_request (Call_hold seat key)) (\<lambda>first.
     dbind (dassert (fst first = 201)) (\<lambda>_.
     dbind (drill_request (Call_hold seat key)) (\<lambda>repeated.
     dbind (dassert (fst repeated = 201 \<and> snd repeated = snd first)) (\<lambda>_.
     dbind (drill_request (Call_hold seat conflict_key)) (\<lambda>conflict.
     dbind (dassert (fst conflict = 409)) (\<lambda>_.
     dbind (body_index ''code'' conflict) (\<lambda>code.
     dbind (dassert (code \<in> {JStr ''SEAT_BUSY'', JStr ''SEAT_UNAVAILABLE''})) (\<lambda>_.
     dbind (body_id ''hold_id'' first) (\<lambda>hold_id.
     dbind (drill_query (''owners of '' @ hold_id)) (\<lambda>rows.
     dbind (dreturn (first_cell rows)) (\<lambda>owners. dassert (owners = 1)))))))))))))))))"

definition kafka_outage :: "uuid \<Rightarrow> (int \<times> json) drill" where
  "kafka_outage oid =
     dbind (compose_stop ''kafka'') (\<lambda>_.
     dbind (drill_request (Call_pay oid)) (\<lambda>payment.
     dbind (dassert (fst payment = 202)) (\<lambda>_.
     dbind drill_clock (\<lambda>t.
     dbind (drill_request (Call_order oid)) (\<lambda>current.
     dbind (poll_paid 81 oid (t + 40) current) (\<lambda>current.
     dbind (body_index ''status'' current) (\<lambda>status.
     dbind (dassert (status = JStr ''PAID'')) (\<lambda>_.
     dbind (body_index ''tickets'' current) (\<lambda>ts.
     dbind (dassert (ts = JArr [])) (\<lambda>_.
     dbind (drill_query ''pending paid events'') (\<lambda>rows.
     dbind (dreturn (first_cell rows)) (\<lambda>n.
     dbind (dassert (n = 1)) (\<lambda>_. dreturn (Inr current))))))))))))))"

definition kafka_case :: "seat_id \<Rightarrow> string \<Rightarrow> unit drill" where
  "kafka_case seat key =
     dbind (drill_request (Call_hold seat key)) (\<lambda>held.
     dbind (dassert (fst held = 201)) (\<lambda>_.
     dbind (body_id ''order_id'' held) (\<lambda>oid.
     dbind (dfinally (kafka_outage oid) (compose_start ''kafka'')) (\<lambda>paid.
     dbind drill_clock (\<lambda>started.
     dbind (poll_fulfilled 301 oid (started + 150) paid) (\<lambda>current.
     dbind (body_index ''status'' current) (\<lambda>status.
     dbind (dassert (status = JStr ''FULFILLED'')) (\<lambda>_.
     dbind (body_index ''tickets'' current) (\<lambda>ts.
     dbind (dreturn (py_len ts)) (\<lambda>n.
     dbind (dassert (n = 1)) (\<lambda>_.
     dbind (poll_deliveries 301 (started + 150) None) (\<lambda>rows.
     dbind (dassert (rows = [[5, 5]])) (\<lambda>_.
     dbind (drill_query ''booking, ticket, callback and paid event counts'') (\<lambda>counts.
     dbind (dreturn (case counts of [] \<Rightarrow> Inl (PyError ''IndexError'') | row # _ \<Rightarrow> Inr row)) (\<lambda>row.
     dassert (row = [1, 1, 1, 1]))))))))))))))))"

record drill_args =
  da_output_exists :: bool
  da_seat_offset :: int
  da_environment :: string
  da_expires :: rat
  da_now :: rat

definition drill_checks :: "drill_args \<Rightarrow> unit result" where
  "drill_checks a =
     ebind (require (\<not> da_output_exists a) (PyError ''SystemExit'')) (\<lambda>_.
     ebind (require (0 \<le> da_seat_offset a \<and> da_seat_offset a \<le> 297) (PyError ''SystemExit'')) (\<lambda>_.
     ebind (require (da_environment a = ''development'') (PyError ''SystemExit'')) (\<lambda>_.
     require (da_expires a > da_now a + 15 * 60) (PyError ''SystemExit''))))"

definition drill_seat :: "drill_args \<Rightarrow> nat \<Rightarrow> seat_id" where
  "drill_seat a i = seat_name (nat (da_seat_offset a) + i)"

text \<open>\<open>keys\<close> are the fresh idempotency keys of the run.\<close>

definition failure_drill :: "(nat \<Rightarrow> string) \<Rightarrow> drill_args \<Rightarrow> unit drill" where
  "failure_drill keys a =
     dbind (dreturn (drill_checks a)) (\<lambda>_.
     dbind drill_ready (\<lambda>_.
     dbind (drill_query ''unused seats'') (\<lambda>rows.
     dbind (dassert (rows = [[3, 0]])) (\<lambda>_.
     dbind (outage_case ''redis'' (drill_seat a 0) (keys 0) (keys 1)) (\<lambda>_.
     dbind (outage_case ''postgres'' (drill_seat a 1) (keys 2) (keys 3)) (\<lambda>_.
     kafka_case (drill_seat a 2) (keys 4)))))))"

section \<open>The local recovery drill\<close>

definition raise_for_status :: "int \<times> json \<Rightarrow> unit drill" where
  "raise_for_status reply = dreturn (require (fst reply < 400) (PyError ''HTTPStatusError''))"

text \<open>The first event and the last seat of its map that is free.\<close>


definition first_event :: "int \<times> json \<Rightarrow> string drill" where
  "first_event reply = (case snd reply of
     JArr (e # _) \<Rightarrow> body_id ''id'' (fst reply, e)
   | JArr [] \<Rightarrow> dreturn (Inl (PyError ''IndexError''))
   | JObj _ \<Rightarrow> dreturn (Inl (PyError ''KeyError''))
   | _ \<Rightarrow> dreturn (Inl (PyError ''TypeError'')))"

fun available_seats :: "json list \<Rightarrow> json list result" where
  "available_seats [] = Inr []"
| "available_seats (s # ss) =
     ebind (jindex ''status'' s) (\<lambda>status. ebind (available_seats ss) (\<lambda>rest.
       Inr (if status = JStr ''AVAILABLE'' then s # rest else rest)))"

definition last_available :: "int \<times> json \<Rightarrow> string drill" where
  "last_available reply =
     dbind (body_index ''seats'' reply) (\<lambda>v.
     dbind (dreturn (case v of JArr ss \<Rightarrow> available_seats ss | _ \<Rightarrow> Inl (PyError ''TypeError''))) (\<lambda>xs.
       if xs = [] then dreturn (Inl (PyError ''IndexError'')) else body_id ''seat_id'' (fst reply, last xs)))"

text \<open>A round of the first loop every 0.3 seconds for 20 seconds; the order of the last round is kept.\<close>

fun recovery_paid :: "nat \<Rightarrow> uuid \<Rightarrow> rat \<Rightarrow> (int \<times> json) option \<Rightarrow> (int \<times> json) drill" where
  "recovery_paid 0 oid deadline seen = dreturn (case seen of None \<Rightarrow> Inl (PyError ''UnboundLocalError'') | Some r \<Rightarrow> Inr r)"
| "recovery_paid (Suc n) oid deadline seen =
     dbind drill_clock (\<lambda>t.
       if t < deadline then
         dbind (drill_request (Call_order oid)) (\<lambda>current.
         dbind (body_index ''status'' current) (\<lambda>status.
           if status = JStr ''PAID'' then dreturn (Inr current) else dbind drill_pause (\<lambda>_. recovery_paid n oid deadline (Some current))))
       else dreturn (case seen of None \<Rightarrow> Inl (PyError ''UnboundLocalError'') | Some r \<Rightarrow> Inr r))"

fun recovery_fulfilled :: "nat \<Rightarrow> uuid \<Rightarrow> rat \<Rightarrow> unit drill" where
  "recovery_fulfilled 0 oid deadline = dassert False"
| "recovery_fulfilled (Suc n) oid deadline =
     dbind drill_clock (\<lambda>t.
       if t < deadline then
         dbind (drill_request (Call_order oid)) (\<lambda>current.
         dbind (body_index ''status'' current) (\<lambda>status.
           if status = JStr ''FULFILLED'' then dbind (body_index ''tickets'' current) (\<lambda>ts. dbind (dreturn (py_len ts)) (\<lambda>n. dassert (n = 1)))
           else dbind drill_pause (\<lambda>_. recovery_fulfilled n oid deadline)))
       else dassert False)"

definition recovery_outage :: "uuid \<Rightarrow> unit drill" where
  "recovery_outage oid =
     dbind (compose_stop ''kafka'') (\<lambda>_.
     dbind (drill_request (Call_pay oid)) (\<lambda>payment.
     dbind (raise_for_status payment) (\<lambda>_.
     dbind drill_clock (\<lambda>t.
     dbind (recovery_paid 68 oid (t + 20) None) (\<lambda>order.
     dbind (body_index ''status'' order) (\<lambda>status.
     dbind (dassert (status = JStr ''PAID'')) (\<lambda>_.
     dbind (body_index ''tickets'' order) (\<lambda>ts. dassert (ts = JArr [])))))))))"

definition recovery_drill :: "string \<Rightarrow> unit drill" where
  "recovery_drill key =
     dbind (drill_request (Call_get ''/v1/events'')) (\<lambda>es.
     dbind (first_event es) (\<lambda>event_id.
     dbind (drill_request (Call_get (''/v1/events/'' @ event_id @ ''/seats''))) (\<lambda>seats.
     dbind (last_available seats) (\<lambda>seat.
     dbind (drill_request (Call_hold seat key)) (\<lambda>held.
     dbind (raise_for_status held) (\<lambda>_.
     dbind (body_id ''order_id'' held) (\<lambda>oid.
     dbind (dfinally (recovery_outage oid) (compose_start ''kafka'')) (\<lambda>_.
     dbind drill_clock (\<lambda>t. recovery_fulfilled 181 oid (t + 90))))))))))"

section \<open>Every stop is followed by a start\<close>

text \<open>The services that were stopped and not started again.\<close>

fun still_down :: "drill_call list \<Rightarrow> string list \<Rightarrow> string list" where
  "still_down [] ss = ss"
| "still_down (Call_stop s # cs) ss = still_down cs (s # ss)"
| "still_down (Call_start s # cs) ss = still_down cs (removeAll s ss)"
| "still_down (_ # cs) ss = still_down cs ss"

lemma still_down_append: "still_down (cs @ cs') ss = still_down cs' (still_down cs ss)"
  by (induction cs ss rule: still_down.induct) simp_all

definition keeps_services :: "'a drill \<Rightarrow> bool" where
  "keeps_services m \<longleftrightarrow> (\<forall>ou past. still_down (snd (m ou past)) [] = still_down past [])"

definition restores_services :: "'a drill \<Rightarrow> bool" where
  "restores_services m \<longleftrightarrow> (\<forall>ou past. still_down past [] = [] \<longrightarrow> still_down (snd (m ou past)) [] = [])"

named_theorems keeps

lemma keeps_return [keeps]: "keeps_services (dreturn r)" "keeps_services (dassert b)" "keeps_services (body_status reply)"
  "keeps_services (body_index k reply)" "keeps_services (body_id k reply)" "keeps_services (raise_for_status reply)"
  by (simp_all add: keeps_services_def dreturn_def dassert_def body_status_def body_index_def body_id_def raise_for_status_def)

lemma keeps_perform [keeps]: "keeps_services drill_clock" "keeps_services drill_pause" "keeps_services (drill_query q)"
  "keeps_services (drill_request Call_probe)" "keeps_services (drill_request (Call_hold seat key))"
  "keeps_services (drill_request (Call_pay oid))" "keeps_services (drill_request (Call_order oid))" "keeps_services (drill_request (Call_get p))"
  by (simp_all add: keeps_services_def perform_def drill_clock_def drill_pause_def drill_query_def drill_request_def still_down_append)

lemma keeps_bind [keeps]: "keeps_services m \<Longrightarrow> (\<And>x. keeps_services (f x)) \<Longrightarrow> keeps_services (dbind m f)"
  unfolding keeps_services_def dbind_def by (auto split: prod.splits sum.splits) (metis snd_conv)+

lemma keeps_if [keeps]: "keeps_services m \<Longrightarrow> keeps_services m' \<Longrightarrow> keeps_services (if b then m else m')"
  by simp

lemma keeps_probe [keeps]: "keeps_services (\<lambda>ou past. case drill_request Call_probe ou past of
    (Inl (PyError e), past') \<Rightarrow> if e \<in> {''URLError'', ''TimeoutError''} then (Inr False, past') else (Inl (PyError e), past')
  | (Inl x, past') \<Rightarrow> (Inl x, past')
  | (Inr (status, _), past') \<Rightarrow> (Inr (status = 200), past'))"
  using keeps_perform(4) unfolding keeps_services_def by (auto split: prod.splits sum.splits exc.splits) (metis snd_conv)+

lemma keeps_loops [keeps]:
  "keeps_services (ready_rounds n started)" "keeps_services (poll_paid n oid deadline current)"
  "keeps_services (poll_fulfilled n oid deadline current)" "keeps_services (poll_deliveries n deadline rows)"
  "keeps_services (recovery_paid n oid deadline seen)" "keeps_services (recovery_fulfilled n oid deadline)"
proof -
  show "keeps_services (ready_rounds n started)" by (induction n) (auto intro!: keeps)
  show "keeps_services (poll_paid n oid deadline current)" by (induction n arbitrary: current) (auto intro!: keeps)
  show "keeps_services (poll_fulfilled n oid deadline current)" by (induction n arbitrary: current) (auto intro!: keeps)
  show "keeps_services (poll_deliveries n deadline rows)" by (induction n arbitrary: rows) (auto intro!: keeps)
  show "keeps_services (recovery_paid n oid deadline seen)" by (induction n arbitrary: seen) (auto intro!: keeps)
  show "keeps_services (recovery_fulfilled n oid deadline)" by (induction n) (auto intro!: keeps)
qed

lemma keeps_ready [keeps]: "keeps_services drill_ready"
  unfolding drill_ready_def by (auto intro!: keeps)

lemma restores_keeps: "keeps_services m \<Longrightarrow> restores_services m"
  by (simp add: keeps_services_def restores_services_def)

lemma restores_bind: "restores_services m \<Longrightarrow> (\<And>x. restores_services (f x)) \<Longrightarrow> restores_services (dbind m f)"
  unfolding restores_services_def dbind_def by (auto split: prod.splits sum.splits) (metis snd_conv)+

text \<open>The bracket of an outage: whatever happens between them, the stop of a service is followed by its start.\<close>

lemma restores_bracket:
  assumes "\<And>x. keeps_services (f x)"
  shows "restores_services (dfinally (dbind (compose_stop s) f) (compose_start s))"
proof -
  have "still_down (snd (dfinally (dbind (compose_stop s) f) (compose_start s) ou past)) [] = []" if up: "still_down past [] = []" for ou past
  proof -
    obtain r past' where m: "dbind (compose_stop s) f ou past = (r, past')" by (rule prod.exhaust)
    have "still_down past' [] = [s]"
    proof (cases "ou_compose ou (length past)")
      case (Inl x)
      then show ?thesis using m up by (auto simp: dbind_def compose_stop_def perform_def still_down_append)
    next
      case (Inr u)
      then have "f () ou (past @ [Call_stop s]) = (r, past')" using m by (simp add: dbind_def compose_stop_def perform_def)
      then have "still_down past' [] = still_down (past @ [Call_stop s]) []" using assms unfolding keeps_services_def by (metis snd_conv)
      then show ?thesis using up by (simp add: still_down_append)
    qed
    then show ?thesis using m
      by (auto simp: dfinally_def compose_start_def perform_def still_down_append split: sum.splits)
  qed
  then show ?thesis by (simp add: restores_services_def)
qed

lemma restores_outage: "restores_services (outage_case service seat key conflict_key)"
  unfolding outage_case_def by (intro restores_bind restores_bracket restores_keeps keeps)

lemma restores_kafka: "restores_services (kafka_case seat key)"
  unfolding kafka_case_def kafka_outage_def by (intro restores_bind restores_bracket restores_keeps keeps)

text \<open>
  Fact.  However a drill ends (an assertion that fails, a call that raises, a readiness wait that is given up,
  or success), every service it stopped has been started again afterwards.
\<close>

theorem drills_restart_services:
  "still_down (snd (failure_drill keys a ou [])) [] = [] \<and> still_down (snd (recovery_drill key ou [])) [] = []"
proof
  have "restores_services (failure_drill keys a)"
    unfolding failure_drill_def by (intro restores_bind restores_outage restores_kafka restores_keeps keeps)
  then show "still_down (snd (failure_drill keys a ou [])) [] = []" by (simp add: restores_services_def)
  have "keeps_services (first_event r)" for r
    by (auto simp: first_event_def intro!: keeps split: json.splits list.splits)
  moreover have "keeps_services (last_available r)" for r unfolding last_available_def by (intro keeps)
  ultimately have "restores_services (recovery_drill key)"
    unfolding recovery_drill_def recovery_outage_def by (intro restores_bind restores_bracket restores_keeps keeps)
  then show "still_down (snd (recovery_drill key ou [])) [] = []" by (simp add: restores_services_def)
qed

section \<open>The waiting bounds\<close>

text \<open>A round of \<open>ready\<close> takes at least its second of sleep, so 121 rounds never end before the two minutes do.\<close>

lemma ready_rounds_enough:
  assumes "\<And>k. ou_clock ou k + 1 \<le> ou_clock ou (k + 3)"
    and "120 - (ou_clock ou (length past) - started) \<le> of_nat n"
  shows "ready_rounds (Suc n + m) started ou past = ready_rounds (Suc n) started ou past"
  using assms(2)
proof (induction n arbitrary: past)
  case 0
  then show ?case by (cases m) (simp_all add: dbind_def drill_clock_def perform_def dreturn_def)
next
  case (Suc n)
  let ?p = "past @ [Call_clock] @ [Call_probe] @ [Call_sleep]"
  have "ready_rounds (Suc n + m) started ou ?p = ready_rounds (Suc n) started ou ?p"
    by (rule Suc.IH) (use assms(1) [of "length past"] Suc.prems in \<open>simp add: numeral_3_eq_3\<close>)
  then show ?case
    by (auto simp: dbind_def drill_clock_def drill_pause_def drill_request_def perform_def split: sum.splits exc.splits)
qed

lemma ready_within_rounds:
  assumes "\<And>k. ou_clock ou k + 1 \<le> ou_clock ou (k + 3)" and "ou_clock ou (length past) \<le> ou_clock ou (length past + 1)"
  shows "dbind drill_clock (ready_rounds (121 + m)) ou past = drill_ready ou past"
proof -
  have "ready_rounds (Suc 120 + m) (ou_clock ou (length past)) ou (past @ [Call_clock]) =
      ready_rounds (Suc 120) (ou_clock ou (length past)) ou (past @ [Call_clock])"
    by (rule ready_rounds_enough [OF assms(1)]) (use assms(2) in simp)
  then show ?thesis by (simp add: drill_ready_def dbind_def drill_clock_def perform_def)
qed

section \<open>The drill against the hold endpoint\<close>

text \<open>A request whose calls go through: the limiter admits it, the shield is free, no row is locked.\<close>

definition served :: "ctx \<Rightarrow> string \<Rightarrow> uuid \<Rightarrow> seat_id \<Rightarrow> world \<Rightarrow> bool" where
  "served X who e seat w \<longleftrightarrow> fst (rate_limit (cx_rate_up X) (cx_redis_time X) who (w_rates w)) = Inr () \<and>
     (\<exists>sh. shield_enter (cx_up_in X) (cx_t_in X) (cx_token X) e [seat] (w_shields w) = Inr sh) \<and>
     (\<forall>l. \<not> e_locked (cx_env X) l)"

lemma served_hold:
  assumes "served X who e seat w" and "actor_of decode tok = Inr who" and "key_input key" and "seat \<noteq> []" "length seat \<le> 64"
    and "reservation_mode S \<noteq> ''redis-first''" and "hold_endpoint decode S X rid tok e [seat] key w = (r, w')"
  shows "reserve_tx (cx_env X) (hold_seconds S) who e [seat] key (w_db w) = Inr (resp, d') \<Longrightarrow>
      rs_status r = hold_status_code resp \<and> rs_body r = resp \<and> w_db w' = d'"
    and "reserve_tx (cx_env X) (hold_seconds S) who e [seat] key (w_db w) = Inl x \<Longrightarrow> r = error_response rid x \<and> w_db w' = w_db w"
proof -
  obtain rs where rate: "rate_limit (cx_rate_up X) (cx_redis_time X) who (w_rates w) = (Inr (), rs)"
    using assms(1) by (cases "rate_limit (cx_rate_up X) (cx_redis_time X) who (w_rates w)") (simp add: served_def)
  obtain sh where sh: "shield_enter (cx_up_in X) (cx_t_in X) (cx_token X) e [seat] (w_shields w) = Inr sh"
    using assms(1) by (auto simp: served_def)
  have pg: "store_reserve S = postgres_reserve S" using assms(6) by (simp add: store_reserve_def)
  note body = hold_endpoint_def hold_body_def service_reserve_def pg postgres_reserve_def reserve_def transaction_def hold_input_def Let_def
  show "rs_status r = hold_status_code resp \<and> rs_body r = resp \<and> w_db w' = d'"
    if "reserve_tx (cx_env X) (hold_seconds S) who e [seat] key (w_db w) = Inr (resp, d')"
    using assms(2-5,7) rate sh that by (auto simp: body)
  show "r = error_response rid x \<and> w_db w' = w_db w"
    if "reserve_tx (cx_env X) (hold_seconds S) who e [seat] key (w_db w) = Inl x"
    using assms(2-5,7) rate sh that by (auto simp: body)
qed

text \<open>The two queries of the case.\<close>

definition records_query :: "string \<Rightarrow> db \<Rightarrow> nat" where
  "records_query key d = length (filter (\<lambda>k. k_operation k = ''hold'' \<and> k_key k = key) (idempotency_records d))"

definition owners_query :: "uuid \<Rightarrow> seat_id \<Rightarrow> uuid \<Rightarrow> time \<Rightarrow> db \<Rightarrow> nat" where
  "owners_query e seat hold now d =
     length (filter (\<lambda>s. s_event s = e \<and> s_id s = seat \<and> s_hold s = Some hold \<and> (case s_until s of None \<Rightarrow> False | Some u \<Rightarrow> u > now)) (event_seats d))"

lemma filter_updated: "(\<And>x. P x \<Longrightarrow> P (f x)) \<Longrightarrow> filter P (upd_where P f xs) = map f (filter P xs)"
  by (induction xs) (auto simp: upd_where_def)

lemma singleton_sort: "length (sort_key f xs) = 1 \<Longrightarrow> \<exists>x. xs = [x]"
  by (cases xs) (auto simp: length_Suc_conv)

text \<open>The state after a hold under a new key.\<close>

lemma hold_state:
  assumes tx: "reserve_tx E hs who e [seat] key d = Inr (resp, d')"
    and new: "(who, ''hold'', key) \<notin> idem_key ` set (idempotency_records d)"
  obtains sale s where "find_event e d' = Some sale" and "ev_sale_starts sale \<le> e_now E"
    and "filter (\<lambda>x. s_event x = e \<and> s_id x = seat) (event_seats d') = [s]"
    and "s_hold s = Some (e_uuid E 0)" and "s_until s = Some (e_now E + hs * 1000000)" and "s_event s = e" and "s_id s = seat"
    and "jget ''hold_id'' resp = Some (JStr (e_uuid E 0))" and "hold_status_code resp = 201"
  using tx
proof (cases rule: reserve_tx_cases)
  case replay
  then show ?thesis by (rule idem_replay) (use new in force)
next
  case (created sale d1 d2)
  note eff = create_hold_effect(1) [OF created(7)]
  let ?P = "\<lambda>x. s_event x = e \<and> s_id x = seat"
  let ?f = "take_seat (e_uuid E 0) (e_now E + hs * 1000000)"
  have "length (sort_key s_id (filter ?P (event_seats d1))) = 1" using created(5) by (simp add: select_seats_def)
  then obtain s where s: "filter ?P (event_seats d1) = [s]" using singleton_sort by blast
  then have sp: "s_event s = e" "s_id s = seat" using filter_eq_ConsD [OF s] by auto
  have "filter ?P (upd_where ?P ?f (event_seats d1)) = map ?f (filter ?P (event_seats d1))"
    by (rule filter_updated) (simp add: take_seat_def)
  then have "filter ?P (event_seats d') = [?f s]" using s eff created(9) by (simp add: remember_def)
  moreover have "find_event e d' = Some sale" using created(2,9) eff by (simp add: remember_def find_event_def)
  ultimately show ?thesis using created(3,8) sp
    by (intro that [of sale "?f s"]) (simp_all add: take_seat_def hold_response_def hold_status_code_def)
qed

text \<open>
  The answers of a run in which \<open>docker compose\<close> succeeds and the first probe after the restart is answered: the
  four hold requests are calls 2, 9, 10 and 11, the queries 8 and 12.
\<close>

definition drill_answers :: "response \<Rightarrow> response \<Rightarrow> response \<Rightarrow> response \<Rightarrow> nat \<Rightarrow> nat \<Rightarrow> outside" where
  "drill_answers during first repeated conflict records owners =
     (let reply = (\<lambda>r. Inr (rs_status r, rs_body r)) in
      \<lparr>ou_compose = (\<lambda>_. Inr ()),
       ou_reply = (\<lambda>k. if k = 2 then reply during else if k = 9 then reply first else if k = 10 then reply repeated
         else if k = 11 then reply conflict else Inr (200, JNull)),
       ou_rows = (\<lambda>k. Inr [[if k = 8 then int records else int owners]]), ou_clock = of_nat\<rparr>)"

lemma ready_at_once:
  assumes "ou_reply ou (length past + 2) = Inr (200, body)" and "ou_clock ou (length past + 1) - ou_clock ou (length past) < 120"
  shows "\<exists>t. drill_ready ou past = (Inr t, past @ [Call_clock, Call_clock, Call_probe, Call_clock])"
proof -
  define n where "n = (120 :: nat)"
  have "ready_rounds 121 = ready_rounds (Suc n)" by (simp add: n_def)
  then show ?thesis using assms
    by (simp add: drill_ready_def dbind_def drill_clock_def drill_request_def perform_def dreturn_def numeral_2_eq_2)
qed

lemma outage_case_passes:
  assumes "rs_status during = 503" and "rs_status first = 201" and "rs_status repeated = 201" "rs_body repeated = rs_body first"
    and "rs_status conflict = 409" and "jindex ''code'' (rs_body conflict) = Inr (JStr ''SEAT_UNAVAILABLE'')"
    and "jindex ''hold_id'' (rs_body first) = Inr (JStr hold)"
  shows "fst (outage_case service seat key conflict_key (drill_answers during first repeated conflict 0 1) []) = Inr ()"
proof -
  define ou where "ou = drill_answers during first repeated conflict 0 1"
  have ou: "ou_compose ou k = Inr ()" "ou_reply ou 2 = Inr (rs_status during, rs_body during)"
    "ou_reply ou 9 = Inr (rs_status first, rs_body first)" "ou_reply ou 10 = Inr (rs_status repeated, rs_body repeated)"
    "ou_reply ou 11 = Inr (rs_status conflict, rs_body conflict)" "ou_rows ou 8 = Inr [[0]]" "ou_rows ou 12 = Inr [[1]]" for k
    by (simp_all add: ou_def drill_answers_def)
  let ?past = "[Call_stop service, Call_sleep, Call_hold seat key, Call_start service]"
  obtain t where ready: "drill_ready ou ?past = (Inr t, ?past @ [Call_clock, Call_clock, Call_probe, Call_clock])"
    using ready_at_once [of ou ?past JNull] by (auto simp: ou_def drill_answers_def)
  have at: "Suc (Suc 0) = 2" "Suc (Suc (Suc (Suc (Suc (Suc (Suc (Suc 0))))))) = 8" "Suc 8 = 9" "Suc 9 = 10" "Suc 10 = 11" "Suc 11 = 12"
    by simp_all
  show ?thesis unfolding ou_def [symmetric]
    by (simp add: outage_case_def dbind_def dfinally_def perform_def dreturn_def dassert_def compose_stop_def compose_start_def
        drill_pause_def drill_request_def drill_query_def first_cell_def body_index_def body_id_def require_def ready
        ou ou [unfolded at [symmetric]] assms)
qed


definition drill_world :: world where
  "drill_world = demo_world\<lparr>w_db := open_db\<rparr>"

definition drill_ctx :: "char \<Rightarrow> time \<Rightarrow> ctx" where
  "drill_ctx c now = demo_ctx\<lparr>cx_env := stage_env c now\<rparr>"

definition drill_hold :: "ctx \<Rightarrow> string \<Rightarrow> world \<Rightarrow> response \<times> world" where
  "drill_hold X key w = hold_endpoint demo_claims default_settings X ''q'' ''bob'' ''e'' [''A1''] key w"

lemma served_demo: "served (drill_ctx c now) ''bob'' ''e'' ''A1'' (drill_world\<lparr>w_db := d\<rparr>)"
proof -
  have "fst (rate_limit True 2500 ''bob'' Map.empty) = Inr ()" "\<exists>sh. shield_enter True 2500 ''t'' ''e'' [''A1''] Map.empty = Inr sh"
    by (simp_all add: rate_limit_def rate_script_def shield_enter_def acquire_script_def redis_get_def)
  then show ?thesis by (simp add: served_def drill_ctx_def drill_world_def demo_ctx_def demo_world_def stage_env_def)
qed

definition drill_db :: db where
  "drill_db = w_db (snd (drill_hold (drill_ctx CHR ''r'' 1000) ''fault'' drill_world))"

lemma drill_ctx_simps [simp]:
  "e_now (cx_env (drill_ctx c now)) = now" "e_sha (cx_env (drill_ctx c now)) = (\<lambda>_. ''h'')"
  "e_uuid (cx_env (drill_ctx c now)) 0 = [c, CHR ''0'']"
proof -
  have "nat_str 0 = [CHR ''0'']" by code_simp
  then show "e_uuid (cx_env (drill_ctx c now)) 0 = [c, CHR ''0'']" by (simp add: drill_ctx_def stage_env_def)
qed (simp_all add: drill_ctx_def stage_env_def)


end
