(* ===== verification/Observers.thy ===== *)
theory Observers
  imports Pressure
begin

text \<open>
  Two observers that sample in rounds: the scheduling of the load generator (\<open>scripts/generator_observe.py\<close>) and
  the lag of a Kafka consumer group (\<open>kafka_lag_observe.py\<close>).  The texts of \<open>/proc\<close> and of the Kafka tool, the
  clocks and \<open>int\<close> on a text (\<open>to_int\<close>) are parameters, and quotients are exact where the scripts round them to
  three decimals.  The loop that all observers share is stated once, with a locale for what a round does to the
  counters.
\<close>

section \<open>The loop\<close>

text \<open>\<open>going k\<close> is the condition before round \<open>k\<close>; \<open>None\<close> means that the fuel ended first.\<close>

fun sample_loop :: "(nat \<Rightarrow> bool) \<Rightarrow> (nat \<Rightarrow> 's \<Rightarrow> 's) \<Rightarrow> nat \<Rightarrow> nat \<Rightarrow> 's \<Rightarrow> 's option" where
  "sample_loop going sample k 0 s = None"
| "sample_loop going sample k (Suc fuel) s =
     (if going k then sample_loop going sample (k + 1) fuel (sample k s) else Some s)"

locale sampler =
  fixes sample :: "nat \<Rightarrow> 's \<Rightarrow> 's" and failed :: "nat \<Rightarrow> bool" and samples :: "'s \<Rightarrow> nat" and errors :: "'s \<Rightarrow> nat"
  assumes sample_counted: "samples (sample k s) = samples s + 1"
    and error_counted: "errors (sample k s) = errors s + (if failed k then 1 else 0)"
begin

text \<open>A loop whose condition fails at round \<open>k + n\<close> at the latest ends with at most \<open>n\<close> further samples.\<close>

lemma loop_ends:
  assumes "\<And>i. k + n \<le> i \<Longrightarrow> \<not> going i"
  shows "\<exists>s'. sample_loop going sample k (Suc n) s = Some s' \<and> samples s' \<le> samples s + n"
  using assms
proof (induction n arbitrary: k s)
  case (Suc n)
  show ?case
  proof (cases "going k")
    case True
    have "\<exists>s'. sample_loop going sample (k + 1) (Suc n) (sample k s) = Some s' \<and> samples s' \<le> samples (sample k s) + n"
      by (rule Suc.IH) (use Suc.prems in simp)
    then show ?thesis using True by (auto simp: sample_counted)
  qed simp
qed simp

lemma loop_counts:
  "sample_loop going sample k fuel s = Some s' \<Longrightarrow>
    \<exists>n. samples s' = samples s + n \<and> errors s' = errors s + length (filter failed [k..<k + n]) \<and> (\<forall>i\<in>{k..<k + n}. going i) \<and> \<not> going (k + n)"
proof (induction fuel arbitrary: k s)
  case (Suc fuel)
  show ?case
  proof (cases "going k")
    case True
    then obtain n where n: "samples s' = samples (sample k s) + n" "errors s' = errors (sample k s) + length (filter failed [k + 1..<k + 1 + n])"
      "\<forall>i\<in>{k + 1..<k + 1 + n}. going i" "\<not> going (k + 1 + n)"
      using Suc.IH [of "k + 1" "sample k s"] Suc.prems by auto
    have "[k..<k + Suc n] = k # [k + 1..<k + 1 + n]" by (simp add: upt_conv_Cons)
    moreover have "going i" if "i \<in> {k..<k + Suc n}" for i using n(3) True that by (cases "i = k") auto
    ultimately show ?thesis using n by (intro exI [of _ "Suc n"]) (simp add: sample_counted error_counted)
  qed (use Suc.prems in \<open>auto intro: exI [of _ 0]\<close>)
qed simp

text \<open>No error counted means that no round failed.\<close>

lemma loop_clean:
  assumes "sample_loop going sample k fuel s = Some s'" and "samples s = 0" and "errors s' = 0"
  shows "\<forall>i\<in>{k..<k + samples s'}. \<not> failed i"
proof -
  obtain n where n: "samples s' = samples s + n" "errors s' = errors s + length (filter failed [k..<k + n])"
    using loop_counts [OF assms(1)] by blast
  then have "filter failed [k..<k + n] = []" using assms(3) by simp
  then show ?thesis using n(1) assms(2) by (auto simp: filter_empty_conv)
qed

end

section \<open>Texts\<close>

text \<open>\<open>split()\<close>: the words between white space.\<close>

function words :: "string \<Rightarrow> string list" where
  "words s =
     (let t = dropWhile is_space s in
      if t = [] then [] else takeWhile (\<lambda>c. \<not> is_space c) t # words (dropWhile (\<lambda>c. \<not> is_space c) t))"
  by auto

lemma word_shorter:
  assumes "dropWhile P s \<noteq> []"
  shows "length (dropWhile (\<lambda>c. \<not> P c) (dropWhile P s)) < length s"
proof -
  have "\<not> P (hd (dropWhile P s))" by (rule hd_dropWhile [OF assms])
  then have "length (dropWhile (\<lambda>c. \<not> P c) (dropWhile P s)) < length (dropWhile P s)"
    using assms length_dropWhile_le [of "\<lambda>c. \<not> P c" "tl (dropWhile P s)"] by (cases "dropWhile P s") auto
  then show ?thesis using length_dropWhile_le [of P s] by linarith
qed

termination words
  by (relation "measure length") (auto intro: word_shorter [where P = is_space])

declare words.simps [simp del]

text \<open>\<open>partition(c)\<close> and \<open>split(c, 1)\<close>: the text before the first \<open>c\<close> and, when there is one, the text after it.\<close>

definition cut :: "char \<Rightarrow> string \<Rightarrow> string \<times> string option" where
  "cut c s = (takeWhile (\<lambda>x. x \<noteq> c) s, if c \<in> set s then Some (tl (dropWhile (\<lambda>x. x \<noteq> c) s)) else None)"

fun ints_of :: "(string \<Rightarrow> int option) \<Rightarrow> string list \<Rightarrow> int list result" where
  "ints_of to_int [] = Inr []"
| "ints_of to_int (w # ws) =
     (case to_int w of None \<Rightarrow> Inl (PyError ''ValueError'') | Some i \<Rightarrow> ebind (ints_of to_int ws) (\<lambda>is. Inr (i # is)))"

section \<open>The generator's machine\<close>

definition CPU_NAMES :: "string list" where
  "CPU_NAMES = [''user'', ''nice'', ''system'', ''idle'', ''iowait'', ''irq'', ''softirq'', ''steal'', ''guest'', ''guest_nice'']"

definition parse_cpu :: "(string \<Rightarrow> int option) \<Rightarrow> string \<Rightarrow> (string \<times> int) list result" where
  "parse_cpu to_int txt =
     (case find (starts_with ''cpu '') (split_lines txt) of
        None \<Rightarrow> Inl (PyError ''ValueError'')
      | Some line \<Rightarrow> ebind (ints_of to_int (tl (words line))) (\<lambda>is. Inr (zip CPU_NAMES is)))"

definition dict_get :: "(string \<times> int) list \<Rightarrow> string \<Rightarrow> int" where
  "dict_get m k = (case map_of m k of None \<Rightarrow> 0 | Some v \<Rightarrow> v)"

record cpu_share =
  cs_busy :: rat
  cs_iowait :: rat
  cs_steal :: rat

definition cpu_delta :: "(string \<times> int) list option \<Rightarrow> (string \<times> int) list \<Rightarrow> cpu_share option" where
  "cpu_delta previous current =
     (case previous of None \<Rightarrow> None
      | Some p \<Rightarrow>
          let delta = map (\<lambda>(name, _). (name, dict_get current name - dict_get p name)) current;
              tot = sum_list (map snd (filter (\<lambda>(name, _). name \<notin> {''guest'', ''guest_nice''}) delta));
              idle = dict_get delta ''idle'' + dict_get delta ''iowait'' in
          if tot \<le> 0 then None
          else Some \<lparr>cs_busy = of_int (tot - idle) * 100 / of_int tot, cs_iowait = of_int (dict_get delta ''iowait'') * 100 / of_int tot,
            cs_steal = of_int (dict_get delta ''steal'') * 100 / of_int tot\<rparr>)"

text \<open>\<open>to_num\<close> is \<open>float\<close>, and \<open>int\<close> for the key \<open>total\<close>.\<close>

fun pressure_values :: "(string \<Rightarrow> string \<Rightarrow> rat option) \<Rightarrow> string list \<Rightarrow> (string \<times> rat) list \<Rightarrow> (string \<times> rat) list result" where
  "pressure_values to_num [] vs = Inr vs"
| "pressure_values to_num (w # ws) vs =
     (case cut (CHR ''='') w of
        (key, None) \<Rightarrow> Inl (PyError ''ValueError'')
      | (key, Some raw) \<Rightarrow>
          (case to_num key raw of None \<Rightarrow> Inl (PyError ''ValueError'') | Some v \<Rightarrow> pressure_values to_num ws (dict_put key v vs)))"

fun pressure_lines ::
  "(string \<Rightarrow> string \<Rightarrow> rat option) \<Rightarrow> string list \<Rightarrow> (string \<times> (string \<times> rat) list) list \<Rightarrow> (string \<times> (string \<times> rat) list) list result"
where
  "pressure_lines to_num [] out = Inr out"
| "pressure_lines to_num (l # ls) out =
     (case words l of
        [] \<Rightarrow> pressure_lines to_num ls out
      | w # ws \<Rightarrow> ebind (pressure_values to_num ws []) (\<lambda>vs. pressure_lines to_num ls (dict_put w vs out)))"

definition parse_pressure :: "(string \<Rightarrow> string \<Rightarrow> rat option) \<Rightarrow> string \<Rightarrow> (string \<times> (string \<times> rat) list) list result" where
  "parse_pressure to_num txt = pressure_lines to_num (split_lines txt) []"

record net_totals =
  nt_rx_bytes :: int
  nt_rx_errors :: int
  nt_rx_drops :: int
  nt_tx_bytes :: int
  nt_tx_errors :: int
  nt_tx_drops :: int

definition no_traffic :: net_totals where
  "no_traffic = \<lparr>nt_rx_bytes = 0, nt_rx_errors = 0, nt_rx_drops = 0, nt_tx_bytes = 0, nt_tx_errors = 0, nt_tx_drops = 0\<rparr>"

definition add_interface :: "int list \<Rightarrow> net_totals \<Rightarrow> net_totals" where
  "add_interface vs t =
     (if length vs < 16 then t
      else \<lparr>nt_rx_bytes = nt_rx_bytes t + vs ! 0, nt_rx_errors = nt_rx_errors t + vs ! 2, nt_rx_drops = nt_rx_drops t + vs ! 3,
        nt_tx_bytes = nt_tx_bytes t + vs ! 8, nt_tx_errors = nt_tx_errors t + vs ! 10, nt_tx_drops = nt_tx_drops t + vs ! 11\<rparr>)"

fun net_lines :: "(string \<Rightarrow> int option) \<Rightarrow> string list \<Rightarrow> net_totals \<Rightarrow> net_totals result" where
  "net_lines to_int [] t = Inr t"
| "net_lines to_int (l # ls) t =
     (case cut (CHR '':'') l of
        (name, None) \<Rightarrow> net_lines to_int ls t
      | (name, Some txt) \<Rightarrow>
          if strip name = ''lo'' then net_lines to_int ls t
          else ebind (ints_of to_int (words txt)) (\<lambda>vs. net_lines to_int ls (add_interface vs t)))"

definition parse_net_dev :: "(string \<Rightarrow> int option) \<Rightarrow> string \<Rightarrow> net_totals result" where
  "parse_net_dev to_int txt = net_lines to_int (drop 2 (split_lines txt)) no_traffic"

definition net_delta :: "net_totals option \<Rightarrow> net_totals \<Rightarrow> net_totals option" where
  "net_delta previous c =
     map_option (\<lambda>p. \<lparr>nt_rx_bytes = nt_rx_bytes c - nt_rx_bytes p, nt_rx_errors = nt_rx_errors c - nt_rx_errors p,
       nt_rx_drops = nt_rx_drops c - nt_rx_drops p, nt_tx_bytes = nt_tx_bytes c - nt_tx_bytes p,
       nt_tx_errors = nt_tx_errors c - nt_tx_errors p, nt_tx_drops = nt_tx_drops c - nt_tx_drops p\<rparr>) previous"

text \<open>The four wanted rows, under their names in the report.\<close>

definition MEM_KEYS :: "(string \<times> string) list" where
  "MEM_KEYS = [(''MemTotal'', ''memtotal_kib''), (''MemAvailable'', ''memavailable_kib''), (''SwapTotal'', ''swaptotal_kib''),
     (''SwapFree'', ''swapfree_kib'')]"

fun mem_lines :: "(string \<Rightarrow> int option) \<Rightarrow> string list \<Rightarrow> (string \<times> int) list \<Rightarrow> (string \<times> int) list result" where
  "mem_lines to_int [] out = Inr out"
| "mem_lines to_int (l # ls) out =
     (case map_of MEM_KEYS (fst (cut (CHR '':'') l)) of
        None \<Rightarrow> mem_lines to_int ls out
      | Some name \<Rightarrow>
          (case words (case snd (cut (CHR '':'') l) of None \<Rightarrow> [] | Some rest \<Rightarrow> rest) of
             [] \<Rightarrow> Inl (PyError ''IndexError'')
           | w # _ \<Rightarrow>
               (case to_int w of None \<Rightarrow> Inl (PyError ''ValueError'') | Some v \<Rightarrow> mem_lines to_int ls (dict_put name v out))))"

definition parse_meminfo :: "(string \<Rightarrow> int option) \<Rightarrow> string \<Rightarrow> (string \<times> int) list result" where
  "parse_meminfo to_int txt = mem_lines to_int (split_lines txt) []"

section \<open>The generator's processes\<close>

text \<open>The files of a process that is not the observer; \<open>None\<close>: reading it raises one of the caught errors.\<close>

record proc_files =
  pf_pid :: int
  pf_cmdline :: "string option"
  pf_stat :: "string option"
  pf_status :: "string option"

record proc_row =
  pr_pid :: int
  pr_ticks :: int
  pr_rss :: int
  pr_threads :: int
  pr_voluntary :: int
  pr_nonvoluntary :: int

fun has_infix :: "string \<Rightarrow> string \<Rightarrow> bool" where
  "has_infix needle [] = (needle = [])"
| "has_infix needle (c # cs) = (starts_with needle (c # cs) \<or> has_infix needle cs)"

text \<open>The words after the last closing parenthesis and one more character; without a parenthesis, after the first one.\<close>

definition stat_tail :: "string \<Rightarrow> string list" where
  "stat_tail txt =
     (let s = strip txt in
      words (if CHR '')'' \<in> set s then drop 1 (rev (takeWhile (\<lambda>c. c \<noteq> CHR '')'') (rev s))) else drop 1 s))"

definition status_table :: "string \<Rightarrow> (string \<times> string) list" where
  "status_table txt =
     fold (\<lambda>l out. case cut (CHR '':'') l of (k, Some v) \<Rightarrow> dict_put k (strip v) out | (k, None) \<Rightarrow> out) (split_lines txt) []"

definition status_value :: "(string \<Rightarrow> int option) \<Rightarrow> (string \<times> string) list \<Rightarrow> string \<Rightarrow> int option" where
  "status_value to_int status name =
     (case words (case map_of status name of None \<Rightarrow> ''0'' | Some v \<Rightarrow> v) of [] \<Rightarrow> None | w # _ \<Rightarrow> to_int w)"

text \<open>\<open>None\<close>: the process is skipped.\<close>

definition proc_row_of :: "(string \<Rightarrow> int option) \<Rightarrow> string \<Rightarrow> proc_files \<Rightarrow> proc_row option" where
  "proc_row_of to_int needle p =
     (case (pf_cmdline p, pf_stat p, pf_status p) of
        (Some command, Some stat, Some status) \<Rightarrow>
          if \<not> has_infix needle command then None
          else
            let tail = stat_tail stat; value = status_value to_int (status_table status) in
            if length tail < 13 then None
            else (case (to_int (tail ! 11), to_int (tail ! 12), value ''VmRSS'', value ''Threads'',
                value ''voluntary_ctxt_switches'', value ''nonvoluntary_ctxt_switches'') of
              (Some u, Some v, Some rss, Some threads, Some vol, Some nonvol) \<Rightarrow>
                Some \<lparr>pr_pid = pf_pid p, pr_ticks = u + v, pr_rss = rss, pr_threads = threads, pr_voluntary = vol, pr_nonvoluntary = nonvol\<rparr>
            | _ \<Rightarrow> None)
      | _ \<Rightarrow> None)"

definition process_snapshot :: "(string \<Rightarrow> int option) \<Rightarrow> string \<Rightarrow> proc_files list \<Rightarrow> proc_row list" where
  "process_snapshot to_int needle ps = sort_key pr_pid (List.map_filter (proc_row_of to_int needle) ps)"

record proc_delta =
  pd_cpu :: rat
  pd_voluntary :: int
  pd_nonvoluntary :: int

definition process_delta :: "int \<Rightarrow> proc_row list \<Rightarrow> proc_row list \<Rightarrow> rat \<Rightarrow> proc_delta" where
  "process_delta ticks_per_second previous current elapsed =
     (let pairs = List.map_filter (\<lambda>r. map_option (\<lambda>old. (old, r)) (find (\<lambda>old. pr_pid old = pr_pid r) previous)) current;
          grown = (\<lambda>f. sum_list (map (\<lambda>(old, r). max 0 (f r - f old)) pairs)) in
      \<lparr>pd_cpu = (if elapsed > 0 then of_int (grown pr_ticks) / of_int ticks_per_second / elapsed * 100 else 0),
       pd_voluntary = grown pr_voluntary, pd_nonvoluntary = grown pr_nonvoluntary\<rparr>)"

section \<open>A round of the generator observer\<close>

text \<open>What a round reads; \<open>None\<close> is a file that cannot be read.  The pressure files may be absent.\<close>

record machine_texts =
  mt_stat :: "string option"
  mt_net :: "string option"
  mt_procs :: "proc_files list"
  mt_loadavg :: "string option"
  mt_meminfo :: "string option"
  mt_pressure :: "string option list"

record machine_row =
  mr_cpu :: "cpu_share option"
  mr_net :: "net_totals option"
  mr_generator :: "proc_delta option"

record generator_observer =
  go_cpu :: "(string \<times> int) list option"
  go_net :: "net_totals option"
  go_procs :: "proc_row list"
  go_time :: "rat option"
  go_lags :: "rat list"
  go_errors :: nat
  go_samples :: nat
  go_rows :: "machine_row option list"

definition generator_start :: generator_observer where
  "generator_start = \<lparr>go_cpu = None, go_net = None, go_procs = [], go_time = None, go_lags = [], go_errors = 0, go_samples = 0, go_rows = []\<rparr>"

definition read_text :: "string option \<Rightarrow> string result" where
  "read_text t = (case t of None \<Rightarrow> Inl (PyError ''OSError'') | Some s \<Rightarrow> Inr s)"

fun all_results :: "'a result list \<Rightarrow> 'a list result" where
  "all_results [] = Inr []"
| "all_results (r # rs) = ebind r (\<lambda>x. ebind (all_results rs) (\<lambda>xs. Inr (x # xs)))"

definition machine_sample ::
  "(string \<Rightarrow> int option) \<Rightarrow> (string \<Rightarrow> rat option) \<Rightarrow> (string \<Rightarrow> string \<Rightarrow> rat option) \<Rightarrow> int \<Rightarrow> string \<Rightarrow> rat \<Rightarrow> machine_texts \<Rightarrow> generator_observer \<Rightarrow>
   (machine_row \<times> generator_observer) result"
where
  "machine_sample to_int to_float to_num hz needle now m s =
     ebind (ebind (read_text (mt_stat m)) (parse_cpu to_int)) (\<lambda>cpu.
     ebind (ebind (read_text (mt_net m)) (parse_net_dev to_int)) (\<lambda>net.
     let procs = process_snapshot to_int needle (mt_procs m); elapsed = map_option (\<lambda>t. now - t) (go_time s) in
     ebind (ebind (read_text (mt_loadavg m)) (\<lambda>txt.
       all_results (map (\<lambda>w. case to_float w of None \<Rightarrow> Inl (PyError ''ValueError'') | Some v \<Rightarrow> Inr v) (take 3 (words txt))))) (\<lambda>_.
     ebind (ebind (read_text (mt_meminfo m)) (parse_meminfo to_int)) (\<lambda>_.
     ebind (all_results (map (\<lambda>t. case t of None \<Rightarrow> Inr [] | Some txt \<Rightarrow> parse_pressure to_num txt) (mt_pressure m))) (\<lambda>_.
     Inr (\<lparr>mr_cpu = cpu_delta (go_cpu s) cpu, mr_net = net_delta (go_net s) net,
           mr_generator = (case elapsed of Some e \<Rightarrow> if e > 0 then Some (process_delta hz (go_procs s) procs e) else None | None \<Rightarrow> None)\<rparr>,
         s\<lparr>go_cpu := Some cpu, go_net := Some net, go_procs := procs, go_time := Some now\<rparr>))))))"

definition generator_round ::
  "(generator_observer \<Rightarrow> (machine_row \<times> generator_observer) result) \<Rightarrow> rat \<Rightarrow> rat \<Rightarrow> generator_observer \<Rightarrow> generator_observer"
where
  "generator_round sample now due s =
     (let s = s\<lparr>go_lags := go_lags s @ [max 0 ((now - due) * 1000)]\<rparr>;
          s = (case sample s of
                 Inl _ \<Rightarrow> s\<lparr>go_errors := go_errors s + 1, go_rows := go_rows s @ [None]\<rparr>
               | Inr (row, s') \<Rightarrow> s'\<lparr>go_rows := go_rows s' @ [Some row]\<rparr>) in
      s\<lparr>go_samples := go_samples s + 1\<rparr>)"

definition generator_limits :: "bool \<Rightarrow> int \<Rightarrow> rat \<Rightarrow> bool \<Rightarrow> string \<Rightarrow> bool" where
  "generator_limits linux duration interval output_exists needle \<longleftrightarrow>
     linux \<and> 1 \<le> duration \<and> duration \<le> 7200 \<and> 1 / 5 \<le> interval \<and> interval \<le> 10 \<and> \<not> output_exists \<and> 4 \<le> length needle"

record lag_summary =
  ls_p95 :: "rat option"
  ls_p99 :: "rat option"
  ls_max :: "rat option"

definition lag_summary_of :: "rat list \<Rightarrow> lag_summary" where
  "lag_summary_of lags = \<lparr>ls_p95 = percentile lags (95 / 100), ls_p99 = percentile lags (99 / 100),
     ls_max = (case lags of [] \<Rightarrow> None | x # xs \<Rightarrow> Some (fold max xs x))\<rparr>"

definition generator_exit :: "generator_observer \<Rightarrow> int" where
  "generator_exit s = (if go_errors s = 0 then 0 else 1)"

section \<open>The lag of a consumer group\<close>

definition DESCRIBE_COLUMNS :: "string list" where
  "DESCRIBE_COLUMNS = [''TOPIC'', ''PARTITION'', ''CURRENT-OFFSET'', ''LOG-END-OFFSET'', ''LAG'', ''CONSUMER-ID'']"

text \<open>\<open>list.index\<close>\<close>

fun find_column :: "string \<Rightarrow> string list \<Rightarrow> nat option" where
  "find_column x [] = None"
| "find_column x (y # ys) = (if y = x then Some 0 else map_option Suc (find_column x ys))"

record partition_lag =
  pl_topic :: string
  pl_partition :: int
  pl_current :: int
  pl_end :: int
  pl_lag :: int

definition cell :: "string list \<Rightarrow> string list \<Rightarrow> string \<Rightarrow> string option" where
  "cell header row name = Option.bind (find_column name header) (\<lambda>i. if i < length row then Some (row ! i) else None)"

text \<open>
  The rows with their consumers.  A row with a missing or malformed number or without a consumer is skipped; the
  topic is read outside the \<open>try\<close>.
\<close>

fun describe_rows :: "(string \<Rightarrow> int option) \<Rightarrow> string list \<Rightarrow> string list list \<Rightarrow> (partition_lag \<times> string) list result" where
  "describe_rows to_int header [] = Inr []"
| "describe_rows to_int header (row # rows) =
     (let num = (\<lambda>name. Option.bind (cell header row name) to_int) in
      case (num ''CURRENT-OFFSET'', num ''LOG-END-OFFSET'', num ''LAG'', num ''PARTITION'', cell header row ''CONSUMER-ID'') of
        (Some current, Some end_offset, Some lag, Some part, Some member) \<Rightarrow>
          (case cell header row ''TOPIC'' of
             None \<Rightarrow> Inl (PyError ''IndexError'')
           | Some topic \<Rightarrow> ebind (describe_rows to_int header rows) (\<lambda>rest.
               Inr ((\<lparr>pl_topic = topic, pl_partition = part, pl_current = current, pl_end = end_offset, pl_lag = lag\<rparr>, member) # rest)))
      | _ \<Rightarrow> describe_rows to_int header rows)"

record group_lag =
  gl_total :: int
  gl_max :: int
  gl_assigned :: nat
  gl_members :: nat
  gl_partitions :: "partition_lag list"

definition group_lag_of :: "(partition_lag \<times> string) list \<Rightarrow> group_lag result" where
  "group_lag_of found =
     (let ps = map fst found in
      case map pl_lag ps of
        [] \<Rightarrow> Inl (PyError ''ValueError'')
      | lag # lags \<Rightarrow>
          Inr \<lparr>gl_total = sum_list (lag # lags), gl_max = fold max lags lag, gl_assigned = length ps,
            gl_members = length (remdups (filter (\<lambda>m. m \<noteq> ''-'') (map snd found))), gl_partitions = ps\<rparr>)"

definition parse_describe :: "(string \<Rightarrow> int option) \<Rightarrow> string \<Rightarrow> group_lag result" where
  "parse_describe to_int output =
     (let ls = map words (filter (\<lambda>l. strip l \<noteq> []) (split_lines output)) in
      case dropWhile (\<lambda>row. \<not> (''TOPIC'' \<in> set row \<and> ''PARTITION'' \<in> set row \<and> ''LAG'' \<in> set row)) ls of
        [] \<Rightarrow> Inl (PyError ''ValueError'')
      | header # rest \<Rightarrow>
          if list_ex (\<lambda>name. find_column name header = None) DESCRIBE_COLUMNS then Inl (PyError ''ValueError'')
          else
            ebind (describe_rows to_int header rest) group_lag_of)"

text \<open>
  A round of the loop: a failure of the command and a text that does not parse are recorded by their class, any
  other exception ends the observer.
\<close>

definition lag_sample :: "(string \<Rightarrow> int option) \<Rightarrow> (string + string) \<Rightarrow> (string + group_lag) result" where
  "lag_sample to_int outcome =
     (case outcome of
        Inl name \<Rightarrow> Inr (Inl name)
      | Inr output \<Rightarrow>
          (case parse_describe to_int output of
             Inr g \<Rightarrow> Inr (Inr g)
           | Inl x \<Rightarrow> if x = PyError ''ValueError'' then Inr (Inl ''ValueError'') else Inl x))"

section \<open>Facts\<close>

text \<open>Whether a sample of the machine fails depends on the texts of the round only.\<close>

definition unreadable :: "(string \<Rightarrow> int option) \<Rightarrow> (string \<Rightarrow> rat option) \<Rightarrow> (string \<Rightarrow> string \<Rightarrow> rat option) \<Rightarrow> machine_texts \<Rightarrow> bool" where
  "unreadable to_int to_float to_num m \<longleftrightarrow>
     isl (ebind (read_text (mt_stat m)) (parse_cpu to_int)) \<or> isl (ebind (read_text (mt_net m)) (parse_net_dev to_int)) \<or>
     isl (ebind (read_text (mt_loadavg m)) (\<lambda>txt.
       all_results (map (\<lambda>w. case to_float w of None \<Rightarrow> Inl (PyError ''ValueError'') | Some v \<Rightarrow> Inr v) (take 3 (words txt))))) \<or>
     isl (ebind (read_text (mt_meminfo m)) (parse_meminfo to_int)) \<or>
     isl (all_results (map (\<lambda>t. case t of None \<Rightarrow> Inr [] | Some txt \<Rightarrow> parse_pressure to_num txt) (mt_pressure m)))"

lemma isl_ebind_const: "(\<And>x. isl (f x) = b) \<Longrightarrow> isl (ebind m f) = (isl m \<or> b)"
  by (cases m) simp_all

lemma machine_sample_fails: "isl (machine_sample to_int to_float to_num hz needle now m s) \<longleftrightarrow> unreadable to_int to_float to_num m"
  unfolding machine_sample_def unreadable_def Let_def
  by (rule isl_ebind_const, rule isl_ebind_const, rule isl_ebind_const, rule isl_ebind_const, subst isl_ebind_const [where b = False]) simp_all

lemma generator_round_counts:
  assumes "\<And>t. isl (sample t) \<longleftrightarrow> bad" and "\<And>t row t'. sample t = Inr (row, t') \<Longrightarrow> go_samples t' = go_samples t \<and> go_errors t' = go_errors t"
  shows "go_samples (generator_round sample now due s) = go_samples s + 1 \<and>
    go_errors (generator_round sample now due s) = go_errors s + (if bad then 1 else 0)"
proof -
  define t where "t = s\<lparr>go_lags := go_lags s @ [max 0 ((now - due) * 1000)]\<rparr>"
  have t: "go_samples t = go_samples s" "go_errors t = go_errors s" by (simp_all add: t_def)
  show ?thesis
  proof (cases "sample t")
    case (Inl x)
    then show ?thesis using assms(1) [of t] t unfolding generator_round_def t_def [symmetric] Let_def by simp
  next
    case (Inr r)
    then obtain row t' where r: "sample t = Inr (row, t')" by (cases r) simp
    then show ?thesis using assms(1) [of t] assms(2) [OF r] t unfolding generator_round_def t_def [symmetric] Let_def by simp
  qed
qed

lemma machine_sample_keeps_counts:
  "machine_sample to_int to_float to_num hz needle now m t = Inr (row, t') \<Longrightarrow> go_samples t' = go_samples t \<and> go_errors t' = go_errors t"
  by (auto simp: machine_sample_def Let_def ebind_Inr_iff)

interpretation generator_sampler: sampler
  "\<lambda>k. generator_round (machine_sample to_int to_float to_num hz needle (now k) (texts k)) (now k) (due k)"
  "\<lambda>k. unreadable to_int to_float to_num (texts k)" go_samples go_errors
  for to_int to_float to_num hz needle now texts due
proof (unfold_locales, goal_cases)
  case (1 k s)
  show ?case by (rule conjunct1 [OF generator_round_counts [OF machine_sample_fails machine_sample_keeps_counts]])
next
  case (2 k s)
  show ?case by (rule conjunct2 [OF generator_round_counts [OF machine_sample_fails machine_sample_keeps_counts]])
qed

text \<open>
  Fact.  The generator observer ends after at most as many rounds as intervals fit into its duration, because
  every round sleeps until the next due time, and it exits with status 0 exactly when every text of every round
  could be read.
\<close>

theorem generator_observer_ends:
  assumes "\<And>i. start + of_nat i * interval \<le> head i" and "duration \<le> of_nat n * interval" and "0 < interval"
  shows "\<exists>s'. sample_loop (\<lambda>k. head k < start + duration)
      (\<lambda>k. generator_round (machine_sample to_int to_float to_num hz needle (now k) (texts k)) (now k) (start + of_nat k * interval))
      0 (Suc n) generator_start = Some s' \<and> go_samples s' \<le> n \<and>
    (generator_exit s' = 0 \<longleftrightarrow> (\<forall>k<go_samples s'. \<not> unreadable to_int to_float to_num (texts k)))"
proof -
  have "\<not> head i < start + duration" if "0 + n \<le> i" for i
  proof -
    have "of_nat n * interval \<le> of_nat i * interval" using that assms(3) by (intro mult_right_mono) simp_all
    then show ?thesis using assms(1) [of i] assms(2) by linarith
  qed
  then obtain s' where run: "sample_loop (\<lambda>k. head k < start + duration)
      (\<lambda>k. generator_round (machine_sample to_int to_float to_num hz needle (now k) (texts k)) (now k) (start + of_nat k * interval))
      0 (Suc n) generator_start = Some s'" and n: "go_samples s' \<le> go_samples generator_start + n"
    using generator_sampler.loop_ends [where going = "\<lambda>k. head k < start + duration" and k = 0 and n = n and s = generator_start and now = now and
      due = "\<lambda>k. start + of_nat k * interval" and to_int = to_int and to_float = to_float and to_num = to_num and hz = hz and needle = needle and texts = texts] by blast
  obtain m where m: "go_samples s' = go_samples generator_start + m"
    "go_errors s' = go_errors generator_start + length (filter (\<lambda>k. unreadable to_int to_float to_num (texts k)) [0..<0 + m])"
    using generator_sampler.loop_counts [OF run] by blast
  have "generator_exit s' = 0 \<longleftrightarrow> (\<forall>k<m. \<not> unreadable to_int to_float to_num (texts k))"
    using m(2) by (auto simp: generator_exit_def generator_start_def filter_empty_conv)
  then show ?thesis using run n m(1) by (auto simp: generator_start_def)
qed

text \<open>When no counter went back, the shares are percentages, and busy and waiting time do not overlap.\<close>

lemma dict_get_delta: "dict_get (map (\<lambda>(n, _). (n, f n)) m) k = (if k \<in> fst ` set m then f k else 0)"
  by (induction m) (auto simp: dict_get_def)

lemma two_of_sum:
  assumes "distinct (map fst xs)" and "\<And>n v. (n, v) \<in> set xs \<Longrightarrow> 0 \<le> v" and "a \<noteq> b"
  shows "dict_get xs a + dict_get xs b \<le> sum_list (map snd xs)"
  using assms
proof (induction xs)
  case (Cons x xs)
  have none: "dict_get ys k = 0" if "k \<notin> fst ` set ys" for ys k
    using that by (simp add: dict_get_def map_of_eq_None_iff [symmetric])
  have IH: "dict_get xs a + dict_get xs b \<le> sum_list (map snd xs)" using Cons by auto
  have pos: "0 \<le> snd x" using Cons.prems(2) [of "fst x" "snd x"] by simp
  have x: "dict_get (x # xs) k = (if fst x = k then snd x else dict_get xs k)" for k by (simp add: dict_get_def)
  have "dict_get xs (fst x) = 0" using Cons.prems(1) by (intro none) simp
  then show ?case using IH pos Cons.prems(3) by (auto simp: x)
qed (simp add: dict_get_def)

lemma cpu_shares_are_percentages:
  assumes d: "cpu_delta (Some p) current = Some c" and names: "distinct (map fst current)"
    and up: "\<And>n v. (n, v) \<in> set current \<Longrightarrow> dict_get p n \<le> dict_get current n"
  shows "0 \<le> cs_busy c \<and> 0 \<le> cs_iowait c \<and> cs_busy c + cs_iowait c \<le> 100"
proof -
  define delta where "delta = map (\<lambda>(name, _). (name, dict_get current name - dict_get p name)) current"
  define rest where "rest = filter (\<lambda>(name, _). name \<notin> {''guest'', ''guest_nice''}) delta"
  define tot where "tot = sum_list (map snd rest)"
  have get: "dict_get rest k = dict_get delta k" if "k \<notin> {''guest'', ''guest_nice''}" for k
    using that unfolding rest_def dict_get_def by (induction delta) auto
  have pos: "0 \<le> v" if "(n, v) \<in> set delta" for n v using that up by (auto simp: delta_def)
  have nn: "0 \<le> dict_get delta k" for k
    using pos by (auto simp: dict_get_def split: option.splits dest: map_of_SomeD)
  have "map fst delta = map fst current" by (auto simp: delta_def)
  then have "distinct (map fst rest)" unfolding rest_def using names distinct_map_filter by metis
  moreover have "0 \<le> v" if "(n, v) \<in> set rest" for n v using that pos by (auto simp: rest_def)
  ultimately have "dict_get rest ''idle'' + dict_get rest ''iowait'' \<le> tot" unfolding tot_def by (rule two_of_sum) simp_all
  then have le: "dict_get delta ''idle'' + dict_get delta ''iowait'' \<le> tot" by (simp add: get)
  have c: "0 < tot" "c = \<lparr>cs_busy = of_int (tot - (dict_get delta ''idle'' + dict_get delta ''iowait'')) * 100 / of_int tot,
      cs_iowait = of_int (dict_get delta ''iowait'') * 100 / of_int tot, cs_steal = of_int (dict_get delta ''steal'') * 100 / of_int tot\<rparr>"
    using d unfolding cpu_delta_def option.case Let_def delta_def [symmetric] rest_def [symmetric] tot_def [symmetric]
    by (auto split: if_splits)
  define i w t where "i = (of_int (dict_get delta ''idle'') :: rat)" and "w = (of_int (dict_get delta ''iowait'') :: rat)" and "t = (of_int tot :: rat)"
  have q: "0 < t" "0 \<le> i" "0 \<le> w" "i + w \<le> t" using c(1) nn le unfolding i_def w_def t_def by (simp_all flip: of_int_add)
  have "cs_busy c = (t - (i + w)) * 100 / t" "cs_iowait c = w * 100 / t" unfolding c(2) by (simp_all add: i_def w_def t_def)
  then show ?thesis using q by (simp add: divide_le_eq flip: add_divide_distrib)
qed

text \<open>What a parsed group description says: its totals are those of its partitions, and there is at least one.\<close>

lemma fold_max_bounds: "x \<le> fold max xs x \<and> (\<forall>y\<in>set xs. y \<le> fold max xs (x :: int)) \<and> fold max xs x \<in> set (x # xs)"
proof (induction xs arbitrary: x)
  case (Cons y ys)
  from Cons.IH [of "max y x"] show ?case by (auto simp: max_def split: if_splits)
qed simp

lemma described_group:
  assumes "parse_describe to_int output = Inr g"
  shows "gl_partitions g \<noteq> [] \<and> gl_assigned g = length (gl_partitions g) \<and> gl_total g = sum_list (map pl_lag (gl_partitions g)) \<and>
    (\<forall>p\<in>set (gl_partitions g). pl_lag p \<le> gl_max g) \<and> gl_max g \<in> pl_lag ` set (gl_partitions g) \<and> gl_members g \<le> gl_assigned g"
proof -
  obtain found where found: "group_lag_of found = Inr g"
    using assms by (auto simp: parse_describe_def Let_def ebind_Inr_iff split: list.splits if_splits)
  obtain lag lags where l: "map pl_lag (map fst found) = lag # lags"
    using found by (cases "map pl_lag (map fst found)") (simp_all add: group_lag_of_def Let_def)
  then have g: "g = \<lparr>gl_total = sum_list (lag # lags), gl_max = fold max lags lag, gl_assigned = length (map fst found),
      gl_members = length (remdups (filter (\<lambda>m. m \<noteq> ''-'') (map snd found))), gl_partitions = map fst found\<rparr>"
    using found unfolding group_lag_of_def Let_def l by simp
  have "length (remdups (filter (\<lambda>m. m \<noteq> ''-'') (map snd found))) \<le> length found"
    by (metis length_remdups_leq length_filter_le length_map order_trans)
  moreover have "pl_lag p \<in> set (lag # lags)" if "p \<in> set (map fst found)" for p using that unfolding l [symmetric] by auto
  then have "\<forall>p\<in>set (map fst found). pl_lag p \<le> fold max lags lag" using fold_max_bounds [of lag lags] by auto
  moreover have "fold max lags lag \<in> pl_lag ` set (map fst found)"
    using fold_max_bounds [of lag lags] unfolding set_map [symmetric] l by blast
  moreover have "found \<noteq> []" using l by auto
  ultimately show ?thesis unfolding g by (simp add: l [simplified])
qed

end
