(* ===== verification/Db_Observers.thy ===== *)
theory Db_Observers
  imports Observers "HOL-Library.Multiset"
begin

text \<open>
  The observers of the database side: the pools of PgBouncer (\<open>scripts/pgbouncer_pressure_observe.py\<close>), the waits
  and WAL counters of the server (\<open>rds_wait_observe.py\<close>), and the summary of the recorded waits
  (\<open>summarize_rds_waits.py\<close>).  What the queries return and \<open>float\<close> on a value (\<open>to_num\<close>) are parameters.
\<close>

section \<open>PgBouncer\<close>

definition POOL_FIELDS :: "string list" where
  "POOL_FIELDS = [''cl_active'', ''cl_waiting'', ''cl_active_cancel_req'', ''cl_waiting_cancel_req'', ''sv_active'', ''sv_active_cancel'',
     ''sv_being_canceled'', ''sv_idle'', ''sv_used'', ''sv_tested'', ''sv_login'']"

definition STATS_COUNTERS :: "string list" where
  "STATS_COUNTERS = [''total_xact_count'', ''total_query_count'', ''total_received'', ''total_sent'', ''total_xact_time'',
     ''total_query_time'', ''total_wait_time'', ''total_server_assignment_count'']"

definition STATS_GAUGES :: "string list" where
  "STATS_GAUGES = [''avg_xact_count'', ''avg_query_count'', ''avg_recv'', ''avg_sent'', ''avg_xact_time'', ''avg_query_time'',
     ''avg_wait_time'', ''avg_server_assignment_count'']"

type_synonym admin_row = "(string \<times> json) list"
type_synonym gauges = "(string \<times> rat) list"

text \<open>\<open>numeric(row.get(field))\<close>: what \<open>float\<close> rejects counts as 0, a missing field too.\<close>

definition numeric :: "(json \<Rightarrow> rat option) \<Rightarrow> admin_row \<Rightarrow> string \<Rightarrow> rat" where
  "numeric to_num row field = (case Option.bind (map_of row field) to_num of None \<Rightarrow> 0 | Some x \<Rightarrow> x)"

text \<open>The options of the administration connection and the database that is watched.\<close>

definition admin_options :: "(string \<times> string) list \<Rightarrow> (string \<times> string) list \<times> string" where
  "admin_options options =
     (let target = (case map_of options ''dbname'' of None \<Rightarrow> ''ticketing'' | Some n \<Rightarrow> if n = [] then ''ticketing'' else n) in
      (dict_put ''connect_timeout'' ''2'' (dict_put ''dbname'' ''pgbouncer'' options), target))"

definition of_database :: "string \<Rightarrow> admin_row list \<Rightarrow> admin_row list" where
  "of_database target rows = filter (\<lambda>r. map_of r ''database'' = Some (JStr target)) rows"

definition max_or_zero :: "rat list \<Rightarrow> rat" where
  "max_or_zero xs = (case xs of [] \<Rightarrow> 0 | y # ys \<Rightarrow> fold max ys y)"

definition summarize_pools :: "(json \<Rightarrow> rat option) \<Rightarrow> admin_row list \<Rightarrow> string \<Rightarrow> gauges" where
  "summarize_pools to_num rows target =
     (let selected = of_database target rows in
      map (\<lambda>field. (field, sum_list (map (\<lambda>r. numeric to_num r field) selected))) POOL_FIELDS @
      [(''maxwait_seconds'', max_or_zero (map (\<lambda>r. numeric to_num r ''maxwait'' + numeric to_num r ''maxwait_us'' / 1000000) selected)),
       (''pools'', of_nat (length selected))])"

definition summarize_stats :: "(json \<Rightarrow> rat option) \<Rightarrow> admin_row list \<Rightarrow> string \<Rightarrow> gauges" where
  "summarize_stats to_num rows target =
     (let selected = of_database target rows in
      map (\<lambda>field. (field, sum_list (map (\<lambda>r. numeric to_num r field) selected))) STATS_COUNTERS @
      map (\<lambda>field. (field, max_or_zero (map (\<lambda>r. numeric to_num r field) selected))) STATS_GAUGES)"

record bouncer_observer =
  bo_first :: "gauges option"
  bo_last :: "gauges option"
  bo_peaks :: gauges
  bo_lags :: "rat list"
  bo_errors :: nat
  bo_samples :: nat

definition bouncer_start :: bouncer_observer where
  "bouncer_start = \<lparr>bo_first = None, bo_last = None, bo_peaks = [], bo_lags = [], bo_errors = 0, bo_samples = 0\<rparr>"

definition gauge :: "gauges \<Rightarrow> string \<Rightarrow> rat" where
  "gauge g k = (case map_of g k of None \<Rightarrow> 0 | Some v \<Rightarrow> v)"

definition raise_peak :: "string \<times> rat \<Rightarrow> gauges \<Rightarrow> gauges" where
  "raise_peak = (\<lambda>(k, v) peaks. dict_put k (max (gauge peaks k) v) peaks)"

text \<open>The rows of \<open>SHOW POOLS\<close> and \<open>SHOW STATS\<close>, or the class of the exception of one of the two.\<close>

definition bouncer_round ::
  "(json \<Rightarrow> rat option) \<Rightarrow> string \<Rightarrow> string + admin_row list \<times> admin_row list \<Rightarrow> rat \<Rightarrow> rat \<Rightarrow> bouncer_observer \<Rightarrow> bouncer_observer"
where
  "bouncer_round to_num target outcome now due s =
     (let s = s\<lparr>bo_lags := bo_lags s @ [max 0 ((now - due) * 1000)]\<rparr>;
          s = (case outcome of
                 Inl _ \<Rightarrow> s\<lparr>bo_errors := bo_errors s + 1\<rparr>
               | Inr (pool_rows, stats_rows) \<Rightarrow>
                   let stats = summarize_stats to_num stats_rows target in
                   s\<lparr>bo_first := (case bo_first s of None \<Rightarrow> Some stats | Some f \<Rightarrow> Some f), bo_last := Some stats,
                     bo_peaks := fold raise_peak (summarize_pools to_num pool_rows target) (bo_peaks s)\<rparr>) in
      s\<lparr>bo_samples := bo_samples s + 1\<rparr>)"

definition bouncer_limits :: "rat \<Rightarrow> rat \<Rightarrow> bool \<Rightarrow> string option \<Rightarrow> bool" where
  "bouncer_limits duration interval output_exists source \<longleftrightarrow>
     1 \<le> duration \<and> duration \<le> 7200 \<and> 1 / 10 \<le> interval \<and> interval \<le> 10 \<and> \<not> output_exists \<and> source \<notin> {None, Some []}"

definition bouncer_deltas :: "bouncer_observer \<Rightarrow> gauges" where
  "bouncer_deltas s =
     (case (bo_first s, bo_last s) of
        (Some f, Some l) \<Rightarrow> map (\<lambda>k. (k, max 0 (gauge l k - gauge f k))) STATS_COUNTERS
      | _ \<Rightarrow> [])"

definition bouncer_exit :: "bouncer_observer \<Rightarrow> int" where
  "bouncer_exit s = (if bo_errors s = 0 then 0 else 1)"

section \<open>Waits of the server\<close>

definition count_up :: "string \<Rightarrow> int \<Rightarrow> (string \<times> int) list \<Rightarrow> (string \<times> int) list" where
  "count_up k n c = dict_put k (dict_get c k + n) c"

record activity =
  av_states :: "(string \<times> int) list"
  av_waits :: "(string \<times> int) list"
  av_events :: "(string \<times> int) list"

definition activity_counts :: "(string \<times> string \<times> string \<times> int) list \<Rightarrow> activity" where
  "activity_counts rows =
     fold (\<lambda>(state, wait_type, wait_event, n) a.
       \<lparr>av_states = count_up state n (av_states a), av_waits = count_up wait_type n (av_waits a),
        av_events = (if wait_type \<in> {''CPU'', ''Client''} then av_events a else count_up wait_event n (av_events a))\<rparr>)
       rows \<lparr>av_states = [], av_waits = [], av_events = []\<rparr>"

text \<open>The rows of the three queries, with the columns of the last two under their names.\<close>

record server_sample =
  sp_activity :: activity
  sp_wal :: "(string \<times> rat) list"
  sp_checkpointer :: "(string \<times> rat) list"

type_synonym server_rows = "(string \<times> string \<times> string \<times> int) list \<times> rat list \<times> rat list"

definition sample_connection :: "server_rows \<Rightarrow> server_sample" where
  "sample_connection = (\<lambda>(rows, wal, checkpoint).
     \<lparr>sp_activity = activity_counts rows,
      sp_wal = zip [''writes'', ''syncs'', ''write_ms'', ''sync_ms'', ''bytes'', ''buffers_full''] wal,
      sp_checkpointer = zip [''timed'', ''requested'', ''write_ms'', ''sync_ms''] checkpoint\<rparr>)"

record wait_observer =
  wo_samples :: nat
  wo_errors :: nat
  wo_rows :: "(string + server_sample) list"

text \<open>A round: what the queries return, or the class of the database's error.\<close>

definition wait_round :: "string + server_rows \<Rightarrow> wait_observer \<Rightarrow> wait_observer" where
  "wait_round outcome s =
     (case outcome of
        Inl name \<Rightarrow> s\<lparr>wo_errors := wo_errors s + 1, wo_rows := wo_rows s @ [Inl name], wo_samples := wo_samples s + 1\<rparr>
      | Inr rows \<Rightarrow> s\<lparr>wo_rows := wo_rows s @ [Inr (sample_connection rows)], wo_samples := wo_samples s + 1\<rparr>)"

definition wait_limits :: "rat \<Rightarrow> rat \<Rightarrow> bool \<Rightarrow> string option \<Rightarrow> bool" where
  "wait_limits duration interval output_exists dsn \<longleftrightarrow>
     1 \<le> duration \<and> duration \<le> 3600 \<and> 1 / 10 \<le> interval \<and> interval \<le> 2 \<and> \<not> output_exists \<and> dsn \<notin> {None, Some []}"

definition wait_exit :: "wait_observer \<Rightarrow> int" where
  "wait_exit s = (if wo_samples s > 0 \<and> wo_errors s = 0 then 0 else 1)"

section \<open>The summary of the waits\<close>

definition IGNORED_WAITS :: "string list" where
  "IGNORED_WAITS = [''CPU'', ''Client'']"

text \<open>A sample without an error, with its numbers converted; \<open>ws_counters\<close> are the six counters in the order of the code.\<close>

record wait_sample =
  ws_utc :: string
  ws_query_ms :: rat
  ws_wake_lag_ms :: rat
  ws_waits :: "(string \<times> int) list"
  ws_events :: "(string \<times> int) list"
  ws_sync_ms :: rat
  ws_counters :: "(string \<times> rat) list"

datatype wait_line = Line_skipped | Line_metadata "bool option" | Line_error | Line_sample wait_sample

record anomaly =
  an_utc :: string
  an_waits :: "(string \<times> int) list"
  an_events :: "(string \<times> int) list"
  an_sync_delta :: rat
  an_query_ms :: rat
  an_counters :: "(string \<times> rat) list"

record wait_summary =
  wm_samples :: nat
  wm_errors :: nat
  wm_max_query :: rat
  wm_max_lag :: rat
  wm_max_sync :: rat
  wm_max_waiters :: int
  wm_types :: "(string \<times> int) list"
  wm_events :: "(string \<times> int) list"
  wm_timing :: "bool option"
  wm_previous_sync :: "rat option"
  wm_previous :: "(string \<times> rat) list option"
  wm_totals :: gauges
  wm_steps :: gauges
  wm_top :: "(rat \<times> anomaly) list"

definition wait_summary_start :: wait_summary where
  "wait_summary_start = \<lparr>wm_samples = 0, wm_errors = 0, wm_max_query = 0, wm_max_lag = 0, wm_max_sync = 0, wm_max_waiters = 0,
     wm_types = [], wm_events = [], wm_timing = None, wm_previous_sync = None, wm_previous = None, wm_totals = [], wm_steps = [], wm_top = []\<rparr>"

definition interesting_waits :: "wait_sample \<Rightarrow> (string \<times> int) list" where
  "interesting_waits r = filter (\<lambda>(kind, _). kind \<notin> set IGNORED_WAITS) (ws_waits r)"

definition sync_delta :: "wait_summary \<Rightarrow> wait_sample \<Rightarrow> rat" where
  "sync_delta m r = (case wm_previous_sync m of None \<Rightarrow> 0 | Some p \<Rightarrow> max 0 (ws_sync_ms r - p))"

definition counter_steps :: "wait_summary \<Rightarrow> wait_sample \<Rightarrow> gauges" where
  "counter_steps m r =
     (case wm_previous m of None \<Rightarrow> [] | Some p \<Rightarrow> map (\<lambda>(name, v). (name, max 0 (v - gauge p name))) (ws_counters r))"

text \<open>\<open>interesting\<close> sums every count, the recorded waits only have the positive ones.\<close>

definition is_anomaly :: "wait_summary \<Rightarrow> wait_sample \<Rightarrow> bool" where
  "is_anomaly m r \<longleftrightarrow> sum_list (map snd (interesting_waits r)) \<noteq> 0 \<or> sync_delta m r \<ge> 50 \<or> ws_query_ms r \<ge> 100 \<or>
     gauge (counter_steps m r) ''wal_buffers_full'' \<noteq> 0 \<or> gauge (counter_steps m r) ''checkpoints_requested'' \<noteq> 0"

definition scored_anomaly :: "wait_summary \<Rightarrow> wait_sample \<Rightarrow> rat \<times> anomaly" where
  "scored_anomaly m r =
     (max (max (of_int (sum_list (map snd (interesting_waits r)))) (sync_delta m r / 50)) (ws_query_ms r / 100),
      \<lparr>an_utc = ws_utc r, an_waits = filter (\<lambda>(_, n). n > 0) (interesting_waits r), an_events = filter (\<lambda>(_, n). n > 0) (ws_events r),
       an_sync_delta = sync_delta m r, an_query_ms = ws_query_ms r, an_counters = filter (\<lambda>(_, v). v \<noteq> 0) (counter_steps m r)\<rparr>)"

text \<open>Append, sort by the score from the highest, keep twenty.\<close>

definition keep_top :: "rat \<times> 'a \<Rightarrow> (rat \<times> 'a) list \<Rightarrow> (rat \<times> 'a) list" where
  "keep_top e es = take 20 (sort_key (\<lambda>x. - fst x) (es @ [e]))"

definition summarize_sample :: "wait_sample \<Rightarrow> wait_summary \<Rightarrow> wait_summary" where
  "summarize_sample r m =
     (let waits = interesting_waits r; delta = sync_delta m r; steps = counter_steps m r in
      m\<lparr>wm_samples := wm_samples m + 1,
        wm_max_query := max (wm_max_query m) (ws_query_ms r), wm_max_lag := max (wm_max_lag m) (ws_wake_lag_ms r),
        wm_max_sync := max (wm_max_sync m) delta, wm_max_waiters := max (wm_max_waiters m) (sum_list (map snd waits)),
        wm_types := fold (\<lambda>(kind, n) c. if n > 0 then count_up kind 1 c else c) waits (wm_types m),
        wm_events := fold (\<lambda>(name, n) c. if n > 0 then count_up name 1 c else c) (ws_events r) (wm_events m),
        wm_previous_sync := Some (ws_sync_ms r), wm_previous := Some (ws_counters r),
        wm_totals := fold (\<lambda>(k, v) g. dict_put k (gauge g k + v) g) steps (wm_totals m),
        wm_steps := fold raise_peak steps (wm_steps m),
        wm_top := (if is_anomaly m r then keep_top (scored_anomaly m r) (wm_top m) else wm_top m)\<rparr>)"

definition summarize_line :: "wait_line \<Rightarrow> wait_summary \<Rightarrow> wait_summary" where
  "summarize_line l m =
     (case l of
        Line_skipped \<Rightarrow> m
      | Line_metadata timing \<Rightarrow> m\<lparr>wm_timing := timing\<rparr>
      | Line_error \<Rightarrow> m\<lparr>wm_samples := wm_samples m + 1, wm_errors := wm_errors m + 1\<rparr>
      | Line_sample r \<Rightarrow> summarize_sample r m)"

definition summarize_waits :: "wait_line list \<Rightarrow> wait_summary" where
  "summarize_waits ls = fold summarize_line ls wait_summary_start"

definition waits_exit :: "wait_summary \<Rightarrow> int" where
  "waits_exit m = (if wm_samples m > 0 \<and> wm_errors m = 0 then 0 else 1)"

section \<open>Facts about the observers\<close>

interpretation bouncer_sampler: sampler
  "\<lambda>k. bouncer_round to_num target (outcome k) (now k) (due k)" "\<lambda>k. isl (outcome k)" bo_samples bo_errors
  for to_num target outcome now due
  by unfold_locales (auto simp: bouncer_round_def Let_def split: sum.splits)

interpretation wait_sampler: sampler "\<lambda>k. wait_round (outcome k)" "\<lambda>k. isl (outcome k)" wo_samples wo_errors
  for outcome
  by unfold_locales (auto simp: wait_round_def split: sum.splits)

text \<open>An observer of the server that exits with 0 has at least one sample and none that failed.\<close>

lemma wait_exit_clean:
  assumes "sample_loop going (\<lambda>k. wait_round (outcome k)) 0 fuel \<lparr>wo_samples = 0, wo_errors = 0, wo_rows = []\<rparr> = Some s" and "wait_exit s = 0"
  shows "0 < wo_samples s \<and> (\<forall>k<wo_samples s. \<exists>rows. outcome k = Inr rows)"
proof -
  have z: "0 < wo_samples s" "wo_errors s = 0" using assms(2) by (auto simp: wait_exit_def split: if_splits)
  have "\<forall>i\<in>{0..<0 + wo_samples s}. \<not> isl (outcome i)" by (rule wait_sampler.loop_clean [OF assms(1)]) (simp_all add: z)
  then have "\<not> isl (outcome k)" if "k < wo_samples s" for k using that by simp
  then have "\<exists>rows. outcome k = Inr rows" if "k < wo_samples s" for k using that by (cases "outcome k") (auto simp: isl_def)
  then show ?thesis using z(1) by blast
qed

lemma map_of_dict_put: "map_of (dict_put k v m) k' = (if k' = k then Some v else map_of m k')"
  by (induction m) auto

lemma keys_dict_put: "set (map fst (dict_put k v m)) = insert k (set (map fst m))"
  by (induction m rule: dict_put.induct [of _ k v]) auto

lemma gauge_dict_put: "gauge (dict_put k v m) k' = (if k' = k then v else gauge m k')"
  by (simp add: gauge_def map_of_dict_put)

text \<open>Peaks only rise, and each is at least every value that was seen.\<close>

lemma raise_peak_rises: "gauge peaks k \<le> gauge (raise_peak x peaks) k"
  by (cases x) (simp add: raise_peak_def gauge_dict_put)

lemma fold_peaks_rise: "gauge peaks k \<le> gauge (fold raise_peak vs peaks) k"
proof (induction vs arbitrary: peaks)
  case (Cons x vs)
  show ?case using order_trans [OF raise_peak_rises Cons.IH] by simp
qed simp

lemma fold_peaks_bound: "(k, v) \<in> set vs \<Longrightarrow> v \<le> gauge (fold raise_peak vs peaks) k"
proof (induction vs arbitrary: peaks)
  case (Cons x vs)
  show ?case
  proof (cases "(k, v) = x")
    case True
    then have "v \<le> gauge (raise_peak x peaks) k" by (auto simp: raise_peak_def gauge_dict_put)
    then show ?thesis using order_trans [OF _ fold_peaks_rise] by simp
  qed (use Cons in simp)
qed simp

lemmas fold_raise_peak = fold_peaks_rise fold_peaks_bound

lemma bouncer_peaks_rise: "gauge (bo_peaks s) k \<le> gauge (bo_peaks (bouncer_round to_num target outcome now due s)) k"
  by (auto simp: bouncer_round_def Let_def fold_raise_peak split: sum.splits)

lemma bouncer_peak_seen:
  "outcome = Inr (pool_rows, stats_rows) \<Longrightarrow> (k, v) \<in> set (summarize_pools to_num pool_rows target) \<Longrightarrow>
    v \<le> gauge (bo_peaks (bouncer_round to_num target outcome now due s)) k"
  by (simp add: bouncer_round_def Let_def fold_raise_peak)

text \<open>The reported increases are never negative, and the first stats are those of the first sample that succeeded.\<close>

lemma bouncer_deltas_nonneg: "(k, v) \<in> set (bouncer_deltas s) \<Longrightarrow> 0 \<le> v"
  by (auto simp: bouncer_deltas_def split: option.splits)

lemma bouncer_first_kept: "bo_first s = Some f \<Longrightarrow> bo_first (bouncer_round to_num target outcome now due s) = Some f"
  by (auto simp: bouncer_round_def Let_def split: sum.splits)

section \<open>Facts about the summary\<close>

text \<open>Inserting behind every element that is not greater is what the stable sort does with a last element.\<close>

definition put_behind :: "('a \<Rightarrow> rat) \<Rightarrow> 'a \<Rightarrow> 'a list \<Rightarrow> 'a list" where
  "put_behind f y xs = takeWhile (\<lambda>x. f x \<le> f y) xs @ y # dropWhile (\<lambda>x. f x \<le> f y) xs"

lemma filter_after_takeWhile:
  assumes "sorted (map f xs)" and "f k = f y"
  shows "filter (\<lambda>x. f k = f x) (dropWhile (\<lambda>x. f x \<le> f y) xs) = []"
proof -
  have "f y < f x" if "x \<in> set (dropWhile (\<lambda>x. f x \<le> f y) xs)" for x
    using assms(1) that by (induction xs) (auto split: if_splits simp: not_le intro: less_le_trans)
  then show ?thesis using assms(2) by (force simp: filter_empty_conv)
qed

lemma sorted_put_behind: "sorted (map f xs) \<Longrightarrow> sorted (map f (put_behind f y xs))"
proof (induction xs)
  case (Cons x xs)
  have step: "put_behind f y (x # xs) = (if f x \<le> f y then x # put_behind f y xs else y # x # xs)" by (simp add: put_behind_def)
  have mem: "set (put_behind f y zs) = insert y (set zs)" for zs
  proof -
    have "set (put_behind f y zs) = insert y (set (takeWhile (\<lambda>x. f x \<le> f y) zs @ dropWhile (\<lambda>x. f x \<le> f y) zs))"
      unfolding put_behind_def set_append list.set by blast
    then show ?thesis unfolding takeWhile_dropWhile_id .
  qed
  show ?case
  proof (cases "f x \<le> f y")
    case True
    then show ?thesis using Cons by (auto simp: step mem)
  next
    case False
    then show ?thesis using Cons.prems by (force simp: step)
  qed
qed (simp add: put_behind_def)

lemma sort_append_one: "sort_key f (xs @ [y]) = put_behind f y (sort_key f xs)" for f :: "'a \<Rightarrow> rat"
proof (rule properties_for_sort_key)
  let ?s = "sort_key f xs" let ?P = "\<lambda>x. f x \<le> f y"
  have split: "filter Q (put_behind f y ?s) = filter Q (takeWhile ?P ?s) @ (if Q y then [y] else []) @ filter Q (dropWhile ?P ?s)" for Q
    by (simp add: put_behind_def)
  have whole: "filter Q (takeWhile ?P ?s) @ filter Q (dropWhile ?P ?s) = filter Q ?s" for Q
    by (simp flip: filter_append)
  have "mset (put_behind f y ?s) = mset (takeWhile ?P ?s @ dropWhile ?P ?s) + {#y#}" unfolding put_behind_def mset_append by simp
  then have "mset (put_behind f y ?s) = mset ?s + {#y#}" unfolding takeWhile_dropWhile_id .
  then show "mset (put_behind f y ?s) = mset (xs @ [y])" by simp
  show "sorted (map f (put_behind f y ?s))" by (rule sorted_put_behind) simp
  show "filter (\<lambda>x. f k = f x) (put_behind f y ?s) = filter (\<lambda>x. f k = f x) (xs @ [y])" for k
  proof (cases "f k = f y")
    case True
    then have "filter (\<lambda>x. f k = f x) (dropWhile ?P ?s) = []" by (intro filter_after_takeWhile) simp_all
    then show ?thesis using True whole [of "\<lambda>x. f k = f x"] by (simp add: split sort_key_stable eq_commute [of "f k"])
  next
    case False
    then show ?thesis using whole [of "\<lambda>x. f k = f x"] by (simp add: split sort_key_stable eq_commute [of "f k"])
  qed
qed

lemma take_put_behind: "take n (put_behind f y (take n xs)) = take n (put_behind f y xs)"
proof (induction xs arbitrary: n)
  case (Cons x xs)
  show ?case
  proof (cases n)
    case (Suc m)
    show ?thesis using Cons.IH [of m] Suc by (auto simp: put_behind_def take_Cons' split: if_splits)
  qed simp
qed (simp add: put_behind_def)

lemma keep_top_step: "keep_top e (take 20 (sort_key (\<lambda>x. - fst x) xs)) = take 20 (sort_key (\<lambda>x. - fst x) (xs @ [e]))"
proof -
  let ?f = "\<lambda>x :: rat \<times> 'a. - fst x"
  have "sort_key ?f (take 20 (sort_key ?f xs)) = take 20 (sort_key ?f xs)"
    by (rule sort_key_id_if_sorted) (simp flip: take_map)
  then show ?thesis by (simp add: keep_top_def sort_append_one take_put_behind)
qed

lemma top_anomalies_kept: "fold keep_top es [] = take 20 (sort_key (\<lambda>x. - fst x) es)"
proof (induction es rule: rev_induct)
  case (snoc e es)
  then show ?case by (simp add: keep_top_step)
qed simp

text \<open>All anomalies of the lines, in their order.\<close>

fun anomalies :: "wait_line list \<Rightarrow> wait_summary \<Rightarrow> (rat \<times> anomaly) list" where
  "anomalies [] m = []"
| "anomalies (l # ls) m =
     (case l of Line_sample r \<Rightarrow> if is_anomaly m r then [scored_anomaly m r] else [] | _ \<Rightarrow> []) @ anomalies ls (summarize_line l m)"

lemma summary_top: "wm_top (fold summarize_line ls m) = fold keep_top (anomalies ls m) (wm_top m)"
  by (induction ls arbitrary: m) (auto simp: summarize_line_def summarize_sample_def Let_def split: wait_line.splits)

text \<open>
  Fact.  Keeping twenty entries while reading equals sorting everything at the end: whatever the number of
  anomalies in a recording, its summary has the twenty with the highest scores, highest first, equal scores in the
  order of the samples.
\<close>

theorem top_anomalies_exact:
  "wm_top (summarize_waits ls) = take 20 (sort_key (\<lambda>x. - fst x) (anomalies ls wait_summary_start))"
  by (simp add: summarize_waits_def summary_top top_anomalies_kept) (simp add: wait_summary_start_def top_anomalies_kept)

text \<open>Counters that never go back: the reported total of a counter is its last value less its first one.\<close>

lemma gauge_totals:
  "distinct (map fst steps) \<Longrightarrow> gauge (fold (\<lambda>(k, v) g. dict_put k (gauge g k + v) g) steps g) name = gauge g name + gauge steps name"
proof (induction steps arbitrary: g)
  case (Cons x steps)
  have none: "gauge steps (fst x) = 0" using Cons.prems by (simp add: gauge_def map_of_eq_None_iff [symmetric] split: option.splits)
  have "gauge (x # steps) name = (if fst x = name then snd x else gauge steps name)" by (simp add: gauge_def)
  then show ?case using Cons none by (auto simp: gauge_dict_put case_prod_unfold)
qed (simp add: gauge_def)

lemma gauge_steps:
  assumes "wm_previous m = Some p" and "name \<in> fst ` set (ws_counters r)"
  shows "gauge (counter_steps m r) name = max 0 (gauge (ws_counters r) name - gauge p name)"
proof -
  have "gauge (map (\<lambda>(n, v). (n, max 0 (v - gauge p n))) xs) name = max 0 (gauge xs name - gauge p name)" if "name \<in> fst ` set xs" for xs
    using that by (induction xs) (auto simp: gauge_def)
  then show ?thesis using assms by (simp add: counter_steps_def)
qed

lemma counter_totals_exact:
  assumes "\<forall>r\<in>set (r0 # rs). distinct (map fst (ws_counters r)) \<and> name \<in> fst ` set (ws_counters r)"
    and "sorted (map (\<lambda>r. gauge (ws_counters r) name) (r0 # rs))"
  shows "gauge (wm_totals (fold summarize_sample (r0 # rs) wait_summary_start)) name =
    gauge (ws_counters (last (r0 # rs))) name - gauge (ws_counters r0) name"
proof -
  have "wm_previous (fold summarize_sample (r0 # rs) wait_summary_start) = Some (ws_counters (last (r0 # rs))) \<and>
      gauge (wm_totals (fold summarize_sample (r0 # rs) wait_summary_start)) name =
        gauge (ws_counters (last (r0 # rs))) name - gauge (ws_counters r0) name"
    using assms
  proof (induction rs rule: rev_induct)
    case Nil
    have "counter_steps wait_summary_start r0 = []" by (simp add: counter_steps_def wait_summary_start_def)
    then show ?case by (simp add: summarize_sample_def Let_def) (simp add: wait_summary_start_def gauge_def)
  next
    case (snoc r rs)
    define m where "m = fold summarize_sample (r0 # rs) wait_summary_start"
    have so: "sorted (map (\<lambda>r. gauge (ws_counters r) name) (r0 # rs))" using snoc.prems(2) by (simp add: sorted_append)
    have m: "wm_previous m = Some (ws_counters (last (r0 # rs)))"
      "gauge (wm_totals m) name = gauge (ws_counters (last (r0 # rs))) name - gauge (ws_counters r0) name"
      using snoc.IH snoc.prems(1) so unfolding m_def by auto
    have le: "gauge (ws_counters (last (r0 # rs))) name \<le> gauge (ws_counters r) name"
      using snoc.prems(2) by (cases rs rule: rev_cases) (auto simp: sorted_append)
    have d: "distinct (map fst (counter_steps m r))" using snoc.prems(1) m(1) by (simp add: counter_steps_def comp_def case_prod_unfold)
    have "gauge (counter_steps m r) name = gauge (ws_counters r) name - gauge (ws_counters (last (r0 # rs))) name"
      using gauge_steps [OF m(1), of name r] snoc.prems(1) le by simp
    then have "gauge (wm_totals (summarize_sample r m)) name = gauge (ws_counters r) name - gauge (ws_counters r0) name"
      using m(2) gauge_totals [OF d, of "wm_totals m" name] by (simp add: summarize_sample_def Let_def)
    moreover have "wm_previous (summarize_sample r m) = Some (ws_counters r)" by (simp add: summarize_sample_def Let_def)
    moreover have "fold summarize_sample (r0 # rs @ [r]) wait_summary_start = summarize_sample r m" by (simp add: m_def)
    ultimately show ?case by simp
  qed
  then show ?thesis by blast
qed

end
