(* ===== verification/Contention.thy ===== *)
theory Contention
  imports Text_Tools Load Hold_Audit Config Capacity
begin

text \<open>
  Timing of contended requests: the server wrapper that adds protocol timings to a response
  (\<open>scripts/ingress_server.py\<close>), the coordinated contention waves that read them (\<open>contention_timing.py\<close>) and the
  simple hot-seat load test (\<open>load_test.py\<close>).  Clocks, replies, \<open>float\<close> on a text and the formatting of a number
  with three decimals (\<open>fmt\<close>) are parameters.
\<close>

section \<open>The server's timing wrapper\<close>

definition server_keepalive_seconds :: "(string \<Rightarrow> int option) \<Rightarrow> string option \<Rightarrow> int result" where
  "server_keepalive_seconds to_int setting =
     (case to_int (case setting of None \<Rightarrow> ''5'' | Some s \<Rightarrow> s) of
        None \<Rightarrow> Inl (PyError ''RuntimeError'')
      | Some v \<Rightarrow> if 1 \<le> v \<and> v \<le> 300 then Inr v else Inl (PyError ''RuntimeError''))"

text \<open>A message that the application sends: the start of a response, or anything else.\<close>

datatype asgi_message = Response_start int "(string \<times> string) list" | Other_message string

record ingress_log =
  in_queue :: "rat list"
  in_headers :: "rat list"
  in_rows :: "(string option \<times> int) list"

definition timing_header :: "(rat \<Rightarrow> string) \<Rightarrow> rat \<Rightarrow> rat option \<Rightarrow> string" where
  "timing_header fmt elapsed queue =
     ''asgi_headers;dur='' @ fmt (elapsed * 1000) @
     (case queue of None \<Rightarrow> [] | Some q \<Rightarrow> '', protocol_queue;dur='' @ fmt (q * 1000))"

definition header_of :: "string \<Rightarrow> (string \<times> string) list \<Rightarrow> string option" where
  "header_of name headers = map_option snd (find (\<lambda>(k, _). map lower_char k = name) headers)"

text \<open>\<open>timed_send\<close>: \<open>elapsed\<close> since the application was entered, \<open>queue\<close> between the parsed headers and that.\<close>

definition timed_send :: "(rat \<Rightarrow> string) \<Rightarrow> rat \<Rightarrow> rat option \<Rightarrow> asgi_message \<Rightarrow> ingress_log \<Rightarrow> asgi_message \<times> ingress_log" where
  "timed_send fmt elapsed queue m l =
     (case m of
        Other_message x \<Rightarrow> (m, l)
      | Response_start status headers \<Rightarrow>
          let headers = headers @ [(''server-timing'', timing_header fmt elapsed queue)] in
          (Response_start status headers,
           l\<lparr>in_queue := in_queue l @ (case queue of None \<Rightarrow> [] | Some q \<Rightarrow> [q]), in_headers := in_headers l @ [elapsed],
             in_rows := in_rows l @ [(header_of ''x-request-id'' headers, status)]\<rparr>))"

text \<open>A request: its scope is HTTP or not, and the application sends messages at times after it was entered.\<close>

fun timed_messages :: "(rat \<Rightarrow> string) \<Rightarrow> rat \<Rightarrow> rat option \<Rightarrow> (rat \<times> asgi_message) list \<Rightarrow> ingress_log \<Rightarrow> asgi_message list \<times> ingress_log" where
  "timed_messages fmt entered queue [] l = ([], l)"
| "timed_messages fmt entered queue ((t, m) # ms) l =
     (case timed_send fmt (t - entered) queue m l of (m', l') \<Rightarrow>
        (case timed_messages fmt entered queue ms l' of (ms', l'') \<Rightarrow> (m' # ms', l'')))"

definition ingress_call ::
  "(rat \<Rightarrow> string) \<Rightarrow> bool \<Rightarrow> rat option \<Rightarrow> rat \<Rightarrow> (rat \<times> asgi_message) list \<Rightarrow> ingress_log \<Rightarrow> asgi_message list \<times> ingress_log"
where
  "ingress_call fmt http parsed entered ms l =
     (if \<not> http then (map snd ms, l) else timed_messages fmt entered (map_option (\<lambda>p. entered - p) parsed) ms l)"

section \<open>Reading the timings\<close>

definition is_decimal :: "char \<Rightarrow> bool" where
  "is_decimal c \<longleftrightarrow> c = CHR ''.'' \<or> (let n = of_char c :: nat in 48 \<le> n \<and> n \<le> 57)"

text \<open>
  The first match of the pattern for \<open>name\<close>: an entry starts at the beginning or after a comma.  The number of a
  match need not be one (\<open>1.2.3\<close>), in which case \<open>float\<close> raises.
\<close>

fun entry_text :: "string \<Rightarrow> string list \<Rightarrow> string option" where
  "entry_text name [] = None"
| "entry_text name (e # es) =
     (let e' = dropWhile is_space e; digits = takeWhile is_decimal (drop (length name + 5) e') in
      if starts_with (name @ '';dur='') e' \<and> digits \<noteq> [] then Some digits else entry_text name es)"

definition app_duration :: "(string \<Rightarrow> rat option) \<Rightarrow> string \<Rightarrow> string \<Rightarrow> rat option result" where
  "app_duration to_float header name =
     (case entry_text name (split_on (CHR '','') header) of
        None \<Rightarrow> Inr None
      | Some digits \<Rightarrow> (case to_float digits of None \<Rightarrow> Inl (PyError ''ValueError'') | Some v \<Rightarrow> Inr (Some v)))"

record distribution =
  di_count :: nat
  di_p50 :: "rat option"
  di_p95 :: "rat option"
  di_p99 :: "rat option"
  di_max :: "rat option"

definition distribution_of :: "rat option list \<Rightarrow> distribution" where
  "distribution_of values =
     (let vs = List.map_filter id values in
      \<lparr>di_count = length vs, di_p50 = percentile vs (1 / 2), di_p95 = percentile vs (95 / 100), di_p99 = percentile vs (99 / 100),
       di_max = (case vs of [] \<Rightarrow> None | x # xs \<Rightarrow> Some (fold max xs x))\<rparr>)"

section \<open>A measured request\<close>

datatype timed_reply = Timed_error string | Timed_response http_response string "int option"

record timed_row =
  ti_status :: string
  ti_code :: "string option"
  ti_app :: "rat option"
  ti_queue :: "rat option"
  ti_headers :: "rat option"
  ti_port :: "int option"
  ti_hold :: "json option"
  ti_client :: rat
  ti_connected :: bool
  ti_tcp :: "rat option"
  ti_before_io :: "rat option"
  ti_send :: "rat option"
  ti_outside_app :: "rat option"
  ti_outside_protocol :: "rat option"

text \<open>The traced events with their times; a later event of the same name replaces the earlier one.\<close>

definition trace_interval :: "(string \<times> rat) list \<Rightarrow> string \<Rightarrow> string \<Rightarrow> rat option" where
  "trace_interval traced a b = (case (map_of traced a, map_of traced b) of (Some s, Some e) \<Rightarrow> Some ((e - s) * 1000) | _ \<Rightarrow> None)"

definition before_io :: "(string \<times> rat) list \<Rightarrow> rat \<Rightarrow> rat option" where
  "before_io traced started = (case map snd traced of [] \<Rightarrow> None | t # ts \<Rightarrow> Some ((fold min ts t - started) * 1000))"

definition reply_part ::
  "(string \<Rightarrow> rat option) \<Rightarrow> timed_reply \<Rightarrow> (string \<times> string option \<times> rat option \<times> rat option \<times> rat option \<times> int option \<times> json option) result"
where
  "reply_part to_float r =
     (case r of
        Timed_error cls \<Rightarrow> Inr (''transport_error'', Some cls, None, None, None, None, None)
      | Timed_response h timing local_port \<Rightarrow>
          ebind (app_duration to_float timing ''app'') (\<lambda>app.
          ebind (app_duration to_float timing ''protocol_queue'') (\<lambda>queue.
          ebind (app_duration to_float timing ''asgi_headers'') (\<lambda>asgi.
          ebind (if hr_status h \<noteq> 201 then Inr None
             else case hr_json h of None \<Rightarrow> Inl (PyError ''ValueError'') | Some (JObj kvs) \<Rightarrow> Inr (map_of kvs ''hold_id'')
             | Some _ \<Rightarrow> Inl (PyError ''AttributeError'')) (\<lambda>hold.
          Inr (int_str (hr_status h), if hr_status h \<noteq> 201 then Some (error_code h) else None, app, queue, asgi, local_port, hold))))))"

definition measured_request :: "(string \<Rightarrow> rat option) \<Rightarrow> rat \<Rightarrow> rat \<Rightarrow> (string \<times> rat) list \<Rightarrow> timed_reply \<Rightarrow> timed_row result" where
  "measured_request to_float started finished traced r =
     ebind (reply_part to_float r) (\<lambda>(status, code, app, queue, asgi, local_port, hold).
       let client = (finished - started) * 1000 in
       Inr \<lparr>ti_status = status, ti_code = code, ti_app = app, ti_queue = queue, ti_headers = asgi, ti_port = local_port, ti_hold = hold,
         ti_client = client, ti_connected = (map_of traced ''connection.connect_tcp.started'' \<noteq> None),
         ti_tcp = trace_interval traced ''connection.connect_tcp.started'' ''connection.connect_tcp.complete'',
         ti_before_io = before_io traced started,
         ti_send = trace_interval traced ''http11.send_request_body.complete'' ''http11.receive_response_headers.complete'',
         ti_outside_app = map_option (\<lambda>x. client - x) app,
         ti_outside_protocol = (case (queue, asgi) of (Some q, Some h) \<Rightarrow> Some (client - q - h) | _ \<Rightarrow> None)\<rparr>)"

section \<open>Workers of a wave\<close>

record wave_plan =
  wv_contenders :: nat
  wv_lanes :: nat
  wv_workers :: nat
  wv_warm :: bool
  wv_seat :: nat
  wv_require_ingress :: bool

definition wave_plan_ok :: "bool \<Rightarrow> wave_plan \<Rightarrow> bool" where
  "wave_plan_ok matrix p \<longleftrightarrow> wv_contenders p \<in> {100, 1000} \<and> wv_workers p \<in> {1, 4} \<and> 4 \<le> wv_lanes p \<and> wv_lanes p \<le> 128 \<and>
     min (wv_lanes p) (wv_contenders p) mod 4 = 0 \<and> wv_seat p \<le> (if matrix then 292 else 299)"

definition worker_checks :: "int option \<Rightarrow> string option \<Rightarrow> time \<Rightarrow> time \<Rightarrow> nat \<Rightarrow> wave_plan \<Rightarrow> unit result" where
  "worker_checks schema env expires now tokens p =
     ebind (require (schema = Some 1 \<and> env = Some ''development'') (PyError ''ValueError'')) (\<lambda>_.
     ebind (require (expires \<ge> now + 5 * 60 * 1000000) (PyError ''ValueError'')) (\<lambda>_.
     require (tokens \<ge> wv_contenders p) (PyError ''ValueError'')))"

text \<open>\<open>range(worker_index, contenders, workers)\<close>\<close>

definition worker_indices :: "wave_plan \<Rightarrow> nat \<Rightarrow> nat list" where
  "worker_indices p i = filter (\<lambda>k. k mod wv_workers p = i) [0..<wv_contenders p]"

definition lane_count :: "wave_plan \<Rightarrow> nat" where
  "lane_count p = min (wv_contenders p) (wv_lanes p) div wv_workers p"

text \<open>The ports of the warmed connections; \<open>None\<close> is a connection whose port is unknown.\<close>

definition warm_ports :: "wave_plan \<Rightarrow> int option list \<Rightarrow> unit result" where
  "warm_ports p ports = require (None \<notin> set ports \<and> length (remdups ports) = lane_count p) (PyError ''ValueError'')"

record lane_row = timed_row +
  la_index :: nat
  la_total :: rat
  la_reused :: "bool option"

record worker_report =
  wk_run :: string
  wk_started :: rat
  wk_rows :: "lane_row list"

definition warm_reuse :: "wave_plan \<Rightarrow> worker_report \<Rightarrow> bool option" where
  "warm_reuse p w =
     (if wv_warm p then Some (list_all (\<lambda>r. la_reused r = Some True \<and> \<not> ti_connected r) (wk_rows w)) else None)"

section \<open>The coordinator\<close>

record wave_result =
  rs_winners :: "(string \<times> json option) list"
  rs_expected :: nat
  rs_skew :: rat
  rs_one_winner :: bool
  rs_accounting :: bool
  rs_warm :: "bool option"
  rs_valid :: bool
  rs_available :: bool

definition wave_result_of :: "wave_plan \<Rightarrow> worker_report list \<Rightarrow> wave_result result" where
  "wave_result_of p ws =
     (case map wk_started ws of
        [] \<Rightarrow> Inl (PyError ''ValueError'')
      | t # ts \<Rightarrow>
          let rows = concat (map wk_rows ws);
              winners = concat (map (\<lambda>w. map (\<lambda>r. (wk_run w, ti_hold r)) (filter (\<lambda>r. ti_status r = ''201'') (wk_rows w))) ws);
              expected = length (filter (\<lambda>r. ti_status r = ''409'' \<and> ti_code r \<in> {Some ''SEAT_BUSY'', Some ''SEAT_UNAVAILABLE''}) rows);
              skew = (fold max ts t - fold min ts t) * 1000;
              accounting = (length rows = wv_contenders p \<and> length (remdups (map la_index rows)) = wv_contenders p);
              warm = (if wv_warm p then Some (list_all (\<lambda>w. warm_reuse p w = Some True) ws) else None);
              complete = list_all (\<lambda>r. ti_queue r \<noteq> None \<and> ti_headers r \<noteq> None) rows in
          Inr \<lparr>rs_winners = winners, rs_expected = expected, rs_skew = skew, rs_one_winner = (length winners = 1), rs_accounting = accounting,
            rs_warm = warm, rs_valid = (accounting \<and> skew \<le> 100 \<and> warm \<noteq> Some False \<and> (wv_require_ingress p \<longrightarrow> complete)),
            rs_available = (length winners = 1 \<and> int expected = int (wv_contenders p) - 1)\<rparr>)"

text \<open>The workers come up, are released and end: \<open>codes\<close> are their exit statuses.\<close>

definition coordinate :: "wave_plan \<Rightarrow> bool \<Rightarrow> int list \<Rightarrow> worker_report list \<Rightarrow> wave_result result" where
  "coordinate p ready_in_time codes ws =
     ebind (require ready_in_time (PyError ''RuntimeError'')) (\<lambda>_.
     ebind (require (list_all (\<lambda>c. c = 0) codes) (PyError ''RuntimeError'')) (\<lambda>_.
     ebind (wave_result_of p ws) (\<lambda>r.
     ebind (require (rs_valid r \<and> rs_one_winner r) (PyError ''RuntimeError'')) (\<lambda>_. Inr r))))"

definition WAVE_VARIANTS :: "(bool \<times> nat) list" where
  "WAVE_VARIANTS = [(False, 1), (True, 1), (False, 4), (True, 4)]"

definition wave_matrix :: "wave_plan \<Rightarrow> wave_plan list" where
  "wave_matrix p = map (\<lambda>(i, warm, n). p\<lparr>wv_warm := warm, wv_workers := n, wv_seat := wv_seat p + i\<rparr>)
     (enumerate 0 (WAVE_VARIANTS @ rev WAVE_VARIANTS))"

section \<open>The simple load test\<close>

text \<open>\<open>xs[min(len(xs) - 1, int(len(xs) * 0.95))]\<close> of a sorted list.\<close>

definition load_p95 :: "rat list \<Rightarrow> rat option" where
  "load_p95 xs = (if xs = [] then None else Some (sort xs ! min (length xs - 1) (nat \<lfloor>of_nat (length xs) * (95 / 100 :: rat)\<rfloor>)))"

text \<open>The status, 0 for a transport error, and the latency.\<close>

definition load_verdict :: "(int \<times> rat) list \<Rightarrow> unit result" where
  "load_verdict results =
     ebind (require (length (filter (\<lambda>r. fst r = 201) results) = 1) (PyError ''AssertionError'')) (\<lambda>_.
     require (fst ` set results \<subseteq> {201, 409, 429, 503}) (PyError ''AssertionError''))"

definition load_conflict_p95 :: "(int \<times> rat) list \<Rightarrow> rat option" where
  "load_conflict_p95 results = load_p95 (map snd (filter (\<lambda>r. fst r = 409) results))"

section \<open>Facts\<close>

text \<open>The wrapper is transparent: it only appends a header to the start of a response.\<close>

definition drop_timing :: "asgi_message \<Rightarrow> asgi_message" where
  "drop_timing m = (case m of Response_start status hs \<Rightarrow> Response_start status (butlast hs) | Other_message x \<Rightarrow> m)"

lemma timed_messages_transparent:
  "map drop_timing (fst (timed_messages fmt entered queue ms l)) = map snd ms"
proof (induction ms arbitrary: l)
  case (Cons tm ms)
  obtain t m where tm: "tm = (t, m)" by (cases tm)
  have "drop_timing (fst (timed_send fmt (t - entered) queue m l)) = m"
    by (cases m) (simp_all add: timed_send_def drop_timing_def Let_def)
  then show ?case using Cons.IH by (simp add: tm case_prod_unfold)
qed simp

lemma keepalive_bounds: "server_keepalive_seconds to_int setting = Inr v \<Longrightarrow> 1 \<le> v \<and> v \<le> 300"
  by (auto simp: server_keepalive_seconds_def split: option.splits if_splits)

text \<open>Each contender belongs to exactly one worker, so complete workers pass the accounting.\<close>

lemma worker_indices_partition:
  assumes "0 < wv_workers p"
  shows "distinct (concat (map (worker_indices p) [0..<wv_workers p]))"
    and "set (concat (map (worker_indices p) [0..<wv_workers p])) = {0..<wv_contenders p}"
proof -
  have d: "distinct (concat (map (worker_indices p) [a..<b]))" for a b
  proof (induction b)
    case (Suc b)
    show ?case
    proof (cases "a \<le> b")
      case True
      have "set (concat (map (worker_indices p) [a..<b])) \<inter> set (worker_indices p b) = {}"
        by (auto simp: worker_indices_def)
      then show ?thesis using Suc True by (simp add: worker_indices_def)
    qed simp
  qed simp
  show "distinct (concat (map (worker_indices p) [0..<wv_workers p]))" by (rule d)
  show "set (concat (map (worker_indices p) [0..<wv_workers p])) = {0..<wv_contenders p}"
    using assms by (auto simp: worker_indices_def)
qed

lemma complete_workers_account:
  assumes "0 < wv_workers p" and "map (\<lambda>w. map la_index (wk_rows w)) ws = map (worker_indices p) [0..<wv_workers p]"
    and "wave_result_of p ws = Inr r"
  shows "rs_accounting r"
proof -
  note part = worker_indices_partition [OF assms(1)]
  define rows where "rows = concat (map wk_rows ws)"
  have i: "map la_index rows = concat (map (worker_indices p) [0..<wv_workers p])"
    unfolding rows_def map_concat map_map comp_def assms(2) [symmetric] ..
  have "length rows = length (map la_index rows)" by simp
  also have "\<dots> = card (set (map la_index rows))" unfolding i by (rule distinct_card [OF part(1), symmetric])
  finally have n: "length rows = wv_contenders p" unfolding i part(2) by simp
  have "remdups (map la_index rows) = map la_index rows" unfolding i by (rule distinct_remdups_id [OF part(1)])
  then have "length (remdups (map la_index rows)) = length rows" by (metis length_map)
  then show ?thesis using assms(3) n
    unfolding wave_result_of_def Let_def rows_def [symmetric] by (cases "map wk_started ws") auto
qed

text \<open>The eight waves of a matrix use eight different seats of the fixture.\<close>

lemma matrix_seats:
  assumes "wave_plan_ok True p"
  shows "map wv_seat (wave_matrix p) = map (\<lambda>i. wv_seat p + i) [0..<8] \<and> (\<forall>q\<in>set (wave_matrix p). wv_seat q \<le> 299)"
  using assms by (auto simp: wave_matrix_def WAVE_VARIANTS_def wave_plan_ok_def upt_rec enumerate_eq_zip)

text \<open>A list without the separator is one part; up to a separator it is the first part.\<close>

lemma split_on_none: "c \<notin> set xs \<Longrightarrow> split_on c xs = [xs]"
  by (induction xs) auto

lemma split_on_first: "c \<notin> set xs \<Longrightarrow> split_on c (xs @ c # ys) = xs # split_on c ys"
  by (induction xs) auto

definition decimal_text :: "string \<Rightarrow> bool" where
  "decimal_text s \<longleftrightarrow> s \<noteq> [] \<and> list_all is_decimal s"

lemma decimal_no_comma: "decimal_text s \<Longrightarrow> CHR '','' \<notin> set s"
proof
  assume "decimal_text s" and "CHR '','' \<in> set s"
  then have "is_decimal (CHR '','')" by (auto simp: decimal_text_def list_all_iff)
  moreover have "\<not> is_decimal (CHR '','')" by code_simp
  ultimately show False by blast
qed

lemma entry_of:
  assumes "decimal_text s" and "\<not> is_space (hd name)" and "name \<noteq> []" and "list_all is_space blanks"
  shows "entry_text name ((blanks @ name @ '';dur='' @ s) # es) = Some s"
proof -
  define rest where "rest = name @ '';dur='' @ s"
  obtain c n where n: "name = c # n" "\<not> is_space c" using assms(2,3) by (cases name) auto
  have "dropWhile is_space rest = rest" by (simp add: rest_def n)
  then have b: "dropWhile is_space (blanks @ rest) = rest" using assms(4) by (induction blanks) simp_all
  have digits: "takeWhile is_decimal (drop (length name + 5) rest) = s"
    using assms(1) by (simp add: rest_def decimal_text_def list_all_iff takeWhile_eq_all_conv)
  have pre: "starts_with (name @ '';dur='') rest" by (simp add: rest_def starts_with_def)
  have "s \<noteq> []" using assms(1) by (simp add: decimal_text_def)
  then show ?thesis unfolding rest_def [symmetric] entry_text.simps b Let_def digits using pre by simp
qed

text \<open>
  Fact.  What the server writes, the waves read: when the response has the application's own timing and the
  wrapper's, joined as the client joins repeated headers, each of the three durations is read back as the number
  that was written for it.
\<close>

theorem timings_read_back:
  assumes dec: "decimal_text app" "decimal_text (fmt (elapsed * 1000))" "decimal_text (fmt (q * 1000))"
    and num: "to_float app = Some a" "to_float (fmt (elapsed * 1000)) = Some b" "to_float (fmt (q * 1000)) = Some c"
  shows "app_duration to_float (''app;dur='' @ app @ '', '' @ timing_header fmt elapsed (Some q)) ''app'' = Inr (Some a) \<and>
    app_duration to_float (''app;dur='' @ app @ '', '' @ timing_header fmt elapsed (Some q)) ''asgi_headers'' = Inr (Some b) \<and>
    app_duration to_float (''app;dur='' @ app @ '', '' @ timing_header fmt elapsed (Some q)) ''protocol_queue'' = Inr (Some c)"
proof -
  define B C where "B = fmt (elapsed * 1000)" and "C = fmt (q * 1000)"
  let ?e1 = "''app;dur='' @ app" let ?e2 = "'' '' @ ''asgi_headers'' @ '';dur='' @ B" let ?e3 = "'' '' @ ''protocol_queue'' @ '';dur='' @ C"
  have no: "CHR '','' \<notin> set app" "CHR '','' \<notin> set B" "CHR '','' \<notin> set C"
    using dec decimal_no_comma unfolding B_def C_def by blast+
  have "''app;dur='' @ app @ '', '' @ timing_header fmt elapsed (Some q) = ?e1 @ CHR '','' # (?e2 @ CHR '','' # ?e3)"
    by (simp add: timing_header_def B_def C_def)
  moreover have "split_on (CHR '','') (?e1 @ CHR '','' # (?e2 @ CHR '','' # ?e3)) = [?e1, ?e2, ?e3]"
    using no by (subst split_on_first, simp, subst split_on_first, simp, subst split_on_none) simp_all
  ultimately have parts: "split_on (CHR '','') (''app;dur='' @ app @ '', '' @ timing_header fmt elapsed (Some q)) = [?e1, ?e2, ?e3]"
    by simp
  have sp: "\<not> is_space (CHR ''a'')" "\<not> is_space (CHR ''p'')" "list_all is_space '' ''" by code_simp+
  have "entry_text ''app'' [?e1, ?e2, ?e3] = Some app"
    using entry_of [of app "''app''" "[]" "[?e2, ?e3]"] dec(1) sp by simp
  moreover have "entry_text ''asgi_headers'' [?e1, ?e2, ?e3] = Some B"
  proof -
    have "entry_text ''asgi_headers'' [?e1, ?e2, ?e3] = entry_text ''asgi_headers'' [?e2, ?e3]"
      using sp by (simp add: starts_with_def)
    then show ?thesis using entry_of [of B "''asgi_headers''" "'' ''" "[?e3]"] dec(2) sp by (simp add: B_def)
  qed
  moreover have "entry_text ''protocol_queue'' [?e1, ?e2, ?e3] = Some C"
  proof -
    have "entry_text ''protocol_queue'' [?e1, ?e2, ?e3] = entry_text ''protocol_queue'' [?e3]"
      using sp by (simp add: starts_with_def)
    then show ?thesis using entry_of [of C "''protocol_queue''" "'' ''" "[]"] dec(3) sp by (simp add: C_def)
  qed
  ultimately show ?thesis using num unfolding app_duration_def parts by (simp add: B_def C_def)
qed

end
