(* ===== verification/Redaction.thy ===== *)
theory Redaction
  imports Text_Tools Config
begin

text \<open>
  The redaction of captured output before it is logged (\<open>redact\<close> in \<open>scripts/unattended_capacity_stage.py\<close>): three
  patterns, each replaced everywhere from left to right.  A pattern is a function that gives the replacement of a
  match at the start of a text and what follows the match; the repetitions in the patterns are greedy and are
  followed by a character they cannot match, so no backtracking is left.
\<close>

section \<open>Substitution\<close>

text \<open>A word at the start of a text, letters of either case: the text as it is written, and the rest.\<close>

definition word_at :: "string \<Rightarrow> string \<Rightarrow> (string \<times> string) option" where
  "word_at w s = (if map lower_char (take (length w) s) = w then Some (take (length w) s, drop (length w) s) else None)"

type_synonym rewriting = "string \<Rightarrow> (string \<times> string) option"

text \<open>\<open>pattern.sub\<close>; a match is never empty, so what follows it is shorter.\<close>

function substitute :: "rewriting \<Rightarrow> string \<Rightarrow> string" where
  "substitute p [] = []"
| "substitute p (c # cs) =
     (case p (c # cs) of
        Some (out, rest) \<Rightarrow> if length rest < length (c # cs) then out @ substitute p rest else c # substitute p cs
      | None \<Rightarrow> c # substitute p cs)"
  by pat_completeness auto

termination substitute
  by (relation "measure (length \<circ> snd)") auto

section \<open>The patterns\<close>

definition REDACTED :: string where
  "REDACTED = ''[REDACTED]''"

definition KEYWORDS :: "string list" where
  "KEYWORDS = [''password'', ''token'', ''secret'', ''authorization'']"

fun first_word :: "string list \<Rightarrow> string \<Rightarrow> (string \<times> string) option" where
  "first_word [] s = None"
| "first_word (w # ws) s = (case word_at w s of None \<Rightarrow> first_word ws s | Some r \<Rightarrow> Some r)"

text \<open>A keyword, an equals sign or a colon between blanks, and a value up to the next blank.\<close>

definition keyword_pattern :: rewriting where
  "keyword_pattern s =
     (case first_word KEYWORDS s of
        None \<Rightarrow> None
      | Some (k, rest) \<Rightarrow>
          let blanks = takeWhile is_space rest; rest = dropWhile is_space rest in
          if rest = [] \<or> hd rest \<notin> {CHR ''='', CHR '':''} then None
          else
            let after = takeWhile is_space (tl rest); rest' = dropWhile is_space (tl rest) in
            if rest' = [] then None
            else Some (k @ blanks @ [hd rest] @ after @ REDACTED, dropWhile (\<lambda>c. \<not> is_space c) rest'))"

text \<open>\<open>postgres://user:password@\<close>, also \<open>postgresql\<close>.\<close>

definition dsn_pattern :: rewriting where
  "dsn_pattern s =
     (case first_word [''postgresql://'', ''postgres://''] s of
        None \<Rightarrow> None
      | Some (scheme, rest) \<Rightarrow>
          let user = takeWhile (\<lambda>c. c \<noteq> CHR '':'' \<and> \<not> is_space c) rest;
              rest = dropWhile (\<lambda>c. c \<noteq> CHR '':'' \<and> \<not> is_space c) rest in
          if user = [] \<or> rest = [] \<or> hd rest \<noteq> CHR '':'' then None
          else
            let password = takeWhile (\<lambda>c. c \<noteq> CHR ''@'' \<and> \<not> is_space c) (tl rest);
                rest = dropWhile (\<lambda>c. c \<noteq> CHR ''@'' \<and> \<not> is_space c) (tl rest) in
            if password = [] \<or> rest = [] \<or> hd rest \<noteq> CHR ''@'' then None
            else Some (scheme @ user @ '':'' @ REDACTED @ ''@'', tl rest))"

definition bearer_pattern :: rewriting where
  "bearer_pattern s =
     (case word_at ''bearer'' s of
        None \<Rightarrow> None
      | Some (_, rest) \<Rightarrow>
          if rest = [] \<or> \<not> is_space (hd rest) \<or> dropWhile is_space rest = [] then None
          else Some (''Bearer '' @ REDACTED, dropWhile (\<lambda>c. \<not> is_space c) (dropWhile is_space rest)))"

definition redact :: "string \<Rightarrow> string" where
  "redact s = substitute bearer_pattern (substitute dsn_pattern (substitute keyword_pattern s))"

section \<open>Facts\<close>

lemma substitute_skip:
  assumes "\<And>k. k < length v \<Longrightarrow> p (drop k v @ w) = None"
  shows "substitute p (v @ w) = v @ substitute p w"
  using assms
proof (induction v)
  case (Cons c v)
  have "p (drop k v @ w) = None" if "k < length v" for k using Cons.prems [of "Suc k"] that by simp
  then have "substitute p (v @ w) = v @ substitute p w" by (rule Cons.IH)
  moreover have "p (c # v @ w) = None" using Cons.prems [of 0] by simp
  ultimately show ?case by simp
qed simp

lemma substitute_none: "(\<And>k. k < length s \<Longrightarrow> p (drop k s) = None) \<Longrightarrow> substitute p s = s"
  using substitute_skip [of s p "[]"] by simp

lemma first_word_rest: "first_word ws s = Some (k, rest) \<Longrightarrow> set rest \<subseteq> set s"
  by (induction ws) (auto simp: word_at_def split: if_splits option.splits dest: in_set_dropD)

text \<open>A text without an equals sign or a colon has no assignment, one without a slash no address, one without a blank no bearer token.\<close>

lemma keyword_none:
  assumes "CHR ''='' \<notin> set s" and "CHR '':'' \<notin> set s"
  shows "keyword_pattern s = None"
proof (cases "first_word KEYWORDS s")
  case (Some r)
  obtain k rest where r: "r = (k, rest)" by (cases r)
  show ?thesis
  proof (cases "dropWhile is_space rest")
    case Nil
    then show ?thesis unfolding keyword_pattern_def Some r by (simp add: Let_def)
  next
    case (Cons d ds)
    have "d \<in> set (dropWhile is_space rest)" unfolding Cons by simp
    then have "d \<in> set rest" by (auto dest: set_dropWhileD)
    then have "d \<in> set s" using first_word_rest [OF Some [unfolded r]] by (rule subsetD [rotated])
    then have "d \<notin> {CHR ''='', CHR '':''}" using assms by auto
    then show ?thesis unfolding keyword_pattern_def Some r by (simp add: Cons Let_def)
  qed
qed (simp add: keyword_pattern_def)

lemma lower_char_slash:
  assumes "lower_char c = CHR 0x2F"
  shows "c = CHR 0x2F"
proof (cases "65 \<le> (of_char c :: nat) \<and> (of_char c :: nat) \<le> 90")
  case True
  then have "lower_char c = char_of ((of_char c :: nat) + 32)" by (simp add: lower_char_def)
  then have "(of_char (CHR 0x2F) :: nat) = of_char c + 32" using assms True by simp
  then show ?thesis using True by simp
next
  case False
  then have "lower_char c = c" unfolding lower_char_def Let_def by (rule if_not_P)
  then show ?thesis using assms by simp
qed

lemma word_none:
  assumes "CHR 0x2F \<notin> set s" and "CHR 0x2F \<in> set w"
  shows "word_at w s = None"
proof -
  have "map lower_char (take (length w) s) \<noteq> w"
  proof
    assume eq: "map lower_char (take (length w) s) = w"
    have "CHR 0x2F \<in> set (map lower_char (take (length w) s))" unfolding eq by (rule assms(2))
    then obtain c where "c \<in> set (take (length w) s)" and "lower_char c = CHR 0x2F" by auto
    then show False using assms(1) lower_char_slash in_set_takeD by metis
  qed
  then show ?thesis by (simp add: word_at_def)
qed

lemma dsn_none: "CHR 0x2F \<notin> set s \<Longrightarrow> dsn_pattern s = None"
  by (simp add: dsn_pattern_def word_none)

lemma bearer_none_space:
  assumes "\<forall>c\<in>set s. \<not> is_space c"
  shows "bearer_pattern s = None"
proof (cases "word_at ''bearer'' s")
  case (Some r)
  obtain w rest where r: "r = (w, rest)" by (cases r)
  have "first_word [''bearer''] s = Some (w, rest)" unfolding first_word.simps Some r by simp
  then have "set rest \<subseteq> set s" by (rule first_word_rest)
  then have "rest = [] \<or> \<not> is_space (hd rest)" using assms by (cases rest) auto
  then show ?thesis unfolding bearer_pattern_def Some r by auto
qed (simp add: bearer_pattern_def)

lemma bearer_none_head: "lower_char c \<noteq> CHR ''b'' \<Longrightarrow> bearer_pattern (c # s) = None"
  by (simp add: bearer_pattern_def word_at_def)

text \<open>The characters of a bearer token: no blank, and none of the separators of the patterns.\<close>

definition token_char :: "char \<Rightarrow> bool" where
  "token_char c \<longleftrightarrow> \<not> is_space c \<and> c \<notin> {CHR ''='', CHR '':'', CHR 0x2F}"

lemma token_text:
  assumes "list_all token_char t"
  shows "\<forall>c\<in>set t. \<not> is_space c" "CHR ''='' \<notin> set t" "CHR '':'' \<notin> set t" "CHR 0x2F \<notin> set t"
  using assms by (auto simp: list_all_iff token_char_def)

lemma word_at_append: "length w \<le> length s \<Longrightarrow> word_at w (s @ t) = map_option (apsnd (\<lambda>r. r @ t)) (word_at w s)"
  by (simp add: word_at_def)

lemma first_word_append:
  "\<forall>w\<in>set ws. length w \<le> length s \<Longrightarrow> first_word ws (s @ t) = map_option (apsnd (\<lambda>r. r @ t)) (first_word ws s)"
  by (induction ws) (auto simp: word_at_append split: option.splits)

lemma bearer_skip:
  assumes "list_all (\<lambda>c. lower_char c \<noteq> CHR ''b'') v"
  shows "substitute bearer_pattern (v @ t) = v @ substitute bearer_pattern t"
proof (rule substitute_skip)
  fix k
  assume k: "k < length v"
  have "lower_char (v ! k) \<noteq> CHR ''b''" using assms k by (simp add: list_all_length)
  then have "bearer_pattern (v ! k # (drop (Suc k) v @ t)) = None" by (rule bearer_none_head)
  then show "bearer_pattern (drop k v @ t) = None" using k by (simp add: Cons_nth_drop_Suc [symmetric])
qed

lemma keyword_silent: "list_all token_char t \<Longrightarrow> substitute keyword_pattern t = t"
  by (intro substitute_none keyword_none) (auto dest: in_set_dropD token_text(2,3))

lemma dsn_silent: "CHR 0x2F \<notin> set s \<Longrightarrow> substitute dsn_pattern s = s"
  by (intro substitute_none dsn_none) (auto dest: in_set_dropD)

lemma bearer_silent: "list_all token_char t \<Longrightarrow> substitute bearer_pattern t = t"
  by (intro substitute_none bearer_none_space) (auto dest: in_set_dropD token_text(1))

lemma blanks_of_text:
  "is_space (CHR '' '')" "\<not> is_space (CHR ''B'')" "\<not> is_space (CHR ''e'')" "\<not> is_space (CHR ''a'')"
  "\<not> is_space (CHR ''r'')" "\<not> is_space (CHR ''='')" "\<not> is_space (CHR '':'')"
  by code_simp+

lemma header_keyword:
  "keyword_pattern (''Authorization: Bearer '' @ t) = Some (''Authorization: '' @ REDACTED, '' '' @ t)"
proof -
  have "first_word KEYWORDS ''Authorization: Bearer '' = Some (''Authorization'', '': Bearer '')" by code_simp
  then have "first_word KEYWORDS (''Authorization: Bearer '' @ t) = Some (''Authorization'', '': Bearer '' @ t)"
    by (subst first_word_append) (simp_all add: KEYWORDS_def)
  then show ?thesis unfolding keyword_pattern_def by (simp add: Let_def blanks_of_text)
qed

text \<open>What the patterns do catch: the value of a keyword written with an equals sign, and a bearer token on its own.\<close>

lemma lower_letters:
  "lower_char (CHR ''p'') = CHR ''p''" "lower_char (CHR ''a'') = CHR ''a''" "lower_char (CHR ''s'') = CHR ''s''"
  "lower_char (CHR ''w'') = CHR ''w''" "lower_char (CHR ''o'') = CHR ''o''" "lower_char (CHR ''r'') = CHR ''r''"
  "lower_char (CHR ''d'') = CHR ''d''" "lower_char (CHR ''t'') = CHR ''t''" "lower_char (CHR ''k'') = CHR ''k''"
  "lower_char (CHR ''e'') = CHR ''e''" "lower_char (CHR ''n'') = CHR ''n''" "lower_char (CHR ''c'') = CHR ''c''"
  "lower_char (CHR ''u'') = CHR ''u''" "lower_char (CHR ''h'') = CHR ''h''" "lower_char (CHR ''i'') = CHR ''i''"
  "lower_char (CHR ''z'') = CHR ''z''"
  by code_simp+

lemma first_word_keyword: "k \<in> set KEYWORDS \<Longrightarrow> first_word KEYWORDS (k @ u) = Some (k, u)"
  unfolding KEYWORDS_def by (simp add: word_at_def lower_letters) (elim disjE; simp add: lower_letters)

text \<open>
  Fact.  \<^emph>\<open>Written with an equals sign, the value of a keyword is replaced, whatever characters other than blanks it
  has.\<close>
\<close>

lemma keyword_value_redacted:
  assumes "k \<in> set KEYWORDS" and "\<forall>c\<in>set t. \<not> is_space c" and "t \<noteq> []"
  shows "substitute keyword_pattern (k @ ''='' @ t) = k @ ''='' @ REDACTED"
proof -
  have head: "dropWhile is_space t = t" "takeWhile is_space t = []" using assms(2) by (cases t; simp)+
  have tail: "dropWhile (\<lambda>c. \<not> is_space c) t = []" using assms(2) by simp
  have "keyword_pattern (k @ ''='' @ t) = Some (k @ ''='' @ REDACTED, [])"
    unfolding keyword_pattern_def first_word_keyword [OF assms(1)] using assms(3)
    by (simp add: Let_def blanks_of_text head tail)
  moreover obtain c cs where "k @ ''='' @ t = c # cs" by (cases "k @ ''='' @ t") simp_all
  ultimately show ?thesis by simp
qed

text \<open>
  Fact.  \<^emph>\<open>A bearer token that no keyword precedes is replaced.\<close>
\<close>

lemma bare_bearer_redacted:
  assumes "list_all token_char t" and "t \<noteq> []"
  shows "redact (''Bearer '' @ t) = ''Bearer [REDACTED]''"
proof -
  have safe: "CHR ''='' \<notin> set (''Bearer '' @ t)" "CHR '':'' \<notin> set (''Bearer '' @ t)" "CHR 0x2F \<notin> set (''Bearer '' @ t)"
    using token_text(2-4) [OF assms(1)] by simp_all
  have assigned: "substitute keyword_pattern (''Bearer '' @ t) = ''Bearer '' @ t"
    by (intro substitute_none keyword_none) (use safe(1,2) in_set_dropD in metis)+
  have "word_at ''bearer'' ''Bearer '' = Some (''Bearer'', '' '')" by code_simp
  then have word: "word_at ''bearer'' (''Bearer '' @ t) = Some (''Bearer'', '' '' @ t)" by (subst word_at_append) simp_all
  have head: "dropWhile is_space t = t" using token_text(1) [OF assms(1)] by (cases t) simp_all
  have tail: "dropWhile (\<lambda>c. \<not> is_space c) t = []" using token_text(1) [OF assms(1)] by simp
  have "bearer_pattern (''Bearer '' @ t) = Some (''Bearer '' @ REDACTED, [])"
    unfolding bearer_pattern_def word using assms(2) by (simp add: blanks_of_text head tail del: dropWhile_eq_Nil_conv)
  then show ?thesis unfolding redact_def assigned dsn_silent [OF safe(3)] by (simp add: REDACTED_def)
qed

text \<open>
  Property C38.  \<^emph>\<open>The usual form of the header is not redacted: in \<open>Authorization: Bearer <token>\<close> the keyword pattern
  takes the word \<open>Bearer\<close> for the value, replaces it, and leaves the token; the bearer pattern, which would have
  caught it, then finds no \<open>Bearer\<close> any more.  The token stays in the text as it is, for every token without
  blanks and separators.\<close>
\<close>

theorem bearer_header_leaks:
  assumes "list_all token_char t"
  shows "redact (''Authorization: Bearer '' @ t) = ''Authorization: [REDACTED] '' @ t"
proof -
  define v where "v = ''Authorization: '' @ REDACTED @ '' ''"
  have v: "list_all (\<lambda>c. lower_char c \<noteq> CHR ''b'') v" "CHR 0x2F \<notin> set v" unfolding v_def by code_simp+
  have blank: "substitute keyword_pattern ('' '' @ t) = '' '' @ t"
    by (intro substitute_none keyword_none) (use token_text(2,3) [OF assms] in \<open>auto dest!: in_set_dropD\<close>)
  have "substitute keyword_pattern (''Authorization: Bearer '' @ t) = (''Authorization: '' @ REDACTED) @ substitute keyword_pattern ('' '' @ t)"
    using header_keyword [of t] by simp
  then have assigned: "substitute keyword_pattern (''Authorization: Bearer '' @ t) = v @ t" unfolding blank v_def by simp
  have "CHR 0x2F \<notin> set (v @ t)" using v(2) token_text(4) [OF assms] by simp
  then have dsn: "substitute dsn_pattern (v @ t) = v @ t" by (rule dsn_silent)
  have "redact (''Authorization: Bearer '' @ t) = substitute bearer_pattern (v @ t)" unfolding redact_def assigned dsn ..
  also have "\<dots> = v @ t" unfolding bearer_skip [OF v(1)] bearer_silent [OF assms] ..
  finally show ?thesis unfolding v_def REDACTED_def by simp
qed

theorem bearer_header_leaks_witness:
  "list_all token_char ''ey.abc'' \<and> redact (''Authorization: Bearer '' @ ''ey.abc'') = ''Authorization: [REDACTED] '' @ ''ey.abc''"
proof -
  have "list_all token_char ''ey.abc''" by code_simp
  then show ?thesis using bearer_header_leaks by blast
qed

end
