(* ===== verification/Log_Reports.thy ===== *)
theory Log_Reports
  imports Db_Observers
begin

text \<open>
  The reports on the logs of a load test: the error responses of the API (\<open>scripts/extract_capacity_api_errors.py\<close>),
  the slow phases of the database adapter (\<open>summarize_slow_db_phases.py\<close>), the hold requests
  (\<open>summarize_hold_diagnostics.py\<close>), the ingress timings (\<open>summarize_ingress.py\<close>), and the join of a contention wave
  with the server's log (\<open>analyze_hold_contention.py\<close>).  A line is what \<open>json.loads\<close> gives, \<open>None\<close> where it raises;
  its numbers are finite and exact.  \<open>other\<close> is \<open>str\<close> on a fraction, a list or a dictionary.
\<close>

section \<open>Logged values\<close>

datatype lv = LNull | LBool bool | LInt int | LFloat rat | LText string | LArr "lv list" | LObj "(string \<times> lv) list"

type_synonym fields = "(string \<times> lv) list"

text \<open>\<open>record.get(key)\<close>, truth, \<open>isinstance(v, (int, float))\<close> (a truth value is an \<open>int\<close>), and \<open>str\<close>.\<close>

definition lget :: "string \<Rightarrow> fields \<Rightarrow> lv" where
  "lget k r = (case map_of r k of None \<Rightarrow> LNull | Some v \<Rightarrow> v)"

fun truthy :: "lv \<Rightarrow> bool" where
  "truthy LNull = False"
| "truthy (LBool b) = b"
| "truthy (LInt i) = (i \<noteq> 0)"
| "truthy (LFloat x) = (x \<noteq> 0)"
| "truthy (LText t) = (t \<noteq> [])"
| "truthy (LArr vs) = (vs \<noteq> [])"
| "truthy (LObj r) = (r \<noteq> [])"

fun number_of :: "lv \<Rightarrow> rat option" where
  "number_of (LBool b) = Some (if b then 1 else 0)"
| "number_of (LInt i) = Some (of_int i)"
| "number_of (LFloat x) = Some x"
| "number_of _ = None"

fun py_str :: "(lv \<Rightarrow> string) \<Rightarrow> lv \<Rightarrow> string" where
  "py_str other LNull = ''None''"
| "py_str other (LBool b) = (if b then ''True'' else ''False'')"
| "py_str other (LInt i) = int_str i"
| "py_str other (LText t) = t"
| "py_str other v = other v"

text \<open>A line that is a request record.\<close>

fun request_of :: "lv option \<Rightarrow> fields option" where
  "request_of (Some (LObj r)) = (if lget ''message'' r = LText ''request'' then Some r else None)"
| "request_of _ = None"

definition pick :: "string list \<Rightarrow> fields \<Rightarrow> fields" where
  "pick names r = map (\<lambda>k. (k, lget k r)) names"

text \<open>\<open>deque(maxlen=n).append\<close>.\<close>

definition keep_last :: "nat \<Rightarrow> 'a \<Rightarrow> 'a list \<Rightarrow> 'a list" where
  "keep_last n x xs = (let ys = xs @ [x] in drop (length ys - n) ys)"

section \<open>Error responses of the API\<close>

definition DB_FAILURE_TYPES :: "string list" where
  "DB_FAILURE_TYPES = [''PoolTimeout'', ''TooManyRequests'', ''OperationalError'', ''QueryCanceled'']"

record error_report =
  er_requests :: nat
  er_codes :: "(string \<times> int) list"
  er_causes :: "(string \<times> int) list"
  er_last :: "fields list"

definition db_cause :: "fields \<Rightarrow> string option" where
  "db_cause r = (case lget ''db_failure_type'' r of LText t \<Rightarrow> if t \<in> set DB_FAILURE_TYPES then Some t else None | _ \<Rightarrow> None)"

definition error_example :: "fields \<Rightarrow> fields" where
  "error_example r =
     pick [''time'', ''request_id'', ''route'', ''status'', ''error_code'', ''duration_ms''] r @
     [(''db_failure_type'', case db_cause r of None \<Rightarrow> LNull | Some t \<Rightarrow> LText t)]"

definition error_step :: "(lv \<Rightarrow> string) \<Rightarrow> nat \<Rightarrow> lv option \<Rightarrow> error_report \<Rightarrow> error_report" where
  "error_step other limit line s =
     (case request_of line of
        None \<Rightarrow> s
      | Some r \<Rightarrow>
          let s = s\<lparr>er_requests := er_requests s + 1\<rparr>; code = lget ''error_code'' r in
          if \<not> truthy code then s
          else s\<lparr>er_codes := count_up (py_str other code) 1 (er_codes s),
                 er_causes := (case db_cause r of None \<Rightarrow> er_causes s | Some t \<Rightarrow> count_up t 1 (er_causes s)),
                 er_last := keep_last limit (error_example r) (er_last s)\<rparr>)"

definition summarize_errors :: "(lv \<Rightarrow> string) \<Rightarrow> nat \<Rightarrow> lv option list \<Rightarrow> error_report" where
  "summarize_errors other limit ls = fold (error_step other limit) ls \<lparr>er_requests = 0, er_codes = [], er_causes = [], er_last = []\<rparr>"

text \<open>The script: the limit of the command line, the report, and its exit status.\<close>

definition extract_errors :: "(lv \<Rightarrow> string) \<Rightarrow> int \<Rightarrow> lv option list \<Rightarrow> (error_report \<times> int) result" where
  "extract_errors other limit ls =
     (if \<not> (1 \<le> limit \<and> limit \<le> 100) then Inl (PyError ''SystemExit'')
      else let s = summarize_errors other (nat limit) ls in Inr (s, if er_requests s = 0 then 1 else 0))"

section \<open>Slow phases of the adapter\<close>

definition SLOW_PHASES :: "string list" where
  "SLOW_PHASES = [''commit'', ''pool_return'']"

definition SLOW_OUTCOMES :: "string list" where
  "SLOW_OUTCOMES = [''ok'', ''error'']"

text \<open>Membership in a frozen set of texts; a list or a dictionary has no hash.\<close>

definition among :: "string list \<Rightarrow> lv \<Rightarrow> bool result" where
  "among names v =
     (case v of
        LArr _ \<Rightarrow> Inl (PyError ''TypeError'')
      | LObj _ \<Rightarrow> Inl (PyError ''TypeError'')
      | LText t \<Rightarrow> Inr (t \<in> set names)
      | _ \<Rightarrow> Inr False)"

definition slow_duration :: "lv \<Rightarrow> rat option" where
  "slow_duration v =
     (case v of
        LInt i \<Rightarrow> if of_int i < (100 :: rat) then None else Some (of_int i)
      | LFloat x \<Rightarrow> if x < 100 then None else Some x
      | _ \<Rightarrow> None)"

record slow_event =
  se_time :: "string option"
  se_phase :: string
  se_outcome :: string
  se_ms :: rat

definition text_of :: "lv \<Rightarrow> string option" where
  "text_of v = (case v of LText t \<Rightarrow> Some t | _ \<Rightarrow> None)"

text \<open>A slow-phase record: the event, or \<open>None\<close> when it is malformed.\<close>

definition slow_event_of :: "fields \<Rightarrow> slow_event option result" where
  "slow_event_of r =
     (let phase = lget ''phase'' r; outcome = lget ''outcome'' r in
      ebind (among SLOW_PHASES phase) (\<lambda>known.
      if \<not> known then Inr None
      else ebind (among SLOW_OUTCOMES outcome) (\<lambda>known.
      if \<not> known then Inr None
      else Inr (case (text_of phase, text_of outcome, slow_duration (lget ''duration_ms'' r)) of
          (Some p, Some o', Some ms) \<Rightarrow> Some \<lparr>se_time = text_of (lget ''time'' r), se_phase = p, se_outcome = o', se_ms = ms\<rparr>
        | _ \<Rightarrow> None))))"

record slow_report =
  sr_counts :: "(string \<times> int) list"
  sr_longest :: "(string \<times> slow_event) list"
  sr_latest :: "slow_event list"
  sr_malformed :: nat

definition slow_count :: "nat \<Rightarrow> slow_event \<Rightarrow> slow_report \<Rightarrow> slow_report" where
  "slow_count limit e s =
     s\<lparr>sr_counts := count_up (se_phase e @ ''|'' @ se_outcome e) 1 (sr_counts s),
       sr_latest := keep_last limit e (sr_latest s),
       sr_longest := (if se_ms e > (case map_of (sr_longest s) (se_phase e) of None \<Rightarrow> 0 | Some b \<Rightarrow> se_ms b)
                      then dict_put (se_phase e) e (sr_longest s) else sr_longest s)\<rparr>"

definition slow_step :: "nat \<Rightarrow> lv option \<Rightarrow> slow_report \<Rightarrow> slow_report result" where
  "slow_step limit line s =
     (case line of
        Some (LObj r) \<Rightarrow>
          if lget ''event'' r \<noteq> LText ''slow_db_phase'' then Inr s
          else ebind (slow_event_of r) (\<lambda>e. case e of
              None \<Rightarrow> Inr (s\<lparr>sr_malformed := sr_malformed s + 1\<rparr>)
            | Some e \<Rightarrow> Inr (slow_count limit e s))
      | _ \<Rightarrow> Inr s)"

fun slow_lines :: "nat \<Rightarrow> lv option list \<Rightarrow> slow_report \<Rightarrow> slow_report result" where
  "slow_lines limit [] s = Inr s"
| "slow_lines limit (l # ls) s = ebind (slow_step limit l s) (slow_lines limit ls)"

definition slow_report_start :: slow_report where
  "slow_report_start = \<lparr>sr_counts = [], sr_longest = [], sr_latest = [], sr_malformed = 0\<rparr>"

definition summarize_slow :: "int \<Rightarrow> lv option list \<Rightarrow> slow_report result" where
  "summarize_slow limit ls =
     (if \<not> (1 \<le> limit \<and> limit \<le> 100) then Inl (PyError ''SystemExit'') else slow_lines (nat limit) ls slow_report_start)"

section \<open>Hold requests\<close>

definition HOLD_PHASES :: "string list" where
  "HOLD_PHASES = [''dispatch'', ''rate_limit'', ''redis_enter'', ''db_enter'', ''database_body'', ''db_exit'', ''redis_exit'']"

type_synonym slow_hold = "rat \<times> nat \<times> fields"

record hold_report =
  hd_errors :: "(string \<times> int) list"
  hd_reads :: "fields list"
  hd_requests :: nat
  hd_statuses :: "(string \<times> int) list"
  hd_codes :: "(string \<times> int) list"
  hd_phases :: "(string \<times> rat list) list"
  hd_rejected :: "fields list"
  hd_slowest :: "slow_hold list"

definition hold_timing :: "fields \<Rightarrow> fields" where
  "hold_timing r =
     (case lget ''hold_phase_ms'' r of
        LObj t \<Rightarrow> filter (\<lambda>(k, v). k \<in> set HOLD_PHASES \<and> number_of v \<noteq> None) t
      | _ \<Rightarrow> [])"

text \<open>
  The heap as the ascending list of its entries: \<open>heappush\<close> puts the entry at its place, \<open>heappop\<close> takes the first.
  Entries are compared by duration and then by the number of the request, which no two share.
\<close>

definition heap_less :: "slow_hold \<Rightarrow> slow_hold \<Rightarrow> bool" where
  "heap_less x y \<longleftrightarrow> fst x < fst y \<or> (fst x = fst y \<and> fst (snd x) < fst (snd y))"

definition heap_push :: "slow_hold \<Rightarrow> slow_hold list \<Rightarrow> slow_hold list" where
  "heap_push e h = takeWhile (\<lambda>x. heap_less x e) h @ e # dropWhile (\<lambda>x. heap_less x e) h"

definition heap_keep :: "slow_hold \<Rightarrow> slow_hold list \<Rightarrow> slow_hold list" where
  "heap_keep e h = (let h = heap_push e h in if length h > 20 then tl h else h)"

definition add_phase :: "string \<times> lv \<Rightarrow> (string \<times> rat list) list \<Rightarrow> (string \<times> rat list) list" where
  "add_phase = (\<lambda>(k, v) m.
     case number_of v of None \<Rightarrow> m | Some x \<Rightarrow> dict_put k ((case map_of m k of None \<Rightarrow> [] | Some xs \<Rightarrow> xs) @ [x]) m)"

definition note_read_error :: "fields \<Rightarrow> hold_report \<Rightarrow> hold_report" where
  "note_read_error r s =
     (if lget ''route'' r = LText ''/v1/events/{event_id}/availability'' \<and> truthy (lget ''error_code'' r) \<and> length (hd_reads s) < 20
      then s\<lparr>hd_reads := hd_reads s @ [pick [''time'', ''request_id'', ''status'', ''error_code'', ''duration_ms''] r]\<rparr> else s)"

definition hold_example :: "fields \<Rightarrow> fields" where
  "hold_example r =
     pick [''time'', ''request_id'', ''status'', ''duration_ms'', ''error_code'', ''hold_arrival_occupancy'', ''hold_limit''] r @
     [(''hold_phase_ms'', LObj (hold_timing r))]"

definition note_hold :: "(lv \<Rightarrow> string) \<Rightarrow> fields \<Rightarrow> hold_report \<Rightarrow> hold_report" where
  "note_hold other r s =
     (let n = hd_requests s + 1; status = py_str other (lget ''status'' r); code = lget ''error_code'' r; safe = hold_example r in
      s\<lparr>hd_requests := n,
        hd_statuses := count_up status 1 (hd_statuses s),
        hd_codes := (case text_of code of None \<Rightarrow> hd_codes s | Some t \<Rightarrow> count_up t 1 (hd_codes s)),
        hd_phases := (if status = ''201'' then fold add_phase (hold_timing r) (hd_phases s) else hd_phases s),
        hd_rejected := (if truthy code \<and> length (hd_rejected s) < 100 then hd_rejected s @ [safe] else hd_rejected s),
        hd_slowest := (case number_of (lget ''duration_ms'' r) of
            Some ms \<Rightarrow> if status = ''201'' then heap_keep (ms, n, safe) (hd_slowest s) else hd_slowest s
          | None \<Rightarrow> hd_slowest s)\<rparr>)"

definition hold_step :: "(lv \<Rightarrow> string) \<Rightarrow> lv option \<Rightarrow> hold_report \<Rightarrow> hold_report" where
  "hold_step other line s =
     (case request_of line of
        None \<Rightarrow> s
      | Some r \<Rightarrow>
          let code = lget ''error_code'' r;
              s = (if truthy code then s\<lparr>hd_errors := count_up (py_str other code) 1 (hd_errors s)\<rparr> else s);
              s = note_read_error r s in
          if lget ''route'' r \<noteq> LText ''/v1/holds'' then s else note_hold other r s)"

definition hold_report_start :: hold_report where
  "hold_report_start = \<lparr>hd_errors = [], hd_reads = [], hd_requests = 0, hd_statuses = [], hd_codes = [], hd_phases = [],
     hd_rejected = [], hd_slowest = []\<rparr>"

record phase_summary =
  ph_count :: nat
  ph_mean :: rat
  ph_p95 :: "rat option"
  ph_p99 :: "rat option"
  ph_max :: "rat option"

definition phase_summary_of :: "rat list \<Rightarrow> phase_summary" where
  "phase_summary_of vs =
     \<lparr>ph_count = length vs, ph_mean = sum_list vs / of_nat (length vs), ph_p95 = percentile vs (95 / 100),
      ph_p99 = percentile vs (99 / 100), ph_max = (if vs = [] then None else Some (last (sort vs)))\<rparr>"

text \<open>The counters, the summaries of the phases, and the slowest holds from the slowest on.\<close>

definition summarize_holds ::
  "(lv \<Rightarrow> string) \<Rightarrow> lv option list \<Rightarrow> hold_report \<times> (string \<times> phase_summary) list \<times> fields list"
where
  "summarize_holds other ls =
     (let s = fold (hold_step other) ls hold_report_start in
      (s, map (\<lambda>(k, vs). (k, phase_summary_of vs)) (hd_phases s), map (snd \<circ> snd) (rev (hd_slowest s))))"

section \<open>Ingress timings\<close>

text \<open>
  A line after its container prefix: unreadable, readable but no dictionary (which has no \<open>get\<close>), without a request
  id, a record of the application with route, status and duration, or one of the server wrapper with status, queue
  time and time to the headers.
\<close>

datatype ingress_line =
    Ing_unreadable
  | Ing_no_dict
  | Ing_no_id
  | Ing_app string "string option \<times> int option \<times> rat option"
  | Ing_server string "int option \<times> rat option \<times> rat option"
  | Ing_other string

record ingress_records =
  ir_app :: "(string \<times> string option \<times> int option \<times> rat option) list"
  ir_server :: "(string \<times> int option \<times> rat option \<times> rat option) list"

fun ingress_read :: "ingress_line list \<Rightarrow> ingress_records \<Rightarrow> ingress_records result" where
  "ingress_read [] s = Inr s"
| "ingress_read (Ing_no_dict # ls) s = Inl (PyError ''AttributeError'')"
| "ingress_read (Ing_app i v # ls) s = ingress_read ls (s\<lparr>ir_app := dict_put i v (ir_app s)\<rparr>)"
| "ingress_read (Ing_server i v # ls) s = ingress_read ls (s\<lparr>ir_server := dict_put i v (ir_server s)\<rparr>)"
| "ingress_read (_ # ls) s = ingress_read ls s"

record ingress_groups =
  ig_mismatches :: nat
  ig_missing_stamps :: nat
  ig_groups :: "(string \<times> (string \<times> rat list) list) list"

definition or_none :: "('a \<Rightarrow> string) \<Rightarrow> 'a option \<Rightarrow> string" where
  "or_none f x = (case x of None \<Rightarrow> ''None'' | Some y \<Rightarrow> f y)"

text \<open>\<open>rows[key].append(value)\<close> on a default dictionary, unless the value is missing.\<close>

definition append_value :: "string \<times> rat option \<Rightarrow> (string \<times> rat list) list \<Rightarrow> (string \<times> rat list) list" where
  "append_value = (\<lambda>(k, v) rows.
     case v of None \<Rightarrow> rows | Some x \<Rightarrow> dict_put k ((case map_of rows k of None \<Rightarrow> [] | Some xs \<Rightarrow> xs) @ [x]) rows)"

definition ingress_join ::
  "(string \<times> int option \<times> rat option \<times> rat option) list \<Rightarrow> string \<times> string option \<times> int option \<times> rat option \<Rightarrow> ingress_groups \<Rightarrow> ingress_groups"
where
  "ingress_join server = (\<lambda>(i, route, status, duration) g.
     case map_of server i of
       None \<Rightarrow> g
     | Some (server_status, queue, headers) \<Rightarrow>
         let key = or_none id route @ ''|'' @ or_none int_str status;
             rows = (case map_of (ig_groups g) key of None \<Rightarrow> [] | Some rows \<Rightarrow> rows);
             rows = fold append_value [(''app'', duration), (''protocol_queue'', queue), (''asgi_headers'', headers)] rows in
         \<lparr>ig_mismatches = ig_mismatches g + (if status \<noteq> server_status then 1 else 0),
          ig_missing_stamps = ig_missing_stamps g + (if queue = None then 1 else 0),
          ig_groups = dict_put key rows (ig_groups g)\<rparr>)"

record ingress_report =
  ip_app :: nat
  ip_server :: nat
  ip_missing :: nat
  ip_groups :: ingress_groups

definition summarize_ingress :: "ingress_line list \<Rightarrow> ingress_report result" where
  "summarize_ingress ls =
     ebind (ingress_read ls \<lparr>ir_app = [], ir_server = []\<rparr>) (\<lambda>s.
     Inr \<lparr>ip_app = length (ir_app s), ip_server = length (ir_server s),
          ip_missing = length (filter (\<lambda>(i, _). map_of (ir_server s) i = None) (ir_app s)),
          ip_groups = fold (ingress_join (ir_server s)) (ir_app s) \<lparr>ig_mismatches = 0, ig_missing_stamps = 0, ig_groups = []\<rparr>\<rparr>)"

text \<open>What is printed of a list of values: its length, percentile and maximum.\<close>

definition ingress_stats :: "rat list \<Rightarrow> nat \<times> rat option \<times> rat" where
  "ingress_stats vs = (length vs, percentile vs (95 / 100), last (sort vs))"

section \<open>Clients and server of a contention wave\<close>

record server_row =
  sv_id :: string
  sv_status :: int
  sv_code :: "string option"
  sv_ms :: rat
  sv_phases :: "(string \<times> rat) list"

record client_row =
  cl_id :: string
  cl_status :: string
  cl_code :: "string option"
  cl_times :: "(string \<times> rat option) list"

record joined_row =
  jr_id :: string
  jr_status :: string
  jr_code :: "string option"
  jr_app :: rat
  jr_phases :: "(string \<times> rat) list"
  jr_rest :: rat
  jr_times :: "(string \<times> rat option) list"

definition index_log :: "server_row \<Rightarrow> (string \<times> server_row) list \<Rightarrow> (string \<times> server_row) list result" where
  "index_log row server = (if map_of server (sv_id row) \<noteq> None then Inl (PyError ''ValueError'') else Inr (dict_put (sv_id row) row server))"

fun index_logs :: "server_row list \<Rightarrow> (string \<times> server_row) list \<Rightarrow> (string \<times> server_row) list result" where
  "index_logs [] server = Inr server"
| "index_logs (r # rs) server = ebind (index_log r server) (index_logs rs)"

definition group_of :: "string option \<Rightarrow> string" where
  "group_of code = (case code of None \<Rightarrow> ''SUCCESS'' | Some c \<Rightarrow> if c = [] then ''SUCCESS'' else c)"

text \<open>A client row with its row of the log.\<close>

definition join_client :: "(string \<times> server_row) list \<Rightarrow> string list \<Rightarrow> client_row \<Rightarrow> joined_row result" where
  "join_client server seen c =
     (if cl_id c \<in> set seen then Inl (PyError ''ValueError'')
      else case map_of server (cl_id c) of
        None \<Rightarrow> Inl (PyError ''KeyError'')
      | Some r \<Rightarrow>
          if int_str (sv_status r) \<noteq> cl_status c \<or> sv_code r \<noteq> cl_code c then Inl (PyError ''ValueError'')
          else Inr \<lparr>jr_id = cl_id c, jr_status = cl_status c, jr_code = cl_code c, jr_app = sv_ms r, jr_phases = sv_phases r,
                    jr_rest = sv_ms r - sum_list (map snd (sv_phases r)), jr_times = cl_times c\<rparr>)"

fun join_clients ::
  "(string \<times> server_row) list \<Rightarrow> client_row list \<Rightarrow> string list \<Rightarrow> (string \<times> joined_row list) list \<Rightarrow> (string list \<times> (string \<times> joined_row list) list) result"
where
  "join_clients server [] seen groups = Inr (seen, groups)"
| "join_clients server (c # cs) seen groups =
     ebind (join_client server seen c) (\<lambda>j.
     let code = group_of (cl_code c) in
     join_clients server cs (seen @ [cl_id c])
       (dict_put code ((case map_of groups code of None \<Rightarrow> [] | Some js \<Rightarrow> js) @ [j]) groups))"

record value_stats =
  vs_count :: nat
  vs_p50 :: "rat option"
  vs_p95 :: "rat option"
  vs_max :: "rat option"

definition value_stats_of :: "rat list \<Rightarrow> value_stats" where
  "value_stats_of vs =
     \<lparr>vs_count = length vs, vs_p50 = percentile vs (1 / 2), vs_p95 = percentile vs (95 / 100),
      vs_max = (if vs = [] then None else Some (last (sort vs)))\<rparr>"

record group_report =
  gr_count :: nat
  gr_timing :: "(string \<times> value_stats) list"
  gr_phases :: "(string \<times> value_stats) list"
  gr_slowest :: "joined_row list"

definition CLIENT_TIMES :: "string list" where
  "CLIENT_TIMES = [''total_ms'', ''client_ms'', ''lane_wait_ms'', ''protocol_queue_ms'', ''asgi_headers_ms'']"

definition group_report_of :: "joined_row list \<Rightarrow> group_report" where
  "group_report_of rows =
     \<lparr>gr_count = length rows,
      gr_timing = map (\<lambda>k. (k, value_stats_of (List.map_filter (\<lambda>r. Option.bind (map_of (jr_times r) k) id) rows))) CLIENT_TIMES @
        [(''app_ms'', value_stats_of (map jr_app rows)), (''unattributed_app_ms'', value_stats_of (map jr_rest rows))],
      gr_phases = map (\<lambda>k. (k, value_stats_of (List.map_filter (\<lambda>r. map_of (jr_phases r) k) rows)))
        (sort (remdups (concat (map (\<lambda>r. map fst (jr_phases r)) rows)))),
      gr_slowest = take 5 (sort_key (\<lambda>r. - jr_app r) rows)\<rparr>"

record wave_analysis =
  wa_matched :: nat
  wa_groups :: "(string \<times> group_report) list"

definition analyze :: "client_row list \<Rightarrow> server_row list \<Rightarrow> wave_analysis result" where
  "analyze clients logs =
     ebind (index_logs logs []) (\<lambda>server.
     ebind (join_clients server clients [] []) (\<lambda>(seen, groups).
     Inr \<lparr>wa_matched = length seen, wa_groups = map (\<lambda>(code, rows). (code, group_report_of rows)) groups\<rparr>))"

section \<open>Facts about the counters\<close>

text \<open>
  The contract of a counter in a report: a line adds one to the count of its kind, or leaves the counts alone.  Then
  every count is the number of the lines of that kind, in whatever order they come.
\<close>

lemma dict_get_count_up: "dict_get (count_up k n c) k' = dict_get c k' + (if k' = k then n else 0)"
  by (simp add: dict_get_def count_up_def map_of_dict_put)

lemma keys_count_up: "fst ` set (count_up k n c) = insert k (fst ` set c)"
  using keys_dict_put [of k _ c] by (simp add: count_up_def)

locale line_counter =
  fixes step :: "'l \<Rightarrow> 's \<Rightarrow> 's"
    and kind :: "'l \<Rightarrow> string option"
    and counts :: "'s \<Rightarrow> (string \<times> int) list"
  assumes counts_step: "counts (step l s) = (case kind l of None \<Rightarrow> counts s | Some k \<Rightarrow> count_up k 1 (counts s))"
begin

lemma counts_exact:
  "dict_get (counts (fold step ls s)) k = dict_get (counts s) k + int (length (filter (\<lambda>l. kind l = Some k) ls))"
  by (induction ls arbitrary: s) (auto simp: counts_step dict_get_count_up split: option.splits)

lemma counted_kinds:
  "fst ` set (counts (fold step ls s)) = fst ` set (counts s) \<union> {k. \<exists>l\<in>set ls. kind l = Some k}"
  by (induction ls arbitrary: s) (auto simp: counts_step keys_count_up split: option.splits)

end

definition error_code_of :: "(lv \<Rightarrow> string) \<Rightarrow> lv option \<Rightarrow> string option" where
  "error_code_of other l =
     Option.bind (request_of l) (\<lambda>r. if truthy (lget ''error_code'' r) then Some (py_str other (lget ''error_code'' r)) else None)"

definition error_cause_of :: "lv option \<Rightarrow> string option" where
  "error_cause_of l = Option.bind (request_of l) (\<lambda>r. if truthy (lget ''error_code'' r) then db_cause r else None)"

interpretation error_codes: line_counter "error_step other limit" "error_code_of other" er_codes for other limit
  by unfold_locales (auto simp: error_step_def error_code_of_def Let_def split: option.splits)

interpretation error_causes: line_counter "error_step other limit" error_cause_of er_causes for other limit
  by unfold_locales (auto simp: error_step_def error_cause_of_def Let_def split: option.splits)

lemma note_read_error_other:
  "hd_errors (note_read_error r s) = hd_errors s" "hd_requests (note_read_error r s) = hd_requests s"
  "hd_statuses (note_read_error r s) = hd_statuses s" "hd_codes (note_read_error r s) = hd_codes s"
  "hd_phases (note_read_error r s) = hd_phases s" "hd_rejected (note_read_error r s) = hd_rejected s"
  "hd_slowest (note_read_error r s) = hd_slowest s"
  by (simp_all add: note_read_error_def)

definition hold_of :: "lv option \<Rightarrow> fields option" where
  "hold_of l = Option.bind (request_of l) (\<lambda>r. if lget ''route'' r = LText ''/v1/holds'' then Some r else None)"

interpretation request_errors: line_counter "hold_step other" "error_code_of other" hd_errors for other
  by unfold_locales
    (auto simp: hold_step_def error_code_of_def Let_def note_hold_def note_read_error_other split: option.splits)

interpretation hold_statuses: line_counter "hold_step other" "\<lambda>l. map_option (\<lambda>r. py_str other (lget ''status'' r)) (hold_of l)" hd_statuses
  for other
  by unfold_locales
    (auto simp: hold_step_def hold_of_def Let_def note_hold_def note_read_error_other split: option.splits)

interpretation hold_codes: line_counter "hold_step other" "\<lambda>l. Option.bind (hold_of l) (\<lambda>r. text_of (lget ''error_code'' r))" hd_codes for other
  by unfold_locales
    (auto simp: hold_step_def hold_of_def Let_def note_hold_def note_read_error_other split: option.splits)

text \<open>The error counters of the two scripts agree on every log, and the causes are among the named four.\<close>

lemma error_reports_agree:
  "dict_get (er_codes (summarize_errors other limit ls)) k = dict_get (hd_errors (fst (summarize_holds other ls))) k"
  by (simp add: summarize_errors_def summarize_holds_def Let_def error_codes.counts_exact request_errors.counts_exact hold_report_start_def)

lemma db_cause_named: "db_cause r = Some t \<Longrightarrow> t \<in> set DB_FAILURE_TYPES"
  by (simp add: db_cause_def split: lv.splits if_splits)

lemma causes_named: "fst ` set (er_causes (summarize_errors other limit ls)) \<subseteq> set DB_FAILURE_TYPES"
  by (auto simp: summarize_errors_def error_causes.counted_kinds error_cause_of_def bind_eq_Some_conv db_cause_named split: if_splits)

section \<open>Facts about bounded lists\<close>

lemma keep_last_fold: "fold (keep_last n) es [] = drop (length es - n) es"
proof (induction es rule: rev_induct)
  case (snoc e es)
  then show ?case by (cases "n \<le> length es") (simp_all add: keep_last_def Let_def Suc_diff_le)
qed (simp)

definition error_examples :: "lv option list \<Rightarrow> fields list" where
  "error_examples ls =
     map error_example (filter (\<lambda>r. truthy (lget ''error_code'' r)) (List.map_filter request_of ls))"

lemma last_errors_step: "er_last (fold (error_step other n) ls s) = fold (keep_last n) (error_examples ls) (er_last s)"
  by (induction ls arbitrary: s) (auto simp: error_examples_def error_step_def Let_def map_filter_simps split: option.splits)

text \<open>
  Fact.  The examples are the last \<open>limit\<close> error responses of the log, in its order.
\<close>

lemma last_errors_exact:
  "er_last (summarize_errors other n ls) = drop (length (error_examples ls) - n) (error_examples ls)"
  by (simp add: summarize_errors_def last_errors_step keep_last_fold)

text \<open>
  The heap of twenty.  An entry that comes later has a higher number, so it stands behind the entries of the same
  duration, and the twenty that stay are the upper end of the stable sort of all entries.
\<close>

lemma heap_push_behind:
  assumes "\<forall>x\<in>set h. fst (snd x) < fst (snd e)"
  shows "heap_push e h = put_behind fst e h"
proof -
  have "takeWhile (\<lambda>x. heap_less x e) h = takeWhile (\<lambda>x. fst x \<le> fst e) h"
    by (rule takeWhile_cong) (use assms in \<open>auto simp: heap_less_def\<close>)
  moreover have "dropWhile (\<lambda>x. heap_less x e) h = dropWhile (\<lambda>x. fst x \<le> fst e) h"
    by (rule dropWhile_cong) (use assms in \<open>auto simp: heap_less_def\<close>)
  ultimately show ?thesis by (simp add: heap_push_def put_behind_def)
qed

lemma length_put_behind: "length (put_behind f y xs) = Suc (length xs)"
proof -
  have "length (takeWhile P xs @ dropWhile P xs) = length xs" for P unfolding takeWhile_dropWhile_id ..
  then show ?thesis unfolding put_behind_def length_append by simp
qed

lemma drop_put_behind:
  assumes "sorted (map f xs)" and "n \<le> length xs"
  shows "tl (put_behind f y (drop n xs)) = drop (Suc n) (put_behind f y xs)"
  using assms
proof (induction xs arbitrary: n)
  case (Cons x xs)
  show ?case
  proof (cases n)
    case 0
    then show ?thesis by (simp add: drop_Suc)
  next
    case (Suc m)
    show ?thesis
    proof (cases "f x \<le> f y")
      case True
      then show ?thesis using Cons Suc by (simp add: put_behind_def)
    next
      case False
      have "\<forall>z\<in>set (drop m xs). \<not> f z \<le> f y" using Cons.prems(1) False by (auto dest!: in_set_dropD)
      then have "put_behind f y (drop m xs) = y # drop m xs" unfolding put_behind_def by (cases "drop m xs") auto
      then show ?thesis using False Suc by (simp add: put_behind_def)
    qed
  qed
qed (simp add: put_behind_def)

lemma heap_keep_fold:
  assumes "sorted_wrt (<) (map (fst \<circ> snd) es)"
  shows "fold heap_keep es [] = drop (length es - 20) (sort_key fst es)"
  using assms
proof (induction es rule: rev_induct)
  case (snoc e es)
  define xs where "xs = sort_key fst es"
  have heap: "fold heap_keep es [] = drop (length es - 20) xs" using snoc by (simp add: sorted_wrt_append xs_def)
  have "\<forall>x\<in>set (drop (length es - 20) xs). fst (snd x) < fst (snd e)"
    using snoc.prems by (auto simp: sorted_wrt_append xs_def dest!: in_set_dropD)
  then have push: "heap_push e (drop (length es - 20) xs) = put_behind fst e (drop (length es - 20) xs)" by (rule heap_push_behind)
  have len: "length (put_behind fst e zs) = Suc (length zs)" for zs :: "slow_hold list"
    by (rule length_put_behind)
  have size: "length xs = length es" by (simp add: xs_def)
  have "heap_keep e (drop (length es - 20) xs) = drop (length (es @ [e]) - 20) (put_behind fst e xs)"
  proof (cases "20 \<le> length es")
    case True
    then have "tl (put_behind fst e (drop (length es - 20) xs)) = drop (Suc (length es - 20)) (put_behind fst e xs)"
      by (intro drop_put_behind) (simp_all add: xs_def)
    moreover have "Suc (length es - 20) = length (es @ [e]) - 20" using True by simp
    ultimately show ?thesis using True unfolding heap_keep_def push Let_def len length_drop size by simp
  next
    case False
    then show ?thesis unfolding heap_keep_def push Let_def len length_drop size by simp
  qed
  then show ?case by (simp add: heap xs_def sort_append_one)
qed simp

text \<open>The successful holds of a log with a duration, numbered by the hold requests.\<close>

fun slow_holds :: "(lv \<Rightarrow> string) \<Rightarrow> lv option list \<Rightarrow> nat \<Rightarrow> slow_hold list" where
  "slow_holds other [] n = []"
| "slow_holds other (l # ls) n =
     (case hold_of l of
        None \<Rightarrow> slow_holds other ls n
      | Some r \<Rightarrow>
          (case number_of (lget ''duration_ms'' r) of
             Some ms \<Rightarrow> if py_str other (lget ''status'' r) = ''201'' then [(ms, n + 1, hold_example r)] else []
           | None \<Rightarrow> []) @ slow_holds other ls (n + 1))"

lemma slow_holds_numbered:
  "sorted_wrt (<) (map (fst \<circ> snd) (slow_holds other ls n)) \<and> (\<forall>e\<in>set (slow_holds other ls n). n < fst (snd e))"
proof (induction ls arbitrary: n)
  case (Cons l ls)
  from Cons [of n] Cons [of "Suc n"] show ?case by (auto split: option.splits)
qed simp

lemma hold_step_other: "hold_of l = None \<Longrightarrow> hd_slowest (hold_step other l s) = hd_slowest s \<and> hd_requests (hold_step other l s) = hd_requests s"
  by (auto simp: hold_step_def hold_of_def Let_def note_read_error_other split: option.splits if_splits)

lemma hold_step_hold:
  assumes "hold_of l = Some r"
  shows "hd_requests (hold_step other l s) = hd_requests s + 1"
    and "hd_slowest (hold_step other l s) =
      fold heap_keep (case number_of (lget ''duration_ms'' r) of
             Some ms \<Rightarrow> if py_str other (lget ''status'' r) = ''201'' then [(ms, hd_requests s + 1, hold_example r)] else []
           | None \<Rightarrow> []) (hd_slowest s)"
  using assms
  by (auto simp: hold_step_def hold_of_def Let_def note_hold_def note_read_error_other bind_eq_Some_conv split: option.splits if_splits)

lemma slowest_step:
  "hd_slowest (fold (hold_step other) ls s) = fold heap_keep (slow_holds other ls (hd_requests s)) (hd_slowest s)"
proof (induction ls arbitrary: s)
  case (Cons l ls)
  show ?case
  proof (cases "hold_of l")
    case None
    then show ?thesis using hold_step_other [OF None, of other s] by (simp add: Cons.IH)
  next
    case (Some r)
    then show ?thesis using hold_step_hold [OF Some, of other s] by (simp add: Cons.IH)
  qed
qed simp

text \<open>
  Fact.  Keeping twenty entries in a heap while reading equals sorting everything at the end: the report has the
  twenty slowest successful holds, the slowest first, and of holds of the same duration the later first.
\<close>

theorem slowest_holds_exact:
  "snd (snd (summarize_holds other ls)) = map (snd \<circ> snd) (take 20 (rev (sort_key fst (slow_holds other ls 0))))"
proof -
  define es where "es = slow_holds other ls 0"
  have "hd_slowest (fold (hold_step other) ls hold_report_start) = fold heap_keep es []"
    unfolding slowest_step es_def by (simp add: hold_report_start_def)
  also have "\<dots> = drop (length es - 20) (sort_key fst es)" unfolding es_def by (intro heap_keep_fold) (use slow_holds_numbered in blast)
  finally have "rev (hd_slowest (fold (hold_step other) ls hold_report_start)) = take 20 (rev (sort_key fst es))"
    by (cases "20 \<le> length es") (simp_all add: rev_drop)
  then show ?thesis by (simp add: summarize_holds_def Let_def es_def)
qed

section \<open>Facts about slow phases\<close>

text \<open>
  Fact.  One record whose phase is a list ends the report with \<open>TypeError\<close>, whatever the other lines are, where every
  other malformed record is counted.
\<close>

lemma slow_lines_append: "slow_lines n (ls @ ls') s = ebind (slow_lines n ls s) (slow_lines n ls')"
  by (induction ls arbitrary: s) (auto simp: ebind_def split: sum.splits)

lemma listed_phase_ends_report:
  assumes "slow_lines n before s = Inr s'" and "lget ''event'' r = LText ''slow_db_phase''" and "lget ''phase'' r = LArr vs"
  shows "slow_lines n (before @ Some (LObj r) # rest) s = Inl (PyError ''TypeError'')"
  using assms by (simp add: slow_lines_append slow_step_def slow_event_of_def among_def Let_def)

definition hashable :: "lv \<Rightarrow> bool" where
  "hashable v \<longleftrightarrow> (case v of LArr _ \<Rightarrow> False | LObj _ \<Rightarrow> False | _ \<Rightarrow> True)"

fun plain_line :: "lv option \<Rightarrow> bool" where
  "plain_line (Some (LObj r)) \<longleftrightarrow> hashable (lget ''phase'' r) \<and> hashable (lget ''outcome'' r)"
| "plain_line _ \<longleftrightarrow> True"

lemma among_hashable: "hashable v \<Longrightarrow> \<exists>b. among names v = Inr b"
  by (cases v) (auto simp: hashable_def among_def)

lemma slow_event_hashable:
  assumes "hashable (lget ''phase'' r)" and "hashable (lget ''outcome'' r)"
  shows "\<exists>e. slow_event_of r = Inr e"
proof -
  obtain b b' where "among SLOW_PHASES (lget ''phase'' r) = Inr b" "among SLOW_OUTCOMES (lget ''outcome'' r) = Inr b'"
    using among_hashable [OF assms(1)] among_hashable [OF assms(2)] by blast
  then show ?thesis by (simp add: slow_event_of_def Let_def)
qed

lemma slow_step_plain: "plain_line l \<Longrightarrow> \<exists>s'. slow_step n l s = Inr s'"
  by (cases l rule: plain_line.cases) (auto simp: slow_step_def dest!: slow_event_hashable split: option.splits)

lemma slow_report_total: "list_all plain_line ls \<Longrightarrow> \<exists>s'. slow_lines n ls s = Inr s'"
proof (induction ls arbitrary: s)
  case (Cons l ls)
  then obtain s1 where "slow_step n l s = Inr s1" using slow_step_plain [of l n s] by auto
  then show ?case using Cons by simp
qed simp

text \<open>Of every phase the report has an event that no event of that phase exceeds.\<close>

definition longest_inv :: "slow_event list \<Rightarrow> slow_report \<Rightarrow> bool" where
  "longest_inv es s \<longleftrightarrow>
     (\<forall>e\<in>set es. \<exists>b. map_of (sr_longest s) (se_phase e) = Some b \<and> se_ms e \<le> se_ms b) \<and>
     (\<forall>p b. map_of (sr_longest s) p = Some b \<longrightarrow> b \<in> set es \<and> se_phase b = p)"

lemma longest_count:
  assumes "longest_inv es s" and "0 < se_ms e"
  shows "longest_inv (es @ [e]) (slow_count n e s)"
  using assms by (fastforce simp: longest_inv_def slow_count_def map_of_dict_put split: option.splits)

lemma slow_event_long: "slow_event_of r = Inr (Some e) \<Longrightarrow> 100 \<le> se_ms e"
  by (auto simp: slow_event_of_def slow_duration_def Let_def ebind_def split: sum.splits option.splits lv.splits if_splits)

lemma longest_step:
  assumes "longest_inv es s" and "slow_step n l s = Inr s'"
  shows "\<exists>es'. longest_inv (es @ es') s' \<and> sr_latest s' = fold (keep_last n) es' (sr_latest s)"
proof -
  consider "s' = s" | "s' = s\<lparr>sr_malformed := sr_malformed s + 1\<rparr>" | e r where "slow_event_of r = Inr (Some e)" "s' = slow_count n e s"
    using assms(2) by (auto simp: slow_step_def ebind_def split: option.splits lv.splits if_splits sum.splits)
  then show ?thesis
  proof cases
    case 1
    then show ?thesis using assms(1) by (intro exI [of _ "[]"]) simp
  next
    case 2
    then show ?thesis using assms(1) by (intro exI [of _ "[]"]) (simp add: longest_inv_def)
  next
    case 3
    then have "longest_inv (es @ [e]) s'" using longest_count [OF assms(1), of e n] slow_event_long [of r e] by simp
    then show ?thesis using 3 by (intro exI [of _ "[e]"]) (simp add: slow_count_def)
  qed
qed

lemma longest_lines:
  assumes "longest_inv es s" and "slow_lines n ls s = Inr s'"
  shows "\<exists>es'. longest_inv (es @ es') s' \<and> sr_latest s' = fold (keep_last n) es' (sr_latest s)"
  using assms
proof (induction ls arbitrary: es s)
  case Nil
  then show ?case by (intro exI [of _ "[]"]) simp
next
  case (Cons l ls)
  then obtain s1 where s1: "slow_step n l s = Inr s1" "slow_lines n ls s1 = Inr s'" by (auto simp: ebind_def split: sum.splits)
  then obtain es1 where es1: "longest_inv (es @ es1) s1" "sr_latest s1 = fold (keep_last n) es1 (sr_latest s)"
    using longest_step [OF Cons.prems(1)] by blast
  obtain es2 where "longest_inv ((es @ es1) @ es2) s'" "sr_latest s' = fold (keep_last n) es2 (sr_latest s1)"
    using Cons.IH [OF es1(1) s1(2)] by blast
  then show ?case using es1(2) by (intro exI [of _ "es1 @ es2"]) simp
qed

lemma last_slow_events_bounded:
  assumes "slow_lines n ls slow_report_start = Inr s'"
  shows "length (sr_latest s') \<le> n \<and> (\<forall>e\<in>set (sr_latest s'). \<exists>b. map_of (sr_longest s') (se_phase e) = Some b \<and> se_ms e \<le> se_ms b)"
proof -
  have "longest_inv [] slow_report_start" by (simp add: longest_inv_def slow_report_start_def)
  then obtain es where es: "longest_inv es s'" "sr_latest s' = fold (keep_last n) es []"
    using longest_lines [OF _ assms, of "[]"] by (auto simp: slow_report_start_def)
  then have "sr_latest s' = drop (length es - n) es" by (simp add: keep_last_fold)
  then show ?thesis using es(1) by (auto simp: longest_inv_def dest: in_set_dropD)
qed

section \<open>Facts about the join of a wave\<close>

lemma index_logs_found:
  assumes "index_logs logs server = Inr server'"
  shows "distinct (map sv_id logs) \<and> (\<forall>r\<in>set logs. map_of server (sv_id r) = None) \<and>
    (\<forall>i r. map_of server' i = Some r \<longrightarrow> map_of server i = Some r \<or> (r \<in> set logs \<and> sv_id r = i))"
  using assms
proof (induction logs arbitrary: server)
  case (Cons r logs)
  then have new: "map_of server (sv_id r) = None" and rest: "index_logs logs (dict_put (sv_id r) r server) = Inr server'"
    by (auto simp: index_log_def split: if_splits)
  from Cons.IH [OF rest] new show ?case by (auto simp: map_of_dict_put split: if_splits)
qed simp

definition grouped :: "(string \<times> joined_row list) list \<Rightarrow> nat" where
  "grouped m = sum_list (map (\<lambda>g. length (snd g)) m)"

lemma grouped_total: "grouped (dict_put k ((case map_of m k of None \<Rightarrow> [] | Some js \<Rightarrow> js) @ [j]) m) = Suc (grouped m)"
  unfolding grouped_def by (induction m) auto

lemma join_client_ok:
  assumes "join_client server seen c = Inr j"
  shows "cl_id c \<notin> set seen \<and> (\<exists>r. map_of server (cl_id c) = Some r \<and> int_str (sv_status r) = cl_status c \<and> sv_code r = cl_code c \<and>
    jr_app j = jr_rest j + sum_list (map snd (sv_phases r)))"
  using assms by (auto simp: join_client_def split: if_splits option.splits)

lemma join_clients_ok:
  assumes "join_clients server cs seen groups = Inr (seen', groups')" and "distinct seen"
  shows "seen' = seen @ map cl_id cs \<and> distinct seen' \<and>
    grouped groups' = grouped groups + length cs \<and>
    (\<forall>c\<in>set cs. \<exists>r. map_of server (cl_id c) = Some r \<and> int_str (sv_status r) = cl_status c \<and> sv_code r = cl_code c)"
  using assms
proof (induction cs arbitrary: seen groups)
  case (Cons c cs)
  then obtain j where j: "join_client server seen c = Inr j" by (auto simp: ebind_def split: sum.splits)
  define g where "g = dict_put (group_of (cl_code c)) ((case map_of groups (group_of (cl_code c)) of None \<Rightarrow> [] | Some js \<Rightarrow> js) @ [j]) groups"
  have rest: "join_clients server cs (seen @ [cl_id c]) g = Inr (seen', groups')" using Cons.prems(1) j by (simp add: g_def Let_def)
  have total: "grouped g = Suc (grouped groups)" unfolding g_def by (rule grouped_total)
  have "distinct (seen @ [cl_id c])" using join_client_ok [OF j] Cons.prems(2) by simp
  note ih = Cons.IH [OF rest this]
  have "distinct seen'" using ih by blast
  moreover have "\<forall>x\<in>set (c # cs). \<exists>r. map_of server (cl_id x) = Some r \<and> int_str (sv_status r) = cl_status x \<and> sv_code r = cl_code x"
    using ih join_client_ok [OF j] by auto
  ultimately show ?case using ih total by simp
qed simp

text \<open>
  Fact.  An analysis that returns has joined every client row with exactly one row of the log, of the same status and
  error code; no request id occurs twice on either side, and the groups add up to the clients.
\<close>

theorem analysis_accounts:
  assumes "analyze clients logs = Inr a"
  shows "distinct (map cl_id clients) \<and> distinct (map sv_id logs) \<and> wa_matched a = length clients \<and>
    sum_list (map (gr_count \<circ> snd) (wa_groups a)) = length clients \<and>
    (\<forall>c\<in>set clients. \<exists>r\<in>set logs. sv_id r = cl_id c \<and> int_str (sv_status r) = cl_status c \<and> sv_code r = cl_code c)"
proof -
  obtain server seen groups where server: "index_logs logs [] = Inr server"
    and joined: "join_clients server clients [] [] = Inr (seen, groups)"
    and a: "a = \<lparr>wa_matched = length seen, wa_groups = map (\<lambda>(code, rows). (code, group_report_of rows)) groups\<rparr>"
    using assms by (auto simp: analyze_def ebind_def split: sum.splits)
  have total: "sum_list (map (gr_count \<circ> snd) (wa_groups a)) = grouped groups"
    by (simp add: a group_report_of_def grouped_def case_prod_unfold comp_def)
  have "distinct ([] :: string list)" by simp
  note j = join_clients_ok [OF joined this] and l = index_logs_found [OF server]
  have "distinct seen" using j by blast
  have seen: "seen = map cl_id clients" using j by simp
  have "distinct (map cl_id clients)" using \<open>distinct seen\<close> unfolding seen .
  note seen = seen this
  have groups: "grouped groups = length clients" using j by (simp add: grouped_def)
  have "\<exists>r\<in>set logs. sv_id r = cl_id c \<and> int_str (sv_status r) = cl_status c \<and> sv_code r = cl_code c" if "c \<in> set clients" for c
  proof -
    obtain r where r: "map_of server (cl_id c) = Some r" "int_str (sv_status r) = cl_status c \<and> sv_code r = cl_code c"
      using j \<open>c \<in> set clients\<close> by force
    then have "r \<in> set logs \<and> sv_id r = cl_id c" using l by simp
    then show ?thesis using r(2) by blast
  qed
  then show ?thesis using seen groups l unfolding total by (simp add: a)
qed

end
