(* ===== verification/Traces.thy ===== *)
theory Traces
  imports Db_Observers
begin

text \<open>
  The reports on recorded traces: how a backlog of overdue holds drained (\<open>scripts/summarize_drain_trace.py\<close>), the
  flow of refreshes through Kafka and the database (\<open>summarize_refresh_pipeline.py\<close>), the comparison of two baselines
  of PostgreSQL (\<open>compare_postgres_baselines.py\<close>), and the two staircases of load stages (\<open>cloud_mixed_stages.py\<close>,
  \<open>private_cloud_stages.py\<close>).  \<open>stamp\<close> is \<open>datetime.fromisoformat\<close> as seconds; time stamps are compared as texts where the
  code does so.
\<close>

section \<open>Samples\<close>

text \<open>A sample with its time stamp and numbers; \<open>None\<close> stands for an item that is no dictionary.\<close>

record trace_sample =
  tr_utc :: string
  tr_error :: bool
  tr_values :: "(string \<times> rat) list"

definition valid_samples :: "trace_sample option list \<Rightarrow> trace_sample list" where
  "valid_samples samples = filter (\<lambda>s. \<not> tr_error s) (List.map_filter id samples)"

text \<open>\<open>max(rows, key=f)\<close>: the first of the largest.\<close>

fun first_max :: "('a \<Rightarrow> rat) \<Rightarrow> 'a \<Rightarrow> 'a list \<Rightarrow> 'a" where
  "first_max f x [] = x"
| "first_max f x (y # ys) = first_max f (if f y > f x then y else x) ys"

definition value_of :: "string \<Rightarrow> trace_sample \<Rightarrow> rat" where
  "value_of name s = (case map_of (tr_values s) name of None \<Rightarrow> 0 | Some v \<Rightarrow> v)"

definition with_value :: "string \<Rightarrow> trace_sample list \<Rightarrow> trace_sample list" where
  "with_value name ss = filter (\<lambda>s. map_of (tr_values s) name \<noteq> None) ss"

text \<open>The seconds from the peak to the first later sample that is zero.\<close>

definition drain_after :: "(string \<Rightarrow> rat) \<Rightarrow> string \<Rightarrow> trace_sample \<Rightarrow> trace_sample list \<Rightarrow> rat option" where
  "drain_after stamp name peak ss =
     map_option (\<lambda>s. stamp (tr_utc s) - stamp (tr_utc peak)) (find (\<lambda>s. value_of name s = 0) (filter (\<lambda>s. tr_utc s > tr_utc peak) ss))"

section \<open>The drain of overdue holds\<close>

definition DRAIN_FIELDS :: "string list" where
  "DRAIN_FIELDS = [''overdue_active_holds'', ''oldest_overdue_seconds'', ''pending_refresh'', ''oldest_refresh_seconds'',
     ''unpublished_outbox'', ''dead_letters'']"

record field_peak =
  fp_max :: rat
  fp_utc :: string
  fp_last :: rat

record drain_report =
  dr_samples :: nat
  dr_errors :: nat
  dr_first :: string
  dr_last :: string
  dr_fields :: "(string \<times> field_peak) list"
  dr_drain :: "rat option option"

definition field_peak_of :: "string \<Rightarrow> trace_sample list \<Rightarrow> (string \<times> field_peak) option" where
  "field_peak_of name valid =
     (case with_value name valid of
        [] \<Rightarrow> None
      | r # rs \<Rightarrow>
          let peak = first_max (value_of name) r rs in
          Some (name, \<lparr>fp_max = value_of name peak, fp_utc = tr_utc peak, fp_last = value_of name (last (r # rs))\<rparr>))"

definition observed_drain :: "(string \<Rightarrow> rat) \<Rightarrow> trace_sample list \<Rightarrow> rat option option" where
  "observed_drain stamp valid =
     (case with_value ''overdue_active_holds'' valid of
        [] \<Rightarrow> None
      | r # rs \<Rightarrow> Some (drain_after stamp ''overdue_active_holds'' (first_max (value_of ''overdue_active_holds'') r rs) (r # rs)))"

definition summarize_drain :: "(string \<Rightarrow> rat) \<Rightarrow> trace_sample option list \<Rightarrow> drain_report result" where
  "summarize_drain stamp samples =
     (let valid = valid_samples samples in
      if valid = [] then Inl (PyError ''ValueError'')
      else Inr
        \<lparr>dr_samples = length valid, dr_errors = length (filter tr_error (List.map_filter id samples)),
         dr_first = tr_utc (hd valid), dr_last = tr_utc (last valid),
         dr_fields = List.map_filter (\<lambda>name. field_peak_of name valid) DRAIN_FIELDS,
         dr_drain = observed_drain stamp valid\<rparr>)"

section \<open>The flow of refreshes\<close>

text \<open>\<open>int\<close> on a number.\<close>

definition py_int :: "rat \<Rightarrow> int" where
  "py_int x = (if x < 0 then - \<lfloor>- x\<rfloor> else \<lfloor>x\<rfloor>)"

definition int_value :: "string \<Rightarrow> trace_sample \<Rightarrow> int" where
  "int_value name s = py_int (value_of name s)"

record flow =
  fl_delta :: "int option"
  fl_rate :: "rat option"

definition delta_rate :: "(string \<Rightarrow> rat) \<Rightarrow> trace_sample list \<Rightarrow> string \<Rightarrow> flow" where
  "delta_rate stamp rows field =
     (let measured = with_value field rows in
      if length measured < 2 then \<lparr>fl_delta = None, fl_rate = None\<rparr>
      else let seconds = stamp (tr_utc (last measured)) - stamp (tr_utc (hd measured));
               change = max 0 (int_value field (last measured) - int_value field (hd measured)) in
           \<lparr>fl_delta = Some change, fl_rate = (if seconds > 0 then Some (of_int change / seconds) else None)\<rparr>)"

record pipeline_report =
  pr_backend :: nat
  pr_backend_errors :: nat
  pr_kafka :: nat
  pr_kafka_errors :: nat
  pr_lag_max :: int
  pr_lag_utc :: string
  pr_lag_last :: int
  pr_partition_lag :: int
  pr_drain :: "rat option"
  pr_members :: int
  pr_flows :: "(string \<times> flow) list"
  pr_pending_last :: int
  pr_pending_max :: int
  pr_oldest :: rat

definition int_max :: "string \<Rightarrow> trace_sample list \<Rightarrow> int" where
  "int_max name ss = (case map (int_value name) ss of [] \<Rightarrow> 0 | x # xs \<Rightarrow> fold max xs x)"

text \<open>The lag is compared as an \<open>int\<close>, also where it is looked up for the drain.\<close>

definition summarize_pipeline :: "(string \<Rightarrow> rat) \<Rightarrow> trace_sample option list \<Rightarrow> trace_sample option list \<Rightarrow> pipeline_report result" where
  "summarize_pipeline stamp backend_rows kafka_rows =
     (case (valid_samples backend_rows, valid_samples kafka_rows) of
        (b # bs, k # ks) \<Rightarrow>
          let peak = first_max (\<lambda>s. of_int (int_value ''total_lag'' s)) k ks;
              later = filter (\<lambda>s. tr_utc s > tr_utc peak) (k # ks) in
          Inr \<lparr>pr_backend = length (b # bs), pr_backend_errors = length backend_rows - length (b # bs),
               pr_kafka = length (k # ks), pr_kafka_errors = length kafka_rows - length (k # ks),
               pr_lag_max = int_value ''total_lag'' peak, pr_lag_utc = tr_utc peak, pr_lag_last = int_value ''total_lag'' (last (k # ks)),
               pr_partition_lag = int_max ''max_partition_lag'' (k # ks),
               pr_drain = map_option (\<lambda>s. stamp (tr_utc s) - stamp (tr_utc peak)) (find (\<lambda>s. int_value ''total_lag'' s = 0) later),
               pr_members = int_max ''members'' (k # ks),
               pr_flows =
                 [(''refresh_generated'', delta_rate stamp (b # bs) ''refresh_generation_total''),
                  (''refresh_completed'', delta_rate stamp (b # bs) ''refresh_completed_generation_total''),
                  (''outbox_rows_inserted'', delta_rate stamp (b # bs) ''outbox_rows_inserted''),
                  (''consumer_inbox_rows_inserted'', delta_rate stamp (b # bs) ''consumer_inbox_rows_inserted'')],
               pr_pending_last = int_value ''pending_refresh'' (last (b # bs)), pr_pending_max = int_max ''pending_refresh'' (b # bs),
               pr_oldest = max_or_zero (map (value_of ''oldest_refresh_seconds'') (b # bs))\<rparr>
      | _ \<Rightarrow> Inl (PyError ''ValueError''))"

section \<open>Two baselines\<close>

record baseline_plan =
  bp_name :: string
  bp_execution :: "rat option"
  bp_client :: "rat option"

record baseline =
  bl_pass :: bool
  bl_version :: "string option"
  bl_plans :: "baseline_plan list"

record plan_comparison =
  pc_name :: string
  pc_local :: "rat option"
  pc_candidate :: "rat option"
  pc_ratio :: "rat option"
  pc_local_client :: "rat option"
  pc_candidate_client :: "rat option"
  pc_client_ratio :: "rat option"

record comparison =
  co_local :: bool
  co_candidate :: bool
  co_versions :: "string option \<times> string option"
  co_plans :: "plan_comparison list"
  co_pass :: bool

definition ratio :: "rat option \<Rightarrow> rat option \<Rightarrow> rat option" where
  "ratio candidate base =
     (case (candidate, base) of (Some c, Some b) \<Rightarrow> if b = 0 then None else Some (c / b) | _ \<Rightarrow> None)"

definition plans_by_name :: "baseline \<Rightarrow> (string \<times> baseline_plan) list" where
  "plans_by_name b = fold (\<lambda>p m. dict_put (bp_name p) p m) (bl_plans b) []"

definition compare_plan :: "(string \<times> baseline_plan) list \<Rightarrow> (string \<times> baseline_plan) list \<Rightarrow> string \<Rightarrow> plan_comparison" where
  "compare_plan before after name =
     (let b = map_of before name; a = map_of after name;
          be = Option.bind b bp_execution; ae = Option.bind a bp_execution; bc = Option.bind b bp_client; ac = Option.bind a bp_client in
      \<lparr>pc_name = name, pc_local = be, pc_candidate = ae, pc_ratio = ratio ae be,
       pc_local_client = bc, pc_candidate_client = ac, pc_client_ratio = ratio ac bc\<rparr>)"

definition compare_baselines :: "baseline \<Rightarrow> baseline \<Rightarrow> comparison" where
  "compare_baselines base candidate =
     (let before = plans_by_name base; after = plans_by_name candidate;
          plans = map (compare_plan before after) (sort (remdups (map fst before @ map fst after))) in
      \<lparr>co_local = bl_pass base, co_candidate = bl_pass candidate, co_versions = (bl_version base, bl_version candidate),
       co_plans = plans, co_pass = bl_pass base \<and> bl_pass candidate \<and> plans \<noteq> []\<rparr>)"

text \<open>The script; it refuses an output that exists.\<close>

definition compare_main :: "bool \<Rightarrow> baseline \<Rightarrow> baseline \<Rightarrow> int" where
  "compare_main output_exists base candidate = (if output_exists then 2 else if co_pass (compare_baselines base candidate) then 0 else 1)"

section \<open>Staircases of load stages\<close>

record mixed_stage =
  mx_rate :: nat
  mx_offset :: nat
  mx_exit :: int
  mx_pass :: bool

record mixed_report =
  mr_stages :: "mixed_stage list"
  mr_selected :: "nat option"

text \<open>
  What the \<open>k\<close>-th run of the generator gives: its exit code and whether its summary says \<open>gate_pass\<close>, or \<open>None\<close> when it is
  still running after 420 seconds, which ends the script.
\<close>

type_synonym stage_outcomes = "nat \<Rightarrow> (int \<times> bool) option"

definition run_mixed :: "stage_outcomes \<Rightarrow> nat \<Rightarrow> mixed_report \<Rightarrow> (bool \<times> mixed_report) result" where
  "run_mixed outcome rate s =
     (case outcome (length (mr_stages s)) of
        None \<Rightarrow> Inl (PyError ''TimeoutExpired'')
      | Some (code, gate) \<Rightarrow>
          let passed = (code = 0 \<and> gate) in
          Inr (passed,
            \<lparr>mr_stages = mr_stages s @ [\<lparr>mx_rate = rate, mx_offset = length (mr_stages s) * 40, mx_exit = code, mx_pass = passed\<rparr>],
             mr_selected = (if passed then Some rate else mr_selected s)\<rparr>))"

text \<open>The rates in turn while the stages pass, or until one passes.\<close>

fun climb_rates :: "stage_outcomes \<Rightarrow> bool \<Rightarrow> nat list \<Rightarrow> mixed_report \<Rightarrow> mixed_report result" where
  "climb_rates outcome going [] s = Inr s"
| "climb_rates outcome going (r # rs) s =
     ebind (run_mixed outcome r s) (\<lambda>(passed, s'). if passed = going then climb_rates outcome going rs s' else Inr s')"

definition mixed_main :: "stage_outcomes \<Rightarrow> (mixed_report \<times> int) result" where
  "mixed_main outcome =
     ebind (climb_rates outcome True [400, 500, 600, 800] \<lparr>mr_stages = [], mr_selected = None\<rparr>) (\<lambda>s.
     ebind (if mr_selected s = None then climb_rates outcome False [200, 100] s else Inr s) (\<lambda>s.
     Inr (s, if mr_selected s = None then 1 else 0)))"

definition PRIVATE_RATES :: "nat list" where
  "PRIVATE_RATES = [100, 200, 400, 800, 1200, 1600]"

text \<open>The private stages: the seat offset of a rate depends on its place in the list; the first failure ends them.\<close>

fun private_stages :: "(nat \<Rightarrow> int) \<Rightarrow> nat \<Rightarrow> (nat \<times> nat) list \<Rightarrow> (nat \<times> nat \<times> int) list" where
  "private_stages code start [] = []"
| "private_stages code start ((index, rate) # rest) =
     (if rate < start then private_stages code start rest
      else (rate, 10 + index * 40, code rate) # (if code rate \<noteq> 0 then [] else private_stages code start rest))"

definition private_main :: "(nat \<Rightarrow> int) \<Rightarrow> nat \<Rightarrow> (nat \<times> nat \<times> int) list" where
  "private_main code start = private_stages code start (enumerate 0 PRIVATE_RATES)"

section \<open>Facts about traces\<close>

lemma first_max_member: "first_max f x xs \<in> set (x # xs)"
proof (induction xs arbitrary: x)
  case (Cons y ys)
  from Cons [of "if f y > f x then y else x"] show ?case by (auto split: if_splits)
qed simp

lemma first_max_bound: "y \<in> set (x # xs) \<Longrightarrow> f y \<le> f (first_max f x xs)"
proof (induction xs arbitrary: x y)
  case (Cons z zs)
  let ?m = "if f z > f x then z else x"
  have le: "f ?m \<le> f (first_max f ?m zs)" by (rule Cons.IH) simp
  show ?case
  proof (cases "y \<in> set zs")
    case True
    then show ?thesis using Cons.IH [of y ?m] by simp
  next
    case False
    then have "f y \<le> f ?m" using Cons.prems by auto
    then show ?thesis using le by simp
  qed
qed simp

text \<open>The reported peak of a field is reached, at the reported time, and no sample exceeds it.\<close>

lemma field_peak_exact:
  assumes "field_peak_of name valid = Some (n, p)"
  shows "n = name \<and> (\<exists>s\<in>set valid. map_of (tr_values s) name = Some (fp_max p) \<and> tr_utc s = fp_utc p) \<and>
    (\<forall>s\<in>set valid. \<forall>v. map_of (tr_values s) name = Some v \<longrightarrow> v \<le> fp_max p)"
proof -
  obtain r rs where rows: "with_value name valid = r # rs"
    and p: "n = name" "fp_max p = value_of name (first_max (value_of name) r rs)" "fp_utc p = tr_utc (first_max (value_of name) r rs)"
    using assms by (auto simp: field_peak_of_def Let_def split: list.splits)
  define peak where "peak = first_max (value_of name) r rs"
  have "peak \<in> set (with_value name valid)" unfolding rows peak_def by (rule first_max_member)
  then have peak: "peak \<in> set valid" "map_of (tr_values peak) name = Some (fp_max p)" "tr_utc peak = fp_utc p"
    by (auto simp: with_value_def p value_of_def peak_def [symmetric])
  have "v \<le> fp_max p" if "s \<in> set valid" "map_of (tr_values s) name = Some v" for s v
  proof -
    have "s \<in> set (r # rs)" unfolding rows [symmetric] using that by (simp add: with_value_def)
    from first_max_bound [OF this, of "value_of name"] that(2) show ?thesis by (simp add: p value_of_def)
  qed
  then show ?thesis using peak p(1) by blast
qed

text \<open>
  A reported drain ends at a sample after the peak with nothing left; where the texts of the time stamps are ordered as
  the times are, it is positive.
\<close>

lemma drain_ends_at_zero:
  assumes "drain_after stamp name peak ss = Some t"
  shows "\<exists>s\<in>set ss. value_of name s = 0 \<and> tr_utc peak < tr_utc s \<and> t = stamp (tr_utc s) - stamp (tr_utc peak)"
proof -
  let ?later = "filter (\<lambda>s. tr_utc s > tr_utc peak) ss"
  obtain s where s: "find (\<lambda>s. value_of name s = 0) ?later = Some s" and t: "t = stamp (tr_utc s) - stamp (tr_utc peak)"
    using assms by (auto simp: drain_after_def)
  from s obtain i where "i < length ?later" and i: "s = ?later ! i" and zero: "value_of name s = 0" unfolding find_Some_iff by blast
  then have "s \<in> set ?later" unfolding i by (intro nth_mem)
  then show ?thesis using t zero by auto
qed

lemma drain_positive:
  assumes "drain_after stamp name peak ss = Some t" and "\<And>a b. a < b \<Longrightarrow> stamp a < stamp b"
  shows "0 < t"
proof -
  obtain s :: trace_sample where "tr_utc peak < tr_utc s" and t: "t = stamp (tr_utc s) - stamp (tr_utc peak)"
    using drain_ends_at_zero [OF assms(1)] by blast
  then show ?thesis using assms(2) by simp
qed

text \<open>
  Fact.  A trace in which nothing was ever overdue is reported with a drain: the peak is its first sample, and the
  next one ends the drain.
\<close>

lemma first_max_flat: "\<forall>y\<in>set xs. f y \<le> f x \<Longrightarrow> first_max f x xs = x"
  by (induction xs) auto

lemma quiet_trace_reports_drain:
  assumes "\<forall>s\<in>set (r # r' # rs). map_of (tr_values s) ''overdue_active_holds'' = Some 0" and "tr_utc r < tr_utc r'"
  shows "observed_drain stamp (r # r' # rs) = Some (Some (stamp (tr_utc r') - stamp (tr_utc r)))"
proof -
  have rows: "with_value ''overdue_active_holds'' (r # r' # rs) = r # r' # rs"
    unfolding with_value_def by (rule filter_True) (use assms(1) in auto)
  have zero: "value_of ''overdue_active_holds'' s = 0" if "s \<in> set (r # r' # rs)" for s
    using assms(1) that unfolding value_of_def by fastforce
  have "first_max (value_of ''overdue_active_holds'') r (r' # rs) = r" by (rule first_max_flat) (use zero in auto)
  then show ?thesis unfolding observed_drain_def rows using assms(2) zero [of r'] by (simp add: drain_after_def)
qed

lemma delta_rate_nonneg:
  "(\<forall>d. fl_delta (delta_rate stamp rows field) = Some d \<longrightarrow> 0 \<le> d) \<and> (\<forall>x. fl_rate (delta_rate stamp rows field) = Some x \<longrightarrow> 0 \<le> x)"
  by (auto simp: delta_rate_def Let_def)

section \<open>Facts about the staircases\<close>

text \<open>Every stage has seats of its own: the offset of the \<open>k\<close>-th stage is \<open>40 k\<close>.\<close>

definition stages_ok :: "mixed_report \<Rightarrow> bool" where
  "stages_ok s \<longleftrightarrow> map mx_offset (mr_stages s) = map (\<lambda>k. k * 40) [0..<length (mr_stages s)] \<and>
     mr_selected s = (case filter mx_pass (mr_stages s) of [] \<Rightarrow> None | p # ps \<Rightarrow> Some (mx_rate (last (p # ps))))"

lemma run_mixed_ok: "run_mixed outcome rate s = Inr (passed, s') \<Longrightarrow> stages_ok s \<Longrightarrow> stages_ok s'"
  by (auto simp: run_mixed_def stages_ok_def Let_def split: option.splits list.splits if_splits)

lemma run_mixed_length: "run_mixed outcome rate s = Inr (passed, s') \<Longrightarrow> length (mr_stages s') = Suc (length (mr_stages s))"
  by (auto simp: run_mixed_def Let_def split: option.splits)

lemma run_rates_ok:
  "climb_rates outcome going rates s = Inr s' \<Longrightarrow> stages_ok s \<Longrightarrow> stages_ok s' \<and> length (mr_stages s') \<le> length (mr_stages s) + length rates"
proof (induction rates arbitrary: s)
  case (Cons r rs)
  then obtain passed s1 where s1: "run_mixed outcome r s = Inr (passed, s1)"
    and rest: "(if passed = going then climb_rates outcome going rs s1 else Inr s1) = Inr s'"
    by (auto simp: ebind_def split: sum.splits)
  note ok = run_mixed_ok [OF s1 Cons.prems(2)] and len = run_mixed_length [OF s1]
  show ?case
  proof (cases "passed = going")
    case True
    then have "climb_rates outcome going rs s1 = Inr s'" using rest by simp
    from Cons.IH [OF this ok] len show ?thesis by simp
  next
    case False
    then show ?thesis using rest ok len by simp
  qed
qed simp

lemma mixed_main_ok:
  assumes "mixed_main outcome = Inr (s, code)"
  shows "stages_ok s \<and> (code = 0 \<longleftrightarrow> (\<exists>x\<in>set (mr_stages s). mx_pass x)) \<and> length (mr_stages s) \<le> 6"
proof -
  obtain s1 where s1: "climb_rates outcome True [400, 500, 600, 800] \<lparr>mr_stages = [], mr_selected = None\<rparr> = Inr s1"
    and s: "(if mr_selected s1 = None then climb_rates outcome False [200, 100] s1 else Inr s1) = Inr s"
    and code: "code = (if mr_selected s = None then 1 else 0)"
    using assms by (auto simp: mixed_main_def ebind_def split: sum.splits)
  have "stages_ok \<lparr>mr_stages = [], mr_selected = None\<rparr>" by (simp add: stages_ok_def)
  note ok1 = run_rates_ok [OF s1 this]
  have ok: "stages_ok s" "length (mr_stages s) \<le> length (mr_stages s1) + 2"
    using s ok1 run_rates_ok [of outcome False "[200, 100]" s1 s] by (auto split: if_splits)
  have "mr_selected s = None \<longleftrightarrow> filter mx_pass (mr_stages s) = []" using ok(1) by (simp add: stages_ok_def split: list.splits)
  then show ?thesis using ok ok1 code by (auto simp: filter_empty_conv)
qed

text \<open>The private stages have seats of their own as well, and only the last can have failed.\<close>

lemma private_stage_of: "(rate, offset, c) \<in> set (private_stages code start xs) \<Longrightarrow> c = code rate \<and> start \<le> rate \<and> (\<exists>i. (i, rate) \<in> set xs \<and> offset = 10 + i * 40)"
  by (induction code start xs rule: private_stages.induct) (auto split: if_splits)

lemma private_failure_last:
  "private_stages code start xs = ys @ (rate, offset, c) # zs \<Longrightarrow> c \<noteq> 0 \<Longrightarrow> zs = []"
proof (induction code start xs arbitrary: ys rule: private_stages.induct)
  case (2 code start index r rest)
  show ?case
  proof (cases "r < start")
    case True
    then show ?thesis using 2 by simp
  next
    case False
    then show ?thesis using 2 by (cases ys) (auto split: if_splits)
  qed
qed simp

section \<open>Facts about the comparison\<close>

lemma plans_by_name_keys: "set (map fst (plans_by_name b)) = bp_name ` set (bl_plans b)"
proof -
  have "set (map fst (fold (\<lambda>p m. dict_put (bp_name p) p m) ps m)) = set (map fst m) \<union> bp_name ` set ps" for ps :: "baseline_plan list" and m
  proof (induction ps arbitrary: m)
    case (Cons p ps)
    show ?case using Cons.IH [of "dict_put (bp_name p) p m"] unfolding keys_dict_put by simp
  qed simp
  then show ?thesis by (simp add: plans_by_name_def)
qed

text \<open>
  Fact.  A comparison passes exactly when both baselines passed and one of them has a plan; it then has one row per
  plan name of either side.
\<close>

lemma compare_pass_exact:
  "co_pass (compare_baselines b c) \<longleftrightarrow> bl_pass b \<and> bl_pass c \<and> (bl_plans b \<noteq> [] \<or> bl_plans c \<noteq> [])"
proof -
  have "plans_by_name x = [] \<longleftrightarrow> bl_plans x = []" for x :: baseline
  proof -
    have "plans_by_name x = [] \<longleftrightarrow> set (map fst (plans_by_name x)) = {}" by simp
    then show ?thesis unfolding plans_by_name_keys by simp
  qed
  moreover have "sort xs = [] \<longleftrightarrow> xs = []" for xs :: "string list" by (metis set_sort set_empty)
  ultimately show ?thesis by (auto simp: compare_baselines_def Let_def)
qed

lemma compare_rows: "set (map pc_name (co_plans (compare_baselines b c))) = bp_name ` (set (bl_plans b) \<union> set (bl_plans c))"
  using plans_by_name_keys [of b] plans_by_name_keys [of c]
  by (simp add: compare_baselines_def Let_def compare_plan_def comp_def image_Un)

end
