(* ===== verification/Benchmark_Observe.thy ===== *)
theory Benchmark_Observe
  imports Traces Fixtures
begin

text \<open>
  The observer of a benchmark's backend (\<open>scripts/cloud_benchmark_observe.py\<close>): every round reads the queues of the
  database, the server's counters, the expiry of the seat maps and the metrics of the API into one sample.  The
  connection commits each query by itself, so a query has its own clock and its own state of the database; what
  the server's statistics, Redis' \<open>INFO\<close> and the metrics endpoint answer are parameters.
\<close>

section \<open>Metrics of the API\<close>

definition OBSERVED_METRICS :: "string list" where
  "OBSERVED_METRICS =
     [''ticketing_db_commit_seconds_count'', ''ticketing_db_commit_seconds_sum'', ''ticketing_db_rollback_seconds_count'',
      ''ticketing_db_rollback_seconds_sum'', ''ticketing_db_pool_return_seconds_count'', ''ticketing_db_pool_return_seconds_sum'',
      ''ticketing_db_pool_acquire_seconds_count'', ''ticketing_db_pool_acquire_seconds_sum'', ''ticketing_db_transaction_seconds_count'',
      ''ticketing_db_transaction_seconds_sum'', ''ticketing_db_query_seconds_count'', ''ticketing_db_query_seconds_sum'',
      ''ticketing_db_transaction_body_seconds_count'', ''ticketing_db_transaction_body_seconds_sum'',
      ''ticketing_worker_busy_seconds_total'', ''ticketing_worker_active'', ''ticketing_http_connection_close_total'',
      ''ticketing_http_connection_age_seconds_count'', ''ticketing_http_connection_age_seconds_sum'', ''ticketing_db_pool_state'']"

text \<open>\<open>rsplit(" ", 1)\<close> of a text with a space.\<close>

definition rsplit_blank :: "string \<Rightarrow> string \<times> string" where
  "rsplit_blank s =
     (rev (tl (dropWhile (\<lambda>c. c \<noteq> CHR '' '') (rev s))), rev (takeWhile (\<lambda>c. c \<noteq> CHR '' '') (rev s)))"

definition metric_of_line :: "(string \<Rightarrow> rat option) \<Rightarrow> string \<Rightarrow> (string \<times> rat) option" where
  "metric_of_line to_float raw =
     (let line = strip raw in
      if line = [] \<or> starts_with ''#'' line \<or> CHR '' '' \<notin> set line then None
      else let (metric, text) = rsplit_blank line in
        if takeWhile (\<lambda>c. c \<noteq> CHR ''{'') metric \<notin> set OBSERVED_METRICS then None
        else map_option (Pair metric) (to_float text))"

definition query_metrics :: "(string \<Rightarrow> rat option) \<Rightarrow> string \<Rightarrow> gauges" where
  "query_metrics to_float txt =
     fold (\<lambda>l m. case metric_of_line to_float l of None \<Rightarrow> m | Some (k, v) \<Rightarrow> dict_put k v m) (split_lines txt) []"

section \<open>The queries\<close>

definition seconds_of :: "time \<Rightarrow> rat" where
  "seconds_of t = of_int t / 1000000"

definition OVERDUE_SQL :: "uuid list \<Rightarrow> time \<times> db \<Rightarrow> nat \<times> rat" where
  "OVERDUE_SQL shows = (\<lambda>(now, d).
     let hs = filter (\<lambda>h. h_event h \<in> set shows \<and> h_status h = H_ACTIVE \<and> h_expires h < now) (holds d) in
     (length hs, seconds_of (oldest_age now (map h_expires hs))))"

definition AGE_SQL :: "uuid list \<Rightarrow> time \<times> db \<Rightarrow> rat" where
  "AGE_SQL shows = (\<lambda>(now, d).
     seconds_of (oldest_age now (List.map_filter q_last (filter (\<lambda>r. q_event r \<in> set shows) (event_reconciliation d)))))"

definition QUEUE_SQL :: "time \<times> db \<Rightarrow> nat \<times> nat \<times> rat \<times> nat" where
  "QUEUE_SQL = (\<lambda>(now, d).
     let dirty = filter (\<lambda>f. f_generation f > f_completed f) (seat_refresh_requests d) in
     (length (filter (\<lambda>x. x_published x = None) (outbox_events d)), length dirty,
      seconds_of (oldest_age now (map f_requested dirty)), length (dead_letters d)))"

text \<open>The generations; the two counters of inserted rows come from the server's statistics.\<close>

definition REFRESH_FLOW_SQL :: "int \<times> int \<Rightarrow> db \<Rightarrow> int list" where
  "REFRESH_FLOW_SQL inserted d =
     [sum_list (map f_generation (seat_refresh_requests d)), sum_list (map f_completed (seat_refresh_requests d)), fst inserted, snd inserted]"

text \<open>
  The answers from outside: inserted rows, activity, WAL, checkpoints (a row each, or none), the optional row of the
  WAL writer, memory and clients of Redis, and the text of the metrics.
\<close>

record outside_rows =
  ow_inserted :: "int \<times> int"
  ow_activity :: "rat list option"
  ow_wal :: "rat list option"
  ow_checkpoint :: "rat list option"
  ow_wal_io :: "rat list option"
  ow_redis :: "rat \<times> rat"
  ow_metrics :: string

record observed_sample = trace_sample +
  ob_wal_io :: "gauges option"
  ob_metrics :: gauges

text \<open>\<open>row[i] if row else 0\<close>, as an \<open>int\<close> or a \<open>float\<close>.\<close>

definition column :: "bool \<Rightarrow> rat list option \<Rightarrow> nat \<Rightarrow> rat" where
  "column whole row i =
     (case row of None \<Rightarrow> 0 | Some vs \<Rightarrow> if i < length vs then (if whole then of_int (py_int (vs ! i)) else vs ! i) else 0)"

definition server_values :: "outside_rows \<Rightarrow> gauges" where
  "server_values e =
     zip [''database_connections'', ''lock_waiters'', ''active_connections''] (map (column True (ow_activity e)) [0..<3]) @
     zip [''wal_records'', ''wal_fpi'', ''wal_bytes''] (map (column True (ow_wal e)) [0..<3]) @
     zip [''wal_sync_ms'', ''wal_write_ms''] (map (column False (ow_wal e)) [3..<5]) @
     zip [''checkpoints_timed'', ''checkpoints_requested''] (map (column True (ow_checkpoint e)) [0..<2]) @
     zip [''checkpoint_sync_ms'', ''checkpoint_write_ms''] (map (column False (ow_checkpoint e)) [2..<4]) @
     zip [''buffers_checkpoint'', ''buffers_clean'', ''buffers_backend_fsync''] (map (column True (ow_checkpoint e)) [4..<7])"

definition queue_values :: "uuid list \<Rightarrow> (nat \<Rightarrow> time \<times> db) \<Rightarrow> int \<times> int \<Rightarrow> gauges" where
  "queue_values shows view inserted =
     (case (OVERDUE_SQL shows (view 0), QUEUE_SQL (view 2)) of
        ((overdue, oldest), (unpublished, pending, requested, dead)) \<Rightarrow>
          [(''overdue_active_holds'', of_nat overdue), (''oldest_overdue_seconds'', oldest),
           (''reconciliation_age_seconds'', AGE_SQL shows (view 1)), (''unpublished_outbox'', of_nat unpublished),
           (''pending_refresh'', of_nat pending), (''oldest_refresh_seconds'', requested), (''dead_letters'', of_nat dead)] @
          zip [''refresh_generation_total'', ''refresh_completed_generation_total'', ''outbox_rows_inserted'', ''consumer_inbox_rows_inserted'']
            (map of_int (REFRESH_FLOW_SQL inserted (snd (view 3)))))"

definition map_values :: "int list \<Rightarrow> rat \<times> rat \<Rightarrow> gauges" where
  "map_values ttls redis =
     [(''missing_maps'', of_nat (length (filter (\<lambda>t. t = -2) ttls))), (''maps_without_ttl'', of_nat (length (filter (\<lambda>t. t = -1) ttls))),
      (''minimum_ttl'', of_int (case ttls of [] \<Rightarrow> 0 | t # ts \<Rightarrow> fold min ts t)),
      (''redis_used_bytes'', fst redis), (''redis_connected_clients'', snd redis)]"

definition failed_sample :: "string \<Rightarrow> observed_sample" where
  "failed_sample utc = \<lparr>tr_utc = utc, tr_error = True, tr_values = [], ob_wal_io = None, ob_metrics = []\<rparr>"

text \<open>
  A round: an exception of PostgreSQL, Redis or the endpoint (\<open>Inl\<close>) leaves only the error, and so does \<open>min\<close> of no
  seat map.
\<close>

definition benchmark_sample ::
  "(string \<Rightarrow> rat option) \<Rightarrow> uuid list \<Rightarrow> string \<Rightarrow> (nat \<Rightarrow> time \<times> db) \<Rightarrow> time \<times> seatmaps \<Rightarrow> exc + outside_rows \<Rightarrow> observed_sample"
where
  "benchmark_sample to_float shows utc view cached outside =
     (case outside of
        Inl _ \<Rightarrow> failed_sample utc
      | Inr e \<Rightarrow>
          let ttls = map (\<lambda>ev. map_ttl (fst cached) (snd cached ev)) shows in
          if ttls = [] then failed_sample utc
          else \<lparr>tr_utc = utc, tr_error = False,
                tr_values = queue_values shows view (ow_inserted e) @ server_values e @ map_values ttls (ow_redis e),
                ob_wal_io = map_option (zip [''read_ms'', ''write_ms'', ''fsync_ms'', ''sync_ms'']) (ow_wal_io e),
                ob_metrics = query_metrics to_float (ow_metrics e)\<rparr>)"

definition benchmark_round :: "(nat \<Rightarrow> observed_sample) \<Rightarrow> nat \<Rightarrow> observed_sample list \<Rightarrow> observed_sample list" where
  "benchmark_round sample k samples = samples @ [sample k]"

section \<open>Facts\<close>

interpretation benchmark_sampler: sampler "benchmark_round sample" "\<lambda>k. tr_error (sample k)" length "\<lambda>ss. length (filter tr_error ss)"
  for sample
  by unfold_locales (simp_all add: benchmark_round_def)

text \<open>What the report on the drain reads of the recorded samples.\<close>

definition trace_of :: "observed_sample list \<Rightarrow> trace_sample option list" where
  "trace_of ss = map (\<lambda>s. Some (trace_sample.truncate s)) ss"

lemma sample_overdue:
  assumes "\<not> tr_error (benchmark_sample to_float shows utc view cached outside)"
  shows "map_of (tr_values (benchmark_sample to_float shows utc view cached outside)) ''overdue_active_holds'' =
    Some (of_nat (fst (OVERDUE_SQL shows (view 0))))"
  using assms by (auto simp: benchmark_sample_def failed_sample_def queue_values_def Let_def case_prod_unfold split: sum.splits if_splits)

text \<open>The values of the queues are those of the check of the queues, when nothing happens between the queries.\<close>

lemma sample_agrees_with_queue_state:
  assumes "\<And>k. view k = (now, d)"
  shows "fst (OVERDUE_SQL shows (view 0)) = qs_overdue (queue_state_of now shows d)"
    and "fst (QUEUE_SQL (view 2)) = qs_unpublished (queue_state_of now shows d)"
    and "fst (snd (QUEUE_SQL (view 2))) = qs_refresh (queue_state_of now shows d)"
    and "snd (snd (snd (QUEUE_SQL (view 2)))) = qs_dead (queue_state_of now shows d)"
  unfolding assms OVERDUE_SQL_def QUEUE_SQL_def queue_state_of_def
  by (simp_all add: Let_def filter_filter conj_ac)

lemma valid_of_trace: "s \<in> set (valid_samples (trace_of ss)) \<Longrightarrow> \<exists>x\<in>set ss. s = trace_sample.truncate x \<and> \<not> tr_error x"
  by (auto simp: valid_samples_def trace_of_def List.map_filter_def trace_sample.defs)

text \<open>
  Fact.  When the report on a recorded run says that the overdue holds drained, the run had a moment at which no
  active hold of the shows was past its expiry.
\<close>

theorem reported_drain_is_real:
  assumes "summarize_drain stamp (trace_of (map (\<lambda>k. benchmark_sample to_float shows (utc k) (view k) (cached k) (outside k)) [0..<n])) = Inr r"
    and "dr_drain r = Some (Some t)"
  shows "\<exists>k<n. \<forall>h\<in>set (holds (snd (view k 0))). h_event h \<in> set shows \<longrightarrow> h_status h = H_ACTIVE \<longrightarrow> fst (view k 0) \<le> h_expires h"
proof -
  define sample where "sample k = benchmark_sample to_float shows (utc k) (view k) (cached k) (outside k)" for k
  define valid where "valid = valid_samples (trace_of (map sample [0..<n]))"
  have "observed_drain stamp valid = Some (Some t)"
    using assms unfolding summarize_drain_def sample_def [symmetric] valid_def [symmetric] by (auto simp: Let_def split: if_splits)
  then obtain peak rows where rows: "with_value ''overdue_active_holds'' valid = rows"
    and drain: "drain_after stamp ''overdue_active_holds'' peak rows = Some t"
    by (auto simp: observed_drain_def split: list.splits)
  obtain s where s: "s \<in> set rows" "value_of ''overdue_active_holds'' s = 0" using drain_ends_at_zero [OF drain] by blast
  then have "s \<in> set valid" using rows by (auto simp: with_value_def)
  then obtain k where k: "k < n" "s = trace_sample.truncate (sample k)" "\<not> tr_error (sample k)"
    using valid_of_trace unfolding valid_def by fastforce
  then have "of_nat (fst (OVERDUE_SQL shows (view k 0))) = (0 :: rat)"
    using s(2) sample_overdue [OF k(3) [unfolded sample_def]] by (simp add: value_of_def trace_sample.defs sample_def)
  then have "fst (OVERDUE_SQL shows (view k 0)) = 0" by simp
  then show ?thesis using k(1) by (intro exI [of _ k]) (force simp: OVERDUE_SQL_def Let_def case_prod_unfold filter_empty_conv)
qed

text \<open>A recorded metric is one of the observed ones.\<close>

lemma metric_of_line_observed: "metric_of_line to_float l = Some (k, v) \<Longrightarrow> takeWhile (\<lambda>c. c \<noteq> CHR ''{'') k \<in> set OBSERVED_METRICS"
  by (auto simp: metric_of_line_def Let_def case_prod_unfold split: if_splits)

lemma query_metrics_observed: "k \<in> set (map fst (query_metrics to_float txt)) \<Longrightarrow> takeWhile (\<lambda>c. c \<noteq> CHR ''{'') k \<in> set OBSERVED_METRICS"
proof -
  have "k \<in> set (map fst (fold (\<lambda>l m. case metric_of_line to_float l of None \<Rightarrow> m | Some (k, v) \<Rightarrow> dict_put k v m) ls m)) \<Longrightarrow>
      k \<in> set (map fst m) \<or> takeWhile (\<lambda>c. c \<noteq> CHR ''{'') k \<in> set OBSERVED_METRICS" for ls m
  proof (induction ls arbitrary: m)
    case (Cons l ls)
    show ?case
    proof (cases "metric_of_line to_float l")
      case None
      then show ?thesis using Cons by simp
    next
      case (Some kv)
      obtain k' v where kv: "kv = (k', v)" by (cases kv)
      have "k \<in> set (map fst (dict_put k' v m)) \<or> takeWhile (\<lambda>c. c \<noteq> CHR ''{'') k \<in> set OBSERVED_METRICS"
        using Cons.IH [of "dict_put k' v m"] Cons.prems Some kv by simp
      then show ?thesis using metric_of_line_observed [OF Some [unfolded kv]] unfolding keys_dict_put by auto
    qed
  qed simp
  then show "k \<in> set (map fst (query_metrics to_float txt)) \<Longrightarrow> ?thesis" unfolding query_metrics_def by fastforce
qed

end
