(* ===== verification/Spec2Isabelle.thy ===== *)
theory Spec2Isabelle
  imports Worker_Facts Api_Facts Http_Facts Pg_Facts Parallel Stage_Facts Hot_Seat Suite_Facts Summaries_Facts
    Read_Probe Pressure_Facts Rds_Preflight Schema_Typing Fixtures Drill Db_Observers Contention Redaction
    Log_Reports Benchmark_Observe
begin

text \<open>
  \<^bold>\<open>Flash-sale ticketing: a verification development.\<close>

  \<^bold>\<open>The program.\<close>  The repository is a Python backend that sells numbered seats.  A buyer browses a seat
  map kept in Redis, holds seats for two minutes, pays through an external provider whose callback
  books the seats or asks for a refund, and gets one ticket per booked seat.  PostgreSQL is the only
  authority over seats and money.  The API processes and six kinds of worker share it and never talk
  to each other directly: they communicate through rows (outbox, inbox, refresh queue,
  reconciliation schedule), through Kafka, and through Redis, which admits, caches and, in the
  Redis-first mode, accepts provisional holds that a writer persists later.

  \<^bold>\<open>How code becomes definitions.\<close>  Tables are lists of records in one record \<open>db\<close>.  A transaction
  body is a function from \<open>db\<close> to \<open>exc + (result, db)\<close>, composed in the order of the code;
  \<open>transaction\<close> keeps the state of a body that returns and restores the old one otherwise, and
  \<open>Pg_Facts\<close> shows that the adapter's context managers do this.  \<open>exc\<close> has a constructor per exception,
  so each \<open>raise\<close> and each constraint violation is a branch.  A Lua script is a function on the Redis
  state, as Redis runs a script atomically; key expiry is an explicit deadline compared with the
  clock argument.  Locks are arguments: \<open>FOR UPDATE SKIP LOCKED\<close> takes the set of rows other
  transactions have locked.  Clocks, fresh ids, hashes, the Kafka client, the HTTP client, jwt and
  HMAC are parameters of the definitions.  Python integers are \<open>int\<close>, times are integers (seconds, or
  milliseconds where the code has them), and the exact quotients of the measurement scripts are
  \<open>rat\<close> where the code uses floats.

  \<^bold>\<open>The theories\<close>, each with the file it models under \<open>src/\<close>:

  \<^item> \<open>Prelude\<close>: exceptions, the result monad, JSON values, finite tables and the lemmas they need.
  \<^item> \<open>Domain\<close> (\<open>domain.py\<close>): states and the payment decision.  \<open>Schema\<close> (\<open>migrations/*.sql\<close>): the
    tables with the constraints that statements can violate.  \<open>Config\<close> (\<open>config.py\<close>): the settings and
    each check of \<open>validate\<close>.
  \<^item> \<open>Shield\<close>, \<open>Seat_Cache\<close>, \<open>Seat_Cache_Facts\<close> (\<open>infrastructure/cache.py\<close>): the seat shield, the rate
    limiter, the scripts PUT, BROWSE and TOUCH, and the per-process body cache; an older row never
    replaces a newer one, along fenced updates equal tags mean equal bodies, and the body cache serves
    only confirmed bodies within its limits.
  \<^item> \<open>Store\<close> (\<open>infrastructure/reservations.py\<close>): one definition per operation of
    \<open>PostgresReservations\<close>.  \<open>Store_Effects\<close> says what the composite writes do; \<open>Store_Inv\<close>,
    \<open>Store_Book\<close>, \<open>Store_Money\<close> and \<open>Store_Settle\<close> define and preserve the invariant \<open>store_inv\<close>;
    \<open>Store_Ops\<close> preserves it for every operation; \<open>Store_Contracts\<close> holds the locales \<open>store_op\<close> and
    \<open>idempotent_op\<close> with their interpretations; \<open>Store_Evolves\<close> follows a seat over time; \<open>Store_Demo\<close>
    is one sale evaluated; \<open>Store_Props\<close> and \<open>Store_Promises\<close> are the promises to callers.
  \<^item> \<open>Intake\<close>, \<open>Intake_Facts\<close> (\<open>infrastructure/redis_reservations.py\<close>): provisional holds in Redis,
    exclusive while they last, replayed under their key, ended as durable or failed.
  \<^item> \<open>Refresh\<close>, \<open>Fulfilment\<close>, \<open>Reconcile\<close>, \<open>Worker\<close> with their \<open>_Facts\<close> (\<open>workers.py\<close>): the projection of
    the inventory, the outbox publisher, the consumer, the payment simulator, the reservation writer,
    the reconciliation schedule, and the loop of a worker process.  They show: a refresh request is
    never lost, an outbox row is published only when acknowledged, an event takes effect once, an
    offset is committed only after its message was handled or kept, leases exclude each other.
  \<^item> \<open>Application\<close>, \<open>Api\<close>, \<open>Api_Facts\<close> (\<open>application/reservations.py\<close>, \<open>api.py\<close>): the use cases over
    either store with the locale \<open>hold_port\<close>, the endpoints, and what a response says about the state.
  \<^item> \<open>Http\<close>, \<open>Http_Facts\<close> (\<open>http.py\<close>): admission of hold requests and the request log as a step
    relation of interleaved coroutines, with its invariant by induction.
  \<^item> \<open>Observability\<close> (\<open>observability.py\<close>), \<open>Pg\<close>, \<open>Pg_Facts\<close> (\<open>infrastructure/postgres.py\<close>): timed
    resources are transparent, and the adapter implements \<open>transaction\<close> whatever the driver does.
  \<^item> \<open>Cli\<close>, \<open>Cli_Facts\<close> (\<open>cli.py\<close>): migrations, seeding, and the replay of dead letters.
  \<^item> \<open>Load\<close>, \<open>Load_Facts\<close>, \<open>Parallel\<close>, \<open>Stage\<close>, \<open>Stage_Facts\<close> (\<open>scripts/http_load_generator.py\<close>,
    \<open>parallel_cloud_load.py\<close>, \<open>unattended_capacity_stage.py\<close>): the arrival plan and seat allocation of
    a load test, its gates, the split over processes, and the stage that deploys, measures and
    rolls back.
  \<^item> \<open>Hold_Audit\<close>, \<open>Hold_Audit_Facts\<close> (\<open>scripts/verify_cloud_holds.py\<close>, \<open>verify_hot_seat.py\<close>,
    \<open>verify_contention_matrix.py\<close>, \<open>cloud_load_preflight.py\<close>): the audits as functions of the database;
    the window query finds exactly the overlapping holds, and a passed audit or preflight means what
    it says about every record and every show.
  \<^item> \<open>Hot_Seat\<close> (\<open>scripts/hot_seat_load.py\<close>): the contention wave, and its run against the hold endpoint,
    which has at most one winner in every order of the transactions.
  \<^item> \<open>Suite\<close>, \<open>Suite_Facts\<close> (\<open>scripts/cloud_stability_suite.py\<close>): the warm-up over the seat-map model,
    stages, observer summaries, and the loops of the suite with the calls they make; what a passed
    warm-up, a passed stage and exit status 0 say, and what they do not.
  \<^item> \<open>Summaries\<close>, \<open>Summaries_Facts\<close> (\<open>scripts/summarize_seatmap_load.py\<close>, \<open>summarize_capacity.py\<close>):
    deltas and percentiles of recorded metrics, and where the two percentiles differ.
  \<^item> \<open>Capacity\<close>, \<open>Read_Probe\<close> (\<open>scripts/capacity_test.py\<close>, \<open>seatmap_load.py\<close>): the fixtures of the two
    local probes as transactions of the store, their workloads, what they observe in the database and
    the seat map, and their gates; a fixture keeps the invariant and makes exactly the free seats it
    names, every scheduled journey is answered or dropped, the drain ends, the holds of the read probe
    never compete for a seat, and a passed stage has an answer for every item.
  \<^item> \<open>Text_Tools\<close>, \<open>Pressure\<close>, \<open>Pressure_Facts\<close> (\<open>scripts/cloud_pressure_observe.py\<close>): from the text of a
    scrape to the summary; the reported histogram bound is the least bucket bound not below the
    nearest-rank percentile, the loop ends, and exit status 0 means that no scrape failed.
  \<^item> \<open>Rds_Preflight\<close> (\<open>scripts/rds_preflight.py\<close>): the checks of a database server; exit status 0 means that
    every requirement holds.
  \<^item> \<open>Fixtures\<close> (\<open>scripts/prepare_capacity_fixture.py\<close>, \<open>export_load_manifest.py\<close>,
    \<open>warm_capacity_manifest.py\<close>, \<open>capacity_queue_state.py\<close>): what is prepared and checked before a distributed
    load test; a fixture keeps the invariant and the schema, an exported token authenticates as its own
    viewer, the warm-up succeeds exactly when every show was served, idle queues mean free seats.
  \<^item> \<open>Drill\<close> (\<open>scripts/cloud_failure_drill.py\<close>, \<open>recovery_drill.py\<close>): the outage drills as functions of what
    the outside answers; every stopped service is started again, and the hold endpoint keeps what the
    drill asserts of an outage of Redis.
  \<^item> \<open>Observers\<close>, \<open>Db_Observers\<close> (\<open>scripts/generator_observe.py\<close>, \<open>kafka_lag_observe.py\<close>,
    \<open>pgbouncer_pressure_observe.py\<close>, \<open>rds_wait_observe.py\<close>, \<open>summarize_rds_waits.py\<close>): the sampling loop once,
    with the locale \<open>sampler\<close> that each observer's round interprets, the parsers, deltas and peaks, and
    the reduction of recorded waits, whose running list of twenty anomalies equals a final sort.
  \<^item> \<open>Contention\<close> (\<open>scripts/ingress_server.py\<close>, \<open>contention_timing.py\<close>, \<open>load_test.py\<close>): the timing wrapper of
    the server, which is transparent, the waves that read its header back, and their verdicts.
  \<^item> \<open>Redaction\<close> (\<open>redact\<close> in \<open>scripts/unattended_capacity_stage.py\<close>): the patterns that hide credentials in
    captured output; which forms they catch, and the header form they leave readable.
  \<^item> \<open>Log_Reports\<close> (\<open>scripts/extract_capacity_api_errors.py\<close>, \<open>summarize_slow_db_phases.py\<close>,
    \<open>summarize_hold_diagnostics.py\<close>, \<open>summarize_ingress.py\<close>, \<open>analyze_hold_contention.py\<close>): the reductions of log
    lines; counters are exact (locale \<open>line_counter\<close>), the heap of twenty equals a final sort, an analysis that
    returns has joined every client with one row of the log.
  \<^item> \<open>Traces\<close>, \<open>Benchmark_Observe\<close> (\<open>scripts/summarize_drain_trace.py\<close>, \<open>summarize_refresh_pipeline.py\<close>,
    \<open>compare_postgres_baselines.py\<close>, \<open>cloud_mixed_stages.py\<close>, \<open>private_cloud_stages.py\<close>,
    \<open>cloud_benchmark_observe.py\<close>): the observer's sample as a function of the database, and the reports on its
    trace; a reported drain means that at some moment no active hold of the shows was overdue.
  \<^item> \<open>System\<close>: \<open>commits\<close> has one rule per transaction of the program and \<open>history\<close> is any sequence of
    them, so the theorems below quantify over all interleavings of all processes.  \<open>Worker_Facts\<close>
    shows that worker iterations and endpoint calls move the database only along histories.
    \<open>Schema_Typing\<close> states the constraints of \<open>migrations/*.sql\<close> as one predicate on the whole database
    and shows that every history keeps it.

  \<^bold>\<open>Bounds and fuel.\<close>  Recursion is structural or has a measure.  Worker and consumer loops run one
  iteration per element of a finite list of inputs, so statements hold after every prefix.  The
  polling of a capacity stage recurses over a bound computed from its own deadline and
  \<open>Stage_Facts.polling_ends\<close> shows that the bound is never what ends it; the readiness wait of the
  suite takes fuel, and \<open>Suite_Facts.readiness_wait_ends\<close> shows that one round per second is enough; the
  drain of the capacity probe and the loop of the pressure observer take fuel, and \<open>drain_rounds_end\<close>
  and \<open>observe_rounds_end\<close> give the number of rounds that is enough, as \<open>generator_observer_ends\<close> and
  \<open>ready_within_rounds\<close> do for the later observers and the readiness wait of the drills.  Transactions interleave at
  the granularity of a commit: the code reads rows it is about to change under row locks, and
  isolation between concurrent bodies is PostgreSQL's.

  \<^bold>\<open>Not modelled.\<close>  FastAPI's parsing and routing, psycopg, the Kafka and Redis clients, jwt and the
  cryptographic primitives, which are third-party code and appear as parameters; process
  management, signal handling, argument parsing and log output; the declarations of metrics; indexes
  and the tables of migration 009, which no code uses; floating-point rounding in the measurement
  scripts; the remaining operator scripts, which start processes, sample metrics and print reports.
\<close>

section \<open>One sale as a history\<close>

lemma open_catalogue: "catalogue open_db"
  by code_simp

lemma paid_history: "history open_db paid_db"
proof -
  let ?x = "reserve (stage_env CHR ''r'' 1000) True True 1000 1500 ''tok'' 120 ''bob'' ''e'' [''A1''] ''k'' (\<lambda>_. None, open_db)"
  have "snd (snd ?x) = held_db" by code_simp
  then have "?x = (fst ?x, fst (snd ?x), held_db)" by (simp add: prod_eq_iff)
  then have "history open_db held_db" by (rule history.step [OF history.start commits.reserve])
  moreover have "commits held_db paying_db"
    unfolding paying_db_def by (rule commits.pay) (rule surjective_pairing)
  moreover have "commits paying_db paid_db"
    unfolding paid_db_def by (rule commits.callback) (rule surjective_pairing)
  ultimately show ?thesis by (blast intro: history.step)
qed

lemma unsold_has_no_booking:
  assumes core: "core_inv d" and o: "order \<in> set (orders d)" "\<not> sold (o_status order)" and b: "b \<in> set (bookings d)"
  shows "b_order b \<noteq> o_id order"
proof
  assume eq: "b_order b = o_id order"
  have bt: "(o_id order, b_event b, b_seat b) \<in> booking_triples d"
    unfolding booking_triples_def by (rule image_eqI [OF _ b]) (simp add: eq)
  then have "(o_id order, b_event b, b_seat b) \<in> item_triples d" using core by (auto simp: core_inv_def booking_inv_def)
  then show False using core o bt by (auto simp: core_inv_def booking_inv_def)
qed

section \<open>The system\<close>

text \<open>
  Property C2.  The invariant of the store holds after every history: however the transactions of all
  processes interleave, the ownership of seats, the money, the outbox, the tickets and the
  idempotency records stay consistent.
\<close>

theorem histories_keep_invariant:
  assumes "catalogue d0" and "history d0 d"
  shows "store_inv d"
  using history_keep [OF assms(2) catalogue_inv [OF assms(1)]] by simp

theorem histories_keep_invariant_witness: "catalogue open_db \<and> history open_db paid_db \<and> store_inv paid_db"
  using open_catalogue paid_history histories_keep_invariant [OF open_catalogue paid_history] by simp

text \<open>
  Property C1.  No seat is sold twice: in every database a history can reach, two bookings of the same
  seat of the same event are the same booking, its order is paid or fulfilled, and the seat's own
  row names that order and no hold.
\<close>

theorem no_seat_sold_twice:
  assumes start: "catalogue d0" and run: "history d0 d"
    and b: "b \<in> set (bookings d)" "b' \<in> set (bookings d)" "b_event b = b_event b'" "b_seat b = b_seat b'"
  shows "b = b' \<and> (\<exists>order\<in>set (orders d). o_id order = b_order b \<and> o_status order \<in> {O_PAID, O_FULFILLED}) \<and>
    (\<exists>s\<in>set (event_seats d). s_event s = b_event b \<and> s_id s = b_seat b \<and> s_booked s = Some (b_order b) \<and> s_hold s = None)"
proof -
  have core: "core_inv d" using history_keep [OF run catalogue_inv [OF start]] by (simp add: store_inv_def)
  have bt: "(b_order b, b_event b, b_seat b) \<in> booking_triples d" using b(1) by (auto simp: booking_triples_def)
  then have it: "(b_order b, b_event b, b_seat b) \<in> item_triples d"
    using core by (auto simp: core_inv_def booking_inv_def)
  then obtain i where i: "i \<in> set (order_items d)" "i_order i = b_order b" "i_event i = b_event b" "i_seat i = b_seat b"
    by (auto simp: item_triples_def)
  then obtain order where o: "order \<in> set (orders d)" "o_id order = b_order b"
    using core by (force simp: core_inv_def item_inv_def)
  have "sold (o_status order)" using core o bt it by (auto simp: core_inv_def booking_inv_def)
  moreover obtain s where s: "s \<in> set (event_seats d)" "s_event s = b_event b" "s_id s = b_seat b"
    using core i by (force simp: core_inv_def item_inv_def item_seat_def seat_key_def)
  moreover have booked: "s_booked s = Some (b_order b)" using core s bt by (auto simp: core_inv_def booking_inv_def)
  moreover have "s_hold s = None"
    using core s(1) booked by (auto simp: core_inv_def seat_inv_def seat_ok_def seat_check_def)
  moreover have "b = b'"
    using core b by (auto simp: core_inv_def keys_inv_def distinct_map inj_on_def booking_key_def)
  ultimately show ?thesis using o by (auto simp: sold_def)
qed

theorem no_seat_sold_twice_witness:
  "\<exists>b\<in>set (bookings paid_db). \<exists>order\<in>set (orders paid_db). o_id order = b_order b \<and> o_status order \<in> {O_PAID, O_FULFILLED}"
proof -
  have "length (bookings paid_db) = 1" by code_simp
  then obtain b where "b \<in> set (bookings paid_db)" by (cases "bookings paid_db") auto
  from no_seat_sold_twice [OF open_catalogue paid_history this this] this show ?thesis by blast
qed

text \<open>
  Property C5.  Every database the program can reach satisfies the schema: from a catalogue that satisfies
  the constraints of the migrations, every history leads to a database that satisfies them too.  Primary
  keys and \<open>UNIQUE\<close> columns stay distinct, no foreign key dangles, and every \<open>CHECK\<close> holds of every row.
\<close>

theorem reachable_databases_satisfy_schema:
  assumes "catalogue d0" and "schema_ok d0" and "history d0 d"
  shows "schema_ok d"
proof (rule rest_schema)
  show "store_inv d" using history_keep [OF assms(3) catalogue_inv [OF assms(1)]] by simp
  show "rest_ok d" by (rule history_rest [OF assms(3) schema_rest [OF assms(2)]])
qed

theorem reachable_databases_satisfy_schema_witness:
  "catalogue open_db \<and> schema_ok open_db \<and> history open_db paid_db \<and> schema_ok paid_db"
proof -
  have ok: "schema_ok open_db" by code_simp
  show ?thesis
    using open_catalogue ok paid_history reachable_databases_satisfy_schema [OF open_catalogue ok paid_history] by simp
qed

text \<open>
  Property C4.  A sold seat stays sold to the same order, and versions never go back: whatever history
  follows, every seat row of a database is still there with its price, with a version at least as
  high, unchanged if the version is the same, and booked for the same order if it was booked.
\<close>

theorem sold_seats_stay_sold:
  assumes start: "catalogue d0" and run: "history d0 d" "history d d'" and s: "s \<in> set (event_seats d)"
  shows "\<exists>s'\<in>set (event_seats d'). seat_key s' = seat_key s \<and> s_price s' = s_price s \<and> s_version s \<le> s_version s' \<and>
    (s_version s' = s_version s \<longrightarrow> s' = s) \<and> (\<forall>oid. s_booked s = Some oid \<longrightarrow> s_booked s' = Some oid)"
proof -
  have "store_inv d" using history_keep [OF run(1) catalogue_inv [OF start]] by simp
  then have "seats_kept d d'" using history_keep [OF run(2)] by simp
  then obtain s' where "s' \<in> set (event_seats d')" "seat_evolves s s'" using s by (auto simp: seats_kept_def)
  then show ?thesis by (intro bexI [of _ s']) (auto simp: seat_evolves_def)
qed

theorem sold_seats_stay_sold_witness:
  "\<exists>s\<in>set (event_seats open_db). \<exists>s'\<in>set (event_seats paid_db).
     seat_key s' = seat_key s \<and> s_price s' = s_price s \<and> s_version s \<le> s_version s'"
proof -
  have "event_seats open_db \<noteq> []" by code_simp
  then obtain s where "s \<in> set (event_seats open_db)" by (cases "event_seats open_db") auto
  from sold_seats_stay_sold [OF open_catalogue history.start paid_history this] this show ?thesis by blast
qed

text \<open>
  Property C3.  Money and seats agree: in every database a history can reach, a payment has succeeded
  exactly when its order is sold or refunded, and then exactly one of the two: either the order is
  paid or fulfilled and has no refund request, or it is being refunded, has a refund request, and
  owns no booking.
\<close>

theorem money_and_seats_agree:
  assumes start: "catalogue d0" and run: "history d0 d" and p: "p \<in> set (payment_attempts d)"
  shows "p_status p = P_SUCCEEDED \<longleftrightarrow> (\<exists>order\<in>set (orders d). o_id order = p_order p \<and>
    (o_status order \<in> {O_PAID, O_FULFILLED} \<and> (\<forall>q\<in>set (refund_requests d). r_order q \<noteq> o_id order) \<or>
     o_status order \<in> {O_REFUND_PENDING, O_REFUNDED} \<and> (\<exists>q\<in>set (refund_requests d). r_order q = o_id order) \<and>
       (\<forall>b\<in>set (bookings d). b_order b \<noteq> o_id order)))"
    (is "_ \<longleftrightarrow> (\<exists>order\<in>_. ?ok order)")
proof -
  have inv: "store_inv d" using history_keep [OF run catalogue_inv [OF start]] by simp
  then have core: "core_inv d" and pay: "pay_inv d" by (simp_all add: store_inv_def)
  obtain order where o: "order \<in> set (orders d)" "o_id order = p_order p"
    using pay_invD(4) [OF pay] p by force
  have same: "order' = order" if "order' \<in> set (orders d)" "o_id order' = p_order p" for order'
    using core o that by (auto simp: core_inv_def keys_inv_def distinct_map inj_on_def)
  have paid: "p_status p = P_SUCCEEDED \<longleftrightarrow> fin (o_status order) \<noteq> None"
    using pay_invD(5) [OF pay p] fate_order [OF core o(1)] o(2) by simp
  have refund: "(\<exists>q\<in>set (refund_requests d). r_order q = o_id order) \<longleftrightarrow> refund_fate (fin (o_status order))"
    using pay_invD(9) [OF pay, of "o_id order"] fate_order [OF core o(1)] by (metis imageE imageI)
  have nobook: "\<forall>b\<in>set (bookings d). b_order b \<noteq> o_id order" if "\<not> sold (o_status order)"
    using unsold_has_no_booking [OF core o(1) that] by blast
  have "fin (o_status order) \<noteq> None \<longleftrightarrow> ?ok order"
    using refund nobook o(2) by (cases "o_status order") (simp_all add: sold_def)
  then show ?thesis using paid same o by blast
qed

theorem money_and_seats_agree_witness:
  "\<exists>p\<in>set (payment_attempts paid_db). \<exists>order\<in>set (orders paid_db). o_id order = p_order p \<and>
     o_status order \<in> {O_PAID, O_FULFILLED, O_REFUND_PENDING, O_REFUNDED}"
proof -
  have "map p_status (payment_attempts paid_db) = [P_SUCCEEDED]" by code_simp
  then obtain p where p: "p \<in> set (payment_attempts paid_db)" "p_status p = P_SUCCEEDED" by (auto simp: map_eq_Cons_conv)
  from money_and_seats_agree [OF open_catalogue paid_history p(1)] p show ?thesis by blast
qed

end
